(* ===== verification/Zecd_Prelude.thy ===== *)
theory Zecd_Prelude
  imports Main "HOL-Library.Word" "HOL-Library.AList" "HOL-Library.Multiset"
begin

text \<open>
  Shared vocabulary of the development: the machine integers of the Rust sources, JSON values as
  the RPC layer sees them, decimal digit strings, and the generic list and option facts the
  component theories use.  The collections \<open>bounds_simps\<close> and \<open>digit_simps\<close> gather the facts that
  carry range arguments and decimal arguments.
\<close>

named_theorems bounds_simps \<open>numeric constants of the program, unfolded in range arguments\<close>
named_theorems digit_simps \<open>values of decimal digit strings\<close>

section \<open>Machine integers\<close>

type_synonym u8 = "8 word"
type_synonym u16 = "16 word"
type_synonym u32 = "32 word"
type_synonym u64 = "64 word"

text \<open>Rust's \<open>saturating_sub\<close>, \<open>saturating_add\<close> and \<open>saturating_mul\<close> on unsigned words.\<close>

definition saturating_sub :: "'a::len word \<Rightarrow> 'a word \<Rightarrow> 'a word" where
  "saturating_sub a b = (if a < b then 0 else a - b)"

definition saturating_add :: "'a::len word \<Rightarrow> 'a word \<Rightarrow> 'a word" where
  "saturating_add a b = (if unat a + unat b < 2 ^ LENGTH('a) then a + b else - 1)"

definition saturating_mul :: "'a::len word \<Rightarrow> 'a word \<Rightarrow> 'a word" where
  "saturating_mul a b = (if unat a * unat b < 2 ^ LENGTH('a) then a * b else - 1)"

lemma unat_saturating_sub: "unat (saturating_sub a b) = unat a - unat b"
  by (simp add: saturating_sub_def word_less_nat_alt unat_sub_if')

lemma unat_max_word: "2 ^ LENGTH('w) - 1 = unat (- 1 :: 'w::len word)"
  unfolding unsigned_minus_1_eq_mask mask_eq_exp_minus_1 by (rule refl)

lemma unat_saturating_add:
  "unat (saturating_add a b :: 'a::len word) = min (unat a + unat b) (2 ^ LENGTH('a) - 1)"
  by (auto simp: saturating_add_def unat_word_ariths unat_max_word [symmetric] min_def)

lemma unat_saturating_mul:
  "unat (saturating_mul a b :: 'a::len word) = min (unat a * unat b) (2 ^ LENGTH('a) - 1)"
proof (cases "unat a * unat b < 2 ^ LENGTH('a)")
  case True
  then show ?thesis by (simp add: saturating_mul_def unat_word_ariths)
next
  case False
  then have "2 ^ LENGTH('a) - 1 \<le> unat a * unat b" by linarith
  with False show ?thesis by (simp add: saturating_mul_def unat_max_word [symmetric])
qed

section \<open>JSON values\<close>

text \<open>
  \<open>serde_json::Value\<close> under its \<open>arbitrary_precision\<close> feature: a number is kept as the literal it
  was read from.  Object members are an association list.
\<close>

datatype json =
    Null
  | Bool bool
  | Number string
  | String string
  | Array "json list"
  | Object "(string \<times> json) list"

section \<open>Decimal digits\<close>

definition is_ascii_digit :: "char \<Rightarrow> bool" where
  "is_ascii_digit c \<longleftrightarrow> c \<in> set ''0123456789''"

definition to_digit :: "char \<Rightarrow> int" where
  "to_digit c = int (of_char c) - 48"

definition digit_char :: "nat \<Rightarrow> char" where
  "digit_char d = char_of (48 + d mod 10)"

definition all_digits :: "string \<Rightarrow> bool" where
  "all_digits s \<longleftrightarrow> list_all is_ascii_digit s"

text \<open>The number a digit string denotes, most significant digit first.\<close>

definition digits_value :: "string \<Rightarrow> int" where
  "digits_value s = foldl (\<lambda>v c. 10 * v + to_digit c) 0 s"

text \<open>Rust's \<open>Display\<close> of an unsigned integer, and the zero-padded form \<open>{:0w}\<close>.\<close>

fun show_nat :: "nat \<Rightarrow> string" where
  "show_nat n = (if n < 10 then [digit_char n] else show_nat (n div 10) @ [digit_char n])"

declare show_nat.simps [simp del]

definition show_padded :: "nat \<Rightarrow> nat \<Rightarrow> string" where
  "show_padded w n = replicate (w - length (show_nat n)) CHR ''0'' @ show_nat n"

lemma is_ascii_digit_code:
  "is_ascii_digit c \<longleftrightarrow> 48 \<le> (of_char c :: nat) \<and> (of_char c :: nat) \<le> 57"
proof
  assume "is_ascii_digit c"
  then show "48 \<le> (of_char c :: nat) \<and> (of_char c :: nat) \<le> 57"
    by (auto simp: is_ascii_digit_def)
next
  assume "48 \<le> (of_char c :: nat) \<and> (of_char c :: nat) \<le> 57"
  then have "(of_char c :: nat) \<in> {48, 49, 50, 51, 52, 53, 54, 55, 56, 57}"
    by (simp only: insert_iff empty_iff) presburger
  moreover have "\<forall>n \<in> {48, 49, 50, 51, 52, 53, 54, 55, 56, 57 :: nat}. is_ascii_digit (char_of n)"
    by code_simp
  ultimately have "is_ascii_digit (char_of (of_char c :: nat))" by blast
  then show "is_ascii_digit c" by simp
qed

lemma to_digit_bounds: "is_ascii_digit c \<Longrightarrow> 0 \<le> to_digit c \<and> to_digit c \<le> 9"
  by (auto simp: is_ascii_digit_code to_digit_def)

lemma to_digit_zero_iff: "is_ascii_digit c \<Longrightarrow> to_digit c = 0 \<longleftrightarrow> c = CHR ''0''"
  by (auto simp: is_ascii_digit_def to_digit_def)

lemma of_char_digit_char: "(of_char (digit_char d) :: nat) = 48 + d mod 10"
  by (simp add: digit_char_def)

lemma is_ascii_digit_char [simp]: "is_ascii_digit (digit_char d)"
  by (simp add: is_ascii_digit_code of_char_digit_char)

lemma to_digit_digit_char [digit_simps]: "to_digit (digit_char d) = int (d mod 10)"
  by (simp add: to_digit_def of_char_digit_char)

lemma digit_char_nonzero: "d mod 10 \<noteq> 0 \<Longrightarrow> digit_char d \<noteq> CHR ''0''"
  using to_digit_zero_iff [OF is_ascii_digit_char, of d] by (simp add: to_digit_digit_char)

lemma all_digits_simps [simp]:
  "all_digits []"
  "all_digits (c # s) \<longleftrightarrow> is_ascii_digit c \<and> all_digits s"
  "all_digits (s @ t) \<longleftrightarrow> all_digits s \<and> all_digits t"
  by (simp_all add: all_digits_def)

lemma all_digits_replicate [simp]: "all_digits (replicate n CHR ''0'')"
  by (induction n) (simp_all add: is_ascii_digit_def)

lemma digits_value_Nil [digit_simps]: "digits_value [] = 0"
  by (simp add: digits_value_def)

lemma digits_value_snoc [digit_simps]:
  "digits_value (s @ [c]) = 10 * digits_value s + to_digit c"
  by (simp add: digits_value_def)

lemma digits_value_append [digit_simps]:
  "digits_value (s @ t) = digits_value s * 10 ^ length t + digits_value t"
proof (induction t rule: rev_induct)
  case Nil
  then show ?case by (simp add: digits_value_Nil)
next
  case (snoc c t)
  have "digits_value (s @ t @ [c]) = 10 * digits_value (s @ t) + to_digit c"
    using digits_value_snoc [of "s @ t" c] by simp
  with snoc show ?case by (simp add: digits_value_snoc algebra_simps)
qed

lemma digits_value_Cons [digit_simps]:
  "digits_value (c # s) = to_digit c * 10 ^ length s + digits_value s"
  using digits_value_append [of "[c]" s] by (simp add: digits_value_def)

lemma digits_value_replicate [digit_simps]: "digits_value (replicate n CHR ''0'') = 0"
  by (induction n) (simp_all add: digits_value_Nil digits_value_Cons to_digit_def)

lemma digits_value_nonneg: "all_digits s \<Longrightarrow> 0 \<le> digits_value s"
  by (induction s) (auto simp: digits_value_Nil digits_value_Cons dest: to_digit_bounds)

lemma digits_value_less: "all_digits s \<Longrightarrow> digits_value s < 10 ^ length s"
proof (induction s)
  case Nil
  then show ?case by (simp add: digits_value_Nil)
next
  case (Cons c s)
  then have "to_digit c \<le> 9" and "digits_value s < 10 ^ length s"
    by (auto dest: to_digit_bounds)
  then have "to_digit c * 10 ^ length s \<le> 9 * 10 ^ length s"
    by (intro mult_right_mono) auto
  with \<open>digits_value s < 10 ^ length s\<close> show ?case
    unfolding digits_value_Cons length_Cons power_Suc by linarith
qed

lemma show_nat_digits [simp]: "all_digits (show_nat n)"
  by (induction n rule: show_nat.induct) (subst show_nat.simps, simp)

lemma digits_value_show_nat [digit_simps]: "digits_value (show_nat n) = int n"
proof (induction n rule: show_nat.induct)
  case step: (1 n)
  have small: "digits_value (show_nat n) = int n" if "n < 10"
    using that
    by (subst show_nat.simps) (simp add: digits_value_Cons digits_value_Nil to_digit_digit_char)
  show ?case
  proof (cases "n < 10")
    case True
    with small show ?thesis .
  next
    case False
    with step have "digits_value (show_nat (n div 10)) = int (n div 10)" by simp
    with False show ?thesis
      by (subst show_nat.simps) (simp add: digits_value_snoc to_digit_digit_char zdiv_int zmod_int)
  qed
qed

lemma show_nat_nonempty [simp]: "show_nat n \<noteq> []"
  by (subst show_nat.simps) simp

lemma show_nat_hd_nonzero: "0 < n \<Longrightarrow> hd (show_nat n) \<noteq> CHR ''0''"
proof (induction n rule: show_nat.induct)
  case (1 n)
  show ?case
  proof (cases "n < 10")
    case True
    with "1.prems" show ?thesis by (subst show_nat.simps) (simp add: digit_char_nonzero)
  next
    case False
    with "1" show ?thesis by (subst show_nat.simps) simp
  qed
qed

lemma show_nat_zero [simp]: "show_nat 0 = ''0''"
  by (subst show_nat.simps) code_simp

lemma length_show_nat: "n < 10 ^ k \<Longrightarrow> 0 < k \<Longrightarrow> length (show_nat n) \<le> k"
proof (induction n arbitrary: k rule: show_nat.induct)
  case (1 n)
  show ?case
  proof (cases "n < 10")
    case True
    with "1.prems" show ?thesis by (subst show_nat.simps) simp
  next
    case False
    from "1.prems" obtain j where k: "k = Suc j" by (cases k) auto
    with False "1.prems" have "0 < j" by (cases j) auto
    from k "1.prems" have "n div 10 < 10 ^ j" by (simp add: less_mult_imp_div_less mult.commute)
    with False "1.IH" \<open>0 < j\<close> have "length (show_nat (n div 10)) \<le> j" by blast
    with False k show ?thesis by (subst show_nat.simps) simp
  qed
qed

lemma show_padded_digits [simp]: "all_digits (show_padded w n)"
  by (simp add: show_padded_def)

lemma length_show_padded: "n < 10 ^ w \<Longrightarrow> 0 < w \<Longrightarrow> length (show_padded w n) = w"
  by (simp add: show_padded_def length_show_nat)

lemma digits_value_show_padded [digit_simps]: "digits_value (show_padded w n) = int n"
  by (simp add: show_padded_def digits_value_append digits_value_replicate digits_value_show_nat)

section \<open>Fallible results, lists and options\<close>

text \<open>Rust's \<open>?\<close>: the error on the left stops the computation.\<close>

definition sum_bind :: "'err + 'val \<Rightarrow> ('val \<Rightarrow> 'err + 'res) \<Rightarrow> 'err + 'res" where
  "sum_bind outcome rest = (case outcome of Inr v \<Rightarrow> rest v | Inl stop \<Rightarrow> Inl stop)"

lemma sum_bind_simps [simp]: "sum_bind (Inl e) f = Inl e" "sum_bind (Inr x) f = f x"
  by (simp_all add: sum_bind_def)

lemma sum_bind_Inr: "sum_bind r f = Inr y \<longleftrightarrow> (\<exists>x. r = Inr x \<and> f x = Inr y)"
  by (cases r) simp_all

lemma sort_key_mset [simp]: "mset (sort_key f xs) = mset xs"
  by (induction xs) simp_all

lemma option_all_conv: "(case x of None \<Rightarrow> True | Some y \<Rightarrow> P y) \<longleftrightarrow> (\<forall>y. x = Some y \<longrightarrow> P y)"
  by (cases x) simp_all

end
