(* ===== verification/Rpc_Error.thy ===== *)
theory Rpc_Error
  imports Zecd_Prelude
begin

text \<open>
  The RPC error type of \<open>src/error.rs\<close>: Bitcoin Core's numeric codes, the error record with its
  in-process details, its constructors, and the HTTP status a code maps to.
\<close>

section \<open>Codes\<close>

definition RPC_INVALID_REQUEST :: int where "RPC_INVALID_REQUEST = - 32600"
definition RPC_METHOD_NOT_FOUND :: int where "RPC_METHOD_NOT_FOUND = - 32601"
definition RPC_INVALID_PARAMS :: int where "RPC_INVALID_PARAMS = - 32602"
definition RPC_PARSE_ERROR :: int where "RPC_PARSE_ERROR = - 32700"
definition RPC_MISC_ERROR :: int where "RPC_MISC_ERROR = - 1"
definition RPC_TYPE_ERROR :: int where "RPC_TYPE_ERROR = - 3"
definition RPC_INVALID_ADDRESS_OR_KEY :: int where "RPC_INVALID_ADDRESS_OR_KEY = - 5"
definition RPC_INVALID_PARAMETER :: int where "RPC_INVALID_PARAMETER = - 8"
definition RPC_DATABASE_ERROR :: int where "RPC_DATABASE_ERROR = - 20"
definition RPC_WALLET_ERROR :: int where "RPC_WALLET_ERROR = - 4"
definition RPC_WALLET_INSUFFICIENT_FUNDS :: int where "RPC_WALLET_INSUFFICIENT_FUNDS = - 6"
definition RPC_WALLET_UNLOCK_NEEDED :: int where "RPC_WALLET_UNLOCK_NEEDED = - 13"
definition RPC_WALLET_NOT_FOUND :: int where "RPC_WALLET_NOT_FOUND = - 18"
definition RPC_DESERIALIZATION_ERROR :: int where "RPC_DESERIALIZATION_ERROR = - 22"
definition RPC_VERIFY_REJECTED :: int where "RPC_VERIFY_REJECTED = - 26"
definition RPC_VERIFY_ALREADY_IN_UTXO_SET :: int where "RPC_VERIFY_ALREADY_IN_UTXO_SET = - 27"
definition RPC_METHOD_DEPRECATED :: int where "RPC_METHOD_DEPRECATED = - 32"
definition RPC_CLIENT_IN_INITIAL_DOWNLOAD :: int where "RPC_CLIENT_IN_INITIAL_DOWNLOAD = - 10"
definition RPC_WALLET_INVALID_LABEL_NAME :: int where "RPC_WALLET_INVALID_LABEL_NAME = - 11"
definition RPC_WALLET_PASSPHRASE_INCORRECT :: int where "RPC_WALLET_PASSPHRASE_INCORRECT = - 14"
definition RPC_WALLET_WRONG_ENC_STATE :: int where "RPC_WALLET_WRONG_ENC_STATE = - 15"

lemmas rpc_codes =
  RPC_INVALID_REQUEST_def RPC_METHOD_NOT_FOUND_def RPC_INVALID_PARAMS_def RPC_PARSE_ERROR_def
  RPC_MISC_ERROR_def RPC_TYPE_ERROR_def RPC_INVALID_ADDRESS_OR_KEY_def RPC_INVALID_PARAMETER_def
  RPC_DATABASE_ERROR_def RPC_WALLET_ERROR_def RPC_WALLET_INSUFFICIENT_FUNDS_def
  RPC_WALLET_UNLOCK_NEEDED_def RPC_WALLET_NOT_FOUND_def RPC_DESERIALIZATION_ERROR_def
  RPC_VERIFY_REJECTED_def RPC_VERIFY_ALREADY_IN_UTXO_SET_def RPC_METHOD_DEPRECATED_def
  RPC_CLIENT_IN_INITIAL_DOWNLOAD_def RPC_WALLET_INVALID_LABEL_NAME_def
  RPC_WALLET_PASSPHRASE_INCORRECT_def RPC_WALLET_WRONG_ENC_STATE_def

definition http_status_for_code :: "int \<Rightarrow> nat" where
  "http_status_for_code c =
     (if c = RPC_INVALID_REQUEST then 400
      else if c = RPC_METHOD_NOT_FOUND then 404
      else 500)"

section \<open>The error record\<close>

record insufficient_funds_details =
  available :: "u64 option"
  required :: "u64 option"
  pending_incoming :: u64
  pending_change :: u64
  mature_coinbase :: u64

datatype error_details = InsufficientFunds insufficient_funds_details

record rpc_error =
  err_code :: int
  err_message :: string
  err_details :: "error_details option"

definition rpc_error_new :: "int \<Rightarrow> string \<Rightarrow> rpc_error" where
  "rpc_error_new c m = \<lparr>err_code = c, err_message = m, err_details = None\<rparr>"

definition with_details :: "rpc_error \<Rightarrow> error_details \<Rightarrow> rpc_error" where
  "with_details e d = e\<lparr>err_details := Some d\<rparr>"

definition insufficient_funds_of :: "rpc_error \<Rightarrow> insufficient_funds_details option" where
  "insufficient_funds_of e =
     (case err_details e of Some (InsufficientFunds d) \<Rightarrow> Some d | None \<Rightarrow> None)"

definition misc :: "string \<Rightarrow> rpc_error" where
  "misc m = rpc_error_new RPC_MISC_ERROR m"

definition missing_param :: "string \<Rightarrow> rpc_error" where
  "missing_param m = rpc_error_new RPC_MISC_ERROR m"

definition invalid_parameter :: "string \<Rightarrow> rpc_error" where
  "invalid_parameter m = rpc_error_new RPC_INVALID_PARAMETER m"

definition type_error :: "string \<Rightarrow> rpc_error" where
  "type_error m = rpc_error_new RPC_TYPE_ERROR m"

definition invalid_address_or_key :: "string \<Rightarrow> rpc_error" where
  "invalid_address_or_key m = rpc_error_new RPC_INVALID_ADDRESS_OR_KEY m"

definition method_not_found :: "string \<Rightarrow> rpc_error" where
  "method_not_found m = rpc_error_new RPC_METHOD_NOT_FOUND (''Method not found: '' @ m)"

definition wallet_error :: "string \<Rightarrow> rpc_error" where
  "wallet_error m = rpc_error_new RPC_WALLET_ERROR m"

definition insufficient_funds :: "string \<Rightarrow> rpc_error" where
  "insufficient_funds m = rpc_error_new RPC_WALLET_INSUFFICIENT_FUNDS m"

definition database_error :: "string \<Rightarrow> rpc_error" where
  "database_error m = rpc_error_new RPC_DATABASE_ERROR m"

text \<open>The internal detail \<open>e\<close> is logged and does not reach the message.\<close>

definition database_internal :: "string \<Rightarrow> rpc_error" where
  "database_internal e = database_error ''Database error''"

definition wallet_not_found :: "string \<Rightarrow> rpc_error" where
  "wallet_not_found m = rpc_error_new RPC_WALLET_NOT_FOUND m"

definition unlock_needed :: rpc_error where
  "unlock_needed = rpc_error_new RPC_WALLET_UNLOCK_NEEDED
     ''Error: Please enter the wallet passphrase with walletpassphrase first.''"

text \<open>The conversion from an unclassified error: again the detail is dropped.\<close>

definition from_anyhow :: "string \<Rightarrow> rpc_error" where
  "from_anyhow e = misc ''Internal error''"

lemmas rpc_error_ctors =
  misc_def missing_param_def invalid_parameter_def type_error_def invalid_address_or_key_def
  method_not_found_def wallet_error_def insufficient_funds_def database_error_def
  database_internal_def wallet_not_found_def unlock_needed_def from_anyhow_def

lemma err_code_new [simp]: "err_code (rpc_error_new c m) = c"
  by (simp add: rpc_error_new_def)

lemma err_message_new [simp]: "err_message (rpc_error_new c m) = m"
  by (simp add: rpc_error_new_def)

lemma type_error_eq_iff [simp]: "type_error m = type_error m' \<longleftrightarrow> m = m'"
  by (auto simp: type_error_def rpc_error_new_def)

lemma insufficient_funds_with_details [simp]:
  "insufficient_funds_of (with_details e (InsufficientFunds d)) = Some d"
  by (simp add: insufficient_funds_of_def with_details_def)

end
