(* ===== verification/Amount.thy ===== *)
theory Amount
  imports Rpc_Error
begin

text \<open>
  The amount codec of \<open>src/amount.rs\<close>: base units to the eight-decimal JSON numbers of Bitcoin
  Core's wire format, and back through the port of \<open>ParseFixedPoint\<close>.  The 64-bit accumulators of
  the parser are integers here; \<open>parse_state_bounds\<close> shows that they never leave the range of
  \<open>i64\<close>.  A Rust string is its byte list: every test of the parser is on ASCII bytes, which never
  occur inside a multi-byte character.
\<close>

section \<open>Constants and formatting\<close>

definition COIN :: nat where [bounds_simps]: "COIN = 100000000"

definition MAX_MONEY :: nat where "MAX_MONEY = 21000000 * COIN"

definition UPPER_BOUND :: int where [bounds_simps]: "UPPER_BOUND = 1000000000000000000 - 1"

lemma MAX_MONEY_value [bounds_simps]: "MAX_MONEY = 2100000000000000"
  by (simp add: MAX_MONEY_def COIN_def)

definition format_zats :: "nat \<Rightarrow> string" where
  "format_zats zats = show_nat (zats div COIN) @ ''.'' @ show_padded 8 (zats mod COIN)"

text \<open>
  \<open>serde_json::from_str\<close> is the parameter \<open>from_str\<close>; a \<open>None\<close> is the panic of \<open>expect\<close>.
\<close>

definition zats_to_value :: "(string \<Rightarrow> json option) \<Rightarrow> u64 \<Rightarrow> json option" where
  "zats_to_value from_str zats = from_str (format_zats (unat zats))"

definition format_signed :: "int \<Rightarrow> string" where
  "format_signed zats =
     (if zats < 0 then ''-'' else []) @ format_zats (nat \<bar>zats\<bar>)"

definition signed_zats_to_value :: "(string \<Rightarrow> json option) \<Rightarrow> int \<Rightarrow> json option" where
  "signed_zats_to_value from_str zats = from_str (format_signed zats)"

section \<open>The fixed-point parser\<close>

text \<open>The \<open>for _ in 0..=mantissa_tzeros\<close> loop: \<open>n\<close> guarded multiplications by ten.\<close>

fun scale_mantissa :: "nat \<Rightarrow> int \<Rightarrow> int option" where
  "scale_mantissa 0 mantissa = Some mantissa"
| "scale_mantissa (Suc n) mantissa =
     (if mantissa > UPPER_BOUND div 10 then None else scale_mantissa n (mantissa * 10))"

definition process_mantissa_digit :: "char \<Rightarrow> int \<Rightarrow> int \<Rightarrow> (int \<times> int) option" where
  "process_mantissa_digit ch mantissa mantissa_tzeros =
     (if ch = CHR ''0'' then Some (mantissa, mantissa_tzeros + 1)
      else case scale_mantissa (nat (mantissa_tzeros + 1)) mantissa of
             None \<Rightarrow> None
           | Some m \<Rightarrow> Some (m + to_digit ch, 0))"

text \<open>
  The digit loops.  The loop before the point and the loop after it differ in \<open>point_ofs\<close> only:
  \<open>step\<close> is 0 for the first and 1 for the second.
\<close>

fun mantissa_loop :: "int \<Rightarrow> string \<Rightarrow> int \<Rightarrow> int \<Rightarrow> int \<Rightarrow> (int \<times> int \<times> int \<times> string) option" where
  "mantissa_loop step [] mantissa tzeros point_ofs = Some (mantissa, tzeros, point_ofs, [])"
| "mantissa_loop step (ch # val) mantissa tzeros point_ofs =
     (if is_ascii_digit ch
      then case process_mantissa_digit ch mantissa tzeros of
             None \<Rightarrow> None
           | Some (m, z) \<Rightarrow> mantissa_loop step val m z (point_ofs + step)
      else Some (mantissa, tzeros, point_ofs, ch # val))"

fun exponent_loop :: "string \<Rightarrow> int \<Rightarrow> (int \<times> string) option" where
  "exponent_loop [] exponent = Some (exponent, [])"
| "exponent_loop (ch # val) exponent =
     (if is_ascii_digit ch
      then if exponent > UPPER_BOUND div 10 then None
           else exponent_loop val (exponent * 10 + to_digit ch)
      else Some (exponent, ch # val))"

definition parse_sign :: "string \<Rightarrow> bool \<times> string" where
  "parse_sign val = (case val of c # rest \<Rightarrow> if c = CHR ''-'' then (True, rest) else (False, val)
                               | [] \<Rightarrow> (False, val))"

definition parse_integer :: "string \<Rightarrow> (int \<times> int \<times> string) option" where
  "parse_integer val =
     (case val of
        [] \<Rightarrow> None
      | c # rest \<Rightarrow>
          if c = CHR ''0'' then Some (0, 0, rest)
          else if is_ascii_digit c then
            (case mantissa_loop 0 val 0 0 0 of
               None \<Rightarrow> None
             | Some (m, z, _, r) \<Rightarrow> Some (m, z, r))
          else None)"

definition parse_fraction :: "string \<Rightarrow> int \<Rightarrow> int \<Rightarrow> (int \<times> int \<times> int \<times> string) option" where
  "parse_fraction val mantissa tzeros =
     (case val of
        c # rest \<Rightarrow>
          if c = CHR ''.'' then
            (case rest of
               d # _ \<Rightarrow> if is_ascii_digit d then mantissa_loop 1 rest mantissa tzeros 0 else None
             | [] \<Rightarrow> None)
          else Some (mantissa, tzeros, 0, val)
      | [] \<Rightarrow> Some (mantissa, tzeros, 0, val))"

definition parse_exponent_sign :: "string \<Rightarrow> bool \<times> string" where
  "parse_exponent_sign val =
     (case val of
        c # rest \<Rightarrow> if c = CHR ''+'' then (False, rest)
                    else if c = CHR ''-'' then (True, rest) else (False, val)
      | [] \<Rightarrow> (False, val))"

definition parse_exponent :: "string \<Rightarrow> (bool \<times> int \<times> string) option" where
  "parse_exponent val =
     (case val of
        c # rest \<Rightarrow>
          if c = CHR ''e'' \<or> c = CHR ''E'' then
            (let (exponent_sign, v) = parse_exponent_sign rest
             in case v of
                  d # _ \<Rightarrow> if is_ascii_digit d
                           then map_option (\<lambda>(e, r). (exponent_sign, e, r)) (exponent_loop v 0)
                           else None
                | [] \<Rightarrow> None)
          else Some (False, 0, val)
      | [] \<Rightarrow> Some (False, 0, val))"

text \<open>The last loop: \<open>exponent\<close> multiplications by ten, each guarded on both sides.\<close>

fun scale_result :: "nat \<Rightarrow> int \<Rightarrow> int option" where
  "scale_result 0 mantissa =
     (if \<not> (- UPPER_BOUND \<le> mantissa \<and> mantissa \<le> UPPER_BOUND) then None else Some mantissa)"
| "scale_result (Suc n) mantissa =
     (if \<not> (- (UPPER_BOUND div 10) \<le> mantissa \<and> mantissa \<le> UPPER_BOUND div 10) then None
      else scale_result n (mantissa * 10))"

definition finalize :: "bool \<Rightarrow> int \<Rightarrow> int \<Rightarrow> int \<Rightarrow> bool \<Rightarrow> int \<Rightarrow> int \<Rightarrow> int option" where
  "finalize mantissa_sign mantissa tzeros point_ofs exponent_sign exponent0 decimals =
     (let exponent1 = (if exponent_sign then - exponent0 else exponent0);
          exponent2 = exponent1 - point_ofs + tzeros;
          mantissa' = (if mantissa_sign then - mantissa else mantissa);
          exponent = exponent2 + decimals
      in if exponent < 0 then None
         else if exponent \<ge> 18 then None
         else scale_result (nat exponent) mantissa')"

definition parse_fixed_point :: "string \<Rightarrow> int \<Rightarrow> int option" where
  "parse_fixed_point val decimals =
     (let (mantissa_sign, v0) = parse_sign val in
      case parse_integer v0 of
        None \<Rightarrow> None
      | Some (m1, z1, v1) \<Rightarrow>
          (case parse_fraction v1 m1 z1 of
             None \<Rightarrow> None
           | Some (m2, z2, point_ofs, v2) \<Rightarrow>
               (case parse_exponent v2 of
                  None \<Rightarrow> None
                | Some (exponent_sign, e, v3) \<Rightarrow>
                    if v3 \<noteq> [] then None
                    else finalize mantissa_sign m2 z2 point_ofs exponent_sign e decimals)))"

section \<open>Amounts from JSON\<close>

definition value_to_zats :: "json \<Rightarrow> rpc_error + u64" where
  "value_to_zats v =
     (case (case v of Number n \<Rightarrow> Some n | String s \<Rightarrow> Some s | _ \<Rightarrow> None) of
        None \<Rightarrow> Inl (type_error ''Amount is not a number or string'')
      | Some literal \<Rightarrow>
          (case parse_fixed_point literal 8 of
             None \<Rightarrow> Inl (type_error ''Invalid amount'')
           | Some zats \<Rightarrow>
               if zats < 0 then Inl (type_error ''Amount out of range'')
               else if nat zats > MAX_MONEY then Inl (type_error ''Amount out of range'')
               else Inr (of_nat (nat zats))))"

text \<open>The typed client's wrappers.\<close>

datatype amount = Amount u64
datatype signed_amount = SignedAmount int

fun amount_display :: "amount \<Rightarrow> string" where
  "amount_display (Amount z) = show_nat (unat z div COIN) @ ''.'' @ show_padded 8 (unat z mod COIN)"

fun amount_serialize :: "(string \<Rightarrow> json option) \<Rightarrow> amount \<Rightarrow> json option" where
  "amount_serialize from_str (Amount z) = zats_to_value from_str z"

definition amount_deserialize :: "json \<Rightarrow> string + amount" where
  "amount_deserialize v =
     (case value_to_zats v of Inl e \<Rightarrow> Inl (err_message e) | Inr z \<Rightarrow> Inr (Amount z))"

fun signed_amount_display :: "signed_amount \<Rightarrow> string" where
  "signed_amount_display (SignedAmount z) =
     (if z < 0 then ''-'' else []) @ show_nat (nat \<bar>z\<bar> div COIN) @ ''.''
       @ show_padded 8 (nat \<bar>z\<bar> mod COIN)"

fun signed_amount_serialize :: "(string \<Rightarrow> json option) \<Rightarrow> signed_amount \<Rightarrow> json option" where
  "signed_amount_serialize from_str (SignedAmount z) = signed_zats_to_value from_str z"

definition signed_amount_deserialize :: "json \<Rightarrow> string + signed_amount" where
  "signed_amount_deserialize v =
     (case (case v of Number n \<Rightarrow> Some n | String s \<Rightarrow> Some s | _ \<Rightarrow> None) of
        None \<Rightarrow> Inl ''Amount is not a number or string''
      | Some literal \<Rightarrow>
          (case parse_fixed_point literal 8 of
             None \<Rightarrow> Inl ''Invalid amount''
           | Some z \<Rightarrow> Inr (SignedAmount z)))"

section \<open>The digit loops\<close>

text \<open>
  What the accumulators satisfy between digits: they stay inside the bound, and the mantissa holds
  no trailing zero, because a run of zeros is deferred until a nonzero digit follows it.
\<close>

definition mantissa_inv :: "int \<Rightarrow> int \<Rightarrow> bool" where
  "mantissa_inv mantissa tzeros \<longleftrightarrow>
     0 \<le> mantissa \<and> mantissa \<le> UPPER_BOUND \<and> 0 \<le> tzeros \<and> (mantissa = 0 \<or> \<not> 10 dvd mantissa)"

text \<open>The number accumulated so far.\<close>

definition accumulated :: "int \<Rightarrow> int \<Rightarrow> int" where
  "accumulated mantissa tzeros = mantissa * 10 ^ nat tzeros"

lemma mantissa_inv_start [simp]: "mantissa_inv 0 0"
  by (simp add: mantissa_inv_def bounds_simps)

lemma accumulated_zero [simp]: "accumulated m 0 = m"
  by (simp add: accumulated_def)

lemma scale_mantissa_value: "scale_mantissa n m = Some m' \<Longrightarrow> m' = m * 10 ^ n"
proof (induction n arbitrary: m)
  case (Suc n)
  from Suc.IH [of "m * 10"] Suc.prems show ?case by (simp add: mult.assoc split: if_splits)
qed simp

lemma scale_mantissa_bound:
  "scale_mantissa n m = Some m' \<Longrightarrow> 0 < n \<Longrightarrow> m' \<le> UPPER_BOUND div 10 * 10"
proof (induction n arbitrary: m)
  case (Suc n)
  then show ?case by (cases n) (auto split: if_splits)
qed simp

lemma scale_mantissa_ok:
  "0 \<le> m \<Longrightarrow> m * 10 ^ n \<le> UPPER_BOUND \<Longrightarrow> scale_mantissa n m = Some (m * 10 ^ n)"
proof (induction n arbitrary: m)
  case (Suc n)
  have "m * 10 * 1 \<le> m * 10 * 10 ^ n"
    using Suc.prems(1) by (intro mult_left_mono) auto
  with Suc.prems have "m * 10 \<le> UPPER_BOUND" by (simp add: mult.assoc)
  then have "m \<le> UPPER_BOUND div 10" by simp
  moreover have "scale_mantissa n (m * 10) = Some (m * 10 * 10 ^ n)"
    using Suc by (simp add: mult.assoc)
  ultimately show ?case by (simp add: mult.assoc)
qed simp

lemma process_mantissa_digit_Some:
  assumes "process_mantissa_digit c m z = Some (m', z')" "is_ascii_digit c" "mantissa_inv m z"
  shows "mantissa_inv m' z' \<and> accumulated m' z' = 10 * accumulated m z + to_digit c \<and> z' \<le> z + 1"
proof (cases "c = CHR ''0''")
  case True
  with assms show ?thesis
    by (auto simp: process_mantissa_digit_def mantissa_inv_def accumulated_def to_digit_def
        nat_add_distrib)
next
  case False
  with assms obtain k where k: "scale_mantissa (nat (z + 1)) m = Some k"
    and m': "m' = k + to_digit c" "z' = 0"
    by (auto simp: process_mantissa_digit_def split: option.splits)
  have z: "0 \<le> z" and m: "0 \<le> m" using assms(3) by (auto simp: mantissa_inv_def)
  have d: "1 \<le> to_digit c" "to_digit c \<le> 9"
    using to_digit_bounds [OF assms(2)] to_digit_zero_iff [OF assms(2)] False by auto
  have val: "k = 10 * accumulated m z"
    using scale_mantissa_value [OF k] z by (simp add: accumulated_def nat_add_distrib)
  have bound: "k \<le> UPPER_BOUND div 10 * 10"
    using scale_mantissa_bound [OF k] z by simp
  have "\<not> 10 dvd m'" using val d m' by presburger
  moreover have "0 \<le> accumulated m z" using m by (simp add: accumulated_def)
  ultimately show ?thesis
    using val d m' bound z by (auto simp: mantissa_inv_def bounds_simps)
qed

lemma process_mantissa_digit_ok:
  assumes "is_ascii_digit c" "mantissa_inv m z"
    and "c = CHR ''0'' \<or> 10 * accumulated m z + to_digit c \<le> UPPER_BOUND"
  shows "\<exists>m' z'. process_mantissa_digit c m z = Some (m', z')"
proof (cases "c = CHR ''0''")
  case True
  then show ?thesis by (simp add: process_mantissa_digit_def)
next
  case False
  with assms to_digit_bounds [OF assms(1)] have "10 * accumulated m z \<le> UPPER_BOUND" by linarith
  with assms(2) have "scale_mantissa (nat (z + 1)) m \<noteq> None"
    using scale_mantissa_ok [of m "nat (z + 1)"]
    by (simp add: accumulated_def mantissa_inv_def nat_add_distrib ac_simps)
  with False show ?thesis by (auto simp: process_mantissa_digit_def)
qed

definition no_digit_first :: "string \<Rightarrow> bool" where
  "no_digit_first r \<longleftrightarrow> (case r of [] \<Rightarrow> True | c # _ \<Rightarrow> \<not> is_ascii_digit c)"

lemma no_digit_first_simps [simp]:
  "no_digit_first []" "no_digit_first (c # r) \<longleftrightarrow> \<not> is_ascii_digit c"
  by (simp_all add: no_digit_first_def)

lemma mantissa_loop_Some:
  assumes "mantissa_loop step s m z p = Some (m', z', p', r)" "mantissa_inv m z"
  shows "\<exists>ds. s = ds @ r \<and> all_digits ds \<and> no_digit_first r \<and> mantissa_inv m' z' \<and>
           accumulated m' z' = accumulated m z * 10 ^ length ds + digits_value ds \<and>
           p' = p + step * int (length ds) \<and> z' \<le> z + int (length ds)"
  using assms
proof (induction step s m z p rule: mantissa_loop.induct)
  case (1 step m z p)
  then show ?case by (auto simp: digits_value_Nil)
next
  case (2 step c s m z p)
  show ?case
  proof (cases "is_ascii_digit c")
    case True
    with "2.prems" obtain m1 z1 where p1: "process_mantissa_digit c m z = Some (m1, z1)"
      and rest: "mantissa_loop step s m1 z1 (p + step) = Some (m', z', p', r)"
      by (auto split: option.splits)
    note one = process_mantissa_digit_Some [OF p1 True "2.prems"(2)]
    with "2.IH" [OF True p1 _ rest] obtain ds where
      ds: "s = ds @ r" "all_digits ds" "no_digit_first r" "mantissa_inv m' z'"
        "accumulated m' z' = accumulated m1 z1 * 10 ^ length ds + digits_value ds"
        "p' = p + step + step * int (length ds)" "z' \<le> z1 + int (length ds)"
      by auto
    then have "c # s = (c # ds) @ r \<and> all_digits (c # ds) \<and> no_digit_first r \<and> mantissa_inv m' z' \<and>
           accumulated m' z' = accumulated m z * 10 ^ length (c # ds) + digits_value (c # ds) \<and>
           p' = p + step * int (length (c # ds)) \<and> z' \<le> z + int (length (c # ds))"
      using True one by (simp add: digits_value_Cons algebra_simps)
    then show ?thesis by blast
  next
    case False
    with "2.prems" show ?thesis by (auto simp: digits_value_Nil)
  qed
qed

lemma leading_digits_bound:
  fixes v M :: int
  assumes eq: "v * 10 ^ n + w = M * 10 ^ k" and w: "0 \<le> w" "w < 10 ^ n"
    and v: "\<not> 10 dvd v" and M: "0 \<le> M" "M \<le> b"
  shows "v \<le> b"
proof (cases "k \<le> n")
  case True
  then have "M * 10 ^ k \<le> M * 10 ^ n"
    using M by (intro mult_left_mono power_increasing) auto
  with eq w have "v * 10 ^ n \<le> M * 10 ^ n" by linarith
  then have "v \<le> M" by simp
  with M show ?thesis by simp
next
  case False
  then obtain j where k: "k = n + Suc j" using less_imp_Suc_add [of n k] by auto
  from eq have "w = M * 10 ^ k - v * 10 ^ n" by linarith
  then have "w mod 10 ^ n = (M * 10 ^ k - v * 10 ^ n) mod 10 ^ n" by simp
  also have "\<dots> = ((M * 10 ^ Suc j - v) * 10 ^ n) mod 10 ^ n"
    by (simp add: k power_add algebra_simps)
  also have "\<dots> = 0" by simp
  finally have "w = 0" using w by simp
  with eq k have "v * 10 ^ n = (M * 10 ^ Suc j) * 10 ^ n" by (simp add: power_add)
  then have "v = 10 * (M * 10 ^ j)" by simp
  with v show ?thesis by auto
qed

lemma mantissa_loop_ok:
  assumes "all_digits ds" "no_digit_first r" "mantissa_inv m z"
    and "accumulated m z * 10 ^ length ds + digits_value ds = M * 10 ^ k" "0 \<le> M" "M \<le> UPPER_BOUND"
  shows "\<exists>m' z' p'. mantissa_loop step (ds @ r) m z p = Some (m', z', p', r)"
  using assms
proof (induction ds arbitrary: m z p)
  case Nil
  then show ?case by (cases r) auto
next
  case (Cons c ds)
  have c: "is_ascii_digit c" and ds: "all_digits ds" using Cons.prems(1) by auto
  let ?v = "10 * accumulated m z + to_digit c"
  have eq: "?v * 10 ^ length ds + digits_value ds = M * 10 ^ k"
    using Cons.prems(4) by (simp add: digits_value_Cons algebra_simps)
  have "c = CHR ''0'' \<or> ?v \<le> UPPER_BOUND"
  proof (cases "c = CHR ''0''")
    case False
    with to_digit_zero_iff [OF c] have "to_digit c \<noteq> 0" by simp
    with to_digit_bounds [OF c] have "\<not> 10 dvd ?v" by presburger
    with eq digits_value_nonneg [OF ds] digits_value_less [OF ds] Cons.prems(5,6)
    show ?thesis by (blast intro: leading_digits_bound)
  qed simp
  with process_mantissa_digit_ok [OF c Cons.prems(3)] obtain m1 z1
    where p1: "process_mantissa_digit c m z = Some (m1, z1)" by auto
  note one = process_mantissa_digit_Some [OF p1 c Cons.prems(3)]
  with eq have "accumulated m1 z1 * 10 ^ length ds + digits_value ds = M * 10 ^ k" by simp
  with one Cons.IH [OF ds Cons.prems(2) _ _ Cons.prems(5,6), of m1 z1 "p + step"] c p1
  show ?case by simp
qed

lemma exponent_loop_Some:
  assumes "exponent_loop s e = Some (e', r)" "0 \<le> e" "e \<le> UPPER_BOUND"
  shows "\<exists>ds. s = ds @ r \<and> all_digits ds \<and> no_digit_first r \<and>
           e' = e * 10 ^ length ds + digits_value ds \<and> 0 \<le> e' \<and> e' \<le> UPPER_BOUND"
  using assms
proof (induction s e rule: exponent_loop.induct)
  case (1 e)
  then show ?case by (auto simp: digits_value_Nil)
next
  case (2 c s e)
  show ?case
  proof (cases "is_ascii_digit c")
    case True
    with "2.prems" have e: "\<not> UPPER_BOUND div 10 < e"
      and rest: "exponent_loop s (e * 10 + to_digit c) = Some (e', r)"
      by (auto split: if_splits)
    with to_digit_bounds [OF True] "2.prems"
    have b: "0 \<le> e * 10 + to_digit c" "e * 10 + to_digit c \<le> UPPER_BOUND"
      by (auto simp: bounds_simps)
    from "2.IH" [OF True e rest b] obtain ds where
      "s = ds @ r" "all_digits ds" "no_digit_first r"
      "e' = (e * 10 + to_digit c) * 10 ^ length ds + digits_value ds" "0 \<le> e'" "e' \<le> UPPER_BOUND"
      by auto
    with True have "c # s = (c # ds) @ r \<and> all_digits (c # ds) \<and> no_digit_first r \<and>
           e' = e * 10 ^ length (c # ds) + digits_value (c # ds) \<and> 0 \<le> e' \<and> e' \<le> UPPER_BOUND"
      by (simp add: digits_value_Cons algebra_simps)
    then show ?thesis by blast
  next
    case False
    with "2.prems" show ?thesis by (auto simp: digits_value_Nil)
  qed
qed

lemma exponent_loop_ok:
  assumes "all_digits ds" "no_digit_first r" "0 \<le> e" "e * 10 ^ length ds + digits_value ds \<le> UPPER_BOUND"
  shows "exponent_loop (ds @ r) e = Some (e * 10 ^ length ds + digits_value ds, r)"
  using assms
proof (induction ds arbitrary: e)
  case Nil
  then show ?case by (cases r) (auto simp: digits_value_Nil)
next
  case (Cons c ds)
  have c: "is_ascii_digit c" and ds: "all_digits ds" using Cons.prems(1) by auto
  let ?e = "e * 10 + to_digit c"
  have eq: "e * 10 ^ length (c # ds) + digits_value (c # ds) = ?e * 10 ^ length ds + digits_value ds"
    by (simp add: digits_value_Cons algebra_simps)
  have "e * 10 * 1 \<le> e * 10 * 10 ^ length ds"
    using Cons.prems(3) by (intro mult_left_mono) auto
  moreover have "0 \<le> digits_value (c # ds) "
    using Cons.prems(1) by (rule digits_value_nonneg)
  ultimately have "e * 10 \<le> UPPER_BOUND" using Cons.prems(4) by simp
  then have "\<not> UPPER_BOUND div 10 < e" by simp
  moreover have "0 \<le> ?e" using Cons.prems(3) to_digit_bounds [OF c] by simp
  ultimately show ?case using Cons.IH [OF ds Cons.prems(2), of ?e] Cons.prems(4) c eq by simp
qed

lemma scale_result_Some:
  "scale_result n m = Some r \<Longrightarrow> r = m * 10 ^ n \<and> \<bar>r\<bar> \<le> UPPER_BOUND"
proof (induction n arbitrary: m)
  case (Suc n)
  from Suc.IH [of "m * 10"] Suc.prems show ?case by (auto simp: mult.assoc split: if_splits)
qed (auto split: if_splits)

lemma scale_result_ok:
  "\<bar>m * 10 ^ n\<bar> \<le> UPPER_BOUND \<Longrightarrow> scale_result n m = Some (m * 10 ^ n)"
proof (induction n arbitrary: m)
  case 0
  then show ?case by auto
next
  case (Suc n)
  have "\<bar>m * 10\<bar> * 1 \<le> \<bar>m * 10\<bar> * 10 ^ n" by (intro mult_left_mono) auto
  with Suc.prems have "\<bar>m * 10\<bar> \<le> UPPER_BOUND" by (simp add: abs_mult mult.assoc)
  then have "- (UPPER_BOUND div 10) \<le> m \<and> m \<le> UPPER_BOUND div 10" by (auto simp: bounds_simps)
  with Suc show ?case by (simp add: mult.assoc)
qed

section \<open>Decimal literals\<close>

text \<open>
  The reference grammar: an optional minus, an integer part without leading zeros, an optional
  fraction and an optional exponent, which is the grammar of JSON numbers.
\<close>

record decimal =
  negative :: bool
  int_part :: string
  frac_part :: "string option"
  exp_part :: "(char \<times> string \<times> string) option"

definition int_wf :: "string \<Rightarrow> bool" where
  "int_wf ip \<longleftrightarrow> ip = ''0'' \<or> (ip \<noteq> [] \<and> all_digits ip \<and> hd ip \<noteq> CHR ''0'')"

definition frac_wf :: "string option \<Rightarrow> bool" where
  "frac_wf fp \<longleftrightarrow> (case fp of None \<Rightarrow> True | Some f \<Rightarrow> f \<noteq> [] \<and> all_digits f)"

definition exp_wf :: "(char \<times> string \<times> string) option \<Rightarrow> bool" where
  "exp_wf ex \<longleftrightarrow>
     (case ex of None \<Rightarrow> True
      | Some (mark, sg, e) \<Rightarrow>
          (mark = CHR ''e'' \<or> mark = CHR ''E'') \<and> (sg = [] \<or> sg = ''+'' \<or> sg = ''-'') \<and>
          e \<noteq> [] \<and> all_digits e)"

definition frac_text :: "string option \<Rightarrow> string" where
  "frac_text fp = (case fp of None \<Rightarrow> [] | Some f \<Rightarrow> ''.'' @ f)"

definition exp_text :: "(char \<times> string \<times> string) option \<Rightarrow> string" where
  "exp_text ex = (case ex of None \<Rightarrow> [] | Some (mark, sg, e) \<Rightarrow> mark # sg @ e)"

definition decimal_wf :: "decimal \<Rightarrow> bool" where
  "decimal_wf d \<longleftrightarrow> int_wf (int_part d) \<and> frac_wf (frac_part d) \<and> exp_wf (exp_part d)"

definition decimal_text :: "decimal \<Rightarrow> string" where
  "decimal_text d = (if negative d then ''-'' else []) @ int_part d @ frac_text (frac_part d)
     @ exp_text (exp_part d)"

definition frac_digits :: "string option \<Rightarrow> string" where
  "frac_digits fp = (case fp of None \<Rightarrow> [] | Some f \<Rightarrow> f)"

definition exp_negative :: "(char \<times> string \<times> string) option \<Rightarrow> bool" where
  "exp_negative ex \<longleftrightarrow> (case ex of None \<Rightarrow> False | Some (_, sg, _) \<Rightarrow> sg = ''-'')"

definition exp_value :: "(char \<times> string \<times> string) option \<Rightarrow> int" where
  "exp_value ex = (case ex of None \<Rightarrow> 0 | Some (_, _, e) \<Rightarrow> digits_value e)"

text \<open>
  The literal denotes \<open>\<plusminus> decimal_digits d * 10 ^ (exp_up d - exp_down d - frac_len d)\<close>.
\<close>

definition decimal_digits :: "decimal \<Rightarrow> int" where
  "decimal_digits d = digits_value (int_part d @ frac_digits (frac_part d))"

definition decimal_sign :: "decimal \<Rightarrow> int" where
  "decimal_sign d = (if negative d then - 1 else 1)"

definition frac_len :: "decimal \<Rightarrow> nat" where
  "frac_len d = length (frac_digits (frac_part d))"

definition exp_up :: "decimal \<Rightarrow> nat" where
  "exp_up d = (if exp_negative (exp_part d) then 0 else nat (exp_value (exp_part d)))"

definition exp_down :: "decimal \<Rightarrow> nat" where
  "exp_down d = (if exp_negative (exp_part d) then nat (exp_value (exp_part d)) else 0)"

definition json_number :: "string \<Rightarrow> bool" where
  "json_number s \<longleftrightarrow> (\<exists>d. decimal_wf d \<and> decimal_text d = s)"

lemmas decimal_defs = decimal_wf_def decimal_text_def decimal_digits_def decimal_sign_def
  frac_len_def exp_up_def exp_down_def frac_digits_def

subsection \<open>The stages of the parser\<close>

lemma parse_sign_Some: "parse_sign v = (b, r) \<Longrightarrow> v = (if b then ''-'' else []) @ r"
  by (auto simp: parse_sign_def split: list.splits if_splits)

lemma parse_integer_Some:
  assumes "parse_integer v = Some (m, z, r)"
  shows "\<exists>ip. v = ip @ r \<and> int_wf ip \<and> mantissa_inv m z \<and> accumulated m z = digits_value ip \<and>
           z \<le> int (length ip)"
proof (cases "\<exists>rest. v = CHR ''0'' # rest")
  case True
  then show ?thesis using assms
    by (intro exI [of _ "''0''"])
      (auto simp: parse_integer_def int_wf_def digits_value_Cons digits_value_Nil to_digit_def)
next
  case False
  with assms obtain c p where c: "is_ascii_digit c" "v \<noteq> []" "hd v = c" "c \<noteq> CHR ''0''"
    and l: "mantissa_loop 0 v 0 0 0 = Some (m, z, p, r)"
    by (auto simp: parse_integer_def split: list.splits if_splits option.splits)
  from mantissa_loop_Some [OF l] obtain ds where
    "v = ds @ r" "all_digits ds" "no_digit_first r" "mantissa_inv m z"
    "accumulated m z = digits_value ds" "z \<le> int (length ds)"
    by auto
  moreover from this c have "ds \<noteq> []" by (cases r) auto
  ultimately show ?thesis using c by (intro exI [of _ ds]) (auto simp: int_wf_def)
qed

lemma parse_fraction_Some:
  assumes "parse_fraction v m z = Some (m', z', p, r)" "mantissa_inv m z"
  shows "\<exists>fp. v = frac_text fp @ r \<and> frac_wf fp \<and> mantissa_inv m' z' \<and>
           accumulated m' z' = accumulated m z * 10 ^ length (frac_digits fp)
             + digits_value (frac_digits fp) \<and>
           p = int (length (frac_digits fp)) \<and> z' \<le> z + p"
proof (cases "\<exists>rest. v = CHR ''.'' # rest")
  case True
  then obtain c rest where v: "v = CHR ''.'' # c # rest" and c: "is_ascii_digit c"
    and l: "mantissa_loop 1 (c # rest) m z 0 = Some (m', z', p, r)"
    using assms(1) by (auto simp: parse_fraction_def split: list.splits if_splits)
  from mantissa_loop_Some [OF l assms(2)] obtain ds where ds:
    "c # rest = ds @ r" "all_digits ds" "no_digit_first r" "mantissa_inv m' z'"
    "accumulated m' z' = accumulated m z * 10 ^ length ds + digits_value ds"
    "p = int (length ds)" "z' \<le> z + int (length ds)"
    by auto
  moreover from ds c have "ds \<noteq> []" by (cases r) auto
  ultimately show ?thesis using v
    by (intro exI [of _ "Some ds"]) (auto simp: frac_text_def frac_wf_def frac_digits_def)
next
  case False
  with assms show ?thesis
    by (intro exI [of _ None])
      (auto simp: parse_fraction_def frac_text_def frac_wf_def frac_digits_def digits_value_Nil
        split: list.splits if_splits)
qed

lemma parse_exponent_Some:
  assumes "parse_exponent v = Some (sg, e, r)"
  shows "\<exists>ex. v = exp_text ex @ r \<and> exp_wf ex \<and> exp_negative ex = sg \<and> exp_value ex = e \<and>
           0 \<le> e \<and> e \<le> UPPER_BOUND"
proof (cases "\<exists>c rest. v = c # rest \<and> (c = CHR ''e'' \<or> c = CHR ''E'')")
  case True
  then obtain c rest u where v: "v = c # rest" and mark: "c = CHR ''e'' \<or> c = CHR ''E''"
    and sgn: "parse_exponent_sign rest = (sg, u)" and l: "exponent_loop u 0 = Some (e, r)"
    and d: "u \<noteq> [] \<and> is_ascii_digit (hd u)"
    using assms by (auto simp: parse_exponent_def split: list.splits if_splits prod.splits)
  from sgn obtain t where t: "rest = t @ u" "t = [] \<or> t = ''+'' \<or> t = ''-''" "sg = (t = ''-'')"
    by (auto simp: parse_exponent_sign_def split: list.splits if_splits)
  from exponent_loop_Some [OF l] obtain ds where ds: "u = ds @ r" "all_digits ds" "no_digit_first r"
    "e = digits_value ds" "0 \<le> e" "e \<le> UPPER_BOUND"
    by (auto simp: bounds_simps)
  with d have "ds \<noteq> []" by (cases r) auto
  with ds t mark v show ?thesis
    by (intro exI [of _ "Some (c, t, ds)"]) (auto simp: exp_text_def exp_wf_def exp_negative_def exp_value_def)
next
  case False
  with assms show ?thesis
    by (intro exI [of _ None])
      (auto simp: parse_exponent_def exp_text_def exp_wf_def exp_negative_def exp_value_def
        bounds_simps split: list.splits if_splits)
qed

lemma finalize_Some:
  assumes "finalize sg m z p es e k = Some r" "0 \<le> z" "0 \<le> p" "0 \<le> e" "0 \<le> k"
  shows "r * 10 ^ (nat p + (if es then nat e else 0)) =
           (if sg then - 1 else 1) * accumulated m z * 10 ^ (nat k + (if es then 0 else nat e)) \<and>
         \<bar>r\<bar> \<le> UPPER_BOUND"
proof -
  let ?x = "(if es then - e else e) - p + z + k"
  from assms have x: "0 \<le> ?x" and r: "scale_result (nat ?x) (if sg then - m else m) = Some r"
    by (auto simp: finalize_def Let_def split: if_splits)
  note sr = scale_result_Some [OF r]
  have "nat ?x + (nat p + (if es then nat e else 0)) = nat z + (nat k + (if es then 0 else nat e))"
    using x assms by (auto split: if_splits)
  then have "10 ^ nat ?x * 10 ^ (nat p + (if es then nat e else 0)) =
      (10 :: int) ^ nat z * 10 ^ (nat k + (if es then 0 else nat e))"
    by (simp flip: power_add)
  then have "(if sg then - m else m) * 10 ^ nat ?x * 10 ^ (nat p + (if es then nat e else 0)) =
      (if sg then - 1 else 1) * (m * 10 ^ nat z) * 10 ^ (nat k + (if es then 0 else nat e))"
    by (simp add: mult.assoc)
  with sr show ?thesis unfolding accumulated_def by (metis (no_types, lifting))
qed

lemma parse_fixed_point_stages:
  assumes "parse_fixed_point s k = Some r"
  obtains sg v0 m1 z1 v1 m2 z2 p v2 es e where
    "parse_sign s = (sg, v0)" "parse_integer v0 = Some (m1, z1, v1)"
    "parse_fraction v1 m1 z1 = Some (m2, z2, p, v2)" "parse_exponent v2 = Some (es, e, [])"
    "finalize sg m2 z2 p es e k = Some r"
  using assms
  by (auto simp: parse_fixed_point_def split: prod.splits option.splits if_splits)

section \<open>The parser is exact\<close>

lemma parse_exact_aux:
  assumes "parse_fixed_point s (int k) = Some z"
  shows "\<exists>d. decimal_wf d \<and> decimal_text d = s \<and>
           z * 10 ^ (frac_len d + exp_down d) = decimal_sign d * decimal_digits d * 10 ^ (k + exp_up d) \<and>
           \<bar>z\<bar> \<le> UPPER_BOUND"
proof -
  from assms obtain sg v0 m1 z1 v1 m2 z2 p v2 es e where st:
    "parse_sign s = (sg, v0)" "parse_integer v0 = Some (m1, z1, v1)"
    "parse_fraction v1 m1 z1 = Some (m2, z2, p, v2)" "parse_exponent v2 = Some (es, e, [])"
    "finalize sg m2 z2 p es e (int k) = Some z"
    by (rule parse_fixed_point_stages)
  from parse_sign_Some [OF st(1)] have s: "s = (if sg then ''-'' else []) @ v0" .
  from parse_integer_Some [OF st(2)] obtain ip where ip: "v0 = ip @ v1" "int_wf ip"
    "mantissa_inv m1 z1" "accumulated m1 z1 = digits_value ip" by blast
  from parse_fraction_Some [OF st(3) ip(3)] obtain fp where fp: "v1 = frac_text fp @ v2" "frac_wf fp"
    "mantissa_inv m2 z2" "p = int (length (frac_digits fp))"
    "accumulated m2 z2 = digits_value (ip @ frac_digits fp)"
    using ip(4) by (auto simp: digits_value_append)
  from parse_exponent_Some [OF st(4)] obtain ex where ex: "v2 = exp_text ex" "exp_wf ex"
    "exp_negative ex = es" "exp_value ex = e" "0 \<le> e" by auto
  define d where "d = \<lparr>negative = sg, int_part = ip, frac_part = fp, exp_part = ex\<rparr>"
  have fin: "z * 10 ^ (nat p + (if es then nat e else 0)) =
      (if sg then - 1 else 1) * accumulated m2 z2 * 10 ^ (nat (int k) + (if es then 0 else nat e))"
    "\<bar>z\<bar> \<le> UPPER_BOUND"
    using finalize_Some [OF st(5)] fp(3,4) ex(5) by (auto simp: mantissa_inv_def)
  have "decimal_wf d" "decimal_text d = s"
    using s ip(1,2) fp(1,2) ex(1,2) by (auto simp: d_def decimal_wf_def decimal_text_def)
  moreover have "z * 10 ^ (frac_len d + exp_down d) =
      decimal_sign d * decimal_digits d * 10 ^ (k + exp_up d)"
    using fin(1) fp(4,5) ex(3,4)
    by (simp add: d_def frac_len_def exp_down_def exp_up_def decimal_sign_def decimal_digits_def
        split: if_splits)
  ultimately show ?thesis using fin(2) by blast
qed

lemma strip_tens:
  fixes n :: int
  assumes "0 < n"
  obtains M k where "n = M * 10 ^ k" "\<not> 10 dvd M" "0 < M"
proof -
  have "\<exists>M k. n = M * 10 ^ k \<and> \<not> 10 dvd M \<and> 0 < M"
    using assms
  proof (induction "nat n" arbitrary: n rule: less_induct)
    case less
    show ?case
    proof (cases "10 dvd n")
      case True
      then obtain q where q: "n = 10 * q" ..
      with less.prems have "nat q < nat n" "0 < q" by auto
      with less.hyps obtain M k where "q = M * 10 ^ k" "\<not> 10 dvd M" "0 < M" by blast
      with q have "n = M * 10 ^ Suc k \<and> \<not> 10 dvd M \<and> 0 < M" by simp
      then show ?thesis by blast
    next
      case False
      with less.prems have "n = n * 10 ^ 0 \<and> \<not> 10 dvd n \<and> 0 < n" by simp
      then show ?thesis by blast
    qed
  qed
  then show ?thesis using that by blast
qed

lemma stripped_digits_le:
  fixes M Z :: int
  assumes "M * 10 ^ a = Z * 10 ^ b" "\<not> 10 dvd M" "0 < M"
  shows "b \<le> a \<and> Z = M * 10 ^ (a - b) \<and> M \<le> Z"
proof (cases "b \<le> a")
  case True
  then have "M * 10 ^ (a - b) * 10 ^ b = Z * 10 ^ b"
    using assms(1) by (simp add: mult.assoc flip: power_add)
  then have Z: "Z = M * 10 ^ (a - b)" by simp
  have "M * 1 \<le> M * 10 ^ (a - b)" using assms(3) by (intro mult_left_mono) auto
  with True Z show ?thesis by simp
next
  case False
  then obtain j where "b = a + Suc j" using less_imp_Suc_add [of a b] by auto
  with assms(1) have "M = 10 * (Z * 10 ^ j)" by (simp add: power_add)
  with assms(2) show ?thesis by auto
qed

lemma parse_sign_text:
  "v \<noteq> [] \<Longrightarrow> hd v \<noteq> CHR ''-'' \<Longrightarrow> parse_sign ((if b then ''-'' else []) @ v) = (b, v)"
  by (cases v) (auto simp: parse_sign_def)

lemma int_wf_digits: "int_wf ip \<Longrightarrow> all_digits ip \<and> ip \<noteq> []"
  by (auto simp: int_wf_def is_ascii_digit_def)

lemma no_digit_first_frac_exp: "exp_wf ex \<Longrightarrow> no_digit_first (frac_text fp @ exp_text ex)"
  by (auto simp: frac_text_def exp_text_def exp_wf_def is_ascii_digit_def split: option.splits)

lemma no_digit_first_exp: "exp_wf ex \<Longrightarrow> no_digit_first (exp_text ex)"
  using no_digit_first_frac_exp [of ex None] by (simp add: frac_text_def)

lemma parse_integer_ok:
  assumes "int_wf ip" "no_digit_first r" "digits_value ip = M * 10 ^ k" "0 \<le> M" "M \<le> UPPER_BOUND"
  shows "\<exists>m z. parse_integer (ip @ r) = Some (m, z, r) \<and> mantissa_inv m z \<and>
           accumulated m z = digits_value ip"
proof (cases "ip = ''0''")
  case True
  then show ?thesis by (simp add: parse_integer_def digits_value_Cons digits_value_Nil to_digit_def)
next
  case False
  with assms(1) obtain c ds where ip: "ip = c # ds" "c \<noteq> CHR ''0''" "is_ascii_digit c" "all_digits ip"
    by (cases ip) (auto simp: int_wf_def)
  from mantissa_loop_ok [OF ip(4) assms(2) mantissa_inv_start _ assms(4,5), of k 0 0] assms(3)
  obtain m z p where l: "mantissa_loop 0 (ip @ r) 0 0 0 = Some (m, z, p, r)" by auto
  from mantissa_loop_Some [OF l] have "mantissa_inv m z" "accumulated m z = digits_value ip" by auto
  with l ip show ?thesis by (simp add: parse_integer_def)
qed

lemma parse_fraction_ok:
  assumes "frac_wf fp" "exp_wf ex" "mantissa_inv m z" "0 \<le> M" "M \<le> UPPER_BOUND"
    and "accumulated m z * 10 ^ length (frac_digits fp) + digits_value (frac_digits fp) = M * 10 ^ k"
  shows "\<exists>m' z'. parse_fraction (frac_text fp @ exp_text ex) m z =
           Some (m', z', int (length (frac_digits fp)), exp_text ex) \<and> mantissa_inv m' z' \<and>
           accumulated m' z' = accumulated m z * 10 ^ length (frac_digits fp) + digits_value (frac_digits fp)"
proof (cases fp)
  case None
  with assms(2,3) show ?thesis
    by (auto simp: parse_fraction_def frac_text_def frac_digits_def digits_value_Nil exp_text_def
        exp_wf_def split: option.splits list.splits)
next
  case (Some f)
  with assms(1) obtain c ds where f: "f = c # ds" "is_ascii_digit c" "all_digits f"
    by (cases f) (auto simp: frac_wf_def)
  from mantissa_loop_ok [OF f(3) no_digit_first_exp [OF assms(2)] assms(3) _ assms(4,5), of k 1 0]
    assms(6) Some
  obtain m' z' p' where l: "mantissa_loop 1 (f @ exp_text ex) m z 0 = Some (m', z', p', exp_text ex)"
    by (auto simp: frac_digits_def)
  from mantissa_loop_Some [OF l assms(3)] l f Some show ?thesis
    by (auto simp: parse_fraction_def frac_text_def frac_digits_def)
qed

lemma parse_exponent_ok:
  assumes "exp_wf ex" "exp_value ex \<le> UPPER_BOUND"
  shows "parse_exponent (exp_text ex) = Some (exp_negative ex, exp_value ex, [])"
proof (cases ex)
  case None
  then show ?thesis by (simp add: parse_exponent_def exp_text_def exp_negative_def exp_value_def)
next
  case (Some t)
  with assms(1) obtain mark sg c ds where t: "t = (mark, sg, c # ds)"
    "mark = CHR ''e'' \<or> mark = CHR ''E''" "sg = [] \<or> sg = ''+'' \<or> sg = ''-''"
    "is_ascii_digit c" "all_digits (c # ds)"
    by (cases t, cases "snd (snd t)") (auto simp: exp_wf_def)
  have "parse_exponent_sign (sg @ c # ds) = (sg = ''-'', c # ds)"
    using t(3,4) by (auto simp: parse_exponent_sign_def is_ascii_digit_def)
  moreover have "exponent_loop (c # ds) 0 = Some (digits_value (c # ds), [])"
    using exponent_loop_ok [OF t(5), of "[]" 0] assms(2) Some t by (simp add: exp_value_def)
  ultimately show ?thesis using Some t
    by (auto simp: parse_exponent_def exp_text_def exp_negative_def exp_value_def)
qed

lemma leading_part_stripped:
  assumes "all_digits ip" "all_digits f" "digits_value (ip @ f) = M * 10 ^ K" "0 \<le> M" "M \<le> UPPER_BOUND"
  obtains M1 k1 where "digits_value ip = M1 * 10 ^ k1" "0 \<le> M1" "M1 \<le> UPPER_BOUND"
proof (cases "digits_value ip = 0")
  case True
  then show ?thesis using that [of 0 0] by (simp add: bounds_simps)
next
  case False
  with digits_value_nonneg [OF assms(1)] have "0 < digits_value ip" by simp
  then obtain M1 k1 where M1: "digits_value ip = M1 * 10 ^ k1" "\<not> 10 dvd M1" "0 < M1"
    by (rule strip_tens)
  have "(10 :: int) ^ length f \<le> 10 ^ (k1 + length f)" by (intro power_increasing) auto
  with digits_value_less [OF assms(2)] have "digits_value f < 10 ^ (k1 + length f)" by linarith
  with M1 assms digits_value_nonneg [OF assms(2)] have "M1 \<le> UPPER_BOUND"
    by (intro leading_digits_bound [of M1 "k1 + length f" "digits_value f" M K])
      (auto simp: power_add mult.assoc digits_value_append)
  with M1 show ?thesis using that [of M1 k1] by simp
qed

lemma finalize_ok:
  assumes m: "mantissa_inv m tz" "0 < accumulated m tz" and e: "0 \<le> e"
    and eq: "z * 10 ^ (p + (if es then nat e else 0)) =
      (if sg then - 1 else 1) * accumulated m tz * 10 ^ (k + (if es then 0 else nat e))"
    and z: "\<bar>z\<bar> \<le> UPPER_BOUND"
  shows "finalize sg m tz (int p) es e (int k) = Some z"
proof -
  let ?a = "nat tz + (k + (if es then 0 else nat e))" and ?b = "p + (if es then nat e else 0)"
  have m': "\<not> 10 dvd m" "0 < m" "0 \<le> tz"
    using m by (auto simp: mantissa_inv_def accumulated_def zero_less_mult_iff)
  have "m * 10 ^ ?a = (if sg then - z else z) * 10 ^ ?b"
    using eq by (simp add: accumulated_def power_add mult.assoc split: if_splits)
  note strip = stripped_digits_le [OF this m'(1,2)]
  define x where "x = ?a - ?b"
  have zx: "z = (if sg then - m else m) * 10 ^ x"
    using strip by (simp add: x_def split: if_splits)
  have "x < 18"
  proof (rule ccontr)
    assume "\<not> x < 18"
    then have "(10::int) ^ 18 \<le> 10 ^ x" by (intro power_increasing) auto
    also have "\<dots> \<le> m * 10 ^ x" using m'(2) by simp
    finally show False using zx z m'(2) by (simp add: abs_mult bounds_simps split: if_splits)
  qed
  moreover have "(if es then - e else e) - int p + tz + int k = int x"
    using strip m'(3) e by (auto simp: x_def of_nat_diff split: if_splits)
  moreover have "scale_result x (if sg then - m else m) = Some z"
    using scale_result_ok [of "if sg then - m else m" x] zx z by simp
  ultimately show ?thesis by (simp add: finalize_def Let_def)
qed

lemma parse_complete_aux:
  assumes wf: "decimal_wf d" and pos: "0 < decimal_digits d"
    and eq: "z * 10 ^ (frac_len d + exp_down d) = decimal_sign d * decimal_digits d * 10 ^ (k + exp_up d)"
    and z: "\<bar>z\<bar> \<le> UPPER_BOUND" and e: "exp_value (exp_part d) \<le> UPPER_BOUND"
  shows "parse_fixed_point (decimal_text d) (int k) = Some z"
proof -
  obtain sg ip fp ex where d: "d = \<lparr>negative = sg, int_part = ip, frac_part = fp, exp_part = ex\<rparr>"
    by (cases d) auto
  let ?f = "frac_digits fp"
  have wfs: "int_wf ip" "frac_wf fp" "exp_wf ex" using wf by (auto simp: d decimal_wf_def)
  have fd: "all_digits ?f" using wfs(2) by (auto simp: frac_wf_def frac_digits_def split: option.splits)
  have D: "decimal_digits d = digits_value (ip @ ?f)" by (simp add: d decimal_digits_def)
  have absz: "decimal_digits d * 10 ^ (k + exp_up d) = \<bar>z\<bar> * 10 ^ (frac_len d + exp_down d)"
    using arg_cong [OF eq, of abs] pos by (simp add: abs_mult decimal_sign_def power_abs split: if_splits)
  obtain M K where M: "decimal_digits d = M * 10 ^ K" "\<not> 10 dvd M" "0 < M" using strip_tens [OF pos] .
  have Mle: "M \<le> UPPER_BOUND"
    using stripped_digits_le [of M "K + (k + exp_up d)" "\<bar>z\<bar>" "frac_len d + exp_down d"] M absz z
    by (simp add: power_add mult.assoc)
  obtain M1 k1 where "digits_value ip = M1 * 10 ^ k1" "0 \<le> M1" "M1 \<le> UPPER_BOUND"
    using leading_part_stripped [of ip ?f M K] int_wf_digits [OF wfs(1)] fd D M Mle by auto
  then obtain m1 z1 where i: "parse_integer (ip @ frac_text fp @ exp_text ex) =
      Some (m1, z1, frac_text fp @ exp_text ex)" "mantissa_inv m1 z1" "accumulated m1 z1 = digits_value ip"
    using parse_integer_ok [OF wfs(1) no_digit_first_frac_exp [OF wfs(3)]] by blast
  have acc: "accumulated m1 z1 * 10 ^ length ?f + digits_value ?f = M * 10 ^ K"
    using i(3) D M(1) by (simp add: digits_value_append)
  obtain m2 z2 where f: "parse_fraction (frac_text fp @ exp_text ex) m1 z1 =
      Some (m2, z2, int (length ?f), exp_text ex)" "mantissa_inv m2 z2" "accumulated m2 z2 = decimal_digits d"
    using parse_fraction_ok [OF wfs(2,3) i(2) _ Mle acc] M(3) D i(3) by (auto simp: digits_value_append)
  have "0 \<le> exp_value ex" using parse_exponent_Some [OF parse_exponent_ok [OF wfs(3)]] e by (auto simp: d)
  then have "finalize sg m2 z2 (int (length ?f)) (exp_negative ex) (exp_value ex) (int k) = Some z"
    using eq pos f(2,3) z
    by (intro finalize_ok)
      (simp_all add: d decimal_sign_def frac_len_def exp_up_def exp_down_def split: if_splits)
  moreover have "parse_sign (decimal_text d) = (sg, ip @ frac_text fp @ exp_text ex)"
    using int_wf_digits [OF wfs(1)] parse_sign_text [of "ip @ frac_text fp @ exp_text ex" sg]
    by (cases ip) (auto simp: d decimal_text_def is_ascii_digit_def)
  ultimately show ?thesis
    using i(1) f(1) parse_exponent_ok [OF wfs(3)] e by (simp add: parse_fixed_point_def d)
qed

section \<open>Printing and parsing back\<close>

text \<open>
  The documented behaviour of \<open>serde_json::from_str\<close> under \<open>arbitrary_precision\<close>: the text of a JSON
  number parses to a number that keeps the text.
\<close>

definition arbitrary_precision :: "(string \<Rightarrow> json option) \<Rightarrow> bool" where
  "arbitrary_precision from_str \<longleftrightarrow> (\<forall>s. json_number s \<longrightarrow> from_str s = Some (Number s))"

text \<open>The decimal literal that formatting an amount produces.\<close>

definition zats_decimal :: "int \<Rightarrow> decimal" where
  "zats_decimal z = \<lparr>negative = (z < 0), int_part = show_nat (nat \<bar>z\<bar> div COIN),
     frac_part = Some (show_padded 8 (nat \<bar>z\<bar> mod COIN)), exp_part = None\<rparr>"

lemma length_show_padded_COIN: "length (show_padded 8 (n mod COIN)) = 8"
  by (intro length_show_padded) (simp_all add: COIN_def)

lemma zats_decimal_wf: "decimal_wf (zats_decimal z)"
proof -
  have "int_wf (show_nat n)" for n
    using show_nat_hd_nonzero [of n] by (cases "n = 0") (auto simp: int_wf_def)
  moreover have "show_padded 8 (n mod COIN) \<noteq> []" for n
    using length_show_padded_COIN [of n] by (metis length_0_conv zero_neq_numeral)
  ultimately show ?thesis by (simp add: zats_decimal_def decimal_wf_def frac_wf_def exp_wf_def)
qed

lemma zats_decimal_text: "decimal_text (zats_decimal z) = format_signed z"
  by (simp add: zats_decimal_def decimal_text_def format_signed_def format_zats_def frac_text_def
      exp_text_def)

lemma zats_decimal_digits: "decimal_digits (zats_decimal z) = \<bar>z\<bar>"
proof -
  have "decimal_digits (zats_decimal z) = int (nat \<bar>z\<bar> div COIN) * 10 ^ 8 + int (nat \<bar>z\<bar> mod COIN)"
    using length_show_padded_COIN [of "nat \<bar>z\<bar>"]
    by (simp add: zats_decimal_def decimal_digits_def frac_digits_def digits_value_append
        digits_value_show_nat digits_value_show_padded)
  also have "\<dots> = int (nat \<bar>z\<bar> div COIN * COIN + nat \<bar>z\<bar> mod COIN)"
    by (simp only: of_nat_add of_nat_mult) (simp add: COIN_def)
  also have "\<dots> = \<bar>z\<bar>" by simp
  finally show ?thesis .
qed

lemma parse_format_signed:
  assumes "\<bar>z\<bar> \<le> UPPER_BOUND"
  shows "parse_fixed_point (format_signed z) 8 = Some z"
proof (cases "z = 0")
  case True
  have "format_signed 0 = ''0.00000000''"
    by (simp add: format_signed_def format_zats_def show_padded_def eval_nat_numeral)
  moreover have "parse_fixed_point ''0.00000000'' 8 = Some 0" by code_simp
  ultimately show ?thesis using True by simp
next
  case False
  have "z * 10 ^ (frac_len (zats_decimal z) + exp_down (zats_decimal z)) =
      decimal_sign (zats_decimal z) * decimal_digits (zats_decimal z) * 10 ^ (8 + exp_up (zats_decimal z))"
    using zats_decimal_digits [of z] length_show_padded_COIN [of "nat \<bar>z\<bar>"]
    by (simp add: zats_decimal_def frac_len_def frac_digits_def exp_down_def exp_up_def exp_negative_def
        exp_value_def decimal_sign_def)
  moreover have "exp_value (exp_part (zats_decimal z)) \<le> UPPER_BOUND"
    by (simp add: zats_decimal_def exp_value_def UPPER_BOUND_def)
  ultimately show ?thesis
    using parse_complete_aux [OF zats_decimal_wf _ _ assms, of z 8] False zats_decimal_digits [of z]
    by (simp add: zats_decimal_text)
qed

lemma format_signed_of_nat: "format_signed (int n) = format_zats n"
  by (simp add: format_signed_def)

lemma json_number_format_signed: "json_number (format_signed z)"
  unfolding json_number_def using zats_decimal_wf zats_decimal_text by blast

lemma value_to_zats_literal:
  assumes "value_to_zats v = Inr z"
  obtains s where "v = Number s \<or> v = String s" "parse_fixed_point s 8 = Some (int (unat z))"
    "unat z \<le> MAX_MONEY"
proof -
  from assms obtain s r where s: "v = Number s \<or> v = String s" and p: "parse_fixed_point s 8 = Some r"
    and r: "\<not> r < 0" "\<not> MAX_MONEY < nat r" and z: "z = of_nat (nat r)"
    by (auto simp: value_to_zats_def split: json.splits option.splits if_splits)
  have "unat z = nat r"
    using r(2) unfolding z by (simp add: unat_of_nat bounds_simps)
  with s p r that [of s] show thesis by simp
qed

lemma value_to_zats_text:
  assumes "n \<le> MAX_MONEY" "parse_fixed_point s 8 = Some (int n)"
  shows "value_to_zats (Number s) = Inr (of_nat n)"
  using assms by (simp add: value_to_zats_def)

section \<open>Properties\<close>

text \<open>The parser never rounds and never invents: when \<open>parse_fixed_point\<close> accepts a string, the
  string is a well-formed decimal literal (optional sign, integer part, fraction, exponent), the
  result is exactly the number it denotes scaled by \<open>10 ^ decimals\<close>, and the result stays within the
  18-digit bound.\<close>

theorem parse_fixed_point_exact:
  assumes "parse_fixed_point s (int k) = Some z"
  shows "\<exists>d. decimal_wf d \<and> decimal_text d = s \<and>
           z * 10 ^ (frac_len d + exp_down d) = decimal_sign d * decimal_digits d * 10 ^ (k + exp_up d) \<and>
           \<bar>z\<bar> \<le> UPPER_BOUND"
  using assms by (rule parse_exact_aux)

theorem parse_fixed_point_exact_witness:
  "parse_fixed_point ''-12.50e-1'' 8 = Some (- 125000000) \<and>
   (\<exists>d. decimal_wf d \<and> decimal_text d = ''-12.50e-1'' \<and>
      (- 125000000) * 10 ^ (frac_len d + exp_down d) = decimal_sign d * decimal_digits d * 10 ^ (8 + exp_up d))"
proof -
  have p: "parse_fixed_point ''-12.50e-1'' (int 8) = Some (- 125000000)" by code_simp
  from parse_fixed_point_exact [OF p] p show ?thesis by auto
qed

text \<open>The parser accepts every representable amount: a well-formed literal of a nonzero number
  whose scaled value is an integer within the 18-digit bound parses to that integer, however many
  zeros the mantissa carries before, inside or after its significant digits, as long as the exponent
  digits themselves stay within the bound.\<close>

theorem parse_fixed_point_complete:
  assumes "decimal_wf d" and "0 < decimal_digits d"
    and "z * 10 ^ (frac_len d + exp_down d) = decimal_sign d * decimal_digits d * 10 ^ (k + exp_up d)"
    and "\<bar>z\<bar> \<le> UPPER_BOUND" and "exp_value (exp_part d) \<le> UPPER_BOUND"
  shows "parse_fixed_point (decimal_text d) (int k) = Some z"
  using assms by (rule parse_complete_aux)

theorem parse_fixed_point_complete_witness:
  "parse_fixed_point ''0.000000000000000000001e+13'' 8 = Some 1"
proof -
  let ?d = "\<lparr>negative = False, int_part = ''0'', frac_part = Some ''000000000000000000001'',
    exp_part = Some (CHR ''e'', ''+'', ''13'')\<rparr>"
  have "decimal_wf ?d" by code_simp
  moreover have "decimal_digits ?d = 1" by code_simp
  moreover have "frac_len ?d = 21" "exp_down ?d = 0" "exp_up ?d = 13"
    "exp_value (exp_part ?d) = 13" "decimal_sign ?d = 1" by code_simp+
  ultimately have "parse_fixed_point (decimal_text ?d) (int 8) = Some 1"
    by (intro parse_fixed_point_complete) (simp_all add: UPPER_BOUND_def)
  then show ?thesis by (simp add: decimal_text_def frac_text_def exp_text_def)
qed

text \<open>The 64-bit accumulators of the parser never overflow: on a string shorter than \<open>2 ^ 62\<close>
  bytes the mantissa stays below \<open>10 ^ 18\<close>, the exponent below \<open>10 ^ 18\<close>, and the combined exponent
  inside the range of \<open>i64\<close>.\<close>

theorem parse_state_bounds:
  assumes "parse_integer v0 = Some (m1, z1, v1)" and "parse_fraction v1 m1 z1 = Some (m2, z2, p, v2)"
    and "parse_exponent v2 = Some (es, e, v3)" and "length v0 < 2 ^ 62"
  shows "0 \<le> m1 \<and> m1 \<le> UPPER_BOUND \<and> 0 \<le> m2 \<and> m2 \<le> UPPER_BOUND \<and> 0 \<le> e \<and> e \<le> UPPER_BOUND \<and>
         0 \<le> z2 \<and> z2 < 2 ^ 62 \<and> 0 \<le> p \<and> p < 2 ^ 62 \<and>
         \<bar>(if es then - e else e) - p + z2 + 8\<bar> < 2 ^ 63"
proof -
  from parse_integer_Some [OF assms(1)] obtain ip where ip: "v0 = ip @ v1" "mantissa_inv m1 z1"
    "z1 \<le> int (length ip)" by auto
  from parse_fraction_Some [OF assms(2) ip(2)] obtain fp where fp: "v1 = frac_text fp @ v2"
    "mantissa_inv m2 z2" "p = int (length (frac_digits fp))" "z2 \<le> z1 + p" by auto
  have "length (frac_digits fp) \<le> length (frac_text fp)"
    by (cases fp) (auto simp: frac_digits_def frac_text_def)
  with ip fp assms(4) have len: "z2 < 2 ^ 62" "p < 2 ^ 62" "0 \<le> p" by auto
  from parse_exponent_Some [OF assms(3)] have e: "0 \<le> e" "e \<le> UPPER_BOUND" by auto
  from len e fp(2) have "\<bar>(if es then - e else e) - p + z2 + 8\<bar> < 2 ^ 63"
    by (auto simp: mantissa_inv_def UPPER_BOUND_def)
  with ip(2) fp(2) len e show ?thesis by (auto simp: mantissa_inv_def)
qed

theorem parse_state_bounds_witness:
  "parse_integer ''20999999.99999999e0'' = Some (20999999, 0, ''.99999999e0'') \<and>
   \<bar>(if False then - 0 else 0) - 8 + 0 + 8\<bar> < (2 :: int) ^ 63"
proof -
  have i: "parse_integer ''20999999.99999999e0'' = Some (20999999, 0, ''.99999999e0'')" by code_simp
  have f: "parse_fraction ''.99999999e0'' 20999999 0 = Some (2099999999999999, 0, 8, ''e0'')" by code_simp
  have e: "parse_exponent ''e0'' = Some (False, 0, [])" by code_simp
  from parse_state_bounds [OF i f e] i show ?thesis by simp
qed

text \<open>C33. Amounts survive the wire: an amount up to the supply cap, formatted by \<open>zats_to_value\<close> with
  a JSON reader that keeps number literals, is a JSON number (the \<open>expect\<close> cannot panic) that
  \<open>value_to_zats\<close> reads back as exactly the same number of base units; the same holds through the
  typed client's \<open>Amount\<close>.\<close>

theorem amount_roundtrip:
  assumes "arbitrary_precision from_str" and "unat z \<le> MAX_MONEY"
  shows "\<exists>v. zats_to_value from_str z = Some v \<and> value_to_zats v = Inr z \<and>
           amount_serialize from_str (Amount z) = Some v \<and> amount_deserialize v = Inr (Amount z)"
proof -
  let ?s = "format_zats (unat z)"
  have v: "zats_to_value from_str z = Some (Number ?s)"
    using assms(1) json_number_format_signed [of "int (unat z)", unfolded format_signed_of_nat]
    by (simp add: arbitrary_precision_def zats_to_value_def)
  have "\<bar>int (unat z)\<bar> \<le> UPPER_BOUND"
    using assms(2) by (simp only: MAX_MONEY_value UPPER_BOUND_def)
  then have "parse_fixed_point ?s 8 = Some (int (unat z))"
    by (rule parse_format_signed [of "int (unat z)", unfolded format_signed_of_nat])
  with assms(2) have "value_to_zats (Number ?s) = Inr z"
    using value_to_zats_text [of "unat z" ?s] by simp
  with v show ?thesis by (simp add: amount_deserialize_def)
qed

theorem amount_roundtrip_witness:
  "arbitrary_precision (\<lambda>s. Some (Number s)) \<and> unat (150000000 :: u64) \<le> MAX_MONEY \<and>
   (\<exists>v. zats_to_value (\<lambda>s. Some (Number s)) 150000000 = Some v \<and> value_to_zats v = Inr 150000000)"
proof -
  have a: "arbitrary_precision (\<lambda>s. Some (Number s))" by (simp add: arbitrary_precision_def)
  have m: "unat (150000000 :: u64) \<le> MAX_MONEY" by (simp add: MAX_MONEY_value)
  from amount_roundtrip [OF a m] a m show ?thesis by blast
qed

text \<open>Signed amounts survive the wire too, over the whole 18-digit range: transaction deltas
  printed by \<open>signed_zats_to_value\<close> read back through \<open>SignedAmount\<close> unchanged.\<close>

theorem signed_amount_roundtrip:
  assumes "arbitrary_precision from_str" and "\<bar>z\<bar> \<le> UPPER_BOUND"
  shows "\<exists>v. signed_amount_serialize from_str (SignedAmount z) = Some v \<and>
           signed_amount_deserialize v = Inr (SignedAmount z)"
  using assms json_number_format_signed [of z] parse_format_signed [of z]
  by (simp add: arbitrary_precision_def signed_zats_to_value_def signed_amount_deserialize_def)

theorem signed_amount_roundtrip_witness:
  "arbitrary_precision (\<lambda>s. Some (Number s)) \<and>
   (\<exists>v. signed_amount_serialize (\<lambda>s. Some (Number s)) (SignedAmount (- 150000000)) = Some v \<and>
        signed_amount_deserialize v = Inr (SignedAmount (- 150000000)))"
proof -
  have a: "arbitrary_precision (\<lambda>s. Some (Number s))" by (simp add: arbitrary_precision_def)
  have b: "\<bar>- 150000000 :: int\<bar> \<le> UPPER_BOUND" by (simp add: UPPER_BOUND_def)
  from signed_amount_roundtrip [OF a b] a show ?thesis by blast
qed

text \<open>What the RPC boundary lets in: \<open>value_to_zats\<close> accepts only a JSON number or string whose
  text is a decimal literal denoting exactly the returned number of base units, and the result never
  exceeds the supply cap.\<close>

theorem value_to_zats_sound:
  assumes "value_to_zats v = Inr z"
  shows "unat z \<le> MAX_MONEY \<and>
    (\<exists>s d. (v = Number s \<or> v = String s) \<and> decimal_wf d \<and> decimal_text d = s \<and>
       int (unat z) * 10 ^ (frac_len d + exp_down d) =
         decimal_sign d * decimal_digits d * 10 ^ (8 + exp_up d))"
proof -
  from assms obtain s where s: "v = Number s \<or> v = String s"
    "parse_fixed_point s 8 = Some (int (unat z))" "unat z \<le> MAX_MONEY"
    by (rule value_to_zats_literal)
  then have "parse_fixed_point s (int 8) = Some (int (unat z))" by simp
  from parse_exact_aux [OF this] s show ?thesis by auto
qed

theorem value_to_zats_sound_witness:
  "value_to_zats (String ''1.5'') = Inr 150000000 \<and> unat (150000000 :: u64) \<le> MAX_MONEY"
proof -
  have p: "parse_fixed_point ''1.5'' 8 = Some 150000000" by code_simp
  then have v: "value_to_zats (String ''1.5'') = Inr 150000000"
    by (simp add: value_to_zats_def MAX_MONEY_value)
  from value_to_zats_sound [OF v] v show ?thesis by blast
qed

end
