(* ===== verification/Hash_Map.thy ===== *)
theory Hash_Map
  imports Zecd_Prelude
begin

text \<open>
  Rust's \<open>HashMap\<close> as its entries in iteration order.  The order is unspecified in Rust, so the
  components' theorems are stated for every such list with distinct keys.  The locale \<open>keyed_store\<close> is
  the contract the components rely on; it is interpreted on the list operations here.
\<close>

section \<open>The contract of a keyed store\<close>

locale keyed_store =
  fixes invar :: "'m \<Rightarrow> bool"
    and lookup :: "'m \<Rightarrow> 'k \<Rightarrow> 'v option"
    and remove :: "'k \<Rightarrow> 'm \<Rightarrow> 'm"
    and len :: "'m \<Rightarrow> nat"
  assumes len_card: "invar m \<Longrightarrow> finite (dom (lookup m)) \<and> len m = card (dom (lookup m))"
    and remove_invar: "invar m \<Longrightarrow> invar (remove k m)"
    and lookup_remove: "invar m \<Longrightarrow> lookup (remove k m) = (lookup m)(k := None)"
begin

lemma remove_absent: "invar m \<Longrightarrow> lookup m k = None \<Longrightarrow> lookup (remove k m) = lookup m"
  by (auto simp: lookup_remove)

lemma len_remove_present:
  assumes "invar m" "lookup m k = Some v"
  shows "Suc (len (remove k m)) = len m"
proof -
  from assms(2) have k: "k \<in> dom (lookup m)" by auto
  with len_card [OF assms(1)] have "Suc (card (dom (lookup m) - {k})) = card (dom (lookup m))"
    by (simp add: card_Suc_Diff1 del: card_Diff_insert)
  then show ?thesis
    using len_card [OF assms(1)] len_card [OF remove_invar [OF assms(1), of k]]
    by (simp only: lookup_remove [OF assms(1)] dom_fun_upd if_True simp_thms)
qed

lemma len_remove_le: "invar m \<Longrightarrow> len (remove k m) \<le> len m"
  using len_remove_present [of m k] remove_absent [of m k] len_card [of m] len_card [of "remove k m"]
    remove_invar [of m k]
  by (cases "lookup m k") auto

lemma fold_remove_invar: "invar m \<Longrightarrow> invar (fold remove ks m)"
  by (induction ks arbitrary: m) (auto simp: remove_invar)

lemma lookup_fold_remove:
  "invar m \<Longrightarrow> lookup (fold remove ks m) = (\<lambda>k. if k \<in> set ks then None else lookup m k)"
  by (induction ks arbitrary: m) (auto simp: remove_invar lookup_remove fun_eq_iff)

lemma len_fold_remove:
  "invar m \<Longrightarrow> distinct ks \<Longrightarrow> set ks \<subseteq> dom (lookup m) \<Longrightarrow> len (fold remove ks m) + length ks = len m"
proof (induction ks arbitrary: m)
  case (Cons k ks)
  then obtain v where v: "lookup m k = Some v" by auto
  have "set ks \<subseteq> dom (lookup (remove k m))"
    using Cons.prems by (auto simp: lookup_remove)
  with Cons have "len (fold remove ks (remove k m)) + length ks = len (remove k m)"
    by (simp add: remove_invar)
  with len_remove_present [OF Cons.prems(1) v] show ?case by simp
qed simp

end

text \<open>A store that keeps what is put into it.\<close>

locale keyed_map = keyed_store +
  fixes insert :: "'b \<Rightarrow> 'c \<Rightarrow> 'a \<Rightarrow> 'a"
  assumes insert_invar: "invar m \<Longrightarrow> invar (insert k v m)"
    and lookup_insert: "invar m \<Longrightarrow> lookup (insert k v m) = (lookup m)(k \<mapsto> v)"
begin

lemma len_insert_fresh:
  "invar m \<Longrightarrow> lookup m k = None \<Longrightarrow> len (insert k v m) = Suc (len m)"
  using len_card [of m] len_card [OF insert_invar, of m k v]
  by (auto simp: lookup_insert domIff)

lemma remove_insert_fresh:
  "invar m \<Longrightarrow> lookup m k = None \<Longrightarrow> lookup (remove k (insert k v m)) = lookup m"
  by (auto simp: lookup_remove insert_invar lookup_insert fun_eq_iff)

end

section \<open>Hash maps as entry lists\<close>

type_synonym ('k, 'v) hash_map = "('k \<times> 'v) list"

definition hm_ok :: "('k, 'v) hash_map \<Rightarrow> bool" where
  "hm_ok m \<longleftrightarrow> distinct (map fst m)"

definition hm_get :: "('k, 'v) hash_map \<Rightarrow> 'k \<Rightarrow> 'v option" where
  "hm_get m k = map_of m k"

definition hm_insert :: "'k \<Rightarrow> 'v \<Rightarrow> ('k, 'v) hash_map \<Rightarrow> ('k, 'v) hash_map" where
  "hm_insert k v m = AList.update k v m"

definition hm_remove :: "'k \<Rightarrow> ('k, 'v) hash_map \<Rightarrow> ('k, 'v) hash_map" where
  "hm_remove k m = AList.delete k m"

definition hm_retain :: "('k \<Rightarrow> 'v \<Rightarrow> bool) \<Rightarrow> ('k, 'v) hash_map \<Rightarrow> ('k, 'v) hash_map" where
  "hm_retain P m = filter (\<lambda>(k, v). P k v) m"

definition hm_values :: "('k, 'v) hash_map \<Rightarrow> 'v list" where
  "hm_values m = map snd m"

definition hm_update_value :: "'k \<Rightarrow> ('v \<Rightarrow> 'v) \<Rightarrow> ('k, 'v) hash_map \<Rightarrow> ('k, 'v) hash_map" where
  "hm_update_value k f m = map (\<lambda>(k', v). (k', if k' = k then f v else v)) m"

lemma hm_get_fun: "hm_get m = map_of m"
  by (simp add: hm_get_def fun_eq_iff)

interpretation hm: keyed_map hm_ok hm_get hm_remove length hm_insert
proof unfold_locales
  fix m :: "('k, 'v) hash_map" and k v
  show "hm_ok m \<Longrightarrow> finite (dom (hm_get m)) \<and> length m = card (dom (hm_get m))"
    by (simp add: hm_ok_def hm_get_fun finite_dom_map_of dom_map_of_conv_image_fst)
      (metis card_distinct distinct_card length_map list.set_map)
  show "hm_ok m \<Longrightarrow> hm_ok (hm_remove k m)"
    by (simp add: hm_ok_def hm_remove_def distinct_delete)
  show "hm_ok m \<Longrightarrow> hm_get (hm_remove k m) = (hm_get m)(k := None)"
    by (simp add: hm_get_fun hm_remove_def delete_conv')
  show "hm_ok m \<Longrightarrow> hm_ok (hm_insert k v m)"
    by (simp add: hm_ok_def hm_insert_def distinct_update)
  show "hm_ok m \<Longrightarrow> hm_get (hm_insert k v m) = (hm_get m)(k \<mapsto> v)"
    by (simp add: hm_get_fun hm_insert_def update_conv')
qed

lemma hm_ok_Nil [simp]: "hm_ok []"
  by (simp add: hm_ok_def)

lemma hm_entry_iff: "hm_ok m \<Longrightarrow> (k, v) \<in> set m \<longleftrightarrow> hm_get m k = Some v"
  by (simp add: hm_ok_def hm_get_def)

lemma hm_get_SomeD: "hm_get m k = Some v \<Longrightarrow> (k, v) \<in> set m"
  by (simp add: hm_get_def map_of_SomeD)

lemma hm_get_None_iff: "hm_get m k = None \<longleftrightarrow> k \<notin> fst ` set m"
  by (simp add: hm_get_def map_of_eq_None_iff)

lemma hm_retain_ok [simp]: "hm_ok m \<Longrightarrow> hm_ok (hm_retain P m)"
  by (simp add: hm_ok_def hm_retain_def distinct_map_filter)

lemma set_hm_retain: "set (hm_retain P m) = {(k, v). (k, v) \<in> set m \<and> P k v}"
  by (auto simp: hm_retain_def)

lemma hm_insert_fresh: "hm_get m k = None \<Longrightarrow> hm_insert k v m = m @ [(k, v)]"
  by (induction m) (auto simp: hm_get_None_iff hm_insert_def split: if_splits)

lemma keys_hm_update_value [simp]: "map fst (hm_update_value k f m) = map fst m"
  by (induction m) (auto simp: hm_update_value_def)

lemma hm_update_value_ok [simp]: "hm_ok (hm_update_value k f m) = hm_ok m"
  by (simp add: hm_ok_def)

lemma length_hm_update_value [simp]: "length (hm_update_value k f m) = length m"
  by (simp add: hm_update_value_def)

lemma set_hm_update_value:
  "(k', v') \<in> set (hm_update_value k f m) \<longleftrightarrow>
     (\<exists>v. (k', v) \<in> set m \<and> v' = (if k' = k then f v else v))"
  by (induction m) (auto simp: hm_update_value_def)

lemma fold_hm_remove: "fold hm_remove ks m = filter (\<lambda>(k, v). k \<notin> set ks) m"
  by (induction ks arbitrary: m)
    (auto simp: hm_remove_def AList.delete_eq case_prod_beta intro: filter_cong)

lemma hm_get_filter:
  "hm_ok m \<Longrightarrow> hm_get (filter P m) k = (case hm_get m k of Some v \<Rightarrow> if P (k, v) then Some v else None | None \<Rightarrow> None)"
  by (induction m) (auto simp: hm_ok_def hm_get_def map_of_eq_None_iff split: option.splits)

end
