(* ===== verification/Rust_Text.thy ===== *)
theory Rust_Text
  imports Zecd_Prelude "HOL-Library.Sublist"
begin

text \<open>
  The string functions of Rust's standard library the components use, on ASCII text: trimming, case
  folding, prefixes and suffixes, splitting, joining, integer parsing, and the \<open>Debug\<close> form of a string.
\<close>

definition is_whitespace :: "char \<Rightarrow> bool" where
  "is_whitespace c \<longleftrightarrow> (let n = of_char c :: nat in (9 \<le> n \<and> n \<le> 13) \<or> n = 32)"

definition trim_start :: "string \<Rightarrow> string" where
  "trim_start s = dropWhile is_whitespace s"

definition trim_end :: "string \<Rightarrow> string" where
  "trim_end s = rev (dropWhile is_whitespace (rev s))"

definition trim :: "string \<Rightarrow> string" where
  "trim s = trim_end (trim_start s)"

definition lower_char :: "char \<Rightarrow> char" where
  "lower_char c = (let n = of_char c :: nat in if 65 \<le> n \<and> n \<le> 90 then char_of (n + 32) else c)"

definition is_ascii_alphanumeric :: "char \<Rightarrow> bool" where
  "is_ascii_alphanumeric c \<longleftrightarrow>
     is_ascii_digit c \<or> (let n = of_char c :: nat in 97 \<le> n \<and> n \<le> 122 \<or> 65 \<le> n \<and> n \<le> 90)"

definition to_ascii_lowercase :: "string \<Rightarrow> string" where
  "to_ascii_lowercase s = map lower_char s"

definition starts_with :: "string \<Rightarrow> string \<Rightarrow> bool" where
  "starts_with s p \<longleftrightarrow> take (length p) s = p"

definition strip_prefix :: "string \<Rightarrow> string \<Rightarrow> string option" where
  "strip_prefix p s = (if starts_with s p then Some (drop (length p) s) else None)"

definition strip_suffix :: "string \<Rightarrow> string \<Rightarrow> string option" where
  "strip_suffix p s = map_option rev (strip_prefix (rev p) (rev s))"

definition contains :: "string \<Rightarrow> string \<Rightarrow> bool" where
  "contains s p \<longleftrightarrow> list_ex (\<lambda>i. starts_with (drop i s) p) [0..<Suc (length s)]"

text \<open>\<open>split_once\<close> and \<open>rsplit_once\<close> on a character.\<close>

fun split_once :: "char \<Rightarrow> string \<Rightarrow> (string \<times> string) option" where
  "split_once d [] = None"
| "split_once d (c # s) =
     (if c = d then Some ([], s) else map_option (\<lambda>(a, b). (c # a, b)) (split_once d s))"

definition rsplit_once :: "char \<Rightarrow> string \<Rightarrow> (string \<times> string) option" where
  "rsplit_once d s = map_option (\<lambda>(a, b). (rev b, rev a)) (split_once d (rev s))"

fun split_on :: "char \<Rightarrow> string \<Rightarrow> string list" where
  "split_on d [] = [[]]"
| "split_on d (c # s) =
     (if c = d then [] # split_on d s
      else case split_on d s of t # ts \<Rightarrow> (c # t) # ts | [] \<Rightarrow> [[c]])"

fun join :: "string \<Rightarrow> string list \<Rightarrow> string" where
  "join sep [] = []"
| "join sep [x] = x"
| "join sep (x # y # xs) = x @ sep @ join sep (y # xs)"

text \<open>\<open>str::parse\<close> for an unsigned integer type of maximum \<open>m\<close>: an optional plus sign and digits.\<close>

definition parse_unsigned :: "nat \<Rightarrow> string \<Rightarrow> nat option" where
  "parse_unsigned m s =
     (let ds = (case s of c # t \<Rightarrow> if c = CHR ''+'' then t else s | [] \<Rightarrow> [])
      in if ds \<noteq> [] \<and> all_digits ds \<and> nat (digits_value ds) \<le> m then Some (nat (digits_value ds)) else None)"

definition hex_digit :: "nat \<Rightarrow> char" where
  "hex_digit n = (if n < 10 then char_of (48 + n) else char_of (87 + n))"

definition hex_byte :: "nat \<Rightarrow> string" where
  "hex_byte n = [hex_digit (n div 16 mod 16), hex_digit (n mod 16)]"

definition hex_encode :: "u8 list \<Rightarrow> string" where
  "hex_encode bs = concat (map (\<lambda>b. hex_byte (unat b)) bs)"

definition hex_value :: "char \<Rightarrow> nat option" where
  "hex_value c = (let n = of_char c :: nat in
     if 48 \<le> n \<and> n \<le> 57 then Some (n - 48)
     else if 97 \<le> n \<and> n \<le> 102 then Some (n - 87)
     else if 65 \<le> n \<and> n \<le> 70 then Some (n - 55)
     else None)"

fun hex_decode :: "string \<Rightarrow> u8 list option" where
  "hex_decode [] = Some []"
| "hex_decode [c] = None"
| "hex_decode (c # d # s) =
     (case (hex_value c, hex_value d, hex_decode s) of
        (Some h, Some l, Some bs) \<Rightarrow> Some (of_nat (16 * h + l) # bs)
      | _ \<Rightarrow> None)"

definition escape_debug :: "char \<Rightarrow> string" where
  "escape_debug c = (let n = of_char c :: nat in
     if n = 0 then [char_of (92 :: nat), CHR ''0'']
     else if n = 9 then [char_of (92 :: nat), CHR ''t'']
     else if n = 10 then [char_of (92 :: nat), CHR ''n'']
     else if n = 13 then [char_of (92 :: nat), CHR ''r'']
     else if n = 34 \<or> n = 92 then [char_of (92 :: nat), c]
     else if n < 16 then char_of (92 :: nat) # ''u{'' @ [hex_digit n] @ ''}''
     else if n < 32 \<or> n = 127 then char_of (92 :: nat) # ''u{'' @ hex_byte n @ ''}''
     else [c])"

definition debug_str :: "string \<Rightarrow> string" where
  "debug_str s = char_of (34 :: nat) # concat (map escape_debug s) @ [char_of (34 :: nat)]"

section \<open>Facts\<close>

lemma trim_start_idem [simp]: "trim_start (trim_start s) = trim_start s"
  by (simp add: trim_start_def)

lemma dropWhile_id: "(s \<noteq> [] \<Longrightarrow> \<not> P (hd s)) \<Longrightarrow> dropWhile P s = s"
  by (cases s) auto

lemma trim_id:
  assumes "\<forall>c \<in> set s. \<not> is_whitespace c"
  shows "trim s = s"
proof -
  have "dropWhile is_whitespace s = s" "dropWhile is_whitespace (rev s) = rev s"
    using assms by (auto intro!: dropWhile_id simp: hd_rev)
  then show ?thesis by (simp add: trim_def trim_start_def trim_end_def)
qed

lemma hd_trim_start: "trim_start s \<noteq> [] \<Longrightarrow> \<not> is_whitespace (hd (trim_start s))"
  by (simp add: trim_start_def hd_dropWhile)

lemma trim_end_prefix: "\<exists>w. s = trim_end s @ w \<and> (\<forall>c \<in> set w. is_whitespace c)"
proof -
  have "rev s = takeWhile is_whitespace (rev s) @ dropWhile is_whitespace (rev s)" by simp
  then have "s = trim_end s @ rev (takeWhile is_whitespace (rev s))"
    unfolding trim_end_def by (metis rev_append rev_rev_ident)
  moreover have "\<forall>c \<in> set (rev (takeWhile is_whitespace (rev s))). is_whitespace c"
    by (auto dest: set_takeWhileD)
  ultimately show ?thesis by blast
qed

lemma trim_idem [simp]: "trim (trim s) = trim s"
proof -
  let ?t = "trim_start s"
  obtain w where w: "?t = trim_end ?t @ w" using trim_end_prefix by blast
  have "trim_start (trim_end ?t) = trim_end ?t"
  proof (cases "trim_end ?t")
    case Nil
    then show ?thesis by (simp add: trim_start_def)
  next
    case (Cons c u)
    then have "hd ?t = c" "?t \<noteq> []" using w by (metis append_Cons list.sel(1), metis Nil_is_append_conv list.distinct(1))
    then have "\<not> is_whitespace c" using hd_trim_start [of s] by simp
    with Cons show ?thesis by (simp add: trim_start_def)
  qed
  then show ?thesis by (simp add: trim_def trim_end_def)
qed

lemma lower_char_idem [simp]: "lower_char (lower_char c) = lower_char c"
  by (auto simp: lower_char_def Let_def)

lemma to_ascii_lowercase_idem [simp]: "to_ascii_lowercase (to_ascii_lowercase s) = to_ascii_lowercase s"
  by (simp add: to_ascii_lowercase_def)

lemma strip_prefix_append [simp]: "strip_prefix p (p @ s) = Some s"
  by (simp add: strip_prefix_def starts_with_def)

lemma strip_prefix_SomeD: "strip_prefix p s = Some t \<Longrightarrow> s = p @ t"
  unfolding strip_prefix_def starts_with_def by (metis append_take_drop_id option.distinct(1) option.sel)

lemma split_once_SomeD: "split_once d s = Some (a, b) \<Longrightarrow> s = a @ d # b \<and> d \<notin> set a"
  by (induction s arbitrary: a) (auto split: if_splits)

lemma split_once_append [simp]: "d \<notin> set a \<Longrightarrow> split_once d (a @ d # b) = Some (a, b)"
  by (induction a) auto

lemma split_once_None: "split_once d s = None \<longleftrightarrow> d \<notin> set s"
  by (induction s) (auto split: if_splits)

lemma rsplit_once_append [simp]: "d \<notin> set b \<Longrightarrow> rsplit_once d (a @ d # b) = Some (a, b)"
  by (simp add: rsplit_once_def)

lemma rsplit_once_SomeD: "rsplit_once d s = Some (a, b) \<Longrightarrow> s = a @ d # b \<and> d \<notin> set b"
  unfolding rsplit_once_def
  by (auto dest!: split_once_SomeD) (metis append.assoc append_Cons append_Nil rev.simps(2) rev_append rev_rev_ident)

lemma rsplit_once_None: "rsplit_once d s = None \<longleftrightarrow> d \<notin> set s"
  by (simp add: rsplit_once_def split_once_None)

lemma digit_not_plus: "is_ascii_digit c \<Longrightarrow> c \<noteq> CHR ''+''"
  by (auto simp: is_ascii_digit_def)

lemma parse_unsigned_show [simp]: "n \<le> m \<Longrightarrow> parse_unsigned m (show_nat n) = Some n"
proof -
  assume "n \<le> m"
  obtain c t where ct: "show_nat n = c # t" using show_nat_nonempty [of n] by (cases "show_nat n") auto
  then have "c \<noteq> CHR ''+''" using show_nat_digits [of n] by (auto dest: digit_not_plus)
  with ct \<open>n \<le> m\<close> show ?thesis
    using digits_value_show_nat [of n] show_nat_digits [of n] by (simp add: parse_unsigned_def)
qed

lemma parse_unsigned_le: "parse_unsigned m s = Some n \<Longrightarrow> n \<le> m"
  by (auto simp: parse_unsigned_def Let_def split: if_splits)

lemma hex_encode_length [simp]: "length (hex_encode bs) = 2 * length bs"
  by (induction bs) (auto simp: hex_encode_def hex_byte_def)

lemma hex_value_digit: "n < 16 \<Longrightarrow> hex_value (hex_digit n) = Some n"
  by (simp add: hex_value_def hex_digit_def Let_def)

lemma hex_decode_encode [simp]: "hex_decode (hex_encode bs) = Some bs"
proof (induction bs)
  case (Cons b bs)
  have "unat b < 256" using unsigned_less [of b] by simp
  then have "unat b div 16 mod 16 = unat b div 16" by simp
  moreover have "16 * (unat b div 16) + unat b mod 16 = unat b" by simp
  ultimately have "of_nat (16 * (unat b div 16 mod 16) + unat b mod 16) = b" by simp
  with Cons show ?case by (simp add: hex_encode_def hex_byte_def hex_value_digit)
qed (simp add: hex_encode_def)

lemma hex_digit_plain: "n < 16 \<Longrightarrow> hex_digit n \<noteq> CHR ''$'' \<and> hex_digit n \<noteq> CHR '':''"
proof -
  assume "n < 16"
  moreover have "list_all (\<lambda>n. hex_digit n \<noteq> CHR ''$'' \<and> hex_digit n \<noteq> CHR '':'') [0..<16]" by code_simp
  ultimately show ?thesis by (simp only: list_all_iff set_upt) simp
qed

lemma hex_encode_plain: "CHR ''$'' \<notin> set (hex_encode bs)" "CHR '':'' \<notin> set (hex_encode bs)"
proof -
  have "\<exists>n < 16. c = hex_digit n" if "c \<in> set (hex_encode bs)" for c
    using that by (auto simp: hex_encode_def hex_byte_def intro: exI [of _ "_ mod 16"])
  then show "CHR ''$'' \<notin> set (hex_encode bs)" "CHR '':'' \<notin> set (hex_encode bs)"
    using hex_digit_plain by metis+
qed

end
