(* ===== verification/Operations.thy ===== *)
theory Operations
  imports Rpc_Error Hash_Map Rust_Text "HOL-Library.Char_ord" "HOL-Library.List_Lexorder" "HOL-Library.Product_Lexorder"
begin

text \<open>
  The registry of asynchronous operations, \<open>src/operations.rs\<close>: the lifecycle of one operation as its
  spawned task drives it, the wallet-scoped registry with its two caps, and the system of registry
  calls and task steps in every interleaving.  Times are integers (nanoseconds since the epoch);
  fresh identifiers and clock readings are arguments.  Each critical section of the source runs under
  one lock and is one atomic step here; the operation states a registry call reads one by one are read
  at one instant (between two reads a task can only move its own operation forward).
\<close>

section \<open>One operation\<close>

definition MAX_OPERATIONS :: nat where "MAX_OPERATIONS = 1024"

definition MAX_INFLIGHT_OPERATIONS_PER_WALLET :: nat where
  "MAX_INFLIGHT_OPERATIONS_PER_WALLET = 16"

type_synonym operation_id = string

text \<open>\<open>Uuid::try_parse\<close> is the parameter: whether the text is a UUID.\<close>

definition operation_id_from_str :: "(string \<Rightarrow> bool) \<Rightarrow> string \<Rightarrow> rpc_error + operation_id" where
  "operation_id_from_str try_parse value =
     (case strip_prefix ''opid-'' value of
        None \<Rightarrow> Inl (invalid_parameter ''Invalid operation ID'')
      | Some uuid \<Rightarrow>
          if try_parse uuid then Inr value else Inl (invalid_parameter ''Invalid operation ID''))"

datatype operation_state = Ready | Executing | Cancelled | Failed | Success

fun operation_state_as_str :: "operation_state \<Rightarrow> string" where
  "operation_state_as_str Ready = ''queued''"
| "operation_state_as_str Executing = ''executing''"
| "operation_state_as_str Cancelled = ''cancelled''"
| "operation_state_as_str Failed = ''failed''"
| "operation_state_as_str Success = ''success''"

definition is_finished :: "operation_state \<Rightarrow> bool" where
  "is_finished s \<longleftrightarrow> s \<in> {Cancelled, Failed, Success}"

record context_info =
  ctx_method :: string
  ctx_params :: json

record operation_data =
  od_state :: operation_state
  od_start_time :: "int option"
  od_end_time :: "int option"
  od_result :: "(rpc_error + json) option"

text \<open>Where the spawned task is: before its first lock, awaiting the future, between storing the
  result and publishing it, or returned.\<close>

datatype task_point = TaskStart | TaskAwait | TaskPublish | TaskDone

record async_operation =
  op_id :: operation_id
  op_context :: "context_info option"
  op_creation_time :: int
  op_data :: operation_data
  op_finished :: bool
  op_task :: task_point

definition async_operation_new :: "operation_id \<Rightarrow> int \<Rightarrow> context_info option \<Rightarrow> async_operation" where
  "async_operation_new fresh_id now ctx =
     \<lparr>op_id = fresh_id, op_context = ctx, op_creation_time = now,
      op_data = \<lparr>od_state = Ready, od_start_time = None, od_end_time = None, od_result = None\<rparr>,
      op_finished = False, op_task = TaskStart\<rparr>"

text \<open>The task's first critical section.\<close>

definition task_start :: "int \<Rightarrow> async_operation \<Rightarrow> async_operation" where
  "task_start now op =
     (if od_state (op_data op) = Cancelled
      then op\<lparr>op_finished := True, op_task := TaskDone\<rparr>
      else op\<lparr>op_data := (op_data op)\<lparr>od_state := Executing, od_start_time := Some now\<rparr>,
             op_task := TaskAwait\<rparr>)"

text \<open>The future returned \<open>res\<close>: the second critical section.\<close>

definition task_store :: "int \<Rightarrow> rpc_error + json \<Rightarrow> async_operation \<Rightarrow> async_operation" where
  "task_store end_time res op =
     op\<lparr>op_data := (op_data op)
          \<lparr>od_state := (case res of Inr _ \<Rightarrow> Success | Inl _ \<Rightarrow> Failed),
           od_end_time := Some end_time, od_result := Some res\<rparr>,
        op_task := TaskPublish\<rparr>"

definition task_publish :: "async_operation \<Rightarrow> async_operation" where
  "task_publish op = op\<lparr>op_finished := True, op_task := TaskDone\<rparr>"

definition op_state :: "async_operation \<Rightarrow> operation_state" where
  "op_state op = od_state (op_data op)"

record operation_error =
  oe_code :: int
  oe_message :: string

record operation_status =
  st_id :: string
  st_method :: "string option"
  st_params :: "json option"
  st_status :: operation_state
  st_creation_time :: nat
  st_error :: "operation_error option"
  st_result :: "json option"
  st_execution_secs :: "nat option"

definition as_secs :: "int \<Rightarrow> nat" where
  "as_secs ns = nat (ns div 1000000000)"

text \<open>\<open>duration_since(..).map(as_secs).unwrap_or(0)\<close>: a time before the reference counts as 0.\<close>

definition secs_since :: "int \<Rightarrow> int \<Rightarrow> nat" where
  "secs_since t t0 = (if t0 \<le> t then as_secs (t - t0) else 0)"

definition to_status :: "async_operation \<Rightarrow> operation_status" where
  "to_status op =
     (let d = op_data op;
          err = (case od_result d of Some (Inl e) \<Rightarrow> Some \<lparr>oe_code = err_code e, oe_message = err_message e\<rparr>
                                   | _ \<Rightarrow> None);
          res = (case od_result d of Some (Inr v) \<Rightarrow> Some v | _ \<Rightarrow> None);
          secs = (case od_result d of
                    Some (Inr _) \<Rightarrow>
                      (case (od_end_time d, od_start_time d) of
                         (Some e, Some s) \<Rightarrow> Some (secs_since e s)
                       | _ \<Rightarrow> None)
                  | _ \<Rightarrow> None)
      in \<lparr>st_id = op_id op, st_method = map_option ctx_method (op_context op),
          st_params = map_option ctx_params (op_context op), st_status = od_state d,
          st_creation_time = secs_since (op_creation_time op) 0,
          st_error = err, st_result = res, st_execution_secs = secs\<rparr>)"

definition status_is_finished :: "operation_status \<Rightarrow> bool" where
  "status_is_finished s = is_finished (st_status s)"

section \<open>The registry\<close>

record operation_entry =
  entry_wallet :: string
  entry_op :: async_operation

type_synonym operation_registry = "(operation_id, operation_entry) hash_map"

definition entry_inflight :: "string \<Rightarrow> operation_entry \<Rightarrow> bool" where
  "entry_inflight wallet e \<longleftrightarrow> entry_wallet e = wallet \<and> \<not> is_finished (op_state (entry_op e))"

definition inflight :: "operation_registry \<Rightarrow> string \<Rightarrow> nat" where
  "inflight m wallet = length (filter (entry_inflight wallet) (hm_values m))"

definition evict_if_over_cap :: "operation_registry \<Rightarrow> operation_registry" where
  "evict_if_over_cap m =
     (if length m \<le> MAX_OPERATIONS then m
      else let finished = sort_key fst
                 (map (\<lambda>(id, e). (op_creation_time (entry_op e), id))
                   (filter (\<lambda>(id, e). is_finished (op_state (entry_op e))) m));
               excess = length m - MAX_OPERATIONS
           in fold hm_remove (map snd (take excess finished)) m)"

definition insert_op :: "operation_registry \<Rightarrow> string \<Rightarrow> async_operation \<Rightarrow> string \<times> operation_registry" where
  "insert_op m wallet op =
     (op_id op,
      evict_if_over_cap (hm_insert (op_id op) \<lparr>entry_wallet = wallet, entry_op = op\<rparr> m))"

definition too_many_message :: "nat \<Rightarrow> string" where
  "too_many_message n =
     ''Too many operations already in progress ('' @ show_nat n @ ''); the limit is '' @
     show_nat MAX_INFLIGHT_OPERATIONS_PER_WALLET @
     ''. Wait for in-flight operations to finish before starting another.''"

definition try_insert ::
  "operation_registry \<Rightarrow> string \<Rightarrow> context_info option \<Rightarrow> operation_id \<Rightarrow> int
     \<Rightarrow> (rpc_error + string) \<times> operation_registry" where
  "try_insert m wallet ctx fresh_id now =
     (let n = inflight m wallet
      in if n \<ge> MAX_INFLIGHT_OPERATIONS_PER_WALLET
         then (Inl (wallet_error (too_many_message n)), m)
         else let (opid, m') = insert_op m wallet (async_operation_new fresh_id now ctx)
              in (Inr opid, m'))"

definition collect_ops ::
  "operation_registry \<Rightarrow> string \<Rightarrow> operation_id list option \<Rightarrow> (async_operation \<Rightarrow> bool)
     \<Rightarrow> operation_status list" where
  "collect_ops m wallet ids extra =
     map snd (sort_key fst
       (map (\<lambda>e. (op_creation_time (entry_op e), to_status (entry_op e)))
         (filter (\<lambda>e. entry_wallet e = wallet \<and>
             (case ids of None \<Rightarrow> True | Some l \<Rightarrow> op_id (entry_op e) \<in> set l) \<and> extra (entry_op e))
           (hm_values m))))"

definition status :: "operation_registry \<Rightarrow> string \<Rightarrow> operation_id list option \<Rightarrow> operation_status list" where
  "status m wallet ids = collect_ops m wallet ids (\<lambda>_. True)"

definition status_of :: "operation_registry \<Rightarrow> string \<Rightarrow> operation_id \<Rightarrow> operation_status option" where
  "status_of m wallet i =
     (case hm_get m i of
        Some e \<Rightarrow> if entry_wallet e = wallet then Some (to_status (entry_op e)) else None
      | None \<Rightarrow> None)"

text \<open>What a subscriber's \<open>wait_for\<close> inspects first: the current value of the finished channel.\<close>

definition subscribe :: "operation_registry \<Rightarrow> string \<Rightarrow> operation_id \<Rightarrow> bool option" where
  "subscribe m wallet i =
     (case hm_get m i of
        Some e \<Rightarrow> if entry_wallet e = wallet then Some (op_finished (entry_op e)) else None
      | None \<Rightarrow> None)"

definition take_results ::
  "operation_registry \<Rightarrow> string \<Rightarrow> operation_id list option \<Rightarrow> operation_status list \<times> operation_registry" where
  "take_results m wallet ids =
     (let statuses = collect_ops m wallet ids (\<lambda>op. is_finished (op_state op));
          returned = set (map st_id statuses)
      in (statuses, hm_retain (\<lambda>i _. i \<notin> returned) m))"

definition unfinished :: "operation_registry \<Rightarrow> (string \<times> string) list" where
  "unfinished m =
     sort (map (\<lambda>e. (entry_wallet e, op_id (entry_op e)))
       (filter (\<lambda>e. \<not> is_finished (op_state (entry_op e))) (hm_values m)))"

definition list_ids :: "operation_registry \<Rightarrow> string \<Rightarrow> string option \<Rightarrow> string list" where
  "list_ids m wallet status_filter =
     map snd (sort_key fst
       (map (\<lambda>e. (op_creation_time (entry_op e), op_id (entry_op e)))
         (filter (\<lambda>e. entry_wallet e = wallet \<and>
             (case status_filter of None \<Rightarrow> True
              | Some f \<Rightarrow> operation_state_as_str (op_state (entry_op e)) = f))
           (hm_values m))))"

section \<open>Registry and tasks in every interleaving\<close>

definition update_op :: "operation_id \<Rightarrow> (async_operation \<Rightarrow> async_operation) \<Rightarrow> operation_registry \<Rightarrow> operation_registry" where
  "update_op i f m = hm_update_value i (\<lambda>e. e\<lparr>entry_op := f (entry_op e)\<rparr>) m"

text \<open>
  \<open>W\<close> is the set of wallets the daemon serves.  A launch uses an identifier the registry does not hold
  (they are random UUIDs).  Reads change nothing and are not steps.
\<close>

inductive registry_step :: "string set \<Rightarrow> operation_registry \<Rightarrow> operation_registry \<Rightarrow> bool" for W where
  launch: "w \<in> W \<Longrightarrow> hm_get m i = None \<Longrightarrow> registry_step W m (snd (try_insert m w ctx i now))"
| start: "hm_get m i = Some e \<Longrightarrow> op_task (entry_op e) = TaskStart \<Longrightarrow>
    registry_step W m (update_op i (task_start now) m)"
| store: "hm_get m i = Some e \<Longrightarrow> op_task (entry_op e) = TaskAwait \<Longrightarrow>
    registry_step W m (update_op i (task_store now res) m)"
| publish: "hm_get m i = Some e \<Longrightarrow> op_task (entry_op e) = TaskPublish \<Longrightarrow>
    registry_step W m (update_op i task_publish m)"
| reap: "registry_step W m (snd (take_results m w ids))"

inductive registry_reachable :: "string set \<Rightarrow> operation_registry \<Rightarrow> bool" for W where
  registry_init: "registry_reachable W []"
| registry_next: "registry_reachable W m \<Longrightarrow> registry_step W m m' \<Longrightarrow> registry_reachable W m'"

inductive_simps registry_step_iff: "registry_step W m m'"

section \<open>Eviction\<close>

definition entry_finished :: "operation_entry \<Rightarrow> bool" where
  "entry_finished e \<longleftrightarrow> is_finished (op_state (entry_op e))"

definition entry_created :: "operation_entry \<Rightarrow> int" where
  "entry_created e = op_creation_time (entry_op e)"

definition finished_by_age :: "operation_registry \<Rightarrow> (int \<times> operation_id) list" where
  "finished_by_age m = sort_key fst (map (\<lambda>(i, e). (entry_created e, i)) (filter (\<lambda>(i, e). entry_finished e) m))"

definition eviction_victims :: "operation_registry \<Rightarrow> operation_id list" where
  "eviction_victims m = map snd (take (length m - MAX_OPERATIONS) (finished_by_age m))"

lemma evict_filter: "evict_if_over_cap m = filter (\<lambda>(i, e). i \<notin> set (eviction_victims m)) m"
proof -
  have "finished_by_age m =
      sort_key fst (map (\<lambda>(i, e). (op_creation_time (entry_op e), i))
        (filter (\<lambda>(i, e). is_finished (op_state (entry_op e))) m))"
    by (simp add: finished_by_age_def entry_created_def entry_finished_def)
  then show ?thesis
    by (auto simp: evict_if_over_cap_def eviction_victims_def fold_hm_remove Let_def
        intro!: filter_True [symmetric])
qed

lemma set_finished_by_age:
  "set (finished_by_age m) = {(entry_created e, i) | i e. (i, e) \<in> set m \<and> entry_finished e}"
  by (auto simp: finished_by_age_def image_iff)

lemma length_finished_by_age: "length (finished_by_age m) = length (filter (\<lambda>(i, e). entry_finished e) m)"
  by (simp add: finished_by_age_def)

lemma map_snd_sort_key_mset: "mset (map snd (sort_key f xs)) = mset (map snd xs)"
  by simp

lemma distinct_finished_ids: "hm_ok m \<Longrightarrow> distinct (map snd (finished_by_age m))"
proof -
  assume "hm_ok m"
  then have "distinct (map fst (filter (\<lambda>(i, e). entry_finished e) m))"
    by (simp add: hm_ok_def distinct_map_filter)
  moreover have "map snd (map (\<lambda>(i, e). (entry_created e, i)) xs) = map fst xs" for xs
    by (induction xs) auto
  then have "mset (map snd (finished_by_age m)) = mset (map fst (filter (\<lambda>(i, e). entry_finished e) m))"
    unfolding finished_by_age_def map_snd_sort_key_mset by (rule arg_cong)
  ultimately show ?thesis by (metis mset_eq_imp_distinct_iff)
qed

lemma victim_finished: "hm_ok m \<Longrightarrow> (i, e) \<in> set m \<Longrightarrow> i \<in> set (eviction_victims m) \<Longrightarrow> entry_finished e"
  by (auto simp: eviction_victims_def dest!: in_set_takeD)
    (auto simp: set_finished_by_age hm_entry_iff)

lemma victims_in_dom: "set (eviction_victims m) \<subseteq> fst ` set m"
  by (force simp: eviction_victims_def set_finished_by_age dest!: in_set_takeD)

lemma distinct_victims: "hm_ok m \<Longrightarrow> distinct (eviction_victims m)"
  using distinct_finished_ids [of m] by (simp add: eviction_victims_def flip: take_map)

lemma length_evict:
  assumes "hm_ok m"
  shows "length (evict_if_over_cap m) = length m - length (eviction_victims m)"
proof -
  have "set (eviction_victims m) \<subseteq> dom (hm_get m)"
    using victims_in_dom [of m] by (simp add: hm_get_fun dom_map_of_conv_image_fst)
  from hm.len_fold_remove [OF assms distinct_victims [OF assms] this] show ?thesis
    by (simp add: evict_filter fold_hm_remove)
qed

lemma evict_ok [simp]: "hm_ok m \<Longrightarrow> hm_ok (evict_if_over_cap m)"
  by (simp add: evict_filter hm_ok_def distinct_map_filter)

lemma evict_length_cases:
  assumes "hm_ok m"
  shows "length (evict_if_over_cap m) \<le> MAX_OPERATIONS \<or> (\<forall>(i, e) \<in> set (evict_if_over_cap m). \<not> entry_finished e)"
proof (cases "length m - MAX_OPERATIONS \<le> length (finished_by_age m)")
  case True
  then have "length (eviction_victims m) = length m - MAX_OPERATIONS" by (simp add: eviction_victims_def)
  then have "length (evict_if_over_cap m) \<le> MAX_OPERATIONS" using length_evict [OF assms] by linarith
  then show ?thesis ..
next
  case False
  then have "eviction_victims m = map snd (finished_by_age m)" by (simp add: eviction_victims_def)
  then have "\<forall>(i, e) \<in> set m. entry_finished e \<longrightarrow> i \<in> set (eviction_victims m)"
    by (force simp: set_finished_by_age image_iff)
  then show ?thesis by (auto simp: evict_filter)
qed

lemma evicted_oldest:
  assumes "hm_ok m" "(i, e) \<in> set m" "(i, e) \<notin> set (evict_if_over_cap m)"
    and "(j, e') \<in> set (evict_if_over_cap m)" "entry_finished e'"
  shows "entry_created e \<le> entry_created e'"
proof -
  let ?n = "length m - MAX_OPERATIONS" and ?L = "finished_by_age m"
  from assms(2,3) have "i \<in> set (eviction_victims m)" by (auto simp: evict_filter)
  then obtain t where t: "(t, i) \<in> set (take ?n ?L)" by (auto simp: eviction_victims_def)
  then have "t = entry_created e"
    using assms(1,2) by (auto simp: set_finished_by_age hm_entry_iff dest!: in_set_takeD)
  from assms(4) have j: "(j, e') \<in> set m" "j \<notin> set (eviction_victims m)" by (auto simp: evict_filter)
  then have "(entry_created e', j) \<in> set ?L" using assms(5) by (auto simp: set_finished_by_age)
  moreover have "(entry_created e', j) \<notin> set (take ?n ?L)"
    using j(2) by (force simp: eviction_victims_def)
  ultimately have d: "(entry_created e', j) \<in> set (drop ?n ?L)"
    by (metis Un_iff append_take_drop_id set_append)
  have "sorted (map fst (take ?n ?L @ drop ?n ?L))" by (simp add: finished_by_age_def)
  then have "\<forall>x \<in> set (map fst (take ?n ?L)). \<forall>y \<in> set (map fst (drop ?n ?L)). x \<le> y"
    unfolding map_append sorted_append by blast
  with t d \<open>t = entry_created e\<close> show ?thesis by force
qed

section \<open>The registry invariant\<close>

text \<open>An operation's data at each point of its task.\<close>

definition result_agrees :: "operation_data \<Rightarrow> bool" where
  "result_agrees d \<longleftrightarrow>
     (case od_result d of
        Some (Inr _) \<Rightarrow> od_state d = Success
      | Some (Inl _) \<Rightarrow> od_state d = Failed
      | None \<Rightarrow> \<not> is_finished (od_state d))"

fun task_inv :: "task_point \<Rightarrow> async_operation \<Rightarrow> bool" where
  "task_inv TaskStart op \<longleftrightarrow> od_state (op_data op) = Ready \<and> od_result (op_data op) = None \<and> \<not> op_finished op"
| "task_inv TaskAwait op \<longleftrightarrow>
     od_state (op_data op) = Executing \<and> od_result (op_data op) = None \<and>
     od_start_time (op_data op) \<noteq> None \<and> \<not> op_finished op"
| "task_inv TaskPublish op \<longleftrightarrow>
     od_result (op_data op) \<noteq> None \<and> result_agrees (op_data op) \<and>
     od_start_time (op_data op) \<noteq> None \<and> od_end_time (op_data op) \<noteq> None \<and> \<not> op_finished op"
| "task_inv TaskDone op \<longleftrightarrow>
     od_result (op_data op) \<noteq> None \<and> result_agrees (op_data op) \<and>
     od_start_time (op_data op) \<noteq> None \<and> od_end_time (op_data op) \<noteq> None \<and> op_finished op"

definition entry_inv :: "string set \<Rightarrow> operation_id \<Rightarrow> operation_entry \<Rightarrow> bool" where
  "entry_inv W i e \<longleftrightarrow> op_id (entry_op e) = i \<and> entry_wallet e \<in> W \<and> task_inv (op_task (entry_op e)) (entry_op e)"

definition registry_inv :: "string set \<Rightarrow> operation_registry \<Rightarrow> bool" where
  "registry_inv W m \<longleftrightarrow>
     hm_ok m \<and> (\<forall>(i, e) \<in> set m. entry_inv W i e) \<and>
     (\<forall>w. inflight m w \<le> MAX_INFLIGHT_OPERATIONS_PER_WALLET)"

lemma inflight_conv: "inflight m w = length (filter (\<lambda>(i, e). entry_inflight w e) m)"
  by (induction m) (auto simp: inflight_def hm_values_def)

lemma inflight_filter_le: "inflight (filter P m) w \<le> inflight m w"
  unfolding inflight_conv filter_filter by (induction m) auto

lemma inflight_snoc: "inflight (m @ [(i, e)]) w = inflight m w + (if entry_inflight w e then 1 else 0)"
  by (simp add: inflight_conv)

lemma registry_inv_filter: "registry_inv W m \<Longrightarrow> registry_inv W (filter P m)"
  by (auto simp: registry_inv_def hm_ok_def distinct_map_filter intro: order_trans [OF inflight_filter_le])

lemma registry_inv_launch:
  assumes "registry_inv W m" "w \<in> W" "hm_get m i = None"
  shows "registry_inv W (snd (try_insert m w ctx i now))"
proof (cases "inflight m w \<ge> MAX_INFLIGHT_OPERATIONS_PER_WALLET")
  case True
  with assms(1) show ?thesis by (simp add: try_insert_def)
next
  case False
  let ?op = "async_operation_new i now ctx"
  let ?e = "\<lparr>entry_wallet = w, entry_op = ?op\<rparr>"
  have new: "op_id ?op = i" "op_task ?op = TaskStart" "task_inv TaskStart ?op"
    by (simp_all add: async_operation_new_def)
  have fresh: "hm_insert i ?e m = m @ [(i, ?e)]" using assms(3) by (rule hm_insert_fresh)
  have "registry_inv W (m @ [(i, ?e)])"
    using assms False new fresh hm.insert_invar [of m i ?e]
    by (auto simp: registry_inv_def entry_inv_def inflight_snoc entry_inflight_def)
  then have "registry_inv W (evict_if_over_cap (m @ [(i, ?e)]))"
    unfolding evict_filter by (rule registry_inv_filter)
  then show ?thesis using False fresh new by (simp add: try_insert_def insert_op_def)
qed

lemma inflight_update_op:
  assumes "\<And>v. (i, v) \<in> set m \<Longrightarrow> is_finished (op_state (entry_op v)) \<Longrightarrow> is_finished (op_state (f (entry_op v)))"
  shows "inflight (update_op i f m) w \<le> inflight m w"
  using assms
proof (induction m)
  case (Cons x m)
  obtain k v where x: "x = (k, v)" by (cases x)
  have "inflight (update_op i f m) w \<le> inflight m w" using Cons by auto
  moreover have "k = i \<Longrightarrow> is_finished (op_state (entry_op v)) \<Longrightarrow> is_finished (op_state (f (entry_op v)))"
    using Cons.prems [of v] x by simp
  ultimately show ?case
    by (auto simp: x inflight_conv update_op_def hm_update_value_def entry_inflight_def)
qed (simp add: update_op_def hm_update_value_def)

lemma registry_inv_update:
  assumes inv: "registry_inv W m" and get: "hm_get m i = Some e"
    and task: "task_inv (op_task (f (entry_op e))) (f (entry_op e))" and id: "op_id (f (entry_op e)) = op_id (entry_op e)"
    and fin: "is_finished (op_state (entry_op e)) \<Longrightarrow> is_finished (op_state (f (entry_op e)))"
  shows "registry_inv W (update_op i f m)"
proof -
  have ok: "hm_ok m" and ent: "entry_inv W i e"
    using inv hm_get_SomeD [OF get] by (auto simp: registry_inv_def)
  have only: "v = e" if "(i, v) \<in> set m" for v using that get ok by (simp add: hm_entry_iff)
  have "\<forall>(j, v) \<in> set (update_op i f m). entry_inv W j v"
  proof clarify
    fix j v assume "(j, v) \<in> set (update_op i f m)"
    then obtain v0 where v0: "(j, v0) \<in> set m" "v = (if j = i then v0\<lparr>entry_op := f (entry_op v0)\<rparr> else v0)"
      unfolding update_op_def set_hm_update_value by blast
    show "entry_inv W j v"
    proof (cases "j = i")
      case True
      with v0 only have "v = e\<lparr>entry_op := f (entry_op e)\<rparr>" by simp
      with True ent task id show ?thesis by (simp add: entry_inv_def)
    next
      case False
      with v0 inv show ?thesis by (auto simp: registry_inv_def)
    qed
  qed
  moreover have "inflight (update_op i f m) w \<le> MAX_INFLIGHT_OPERATIONS_PER_WALLET" for w
  proof -
    have "inflight (update_op i f m) w \<le> inflight m w"
      by (rule inflight_update_op) (use only fin in blast)
    also have "\<dots> \<le> MAX_INFLIGHT_OPERATIONS_PER_WALLET" using inv by (simp add: registry_inv_def)
    finally show ?thesis .
  qed
  ultimately show ?thesis using ok by (simp add: registry_inv_def update_op_def)
qed

lemma registry_inv_task:
  assumes "registry_inv W m" "hm_get m i = Some e" "op_task (entry_op e) = p"
  shows "task_inv p (entry_op e)"
  using assms hm_get_SomeD [OF assms(2)] by (auto simp: registry_inv_def entry_inv_def)

lemma registry_step_inv: "registry_step W m m' \<Longrightarrow> registry_inv W m \<Longrightarrow> registry_inv W m'"
proof (induction rule: registry_step.induct)
  case (launch w m i ctx now)
  then show ?case by (intro registry_inv_launch)
next
  case (start m i e now)
  from registry_inv_task [OF start.prems start(1,2)] show ?case
    by (intro registry_inv_update [OF start.prems start(1)])
      (auto simp: task_start_def op_state_def is_finished_def)
next
  case (store m i e now res)
  from registry_inv_task [OF store.prems store(1,2)] show ?case
    by (intro registry_inv_update [OF store.prems store(1)])
      (auto simp: task_store_def op_state_def is_finished_def result_agrees_def split: sum.splits)
next
  case (publish m i e)
  from registry_inv_task [OF publish.prems publish(1,2)] show ?case
    by (intro registry_inv_update [OF publish.prems publish(1)])
      (auto simp: task_publish_def op_state_def)
next
  case (reap m w ids)
  then show ?case by (simp add: take_results_def Let_def hm_retain_def registry_inv_filter)
qed

lemma registry_reachable_inv: "registry_reachable W m \<Longrightarrow> registry_inv W m"
proof (induction rule: registry_reachable.induct)
  case registry_init
  show ?case by (simp add: registry_inv_def inflight_def hm_values_def)
next
  case (registry_next m m')
  then show ?case by (blast intro: registry_step_inv)
qed

section \<open>Queries see only the caller's wallet\<close>

definition own_entries :: "string \<Rightarrow> operation_registry \<Rightarrow> operation_registry" where
  "own_entries w m = filter (\<lambda>(i, e). entry_wallet e = w) m"

lemma own_entries_update:
  "(\<And>e. (i, e) \<in> set m \<Longrightarrow> entry_wallet e \<noteq> w) \<Longrightarrow> own_entries w (update_op i f m) = own_entries w m"
proof (induction m)
  case (Cons x m)
  obtain k v where x: "x = (k, v)" by (cases x)
  have "own_entries w (update_op i f m) = own_entries w m" using Cons by simp
  moreover have "k = i \<Longrightarrow> entry_wallet v \<noteq> w" using Cons.prems [of v] x by simp
  ultimately show ?case by (simp add: x own_entries_def update_op_def hm_update_value_def)
qed (simp add: update_op_def hm_update_value_def)

text \<open>The contract of a wallet-scoped query: it is a function of the caller's own entries.\<close>

locale wallet_scoped =
  fixes query :: "operation_registry \<Rightarrow> string \<Rightarrow> 'r"
  assumes scoped: "hm_ok m \<Longrightarrow> query m w = query (own_entries w m) w"
begin

lemma query_eqI: "hm_ok m \<Longrightarrow> hm_ok m' \<Longrightarrow> own_entries w m = own_entries w m' \<Longrightarrow> query m w = query m' w"
  by (metis scoped)

lemma query_retain_foreign:
  assumes "hm_ok m" and "\<And>i e. (i, e) \<in> set m \<Longrightarrow> entry_wallet e = w \<Longrightarrow> P i e"
  shows "query (hm_retain P m) w = query m w"
proof (rule query_eqI)
  show "own_entries w (hm_retain P m) = own_entries w m"
    using assms(2) by (auto simp: own_entries_def hm_retain_def intro!: filter_cong)
qed (use assms(1) in auto)

lemma query_update_foreign:
  assumes "hm_ok m" and "\<And>e. (i, e) \<in> set m \<Longrightarrow> entry_wallet e \<noteq> w"
  shows "query (update_op i f m) w = query m w"
proof (rule query_eqI)
  show "own_entries w (update_op i f m) = own_entries w m"
    using assms(2) by (rule own_entries_update)
qed (use assms(1) in \<open>auto simp: update_op_def\<close>)

end

lemma collect_ops_own: "collect_ops (own_entries w m) w ids P = collect_ops m w ids P"
proof -
  have "filter (\<lambda>e. entry_wallet e = w \<and> Q e) (hm_values (own_entries w m)) =
      filter (\<lambda>e. entry_wallet e = w \<and> Q e) (hm_values m)" for Q
    by (induction m) (auto simp: own_entries_def hm_values_def)
  then show ?thesis by (simp add: collect_ops_def)
qed

lemma list_ids_own: "list_ids (own_entries w m) w f = list_ids m w f"
proof -
  have "filter (\<lambda>e. entry_wallet e = w \<and> Q e) (hm_values (own_entries w m)) =
      filter (\<lambda>e. entry_wallet e = w \<and> Q e) (hm_values m)" for Q
    by (induction m) (auto simp: own_entries_def hm_values_def)
  then show ?thesis by (simp add: list_ids_def)
qed

lemma hm_get_own:
  "hm_ok m \<Longrightarrow> hm_get (own_entries w m) i =
     (case hm_get m i of Some e \<Rightarrow> if entry_wallet e = w then Some e else None | None \<Rightarrow> None)"
  by (simp add: own_entries_def hm_get_filter split: option.splits)

interpretation st: wallet_scoped "\<lambda>m w. status m w ids"
  by unfold_locales (simp add: status_def collect_ops_own)

interpretation li: wallet_scoped "\<lambda>m w. list_ids m w f"
  by unfold_locales (simp add: list_ids_own)

interpretation so: wallet_scoped "\<lambda>m w. status_of m w i"
  by unfold_locales (auto simp: status_of_def hm_get_own split: option.splits)

interpretation su: wallet_scoped "\<lambda>m w. subscribe m w i"
  by unfold_locales (auto simp: subscribe_def hm_get_own split: option.splits)

interpretation tr: wallet_scoped "\<lambda>m w. fst (take_results m w ids)"
  by unfold_locales (simp add: take_results_def collect_ops_own Let_def)

section \<open>Collecting results\<close>

text \<open>The entries \<open>take_results\<close> is about: finished, of the wallet, and asked for.\<close>

definition takeable :: "string \<Rightarrow> operation_id list option \<Rightarrow> operation_entry \<Rightarrow> bool" where
  "takeable w ids e \<longleftrightarrow>
     entry_wallet e = w \<and> (case ids of None \<Rightarrow> True | Some l \<Rightarrow> op_id (entry_op e) \<in> set l) \<and> entry_finished e"

lemma map_snd_sort_key_pair: "map snd (sort_key fst (map (\<lambda>e. (f e, g e)) xs)) = map g (sort_key f xs)"
proof -
  have ins: "insort_key fst (f x, g x) (map (\<lambda>e. (f e, g e)) ys) = map (\<lambda>e. (f e, g e)) (insort_key f x ys)" for x ys
    by (induction ys) auto
  have "sort_key fst (map (\<lambda>e. (f e, g e)) xs) = map (\<lambda>e. (f e, g e)) (sort_key f xs)"
    by (induction xs) (simp_all add: ins)
  then show ?thesis by (simp add: comp_def)
qed

lemma collect_ops_conv:
  "collect_ops m w ids P =
     map (to_status \<circ> entry_op) (sort_key entry_created
       (filter (\<lambda>e. entry_wallet e = w \<and> (case ids of None \<Rightarrow> True | Some l \<Rightarrow> op_id (entry_op e) \<in> set l) \<and>
          P (entry_op e)) (hm_values m)))"
  unfolding collect_ops_def map_snd_sort_key_pair by (simp add: comp_def entry_created_def [abs_def])

lemma st_id_to_status [simp]: "st_id (to_status op) = op_id op"
  by (simp add: to_status_def Let_def)

lemma fst_take_results:
  "fst (take_results m w ids) = map (to_status \<circ> entry_op) (sort_key entry_created (filter (takeable w ids) (hm_values m)))"
  unfolding take_results_def collect_ops_conv Let_def fst_conv
  by (simp add: takeable_def [abs_def] entry_finished_def)

lemma taken_ids:
  assumes "registry_inv W m"
  shows "st_id ` set (fst (take_results m w ids)) = {i. \<exists>e. (i, e) \<in> set m \<and> takeable w ids e}"
proof -
  have id: "op_id (entry_op e) = i" if "(i, e) \<in> set m" for i e
    using that assms by (auto simp: registry_inv_def entry_inv_def)
  have "st_id ` set (fst (take_results m w ids)) = {op_id (entry_op e) | i e. (i, e) \<in> set m \<and> takeable w ids e}"
    unfolding fst_take_results by (force simp: hm_values_def image_image)
  also have "\<dots> = {i. \<exists>e. (i, e) \<in> set m \<and> takeable w ids e}" using id by blast
  finally show ?thesis .
qed

lemma snd_take_results:
  assumes "registry_inv W m"
  shows "snd (take_results m w ids) = filter (\<lambda>(i, e). \<not> takeable w ids e) m"
proof -
  have ok: "hm_ok m" using assms by (simp add: registry_inv_def)
  have "snd (take_results m w ids) = filter (\<lambda>(i, e). i \<notin> st_id ` set (fst (take_results m w ids))) m"
    by (simp add: take_results_def Let_def hm_retain_def)
  also have "\<dots> = filter (\<lambda>(i, e). \<not> takeable w ids e) m"
    unfolding taken_ids [OF assms]
    by (rule filter_cong) (use ok in \<open>auto simp: hm_entry_iff\<close>)
  finally show ?thesis .
qed

section \<open>Properties\<close>

text \<open>A run of the registry: one operation launched, executed and published.\<close>

definition sample_run :: operation_registry where
  "sample_run =
     update_op ''opid-1'' task_publish
       (update_op ''opid-1'' (task_store 9000000000 (Inr Null))
         (update_op ''opid-1'' (task_start 7000000000) (snd (try_insert [] ''w'' None ''opid-1'' 5000000000))))"

lemmas registry_ops_defs =
  try_insert_def insert_op_def inflight_def hm_values_def hm_insert_def hm_get_def hm_ok_def
  async_operation_new_def MAX_INFLIGHT_OPERATIONS_PER_WALLET_def evict_if_over_cap_def MAX_OPERATIONS_def
  update_op_def hm_update_value_def task_start_def task_store_def task_publish_def Let_def

lemma sample_run_eq:
  "sample_run = [(''opid-1'', \<lparr>entry_wallet = ''w'', entry_op =
     \<lparr>op_id = ''opid-1'', op_context = None, op_creation_time = 5000000000,
      op_data = \<lparr>od_state = Success, od_start_time = Some 7000000000, od_end_time = Some 9000000000,
        od_result = Some (Inr Null)\<rparr>, op_finished = True, op_task = TaskDone\<rparr>\<rparr>)]"
  by (simp add: sample_run_def registry_ops_defs)

lemma sample_run_reachable: "registry_reachable {''w''} sample_run"
  unfolding sample_run_def
proof (rule registry_next [OF registry_next [OF registry_next [OF registry_next [OF registry_init launch] start] store] publish])
qed (simp_all add: registry_ops_defs, simp_all)

text \<open>In every interleaving of launches, task steps and result collection, no wallet ever has more
  than \<open>MAX_INFLIGHT_OPERATIONS_PER_WALLET\<close> unfinished operations, and a launch at the cap is refused
  with a wallet error and changes nothing.\<close>

theorem inflight_cap:
  assumes "registry_reachable W m"
  shows "inflight m w \<le> MAX_INFLIGHT_OPERATIONS_PER_WALLET \<and>
    (inflight m w = MAX_INFLIGHT_OPERATIONS_PER_WALLET \<longrightarrow>
       (\<exists>msg. try_insert m w ctx i now = (Inl (wallet_error msg), m)))"
  using registry_reachable_inv [OF assms] by (auto simp: registry_inv_def try_insert_def Let_def)

theorem inflight_cap_witness:
  "inflight (snd (try_insert [] ''w'' None ''opid-1'' 5)) ''w'' \<le> MAX_INFLIGHT_OPERATIONS_PER_WALLET"
  using inflight_cap [OF registry_next [OF registry_init launch [of "''w''" "{''w''}" "[]" "''opid-1''" None 5]],
      of "''w''"] by (simp add: hm_get_def)

lemma length_by_wallet:
  assumes "finite W" and "\<forall>(i, e) \<in> set m. entry_wallet e \<in> W \<and> \<not> entry_finished e"
  shows "length m = (\<Sum>w\<in>W. inflight m w)"
  using assms(2)
proof (induction m)
  case (Cons x m)
  obtain k v where x: "x = (k, v)" by (cases x)
  have "entry_wallet v \<in> W" "\<not> entry_finished v" using Cons.prems x by auto
  then have "(\<Sum>w\<in>W. inflight (x # m) w) = (\<Sum>w\<in>W. inflight m w + (if w = entry_wallet v then 1 else 0))"
    by (intro sum.cong) (auto simp: x inflight_conv entry_inflight_def entry_finished_def)
  also have "\<dots> = (\<Sum>w\<in>W. inflight m w) + 1"
    using assms(1) \<open>entry_wallet v \<in> W\<close> by (simp add: sum.distrib)
  also have "\<dots> = length (x # m)" using Cons by simp
  finally show ?case by simp
qed (simp add: inflight_def hm_values_def)

lemma unfinished_only_bound:
  assumes "finite W" "registry_inv W m" "\<forall>(i, e) \<in> set m. \<not> entry_finished e"
  shows "length m \<le> MAX_INFLIGHT_OPERATIONS_PER_WALLET * card W"
proof -
  have "\<forall>(i, e) \<in> set m. entry_wallet e \<in> W \<and> \<not> entry_finished e"
    using assms by (auto simp: registry_inv_def entry_inv_def)
  from length_by_wallet [OF assms(1) this] have "length m = (\<Sum>w\<in>W. inflight m w)" .
  also have "\<dots> \<le> (\<Sum>w\<in>W. MAX_INFLIGHT_OPERATIONS_PER_WALLET)"
    using assms(2) by (intro sum_mono) (simp add: registry_inv_def)
  finally show ?thesis by (simp add: mult.commute)
qed

lemma launch_size:
  assumes "finite W" "registry_inv W m" "w \<in> W" "hm_get m i = None"
    and "length m \<le> max MAX_OPERATIONS (MAX_INFLIGHT_OPERATIONS_PER_WALLET * card W)"
  shows "length (snd (try_insert m w ctx i now)) \<le> max MAX_OPERATIONS (MAX_INFLIGHT_OPERATIONS_PER_WALLET * card W)"
proof (cases "inflight m w \<ge> MAX_INFLIGHT_OPERATIONS_PER_WALLET")
  case True
  then show ?thesis using assms(5) by (simp add: try_insert_def)
next
  case False
  let ?m = "hm_insert i \<lparr>entry_wallet = w, entry_op = async_operation_new i now ctx\<rparr> m"
  have res: "snd (try_insert m w ctx i now) = evict_if_over_cap ?m"
    using False by (simp add: try_insert_def insert_op_def async_operation_new_def)
  have ok: "hm_ok ?m" using assms(2) hm.insert_invar by (auto simp: registry_inv_def)
  have "registry_inv W (evict_if_over_cap ?m)"
    using registry_inv_launch [OF assms(2,3,4), of ctx now] res by simp
  with evict_length_cases [OF ok] unfinished_only_bound [OF assms(1)] show ?thesis
    unfolding res by (meson le_max_iff_disj)
qed

text \<open>With finitely many wallets the registry holds at most \<open>MAX_OPERATIONS\<close> entries, or, when the
  in-flight operations alone exceed that, one in-flight allowance per wallet.\<close>

theorem registry_size_bound:
  assumes "finite W" "registry_reachable W m"
  shows "length m \<le> max MAX_OPERATIONS (MAX_INFLIGHT_OPERATIONS_PER_WALLET * card W)"
  using assms(2)
proof (induction rule: registry_reachable.induct)
  case (registry_next m m')
  note inv = registry_reachable_inv [OF registry_next.hyps(1)]
  from registry_next.hyps(2) show ?case
  proof cases
    case (launch w i ctx now)
    then show ?thesis using launch_size [OF assms(1) inv] registry_next.IH by blast
  next
    case (reap w ids)
    then show ?thesis using registry_next.IH
      by (auto simp: take_results_def Let_def hm_retain_def intro: order_trans [OF length_filter_le])
  qed (use registry_next.IH in \<open>simp_all add: update_op_def\<close>)
qed simp

theorem registry_size_bound_witness:
  "length (snd (try_insert [] ''w'' None ''opid-1'' 5)) \<le>
     max MAX_OPERATIONS (MAX_INFLIGHT_OPERATIONS_PER_WALLET * card {''w''})"
  using registry_size_bound [OF _ registry_next [OF registry_init
      launch [of "''w''" "{''w''}" "[]" "''opid-1''" None 5]]] by (simp add: hm_get_def)

text \<open>Eviction never drops an unfinished operation, drops nothing under the cap, drops only operations
  at least as old as every finished one it keeps, and leaves the map at the cap unless only unfinished
  operations are left.\<close>

theorem eviction_safe:
  assumes "hm_ok m"
  shows "(\<forall>(i, e) \<in> set m. (i, e) \<notin> set (evict_if_over_cap m) \<longrightarrow>
      is_finished (op_state (entry_op e)) \<and>
      (\<forall>(j, e') \<in> set (evict_if_over_cap m). is_finished (op_state (entry_op e')) \<longrightarrow>
         op_creation_time (entry_op e) \<le> op_creation_time (entry_op e')))
    \<and> set (evict_if_over_cap m) \<subseteq> set m
    \<and> (length m \<le> MAX_OPERATIONS \<longrightarrow> evict_if_over_cap m = m)
    \<and> (length (evict_if_over_cap m) = min (length m) MAX_OPERATIONS \<or>
       (\<forall>(i, e) \<in> set (evict_if_over_cap m). \<not> is_finished (op_state (entry_op e))))"
proof (intro conjI)
  show "\<forall>(i, e) \<in> set m. (i, e) \<notin> set (evict_if_over_cap m) \<longrightarrow>
      is_finished (op_state (entry_op e)) \<and>
      (\<forall>(j, e') \<in> set (evict_if_over_cap m). is_finished (op_state (entry_op e')) \<longrightarrow>
         op_creation_time (entry_op e) \<le> op_creation_time (entry_op e'))"
  proof clarify
    fix i e assume e: "(i, e) \<in> set m" "(i, e) \<notin> set (evict_if_over_cap m)"
    then have "entry_finished e" using assms by (auto simp: evict_filter intro: victim_finished)
    with evicted_oldest [OF assms e] show "is_finished (op_state (entry_op e)) \<and>
      (\<forall>(j, e') \<in> set (evict_if_over_cap m). is_finished (op_state (entry_op e')) \<longrightarrow>
         op_creation_time (entry_op e) \<le> op_creation_time (entry_op e'))"
      by (auto simp: entry_finished_def entry_created_def)
  qed
  show "set (evict_if_over_cap m) \<subseteq> set m" by (auto simp: evict_filter)
  show "length m \<le> MAX_OPERATIONS \<longrightarrow> evict_if_over_cap m = m" by (simp add: evict_if_over_cap_def)
  have "length (eviction_victims m) \<le> length m - MAX_OPERATIONS" by (simp add: eviction_victims_def)
  with evict_length_cases [OF assms] length_evict [OF assms]
  show "length (evict_if_over_cap m) = min (length m) MAX_OPERATIONS \<or>
       (\<forall>(i, e) \<in> set (evict_if_over_cap m). \<not> is_finished (op_state (entry_op e)))"
    by (auto simp: entry_finished_def)
qed

theorem eviction_safe_witness:
  "length (evict_if_over_cap (snd (try_insert [] ''w'' None ''opid-1'' 5))) = 1"
  using eviction_safe [of "snd (try_insert [] ''w'' None ''opid-1'' 5)"]
  by (simp add: try_insert_def insert_op_def inflight_def hm_values_def hm_insert_def hm_ok_def
      async_operation_new_def MAX_INFLIGHT_OPERATIONS_PER_WALLET_def evict_if_over_cap_def MAX_OPERATIONS_def)

text \<open>Collecting results returns exactly the wallet's finished operations that were asked for, oldest
  first, and removes exactly those: collecting again returns nothing, every operation not returned is
  still there, and no other wallet's listing, status or results change.\<close>

theorem take_results_exact:
  assumes "registry_reachable W m" and "take_results m w ids = (sts, m')"
  shows "set sts = {to_status (entry_op e) | i e. (i, e) \<in> set m \<and> takeable w ids e}
    \<and> sorted (map (op_creation_time \<circ> entry_op) (sort_key entry_created (filter (takeable w ids) (hm_values m))))
    \<and> sts = map (to_status \<circ> entry_op) (sort_key entry_created (filter (takeable w ids) (hm_values m)))
    \<and> m' = filter (\<lambda>(i, e). \<not> takeable w ids e) m
    \<and> fst (take_results m' w ids) = []
    \<and> (\<forall>w'. w' \<noteq> w \<longrightarrow> (\<forall>q f i. status m' w' q = status m w' q \<and> list_ids m' w' f = list_ids m w' f \<and>
          status_of m' w' i = status_of m w' i \<and> fst (take_results m' w' q) = fst (take_results m w' q)))"
proof -
  note inv = registry_reachable_inv [OF assms(1)]
  have ok: "hm_ok m" using inv by (simp add: registry_inv_def)
  have sts: "sts = map (to_status \<circ> entry_op) (sort_key entry_created (filter (takeable w ids) (hm_values m)))"
    using assms(2) fst_take_results [of m w ids] by simp
  have m': "m' = filter (\<lambda>(i, e). \<not> takeable w ids e) m"
    using assms(2) snd_take_results [OF inv, of w ids] by simp
  then have m'r: "m' = hm_retain (\<lambda>i e. \<not> takeable w ids e) m" by (simp add: hm_retain_def)
  have again: "fst (take_results m' w ids) = []"
    unfolding fst_take_results by (auto simp: m' hm_values_def filter_empty_conv)
  have foreign: "\<not> takeable w ids e" if "w' \<noteq> w" "entry_wallet e = w'" for w' e
    using that by (simp add: takeable_def)
  show ?thesis
  proof (intro conjI allI impI)
    show "set sts = {to_status (entry_op e) | i e. (i, e) \<in> set m \<and> takeable w ids e}"
      by (force simp: sts hm_values_def)
    show "sorted (map (op_creation_time \<circ> entry_op)
        (sort_key entry_created (filter (takeable w ids) (hm_values m))))"
      using sorted_sort_key [of entry_created] by (simp add: entry_created_def [abs_def] comp_def)
    fix w' assume "w' \<noteq> w"
    note f = foreign [OF this]
    show "status m' w' q = status m w' q" for q unfolding m'r by (rule st.query_retain_foreign [OF ok f])
    show "list_ids m' w' q = list_ids m w' q" for q unfolding m'r by (rule li.query_retain_foreign [OF ok f])
    show "status_of m' w' i = status_of m w' i" for i unfolding m'r by (rule so.query_retain_foreign [OF ok f])
    show "fst (take_results m' w' q) = fst (take_results m w' q)" for q
      unfolding m'r by (rule tr.query_retain_foreign [OF ok f])
  qed (fact sts m' again)+
qed

theorem take_results_exact_witness:
  "map st_id (fst (take_results sample_run ''w'' None)) = [''opid-1''] \<and> snd (take_results sample_run ''w'' None) = []"
  using take_results_exact [OF sample_run_reachable surjective_pairing, of "''w''" None]
  by (simp add: sample_run_eq takeable_def entry_finished_def is_finished_def op_state_def hm_values_def
      to_status_def Let_def)

text \<open>When a waiter observes an operation's finished flag, its status is terminal and carries the
  outcome: a success has the result and its execution time and no error, a failure has the error and
  no result.\<close>

theorem finished_has_outcome:
  assumes "registry_reachable W m" "subscribe m w i = Some True"
  shows "\<exists>s. status_of m w i = Some s \<and> st_id s = i \<and> status_is_finished s \<and>
    (case st_status s of
       Success \<Rightarrow> st_result s \<noteq> None \<and> st_error s = None \<and> st_execution_secs s \<noteq> None
     | Failed \<Rightarrow> st_result s = None \<and> st_error s \<noteq> None \<and> st_execution_secs s = None
     | _ \<Rightarrow> False)"
proof -
  from assms(2) obtain e where e: "hm_get m i = Some e" "entry_wallet e = w" "op_finished (entry_op e)"
    by (auto simp: subscribe_def split: option.splits if_splits)
  note inv = registry_reachable_inv [OF assms(1)]
  have id: "op_id (entry_op e) = i" using inv hm_get_SomeD [OF e(1)] by (auto simp: registry_inv_def entry_inv_def)
  have "op_task (entry_op e) = TaskDone"
    using registry_inv_task [OF inv e(1) refl] e(3) by (cases "op_task (entry_op e)") auto
  from registry_inv_task [OF inv e(1) this] e id show ?thesis
    by (auto simp: status_of_def to_status_def Let_def result_agrees_def status_is_finished_def is_finished_def
        split: option.splits sum.splits)
qed

theorem finished_has_outcome_witness:
  "\<exists>s. status_of sample_run ''w'' ''opid-1'' = Some s \<and> st_status s = Success \<and> st_result s \<noteq> None"
proof -
  have "subscribe sample_run ''w'' ''opid-1'' = Some True"
    by (simp add: subscribe_def sample_run_eq hm_get_def)
  from finished_has_outcome [OF sample_run_reachable this] show ?thesis
    by (auto simp: status_of_def sample_run_eq hm_get_def to_status_def Let_def)
qed

end
