(* ===== verification/Tx_Size.thy ===== *)
theory Tx_Size
  imports Zecd_Prelude
begin

text \<open>
  The transaction size estimator of \<open>src/tx_size.rs\<close>: the byte estimate of a transaction shape, the
  shape of a proposal step, the bisection for the largest count that fits a byte ceiling, and the
  check against the shielded budget.  Counts and bytes are natural numbers; \<open>estimate_fits_usize\<close> shows
  that they stay within a 64-bit \<open>usize\<close> for every count a transaction can have.
\<close>

section \<open>Field widths and the estimate\<close>

definition ORCHARD_ACTION_BYTES :: nat where "ORCHARD_ACTION_BYTES = 820 + 64"
definition ORCHARD_PROOF_BASE_BYTES :: nat where "ORCHARD_PROOF_BASE_BYTES = 2720"
definition ORCHARD_PROOF_PER_ACTION_BYTES :: nat where "ORCHARD_PROOF_PER_ACTION_BYTES = 2272"
definition ORCHARD_BUNDLE_FIXED_BYTES :: nat where "ORCHARD_BUNDLE_FIXED_BYTES = 1 + 8 + 32 + 64"
definition SAPLING_SPEND_BYTES :: nat where "SAPLING_SPEND_BYTES = 96 + 192 + 64"
definition SAPLING_OUTPUT_BYTES :: nat where "SAPLING_OUTPUT_BYTES = 756 + 192"
definition SAPLING_BUNDLE_FIXED_BYTES :: nat where "SAPLING_BUNDLE_FIXED_BYTES = 8 + 32 + 64"
definition TRANSPARENT_INPUT_BYTES :: nat where
  "TRANSPARENT_INPUT_BYTES = 32 + 4 + 1 + (1 + 72 + 1 + 33) + 4"
definition TRANSPARENT_OUTPUT_BYTES :: nat where "TRANSPARENT_OUTPUT_BYTES = 8 + 1 + 25"
definition HEADER_BYTES :: nat where "HEADER_BYTES = 4 * 5"

lemmas field_widths =
  ORCHARD_ACTION_BYTES_def ORCHARD_PROOF_BASE_BYTES_def ORCHARD_PROOF_PER_ACTION_BYTES_def
  ORCHARD_BUNDLE_FIXED_BYTES_def SAPLING_SPEND_BYTES_def SAPLING_OUTPUT_BYTES_def
  SAPLING_BUNDLE_FIXED_BYTES_def TRANSPARENT_INPUT_BYTES_def TRANSPARENT_OUTPUT_BYTES_def HEADER_BYTES_def

definition compact_size_bytes :: "nat \<Rightarrow> nat" where
  "compact_size_bytes n =
     (if n \<le> 252 then 1 else if n \<le> 0xFFFF then 3 else if n \<le> 0xFFFFFFFF then 5 else 9)"

record tx_shape =
  orchard_actions :: nat
  ironwood_actions :: nat
  sapling_spends :: nat
  sapling_outputs :: nat
  transparent_inputs :: nat
  transparent_outputs :: nat

definition tx_shape_default :: tx_shape where
  "tx_shape_default = \<lparr>orchard_actions = 0, ironwood_actions = 0, sapling_spends = 0, sapling_outputs = 0,
     transparent_inputs = 0, transparent_outputs = 0\<rparr>"

definition orchard_family_actions :: "tx_shape \<Rightarrow> nat" where
  "orchard_family_actions s = orchard_actions s + ironwood_actions s"

text \<open>One iteration of the loop over the two Orchard-protocol bundles.\<close>

definition orchard_bundle_bytes :: "nat \<Rightarrow> nat" where
  "orchard_bundle_bytes actions =
     compact_size_bytes actions +
     (if actions > 0 then
        let proof_bytes = ORCHARD_PROOF_BASE_BYTES + actions * ORCHARD_PROOF_PER_ACTION_BYTES
        in ORCHARD_BUNDLE_FIXED_BYTES + actions * ORCHARD_ACTION_BYTES + compact_size_bytes proof_bytes + proof_bytes
      else 0)"

definition estimate_bytes :: "tx_shape \<Rightarrow> nat" where
  "estimate_bytes s =
     (let bytes = HEADER_BYTES;
          bytes = bytes + (compact_size_bytes (transparent_inputs s) +
            transparent_inputs s * TRANSPARENT_INPUT_BYTES +
            compact_size_bytes (transparent_outputs s) +
            transparent_outputs s * TRANSPARENT_OUTPUT_BYTES);
          bytes = bytes + (compact_size_bytes (sapling_spends s) + compact_size_bytes (sapling_outputs s));
          bytes = (if sapling_spends s > 0 \<or> sapling_outputs s > 0
            then bytes + (SAPLING_BUNDLE_FIXED_BYTES + sapling_spends s * SAPLING_SPEND_BYTES +
              sapling_outputs s * SAPLING_OUTPUT_BYTES)
            else bytes)
      in fold (\<lambda>actions b. b + orchard_bundle_bytes actions) [orchard_actions s, ironwood_actions s] bytes)"

section \<open>The shape of a proposal step\<close>

datatype pool_type = PoolTransparent | PoolSapling | PoolOrchard | PoolIronwood

datatype value_pool = ValuePoolOrchard | ValuePoolIronwood

text \<open>
  What the estimator asks of a step of \<open>zcash_client_backend\<close>: counts per pool, the recorded Ironwood
  padding, and the action counts the builder would use for a bundle version, where it has them.
\<close>

record ('pad, 'ver) proposal_step =
  input_count_in_pool :: "pool_type \<Rightarrow> nat"
  output_count_in_pool :: "pool_type \<Rightarrow> nat"
  change_count_in_pool :: "pool_type \<Rightarrow> nat"
  ironwood_bundle_padding :: 'pad
  orchard_action_count :: "'pad \<Rightarrow> 'ver \<Rightarrow> nat option"
  ironwood_action_count :: "'pad \<Rightarrow> 'ver \<Rightarrow> nat option"

definition pool_actions ::
  "('br \<Rightarrow> value_pool \<Rightarrow> 'ver option) \<Rightarrow> ('pad, 'ver) proposal_step \<Rightarrow> 'br \<Rightarrow> pool_type \<Rightarrow> 'pad \<Rightarrow> value_pool \<Rightarrow> nat" where
  "pool_actions bundle_version_for_branch step branch pool padding vp =
     (let spends = input_count_in_pool step pool;
          outputs = output_count_in_pool step pool + change_count_in_pool step pool;
          ceiling = spends + outputs
      in if ceiling = 0 then 0
         else let counted = Option.bind (bundle_version_for_branch branch vp) (\<lambda>version.
                    case vp of
                      ValuePoolOrchard \<Rightarrow> orchard_action_count step padding version
                    | ValuePoolIronwood \<Rightarrow> ironwood_action_count step padding version)
              in case counted of Some n \<Rightarrow> n | None \<Rightarrow> ceiling)"

definition step_shape ::
  "('br \<Rightarrow> value_pool \<Rightarrow> 'ver option) \<Rightarrow> 'pad \<Rightarrow> ('pad, 'ver) proposal_step \<Rightarrow> 'br \<Rightarrow> tx_shape" where
  "step_shape bundle_version_for_branch default_padding step branch =
     (let acts = pool_actions bundle_version_for_branch step branch
      in \<lparr>orchard_actions = acts PoolOrchard default_padding ValuePoolOrchard,
          ironwood_actions = acts PoolIronwood (ironwood_bundle_padding step) ValuePoolIronwood,
          sapling_spends = input_count_in_pool step PoolSapling,
          sapling_outputs = output_count_in_pool step PoolSapling + change_count_in_pool step PoolSapling,
          transparent_inputs = input_count_in_pool step PoolTransparent,
          transparent_outputs = output_count_in_pool step PoolTransparent + change_count_in_pool step PoolTransparent\<rparr>)"

section \<open>The largest count that fits\<close>

definition div_ceil2 :: "nat \<Rightarrow> nat" where
  "div_ceil2 n = (n + 1) div 2"

text \<open>The bisection loop; \<open>hi = mid - 1\<close> never underflows because \<open>mid > lo\<close>.\<close>

function bisect :: "(nat \<Rightarrow> bool) \<Rightarrow> nat \<Rightarrow> nat \<Rightarrow> nat" where
  "bisect fits lo hi =
     (if lo < hi then
        let mid = lo + div_ceil2 (hi - lo)
        in if fits mid then bisect fits mid hi else bisect fits lo (mid - 1)
      else lo)"
  by auto
termination
  by (relation "measure (\<lambda>(_, lo, hi). hi - lo)") (auto simp: div_ceil2_def)

declare bisect.simps [simp del]

definition usize_max :: nat where "usize_max = 2 ^ 64 - 1"

definition largest_fitting :: "nat \<Rightarrow> tx_shape \<Rightarrow> (nat \<Rightarrow> tx_shape \<Rightarrow> tx_shape) \<Rightarrow> nat" where
  "largest_fitting max_bytes shape set_count =
     (if max_bytes = 0 then usize_max
      else let fits = (\<lambda>n. estimate_bytes (set_count n shape) \<le> max_bytes)
           in if \<not> fits 0 then 0 else bisect fits 0 max_bytes)"

definition max_orchard_family_actions_alongside :: "nat \<Rightarrow> tx_shape \<Rightarrow> nat" where
  "max_orchard_family_actions_alongside max_bytes alongside =
     largest_fitting max_bytes alongside (\<lambda>n s. s\<lparr>ironwood_actions := n\<rparr>)"

definition max_orchard_family_actions :: "nat \<Rightarrow> nat" where
  "max_orchard_family_actions max_bytes = max_orchard_family_actions_alongside max_bytes tx_shape_default"

definition max_sapling_spends :: "nat \<Rightarrow> tx_shape \<Rightarrow> nat" where
  "max_sapling_spends max_bytes alongside = largest_fitting max_bytes alongside (\<lambda>n s. s\<lparr>sapling_spends := n\<rparr>)"

definition max_transparent_inputs :: "nat \<Rightarrow> tx_shape \<Rightarrow> nat" where
  "max_transparent_inputs max_bytes alongside =
     largest_fitting max_bytes alongside (\<lambda>n s. s\<lparr>transparent_inputs := n\<rparr>)"

section \<open>The shielded budget\<close>

definition SAPLING_MIN_OUTPUTS :: nat where "SAPLING_MIN_OUTPUTS = 2"

record zip218_overflow_report =
  cost :: nat
  cap :: nat
  what :: string

text \<open>The two limits are constants of the protocol crate, hence parameters.\<close>

definition zip218_overflow :: "nat \<Rightarrow> nat \<Rightarrow> tx_shape \<Rightarrow> zip218_overflow_report option" where
  "zip218_overflow shielded_budget sapling_limit shape =
     (let sapling = (if sapling_spends shape + sapling_outputs shape > 0
            then sapling_spends shape + max (sapling_outputs shape) SAPLING_MIN_OUTPUTS else 0)
      in if sapling > sapling_limit
         then Some \<lparr>cost = sapling, cap = sapling_limit, what = ''Sapling spends and outputs''\<rparr>
         else let c = orchard_family_actions shape + sapling
              in if c > shielded_budget
                 then Some \<lparr>cost = c, cap = shielded_budget, what = ''shielded actions, spends and outputs''\<rparr>
                 else None)"

section \<open>The estimate is monotone and within range\<close>

lemma compact_size_mono: "m \<le> n \<Longrightarrow> compact_size_bytes m \<le> compact_size_bytes n"
  by (auto simp: compact_size_bytes_def)

lemma compact_size_bounds: "1 \<le> compact_size_bytes n" "compact_size_bytes n \<le> 9"
  by (auto simp: compact_size_bytes_def)

lemma orchard_bundle_mono: "m \<le> n \<Longrightarrow> orchard_bundle_bytes m \<le> orchard_bundle_bytes n"
proof (cases "m = 0")
  case True
  then show ?thesis using compact_size_mono [of 0 n] by (simp add: orchard_bundle_bytes_def Let_def)
next
  case False
  assume "m \<le> n"
  with False show ?thesis
    by (simp add: orchard_bundle_bytes_def Let_def add_mono compact_size_mono)
qed

lemma orchard_bundle_ge: "n \<le> orchard_bundle_bytes n"
  by (simp add: orchard_bundle_bytes_def Let_def field_widths)

definition sapling_bundle_bytes :: "nat \<Rightarrow> nat \<Rightarrow> nat" where
  "sapling_bundle_bytes i k = compact_size_bytes i + compact_size_bytes k +
     (if i > 0 \<or> k > 0 then SAPLING_BUNDLE_FIXED_BYTES + i * SAPLING_SPEND_BYTES + k * SAPLING_OUTPUT_BYTES else 0)"

lemma sapling_bundle_mono:
  "i \<le> i' \<Longrightarrow> k \<le> k' \<Longrightarrow> sapling_bundle_bytes i k \<le> sapling_bundle_bytes i' k'"
  unfolding sapling_bundle_bytes_def
  by (intro add_mono compact_size_mono) (auto intro!: add_mono mult_right_mono)

lemma estimate_split:
  "estimate_bytes s = HEADER_BYTES +
     (compact_size_bytes (transparent_inputs s) + transparent_inputs s * TRANSPARENT_INPUT_BYTES) +
     (compact_size_bytes (transparent_outputs s) + transparent_outputs s * TRANSPARENT_OUTPUT_BYTES) +
     sapling_bundle_bytes (sapling_spends s) (sapling_outputs s) +
     orchard_bundle_bytes (orchard_actions s) + orchard_bundle_bytes (ironwood_actions s)"
  by (simp add: estimate_bytes_def sapling_bundle_bytes_def Let_def)

definition shape_le :: "tx_shape \<Rightarrow> tx_shape \<Rightarrow> bool" where
  "shape_le s t \<longleftrightarrow> orchard_actions s \<le> orchard_actions t \<and> ironwood_actions s \<le> ironwood_actions t \<and>
     sapling_spends s \<le> sapling_spends t \<and> sapling_outputs s \<le> sapling_outputs t \<and>
     transparent_inputs s \<le> transparent_inputs t \<and> transparent_outputs s \<le> transparent_outputs t"

lemma estimate_mono: "shape_le s t \<Longrightarrow> estimate_bytes s \<le> estimate_bytes t"
  unfolding estimate_split shape_le_def
  by (intro add_mono mult_right_mono) (auto intro: compact_size_mono orchard_bundle_mono sapling_bundle_mono)

lemma bisect_bounds: "lo \<le> hi \<Longrightarrow> lo \<le> bisect fits lo hi \<and> bisect fits lo hi \<le> hi"
proof (induction fits lo hi rule: bisect.induct)
  case (1 fits lo hi)
  show ?case
  proof (cases "lo < hi")
    case True
    define mid where "mid = lo + div_ceil2 (hi - lo)"
    have mid: "lo < mid" "mid \<le> hi" using True by (auto simp: mid_def div_ceil2_def)
    from True have "bisect fits lo hi = (if fits mid then bisect fits mid hi else bisect fits lo (mid - 1))"
      by (subst bisect.simps) (simp add: mid_def Let_def)
    with "1.IH" [OF True mid_def] mid show ?thesis by fastforce
  next
    case False
    then show ?thesis using "1.prems" by (simp add: bisect.simps)
  qed
qed

text \<open>On a predicate that is true up to a point and false after it, the bisection finds the point.\<close>

lemma bisect_largest:
  "lo \<le> hi \<Longrightarrow> fits lo \<Longrightarrow> (\<forall>m n. m \<le> n \<longrightarrow> fits n \<longrightarrow> fits m) \<Longrightarrow>
     fits (bisect fits lo hi) \<and> (\<forall>n. bisect fits lo hi < n \<and> n \<le> hi \<longrightarrow> \<not> fits n)"
proof (induction fits lo hi rule: bisect.induct)
  case (1 fits lo hi)
  show ?case
  proof (cases "lo < hi")
    case True
    define mid where "mid = lo + div_ceil2 (hi - lo)"
    have mid: "lo < mid" "mid \<le> hi" using True by (auto simp: mid_def div_ceil2_def)
    have step: "bisect fits lo hi = (if fits mid then bisect fits mid hi else bisect fits lo (mid - 1))"
      using True by (subst bisect.simps) (simp add: mid_def Let_def)
    show ?thesis
    proof (cases "fits mid")
      case fit: True
      from "1.IH"(1) [OF True mid_def fit mid(2) fit "1.prems"(3)] fit show ?thesis by (simp add: step)
    next
      case nofit: False
      have above: "\<not> fits n" if "mid \<le> n" for n using that nofit "1.prems"(3) by blast
      have "lo \<le> mid - 1" using mid by simp
      note ih = "1.IH"(2) [OF True mid_def nofit this "1.prems"(2,3)]
      have "\<not> fits n" if "bisect fits lo (mid - 1) < n" for n
      proof (cases "n \<le> mid - 1")
        case False
        then have "mid \<le> n" by simp
        then show ?thesis by (rule above)
      qed (use ih that in blast)
      with ih nofit show ?thesis by (simp add: step)
    qed
  next
    case False
    then have "bisect fits lo hi = lo" "lo = hi" using "1.prems" by (simp_all add: bisect.simps)
    then show ?thesis using "1.prems" by auto
  qed
qed

text \<open>An axis along which a transaction grows: the estimate is monotone and every unit costs a byte.\<close>

locale count_axis =
  fixes set_count :: "nat \<Rightarrow> tx_shape \<Rightarrow> tx_shape"
  assumes set_mono: "m \<le> n \<Longrightarrow> shape_le (set_count m s) (set_count n s)"
    and unit_cost: "n \<le> estimate_bytes (set_count n s)"
begin

lemma fits_down: "m \<le> n \<Longrightarrow> estimate_bytes (set_count n s) \<le> b \<Longrightarrow> estimate_bytes (set_count m s) \<le> b"
  using estimate_mono [OF set_mono] order_trans by blast

lemma largest_fitting_fits:
  assumes "0 < b" "estimate_bytes (set_count 0 s) \<le> b"
  shows "estimate_bytes (set_count (largest_fitting b s set_count) s) \<le> b"
    and "\<And>n. largest_fitting b s set_count < n \<Longrightarrow> b < estimate_bytes (set_count n s)"
proof -
  define fits where "fits = (\<lambda>n. estimate_bytes (set_count n s) \<le> b)"
  have down: "\<forall>m n. m \<le> n \<longrightarrow> fits n \<longrightarrow> fits m" using fits_down by (auto simp: fits_def)
  have res: "largest_fitting b s set_count = bisect fits 0 b"
    using assms by (simp add: largest_fitting_def fits_def Let_def)
  have "fits 0" using assms by (simp add: fits_def)
  note B = bisect_largest [OF le0 this down, of b]
  from B show "estimate_bytes (set_count (largest_fitting b s set_count) s) \<le> b"
    unfolding res by (simp add: fits_def)
  fix n assume n: "largest_fitting b s set_count < n"
  show "b < estimate_bytes (set_count n s)"
  proof (cases "n \<le> b")
    case True
    with B n have "\<not> fits n" unfolding res by blast
    then show ?thesis by (simp add: fits_def)
  next
    case False
    then show ?thesis using unit_cost [of n s] by linarith
  qed
qed

lemma largest_fitting_iff:
  "0 < b \<Longrightarrow> estimate_bytes (set_count 0 s) \<le> b \<Longrightarrow>
     estimate_bytes (set_count n s) \<le> b \<longleftrightarrow> n \<le> largest_fitting b s set_count"
  using largest_fitting_fits [of b s] fits_down [of n "largest_fitting b s set_count" s b] by (meson linorder_not_le)

end

interpretation ia: count_axis "\<lambda>n s. s\<lparr>ironwood_actions := n\<rparr>"
  by unfold_locales
    (auto simp: shape_le_def estimate_split intro: trans_le_add2 [OF orchard_bundle_ge])

interpretation ss: count_axis "\<lambda>n s. s\<lparr>sapling_spends := n\<rparr>"
  by unfold_locales
    (auto simp: shape_le_def estimate_split sapling_bundle_bytes_def field_widths)

interpretation ti: count_axis "\<lambda>n s. s\<lparr>transparent_inputs := n\<rparr>"
  by unfold_locales
    (auto simp: shape_le_def estimate_split field_widths)

lemma largest_fitting_edges:
  assumes "0 < b"
  shows "b < estimate_bytes (set_count 0 s) \<longrightarrow> largest_fitting b s set_count = 0"
    and "largest_fitting 0 s set_count = usize_max"
  using assms by (simp_all add: largest_fitting_def)

section \<open>Properties\<close>


lemma zero_actions_estimate: "estimate_bytes (tx_shape_default\<lparr>ironwood_actions := 0\<rparr>) = 26"
  by (simp add: estimate_bytes_def tx_shape_default_def Let_def orchard_bundle_bytes_def field_widths compact_size_bytes_def)


lemma orchard_bundle_upper: "orchard_bundle_bytes n \<le> 3156 * n + 2843"
  using compact_size_bounds(2) [of n] compact_size_bounds(2) [of 0] compact_size_bounds(2) [of "2720 + n * 2272"]
  by (auto simp add: orchard_bundle_bytes_def Let_def field_widths algebra_simps)

lemma sapling_bundle_upper: "sapling_bundle_bytes i k \<le> 352 * i + 948 * k + 122"
  using compact_size_bounds(2) [of i] compact_size_bounds(2) [of 0] compact_size_bounds(2) [of k]
  by (auto simp add: sapling_bundle_bytes_def field_widths algebra_simps)

lemma estimate_upper:
  "estimate_bytes s \<le> 3156 * (orchard_actions s + ironwood_actions s) + 352 * sapling_spends s +
     948 * sapling_outputs s + 148 * transparent_inputs s + 34 * transparent_outputs s + 5846"
  using orchard_bundle_upper [of "orchard_actions s"] orchard_bundle_upper [of "ironwood_actions s"]
    sapling_bundle_upper [of "sapling_spends s" "sapling_outputs s"]
    compact_size_bounds(2) [of "transparent_inputs s"] compact_size_bounds(2) [of "transparent_outputs s"]
  unfolding estimate_split by (simp add: field_widths)

text \<open>The estimate is monotone in every count, is at least what each input, output and action occupies,
  and with every count below \<open>2 ^ 48\<close> no 64-bit \<open>usize\<close> sum of the estimate overflows.\<close>

theorem estimate_mono_in_range:
  assumes "shape_le s t" "orchard_actions t < 2 ^ 48" "ironwood_actions t < 2 ^ 48" "sapling_spends t < 2 ^ 48"
    "sapling_outputs t < 2 ^ 48" "transparent_inputs t < 2 ^ 48" "transparent_outputs t < 2 ^ 48"
  shows "estimate_bytes s \<le> estimate_bytes t \<and> estimate_bytes t \<le> usize_max \<and>
    820 * orchard_family_actions s + 352 * sapling_spends s + 948 * sapling_outputs s +
      148 * transparent_inputs s + 34 * transparent_outputs s < estimate_bytes s"
proof (intro conjI)
  show "estimate_bytes s \<le> estimate_bytes t" using assms(1) by (rule estimate_mono)
  show "estimate_bytes t \<le> usize_max"
    using estimate_upper [of t] assms(2-) by (simp add: usize_max_def)
  have "820 * n \<le> orchard_bundle_bytes n" for n
    by (simp add: orchard_bundle_bytes_def Let_def field_widths)
  from this [of "orchard_actions s"] this [of "ironwood_actions s"]
  show "820 * orchard_family_actions s + 352 * sapling_spends s + 948 * sapling_outputs s +
      148 * transparent_inputs s + 34 * transparent_outputs s < estimate_bytes s"
    unfolding estimate_split orchard_family_actions_def
    by (simp add: field_widths sapling_bundle_bytes_def)
qed

theorem estimate_mono_in_range_witness:
  "estimate_bytes (tx_shape_default\<lparr>ironwood_actions := 2\<rparr>) \<le> estimate_bytes (tx_shape_default\<lparr>ironwood_actions := 5\<rparr>)"
  using estimate_mono_in_range [of "tx_shape_default\<lparr>ironwood_actions := 2\<rparr>" "tx_shape_default\<lparr>ironwood_actions := 5\<rparr>"]
  by (simp add: shape_le_def tx_shape_default_def)

text \<open>The Sapling outputs the builder emits: padded once the bundle exists.\<close>

definition padded :: "tx_shape \<Rightarrow> tx_shape" where
  "padded s = (if sapling_spends s + sapling_outputs s > 0
     then s\<lparr>sapling_outputs := max (sapling_outputs s) SAPLING_MIN_OUTPUTS\<rparr> else s)"

text \<open>The budget check passes exactly when the transaction as the builder pads it is within both
  limits, it reports a cost strictly above the limit it names, and padding the shape first does not change
  the verdict.\<close>

theorem zip218_overflow_exact:
  "(zip218_overflow budget limit s = None \<longleftrightarrow>
      sapling_spends (padded s) + sapling_outputs (padded s) \<le> limit \<and>
      orchard_actions s + ironwood_actions s + sapling_spends (padded s) + sapling_outputs (padded s) \<le> budget)
   \<and> zip218_overflow budget limit (padded s) = zip218_overflow budget limit s
   \<and> (case zip218_overflow budget limit s of None \<Rightarrow> True | Some r \<Rightarrow> cap r < cost r \<and> cap r \<in> {budget, limit})"
  by (auto simp: zip218_overflow_def padded_def Let_def orchard_family_actions_def SAPLING_MIN_OUTPUTS_def)

end
