(* ===== verification/Pools.thy ===== *)
theory Pools
  imports Rust_Text
begin

text \<open>
  Receivers and receiver sets, \<open>src/pools.rs\<close>: the receivers a wallet's addresses carry, the ordered
  non-empty sets of them, and the address requests built from a set.
\<close>

section \<open>Receivers\<close>

datatype shielded_pool = ShieldedSapling | ShieldedOrchard | ShieldedIronwood

datatype receiver = RTransparent | RSapling | ROrchard

definition RECEIVER_SUPPORTED :: "receiver list" where
  "RECEIVER_SUPPORTED = [RSapling, ROrchard]"

datatype receiver_parse_error = RejectIronwood | UnknownToken string

definition receiver_from_config_str :: "string \<Rightarrow> receiver_parse_error + receiver" where
  "receiver_from_config_str s =
     (let token = trim s; t = to_ascii_lowercase token
      in if t = ''sapling'' then Inr RSapling
         else if t = ''orchard'' then Inr ROrchard
         else if t = ''transparent'' then Inr RTransparent
         else if t = ''ironwood'' then Inl RejectIronwood
         else Inl (UnknownToken token))"

fun receiver_as_str :: "receiver \<Rightarrow> string" where
  "receiver_as_str RTransparent = ''transparent''"
| "receiver_as_str RSapling = ''sapling''"
| "receiver_as_str ROrchard = ''orchard''"

fun shielded_protocol :: "receiver \<Rightarrow> shielded_pool option" where
  "shielded_protocol RTransparent = None"
| "shielded_protocol RSapling = Some ShieldedSapling"
| "shielded_protocol ROrchard = Some ShieldedOrchard"

fun output_pool_code :: "receiver \<Rightarrow> int" where
  "output_pool_code RTransparent = 0"
| "output_pool_code RSapling = 2"
| "output_pool_code ROrchard = 3"

definition is_transparent :: "receiver \<Rightarrow> bool" where
  "is_transparent r \<longleftrightarrow> r = RTransparent"

definition supported_names :: string where
  "supported_names = join '', '' (map receiver_as_str RECEIVER_SUPPORTED)"

fun received_at :: "receiver_parse_error \<Rightarrow> receiver option" where
  "received_at RejectIronwood = Some ROrchard"
| "received_at (UnknownToken _) = None"

fun receiver_error_message :: "receiver_parse_error \<Rightarrow> string" where
  "receiver_error_message RejectIronwood =
     debug_str ''ironwood'' @ '' is a value pool, not a receiver: ironwood notes are Orchard V3 '' @
     ''notes received at ordinary '' @ debug_str ''orchard'' @ '' addresses, so there is no ironwood '' @
     ''receiver to name here. Name '' @ debug_str ''orchard'' @ '' instead - on a NU6.3-active chain an '' @
     ''orchard receiver is already holding ironwood notes. See the [pools] notes in '' @
     ''zecd.example.toml''"
| "receiver_error_message (UnknownToken token) =
     ''unknown receiver '' @ debug_str token @ ''; receivers are '' @ supported_names @ '', transparent''"

section \<open>Receiver sets\<close>

record receiver_set =
  rs_pools :: "receiver list"

datatype receiver_set_error =
    TransparentInSet
  | EmptyReceiverSet
  | BadReceiver receiver_parse_error

definition receiver_set_new :: "receiver list \<Rightarrow> receiver_set_error + receiver_set" where
  "receiver_set_new given =
     (if list_ex is_transparent given then Inl TransparentInSet
      else let ordered = filter (\<lambda>p. p \<in> set given) RECEIVER_SUPPORTED
           in if ordered = [] then Inl EmptyReceiverSet else Inr \<lparr>rs_pools = ordered\<rparr>)"

text \<open>The loop over the tokens stops at the first one that does not parse.\<close>

fun parse_tokens :: "string list \<Rightarrow> receiver_parse_error + receiver list" where
  "parse_tokens [] = Inr []"
| "parse_tokens (t # ts) =
     (case receiver_from_config_str t of
        Inl e \<Rightarrow> Inl e
      | Inr r \<Rightarrow> (case parse_tokens ts of Inl e \<Rightarrow> Inl e | Inr rs \<Rightarrow> Inr (r # rs)))"

definition receiver_set_parse :: "string list \<Rightarrow> receiver_set_error + receiver_set" where
  "receiver_set_parse tokens =
     (if tokens = [] then Inl EmptyReceiverSet
      else case parse_tokens tokens of
             Inl e \<Rightarrow> Inl (BadReceiver e)
           | Inr pools \<Rightarrow> receiver_set_new pools)"

definition receiver_set_single :: "receiver \<Rightarrow> receiver_set" where
  "receiver_set_single p = \<lparr>rs_pools = [p]\<rparr>"

definition rs_contains :: "receiver_set \<Rightarrow> receiver \<Rightarrow> bool" where
  "rs_contains s p \<longleftrightarrow> p \<in> set (rs_pools s)"

definition is_multi_receiver :: "receiver_set \<Rightarrow> bool" where
  "is_multi_receiver s \<longleftrightarrow> length (rs_pools s) > 1"

definition is_subset_of :: "receiver_set \<Rightarrow> receiver_set \<Rightarrow> bool" where
  "is_subset_of s other \<longleftrightarrow> list_all (rs_contains other) (rs_pools s)"

definition rs_names :: "receiver_set \<Rightarrow> string list" where
  "rs_names s = map receiver_as_str (rs_pools s)"

definition rs_display_names :: "receiver_set \<Rightarrow> string" where
  "rs_display_names s = join '', '' (map receiver_as_str (rs_pools s))"

datatype requirement = Require | Omit

text \<open>An address request: what is required of the Orchard, Sapling and p2pkh receivers.\<close>

record unified_address_request =
  req_orchard :: requirement
  req_sapling :: requirement
  req_p2pkh :: requirement

definition to_unified_address_request :: "receiver_set \<Rightarrow> unified_address_request" where
  "to_unified_address_request s =
     (let req = (\<lambda>p. if rs_contains s p then Require else Omit)
      in \<lparr>req_orchard = req ROrchard, req_sapling = req RSapling, req_p2pkh = Omit\<rparr>)"

definition change_pool :: "receiver_set \<Rightarrow> shielded_pool" where
  "change_pool s =
     (if rs_contains s ROrchard then ShieldedOrchard
      else case rs_pools s of
             [] \<Rightarrow> ShieldedOrchard
           | p # _ \<Rightarrow> (case shielded_protocol p of Some sp \<Rightarrow> sp | None \<Rightarrow> ShieldedOrchard))"

definition transparent_extraction_request :: unified_address_request where
  "transparent_extraction_request = \<lparr>req_orchard = Require, req_sapling = Omit, req_p2pkh = Require\<rparr>"

text \<open>What a caller asks an address for (\<open>ReceiverRequest\<close> of \<open>src/wallet/mod.rs\<close>).\<close>

datatype receiver_request = DefaultReceivers | ShieldedReceivers receiver_set | TransparentReceiver

section \<open>Properties\<close>

text \<open>The receiver sets: non-empty, shielded only, in canonical order without repetition.\<close>

definition receiver_set_ok :: "receiver_set \<Rightarrow> bool" where
  "receiver_set_ok s \<longleftrightarrow> rs_pools s \<in> {[RSapling], [ROrchard], [RSapling, ROrchard]}"

lemma receiver_set_new_ok:
  "receiver_set_new given = Inr s \<Longrightarrow> receiver_set_ok s \<and> set (rs_pools s) = set given"
proof -
  assume s: "receiver_set_new given = Inr s"
  then have nt: "RTransparent \<notin> set given" by (auto simp: receiver_set_new_def list_ex_iff is_transparent_def split: if_splits)
  then have "set given \<subseteq> {RSapling, ROrchard}" using receiver.exhaust by blast
  with s show ?thesis by (auto simp: receiver_set_new_def receiver_set_ok_def RECEIVER_SUPPORTED_def Let_def split: if_splits)
qed

lemma receiver_set_new_self: "receiver_set_ok s \<Longrightarrow> receiver_set_new (rs_pools s) = Inr s"
  by (cases s) (auto simp: receiver_set_ok_def receiver_set_new_def RECEIVER_SUPPORTED_def is_transparent_def)

lemma receiver_from_as_str: "receiver_from_config_str (receiver_as_str r) = Inr r"
proof -
  have "\<forall>r \<in> {RTransparent, RSapling, ROrchard}. receiver_from_config_str (receiver_as_str r) = Inr r"
    by code_simp
  then show ?thesis by (cases r) auto
qed

lemma parse_tokens_names: "parse_tokens (map receiver_as_str rs) = Inr rs"
  by (induction rs) (simp_all add: receiver_from_as_str)

lemma parse_tokens_sound:
  "parse_tokens ts = Inr rs \<Longrightarrow> list_all2 (\<lambda>t r. to_ascii_lowercase (trim t) = receiver_as_str r) ts rs"
  by (induction ts arbitrary: rs)
    (auto simp: receiver_from_config_str_def Let_def split: sum.splits if_splits)

text \<open>Every receiver set that construction or parsing accepts is non-empty, shielded-only, canonically
  ordered and free of repetitions, holds exactly the receivers named, is rendered to names that parse back to
  the same set, requests exactly its receivers and no transparent one, and sends change to one of its own
  pools, Orchard whenever it has it.\<close>

theorem receiver_set_parse_ok:
  assumes "receiver_set_parse tokens = Inr s"
  shows "receiver_set_ok s
    \<and> receiver_as_str ` set (rs_pools s) = (to_ascii_lowercase \<circ> trim) ` set tokens
    \<and> receiver_set_parse (rs_names s) = Inr s
    \<and> req_p2pkh (to_unified_address_request s) = Omit
    \<and> (req_orchard (to_unified_address_request s) = Require \<or> req_sapling (to_unified_address_request s) = Require)
    \<and> (\<exists>r \<in> set (rs_pools s). shielded_protocol r = Some (change_pool s))
    \<and> (rs_contains s ROrchard \<longrightarrow> change_pool s = ShieldedOrchard)"
proof -
  from assms obtain rs where rs: "parse_tokens tokens = Inr rs" "receiver_set_new rs = Inr s"
    by (auto simp: receiver_set_parse_def split: if_splits sum.splits)
  note ok = receiver_set_new_ok [OF rs(2)]
  have names: "receiver_as_str ` set rs = (to_ascii_lowercase \<circ> trim) ` set tokens"
    using parse_tokens_sound [OF rs(1)] by (induction rule: list_all2_induct) auto
  have "rs_names s \<noteq> []" using ok by (auto simp: rs_names_def receiver_set_ok_def)
  then have "receiver_set_parse (rs_names s) = Inr s"
    using ok by (simp add: receiver_set_parse_def rs_names_def parse_tokens_names receiver_set_new_self)
  moreover have "\<exists>r \<in> set (rs_pools s). shielded_protocol r = Some (change_pool s)"
    using conjunct1 [OF ok] by (auto simp: receiver_set_ok_def rs_contains_def change_pool_def)
  moreover have "req_orchard (to_unified_address_request s) = Require \<or> req_sapling (to_unified_address_request s) = Require"
    using conjunct1 [OF ok] by (auto simp: receiver_set_ok_def to_unified_address_request_def Let_def rs_contains_def)
  ultimately show ?thesis using ok names
    by (simp add: to_unified_address_request_def Let_def change_pool_def)
qed

theorem receiver_set_parse_ok_witness:
  "receiver_set_ok \<lparr>rs_pools = [RSapling, ROrchard]\<rparr>"
proof -
  have "receiver_set_parse ['' Orchard'', ''SAPLING'', ''orchard''] = Inr \<lparr>rs_pools = [RSapling, ROrchard]\<rparr>"
    by code_simp
  from receiver_set_parse_ok [OF this] show ?thesis by blast
qed

end
