(* ===== verification/Network.thy ===== *)
theory Network
  imports Rust_Text
begin

text \<open>
  The coin and the consensus network of a wallet: \<open>src/coin.rs\<close> and \<open>src/network.rs\<close>.  The activation
  heights of the public networks and of a local network, and branch ids, come from the protocol crate and
  are parameters; the process environment is an argument of \<open>regtest\<close>, whose panics are errors.
\<close>

section \<open>Coins\<close>

datatype coin = Zcash

definition COIN_SUPPORTED :: "coin list" where "COIN_SUPPORTED = [Zcash]"

fun coin_name :: "coin \<Rightarrow> string" where "coin_name Zcash = ''zcash''"
fun coin_display_name :: "coin \<Rightarrow> string" where "coin_display_name Zcash = ''Zcash''"
fun coin_data_dir :: "coin \<Rightarrow> string" where "coin_data_dir Zcash = ''zec''"
fun coin_engine_dir :: "coin \<Rightarrow> string" where "coin_engine_dir Zcash = ''lrz''"

definition coin_parse :: "string \<Rightarrow> coin option" where
  "coin_parse s = List.find (\<lambda>c. coin_name c = s) COIN_SUPPORTED"

definition coin_supported_names :: string where
  "coin_supported_names = join '', '' (map coin_name COIN_SUPPORTED)"

section \<open>Networks\<close>

datatype network_upgrade =
  Overwinter | Sapling | Blossom | Heartwood | Canopy | Nu5 | Nu6 | Nu6_1 | Nu6_2 | Nu6_3 | Nu7

type_synonym block_height = u32

record local_network =
  ln_overwinter :: "block_height option"
  ln_sapling :: "block_height option"
  ln_blossom :: "block_height option"
  ln_heartwood :: "block_height option"
  ln_canopy :: "block_height option"
  ln_nu5 :: "block_height option"
  ln_nu6 :: "block_height option"
  ln_nu6_1 :: "block_height option"
  ln_nu6_2 :: "block_height option"
  ln_nu6_3 :: "block_height option"
  ln_nu7 :: "block_height option"

datatype z_network = Main | Test | Regtest local_network

datatype coin_network = ZcashNetwork z_network

fun coin_chain :: "coin \<Rightarrow> z_network \<Rightarrow> coin_network" where
  "coin_chain Zcash env = ZcashNetwork env"

fun coin_network_coin :: "coin_network \<Rightarrow> coin" where
  "coin_network_coin (ZcashNetwork _) = Zcash"

text \<open>What the protocol crate supplies.\<close>

record protocol_crate =
  main_activation :: "network_upgrade \<Rightarrow> block_height option"
  test_activation :: "network_upgrade \<Rightarrow> block_height option"
  local_activation :: "local_network \<Rightarrow> network_upgrade \<Rightarrow> block_height option"
  branch_id_of :: "network_upgrade \<Rightarrow> u32"

fun network_name :: "z_network \<Rightarrow> string" where
  "network_name Main = ''main''"
| "network_name Test = ''test''"
| "network_name (Regtest _) = ''regtest''"

definition is_regtest :: "z_network \<Rightarrow> bool" where
  "is_regtest n \<longleftrightarrow> (case n of Regtest _ \<Rightarrow> True | _ \<Rightarrow> False)"

fun activation_height :: "protocol_crate \<Rightarrow> z_network \<Rightarrow> network_upgrade \<Rightarrow> block_height option" where
  "activation_height pc Main nu = main_activation pc nu"
| "activation_height pc Test nu = test_activation pc nu"
| "activation_height pc (Regtest l) nu = local_activation pc l nu"

definition NEWEST_FIRST :: "network_upgrade list" where
  "NEWEST_FIRST = [Nu7, Nu6_3, Nu6_2, Nu6_1, Nu6, Nu5, Canopy, Heartwood, Blossom, Sapling, Overwinter]"

definition NETWORK_UPGRADES :: "network_upgrade list" where
  "NETWORK_UPGRADES = [Overwinter, Sapling, Blossom, Heartwood, Canopy, Nu5, Nu6, Nu6_1, Nu6_2, Nu6_3, Nu7]"

fun peer_versions :: "network_upgrade \<Rightarrow> nat \<times> nat" where
  "peer_versions Nu7 = (170190, 170180)"
| "peer_versions Nu6_3 = (170160, 170160)"
| "peer_versions Nu6_2 = (170150, 170150)"
| "peer_versions Nu6_1 = (170140, 170130)"
| "peer_versions Nu6 = (170120, 170110)"
| "peer_versions Nu5 = (170100, 170050)"
| "peer_versions Canopy = (170013, 170012)"
| "peer_versions Heartwood = (170011, 170010)"
| "peer_versions Blossom = (170009, 170008)"
| "peer_versions Sapling = (170007, 170007)"
| "peer_versions Overwinter = (170005, 170003)"

definition protocol_version :: "protocol_crate \<Rightarrow> z_network \<Rightarrow> nat" where
  "protocol_version pc n =
     (case List.find (\<lambda>nu. activation_height pc n nu \<noteq> None) NEWEST_FIRST of
        None \<Rightarrow> 170002
      | Some newest \<Rightarrow>
          (let (main, test) = peer_versions newest in if n = Main then main else test))"

fun upgrade_name :: "network_upgrade \<Rightarrow> string" where
  "upgrade_name Overwinter = ''Overwinter''"
| "upgrade_name Sapling = ''Sapling''"
| "upgrade_name Blossom = ''Blossom''"
| "upgrade_name Heartwood = ''Heartwood''"
| "upgrade_name Canopy = ''Canopy''"
| "upgrade_name Nu5 = ''NU5''"
| "upgrade_name Nu6 = ''NU6''"
| "upgrade_name Nu6_1 = ''NU6.1''"
| "upgrade_name Nu6_2 = ''NU6.2''"
| "upgrade_name Nu6_3 = ''NU6.3''"
| "upgrade_name Nu7 = ''NU7''"

record scheduled_upgrade =
  su_upgrade :: network_upgrade
  su_name :: string
  su_branch_id :: u32
  su_activation_height :: block_height

definition scheduled_upgrades :: "protocol_crate \<Rightarrow> z_network \<Rightarrow> scheduled_upgrade list" where
  "scheduled_upgrades pc n =
     List.map_filter (\<lambda>nu. map_option (\<lambda>h. \<lparr>su_upgrade = nu, su_name = upgrade_name nu,
        su_branch_id = branch_id_of pc nu, su_activation_height = h\<rparr>) (activation_height pc n nu))
       NETWORK_UPGRADES"

text \<open>The environment is a lookup of variables.  The errors carry the values their messages interpolate.\<close>

type_synonym environment = "string \<Rightarrow> string option"

datatype network_error =
    NotABlockHeight string string string
  | Nu7NeedsLowerNu63 block_height "block_height option"
  | UnsupportedNetwork string

definition regtest_height_from_env :: "environment \<Rightarrow> string \<Rightarrow> string \<Rightarrow> network_error + block_height option" where
  "regtest_height_from_env env var upgrade =
     (case env var of
        None \<Rightarrow> Inr None
      | Some s \<Rightarrow>
          (case parse_unsigned (2 ^ 32 - 1) (trim s) of
             Some h \<Rightarrow> Inr (Some (of_nat h))
           | None \<Rightarrow> Inl (NotABlockHeight var s upgrade)))"

definition regtest :: "environment \<Rightarrow> network_error + z_network" where
  "regtest env =
     (case regtest_height_from_env env ''ZECD_REGTEST_NU63_HEIGHT'' ''NU6.3'' of
        Inl e \<Rightarrow> Inl e
      | Inr nu63 \<Rightarrow>
          (case regtest_height_from_env env ''ZECD_REGTEST_NU7_HEIGHT'' ''NU7'' of
             Inl e \<Rightarrow> Inl e
           | Inr nu7 \<Rightarrow>
               let h = Some 1; nu62 = Some 4;
                   net = Inr (Regtest \<lparr>ln_overwinter = h, ln_sapling = h, ln_blossom = h, ln_heartwood = h,
                        ln_canopy = h, ln_nu5 = h, ln_nu6 = h, ln_nu6_1 = nu62, ln_nu6_2 = nu62,
                        ln_nu6_3 = nu63, ln_nu7 = nu7\<rparr>)
               in (case nu7 of
                     None \<Rightarrow> net
                   | Some h7 \<Rightarrow>
                       if (case nu63 of Some h63 \<Rightarrow> h63 < h7 | None \<Rightarrow> False) then net
                       else Inl (Nu7NeedsLowerNu63 h7 nu63))))"

definition network_parse :: "environment \<Rightarrow> string \<Rightarrow> network_error + z_network" where
  "network_parse env s =
     (let t = trim s
      in if t = ''main'' \<or> t = ''mainnet'' then Inr Main
         else if t = ''test'' \<or> t = ''testnet'' then Inr Test
         else if t = ''regtest'' then regtest env
         else Inl (UnsupportedNetwork t))"

section \<open>Properties\<close>

lemma coin_parse_iff: "coin_parse s = Some c \<longleftrightarrow> s = coin_name c"
  by (cases c) (auto simp: coin_parse_def COIN_SUPPORTED_def)

lemma newest_first_rev: "NEWEST_FIRST = rev NETWORK_UPGRADES"
  by (simp add: NEWEST_FIRST_def NETWORK_UPGRADES_def)

lemma find_rev_last:
  "List.find P (rev xs) = (if filter P xs = [] then None else Some (last (filter P xs)))"
  by (induction xs rule: rev_induct) auto

lemma scheduled_upgrades_filter:
  "map su_upgrade (scheduled_upgrades pc n) = filter (\<lambda>nu. activation_height pc n nu \<noteq> None) NETWORK_UPGRADES"
proof -
  have "map su_upgrade (List.map_filter (\<lambda>nu. map_option (\<lambda>h. \<lparr>su_upgrade = nu, su_name = upgrade_name nu,
        su_branch_id = branch_id_of pc nu, su_activation_height = h\<rparr>) (activation_height pc n nu)) xs) =
      filter (\<lambda>nu. activation_height pc n nu \<noteq> None) xs" for xs
    by (induction xs) (auto simp: List.map_filter_simps split: option.splits)
  then show ?thesis by (simp add: scheduled_upgrades_def)
qed

text \<open>The advertised protocol version is that of the newest upgrade of the reported schedule, in the
  network's own column, and the floor version when nothing is scheduled.\<close>

theorem protocol_version_newest:
  "protocol_version pc n =
     (if scheduled_upgrades pc n = [] then 170002
      else (if n = Main then fst else snd) (peer_versions (su_upgrade (last (scheduled_upgrades pc n)))))"
proof -
  let ?F = "filter (\<lambda>nu. activation_height pc n nu \<noteq> None) NETWORK_UPGRADES"
  have nil: "?F = [] \<longleftrightarrow> scheduled_upgrades pc n = []"
    by (metis scheduled_upgrades_filter map_is_Nil_conv)
  have last: "su_upgrade (last (scheduled_upgrades pc n)) = last ?F" if "scheduled_upgrades pc n \<noteq> []"
    using that by (metis scheduled_upgrades_filter last_map)
  show ?thesis
    unfolding protocol_version_def newest_first_rev find_rev_last using nil last
    by (auto simp: case_prod_beta)
qed

text \<open>Parsing a network accepts exactly the documented spellings, whatever whitespace surrounds them, and
  yields a network of that name; a regtest network is refused unless NU7, when asked for, is strictly above a
  scheduled NU6.3.\<close>

theorem network_parse_sound:
  assumes "network_parse env s = Inr n"
  shows "trim s \<in> {network_name n, network_name n @ ''net''} \<and>
    network_parse env (network_name n) = Inr n \<and>
    (case n of Regtest l \<Rightarrow> (\<forall>h7. ln_nu7 l = Some h7 \<longrightarrow> (\<exists>h63. ln_nu6_3 l = Some h63 \<and> h63 < h7)) | _ \<Rightarrow> True)"
proof -
  have "trim ''main'' = ''main''" "trim ''test'' = ''test''" "trim ''regtest'' = ''regtest''" by code_simp+
  with assms show ?thesis
    by (auto simp: network_parse_def regtest_def Let_def split: if_splits sum.splits option.splits)
qed

theorem network_parse_sound_witness:
  "network_parse (\<lambda>_. None) (network_name Test) = Inr Test"
proof -
  have "network_parse (\<lambda>_. None) '' testnet '' = Inr Test" by code_simp
  from network_parse_sound [OF this] show ?thesis by blast
qed

end
