(* ===== verification/Address.thy ===== *)
theory Address
  imports Pools Network Rpc_Error
begin

text \<open>
  Address handling, \<open>src/address.rs\<close>.  The address codec is the wallet crates' own: what the code calls of
  it is the record \<open>address_codec\<close>, and \<open>codec_laws\<close> states the documented behaviour the properties rely on.
  Addresses of the shielded pools are opaque.
\<close>

section \<open>Addresses and the codec\<close>

datatype transparent_address = PublicKeyHash "u8 list" | ScriptHash "u8 list"

record ('o, 's) unified_address =
  ua_orchard :: "'o option"
  ua_sapling :: "'s option"
  ua_transparent :: "transparent_address option"

datatype ('o, 's) address =
    ATransparent transparent_address
  | ASapling 's
  | AUnified "('o, 's) unified_address"
  | ATex "u8 list"

datatype pool_kind = TransparentPool | SaplingPool | OrchardPool

record ('o, 's, 'z) address_codec =
  try_from_encoded :: "string \<Rightarrow> 'z option"
  address_decode :: "string \<Rightarrow> ('o, 's) address option"
  encode_transparent :: "transparent_address \<Rightarrow> string"
  encode_sapling :: "'s \<Rightarrow> string"
  encode_unified :: "('o, 's) unified_address \<Rightarrow> string"
  from_receivers :: "'o option \<Rightarrow> 's option \<Rightarrow> transparent_address option \<Rightarrow> ('o, 's) unified_address option"
  can_receive_as :: "('o, 's) address \<Rightarrow> pool_kind \<Rightarrow> bool"

text \<open>
  The laws: what is encoded decodes to itself, a unified address is built from the given receivers exactly
  when one of them is shielded, and an address can receive in the pools it has receivers for.
\<close>

definition codec_laws :: "('o, 's, 'z) address_codec \<Rightarrow> bool" where
  "codec_laws c \<longleftrightarrow>
     (\<forall>t. address_decode c (encode_transparent c t) = Some (ATransparent t)) \<and>
     (\<forall>p. address_decode c (encode_sapling c p) = Some (ASapling p)) \<and>
     (\<forall>ua. ua_orchard ua \<noteq> None \<or> ua_sapling ua \<noteq> None \<longrightarrow>
        address_decode c (encode_unified c ua) = Some (AUnified ua)) \<and>
     (\<forall>oo s t. from_receivers c oo s t =
        (if oo = None \<and> s = None then None
         else Some \<lparr>ua_orchard = oo, ua_sapling = s, ua_transparent = t\<rparr>))"

section \<open>Operations\<close>

definition parse_recipient :: "('o, 's, 'z) address_codec \<Rightarrow> coin \<Rightarrow> string \<Rightarrow> rpc_error + 'z" where
  "parse_recipient c coin s =
     (case try_from_encoded c s of
        Some z \<Rightarrow> Inr z
      | None \<Rightarrow> Inl (invalid_address_or_key (''Invalid '' @ coin_display_name coin @ '' address: '' @ s)))"

definition decode_on_network :: "('o, 's, 'z) address_codec \<Rightarrow> string \<Rightarrow> ('o, 's) address option" where
  "decode_on_network c s = address_decode c s"

definition has_orchard_receiver :: "('o, 's, 'z) address_codec \<Rightarrow> ('o, 's) address \<Rightarrow> bool" where
  "has_orchard_receiver c addr = can_receive_as c addr OrchardPool"

definition has_shielded_receiver :: "('o, 's, 'z) address_codec \<Rightarrow> ('o, 's) address \<Rightarrow> bool" where
  "has_shielded_receiver c addr \<longleftrightarrow> can_receive_as c addr SaplingPool \<or> can_receive_as c addr OrchardPool"

definition receiver_types_of :: "('o, 's, 'z) address_codec \<Rightarrow> ('o, 's) address \<Rightarrow> string list" where
  "receiver_types_of c addr =
     (if can_receive_as c addr TransparentPool then [''transparent''] else []) @
     (if can_receive_as c addr SaplingPool then [''sapling''] else []) @
     (if can_receive_as c addr OrchardPool then [''orchard''] else [])"

fun address_type_of :: "('o, 's) address \<Rightarrow> string" where
  "address_type_of (ATransparent (PublicKeyHash _)) = ''p2pkh''"
| "address_type_of (ATransparent (ScriptHash _)) = ''p2sh''"
| "address_type_of (ASapling _) = ''sapling''"
| "address_type_of (AUnified _) = ''unified''"
| "address_type_of (ATex _) = ''tex''"

definition zcashd_receiver_types_of :: "('o, 's, 'z) address_codec \<Rightarrow> ('o, 's) address \<Rightarrow> string list" where
  "zcashd_receiver_types_of c addr =
     map (\<lambda>t. if t = ''transparent'' then ''p2pkh'' else t) (receiver_types_of c addr)"

definition single_receiver_for_pool :: "('o, 's, 'z) address_codec \<Rightarrow> string \<Rightarrow> int \<Rightarrow> string option" where
  "single_receiver_for_pool c s pool =
     (case decode_on_network c s of
        None \<Rightarrow> None
      | Some addr \<Rightarrow>
          if pool = 0 then
            (case addr of
               ATransparent t \<Rightarrow> Some (encode_transparent c t)
             | AUnified ua \<Rightarrow> map_option (encode_transparent c) (ua_transparent ua)
             | _ \<Rightarrow> None)
          else if pool = 2 then
            (case addr of
               ASapling p \<Rightarrow> Some (encode_sapling c p)
             | AUnified ua \<Rightarrow> map_option (encode_sapling c) (ua_sapling ua)
             | _ \<Rightarrow> None)
          else if pool = 3 \<or> pool = 4 then
            (case addr of
               AUnified ua \<Rightarrow>
                 map_option (encode_unified c)
                   (Option.bind (ua_orchard ua) (\<lambda>orch. from_receivers c (Some orch) None None))
             | _ \<Rightarrow> None)
          else None)"

definition issued_encoding :: "('o, 's, 'z) address_codec \<Rightarrow> string \<Rightarrow> receiver_set \<Rightarrow> string option" where
  "issued_encoding c s receivers =
     (case decode_on_network c s of
        Some (AUnified ua) \<Rightarrow>
          (let orchard = (if rs_contains receivers ROrchard then ua_orchard ua else None);
               sapling = (if rs_contains receivers RSapling then ua_sapling ua else None)
           in map_option (encode_unified c) (from_receivers c orchard sapling None))
      | _ \<Rightarrow> None)"

definition unified_receivers ::
  "('o, 's, 'z) address_codec \<Rightarrow> ('o, 's) unified_address \<Rightarrow> (string \<times> string) list" where
  "unified_receivers c ua =
     (case ua_transparent ua of
        Some t \<Rightarrow> [(case t of PublicKeyHash _ \<Rightarrow> ''p2pkh'' | ScriptHash _ \<Rightarrow> ''p2sh'', encode_transparent c t)]
      | None \<Rightarrow> []) @
     (case ua_sapling ua of Some s \<Rightarrow> [(''sapling'', encode_sapling c s)] | None \<Rightarrow> []) @
     (case ua_orchard ua of
        Some oo \<Rightarrow> (case from_receivers c (Some oo) None None of
                     Some single \<Rightarrow> [(''orchard'', encode_unified c single)]
                   | None \<Rightarrow> [])
      | None \<Rightarrow> [])"

record validation =
  v_is_valid :: bool
  v_is_orchard :: bool
  v_receiver_types :: "string list"
  v_script_pub_key :: "string option"
  v_is_script :: bool

definition script_pub_key_of :: "('o, 's) address \<Rightarrow> string option \<times> bool" where
  "script_pub_key_of addr =
     (case addr of
        ATransparent (PublicKeyHash h) \<Rightarrow> (Some (''76a914'' @ hex_encode h @ ''88ac''), False)
      | ATransparent (ScriptHash h) \<Rightarrow> (Some (''a914'' @ hex_encode h @ ''87''), True)
      | _ \<Rightarrow> (None, False))"

definition validate :: "('o, 's, 'z) address_codec \<Rightarrow> string \<Rightarrow> validation" where
  "validate c s =
     (case decode_on_network c s of
        Some addr \<Rightarrow>
          (let (spk, is_script) = script_pub_key_of addr
           in \<lparr>v_is_valid = True, v_is_orchard = has_orchard_receiver c addr,
               v_receiver_types = receiver_types_of c addr, v_script_pub_key = spk, v_is_script = is_script\<rparr>)
      | None \<Rightarrow>
          \<lparr>v_is_valid = False, v_is_orchard = False, v_receiver_types = [], v_script_pub_key = None,
           v_is_script = False\<rparr>)"

definition parse_recipient_on_network ::
  "('o, 's, 'z) address_codec \<Rightarrow> coin \<Rightarrow> string \<Rightarrow> rpc_error + 'z" where
  "parse_recipient_on_network c coin s =
     (case parse_recipient c coin s of
        Inl e \<Rightarrow> Inl e
      | Inr z \<Rightarrow>
          if decode_on_network c s = None
          then Inl (invalid_address_or_key (''Address is not valid for the configured network: '' @ s))
          else Inr z)"

section \<open>Properties\<close>

lemma codec_decode:
  assumes "codec_laws c"
  shows "decode_on_network c (encode_transparent c t) = Some (ATransparent t)"
    and "decode_on_network c (encode_sapling c p) = Some (ASapling p)"
    and "ua_orchard ua \<noteq> None \<or> ua_sapling ua \<noteq> None \<Longrightarrow>
      decode_on_network c (encode_unified c ua) = Some (AUnified ua)"
  using assms unfolding codec_laws_def decode_on_network_def by blast+

lemma codec_from_receivers:
  "codec_laws c \<Longrightarrow> from_receivers c oo s t =
     (if oo = None \<and> s = None then None else Some \<lparr>ua_orchard = oo, ua_sapling = s, ua_transparent = t\<rparr>)"
  by (simp add: codec_laws_def)

text \<open>A codec on opaque unit receivers that satisfies the laws.\<close>

definition char_byte :: "u8 \<Rightarrow> char" where "char_byte b = char_of (unat b)"

fun sample_encode_t :: "transparent_address \<Rightarrow> string" where
  "sample_encode_t (PublicKeyHash h) = CHR ''p'' # map char_byte h"
| "sample_encode_t (ScriptHash h) = CHR ''s'' # map char_byte h"

definition byte_of :: "char \<Rightarrow> u8" where "byte_of ch = of_nat (of_char ch)"

fun sample_decode_t :: "string \<Rightarrow> transparent_address option" where
  "sample_decode_t [] = None"
| "sample_decode_t (k # h) =
     (if k = CHR ''p'' then Some (PublicKeyHash (map byte_of h))
      else if k = CHR ''s'' then Some (ScriptHash (map byte_of h)) else None)"

definition sample_encode_ua :: "(unit, unit) unified_address \<Rightarrow> string" where
  "sample_encode_ua ua = CHR ''u'' # (if ua_orchard ua = None then CHR ''-'' else CHR ''o'') #
     (if ua_sapling ua = None then CHR ''-'' else CHR ''s'') #
     (case ua_transparent ua of None \<Rightarrow> [] | Some t \<Rightarrow> sample_encode_t t)"

fun sample_decode :: "string \<Rightarrow> (unit, unit) address option" where
  "sample_decode (k # a # b # r) =
     (if k = CHR ''u'' then Some (AUnified \<lparr>ua_orchard = (if a = CHR ''o'' then Some () else None),
        ua_sapling = (if b = CHR ''s'' then Some () else None), ua_transparent = sample_decode_t r\<rparr>)
      else map_option ATransparent (sample_decode_t (k # a # b # r)))"
| "sample_decode s = (if s = ''z'' then Some (ASapling ()) else map_option ATransparent (sample_decode_t s))"

definition sample_codec :: "(unit, unit, string) address_codec" where
  "sample_codec = \<lparr>try_from_encoded = Some, address_decode = sample_decode,
     encode_transparent = sample_encode_t, encode_sapling = (\<lambda>_. ''z''), encode_unified = sample_encode_ua,
     from_receivers = (\<lambda>oo s t. if oo = None \<and> s = None then None
        else Some \<lparr>ua_orchard = oo, ua_sapling = s, ua_transparent = t\<rparr>),
     can_receive_as = (\<lambda>_ _. True)\<rparr>"

lemma byte_of_char_byte [simp]: "byte_of (char_byte b) = b"
proof -
  have "unat b < 256" using unsigned_less [of b, where ?'a = nat] by simp
  then show ?thesis by (simp add: byte_of_def char_byte_def of_char_of take_bit_nat_def)
qed

lemma sample_decode_encode_t: "sample_decode_t (sample_encode_t t) = Some t"
  by (cases t) (simp_all add: map_idI)

lemma sample_codec_laws: "codec_laws sample_codec"
proof -
  have t: "sample_decode (sample_encode_t t) = Some (ATransparent t)" for t
  proof -
    obtain k h where "sample_encode_t t = k # h" "k = CHR ''p'' \<or> k = CHR ''s''"
      by (cases t) auto
    with sample_decode_encode_t [of t] show ?thesis
      by (cases h rule: list.exhaust; cases "tl h") auto
  qed
  have "sample_decode (sample_encode_ua ua) = Some (AUnified ua)" for ua :: "(unit, unit) unified_address"
    by (cases ua) (auto simp: sample_encode_ua_def sample_decode_encode_t split: option.splits)
  with t show ?thesis by (simp add: codec_laws_def sample_codec_def)
qed

text \<open>Reducing a recipient to the receiver an output of a pool pays is idempotent, yields a decodable
  address with exactly that one receiver, and treats Ironwood outputs as Orchard ones.\<close>

theorem single_receiver_idem:
  assumes "codec_laws c" "single_receiver_for_pool c s pool = Some r"
  shows "single_receiver_for_pool c r pool = Some r
    \<and> single_receiver_for_pool c s 4 = single_receiver_for_pool c s 3
    \<and> (case decode_on_network c r of
         Some (ATransparent t) \<Rightarrow> pool = 0
       | Some (ASapling p) \<Rightarrow> pool = 2
       | Some (AUnified ua) \<Rightarrow> (pool = 3 \<or> pool = 4) \<and> ua_orchard ua \<noteq> None \<and> ua_sapling ua = None \<and> ua_transparent ua = None
       | _ \<Rightarrow> False)"
  using assms(2)
  by (auto simp: single_receiver_for_pool_def codec_decode [OF assms(1)] codec_from_receivers [OF assms(1)]
      bind_eq_Some_conv split: option.splits if_splits address.splits)

theorem single_receiver_idem_witness: "single_receiver_for_pool sample_codec ''z'' 2 = Some ''z''"
proof -
  have "single_receiver_for_pool sample_codec ''uosp'' 2 = Some ''z''" by code_simp
  from single_receiver_idem [OF sample_codec_laws this] show ?thesis by blast
qed

text \<open>The canonical encoding of one of the wallet's own addresses is idempotent, never carries a transparent
  receiver, never widens the address, and carries exactly the configured receivers the address has.\<close>

theorem issued_encoding_idem:
  assumes "codec_laws c" "issued_encoding c s R = Some r"
  shows "issued_encoding c r R = Some r \<and>
    (\<exists>ua ua'. decode_on_network c s = Some (AUnified ua) \<and> decode_on_network c r = Some (AUnified ua') \<and>
       ua_transparent ua' = None \<and>
       ua_orchard ua' = (if rs_contains R ROrchard then ua_orchard ua else None) \<and>
       ua_sapling ua' = (if rs_contains R RSapling then ua_sapling ua else None))"
proof -
  from assms(2) obtain ua where ua: "decode_on_network c s = Some (AUnified ua)"
    by (auto simp: issued_encoding_def split: option.splits address.splits)
  let ?o = "if rs_contains R ROrchard then ua_orchard ua else None"
  let ?s = "if rs_contains R RSapling then ua_sapling ua else None"
  let ?u = "\<lparr>ua_orchard = ?o, ua_sapling = ?s, ua_transparent = None\<rparr>"
  have r: "?o \<noteq> None \<or> ?s \<noteq> None" "r = encode_unified c ?u"
    using assms(2) ua unfolding issued_encoding_def codec_from_receivers [OF assms(1)]
    by (auto simp: Let_def split: if_splits)
  have dec: "decode_on_network c r = Some (AUnified ?u)"
    unfolding r(2) by (rule codec_decode(3) [OF assms(1)]) (use r(1) in simp)
  have "issued_encoding c r R = map_option (encode_unified c) (from_receivers c ?o ?s None)"
    by (simp add: issued_encoding_def dec)
  also have "\<dots> = Some r" unfolding codec_from_receivers [OF assms(1)] using r by auto
  finally show ?thesis using ua dec by auto
qed

theorem issued_encoding_idem_witness:
  "issued_encoding sample_codec ''uo-'' \<lparr>rs_pools = [ROrchard]\<rparr> = Some ''uo-''"
proof -
  have "issued_encoding sample_codec ''uosp'' \<lparr>rs_pools = [ROrchard]\<rparr> = Some ''uo-''" by code_simp
  from issued_encoding_idem [OF sample_codec_laws this] show ?thesis by blast
qed

text \<open>The receivers a unified address is taken apart into are exactly its single-receiver reductions per
  pool, so history entries match them string for string.\<close>

theorem unified_receivers_match:
  assumes "codec_laws c" "decode_on_network c s = Some (AUnified ua)"
  shows "map snd (unified_receivers c ua) =
    List.map_filter (single_receiver_for_pool c s) [0, 2, 3]"
  using assms(2)
  by (simp add: unified_receivers_def single_receiver_for_pool_def codec_from_receivers [OF assms(1)]
      List.map_filter_simps split: option.splits)

theorem unified_receivers_match_witness:
  "map snd (unified_receivers sample_codec \<lparr>ua_orchard = Some (), ua_sapling = None, ua_transparent = None\<rparr>) = [''uo-'']"
proof -
  have d: "decode_on_network sample_codec ''uo-'' = Some (AUnified \<lparr>ua_orchard = Some (), ua_sapling = None, ua_transparent = None\<rparr>)"
    by code_simp
  have "List.map_filter (single_receiver_for_pool sample_codec ''uo-'') [0, 2, 3] = [''uo-'']" by code_simp
  with unified_receivers_match [OF sample_codec_laws d] show ?thesis by simp
qed

end
