(* ===== verification/Shard.thy ===== *)
theory Shard
  imports Network Hash_Map
begin

text \<open>
  Scan domains of the fleet, \<open>src/wallet/shard.rs\<close>: matching a shard's manifest against the accounts of its
  database, importing a member, and placing members into shards.  The viewing-key codec and the wallet
  database are the wallet crates'; a database is the list of accounts it reports.
\<close>

section \<open>Members and accounts\<close>

record shard_member =
  sm_name :: string
  sm_ufvk :: string
  sm_birthday :: block_height

record ('k, 'id) shard_account =
  acc_id :: 'id
  acc_name :: "string option"
  acc_ufvk :: "'k option"

text \<open>\<open>get_account_ids\<close> with \<open>get_account\<close> of each: an id may have no account.\<close>

type_synonym ('k, 'id) shard_db = "('id \<times> ('k, 'id) shard_account option) list"

record 'k ufvk_codec =
  ufvk_decode :: "string \<Rightarrow> 'k option"
  ufvk_encode :: "'k \<Rightarrow> string"

datatype shard_error = BadUfvk string string | NameUnderOtherKey string

definition decode_ufvk :: "'k ufvk_codec \<Rightarrow> z_network \<Rightarrow> shard_member \<Rightarrow> shard_error + 'k" where
  "decode_ufvk c network mem =
     (case ufvk_decode c (sm_ufvk mem) of
        Some k \<Rightarrow> Inr k
      | None \<Rightarrow> Inl (BadUfvk (sm_name mem) (network_name network)))"

record 'id reconciled =
  adopted :: "string \<rightharpoonup> 'id"
  pending :: "shard_member list"

text \<open>The first loop: the accounts indexed by encoded viewing key and by name, later accounts winning.\<close>

fun index_accounts ::
  "'k ufvk_codec \<Rightarrow> ('k, 'id) shard_db \<Rightarrow> (string \<rightharpoonup> 'id) \<times> (string \<rightharpoonup> string) \<Rightarrow> (string \<rightharpoonup> 'id) \<times> (string \<rightharpoonup> string)" where
  "index_accounts c [] idx = idx"
| "index_accounts c ((i, acc) # db) (by_ufvk, by_name) =
     (case acc of
        None \<Rightarrow> index_accounts c db (by_ufvk, by_name)
      | Some a \<Rightarrow>
          (case acc_ufvk a of
             None \<Rightarrow> index_accounts c db (by_ufvk, by_name)
           | Some k \<Rightarrow>
               (let encoded = ufvk_encode c k;
                    by_name' = (case acc_name a of Some n \<Rightarrow> by_name(n \<mapsto> encoded) | None \<Rightarrow> by_name)
                in index_accounts c db (by_ufvk(encoded \<mapsto> i), by_name'))))"

text \<open>The second loop over the members.\<close>

fun match_members ::
  "'k ufvk_codec \<Rightarrow> z_network \<Rightarrow> (string \<rightharpoonup> 'id) \<Rightarrow> (string \<rightharpoonup> string) \<Rightarrow> shard_member list \<Rightarrow> 'id reconciled
     \<Rightarrow> shard_error + 'id reconciled" where
  "match_members c net by_ufvk by_name [] r = Inr r"
| "match_members c net by_ufvk by_name (mem # mems) r =
     (case decode_ufvk c net mem of
        Inl e \<Rightarrow> Inl e
      | Inr k \<Rightarrow>
          (case by_ufvk (ufvk_encode c k) of
             Some i \<Rightarrow> match_members c net by_ufvk by_name mems (r\<lparr>adopted := (adopted r)(sm_name mem \<mapsto> i)\<rparr>)
           | None \<Rightarrow>
               if by_name (sm_name mem) \<noteq> None then Inl (NameUnderOtherKey (sm_name mem))
               else match_members c net by_ufvk by_name mems (r\<lparr>pending := pending r @ [mem]\<rparr>)))"

definition reconcile_accounts ::
  "'k ufvk_codec \<Rightarrow> z_network \<Rightarrow> ('k, 'id) shard_db \<Rightarrow> shard_member list \<Rightarrow> shard_error + 'id reconciled" where
  "reconcile_accounts c net db members =
     (let (by_ufvk, by_name) = index_accounts c db (Map.empty, Map.empty)
      in match_members c net by_ufvk by_name members \<lparr>adopted = Map.empty, pending = []\<rparr>)"

text \<open>The database assigns the account id; the account is created view-only under the member's name.\<close>

definition import_member ::
  "'k ufvk_codec \<Rightarrow> z_network \<Rightarrow> 'id \<Rightarrow> ('k, 'id) shard_db \<Rightarrow> shard_member \<Rightarrow> (shard_error + 'id) \<times> ('k, 'id) shard_db" where
  "import_member c net fresh db mem =
     (case decode_ufvk c net mem of
        Inl e \<Rightarrow> (Inl e, db)
      | Inr k \<Rightarrow>
          (Inr fresh, db @ [(fresh, Some \<lparr>acc_id = fresh, acc_name = Some (sm_name mem), acc_ufvk = Some k\<rparr>)]))"

section \<open>Placement\<close>

record shard_state =
  sh_accounts :: nat
  sh_lowest_birthday :: "u32 option"

text \<open>\<open>height + cohort_depth\<close> is a 32-bit sum.\<close>

definition accepts :: "nat \<Rightarrow> u32 \<Rightarrow> u32 \<Rightarrow> shard_state \<Rightarrow> bool" where
  "accepts shard_size cohort_depth height shard \<longleftrightarrow>
     sh_accounts shard < shard_size \<and>
     (case sh_lowest_birthday shard of None \<Rightarrow> True | Some lowest \<Rightarrow> height + cohort_depth \<ge> lowest)"

text \<open>\<open>iter().enumerate().rev().find(..)\<close>: the last index that satisfies the predicate.\<close>

definition find_last :: "('a \<Rightarrow> bool) \<Rightarrow> 'a list \<Rightarrow> nat option" where
  "find_last P xs = List.find (\<lambda>i. P (xs ! i)) (rev [0..<length xs])"

definition join_shard :: "u32 \<Rightarrow> shard_state \<Rightarrow> shard_state" where
  "join_shard height shard =
     \<lparr>sh_accounts = sh_accounts shard + 1,
      sh_lowest_birthday = Some (case sh_lowest_birthday shard of None \<Rightarrow> height | Some l \<Rightarrow> min l height)\<rparr>"

definition place_one :: "nat \<Rightarrow> u32 \<Rightarrow> shard_state list \<Rightarrow> shard_member \<Rightarrow> nat \<times> shard_state list" where
  "place_one shard_size cohort_depth shards mem =
     (let height = sm_birthday mem;
          (index, shards') =
            (case find_last (accepts shard_size cohort_depth height) shards of
               Some i \<Rightarrow> (i, shards)
             | None \<Rightarrow> (length shards, shards @ [\<lparr>sh_accounts = 0, sh_lowest_birthday = None\<rparr>]))
      in (index, shards'[index := join_shard height (shards' ! index)]))"

fun place_loop :: "nat \<Rightarrow> u32 \<Rightarrow> shard_state list \<Rightarrow> shard_member list \<Rightarrow> nat list \<times> shard_state list" where
  "place_loop shard_size cohort_depth shards [] = ([], shards)"
| "place_loop shard_size cohort_depth shards (mem # mems) =
     (let (i, shards') = place_one shard_size cohort_depth shards mem;
          (out, shards'') = place_loop shard_size cohort_depth shards' mems
      in (i # out, shards''))"

definition place_members :: "shard_state list \<Rightarrow> shard_member list \<Rightarrow> nat \<Rightarrow> u32 \<Rightarrow> nat list" where
  "place_members existing members shard_size cohort_depth =
     fst (place_loop shard_size cohort_depth existing members)"

definition shard_dir_name :: "nat \<Rightarrow> string" where
  "shard_dir_name index = ''shard-'' @ show_padded 4 index"

section \<open>Placement respects the cap and the cohorts\<close>

lemma find_last_Some:
  "find_last P xs = Some i \<longleftrightarrow> i < length xs \<and> P (xs ! i) \<and> (\<forall>j. i < j \<and> j < length xs \<longrightarrow> \<not> P (xs ! j))"
proof -
  have "List.find Q (rev [0..<n]) = Some i \<longleftrightarrow> i < n \<and> Q i \<and> (\<forall>j. i < j \<and> j < n \<longrightarrow> \<not> Q j)" for Q n
  proof (induction n)
    case (Suc n)
    show ?case
    proof (cases "Q n")
      case True
      then show ?thesis by (auto simp: less_Suc_eq)
    next
      case False
      with Suc show ?thesis by (simp add: less_Suc_eq) blast
    qed
  qed simp
  then show ?thesis by (simp add: find_last_def)
qed

lemma find_last_None: "find_last P xs = None \<longleftrightarrow> (\<forall>x \<in> set xs. \<not> P x)"
  by (auto simp: find_last_def find_None_iff all_set_conv_all_nth)

definition occupied :: "shard_state list \<Rightarrow> nat \<Rightarrow> nat" where
  "occupied shards i = (if i < length shards then sh_accounts (shards ! i) else 0)"

lemma place_one_spec:
  assumes "place_one sz depth shards mem = (i, shards')" "1 \<le> sz"
  shows "i < length shards'" "length shards' = max (length shards) (Suc i)" "i \<le> length shards"
    and "occupied shards' j = occupied shards j + (if j = i then 1 else 0)"
    and "occupied shards' i \<le> sz"
  using assms
  by (auto simp: place_one_def Let_def occupied_def join_shard_def find_last_Some accepts_def nth_append
      split: option.splits prod.splits)

lemma place_loop_spec:
  assumes "1 \<le> sz"
  shows "place_loop sz depth shards mems = (out, shards') \<Longrightarrow>
    length out = length mems \<and> (\<forall>j. occupied shards' j = occupied shards j + count_list out j) \<and>
    length shards \<le> length shards' \<and> (\<forall>j \<in> set out. j < length shards') \<and>
    (\<forall>j. length shards \<le> j \<and> j < length shards' \<longrightarrow> j \<in> set out) \<and>
    (\<forall>j \<in> set out. occupied shards' j \<le> sz)"
proof (induction mems arbitrary: shards out)
  case (Cons mem mems)
  obtain i s1 where one: "place_one sz depth shards mem = (i, s1)" by (meson surj_pair)
  obtain out' where rest: "place_loop sz depth s1 mems = (out', shards')" and out: "out = i # out'"
    using Cons.prems one by (auto split: prod.splits)
  note P = place_one_spec [OF one assms] and I = Cons.IH [OF rest]
  have cap: "occupied shards' j \<le> sz" if "j \<in> set out" for j
  proof (cases "j \<in> set out'")
    case False
    then have "j = i" "count_list out' j = 0" using that out by (auto simp: count_list_0_iff)
    then show ?thesis using I P(5) by simp
  qed (use I in blast)
  have fill: "j \<in> set out" if "length shards \<le> j" "j < length shards'" for j
  proof (cases "j < length s1")
    case True
    with that P(2,3) have "j = i" by auto
    then show ?thesis by (simp add: out)
  qed (use that I out in auto)
  show ?case
    using I P out cap fill by auto
qed simp

lemma place_loop_nth:
  "k < length mems \<Longrightarrow>
     fst (place_loop sz depth shards mems) ! k =
     fst (place_one sz depth (snd (place_loop sz depth shards (take k mems))) (mems ! k))"
proof (induction mems arbitrary: k shards)
  case (Cons mem mems)
  then show ?case by (cases k) (simp_all add: case_prod_beta Let_def)
qed simp

lemma place_one_choice:
  "fst (place_one sz depth shards mem) = i \<Longrightarrow>
     (i < length shards \<and> accepts sz depth (sm_birthday mem) (shards ! i) \<and>
        (\<forall>j. i < j \<and> j < length shards \<longrightarrow> \<not> accepts sz depth (sm_birthday mem) (shards ! j)))
     \<or> (i = length shards \<and> (\<forall>s \<in> set shards. \<not> accepts sz depth (sm_birthday mem) s))"
  by (auto simp: place_one_def Let_def find_last_Some find_last_None split: option.splits prod.splits)

lemma accepts_cohort:
  assumes "accepts sz depth h s" "sh_lowest_birthday s = Some l" "unat h + unat depth < 2 ^ 32"
  shows "unat l \<le> unat h + unat depth"
proof -
  have "unat (h + depth) = unat h + unat depth" using assms(3) by (simp add: unat_word_ariths)
  moreover have "l \<le> h + depth" using assms(1,2) by (simp add: accepts_def)
  ultimately show ?thesis by (simp add: word_le_nat_alt)
qed

text \<open>Placement assigns every member a shard; no shard it adds to ends above the shard size; shards it opens
  are numbered consecutively and none is left empty; each member joins the newest shard that has room and
  whose lowest birthday is at most the cohort depth above the member's own, and a new shard is opened only
  when no shard accepts it.\<close>

theorem place_members_sound:
  assumes "1 \<le> sz" "out = place_members existing mems sz depth"
  shows "length out = length mems
    \<and> (\<forall>j \<in> set out. occupied existing j + count_list out j \<le> sz)
    \<and> (\<exists>n \<ge> length existing. set out \<subseteq> {..<n} \<and> {length existing..<n} \<subseteq> set out)
    \<and> (\<forall>k < length mems.
         let shards = snd (place_loop sz depth existing (take k mems)); h = sm_birthday (mems ! k); i = out ! k
         in (i < length shards \<and> sh_accounts (shards ! i) < sz \<and>
               (\<forall>l. sh_lowest_birthday (shards ! i) = Some l \<and> unat h + unat depth < 2 ^ 32 \<longrightarrow>
                  unat l \<le> unat h + unat depth) \<and>
               (\<forall>j. i < j \<and> j < length shards \<longrightarrow> \<not> accepts sz depth h (shards ! j)))
          \<or> (i = length shards \<and> (\<forall>s \<in> set shards. \<not> accepts sz depth h s)))"
proof -
  obtain shards' where loop: "place_loop sz depth existing mems = (out, shards')"
    using assms(2) unfolding place_members_def by (metis prod.collapse)
  note L = place_loop_spec [OF assms(1) loop]
  have n: "length existing \<le> length shards' \<and> set out \<subseteq> {..<length shards'} \<and> {length existing..<length shards'} \<subseteq> set out"
    using L by (auto simp: subset_iff)
  have cap: "\<forall>j \<in> set out. occupied existing j + count_list out j \<le> sz" using L by metis
  have step: "let shards = snd (place_loop sz depth existing (take k mems)); h = sm_birthday (mems ! k); i = out ! k
         in (i < length shards \<and> sh_accounts (shards ! i) < sz \<and>
               (\<forall>l. sh_lowest_birthday (shards ! i) = Some l \<and> unat h + unat depth < 2 ^ 32 \<longrightarrow>
                  unat l \<le> unat h + unat depth) \<and>
               (\<forall>j. i < j \<and> j < length shards \<longrightarrow> \<not> accepts sz depth h (shards ! j)))
          \<or> (i = length shards \<and> (\<forall>s \<in> set shards. \<not> accepts sz depth h s))"
    if "k < length mems" for k
  proof -
    have "fst (place_one sz depth (snd (place_loop sz depth existing (take k mems))) (mems ! k)) = out ! k"
      using place_loop_nth [OF that, of sz depth existing] loop by simp
    from place_one_choice [OF this] show ?thesis
      unfolding Let_def using accepts_cohort by (auto simp: accepts_def)
  qed
  show ?thesis using L n cap step by blast
qed

theorem place_members_sound_witness:
  "length (place_members [\<lparr>sh_accounts = 1, sh_lowest_birthday = Some 100\<rparr>]
     [\<lparr>sm_name = ''a'', sm_ufvk = ''k'', sm_birthday = 95\<rparr>, \<lparr>sm_name = ''b'', sm_ufvk = ''l'', sm_birthday = 10\<rparr>] 2 10) = 2"
  using place_members_sound [OF _ refl, of 2 "[\<lparr>sh_accounts = 1, sh_lowest_birthday = Some 100\<rparr>]"
     "[\<lparr>sm_name = ''a'', sm_ufvk = ''k'', sm_birthday = 95\<rparr>, \<lparr>sm_name = ''b'', sm_ufvk = ''l'', sm_birthday = 10\<rparr>]" 10]
  by simp

section \<open>Reconciliation\<close>

definition keyed :: "'k ufvk_codec \<Rightarrow> ('k, 'id) shard_db \<Rightarrow> (string \<times> 'id) set" where
  "keyed c db = (\<Union>(i, acc) \<in> set db. case Option.bind acc acc_ufvk of Some k \<Rightarrow> {(ufvk_encode c k, i)} | None \<Rightarrow> {})"

lemma index_accounts_keys:
  "index_accounts c db (bu, bn) = (bu', bn') \<Longrightarrow>
     (\<forall>e i. bu' e = Some i \<longrightarrow> bu e = Some i \<or> (e, i) \<in> keyed c db) \<and>
     dom bu' = dom bu \<union> fst ` keyed c db"
proof (induction db arbitrary: bu bn)
  case (Cons x db)
  obtain i acc where x: "x = (i, acc)" by (cases x)
  show ?case
  proof (cases "\<exists>a k. acc = Some a \<and> acc_ufvk a = Some k")
    case True
    then obtain a k where ak: "acc = Some a" "acc_ufvk a = Some k" by blast
    let ?bn = "case acc_name a of Some n \<Rightarrow> bn(n \<mapsto> ufvk_encode c k) | None \<Rightarrow> bn"
    have "index_accounts c db (bu(ufvk_encode c k \<mapsto> i), ?bn) = (bu', bn')"
      using Cons.prems by (simp add: x ak Let_def)
    note I = Cons.IH [OF this]
    have key: "keyed c (x # db) = insert (ufvk_encode c k, i) (keyed c db)"
      using ak by (auto simp: keyed_def x)
    have "bu e = Some j \<or> (e, j) \<in> keyed c (x # db)" if "bu' e = Some j" for e j
      using conjunct1 [OF I, rule_format, OF that] by (auto simp: key split: if_splits)
    moreover have "dom bu' = dom bu \<union> fst ` keyed c (x # db)"
      unfolding conjunct2 [OF I] key by auto
    ultimately show ?thesis by blast
  next
    case False
    then have "index_accounts c db (bu, bn) = (bu', bn')"
      using Cons.prems by (auto simp: x split: option.splits)
    moreover have "Option.bind acc acc_ufvk = None" using False by (cases acc) auto
    then have "keyed c (x # db) = keyed c db" by (simp add: keyed_def x)
    ultimately show ?thesis using Cons.IH by simp
  qed
qed (simp add: keyed_def)

definition named :: "('k, 'id) shard_db \<Rightarrow> string set" where
  "named db = {n. \<exists>i a k. (i, Some a) \<in> set db \<and> acc_ufvk a = Some k \<and> acc_name a = Some n}"

lemma index_accounts_names:
  "index_accounts c db (bu, bn) = (bu', bn') \<Longrightarrow> dom bn' = dom bn \<union> named db"
proof (induction db arbitrary: bu bn)
  case (Cons x db)
  obtain i acc where x: "x = (i, acc)" by (cases x)
  show ?case
  proof (cases "\<exists>a k. acc = Some a \<and> acc_ufvk a = Some k")
    case True
    then obtain a k where ak: "acc = Some a" "acc_ufvk a = Some k" by blast
    let ?bn = "case acc_name a of Some n \<Rightarrow> bn(n \<mapsto> ufvk_encode c k) | None \<Rightarrow> bn"
    have "index_accounts c db (bu(ufvk_encode c k \<mapsto> i), ?bn) = (bu', bn')"
      using Cons.prems by (simp add: x ak Let_def)
    from Cons.IH [OF this] have "dom bn' = dom ?bn \<union> named db" .
    also have "\<dots> = dom bn \<union> named (x # db)"
      using ak by (cases "acc_name a") (auto simp: named_def x)
    finally show ?thesis .
  next
    case False
    then have "index_accounts c db (bu, bn) = (bu', bn')"
      using Cons.prems by (auto simp: x split: option.splits)
    moreover have "named (x # db) = named db" using False by (auto simp: named_def x)
    ultimately show ?thesis using Cons.IH by simp
  qed
qed (simp add: named_def)

text \<open>The account an index holds for a member's key.\<close>

definition key_of :: "'k ufvk_codec \<Rightarrow> shard_member \<Rightarrow> string option" where
  "key_of c mem = map_option (ufvk_encode c) (ufvk_decode c (sm_ufvk mem))"

definition account_for :: "'k ufvk_codec \<Rightarrow> (string \<rightharpoonup> 'id) \<Rightarrow> shard_member \<Rightarrow> 'id option" where
  "account_for c bu mem = Option.bind (key_of c mem) bu"

definition adopt :: "'k ufvk_codec \<Rightarrow> (string \<rightharpoonup> 'id) \<Rightarrow> shard_member \<Rightarrow> (string \<rightharpoonup> 'id) \<Rightarrow> (string \<rightharpoonup> 'id)" where
  "adopt c bu mem a = (case account_for c bu mem of Some i \<Rightarrow> a(sm_name mem \<mapsto> i) | None \<Rightarrow> a)"

lemma match_members_Inr:
  "match_members c net bu bn mems r = Inr r' \<longleftrightarrow>
     (\<forall>mem \<in> set mems. key_of c mem \<noteq> None) \<and>
     (\<forall>mem \<in> set mems. account_for c bu mem = None \<longrightarrow> bn (sm_name mem) = None) \<and>
     r' = r\<lparr>adopted := fold (adopt c bu) mems (adopted r),
            pending := pending r @ filter (\<lambda>mem. account_for c bu mem = None) mems\<rparr>"
proof (induction mems arbitrary: r)
  case (Cons mem mems)
  show ?case
  proof (cases "ufvk_decode c (sm_ufvk mem)")
    case None
    then show ?thesis by (auto simp: decode_ufvk_def key_of_def)
  next
    case (Some k)
    then have "key_of c mem = Some (ufvk_encode c k)" "decode_ufvk c net mem = Inr k"
      by (simp_all add: key_of_def decode_ufvk_def)
    moreover from this have acc: "account_for c bu mem = bu (ufvk_encode c k)" by (simp add: account_for_def)
    moreover have "adopt c bu mem (adopted r) =
        (case bu (ufvk_encode c k) of Some i \<Rightarrow> (adopted r)(sm_name mem \<mapsto> i) | None \<Rightarrow> adopted r)"
      by (simp add: adopt_def acc)
    ultimately show ?thesis
      by (cases "bu (ufvk_encode c k)") (auto simp: Cons.IH fun_upd_def)
  qed
qed auto

lemma match_members_name_clash:
  "match_members c net bu bn mems r = Inl (NameUnderOtherKey n) \<Longrightarrow>
     \<exists>mem \<in> set mems. sm_name mem = n \<and> key_of c mem \<noteq> None \<and> account_for c bu mem = None \<and> n \<in> dom bn"
  by (induction mems arbitrary: r)
    (auto simp: decode_ufvk_def account_for_def key_of_def split: option.splits if_splits)

lemma fold_adopt_Some:
  "fold (adopt c bu) mems a n = Some i \<Longrightarrow>
     a n = Some i \<or> (\<exists>mem \<in> set mems. sm_name mem = n \<and> account_for c bu mem = Some i)"
proof (induction mems arbitrary: a)
  case (Cons mem mems)
  from Cons.prems have "fold (adopt c bu) mems (adopt c bu mem a) n = Some i" by simp
  from Cons.IH [OF this] show ?case
    by (auto simp: adopt_def split: option.splits if_splits)
qed simp

lemma dom_fold_adopt:
  "dom (fold (adopt c bu) mems a) = dom a \<union> sm_name ` {mem \<in> set mems. account_for c bu mem \<noteq> None}"
  by (induction mems arbitrary: a) (auto simp: adopt_def split: option.splits)

text \<open>Reconciling a shard binds wallet names to accounts by viewing key: an adopted name belongs to a
  manifest member whose key is the account's; every member is adopted or pending; a pending member's key and
  name are in no account.  It refuses a name only when an account of that name holds another key.\<close>

theorem reconcile_binds_by_key:
  "(case reconcile_accounts c net db members of
      Inr r \<Rightarrow>
        (\<forall>n i. adopted r n = Some i \<longrightarrow>
           (\<exists>mem \<in> set members. \<exists>e. sm_name mem = n \<and> key_of c mem = Some e \<and> (e, i) \<in> keyed c db)) \<and>
        (\<forall>mem \<in> set members. mem \<in> set (pending r) \<or> sm_name mem \<in> dom (adopted r)) \<and>
        (\<forall>mem \<in> set (pending r). mem \<in> set members \<and> sm_name mem \<notin> named db \<and>
           (\<exists>e. key_of c mem = Some e \<and> e \<notin> fst ` keyed c db))
    | Inl (NameUnderOtherKey n) \<Rightarrow>
        (\<exists>mem \<in> set members. \<exists>e. sm_name mem = n \<and> key_of c mem = Some e \<and> n \<in> named db \<and> e \<notin> fst ` keyed c db)
    | Inl (BadUfvk n _) \<Rightarrow> True)"
proof -
  obtain bu bn where idx: "index_accounts c db (Map.empty, Map.empty) = (bu, bn)" by (meson surj_pair)
  note K = index_accounts_keys [OF idx] and N = index_accounts_names [OF idx]
  have none: "account_for c bu mem = None \<longleftrightarrow> e \<notin> fst ` keyed c db" if "key_of c mem = Some e" for mem e
    using that conjunct2 [OF K] by (simp add: account_for_def) (metis domIff)
  have some: "\<exists>e. key_of c mem = Some e \<and> (e, i) \<in> keyed c db" if "account_for c bu mem = Some i" for mem i
    using that K by (auto simp: account_for_def bind_eq_Some_conv)
  have nm: "bn n = None \<longleftrightarrow> n \<notin> named db" for n using N domIff [of n bn] by simp
  have rec: "reconcile_accounts c net db members = match_members c net bu bn members \<lparr>adopted = Map.empty, pending = []\<rparr>"
    by (simp add: reconcile_accounts_def idx)
  show ?thesis
  proof (cases "reconcile_accounts c net db members")
    case (Inr r)
    then have all: "\<forall>mem \<in> set members. key_of c mem \<noteq> None"
      and unused: "\<forall>mem \<in> set members. account_for c bu mem = None \<longrightarrow> bn (sm_name mem) = None"
      and r: "r = \<lparr>adopted = fold (adopt c bu) members Map.empty,
        pending = filter (\<lambda>mem. account_for c bu mem = None) members\<rparr>"
      unfolding rec match_members_Inr by auto
    have "\<exists>mem \<in> set members. \<exists>e. sm_name mem = n \<and> key_of c mem = Some e \<and> (e, i) \<in> keyed c db"
      if "adopted r n = Some i" for n i
      using fold_adopt_Some [of c bu members Map.empty n i] that some by (auto simp: r)
    moreover have "mem \<in> set (pending r) \<or> sm_name mem \<in> dom (adopted r)" if "mem \<in> set members" for mem
      using that by (auto simp: r dom_fold_adopt)
    moreover have "mem \<in> set members \<and> sm_name mem \<notin> named db \<and> (\<exists>e. key_of c mem = Some e \<and> e \<notin> fst ` keyed c db)"
      if "mem \<in> set (pending r)" for mem
      using that all unused none nm by (auto simp: r)
    ultimately show ?thesis by (simp add: Inr)
  next
    case (Inl e)
    show ?thesis
    proof (cases e)
      case (NameUnderOtherKey n)
      then obtain mem e where "mem \<in> set members" "sm_name mem = n" "key_of c mem = Some e"
          "account_for c bu mem = None" "n \<in> dom bn"
        using Inl match_members_name_clash [of c net bu bn members _ n] unfolding rec by blast
      then show ?thesis using none [of mem e] N by (auto simp: Inl NameUnderOtherKey)
    qed (simp add: Inl)
  qed
qed

text \<open>Importing the pending members, each under the id the database gives it.\<close>

fun import_all ::
  "'k ufvk_codec \<Rightarrow> z_network \<Rightarrow> ('id \<times> shard_member) list \<Rightarrow> ('k, 'id) shard_db \<Rightarrow> ('k, 'id) shard_db" where
  "import_all c net [] db = db"
| "import_all c net ((fresh, mem) # ms) db = import_all c net ms (snd (import_member c net fresh db mem))"

lemma keyed_import: "key_of c mem = Some e \<Longrightarrow> keyed c (snd (import_member c net i db mem)) = insert (e, i) (keyed c db)"
proof -
  assume "key_of c mem = Some e"
  then obtain k where k: "ufvk_decode c (sm_ufvk mem) = Some k" "e = ufvk_encode c k" by (auto simp: key_of_def)
  let ?new = "[(i, Some \<lparr>acc_id = i, acc_name = Some (sm_name mem), acc_ufvk = Some k\<rparr>)]"
  have "keyed c (db @ ?new) = keyed c db \<union> keyed c ?new" unfolding keyed_def by auto
  moreover have "keyed c ?new = {(e, i)}" using k by (auto simp: keyed_def)
  ultimately show ?thesis using k by (simp add: import_member_def decode_ufvk_def)
qed

lemma keyed_import_all:
  "\<forall>(i, mem) \<in> set ms. key_of c mem \<noteq> None \<Longrightarrow>
     fst ` keyed c (import_all c net ms db) = fst ` keyed c db \<union> {e. \<exists>(i, mem) \<in> set ms. key_of c mem = Some e}"
proof (induction ms arbitrary: db)
  case (Cons x ms)
  obtain i mem e where x: "x = (i, mem)" "key_of c mem = Some e" using Cons.prems by (cases x) auto
  with Cons show ?case by (auto simp: keyed_import)
qed auto

text \<open>Startup is idempotent: once the members a reconciliation left pending have been imported, reconciling
  the same manifest again adopts every member and leaves nothing to import.\<close>

theorem reconcile_after_import:
  assumes "reconcile_accounts c net db members = Inr r" "map snd ms = pending r"
  shows "\<exists>r'. reconcile_accounts c net (import_all c net ms db) members = Inr r' \<and> pending r' = [] \<and>
    dom (adopted r') = sm_name ` set members"
proof -
  obtain bu bn where idx: "index_accounts c db (Map.empty, Map.empty) = (bu, bn)" by (meson surj_pair)
  obtain bu' bn' where idx': "index_accounts c (import_all c net ms db) (Map.empty, Map.empty) = (bu', bn')"
    by (meson surj_pair)
  have M: "match_members c net bu bn members \<lparr>adopted = Map.empty, pending = []\<rparr> = Inr r"
    using assms(1) by (simp add: reconcile_accounts_def idx)
  then have all: "\<forall>mem \<in> set members. key_of c mem \<noteq> None"
    and pend: "pending r = filter (\<lambda>mem. account_for c bu mem = None) members"
    unfolding match_members_Inr by auto
  have ms: "snd ` set ms = {mem \<in> set members. account_for c bu mem = None}"
    using arg_cong [OF assms(2), of set] pend by auto
  have K: "dom bu = fst ` keyed c db" "dom bu' = fst ` keyed c (import_all c net ms db)"
    using index_accounts_keys [OF idx] index_accounts_keys [OF idx'] by simp_all
  have keys: "\<forall>(i, mem) \<in> set ms. key_of c mem \<noteq> None" using ms all by force
  have found: "account_for c bu' mem \<noteq> None" if mem: "mem \<in> set members" for mem
  proof -
    obtain e where e: "key_of c mem = Some e" using all mem by auto
    have "e \<in> dom bu'"
    proof (cases "account_for c bu mem = None")
      case True
      with mem ms obtain i where "(i, mem) \<in> set ms" by force
      with e show ?thesis unfolding K keyed_import_all [OF keys] by auto
    next
      case False
      with e have "e \<in> dom bu" by (auto simp: account_for_def)
      then show ?thesis unfolding K keyed_import_all [OF keys] by simp
    qed
    with e show ?thesis by (auto simp: account_for_def)
  qed
  have free: "\<forall>mem \<in> set members. account_for c bu' mem = None \<longrightarrow> bn' (sm_name mem) = None"
    using found by blast
  have "match_members c net bu' bn' members \<lparr>adopted = Map.empty, pending = []\<rparr> =
      Inr \<lparr>adopted = fold (adopt c bu') members Map.empty, pending = []\<rparr>"
    unfolding match_members_Inr using all found free by (simp add: filter_empty_conv)
  moreover have "dom (fold (adopt c bu') members Map.empty) = sm_name ` set members"
    using found by (auto simp: dom_fold_adopt)
  ultimately show ?thesis by (simp add: reconcile_accounts_def idx')
qed

theorem reconcile_after_import_witness:
  "let mem = \<lparr>sm_name = ''a'', sm_ufvk = ''k'', sm_birthday = 95\<rparr>;
       c = \<lparr>ufvk_decode = Some, ufvk_encode = (\<lambda>s. s)\<rparr>
   in \<exists>r'. reconcile_accounts c Main (import_all c Main [(7::nat, mem)] []) [mem] = Inr r' \<and> pending r' = []"
proof -
  let ?mem = "\<lparr>sm_name = ''a'', sm_ufvk = ''k'', sm_birthday = 95\<rparr>"
  let ?c = "\<lparr>ufvk_decode = Some, ufvk_encode = (\<lambda>s. s)\<rparr>"
  have "reconcile_accounts ?c Main ([] :: (string, nat) shard_db) [?mem] =
      Inr \<lparr>adopted = Map.empty, pending = [?mem]\<rparr>"
    by (simp add: reconcile_accounts_def decode_ufvk_def)
  from reconcile_after_import [OF this, of "[(7, ?mem)]"] show ?thesis unfolding Let_def by auto
qed

text \<open>An account found by its key under a name of its own: the member is adopted, not imported again.\<close>

theorem reconcile_binds_by_key_witness:
  "let mem = \<lparr>sm_name = ''a'', sm_ufvk = ''k'', sm_birthday = 95\<rparr>;
       c = \<lparr>ufvk_decode = Some, ufvk_encode = (\<lambda>s. s)\<rparr>;
       db = import_all c Main [(7::nat, mem\<lparr>sm_name := ''b''\<rparr>)] []
   in \<exists>r. reconcile_accounts c Main db [mem] = Inr r \<and> adopted r ''a'' = Some 7 \<and> pending r = [] \<and> (''k'', 7) \<in> keyed c db"
proof -
  let ?mem = "\<lparr>sm_name = ''a'', sm_ufvk = ''k'', sm_birthday = 95\<rparr>"
  let ?c = "\<lparr>ufvk_decode = Some, ufvk_encode = (\<lambda>s. s)\<rparr>"
  let ?db = "import_all ?c Main [(7::nat, ?mem\<lparr>sm_name := ''b''\<rparr>)] []"
  have r: "reconcile_accounts ?c Main ?db [?mem] = Inr \<lparr>adopted = [''a'' \<mapsto> 7], pending = []\<rparr>"
    by (simp add: reconcile_accounts_def decode_ufvk_def import_member_def Let_def)
  from reconcile_binds_by_key [where c = ?c and net = Main and db = ?db and members = "[?mem]"] have "(''k'', 7) \<in> keyed ?c ?db"
    unfolding r by (simp add: key_of_def decode_ufvk_def)
  with r show ?thesis unfolding Let_def by simp
qed

end
