(* ===== verification/Chain.thy ===== *)
theory Chain
  imports Network
begin

text \<open>
  The chain abstraction, \<open>src/chain/mod.rs\<close>: the data a chain source returns, the detection of network
  upgrades that this build or the upstream does not follow, and the classification of transport errors.
  The protocol crate's branch table is a parameter.
\<close>

section \<open>What a chain source returns\<close>

record chain_tip =
  tip_height_of :: u64
  tip_hash :: "u8 list"

record fetched_tx =
  ft_data :: "u8 list"
  ft_mined_height :: "u32 option"

record subtree_root_info =
  root_hash :: "u8 list"
  completing_height :: u32

datatype 'txid tx_evidence = EvidenceTxid 'txid | EvidenceRaw fetched_tx

record broadcast_outcome =
  bo_error_code :: int
  bo_error_message :: string

definition broadcast_accepted :: broadcast_outcome where
  "broadcast_accepted = \<lparr>bo_error_code = 0, bo_error_message = []\<rparr>"

definition is_accepted :: "broadcast_outcome \<Rightarrow> bool" where
  "is_accepted b \<longleftrightarrow> bo_error_code b = 0"

datatype upgrade_status = Pending | Active | OtherStatus

record upgrade_info =
  ui_branch_id :: u32
  ui_name :: string
  ui_activation_height :: "u32 option"
  ui_status :: upgrade_status

record server_info =
  si_chain_name :: string
  si_tip_height :: "u32 option"
  si_upgrades :: "upgrade_info list"
  si_tip_branch_id :: "u32 option"
  si_next_block_branch_id :: "u32 option"

datatype unsupported_kind =
    UnknownBranch
  | ActivationHeightMismatch "u32 option"
  | UpstreamNotUpgraded

record unsupported_upgrade =
  uu_branch_id :: u32
  uu_name :: string
  uu_activation_height :: "u32 option"
  uu_active :: bool
  uu_kind :: unsupported_kind

text \<open>The crate's consensus branches: parsing a branch id, its id, the upgrade that activates it, and the
  branch in force at a height.\<close>

record 'b branch_crate =
  branch_try_from :: "u32 \<Rightarrow> 'b option"
  branch_to_u32 :: "'b \<Rightarrow> u32"
  branch_upgrade :: "'b \<Rightarrow> network_upgrade option"
  branch_for_height :: "z_network \<Rightarrow> u32 \<Rightarrow> 'b"

section \<open>Upgrades that are not followed\<close>

definition position :: "'a \<Rightarrow> 'a list \<Rightarrow> nat option" where
  "position x xs = List.find (\<lambda>i. xs ! i = x) [0..<length xs]"

definition branch_rank :: "'b branch_crate \<Rightarrow> 'b \<Rightarrow> nat" where
  "branch_rank bc b =
     (case branch_upgrade bc b of
        None \<Rightarrow> 0
      | Some nu \<Rightarrow> (case position nu NETWORK_UPGRADES of None \<Rightarrow> 0 | Some i \<Rightarrow> i + 1))"

definition branch_known :: "'b branch_crate \<Rightarrow> u32 \<Rightarrow> bool" where
  "branch_known bc i \<longleftrightarrow> branch_try_from bc i \<noteq> None"

definition in_play :: "upgrade_info \<Rightarrow> bool" where
  "in_play u \<longleftrightarrow> ui_status u = Active \<or> ui_status u = Pending"

definition unknown_entries :: "'b branch_crate \<Rightarrow> server_info \<Rightarrow> unsupported_upgrade list" where
  "unknown_entries bc info =
     map (\<lambda>u. \<lparr>uu_branch_id = ui_branch_id u, uu_name = ui_name u, uu_activation_height = ui_activation_height u,
            uu_active = (ui_status u = Active), uu_kind = UnknownBranch\<rparr>)
       (filter (\<lambda>u. \<not> branch_known bc (ui_branch_id u)) (filter in_play (si_upgrades info)))"

text \<open>One iteration of the height comparison.\<close>

definition mismatch_entry ::
  "'b branch_crate \<Rightarrow> protocol_crate \<Rightarrow> z_network \<Rightarrow> upgrade_info \<Rightarrow> unsupported_upgrade option" where
  "mismatch_entry bc pc net u =
     (case Option.bind (branch_try_from bc (ui_branch_id u)) (branch_upgrade bc) of
        None \<Rightarrow> None
      | Some nu \<Rightarrow>
          (case ui_activation_height u of
             None \<Rightarrow> None
           | Some theirs \<Rightarrow>
               (let ours = activation_height pc net nu
                in if ours \<noteq> Some theirs
                   then Some \<lparr>uu_branch_id = ui_branch_id u, uu_name = ui_name u, uu_activation_height = Some theirs,
                     uu_active = (ui_status u = Active), uu_kind = ActivationHeightMismatch ours\<rparr>
                   else None)))"

definition mismatch_entries ::
  "'b branch_crate \<Rightarrow> protocol_crate \<Rightarrow> z_network \<Rightarrow> server_info \<Rightarrow> unsupported_upgrade list" where
  "mismatch_entries bc pc net info =
     List.map_filter (mismatch_entry bc pc net) (filter in_play (si_upgrades info))"

definition horizon :: "server_info \<Rightarrow> u32 option" where
  "horizon info =
     (let hs = List.map_filter ui_activation_height (si_upgrades info)
      in if hs = [] then None else Some (foldl max (hd hs) (tl hs)))"

definition beyond_horizon ::
  "protocol_crate \<Rightarrow> z_network \<Rightarrow> server_info \<Rightarrow> unsupported_upgrade list" where
  "beyond_horizon pc net info =
     (case horizon info of
        None \<Rightarrow> []
      | Some h \<Rightarrow>
          map (\<lambda>s. \<lparr>uu_branch_id = su_branch_id s, uu_name = su_name s,
                 uu_activation_height = Some (su_activation_height s),
                 uu_active = (case si_tip_height info of None \<Rightarrow> False | Some t \<Rightarrow> t \<ge> su_activation_height s),
                 uu_kind = UpstreamNotUpgraded\<rparr>)
            (filter (\<lambda>s. \<not> (su_activation_height s \<le> h \<or>
                 list_ex (\<lambda>u. ui_branch_id u = su_branch_id s) (si_upgrades info)))
              (scheduled_upgrades pc net)))"

text \<open>\<open>iter_mut().find(..)\<close> and setting \<open>active\<close>: the first entry of that branch, if there is one.\<close>

fun promote :: "u32 \<Rightarrow> unsupported_upgrade list \<Rightarrow> unsupported_upgrade list option" where
  "promote i [] = None"
| "promote i (u # us) =
     (if uu_branch_id u = i then Some (u\<lparr>uu_active := True\<rparr> # us)
      else map_option (\<lambda>us'. u # us') (promote i us))"

definition consensus_entry :: "'b branch_crate \<Rightarrow> u32 \<Rightarrow> unsupported_upgrade list \<Rightarrow> unsupported_upgrade list" where
  "consensus_entry bc i out =
     (case promote i out of
        Some out' \<Rightarrow> out'
      | None \<Rightarrow>
          if \<not> branch_known bc i
          then out @ [\<lparr>uu_branch_id = i, uu_name = ''unknown upgrade'', uu_activation_height = None,
                 uu_active = True, uu_kind = UnknownBranch\<rparr>]
          else out)"

text \<open>One iteration of the comparison of the ruling branches.\<close>

definition ruling_branch ::
  "'b branch_crate \<Rightarrow> protocol_crate \<Rightarrow> z_network \<Rightarrow> u32 option \<times> u32 \<Rightarrow> unsupported_upgrade list \<Rightarrow> unsupported_upgrade list" where
  "ruling_branch bc pc net idh out =
     (case Option.bind (fst idh) (branch_try_from bc) of
        None \<Rightarrow> out
      | Some theirs \<Rightarrow>
          (let ours = branch_for_height bc net (snd idh)
           in if theirs = ours then out
              else let (behind, kind) =
                     (if branch_rank bc theirs < branch_rank bc ours then (ours, UpstreamNotUpgraded)
                      else (theirs, ActivationHeightMismatch
                              (Option.bind (branch_upgrade bc theirs) (activation_height pc net))));
                       branch_id = branch_to_u32 bc behind
                   in case promote branch_id out of
                        Some out' \<Rightarrow> out'
                      | None \<Rightarrow>
                          (let nu = branch_upgrade bc behind
                           in out @ [\<lparr>uu_branch_id = branch_id,
                               uu_name = (case nu of None \<Rightarrow> ''unknown upgrade'' | Some n \<Rightarrow> upgrade_name n),
                               uu_activation_height =
                                 (case kind of UpstreamNotUpgraded \<Rightarrow> Option.bind nu (activation_height pc net)
                                  | _ \<Rightarrow> None),
                               uu_active = True, uu_kind = kind\<rparr>])))"

definition option_list :: "'a option \<Rightarrow> 'a list" where
  "option_list x = (case x of None \<Rightarrow> [] | Some y \<Rightarrow> [y])"

definition unsupported_upgrades ::
  "'b branch_crate \<Rightarrow> protocol_crate \<Rightarrow> server_info \<Rightarrow> z_network \<Rightarrow> unsupported_upgrade list" where
  "unsupported_upgrades bc pc info net =
     (let out = unknown_entries bc info @ mismatch_entries bc pc net info @ beyond_horizon pc net info;
          out = fold (consensus_entry bc)
            (option_list (si_tip_branch_id info) @ option_list (si_next_block_branch_id info)) out
      in case si_tip_height info of
           None \<Rightarrow> out
         | Some tip \<Rightarrow>
             fold (ruling_branch bc pc net)
               [(si_tip_branch_id info, tip), (si_next_block_branch_id info, saturating_add tip 1)] out)"

section \<open>Transport errors\<close>

definition names_the_load_shed :: "string \<Rightarrow> bool" where
  "names_the_load_shed text \<longleftrightarrow>
     (contains text ''too_many_data_frames'' \<or> contains text ''ENHANCE_YOUR_CALM'') \<and> contains text ''Library''"

text \<open>An error is its own \<open>Debug\<close> rendering and those of the errors of its chain.\<close>

record transport_error =
  te_debug :: string
  te_chain :: "string list"

definition is_h2_load_shed :: "transport_error \<Rightarrow> bool" where
  "is_h2_load_shed e \<longleftrightarrow> names_the_load_shed (te_debug e) \<or> list_ex names_the_load_shed (te_chain e)"

section \<open>When nothing is reported\<close>

lemma promote_None: "promote i out = None \<longleftrightarrow> (\<forall>u \<in> set out. uu_branch_id u \<noteq> i)"
  by (induction out) auto

lemma promote_nonempty: "promote i out = Some out' \<Longrightarrow> out' \<noteq> [] \<and> out \<noteq> []"
  by (cases out) (auto split: if_splits)

lemma consensus_entry_Nil: "consensus_entry bc i out = [] \<longleftrightarrow> out = [] \<and> branch_known bc i"
  by (auto simp: consensus_entry_def split: option.splits dest: promote_nonempty)

lemma fold_consensus_Nil:
  "fold (consensus_entry bc) ids out = [] \<longleftrightarrow> out = [] \<and> (\<forall>i \<in> set ids. branch_known bc i)"
  by (induction ids arbitrary: out) (auto simp: consensus_entry_Nil)

lemma ruling_branch_Nil:
  "ruling_branch bc pc net idh out = [] \<longleftrightarrow>
     out = [] \<and> (\<forall>b. Option.bind (fst idh) (branch_try_from bc) = Some b \<longrightarrow> b = branch_for_height bc net (snd idh))"
  by (auto simp: ruling_branch_def Let_def split: option.splits prod.splits if_splits dest: promote_nonempty)

lemma map_filter_Nil: "List.map_filter f xs = [] \<longleftrightarrow> (\<forall>x \<in> set xs. f x = None)"
  by (induction xs) (auto simp: List.map_filter_simps split: option.splits)

lemma mismatch_entry_None:
  "mismatch_entry bc pc net u = None \<longleftrightarrow>
     (\<forall>b nu h. branch_try_from bc (ui_branch_id u) = Some b \<and> branch_upgrade bc b = Some nu \<and>
        ui_activation_height u = Some h \<longrightarrow> activation_height pc net nu = Some h)"
  by (auto simp: mismatch_entry_def Let_def bind_eq_Some_conv split: option.splits)

text \<open>The outdated-build check reports nothing exactly when the upstream and this build agree: every upgrade
  the upstream lists as active or pending has a branch this build knows, at the height this build uses; the
  build schedules nothing beyond the upstream's horizon that the upstream does not list; and the branches
  ruling the upstream's tip and next block are known and, with a tip height, the ones this build expects there.\<close>

theorem unsupported_upgrades_none_iff:
  "unsupported_upgrades bc pc info net = [] \<longleftrightarrow>
     (\<forall>u \<in> set (si_upgrades info). in_play u \<longrightarrow>
        (\<exists>b. branch_try_from bc (ui_branch_id u) = Some b \<and>
           (\<forall>nu h. branch_upgrade bc b = Some nu \<and> ui_activation_height u = Some h \<longrightarrow>
              activation_height pc net nu = Some h)))
     \<and> (\<forall>h s. horizon info = Some h \<and> s \<in> set (scheduled_upgrades pc net) \<and> h < su_activation_height s \<longrightarrow>
          (\<exists>u \<in> set (si_upgrades info). ui_branch_id u = su_branch_id s))
     \<and> (\<forall>i. (si_tip_branch_id info = Some i \<or> si_next_block_branch_id info = Some i) \<longrightarrow> branch_known bc i)
     \<and> (\<forall>tip. si_tip_height info = Some tip \<longrightarrow>
          (\<forall>i. si_tip_branch_id info = Some i \<longrightarrow> branch_try_from bc i = Some (branch_for_height bc net tip)) \<and>
          (\<forall>i. si_next_block_branch_id info = Some i \<longrightarrow>
             branch_try_from bc i = Some (branch_for_height bc net (saturating_add tip 1))))"
proof -
  have unk: "unknown_entries bc info = [] \<longleftrightarrow> (\<forall>u \<in> set (si_upgrades info). in_play u \<longrightarrow> branch_known bc (ui_branch_id u))"
    by (auto simp: unknown_entries_def filter_empty_conv)
  have mis: "mismatch_entries bc pc net info = [] \<longleftrightarrow> (\<forall>u \<in> set (si_upgrades info). in_play u \<longrightarrow> mismatch_entry bc pc net u = None)"
    by (auto simp: mismatch_entries_def map_filter_Nil)
  have hor: "beyond_horizon pc net info = [] \<longleftrightarrow>
      (\<forall>h s. horizon info = Some h \<and> s \<in> set (scheduled_upgrades pc net) \<and> h < su_activation_height s \<longrightarrow>
          (\<exists>u \<in> set (si_upgrades info). ui_branch_id u = su_branch_id s))"
    by (auto simp: beyond_horizon_def filter_empty_conv list_ex_iff not_le split: option.splits)
  have ids: "(\<forall>i \<in> set (option_list (si_tip_branch_id info) @ option_list (si_next_block_branch_id info)). branch_known bc i) \<longleftrightarrow>
      (\<forall>i. (si_tip_branch_id info = Some i \<or> si_next_block_branch_id info = Some i) \<longrightarrow> branch_known bc i)"
    by (auto simp: option_list_def split: option.splits)
  have each: "branch_known bc (ui_branch_id u) \<and> mismatch_entry bc pc net u = None \<longleftrightarrow>
      (\<exists>b. branch_try_from bc (ui_branch_id u) = Some b \<and>
         (\<forall>nu h. branch_upgrade bc b = Some nu \<and> ui_activation_height u = Some h \<longrightarrow>
            activation_height pc net nu = Some h))" for u
    by (cases "branch_try_from bc (ui_branch_id u)") (simp_all add: branch_known_def mismatch_entry_None)
  have map_ok: "unknown_entries bc info = [] \<and> mismatch_entries bc pc net info = [] \<longleftrightarrow>
      (\<forall>u \<in> set (si_upgrades info). in_play u \<longrightarrow>
        (\<exists>b. branch_try_from bc (ui_branch_id u) = Some b \<and>
           (\<forall>nu h. branch_upgrade bc b = Some nu \<and> ui_activation_height u = Some h \<longrightarrow>
              activation_height pc net nu = Some h)))"
    unfolding unk mis each [symmetric] by blast
  have rule: "(\<forall>b. Option.bind x (branch_try_from bc) = Some b \<longrightarrow> b = c) \<and> (\<forall>i. x = Some i \<longrightarrow> branch_known bc i) \<longleftrightarrow>
      (\<forall>i. x = Some i \<longrightarrow> branch_try_from bc i = Some c)" for x c
    by (cases x) (auto simp: branch_known_def)
  have out: "unsupported_upgrades bc pc info net = [] \<longleftrightarrow>
      (unknown_entries bc info = [] \<and> mismatch_entries bc pc net info = []) \<and> beyond_horizon pc net info = [] \<and>
      (\<forall>i. (si_tip_branch_id info = Some i \<or> si_next_block_branch_id info = Some i) \<longrightarrow> branch_known bc i) \<and>
      (\<forall>tip. si_tip_height info = Some tip \<longrightarrow>
         (\<forall>b. Option.bind (si_tip_branch_id info) (branch_try_from bc) = Some b \<longrightarrow> b = branch_for_height bc net tip) \<and>
         (\<forall>b. Option.bind (si_next_block_branch_id info) (branch_try_from bc) = Some b \<longrightarrow>
            b = branch_for_height bc net (saturating_add tip 1)))"
    unfolding unsupported_upgrades_def Let_def ids [symmetric]
    by (cases "si_tip_height info") (simp_all add: fold_consensus_Nil ruling_branch_Nil ball_Un conj_ac)
  show ?thesis
    unfolding out map_ok hor using rule [of "si_tip_branch_id info"] rule [of "si_next_block_branch_id info"]
    by (intro conj_cong refl) blast+
qed

section \<open>A ruling branch is reported as active\<close>

definition active_for :: "u32 \<Rightarrow> unsupported_upgrade list \<Rightarrow> bool" where
  "active_for i out \<longleftrightarrow> (\<forall>u \<in> set out. uu_branch_id u = i \<longrightarrow> uu_active u)"

lemma promote_ids: "promote i out = Some out' \<Longrightarrow> map uu_branch_id out' = map uu_branch_id out"
  by (induction out arbitrary: out') (auto split: if_splits)

lemma promote_active_mono: "promote i out = Some out' \<Longrightarrow> active_for j out \<Longrightarrow> active_for j out'"
  by (induction out arbitrary: out') (auto simp: active_for_def split: if_splits)

lemma promote_active:
  "promote i out = Some out' \<Longrightarrow> distinct (map uu_branch_id out) \<Longrightarrow> active_for i out'"
proof (induction out arbitrary: out')
  case (Cons u out)
  show ?case
  proof (cases "uu_branch_id u = i")
    case True
    with Cons.prems have "out' = u\<lparr>uu_active := True\<rparr> # out" "i \<notin> uu_branch_id ` set out" by auto
    then show ?thesis by (auto simp: active_for_def)
  next
    case False
    with Cons show ?thesis by (auto simp: active_for_def)
  qed
qed simp

text \<open>A step that leaves the report, promotes an entry, or appends a fresh active one.\<close>

definition report_step :: "unsupported_upgrade list \<Rightarrow> unsupported_upgrade list \<Rightarrow> bool" where
  "report_step out out' \<longleftrightarrow> out' = out \<or> (\<exists>i. promote i out = Some out') \<or>
     (\<exists>u. uu_active u \<and> promote (uu_branch_id u) out = None \<and> out' = out @ [u])"

lemma report_step_keeps:
  assumes "report_step out out'"
  shows "distinct (map uu_branch_id out) \<Longrightarrow> distinct (map uu_branch_id out')"
    and "active_for j out \<Longrightarrow> active_for j out'"
proof -
  show "distinct (map uu_branch_id out')" if d: "distinct (map uu_branch_id out)"
    using assms unfolding report_step_def
  proof (elim disjE exE conjE)
    fix i assume "promote i out = Some out'"
    then show ?thesis using promote_ids d by metis
  next
    fix u assume "promote (uu_branch_id u) out = None" "out' = out @ [u]"
    then show ?thesis using d by (auto simp: promote_None)
  qed (use d in simp)
  show "active_for j out'" if a: "active_for j out"
    using assms unfolding report_step_def
  proof (elim disjE exE conjE)
    fix i assume "promote i out = Some out'"
    then show ?thesis using a by (rule promote_active_mono)
  next
    fix u assume "uu_active u" "out' = out @ [u]"
    then show ?thesis using a by (simp add: active_for_def)
  qed (use a in simp)
qed

lemma consensus_entry_step: "report_step out (consensus_entry bc i out)"
  by (auto simp: consensus_entry_def report_step_def split: option.splits)

lemma ruling_branch_step: "report_step out (ruling_branch bc pc net idh out)"
  by (auto simp: ruling_branch_def report_step_def Let_def split: option.splits prod.splits)

lemma consensus_entry_active:
  "distinct (map uu_branch_id out) \<Longrightarrow> active_for i (consensus_entry bc i out)"
  by (auto simp: consensus_entry_def promote_None split: option.splits intro: promote_active)
    (auto simp: active_for_def)

lemma fold_consensus_active:
  "distinct (map uu_branch_id out) \<Longrightarrow>
     (\<forall>i \<in> set ids. active_for i (fold (consensus_entry bc) ids out)) \<and>
     (\<forall>j. active_for j out \<longrightarrow> active_for j (fold (consensus_entry bc) ids out))"
proof (induction ids arbitrary: out)
  case (Cons i ids)
  let ?o = "consensus_entry bc i out"
  have d: "distinct (map uu_branch_id ?o)" using report_step_keeps(1) [OF consensus_entry_step Cons.prems] .
  have "active_for i ?o" using Cons.prems by (rule consensus_entry_active)
  moreover have "active_for j out \<longrightarrow> active_for j ?o" for j
    using report_step_keeps(2) [OF consensus_entry_step] by blast
  ultimately show ?case using Cons.IH [OF d] by simp
qed simp

lemma set_map_filter_iff: "y \<in> set (List.map_filter f xs) \<longleftrightarrow> (\<exists>x \<in> set xs. f x = Some y)"
  by (induction xs) (auto simp: List.map_filter_simps split: option.splits)

lemma distinct_map_filter_key:
  "distinct (map k xs) \<Longrightarrow> (\<And>x y. f x = Some y \<Longrightarrow> g y = k x) \<Longrightarrow> distinct (map g (List.map_filter f xs))"
proof (induction xs)
  case (Cons x xs)
  then show ?case by (force simp: List.map_filter_simps set_map_filter_iff split: option.splits)
qed (simp add: List.map_filter_simps)

lemma mismatch_entry_SomeD:
  assumes "mismatch_entry bc pc net u = Some m"
  shows "uu_branch_id m = ui_branch_id u \<and> branch_known bc (ui_branch_id u)"
proof -
  obtain b nu where "branch_try_from bc (ui_branch_id u) = Some b" "branch_upgrade bc b = Some nu"
    using assms by (cases "branch_try_from bc (ui_branch_id u)")
      (auto simp: mismatch_entry_def split: option.splits)
  with assms show ?thesis by (auto simp: mismatch_entry_def Let_def branch_known_def split: option.splits if_splits)
qed

lemma base_report_distinct:
  assumes "distinct (map ui_branch_id (si_upgrades info))" "distinct (map su_branch_id (scheduled_upgrades pc net))"
  shows "distinct (map uu_branch_id (unknown_entries bc info @ mismatch_entries bc pc net info @ beyond_horizon pc net info))"
proof -
  have unk: "map uu_branch_id (unknown_entries bc info) =
      map ui_branch_id (filter (\<lambda>u. \<not> branch_known bc (ui_branch_id u)) (filter in_play (si_upgrades info)))"
    by (simp add: unknown_entries_def)
  have mis: "distinct (map uu_branch_id (mismatch_entries bc pc net info))"
    unfolding mismatch_entries_def
    by (rule distinct_map_filter_key [where k = ui_branch_id])
      (use assms(1) in \<open>auto simp: distinct_map_filter dest: mismatch_entry_SomeD\<close>)
  have mis_ids: "branch_known bc (uu_branch_id m) \<and> uu_branch_id m \<in> ui_branch_id ` set (si_upgrades info)"
    if m: "m \<in> set (mismatch_entries bc pc net info)" for m
  proof -
    obtain u where u: "u \<in> set (si_upgrades info)" "mismatch_entry bc pc net u = Some m"
      using m unfolding mismatch_entries_def set_map_filter_iff by auto
    then show ?thesis using mismatch_entry_SomeD [OF u(2)] by auto
  qed
  have bey: "distinct (map uu_branch_id (beyond_horizon pc net info))"
    using assms(2) by (auto simp: beyond_horizon_def comp_def distinct_map_filter split: option.splits)
  have bey_ids: "uu_branch_id m \<notin> ui_branch_id ` set (si_upgrades info)" if "m \<in> set (beyond_horizon pc net info)" for m
    using that by (auto simp: beyond_horizon_def list_ex_iff split: option.splits)
  have "distinct (map uu_branch_id (unknown_entries bc info))"
    unfolding unk using assms(1) by (simp add: distinct_map_filter)
  moreover have "set (map uu_branch_id (unknown_entries bc info)) \<subseteq>
      {i. \<not> branch_known bc i} \<inter> ui_branch_id ` set (si_upgrades info)"
    unfolding unk by auto
  moreover have "set (map uu_branch_id (mismatch_entries bc pc net info)) \<subseteq>
      {i. branch_known bc i} \<inter> ui_branch_id ` set (si_upgrades info)"
    using mis_ids by auto
  moreover have "set (map uu_branch_id (beyond_horizon pc net info)) \<inter> ui_branch_id ` set (si_upgrades info) = {}"
    using bey_ids by auto
  ultimately show ?thesis using mis bey unfolding map_append distinct_append set_append by blast
qed

text \<open>When the upstream's own table has one entry per branch, every reported upgrade whose branch rules the
  upstream's tip or its next block is reported as active, whatever status the table gave it.\<close>

theorem ruling_branch_reported_active:
  assumes "distinct (map ui_branch_id (si_upgrades info))" "distinct (map su_branch_id (scheduled_upgrades pc net))"
    and "u \<in> set (unsupported_upgrades bc pc info net)"
    and "si_tip_branch_id info = Some (uu_branch_id u) \<or> si_next_block_branch_id info = Some (uu_branch_id u)"
  shows "uu_active u"
proof -
  let ?base = "unknown_entries bc info @ mismatch_entries bc pc net info @ beyond_horizon pc net info"
  let ?ids = "option_list (si_tip_branch_id info) @ option_list (si_next_block_branch_id info)"
  let ?mid = "fold (consensus_entry bc) ?ids ?base"
  have "uu_branch_id u \<in> set ?ids" using assms(4) by (auto simp: option_list_def)
  with fold_consensus_active [OF base_report_distinct [OF assms(1,2)]]
  have mid: "active_for (uu_branch_id u) ?mid" by blast
  have "active_for (uu_branch_id u) (unsupported_upgrades bc pc info net)"
    unfolding unsupported_upgrades_def Let_def
    by (cases "si_tip_height info")
      (use mid in \<open>auto intro!: report_step_keeps(2) [OF ruling_branch_step] simp del: fold_append\<close>)
  then show ?thesis using assms(3) by (simp add: active_for_def)
qed

text \<open>A crate that knows no branch and schedules nothing, and an upstream whose pending upgrade rules the tip.\<close>

definition sample_branches :: "nat branch_crate" where
  "sample_branches = \<lparr>branch_try_from = (\<lambda>_. None), branch_to_u32 = of_nat, branch_upgrade = (\<lambda>_. None),
     branch_for_height = (\<lambda>_ _. 0)\<rparr>"

definition sample_protocol :: protocol_crate where
  "sample_protocol = \<lparr>main_activation = (\<lambda>_. None), test_activation = (\<lambda>_. None),
     local_activation = (\<lambda>_ _. None), branch_id_of = (\<lambda>_. 0)\<rparr>"

definition sample_info :: server_info where
  "sample_info = \<lparr>si_chain_name = ''main'', si_tip_height = None,
     si_upgrades = [\<lparr>ui_branch_id = 7, ui_name = ''NU8'', ui_activation_height = Some 90, ui_status = Pending\<rparr>],
     si_tip_branch_id = Some 7, si_next_block_branch_id = None\<rparr>"

theorem ruling_branch_reported_active_witness:
  "uu_active (hd (unsupported_upgrades sample_branches sample_protocol sample_info Main)) \<and>
   uu_name (hd (unsupported_upgrades sample_branches sample_protocol sample_info Main)) = ''NU8''"
proof -
  let ?out = "unsupported_upgrades sample_branches sample_protocol sample_info Main"
  have e: "?out \<noteq> [] \<and> uu_branch_id (hd ?out) = 7 \<and> uu_name (hd ?out) = ''NU8''" by code_simp
  have d: "distinct (map ui_branch_id (si_upgrades sample_info))"
    "distinct (map su_branch_id (scheduled_upgrades sample_protocol Main))" by code_simp+
  have m: "hd ?out \<in> set ?out" using e hd_in_set by blast
  have t: "si_tip_branch_id sample_info = Some (uu_branch_id (hd ?out))" using e by (simp add: sample_info_def)
  from ruling_branch_reported_active [OF d m disjI1 [OF t]] e show ?thesis by blast
qed

text \<open>The same upstream is silent for a build that knows the branch and expects it at the tip.\<close>

definition following_branches :: "nat branch_crate" where
  "following_branches = \<lparr>branch_try_from = (\<lambda>i. if i = 7 then Some 7 else None), branch_to_u32 = of_nat,
     branch_upgrade = (\<lambda>_. None), branch_for_height = (\<lambda>_ _. 7)\<rparr>"

theorem unsupported_upgrades_none_iff_witness:
  "unsupported_upgrades following_branches sample_protocol (sample_info\<lparr>si_tip_height := Some 95\<rparr>) Main = []"
proof -
  have "scheduled_upgrades sample_protocol Main = []" by code_simp
  then show ?thesis
    unfolding unsupported_upgrades_none_iff
    by (simp add: following_branches_def sample_info_def branch_known_def)
qed

end
