(* ===== verification/Lru.thy ===== *)
theory Lru
  imports Hash_Map
begin

text \<open>
  The bounded least-recently-used map of \<open>src/chain/hub.rs\<close>: a hash map beside the queue of its keys from
  least to most recently used.  It refines the obvious specification on a list of entries in that order.
\<close>

section \<open>The map and its operations\<close>

record ('k, 'v) lru_map =
  lru_cap :: nat
  lru_entries :: "('k, 'v) hash_map"
  lru_order :: "'k list"

definition lru_new :: "nat \<Rightarrow> ('k, 'v) lru_map" where
  "lru_new c = \<lparr>lru_cap = c, lru_entries = [], lru_order = []\<rparr>"

text \<open>\<open>position\<close> and \<open>VecDeque::remove\<close> drop the first occurrence, if there is one: \<open>remove1\<close>.\<close>

definition lru_get :: "'k \<Rightarrow> ('k, 'v) lru_map \<Rightarrow> 'v option \<times> ('k, 'v) lru_map" where
  "lru_get k m =
     (case hm_get (lru_entries m) k of
        None \<Rightarrow> (None, m)
      | Some v \<Rightarrow>
          (Some v, if k \<in> set (lru_order m) then m\<lparr>lru_order := remove1 k (lru_order m) @ [k]\<rparr> else m))"

text \<open>The eviction loop \<open>while order.len() > cap\<close>.\<close>

fun lru_evict :: "nat \<Rightarrow> ('k, 'v) hash_map \<Rightarrow> 'k list \<Rightarrow> ('k, 'v) hash_map \<times> 'k list" where
  "lru_evict c m [] = (m, [])"
| "lru_evict c m (k # ks) =
     (if length (k # ks) > c then lru_evict c (hm_remove k m) ks else (m, k # ks))"

definition lru_insert :: "'k \<Rightarrow> 'v \<Rightarrow> ('k, 'v) lru_map \<Rightarrow> ('k, 'v) lru_map" where
  "lru_insert k v m =
     (let present = hm_get (lru_entries m) k \<noteq> None;
          entries = hm_insert k v (lru_entries m);
          order = (if present then remove1 k (lru_order m) else lru_order m) @ [k];
          (entries', order') = lru_evict (lru_cap m) entries order
      in m\<lparr>lru_entries := entries', lru_order := order'\<rparr>)"

definition lru_clear :: "('k, 'v) lru_map \<Rightarrow> ('k, 'v) lru_map" where
  "lru_clear m = m\<lparr>lru_entries := [], lru_order := []\<rparr>"

section \<open>The specification\<close>

text \<open>Entries from least to most recently used.\<close>

definition spec_get :: "'k \<Rightarrow> ('k \<times> 'v) list \<Rightarrow> 'v option \<times> ('k \<times> 'v) list" where
  "spec_get k l =
     (case map_of l k of
        None \<Rightarrow> (None, l)
      | Some v \<Rightarrow> (Some v, filter (\<lambda>(k', _). k' \<noteq> k) l @ [(k, v)]))"

definition spec_insert :: "nat \<Rightarrow> 'k \<Rightarrow> 'v \<Rightarrow> ('k \<times> 'v) list \<Rightarrow> ('k \<times> 'v) list" where
  "spec_insert c k v l =
     (let l' = filter (\<lambda>(k', _). k' \<noteq> k) l @ [(k, v)] in drop (length l' - c) l')"

definition lru_ok :: "('k, 'v) lru_map \<Rightarrow> bool" where
  "lru_ok m \<longleftrightarrow> hm_ok (lru_entries m) \<and> distinct (lru_order m) \<and> set (lru_order m) = dom (hm_get (lru_entries m)) \<and>
     length (lru_order m) \<le> lru_cap m"

definition lru_abs :: "('k, 'v) lru_map \<Rightarrow> ('k \<times> 'v) list" where
  "lru_abs m = map (\<lambda>k. (k, the (hm_get (lru_entries m) k))) (lru_order m)"

section \<open>Refinement\<close>

lemma lru_evict_conv:
  "lru_evict c m ks = (fold hm_remove (take (length ks - c) ks) m, drop (length ks - c) ks)"
proof (induction ks arbitrary: m)
  case (Cons k ks)
  show ?case
  proof (cases "length (k # ks) > c")
    case True
    then have "length (k # ks) - c = Suc (length ks - c)" by simp
    with True show ?thesis by (simp add: Cons.IH)
  qed simp
qed simp

lemma map_of_keys_pair: "map_of (map (\<lambda>k. (k, f k)) ks) k = (if k \<in> set ks then Some (f k) else None)"
  by (induction ks) auto

lemma lru_abs_lookup: "lru_ok m \<Longrightarrow> map_of (lru_abs m) k = hm_get (lru_entries m) k"
  unfolding lru_abs_def map_of_keys_pair lru_ok_def by (metis domIff option.collapse)

lemma filter_remove1: "distinct ks \<Longrightarrow> filter (\<lambda>k'. k' \<noteq> k) ks = remove1 k ks"
  by (simp add: distinct_remove1_removeAll removeAll_filter_not_eq) (rule filter_cong, auto)

lemma lru_abs_filter:
  "lru_ok m \<Longrightarrow> filter (\<lambda>(k', _). k' \<noteq> k) (lru_abs m) =
     map (\<lambda>k'. (k', the (hm_get (lru_entries m) k'))) (remove1 k (lru_order m))"
  by (simp add: lru_abs_def lru_ok_def filter_map comp_def flip: filter_remove1)

lemma lru_get_ok: "lru_ok m \<Longrightarrow> lru_ok (snd (lru_get k m))"
proof -
  assume ok: "lru_ok m"
  have "0 < length (lru_order m)" if "k \<in> set (lru_order m)" using that by (rule length_pos_if_in_set)
  with ok show ?thesis by (auto simp: lru_get_def lru_ok_def length_remove1 split: option.splits)
qed

lemma lru_get_refines:
  assumes "lru_ok m"
  shows "spec_get k (lru_abs m) = (fst (lru_get k m), lru_abs (snd (lru_get k m)))"
proof (cases "hm_get (lru_entries m) k")
  case None
  then show ?thesis by (simp add: spec_get_def lru_get_def lru_abs_lookup [OF assms])
next
  case (Some v)
  then have "k \<in> set (lru_order m)" using assms by (auto simp: lru_ok_def)
  with Some show ?thesis
    by (simp add: spec_get_def lru_get_def lru_abs_lookup [OF assms] lru_abs_filter [OF assms])
      (simp add: lru_abs_def)
qed

text \<open>What an insertion leaves: the queue with the key at its end, cut to the capacity, and its entries.\<close>

lemma lru_insert_conv:
  fixes m :: "('k, 'v) lru_map" and k :: 'k and v :: 'v
  assumes "lru_ok m"
  defines "ks \<equiv> remove1 k (lru_order m) @ [k]"
  defines "n \<equiv> length ks - lru_cap m"
  shows "lru_order (lru_insert k v m) = drop n ks"
    and "hm_ok (lru_entries (lru_insert k v m))"
    and "hm_get (lru_entries (lru_insert k v m)) =
      (\<lambda>k'. if k' \<in> set (take n ks) then None else ((hm_get (lru_entries m))(k \<mapsto> v)) k')"
    and "lru_cap (lru_insert k v m) = lru_cap m"
    and "distinct ks" and "set ks = insert k (set (lru_order m))"
proof -
  have ok: "hm_ok (lru_entries m)" "distinct (lru_order m)" "set (lru_order m) = dom (hm_get (lru_entries m))"
    using assms(1) by (auto simp: lru_ok_def)
  have "hm_get (lru_entries m) k = None \<Longrightarrow> lru_order m = remove1 k (lru_order m)"
    using ok(3) by (simp add: remove1_idem domIff)
  then have ins: "lru_insert k v m = m\<lparr>lru_entries := fold hm_remove (take n ks) (hm_insert k v (lru_entries m)),
      lru_order := drop n ks\<rparr>"
    by (auto simp: lru_insert_def Let_def lru_evict_conv ks_def n_def)
  show "distinct ks" "set ks = insert k (set (lru_order m))" using ok(2) by (auto simp: ks_def)
  show "lru_order (lru_insert k v m) = drop n ks" "lru_cap (lru_insert k v m) = lru_cap m" by (simp_all add: ins)
  have ins_ok: "hm_ok (hm_insert k v (lru_entries m))" using ok(1) by (rule hm.insert_invar)
  then show "hm_ok (lru_entries (lru_insert k v m))" by (simp add: ins hm.fold_remove_invar)
  show "hm_get (lru_entries (lru_insert k v m)) =
      (\<lambda>k'. if k' \<in> set (take n ks) then None else ((hm_get (lru_entries m))(k \<mapsto> v)) k')"
    using hm.lookup_fold_remove [OF ins_ok] hm.lookup_insert [OF ok(1)] by (simp add: ins fun_eq_iff)
qed

lemma distinct_drop_not_take: "distinct ks \<Longrightarrow> x \<in> set (drop n ks) \<Longrightarrow> x \<notin> set (take n ks)"
  by (metis append_take_drop_id disjoint_iff distinct_append)

lemma set_drop_distinct: "distinct ks \<Longrightarrow> set (drop n ks) = set ks - set (take n ks)"
proof -
  assume d: "distinct ks"
  have "set ks = set (take n ks) \<union> set (drop n ks)" by (metis append_take_drop_id set_append)
  with distinct_drop_not_take [OF d, of _ n] show ?thesis by auto
qed

lemma lru_insert_ok:
  assumes "lru_ok m"
  shows "lru_ok (lru_insert k v m)"
proof -
  define ks where "ks = remove1 k (lru_order m) @ [k]"
  define n where "n = length ks - lru_cap m"
  note C = lru_insert_conv(1-4) [OF assms, of k v, folded ks_def, folded n_def]
    and D = lru_insert_conv(5,6) [OF assms, of k, folded ks_def]
  have dom: "dom (hm_get (lru_entries (lru_insert k v m))) = set ks - set (take n ks)"
    unfolding C(3) using D(2) assms by (auto simp: lru_ok_def split: if_splits)
  have "length (drop n ks) \<le> lru_cap m" by (simp add: n_def)
  with dom show ?thesis using C D(1) set_drop_distinct [OF D(1), of n] by (simp add: lru_ok_def)
qed

lemma lru_insert_refines:
  assumes "lru_ok m"
  shows "lru_abs (lru_insert k v m) = spec_insert (lru_cap m) k v (lru_abs m)"
proof -
  define ks where "ks = remove1 k (lru_order m) @ [k]"
  define n where "n = length ks - lru_cap m"
  define f where "f = (hm_get (lru_entries m))(k \<mapsto> v)"
  note C = lru_insert_conv(1-4) [OF assms, of k v, folded ks_def, folded n_def f_def]
    and D = lru_insert_conv(5) [OF assms, of k, folded ks_def]
  have k: "k \<notin> set (remove1 k (lru_order m))" using assms by (simp add: lru_ok_def)
  have spec: "filter (\<lambda>(k', _). k' \<noteq> k) (lru_abs m) @ [(k, v)] = map (\<lambda>k'. (k', the (f k'))) ks"
    using k by (auto simp: lru_abs_filter [OF assms] ks_def f_def intro!: map_cong)
  have "lru_abs (lru_insert k v m) = map (\<lambda>k'. (k', the (f k'))) (drop n ks)"
    unfolding lru_abs_def C(1,3) using distinct_drop_not_take [OF D, of _ n] by (intro map_cong refl) simp
  then show ?thesis unfolding spec_insert_def spec Let_def by (simp add: drop_map n_def)
qed

lemma lru_clear_ok [simp]: "lru_ok (lru_clear m)"
  by (simp add: lru_ok_def lru_clear_def hm_get_fun)

lemma lru_abs_clear [simp]: "lru_abs (lru_clear m) = []"
  by (simp add: lru_abs_def lru_clear_def)

lemma lru_new_ok [simp]: "lru_ok (lru_new c)"
  by (simp add: lru_ok_def lru_new_def hm_get_fun)

lemma lru_insert_get:
  assumes "lru_ok m" and pos: "0 < lru_cap m"
  shows "fst (lru_get k (lru_insert k v m)) = Some v"
proof -
  define ks where "ks = remove1 k (lru_order m) @ [k]"
  define n where "n = length ks - lru_cap m"
  have n: "n < length ks" using pos by (simp add: n_def ks_def)
  then have "k \<in> set (drop n ks)"
    using last_in_set [of "drop n ks"] last_drop [OF n] by (simp add: ks_def)
  then have "k \<notin> set (take n ks)"
    using distinct_drop_not_take [OF lru_insert_conv(5) [OF assms(1), of k, folded ks_def]] by blast
  then show ?thesis
    using lru_insert_conv(3) [OF assms(1), of k v, folded ks_def, folded n_def] by (simp add: lru_get_def)
qed

text \<open>C32. The hash map with its recency queue implements the list of entries in order of use: looking up returns
  the stored value and makes the key the most recent, inserting makes the key the most recent and drops the
  least recent entries above the capacity, and the two structures never drift apart.\<close>

theorem lru_refines:
  assumes "lru_ok m"
  shows "spec_get k (lru_abs m) = (fst (lru_get k m), lru_abs (snd (lru_get k m)))
    \<and> lru_abs (lru_insert k v m) = spec_insert (lru_cap m) k v (lru_abs m)
    \<and> lru_ok (snd (lru_get k m)) \<and> lru_ok (lru_insert k v m) \<and> lru_ok (lru_clear m)
    \<and> length (lru_abs (lru_insert k v m)) \<le> lru_cap m
    \<and> (0 < lru_cap m \<longrightarrow> fst (lru_get k (lru_insert k v m)) = Some v)"
proof -
  have cap: "length (lru_abs (lru_insert k v m)) \<le> lru_cap m"
    using lru_insert_ok [OF assms, of k v] lru_insert_conv(4) [OF assms] by (simp add: lru_ok_def lru_abs_def)
  show ?thesis
    using assms cap by (simp add: lru_get_refines lru_insert_refines lru_get_ok lru_insert_ok lru_insert_get)
qed

theorem lru_refines_witness: "lru_abs (lru_insert (1::nat) ''a'' (lru_new 2)) = [(1, ''a'')]"
  using lru_refines [OF lru_new_ok, of "1::nat" 2 "''a''"]
  by (simp add: spec_insert_def lru_abs_def lru_new_def)

end
