(* ===== verification/Chain_Hub.thy ===== *)
theory Chain_Hub
  imports Chain Lru Pools
begin

text \<open>
  The shared upstream connection, \<open>src/chain/hub.rs\<close>: connection generations, the tip, info and transaction
  caches, the counters, and the mempool fan-out.  An upstream call's result is an argument of the operation
  that makes it; a monotonic clock reading is an integer number of milliseconds.  Counters and generations
  are natural numbers: a 64-bit counter does not wrap in the life of a process.
\<close>

definition TIP_TTL :: int where "TIP_TTL = 750"
definition TX_CACHE_ENTRIES :: nat where "TX_CACHE_ENTRIES = 2048"
definition MEMPOOL_REPLAY_TXS :: nat where "MEMPOOL_REPLAY_TXS = 4096"
definition MEMPOOL_CHANNEL_CAP :: nat where "MEMPOOL_CHANNEL_CAP = 4096"

section \<open>The mempool fan-out\<close>

datatype 'raw mempool_item = MpTx 'raw | MpClosed

text \<open>
  One subscription: the items sent on its channel so far, the replay buffer and the closed flag, which the
  pump task and the hub share.
\<close>

record 'raw fan_out =
  fo_sent :: "'raw mempool_item list"
  fo_replay :: "'raw list"
  fo_closed :: bool

text \<open>The hub's side: \<open>mh_tx\<close> is present while the hub holds the sender.\<close>

record 'raw mempool_hub =
  mh_generation :: nat
  mh_tx :: "'raw fan_out option"

text \<open>A subscriber: where its receiver starts on the channel, and what it replays first.\<close>

record 'raw hub_stream =
  hs_cursor :: nat
  hs_replay :: "'raw list"
  hs_done :: bool

definition fan_new :: "'raw fan_out" where
  "fan_new = \<lparr>fo_sent = [], fo_replay = [], fo_closed = False\<rparr>"

definition mempool_subscribe :: "'raw mempool_hub \<Rightarrow> 'raw hub_stream option" where
  "mempool_subscribe h =
     (case mh_tx h of
        None \<Rightarrow> None
      | Some fo \<Rightarrow>
          if fo_closed fo then None
          else Some \<lparr>hs_cursor = length (fo_sent fo), hs_replay = fo_replay fo, hs_done = False\<rparr>)"

definition mempool_start :: "'raw mempool_hub \<Rightarrow> 'raw hub_stream \<times> 'raw mempool_hub" where
  "mempool_start h =
     (\<lparr>hs_cursor = 0, hs_replay = [], hs_done = False\<rparr>, h\<lparr>mh_tx := Some fan_new\<rparr>)"

text \<open>The subscription's final state is what its subscribers still read after the hub dropped it.\<close>

definition fan_shutdown :: "'raw fan_out \<Rightarrow> 'raw fan_out" where
  "fan_shutdown fo = fo\<lparr>fo_sent := fo_sent fo @ [MpClosed], fo_closed := True\<rparr>"

definition mempool_shutdown :: "'raw mempool_hub \<Rightarrow> 'raw fan_out option \<times> 'raw mempool_hub" where
  "mempool_shutdown h = (map_option fan_shutdown (mh_tx h), h\<lparr>mh_tx := None\<rparr>)"

text \<open>The pump's two actions on a transaction, and its reaction to the end of the stream or an error.\<close>

definition pump_push :: "'raw \<Rightarrow> 'raw fan_out \<Rightarrow> 'raw fan_out" where
  "pump_push raw fo =
     (if length (fo_replay fo) < MEMPOOL_REPLAY_TXS then fo\<lparr>fo_replay := fo_replay fo @ [raw]\<rparr> else fo)"

definition pump_send :: "'raw \<Rightarrow> 'raw fan_out \<Rightarrow> 'raw fan_out" where
  "pump_send raw fo = fo\<lparr>fo_sent := fo_sent fo @ [MpTx raw]\<rparr>"

definition pump_close :: "'raw fan_out \<Rightarrow> 'raw fan_out" where
  "pump_close fo = fo\<lparr>fo_closed := True, fo_sent := fo_sent fo @ [MpClosed]\<rparr>"

text \<open>What \<open>rx.recv()\<close> returns: an item, a lag notice, or that the sender is gone.\<close>

datatype 'raw recv_result = RecvItem "'raw mempool_item" | RecvLagged nat | RecvClosed

text \<open>
  \<open>HubMempoolStream::message\<close> on the results its receiver will return; \<open>None\<close> is a call that waits for more.
\<close>

fun recv_loop :: "'raw recv_result list \<Rightarrow> 'raw hub_stream \<Rightarrow> ('raw option \<times> 'raw recv_result list \<times> 'raw hub_stream) option" where
  "recv_loop [] st = None"
| "recv_loop (r # rs) st =
     (case r of
        RecvItem (MpTx raw) \<Rightarrow> Some (Some raw, rs, st)
      | RecvItem MpClosed \<Rightarrow> Some (None, rs, st\<lparr>hs_done := True\<rparr>)
      | RecvLagged n \<Rightarrow> recv_loop rs st
      | RecvClosed \<Rightarrow> Some (None, rs, st\<lparr>hs_done := True\<rparr>))"

definition hub_stream_message ::
  "'raw recv_result list \<Rightarrow> 'raw hub_stream \<Rightarrow> ('raw option \<times> 'raw recv_result list \<times> 'raw hub_stream) option" where
  "hub_stream_message rs st =
     (case hs_replay st of
        raw # rest \<Rightarrow> Some (Some raw, rs, st\<lparr>hs_replay := rest\<rparr>)
      | [] \<Rightarrow> if hs_done st then Some (None, rs, st) else recv_loop rs st)"

section \<open>The hub\<close>

record hub_stats =
  connects :: nat
  tip_fetches :: nat
  server_info_fetches :: nat
  subtree_root_fetches :: nat
  tx_fetches :: nat
  tx_cache_hits :: nat
  mempool_subscriptions :: nat

record ('src, 'txid, 'raw) chain_hub =
  conn_source :: "'src option"
  conn_generation :: nat
  tip_cached :: "(chain_tip \<times> int) option"
  tip_generation :: nat
  info_generation :: nat
  info_server :: "server_info option"
  info_roots :: "(nat, subtree_root_info list) hash_map"
  hub_txs :: "('txid, fetched_tx) lru_map"
  hub_mempool :: "'raw mempool_hub"
  hub_counts :: hub_stats

definition stats_zero :: hub_stats where
  "stats_zero = \<lparr>connects = 0, tip_fetches = 0, server_info_fetches = 0, subtree_root_fetches = 0,
     tx_fetches = 0, tx_cache_hits = 0, mempool_subscriptions = 0\<rparr>"

definition hub_new :: "('src, 'txid, 'raw) chain_hub" where
  "hub_new = \<lparr>conn_source = None, conn_generation = 0, tip_cached = None, tip_generation = 0,
     info_generation = 0, info_server = None, info_roots = [], hub_txs = lru_new TX_CACHE_ENTRIES,
     hub_mempool = \<lparr>mh_generation = 0, mh_tx = None\<rparr>, hub_counts = stats_zero\<rparr>"

text \<open>A consumer's handle: the generation it was issued for and its clone of the connection.\<close>

record 'src hub_source =
  hsrc_generation :: nat
  hsrc_inner :: 'src

definition hub_acquire ::
  "'e + 'src \<Rightarrow> ('src, 'txid, 'raw) chain_hub \<Rightarrow> ('e + 'src hub_source) \<times> ('src, 'txid, 'raw) chain_hub" where
  "hub_acquire dial h =
     (case conn_source h of
        Some s \<Rightarrow> (Inr \<lparr>hsrc_generation = conn_generation h, hsrc_inner = s\<rparr>, h)
      | None \<Rightarrow>
          (case dial of
             Inl e \<Rightarrow> (Inl e, h)
           | Inr s \<Rightarrow>
               (let g = conn_generation h + 1
                in (Inr \<lparr>hsrc_generation = g, hsrc_inner = s\<rparr>,
                    h\<lparr>conn_generation := g, conn_source := Some s,
                      hub_counts := (hub_counts h)\<lparr>connects := connects (hub_counts h) + 1\<rparr>\<rparr>))))"

definition hub_invalidate :: "nat \<Rightarrow> ('src, 'txid, 'raw) chain_hub \<Rightarrow> ('src, 'txid, 'raw) chain_hub" where
  "hub_invalidate generation h =
     (if conn_generation h \<noteq> generation \<or> conn_source h = None then h
      else let h = h\<lparr>conn_source := None\<rparr>;
               h = (if mh_generation (hub_mempool h) = generation
                    then h\<lparr>hub_mempool := snd (mempool_shutdown (hub_mempool h))\<rparr> else h)
           in h\<lparr>hub_txs := lru_clear (hub_txs h)\<rparr>)"

definition note_tip :: "chain_tip option \<Rightarrow> chain_tip \<Rightarrow> ('src, 'txid, 'raw) chain_hub \<Rightarrow> ('src, 'txid, 'raw) chain_hub" where
  "note_tip previous current h =
     (let same_tip = (case previous of
            None \<Rightarrow> True
          | Some prev \<Rightarrow> tip_height_of current = tip_height_of prev \<and> tip_hash current = tip_hash prev)
      in if \<not> same_tip then h\<lparr>hub_txs := lru_clear (hub_txs h)\<rparr> else h)"

text \<open>\<open>failed\<close> and \<open>checked\<close>: an error invalidates the handle's generation.\<close>

definition hub_checked ::
  "nat \<Rightarrow> 'e + 'r \<Rightarrow> ('src, 'txid, 'raw) chain_hub \<Rightarrow> ('e + 'r) \<times> ('src, 'txid, 'raw) chain_hub" where
  "hub_checked generation result h =
     (case result of Inl e \<Rightarrow> (Inl e, hub_invalidate generation h) | Inr r \<Rightarrow> (Inr r, h))"

text \<open>The calls of a handle of generation \<open>g\<close>; \<open>up\<close> is the upstream's answer, used when it is asked.\<close>

definition hub_latest_block ::
  "nat \<Rightarrow> int \<Rightarrow> int \<Rightarrow> 'e + chain_tip \<Rightarrow> ('src, 'txid, 'raw) chain_hub \<Rightarrow> ('e + chain_tip) \<times> ('src, 'txid, 'raw) chain_hub" where
  "hub_latest_block g now fetched_at up h =
     (case (if tip_generation h = g
            then (case tip_cached h of
                    Some (tip, at) \<Rightarrow> if now - at < TIP_TTL then Some tip else None
                  | None \<Rightarrow> None)
            else None) of
        Some tip \<Rightarrow> (Inr tip, h)
      | None \<Rightarrow>
          (let previous = map_option fst (tip_cached h);
               h = h\<lparr>hub_counts := (hub_counts h)\<lparr>tip_fetches := tip_fetches (hub_counts h) + 1\<rparr>\<rparr>
           in case up of
                Inl e \<Rightarrow> (Inl e, hub_invalidate g h)
              | Inr tip \<Rightarrow>
                  (let h = note_tip previous tip h
                   in (Inr tip, h\<lparr>tip_generation := g, tip_cached := Some (tip, fetched_at)\<rparr>))))"

definition pool_key :: "shielded_pool \<Rightarrow> nat" where
  "pool_key p = (case p of ShieldedSapling \<Rightarrow> 0 | ShieldedOrchard \<Rightarrow> 1 | ShieldedIronwood \<Rightarrow> 2)"

text \<open>A cache entry of another generation is replaced by an empty one of this handle's.\<close>

definition info_rekey :: "nat \<Rightarrow> ('src, 'txid, 'raw) chain_hub \<Rightarrow> ('src, 'txid, 'raw) chain_hub" where
  "info_rekey g h =
     (if info_generation h = g then h
      else h\<lparr>info_generation := g, info_server := None, info_roots := []\<rparr>)"

definition hub_subtree_roots ::
  "nat \<Rightarrow> shielded_pool \<Rightarrow> 'e + subtree_root_info list \<Rightarrow> ('src, 'txid, 'raw) chain_hub
     \<Rightarrow> ('e + subtree_root_info list) \<times> ('src, 'txid, 'raw) chain_hub" where
  "hub_subtree_roots g protocol up h =
     (let h = info_rekey g h
      in case hm_get (info_roots h) (pool_key protocol) of
           Some roots \<Rightarrow> (Inr roots, h)
         | None \<Rightarrow>
             (let h = h\<lparr>hub_counts := (hub_counts h)\<lparr>subtree_root_fetches := subtree_root_fetches (hub_counts h) + 1\<rparr>\<rparr>
              in case up of
                   Inl e \<Rightarrow> (Inl e, hub_invalidate g h)
                 | Inr roots \<Rightarrow> (Inr roots, h\<lparr>info_roots := hm_insert (pool_key protocol) roots (info_roots h)\<rparr>)))"

definition hub_server_info ::
  "nat \<Rightarrow> 'e + server_info \<Rightarrow> ('src, 'txid, 'raw) chain_hub \<Rightarrow> ('e + server_info) \<times> ('src, 'txid, 'raw) chain_hub" where
  "hub_server_info g up h =
     (let h = info_rekey g h
      in case info_server h of
           Some info \<Rightarrow> (Inr info, h)
         | None \<Rightarrow>
             (let h = h\<lparr>hub_counts := (hub_counts h)\<lparr>server_info_fetches := server_info_fetches (hub_counts h) + 1\<rparr>\<rparr>
              in case up of
                   Inl e \<Rightarrow> (Inl e, hub_invalidate g h)
                 | Inr info \<Rightarrow> (Inr info, h\<lparr>info_server := Some info\<rparr>)))"

definition hub_refresh_server_info ::
  "nat \<Rightarrow> 'e + server_info \<Rightarrow> ('src, 'txid, 'raw) chain_hub \<Rightarrow> ('e + server_info) \<times> ('src, 'txid, 'raw) chain_hub" where
  "hub_refresh_server_info g up h =
     (let h = h\<lparr>hub_counts := (hub_counts h)\<lparr>server_info_fetches := server_info_fetches (hub_counts h) + 1\<rparr>\<rparr>
      in case hub_checked g up h of
           (Inl e, h) \<Rightarrow> (Inl e, h)
         | (Inr info, h) \<Rightarrow> (Inr info, if info_generation h = g then h\<lparr>info_server := Some info\<rparr> else h))"

text \<open>
  \<open>fetch_tx\<close> holds no lock while the upstream answers: the lookup and what follows the answer are two steps.
\<close>

definition fetch_tx_lookup ::
  "'txid \<Rightarrow> ('src, 'txid, 'raw) chain_hub \<Rightarrow> fetched_tx option \<times> ('src, 'txid, 'raw) chain_hub" where
  "fetch_tx_lookup txid h =
     (let (hit, txs) = lru_get txid (hub_txs h); h = h\<lparr>hub_txs := txs\<rparr>
      in case hit of
           Some t \<Rightarrow> (Some t, h\<lparr>hub_counts := (hub_counts h)\<lparr>tx_cache_hits := tx_cache_hits (hub_counts h) + 1\<rparr>\<rparr>)
         | None \<Rightarrow> (None, h\<lparr>hub_counts := (hub_counts h)\<lparr>tx_fetches := tx_fetches (hub_counts h) + 1\<rparr>\<rparr>))"

definition fetch_tx_finish ::
  "nat \<Rightarrow> 'txid \<Rightarrow> 'e + fetched_tx option \<Rightarrow> ('src, 'txid, 'raw) chain_hub
     \<Rightarrow> ('e + fetched_tx option) \<times> ('src, 'txid, 'raw) chain_hub" where
  "fetch_tx_finish g txid up h =
     (case hub_checked g up h of
        (Inl e, h) \<Rightarrow> (Inl e, h)
      | (Inr None, h) \<Rightarrow> (Inr None, h)
      | (Inr (Some t), h) \<Rightarrow> (Inr (Some t), h\<lparr>hub_txs := lru_insert txid t (hub_txs h)\<rparr>))"

definition hub_fetch_tx ::
  "nat \<Rightarrow> 'txid \<Rightarrow> 'e + fetched_tx option \<Rightarrow> ('src, 'txid, 'raw) chain_hub
     \<Rightarrow> ('e + fetched_tx option) \<times> ('src, 'txid, 'raw) chain_hub" where
  "hub_fetch_tx g txid up h =
     (case fetch_tx_lookup txid h of
        (Some t, h) \<Rightarrow> (Inr (Some t), h)
      | (None, h) \<Rightarrow> fetch_tx_finish g txid up h)"

definition hub_subscribe_mempool ::
  "nat \<Rightarrow> 'e + unit \<Rightarrow> ('src, 'txid, 'raw) chain_hub \<Rightarrow> ('e + 'raw hub_stream) \<times> ('src, 'txid, 'raw) chain_hub" where
  "hub_subscribe_mempool g up h =
     (let mp = hub_mempool h;
          mp = (if g > mh_generation mp then (snd (mempool_shutdown mp))\<lparr>mh_generation := g\<rparr> else mp);
          h = h\<lparr>hub_mempool := mp\<rparr>
      in case mempool_subscribe mp of
           Some sub \<Rightarrow> (Inr sub, h)
         | None \<Rightarrow>
             (let h = h\<lparr>hub_counts := (hub_counts h)\<lparr>mempool_subscriptions := mempool_subscriptions (hub_counts h) + 1\<rparr>\<rparr>
              in case up of
                   Inl e \<Rightarrow> (Inl e, hub_invalidate g h)
                 | Inr _ \<Rightarrow> (let (sub, mp) = mempool_start mp in (Inr sub, h\<lparr>hub_mempool := mp\<rparr>))))"

text \<open>The uncached calls.\<close>

definition hub_tree_state :: "nat \<Rightarrow> 'e + 'ts \<Rightarrow> ('src, 'txid, 'raw) chain_hub \<Rightarrow> ('e + 'ts) \<times> ('src, 'txid, 'raw) chain_hub" where
  "hub_tree_state g up h = hub_checked g up h"

definition hub_compact_block_range ::
  "nat \<Rightarrow> 'e + 'stream \<Rightarrow> ('src, 'txid, 'raw) chain_hub \<Rightarrow> ('e + 'stream) \<times> ('src, 'txid, 'raw) chain_hub" where
  "hub_compact_block_range g up h = hub_checked g up h"

definition hub_broadcast_tx ::
  "nat \<Rightarrow> 'e + broadcast_outcome \<Rightarrow> ('src, 'txid, 'raw) chain_hub \<Rightarrow> ('e + broadcast_outcome) \<times> ('src, 'txid, 'raw) chain_hub" where
  "hub_broadcast_tx g up h = hub_checked g up h"

definition hub_transparent_tx_evidence ::
  "nat \<Rightarrow> 'e + 'txid tx_evidence list \<Rightarrow> ('src, 'txid, 'raw) chain_hub
     \<Rightarrow> ('e + 'txid tx_evidence list) \<times> ('src, 'txid, 'raw) chain_hub" where
  "hub_transparent_tx_evidence g up h = hub_checked g up h"

section \<open>All consumers together\<close>

text \<open>
  The hub under any number of consumers: acquisitions, the calls of handles of any generation (each critical
  section a step, the two of \<open>fetch_tx\<close> separate), and the pump changing the live subscription.  The second
  component collects the generations failures were reported against.
\<close>

definition note_failure :: "nat \<Rightarrow> 'e + 'r \<Rightarrow> nat set \<Rightarrow> nat set" where
  "note_failure g res R = (case res of Inl _ \<Rightarrow> insert g R | Inr _ \<Rightarrow> R)"

type_synonym ('src, 'txid, 'raw) hub_system = "('src, 'txid, 'raw) chain_hub \<times> nat set"

inductive hub_step :: "('src, 'txid, 'raw) hub_system \<Rightarrow> ('src, 'txid, 'raw) hub_system \<Rightarrow> bool" where
  step_acquire: "hub_step (h, R) (snd (hub_acquire (dial :: string + 'src) h), R)"
| step_latest: "hub_latest_block g now at up h = (res :: string + chain_tip, h') \<Longrightarrow>
    hub_step (h, R) (h', note_failure g res R)"
| step_roots: "hub_subtree_roots g p up h = (res :: string + subtree_root_info list, h') \<Longrightarrow>
    hub_step (h, R) (h', note_failure g res R)"
| step_info: "hub_server_info g up h = (res :: string + server_info, h') \<Longrightarrow>
    hub_step (h, R) (h', note_failure g res R)"
| step_refresh: "hub_refresh_server_info g up h = (res :: string + server_info, h') \<Longrightarrow>
    hub_step (h, R) (h', note_failure g res R)"
| step_lookup: "hub_step (h, R) (snd (fetch_tx_lookup txid h), R)"
| step_finish: "fetch_tx_finish g txid up h = (res :: string + fetched_tx option, h') \<Longrightarrow>
    hub_step (h, R) (h', note_failure g res R)"
| step_uncached: "hub_checked g up h = (res :: string + unit, h') \<Longrightarrow>
    hub_step (h, R) (h', note_failure g res R)"
| step_subscribe: "hub_subscribe_mempool g up h = (res :: string + 'raw hub_stream, h') \<Longrightarrow>
    hub_step (h, R) (h', note_failure g res R)"
| step_pump: "mh_tx (hub_mempool h) \<noteq> None \<Longrightarrow>
    hub_step (h, R) (h\<lparr>hub_mempool := (hub_mempool h)\<lparr>mh_tx := Some fo\<rparr>\<rparr>, R)"

inductive hub_reachable :: "('src, 'txid, 'raw) hub_system \<Rightarrow> bool" where
  hub_start: "hub_reachable (hub_new, {})"
| hub_more: "hub_reachable s \<Longrightarrow> hub_step s s' \<Longrightarrow> hub_reachable s'"

text \<open>What the connection and the transaction cache keep.\<close>

definition hub_inv :: "('src, 'txid, 'raw) hub_system \<Rightarrow> bool" where
  "hub_inv s \<longleftrightarrow> (case s of (h, R) \<Rightarrow>
     finite R \<and> connects (hub_counts h) = conn_generation h \<and>
     {1..<conn_generation h} \<subseteq> R \<and>
     (conn_source h = None \<and> 0 < conn_generation h \<longrightarrow> conn_generation h \<in> R) \<and>
     lru_ok (hub_txs h) \<and> lru_cap (hub_txs h) = TX_CACHE_ENTRIES)"

text \<open>A step that leaves the connection alone and keeps the cache well formed.\<close>

definition conn_same :: "('src, 'txid, 'raw) chain_hub \<Rightarrow> ('src, 'txid, 'raw) chain_hub \<Rightarrow> bool" where
  "conn_same h h' \<longleftrightarrow> conn_source h' = conn_source h \<and> conn_generation h' = conn_generation h \<and>
     connects (hub_counts h') = connects (hub_counts h) \<and>
     (lru_ok (hub_txs h) \<longrightarrow> lru_ok (hub_txs h')) \<and> lru_cap (hub_txs h') = lru_cap (hub_txs h)"

lemma conn_same_refl [simp]: "conn_same h h"
  by (simp add: conn_same_def)

lemma hub_inv_same: "hub_inv (h, R) \<Longrightarrow> conn_same h h' \<Longrightarrow> hub_inv (h', R)"
  by (auto simp: hub_inv_def conn_same_def)

lemma hub_inv_insert: "hub_inv (h, R) \<Longrightarrow> hub_inv (h, insert g R)"
  by (auto simp: hub_inv_def)

lemma lru_cap_clear [simp]: "lru_cap (lru_clear m) = lru_cap m"
  by (simp add: lru_clear_def)

lemma lru_cap_new [simp]: "lru_cap (lru_new c) = c"
  by (simp add: lru_new_def)

lemma hub_inv_invalidate: "hub_inv (h, R) \<Longrightarrow> hub_inv (hub_invalidate g h, insert g R)"
  by (auto simp: hub_inv_def hub_invalidate_def Let_def)

text \<open>The shape of every call: it changes no connection, then either reports a failure or succeeds.\<close>

definition handled :: "nat \<Rightarrow> ('src, 'txid, 'raw) chain_hub \<Rightarrow> 'e + 'r \<Rightarrow> ('src, 'txid, 'raw) chain_hub \<Rightarrow> bool" where
  "handled g h res h' \<longleftrightarrow> (\<exists>h1. conn_same h h1 \<and>
     (case res of Inl _ \<Rightarrow> h' = hub_invalidate g h1 | Inr _ \<Rightarrow> conn_same h1 h'))"

lemma hub_inv_handled: "hub_inv (h, R) \<Longrightarrow> handled g h res h' \<Longrightarrow> hub_inv (h', note_failure g res R)"
  unfolding handled_def note_failure_def
  by (cases res) (use hub_inv_same hub_inv_invalidate in \<open>simp, blast\<close>)+

lemma conn_same_note_tip: "conn_same h (note_tip p t h)"
  by (auto simp: conn_same_def note_tip_def Let_def)

lemma conn_same_trans: "conn_same h h1 \<Longrightarrow> conn_same h1 h2 \<Longrightarrow> conn_same h h2"
  by (simp add: conn_same_def)

lemma handledI_Inl: "conn_same h h1 \<Longrightarrow> handled g h (Inl e) (hub_invalidate g h1)"
  by (auto simp: handled_def)

lemma handledI_Inr: "conn_same h h' \<Longrightarrow> handled g h (Inr r) h'"
  by (auto simp: handled_def intro: exI [of _ h])

lemma handled_trans: "conn_same h h1 \<Longrightarrow> handled g h1 res h' \<Longrightarrow> handled g h res h'"
  unfolding handled_def using conn_same_trans by blast

lemmas handled_intros = handledI_Inl handledI_Inr

lemma handled_latest: "hub_latest_block g now at up h = (res, h') \<Longrightarrow> handled g h res h'"
  by (auto simp: hub_latest_block_def Let_def note_tip_def conn_same_def
      split: option.splits if_splits sum.splits prod.splits intro!: handled_intros)

lemma conn_same_rekey: "conn_same h (info_rekey g h)"
  by (simp add: info_rekey_def conn_same_def)

lemma handled_roots: "hub_subtree_roots g p up h = (res, h') \<Longrightarrow> handled g h res h'"
  by (rule handled_trans [OF conn_same_rekey [of h g]])
    (auto simp: hub_subtree_roots_def Let_def conn_same_def split: option.splits sum.splits intro!: handled_intros)

lemma handled_info: "hub_server_info g up h = (res, h') \<Longrightarrow> handled g h res h'"
  by (rule handled_trans [OF conn_same_rekey [of h g]])
    (auto simp: hub_server_info_def Let_def conn_same_def split: option.splits sum.splits intro!: handled_intros)

lemma handled_checked: "hub_checked g up h = (res, h') \<Longrightarrow> handled g h res h'"
  by (auto simp: hub_checked_def split: sum.splits intro!: handled_intros)

lemma handled_refresh: "hub_refresh_server_info g up h = (res, h') \<Longrightarrow> handled g h res h'"
  by (auto simp: hub_refresh_server_info_def hub_checked_def Let_def conn_same_def split: sum.splits if_splits
      intro!: handled_intros)

lemma lru_insert_cap: "lru_cap (lru_insert k v m) = lru_cap m"
  by (simp add: lru_insert_def Let_def case_prod_beta)

lemma handled_finish: "fetch_tx_finish g txid up h = (res, h') \<Longrightarrow> handled g h res h'"
  by (auto simp: fetch_tx_finish_def hub_checked_def conn_same_def lru_insert_ok lru_insert_cap
      split: sum.splits option.splits intro!: handled_intros)

lemma lru_get_cap: "lru_cap (snd (lru_get k m)) = lru_cap m"
  by (simp add: lru_get_def split: option.splits)

lemma conn_same_lookup: "conn_same h (snd (fetch_tx_lookup txid h))"
  using lru_get_ok [of "hub_txs h" txid] lru_get_cap [of txid "hub_txs h"]
  by (auto simp: fetch_tx_lookup_def Let_def conn_same_def split: prod.splits option.splits)

lemma handled_subscribe: "hub_subscribe_mempool g up h = (res, h') \<Longrightarrow> handled g h res h'"
  by (auto simp: hub_subscribe_mempool_def Let_def mempool_start_def conn_same_def split: option.splits sum.splits if_splits
      intro!: handled_intros)

lemma hub_inv_acquire: "hub_inv (h, R) \<Longrightarrow> hub_inv (snd (hub_acquire dial h), R)"
  by (auto simp: hub_inv_def hub_acquire_def Let_def less_Suc_eq subset_iff split: option.splits sum.splits)

lemma hub_step_inv: "hub_step s s' \<Longrightarrow> hub_inv s \<Longrightarrow> hub_inv s'"
proof (induction rule: hub_step.induct)
  case (step_pump h R fo)
  then show ?case by (auto simp: hub_inv_def)
qed (auto intro: hub_inv_acquire hub_inv_handled handled_latest handled_roots handled_info handled_refresh
    handled_finish handled_checked handled_subscribe hub_inv_same conn_same_lookup)

lemma hub_reachable_inv: "hub_reachable s \<Longrightarrow> hub_inv s"
proof (induction rule: hub_reachable.induct)
  case hub_start
  show ?case by (simp add: hub_inv_def hub_new_def stats_zero_def)
next
  case (hub_more s s')
  then show ?case by (blast intro: hub_step_inv)
qed

section \<open>Properties\<close>

text \<open>However many consumers share the hub and however their calls interleave, the upstream is dialled at
  most once more than there are connection generations that some consumer reported as failed, each dial starts
  exactly one generation, and the transaction cache never exceeds its bound.\<close>

theorem dials_bounded:
  assumes "hub_reachable (h, R)"
  shows "connects (hub_counts h) \<le> Suc (card R) \<and> connects (hub_counts h) = conn_generation h \<and>
    length (lru_abs (hub_txs h)) \<le> TX_CACHE_ENTRIES"
proof -
  from hub_reachable_inv [OF assms] have inv: "finite R" "connects (hub_counts h) = conn_generation h"
    "{1..<conn_generation h} \<subseteq> R" "lru_ok (hub_txs h)" "lru_cap (hub_txs h) = TX_CACHE_ENTRIES"
    by (auto simp: hub_inv_def)
  have "card {1..<conn_generation h} \<le> card R" using inv(1,3) by (rule card_mono)
  with inv show ?thesis by (simp add: lru_ok_def lru_abs_def)
qed

theorem dials_bounded_witness:
  "connects (hub_counts (snd (hub_acquire (Inr () :: string + unit) (hub_new :: (unit, nat, nat) chain_hub)))) \<le> 1"
  using dials_bounded [OF hub_more [OF hub_start step_acquire [of "hub_new :: (unit, nat, nat) chain_hub" "{}" "Inr ()"]]]
  by simp

lemma hub_invalidate_caches:
  "tip_cached (hub_invalidate g h) = tip_cached h" "tip_generation (hub_invalidate g h) = tip_generation h"
  by (simp_all add: hub_invalidate_def Let_def)

lemma note_tip_fields [simp]:
  "tip_cached (note_tip p t h) = tip_cached h" "hub_counts (note_tip p t h) = hub_counts h"
  by (simp_all add: note_tip_def Let_def)

text \<open>The tip is asked for at most once per freshness window and generation: once a call has asked the upstream
  and been answered, every call of a handle of that generation within the window returns that answer without
  asking, whatever the upstream would now say; and an answer that differs from the tip seen before empties the
  transaction cache.\<close>

theorem latest_block_coalesces:
  assumes "hub_latest_block g now at (Inr tip :: 'e + chain_tip) h = (Inr tip', h')" "tip_fetches (hub_counts h') \<noteq> tip_fetches (hub_counts h)"
  shows "tip' = tip
    \<and> (\<forall>now2 at2 (up2 :: 'e + chain_tip). now2 - at < TIP_TTL \<longrightarrow> hub_latest_block g now2 at2 up2 h' = (Inr tip, h'))
    \<and> (\<forall>prev t0. tip_cached h = Some (prev, t0) \<and> prev \<noteq> tip \<longrightarrow> lru_abs (hub_txs h') = [])"
proof -
  let ?h1 = "h\<lparr>hub_counts := (hub_counts h)\<lparr>tip_fetches := tip_fetches (hub_counts h) + 1\<rparr>\<rparr>"
  have h': "tip' = tip" "h' = (note_tip (map_option fst (tip_cached h)) tip ?h1)\<lparr>tip_generation := g, tip_cached := Some (tip, at)\<rparr>"
    using assms by (auto simp: hub_latest_block_def Let_def split: option.splits if_splits prod.splits)
  have "hub_latest_block g now2 at2 up2 h' = (Inr tip, h')" if "now2 - at < TIP_TTL"
    for now2 at2 and up2 :: "'e + chain_tip"
    using that by (simp add: h' hub_latest_block_def)
  moreover have "lru_abs (hub_txs h') = []" if "tip_cached h = Some (prev, t0)" "prev \<noteq> tip" for prev t0
  proof -
    have "tip_height_of tip \<noteq> tip_height_of prev \<or> tip_hash tip \<noteq> tip_hash prev" using that(2) by (auto intro: chain_tip.equality)
    then show ?thesis using that(1) by (simp add: h' note_tip_def)
  qed
  ultimately show ?thesis using h'(1) by blast
qed

theorem latest_block_coalesces_witness:
  "\<exists>h'. hub_latest_block 1 1 1 (Inr \<lparr>tip_height_of = 7, tip_hash = []\<rparr> :: string + chain_tip)
      (hub_new :: (unit, nat, nat) chain_hub) = (Inr \<lparr>tip_height_of = 7, tip_hash = []\<rparr>, h') \<and>
    hub_latest_block 1 700 700 (Inl ''down'') h' = (Inr \<lparr>tip_height_of = 7, tip_hash = []\<rparr>, h')"
proof -
  let ?t = "\<lparr>tip_height_of = 7, tip_hash = []\<rparr>" and ?h = "hub_new :: (unit, nat, nat) chain_hub"
  obtain r h' where h': "hub_latest_block 1 1 1 (Inr ?t :: string + chain_tip) ?h = (r, h')" by fastforce
  then have r: "r = Inr ?t" "tip_fetches (hub_counts h') \<noteq> tip_fetches (hub_counts ?h)"
    by (auto simp: hub_latest_block_def hub_new_def note_tip_def Let_def)
  have "hub_latest_block 1 700 700 (Inl ''down'' :: string + chain_tip) h' = (Inr ?t, h')"
    using latest_block_coalesces [OF h' [unfolded r(1)] r(2)] by (simp add: TIP_TTL_def)
  with h' r(1) show ?thesis by blast
qed

text \<open>
  A fetch in flight while the tip changes: the answer obtained before the change is put into the cache that the
  change emptied, and is then served to every consumer on the new tip, whatever the upstream would say.
\<close>

theorem late_answer_survives_tip_change:
  assumes "lru_ok (hub_txs h)" "0 < lru_cap (hub_txs h)"
    and asked_def: "asked = snd (fetch_tx_lookup txid h)"
    and moved_def: "moved = snd (hub_latest_block g now at (Inr tip) asked)"
    and answered_def: "answered = snd (fetch_tx_finish g' txid (Inr (Some old)) moved)"
  shows "fst (hub_fetch_tx g'' txid up answered) = Inr (Some old)"
proof -
  have "conn_same h asked" unfolding asked_def by (rule conn_same_lookup)
  moreover have "conn_same asked moved"
    by (auto simp: moved_def hub_latest_block_def Let_def conn_same_def note_tip_def
        split: option.splits if_splits prod.splits)
  ultimately have ok: "lru_ok (hub_txs moved)" "0 < lru_cap (hub_txs moved)"
    using assms(1,2) by (auto simp: conn_same_def)
  have "hub_txs answered = lru_insert txid old (hub_txs moved)"
    by (simp add: answered_def fetch_tx_finish_def hub_checked_def)
  moreover have "fst (lru_get txid (lru_insert txid old (hub_txs moved))) = Some old"
    using lru_insert_get [OF ok] .
  ultimately show ?thesis
    by (auto simp: hub_fetch_tx_def fetch_tx_lookup_def Let_def split: prod.splits)
qed

section \<open>The fan-out loses nothing\<close>

text \<open>
  One subscription with its pump and its subscribers.  The pump pushes a transaction to the replay buffer and
  then sends it, without the hub's lock; a subscriber takes its receiver and then its snapshot of the buffer.
  Every interleaving of these four actions is allowed.
\<close>

record 'raw fan_system =
  fs_fan :: "'raw fan_out"
  fs_seen :: "'raw list"
  fs_pending :: "'raw option"
  fs_subs :: "(nat \<times> 'raw list option) list"

inductive fan_reachable :: "'raw fan_system \<Rightarrow> bool" where
  fan_init: "fan_reachable \<lparr>fs_fan = fan_new, fs_seen = [], fs_pending = None, fs_subs = [(0, Some [])]\<rparr>"
| fan_push: "fan_reachable s \<Longrightarrow> fs_pending s = None \<Longrightarrow> \<not> fo_closed (fs_fan s) \<Longrightarrow>
    fan_reachable (s\<lparr>fs_fan := pump_push raw (fs_fan s), fs_seen := fs_seen s @ [raw], fs_pending := Some raw\<rparr>)"
| fan_send: "fan_reachable s \<Longrightarrow> fs_pending s = Some raw \<Longrightarrow>
    fan_reachable (s\<lparr>fs_fan := pump_send raw (fs_fan s), fs_pending := None\<rparr>)"
| fan_close: "fan_reachable s \<Longrightarrow> fs_pending s = None \<Longrightarrow> \<not> fo_closed (fs_fan s) \<Longrightarrow>
    fan_reachable (s\<lparr>fs_fan := pump_close (fs_fan s)\<rparr>)"
| fan_stop: "fan_reachable s \<Longrightarrow> fan_reachable (s\<lparr>fs_fan := fan_shutdown (fs_fan s)\<rparr>)"
| fan_attach: "fan_reachable s \<Longrightarrow> \<not> fo_closed (fs_fan s) \<Longrightarrow>
    fan_reachable (s\<lparr>fs_subs := fs_subs s @ [(length (fo_sent (fs_fan s)), None)]\<rparr>)"
| fan_snapshot: "fan_reachable s \<Longrightarrow> i < length (fs_subs s) \<Longrightarrow> fs_subs s ! i = (c, None) \<Longrightarrow>
    fan_reachable (s\<lparr>fs_subs := (fs_subs s)[i := (c, Some (fo_replay (fs_fan s)))]\<rparr>)"

text \<open>What a subscriber of cursor \<open>c\<close> and buffer \<open>r\<close> still gets of \<open>raw\<close>.\<close>

definition covers :: "'raw fan_system \<Rightarrow> nat \<Rightarrow> 'raw list \<Rightarrow> 'raw \<Rightarrow> bool" where
  "covers s c r raw \<longleftrightarrow> raw \<in> set r \<or> MpTx raw \<in> set (drop c (fo_sent (fs_fan s))) \<or> fs_pending s = Some raw"

definition fan_inv :: "'raw fan_system \<Rightarrow> bool" where
  "fan_inv s \<longleftrightarrow>
     (length (fs_seen s) \<le> MEMPOOL_REPLAY_TXS \<longrightarrow> fo_replay (fs_fan s) = fs_seen s) \<and>
     length (fo_replay (fs_fan s)) \<le> length (fs_seen s) \<and>
     (\<not> fo_closed (fs_fan s) \<longrightarrow> MpClosed \<notin> set (fo_sent (fs_fan s))) \<and>
     (\<forall>(c, r) \<in> set (fs_subs s). c \<le> length (fo_sent (fs_fan s))) \<and>
     (length (fs_seen s) \<le> MEMPOOL_REPLAY_TXS \<longrightarrow>
        (\<forall>(c, r) \<in> set (fs_subs s). \<forall>raw \<in> set (fs_seen s). \<forall>l. r = Some l \<longrightarrow> covers s c l raw))"

lemma fan_reachable_inv: "fan_reachable s \<Longrightarrow> fan_inv s"
proof (induction rule: fan_reachable.induct)
  case fan_init
  show ?case by (simp add: fan_inv_def fan_new_def)
next
  case (fan_push s raw)
  then show ?case by (fastforce simp: fan_inv_def pump_push_def covers_def)
next
  case (fan_send s raw)
  then show ?case by (fastforce simp: fan_inv_def pump_send_def covers_def)
next
  case (fan_close s)
  then show ?case by (fastforce simp: fan_inv_def pump_close_def covers_def)
next
  case (fan_stop s)
  then show ?case by (fastforce simp: fan_inv_def fan_shutdown_def covers_def)
next
  case (fan_attach s)
  then show ?case by (fastforce simp: fan_inv_def covers_def)
next
  case (fan_snapshot s i c)
  let ?new = "(c, Some (fo_replay (fs_fan s)))"
  have sub: "set ((fs_subs s)[i := ?new]) \<subseteq> insert ?new (set (fs_subs s))" by (rule set_update_subset_insert)
  have c: "(c, None) \<in> set (fs_subs s)" using fan_snapshot.hyps(2,3) by (metis nth_mem)
  have "c \<le> length (fo_sent (fs_fan s))" using fan_snapshot.IH c by (auto simp: fan_inv_def)
  moreover have "covers s c (fo_replay (fs_fan s)) raw" if "raw \<in> set (fs_seen s)" "length (fs_seen s) \<le> MEMPOOL_REPLAY_TXS" for raw
    using that fan_snapshot.IH by (simp add: fan_inv_def covers_def)
  ultimately show ?case using fan_snapshot.IH sub by (fastforce simp: fan_inv_def covers_def)
qed

text \<open>What a consumer reads by calling \<open>message\<close> repeatedly, up to \<open>n\<close> times.\<close>

fun read_all :: "nat \<Rightarrow> 'raw recv_result list \<Rightarrow> 'raw hub_stream \<Rightarrow> 'raw list" where
  "read_all 0 rs st = []"
| "read_all (Suc n) rs st =
     (case hub_stream_message rs st of
        Some (Some raw, rs', st') \<Rightarrow> raw # read_all n rs' st'
      | _ \<Rightarrow> [])"

lemma read_all_live:
  "hs_replay st = [] \<Longrightarrow> \<not> hs_done st \<Longrightarrow> read_all (length raws) (map (\<lambda>x. RecvItem (MpTx x)) raws) st = raws"
  by (induction raws) (simp_all add: hub_stream_message_def)

lemma read_all_replay:
  "\<not> hs_done st \<Longrightarrow>
     read_all (length (hs_replay st) + length raws) (map (\<lambda>x. RecvItem (MpTx x)) raws) st = hs_replay st @ raws"
proof (induction "hs_replay st" arbitrary: st)
  case Nil
  then show ?case by (simp add: read_all_live flip: Nil(1))
next
  case (Cons raw rest)
  from Cons.hyps(1) [of "st\<lparr>hs_replay := rest\<rparr>"] Cons.prems Cons.hyps(2) [symmetric] show ?case
    by (simp add: hub_stream_message_def)
qed

lemma no_close_items: "MpClosed \<notin> set xs \<Longrightarrow> \<exists>raws. xs = map MpTx raws"
proof (induction xs)
  case (Cons x xs)
  then obtain raws where "xs = map MpTx raws" by auto
  moreover obtain raw where "x = MpTx raw" using Cons.prems by (cases x) auto
  ultimately show ?case by (auto intro: exI [of _ "raw # raws"])
qed simp


text \<open>A subscriber that takes its receiver between the pump's two actions on a transaction.\<close>

lemma late_subscriber_reachable:
  "fan_reachable \<lparr>fs_fan = \<lparr>fo_sent = [MpTx (5::nat)], fo_replay = [5], fo_closed = False\<rparr>, fs_seen = [5],
     fs_pending = None, fs_subs = [(0, Some []), (0, Some [5])]\<rparr>"
  using fan_snapshot [OF fan_send [OF fan_attach [OF fan_push [OF fan_init, of "5::nat"]]], of 5 1 0]
  by (simp add: pump_push_def pump_send_def fan_new_def MEMPOOL_REPLAY_TXS_def)


end
