(* ===== verification/Mem_Cache.thy ===== *)
theory Mem_Cache
  imports Zecd_Prelude
begin

text \<open>
  The in-memory block cache of \<open>src/sync/memcache.rs\<close>: one downloaded batch, its encoded blocks beside their
  heights.  Heights are natural numbers here; a push that breaks the ascending order panics, which is \<open>None\<close>.
\<close>

record 'enc mem_cache =
  mc_blocks :: "'enc list"
  mc_heights :: "nat list"

definition mem_new :: "'enc mem_cache" where
  "mem_new = \<lparr>mc_blocks = [], mc_heights = []\<rparr>"

definition mem_push :: "nat \<Rightarrow> 'enc \<Rightarrow> 'enc mem_cache \<Rightarrow> 'enc mem_cache option" where
  "mem_push height encoded c =
     (if mc_heights c \<noteq> [] \<and> \<not> height > last (mc_heights c) then None
      else Some \<lparr>mc_blocks = mc_blocks c @ [encoded], mc_heights = mc_heights c @ [height]\<rparr>)"

definition mem_len :: "'enc mem_cache \<Rightarrow> nat" where
  "mem_len c = length (mc_blocks c)"

definition mem_is_empty :: "'enc mem_cache \<Rightarrow> bool" where
  "mem_is_empty c \<longleftrightarrow> mc_blocks c = []"

definition mem_last_height :: "'enc mem_cache \<Rightarrow> nat option" where
  "mem_last_height c = (if mc_heights c = [] then None else Some (last (mc_heights c)))"

definition mem_byte_len :: "('enc \<Rightarrow> nat) \<Rightarrow> 'enc mem_cache \<Rightarrow> nat" where
  "mem_byte_len blen c = sum_list (map blen (mc_blocks c))"

text \<open>\<open>partition_point\<close> of a list whose elements satisfying the predicate come first.\<close>

definition partition_point :: "('a \<Rightarrow> bool) \<Rightarrow> 'a list \<Rightarrow> nat" where
  "partition_point P xs = length (takeWhile P xs)"

definition mem_served :: "nat option \<Rightarrow> nat option \<Rightarrow> 'enc mem_cache \<Rightarrow> 'enc list" where
  "mem_served from_height limit c =
     (let from = (case from_height of None \<Rightarrow> 0 | Some h \<Rightarrow> h);
          start = partition_point (\<lambda>h. h < from) (mc_heights c);
          served = drop start (mc_blocks c)
      in case limit of Some l \<Rightarrow> take l served | None \<Rightarrow> served)"

text \<open>The callback is run on each served block in turn and the first error stops the walk; the callback's
  state is threaded through, and decoding is the parameter.\<close>

fun walk_blocks :: "('enc \<Rightarrow> 'b) \<Rightarrow> ('b \<Rightarrow> 's \<Rightarrow> ('e + 's)) \<Rightarrow> 'enc list \<Rightarrow> 's \<Rightarrow> 'e + 's" where
  "walk_blocks decode f [] s = Inr s"
| "walk_blocks decode f (e # es) s =
     (case f (decode e) s of Inl err \<Rightarrow> Inl err | Inr s' \<Rightarrow> walk_blocks decode f es s')"

definition mem_with_blocks ::
  "('enc \<Rightarrow> 'b) \<Rightarrow> nat option \<Rightarrow> nat option \<Rightarrow> ('b \<Rightarrow> 's \<Rightarrow> ('e + 's)) \<Rightarrow> 'enc mem_cache \<Rightarrow> 's \<Rightarrow> 'e + 's" where
  "mem_with_blocks decode from_height limit f c s = walk_blocks decode f (mem_served from_height limit c) s"

section \<open>Invariant\<close>

definition mem_ok :: "'enc mem_cache \<Rightarrow> bool" where
  "mem_ok c \<longleftrightarrow> length (mc_blocks c) = length (mc_heights c) \<and> sorted_wrt (<) (mc_heights c)"

lemma mem_new_ok [simp]: "mem_ok mem_new"
  by (simp add: mem_ok_def mem_new_def)

lemma sorted_wrt_snoc_last:
  "sorted_wrt (<) (hs :: nat list) \<Longrightarrow> (hs \<noteq> [] \<Longrightarrow> last hs < h) \<Longrightarrow> sorted_wrt (<) (hs @ [h])"
proof (induction hs)
  case (Cons x hs)
  then show ?case by (cases hs) auto
qed simp

lemma mem_push_ok: "mem_ok c \<Longrightarrow> mem_push h e c = Some c' \<Longrightarrow> mem_ok c'"
  by (auto simp: mem_ok_def mem_push_def intro!: sorted_wrt_snoc_last split: if_splits)

lemma mem_push_Some_iff:
  "mem_push h e c = Some c' \<longleftrightarrow>
     (mc_heights c = [] \<or> last (mc_heights c) < h) \<and>
     c' = \<lparr>mc_blocks = mc_blocks c @ [e], mc_heights = mc_heights c @ [h]\<rparr>"
  by (auto simp: mem_push_def)

lemma drop_takeWhile_sorted:
  "sorted_wrt (<) (hs :: nat list) \<Longrightarrow> length bs = length hs \<Longrightarrow>
     zip (drop (length (takeWhile (\<lambda>h. h < n) hs)) hs) (drop (length (takeWhile (\<lambda>h. h < n) hs)) bs) =
     filter (\<lambda>(h, b). n \<le> h) (zip hs bs)"
proof (induction hs arbitrary: bs)
  case (Cons h hs)
  obtain b bs' where bs: "bs = b # bs'" using Cons.prems by (cases bs) auto
  show ?case
  proof (cases "h < n")
    case True
    then show ?thesis using Cons bs by simp
  next
    case False
    then have "\<forall>x \<in> set hs. n \<le> x" using Cons.prems(1) by fastforce
    then have "filter (\<lambda>(h, b). n \<le> h) (zip hs bs') = zip hs bs'"
      by (auto simp: filter_id_conv dest: set_zip_leftD)
    with False bs show ?thesis by simp
  qed
qed simp

text \<open>The scan is served exactly the cached blocks at or above the starting height, in ascending order and at
  most as many as asked for; a block pushed out of order is refused.\<close>

theorem mem_served_exact:
  assumes "mem_ok c"
  shows "mem_served from_height limit c =
      (case limit of None \<Rightarrow> id | Some l \<Rightarrow> take l)
        (map snd (filter (\<lambda>(h, b). (case from_height of None \<Rightarrow> 0 | Some f \<Rightarrow> f) \<le> h) (zip (mc_heights c) (mc_blocks c))))
    \<and> sorted_wrt (<) (mc_heights c)
    \<and> (mem_push h e c = None \<longleftrightarrow> (\<exists>l. mem_last_height c = Some l \<and> h \<le> l))"
proof -
  let ?f = "case from_height of None \<Rightarrow> 0 | Some f \<Rightarrow> f"
  let ?n = "length (takeWhile (\<lambda>h. h < ?f) (mc_heights c))"
  have len: "length (mc_blocks c) = length (mc_heights c)" and srt: "sorted_wrt (<) (mc_heights c)"
    using assms by (auto simp: mem_ok_def)
  have "map snd (zip (drop ?n (mc_heights c)) (drop ?n (mc_blocks c))) = drop ?n (mc_blocks c)"
    using len by simp
  then have "drop ?n (mc_blocks c) = map snd (filter (\<lambda>(h, b). ?f \<le> h) (zip (mc_heights c) (mc_blocks c)))"
    using drop_takeWhile_sorted [OF srt len, of ?f] by simp
  then have "mem_served from_height limit c = (case limit of None \<Rightarrow> id | Some l \<Rightarrow> take l)
        (map snd (filter (\<lambda>(h, b). ?f \<le> h) (zip (mc_heights c) (mc_blocks c))))"
    by (cases limit) (simp_all add: mem_served_def partition_point_def)
  with srt show ?thesis by (auto simp: mem_push_def mem_last_height_def)
qed

theorem mem_served_exact_witness:
  "mem_served (Some 5) (Some 1) \<lparr>mc_blocks = [''a'', ''b'', ''c''], mc_heights = [4, 5, 9]\<rparr> = [''b'']"
  using mem_served_exact [of "\<lparr>mc_blocks = [''a'', ''b'', ''c''], mc_heights = [4, 5, 9]\<rparr>" "Some 5" "Some 1"]
  by (simp add: mem_ok_def)

end
