(* ===== verification/Download.thy ===== *)
theory Download
  imports Mem_Cache Chain
begin

text \<open>
  Downloading a scan range, \<open>src/sync/engine.rs\<close>: the transparent matching of each block, one streaming
  attempt, and the loop that resumes after a client-side load shed.  What the upstream streams on each
  attempt is the parameter \<open>serve\<close>; heights are natural numbers.  Script parsing and the value range check
  are the transparent crate's and are parameters.
\<close>

section \<open>Blocks as they stream in\<close>

record 'txid transparent_utxo =
  tu_txid :: 'txid
  tu_index :: nat
  tu_value_zat :: u64
  tu_script :: "u8 list"
  tu_height :: "nat option"
  tu_coinbase_tx :: "'txid option"
  tu_coinbase :: bool

record 'txid transparent_spend =
  ts_prevout_txid :: 'txid
  ts_prevout_index :: nat
  ts_spending_txid :: 'txid
  ts_height :: nat

text \<open>A compact block: its height, its encoding, and the outputs and actions of each of its transactions.\<close>

record 'enc compact_block =
  cb_height :: nat
  cb_encoded :: 'enc
  cb_vtx :: "(nat \<times> nat) list"

type_synonym ('txid, 'enc) stream_item =
  "'enc compact_block \<times> 'txid transparent_utxo list \<times> 'txid transparent_spend list"

text \<open>One attempt: the items delivered, and the error the stream (or opening it) ended with, if any.\<close>

type_synonym ('txid, 'enc) attempt = "('txid, 'enc) stream_item list \<times> transport_error option"

record 'addr transparent_crate =
  zatoshis_valid :: "u64 \<Rightarrow> bool"
  recipient_of :: "u8 list \<Rightarrow> 'addr option"

record ('txid, 'addr) wallet_output =
  wo_txid :: 'txid
  wo_index :: nat
  wo_value :: u64
  wo_script :: "u8 list"
  wo_mined_height :: "nat option"
  wo_recipient :: 'addr

record ('txid, 'addr) matched_receive =
  mr_output :: "('txid, 'addr) wallet_output"
  mr_coinbase_tx :: "'txid option"
  mr_coinbase :: bool

record 'txid matched_spend =
  ms_spending_txid :: 'txid
  ms_height :: nat

type_synonym 'txid outpoint = "'txid \<times> nat"

definition owned_transparent_output ::
  "'addr transparent_crate \<Rightarrow> 'addr set \<Rightarrow> 'txid \<Rightarrow> nat \<Rightarrow> u64 \<Rightarrow> u8 list \<Rightarrow> nat option
     \<Rightarrow> ('txid, 'addr) wallet_output option" where
  "owned_transparent_output tc addresses txid index value_zat script height =
     (if \<not> zatoshis_valid tc value_zat then None
      else case recipient_of tc script of
             None \<Rightarrow> None
           | Some r \<Rightarrow>
               if r \<in> addresses
               then Some \<lparr>wo_txid = txid, wo_index = index, wo_value = value_zat, wo_script = script,
                      wo_mined_height = height, wo_recipient = r\<rparr>
               else None)"

section \<open>Progress\<close>

record range_shape =
  rs_blocks :: nat
  rs_bytes :: nat
  rs_txs :: nat
  rs_sapling_outputs :: nat
  rs_orchard_actions :: nat

definition range_shape_default :: range_shape where
  "range_shape_default = \<lparr>rs_blocks = 0, rs_bytes = 0, rs_txs = 0, rs_sapling_outputs = 0, rs_orchard_actions = 0\<rparr>"

record ('txid, 'addr, 'enc) download_progress =
  dp_blocks :: "'enc mem_cache"
  dp_shape :: range_shape
  dp_received :: "('txid, 'addr) matched_receive list"
  dp_spent :: "'txid matched_spend list"
  dp_watch :: "'txid outpoint set option"

definition count_shape :: "'enc compact_block \<Rightarrow> range_shape \<Rightarrow> range_shape" where
  "count_shape block sh =
     sh\<lparr>rs_sapling_outputs := rs_sapling_outputs sh + sum_list (map fst (cb_vtx block)),
        rs_orchard_actions := rs_orchard_actions sh + sum_list (map snd (cb_vtx block)),
        rs_txs := rs_txs sh + length (cb_vtx block)\<rparr>"

text \<open>The loop over a block's outputs.\<close>

definition match_output ::
  "'addr transparent_crate \<Rightarrow> 'addr set \<Rightarrow> 'txid transparent_utxo \<Rightarrow> ('txid, 'addr, 'enc) download_progress
     \<Rightarrow> ('txid, 'addr, 'enc) download_progress" where
  "match_output tc addresses u p =
     (case owned_transparent_output tc addresses (tu_txid u) (tu_index u) (tu_value_zat u) (tu_script u) (tu_height u) of
        None \<Rightarrow> p
      | Some output \<Rightarrow>
          p\<lparr>dp_watch := map_option (insert (wo_txid output, wo_index output)) (dp_watch p),
            dp_received := dp_received p @
              [\<lparr>mr_output = output, mr_coinbase_tx = tu_coinbase_tx u, mr_coinbase = tu_coinbase u\<rparr>]\<rparr>)"

text \<open>The loop over a block's inputs: \<open>HashSet::remove\<close> tests membership and retires the outpoint.\<close>

definition match_input ::
  "'txid transparent_spend \<Rightarrow> ('txid, 'addr, 'enc) download_progress \<Rightarrow> ('txid, 'addr, 'enc) download_progress" where
  "match_input i p =
     (case dp_watch p of
        None \<Rightarrow> p
      | Some w \<Rightarrow>
          if (ts_prevout_txid i, ts_prevout_index i) \<in> w
          then let matched = \<lparr>ms_spending_txid = ts_spending_txid i, ms_height = ts_height i\<rparr>
               in p\<lparr>dp_watch := Some (w - {(ts_prevout_txid i, ts_prevout_index i)}),
                    dp_spent := (if matched \<in> set (dp_spent p) then dp_spent p else dp_spent p @ [matched])\<rparr>
          else p)"

text \<open>One pass of the streaming loop; \<open>None\<close> is the panic of an out-of-order push.\<close>

definition fold_block ::
  "'addr transparent_crate \<Rightarrow> 'addr set option \<Rightarrow> ('txid, 'enc) stream_item \<Rightarrow> ('txid, 'addr, 'enc) download_progress
     \<Rightarrow> ('txid, 'addr, 'enc) download_progress option" where
  "fold_block tc transparent it p =
     (case it of (block, t_outs, t_ins) \<Rightarrow>
        (let p = p\<lparr>dp_shape := count_shape block (dp_shape p)\<rparr>;
             p = (case transparent of None \<Rightarrow> p | Some addresses \<Rightarrow> fold (match_output tc addresses) t_outs p);
             p = fold match_input t_ins p
         in map_option (\<lambda>bs. p\<lparr>dp_blocks := bs\<rparr>) (mem_push (cb_height block) (cb_encoded block) (dp_blocks p))))"

fun fold_blocks ::
  "'addr transparent_crate \<Rightarrow> 'addr set option \<Rightarrow> ('txid, 'enc) stream_item list \<Rightarrow> ('txid, 'addr, 'enc) download_progress
     \<Rightarrow> ('txid, 'addr, 'enc) download_progress option" where
  "fold_blocks tc tr [] p = Some p"
| "fold_blocks tc tr (it # its) p =
     (case fold_block tc tr it p of None \<Rightarrow> None | Some p' \<Rightarrow> fold_blocks tc tr its p')"

definition download_range_once ::
  "'addr transparent_crate \<Rightarrow> 'addr set option \<Rightarrow> ('txid, 'enc) attempt \<Rightarrow> ('txid, 'addr, 'enc) download_progress
     \<Rightarrow> (transport_error option \<times> ('txid, 'addr, 'enc) download_progress) option" where
  "download_range_once tc transparent att p =
     map_option (\<lambda>p'. (snd att, p')) (fold_blocks tc transparent (fst att) p)"

section \<open>Resuming\<close>

definition MAX_STALLED_STREAM_RESTARTS :: nat where "MAX_STALLED_STREAM_RESTARTS = 3"

definition plan_load_shed_resume :: "bool \<Rightarrow> nat option \<Rightarrow> nat \<Rightarrow> nat \<Rightarrow> nat option \<times> nat" where
  "plan_load_shed_resume made_progress last_received resume_from stalled_restarts =
     (let resume = Some (case last_received of None \<Rightarrow> resume_from | Some h \<Rightarrow> h + 1)
      in if made_progress then (resume, 0)
         else let stalled = stalled_restarts + 1
              in if stalled > MAX_STALLED_STREAM_RESTARTS then (None, stalled) else (resume, stalled))"

datatype download_error = DlPanic | DlStalled transport_error | DlTransport transport_error

text \<open>Where the loop stands: the attempt number, the next height, the stalled count, and the progress.\<close>

record ('txid, 'addr, 'enc) download_state =
  ds_attempt :: nat
  ds_next :: nat
  ds_stalled :: nat
  ds_progress :: "('txid, 'addr, 'enc) download_progress"

text \<open>The body of the \<open>while\<close> loop: either the loop is left with a result or it goes on from a new state.\<close>

definition download_step ::
  "'addr transparent_crate \<Rightarrow> 'addr set option \<Rightarrow> (nat \<Rightarrow> nat \<Rightarrow> nat \<Rightarrow> ('txid, 'enc) attempt) \<Rightarrow> nat
     \<Rightarrow> ('txid, 'addr, 'enc) download_state
     \<Rightarrow> (download_error + ('txid, 'addr, 'enc) download_progress) + ('txid, 'addr, 'enc) download_state" where
  "download_step tc transparent serve range_end st =
     (let before = mem_len (dp_blocks (ds_progress st))
      in case download_range_once tc transparent (serve (ds_attempt st) (ds_next st) range_end) (ds_progress st) of
           None \<Rightarrow> Inl (Inl DlPanic)
         | Some (None, p) \<Rightarrow> Inl (Inr p)
         | Some (Some e, p) \<Rightarrow>
             if is_h2_load_shed e then
               (case plan_load_shed_resume (mem_len (dp_blocks p) > before) (mem_last_height (dp_blocks p))
                      (ds_next st) (ds_stalled st) of
                  (None, _) \<Rightarrow> Inl (Inl (DlStalled e))
                | (Some resume_at, stalled) \<Rightarrow>
                    Inr \<lparr>ds_attempt = ds_attempt st + 1, ds_next = resume_at, ds_stalled = stalled, ds_progress = p\<rparr>)
             else Inl (Inl (DlTransport e)))"

text \<open>
  The loop.  It ends: an attempt that made progress raises the last height held, which the loop condition
  bounds by the end of the range, and one that made none uses up one of the allowed restarts.
\<close>

definition height_key :: "('txid, 'addr, 'enc) download_progress \<Rightarrow> nat" where
  "height_key p = (case mem_last_height (dp_blocks p) of None \<Rightarrow> 0 | Some h \<Rightarrow> h + 1)"

lemma fold_match_output_blocks [simp]: "dp_blocks (fold (match_output tc a) us p) = dp_blocks p"
  by (induction us arbitrary: p) (auto simp: match_output_def split: option.splits)

lemma fold_match_input_blocks [simp]: "dp_blocks (fold match_input ins p) = dp_blocks p"
  by (induction ins arbitrary: p) (auto simp: match_input_def Let_def split: option.splits)

lemma fold_block_blocks:
  "fold_block tc tr it p = Some p' \<Longrightarrow>
     mem_push (cb_height (fst it)) (cb_encoded (fst it)) (dp_blocks p) = Some (dp_blocks p')"
  by (auto simp: fold_block_def Let_def split: prod.splits option.splits)

lemma fold_block_key:
  "fold_block tc tr it p = Some p' \<Longrightarrow> height_key p < height_key p' \<and> mem_len (dp_blocks p') = Suc (mem_len (dp_blocks p))"
  using fold_block_blocks [of tc tr it p p']
  by (auto simp: mem_push_Some_iff height_key_def mem_last_height_def mem_len_def)

lemma fold_blocks_key:
  "fold_blocks tc tr its p = Some p' \<Longrightarrow>
     mem_len (dp_blocks p') = mem_len (dp_blocks p) + length its \<and>
     (its \<noteq> [] \<longrightarrow> height_key p < height_key p') \<and> (its = [] \<longrightarrow> p' = p)"
proof (induction its arbitrary: p)
  case (Cons it its)
  then obtain p1 where p1: "fold_block tc tr it p = Some p1" "fold_blocks tc tr its p1 = Some p'"
    by (auto split: option.splits)
  from fold_block_key [OF p1(1)] Cons.IH [OF p1(2)] show ?case by (cases its) auto
qed simp

definition loop_key :: "nat \<Rightarrow> ('txid, 'addr, 'enc) download_state \<Rightarrow> nat" where
  "loop_key range_end st = (if ds_next st \<le> range_end then 1 + (range_end + 1 - height_key (ds_progress st)) else 0)"

lemma download_step_Inr:
  assumes "download_step tc tr serve range_end st = Inr st'"
  obtains its e where "serve (ds_attempt st) (ds_next st) range_end = (its, Some e)" "is_h2_load_shed e"
    "fold_blocks tc tr its (ds_progress st) = Some (ds_progress st')"
    "ds_attempt st' = ds_attempt st + 1"
    "ds_next st' = (case mem_last_height (dp_blocks (ds_progress st')) of None \<Rightarrow> ds_next st | Some h \<Rightarrow> h + 1)"
    "ds_stalled st' = (if its = [] then ds_stalled st + 1 else 0)"
    "its = [] \<longrightarrow> ds_stalled st' \<le> MAX_STALLED_STREAM_RESTARTS"
proof -
  obtain its e where att: "serve (ds_attempt st) (ds_next st) range_end = (its, e)" by (cases "serve (ds_attempt st) (ds_next st) range_end")
  obtain p where p: "fold_blocks tc tr its (ds_progress st) = Some p"
    using assms att by (auto simp: download_step_def download_range_once_def Let_def split: option.splits)
  note key = fold_blocks_key [OF p]
  have prog: "mem_len (dp_blocks (ds_progress st)) < mem_len (dp_blocks p) \<longleftrightarrow> its \<noteq> []" using key by auto
  show thesis
    using assms att p prog
    by (intro that [of its "the e"])
      (auto simp: download_step_def download_range_once_def plan_load_shed_resume_def Let_def
        split: option.splits if_splits prod.splits)
qed

lemma download_step_decreases:
  assumes "ds_next st \<le> range_end" "download_step tc tr serve range_end st = Inr st'"
  shows "loop_key range_end st' < loop_key range_end st \<or>
    loop_key range_end st' = loop_key range_end st \<and>
      MAX_STALLED_STREAM_RESTARTS + 1 - ds_stalled st' < MAX_STALLED_STREAM_RESTARTS + 1 - ds_stalled st"
proof -
  from assms(2) obtain its e where *: "fold_blocks tc tr its (ds_progress st) = Some (ds_progress st')"
    "ds_next st' = (case mem_last_height (dp_blocks (ds_progress st')) of None \<Rightarrow> ds_next st | Some h \<Rightarrow> h + 1)"
    "ds_stalled st' = (if its = [] then ds_stalled st + 1 else 0)"
    "its = [] \<longrightarrow> ds_stalled st' \<le> MAX_STALLED_STREAM_RESTARTS"
    by (rule download_step_Inr) blast
  note key = fold_blocks_key [OF *(1)]
  show ?thesis
  proof (cases "its = []")
    case True
    then show ?thesis using key * assms(1) by (auto simp: loop_key_def)
  next
    case False
    then have k: "height_key (ds_progress st) < height_key (ds_progress st')" using key by blast
    then have "ds_next st' = height_key (ds_progress st')" using * by (auto simp: height_key_def split: option.splits)
    with k assms(1) show ?thesis by (auto simp: loop_key_def)
  qed
qed

function download_loop ::
  "'addr transparent_crate \<Rightarrow> 'addr set option \<Rightarrow> (nat \<Rightarrow> nat \<Rightarrow> nat \<Rightarrow> ('txid, 'enc) attempt) \<Rightarrow> nat
     \<Rightarrow> ('txid, 'addr, 'enc) download_state \<Rightarrow> download_error + ('txid, 'addr, 'enc) download_progress" where
  "download_loop tc transparent serve range_end st =
     (if ds_next st \<le> range_end then
        (case download_step tc transparent serve range_end st of
           Inl res \<Rightarrow> res
         | Inr st' \<Rightarrow> download_loop tc transparent serve range_end st')
      else Inr (ds_progress st))"
  by pat_completeness auto
termination
proof (relation "measures [\<lambda>(tc, tr, serve, e, st). loop_key e st,
      \<lambda>(tc, tr, serve, e, st). MAX_STALLED_STREAM_RESTARTS + 1 - ds_stalled st]")
  fix tc tr serve range_end st st'
  assume "ds_next st \<le> range_end" "download_step tc tr serve range_end st = Inr st'"
  from download_step_decreases [OF this]
  show "((tc, tr, serve, range_end, st'), (tc, tr, serve, range_end, st)) \<in>
    measures [\<lambda>(tc, tr, serve, e, st). loop_key e st, \<lambda>(tc, tr, serve, e, st). MAX_STALLED_STREAM_RESTARTS + 1 - ds_stalled st]"
    by auto
qed simp

declare download_loop.simps [simp del]

record ('txid, 'addr, 'enc) downloaded_range =
  dr_blocks :: "'enc mem_cache"
  dr_shape :: range_shape
  dr_received :: "('txid, 'addr) matched_receive list"
  dr_spent :: "'txid matched_spend list"

definition progress_init :: "'txid outpoint set option \<Rightarrow> ('txid, 'addr, 'enc) download_progress" where
  "progress_init unspent = \<lparr>dp_blocks = mem_new, dp_shape = range_shape_default, dp_received = [], dp_spent = [],
     dp_watch = unspent\<rparr>"

definition downloaded_of :: "('enc \<Rightarrow> nat) \<Rightarrow> ('txid, 'addr, 'enc) download_progress \<Rightarrow> ('txid, 'addr, 'enc) downloaded_range" where
  "downloaded_of blen p =
     \<lparr>dr_blocks = dp_blocks p,
      dr_shape = (dp_shape p)\<lparr>rs_blocks := mem_len (dp_blocks p), rs_bytes := mem_byte_len blen (dp_blocks p)\<rparr>,
      dr_received = dp_received p, dr_spent = dp_spent p\<rparr>"

text \<open>The range is given by its first height and the height past its last.\<close>

definition download_blocks ::
  "'addr transparent_crate \<Rightarrow> ('enc \<Rightarrow> nat) \<Rightarrow> (nat \<Rightarrow> nat \<Rightarrow> nat \<Rightarrow> ('txid, 'enc) attempt) \<Rightarrow> nat \<times> nat
     \<Rightarrow> 'addr set option \<Rightarrow> 'txid outpoint set option \<Rightarrow> download_error + ('txid, 'addr, 'enc) downloaded_range" where
  "download_blocks tc blen serve rng transparent unspent =
     (case download_loop tc transparent serve (snd rng - 1)
        \<lparr>ds_attempt = 0, ds_next = fst rng, ds_stalled = 0, ds_progress = progress_init unspent\<rparr> of
        Inl e \<Rightarrow> Inl e
      | Inr p \<Rightarrow> Inr (downloaded_of blen p))"

section \<open>A resumed download is an uninterrupted one\<close>

lemma fold_blocks_append:
  "fold_blocks tc tr (xs @ ys) p = (case fold_blocks tc tr xs p of None \<Rightarrow> None | Some p' \<Rightarrow> fold_blocks tc tr ys p')"
  by (induction xs arbitrary: p) (auto split: option.splits)

lemma fold_blocks_heights:
  "fold_blocks tc tr its p = Some p' \<Longrightarrow>
     mc_heights (dp_blocks p') = mc_heights (dp_blocks p) @ map (\<lambda>it. cb_height (fst it)) its \<and>
     mc_blocks (dp_blocks p') = mc_blocks (dp_blocks p) @ map (\<lambda>it. cb_encoded (fst it)) its"
proof (induction its arbitrary: p)
  case (Cons it its)
  then obtain p1 where p1: "fold_block tc tr it p = Some p1" "fold_blocks tc tr its p1 = Some p'"
    by (auto split: option.splits)
  from fold_block_blocks [OF p1(1)] Cons.IH [OF p1(2)] show ?case by (simp add: mem_push_Some_iff)
qed simp

lemma fold_block_Some:
  "mc_heights (dp_blocks p) = [] \<or> last (mc_heights (dp_blocks p)) < cb_height (fst it) \<Longrightarrow>
     \<exists>p'. fold_block tc tr it p = Some p'"
  by (cases it) (auto simp: fold_block_def Let_def mem_push_def split: option.splits)

lemma fold_blocks_Some:
  "sorted_wrt (<) (mc_heights (dp_blocks p) @ map (\<lambda>it. cb_height (fst it)) its) \<Longrightarrow> \<exists>p'. fold_blocks tc tr its p = Some p'"
proof (induction its arbitrary: p)
  case (Cons it its)
  have "mc_heights (dp_blocks p) = [] \<or> last (mc_heights (dp_blocks p)) < cb_height (fst it)"
  proof (cases "mc_heights (dp_blocks p) = []")
    case False
    with last_in_set [OF False] Cons.prems show ?thesis by (simp add: sorted_wrt_append)
  qed simp
  then obtain p1 where p1: "fold_block tc tr it p = Some p1" using fold_block_Some by blast
  have "mc_heights (dp_blocks p1) = mc_heights (dp_blocks p) @ [cb_height (fst it)]"
    using fold_block_blocks [OF p1] by (simp add: mem_push_Some_iff)
  then show ?case using Cons.IH [of p1] Cons.prems p1 by simp
qed simp

text \<open>
  An upstream that serves one chain: every attempt delivers a run of consecutive blocks from the requested
  height, and it either finishes the range or is cut short by the load shed.
\<close>

definition honest ::
  "(nat \<Rightarrow> ('txid, 'enc) stream_item) \<Rightarrow> nat \<Rightarrow> (nat \<Rightarrow> nat \<Rightarrow> nat \<Rightarrow> ('txid, 'enc) attempt) \<Rightarrow> bool" where
  "honest chain range_end serve \<longleftrightarrow>
     (\<forall>h. cb_height (fst (chain h)) = h) \<and>
     (\<forall>k next. next \<le> range_end \<longrightarrow>
        (\<exists>n \<le> range_end + 1 - next. \<exists>err. serve k next range_end = (map chain [next..<next + n], err) \<and>
           (case err of None \<Rightarrow> n = range_end + 1 - next | Some e \<Rightarrow> is_h2_load_shed e)))"

lemma chain_fold:
  assumes "\<And>h. cb_height (fst (chain h)) = h" "mc_heights (dp_blocks p0) = []"
  obtains p where "fold_blocks tc tr (map chain [a..<b]) p0 = Some p" "mc_heights (dp_blocks p) = [a..<b]"
proof -
  have heights: "map (\<lambda>it. cb_height (fst it)) (map chain [a..<b]) = [a..<b]"
    using assms(1) by (simp add: comp_def)
  then obtain p where p: "fold_blocks tc tr (map chain [a..<b]) p0 = Some p"
    using fold_blocks_Some [of p0 "map chain [a..<b]"] assms(2) by auto
  with fold_blocks_heights [OF p] heights assms(2) show thesis by (intro that) auto
qed

lemma download_loop_honest:
  fixes serve :: "nat \<Rightarrow> nat \<Rightarrow> nat \<Rightarrow> ('txid, 'enc) attempt"
  assumes "honest chain range_end serve" "mc_heights (dp_blocks p0) = []"
  shows "start \<le> ds_next st \<Longrightarrow> ds_next st \<le> range_end + 1 \<Longrightarrow>
    fold_blocks tc tr (map chain [start..<ds_next st]) p0 = Some (ds_progress st) \<Longrightarrow>
    (case download_loop tc tr serve range_end st of
       Inr p \<Rightarrow> fold_blocks tc tr (map chain [start..<range_end + 1]) p0 = Some p
     | Inl (DlStalled e) \<Rightarrow> \<exists>k next. next \<le> range_end \<and> fst (serve k next range_end) = []
     | Inl _ \<Rightarrow> False)"
  using assms(1)
proof (induction tc tr serve range_end st rule: download_loop.induct)
  case (1 tc tr serve range_end st)
  let ?next = "ds_next st"
  have ht: "\<And>h. cb_height (fst (chain h)) = h" using "1.prems"(4) by (simp add: honest_def)
  show ?case
  proof (cases "?next \<le> range_end")
    case False
    then have "?next = range_end + 1" using "1.prems"(2) by simp
    then show ?thesis using "1.prems"(3) False by (simp add: download_loop.simps)
  next
    case True
    obtain n err where att: "serve (ds_attempt st) ?next range_end = (map chain [?next..<?next + n], err)"
      and n: "n \<le> range_end + 1 - ?next"
      and err: "case err of None \<Rightarrow> n = range_end + 1 - ?next | Some e \<Rightarrow> is_h2_load_shed e"
      using "1.prems"(4) True unfolding honest_def by blast
    obtain p where whole: "fold_blocks tc tr (map chain [start..<?next + n]) p0 = Some p"
      and heights: "mc_heights (dp_blocks p) = [start..<?next + n]"
      using chain_fold [OF ht assms(2)] by blast
    have "[start..<?next + n] = [start..<?next] @ [?next..<?next + n]"
      using "1.prems"(1) by (rule upt_add_eq_append)
    then have part: "fold_blocks tc tr (map chain [?next..<?next + n]) (ds_progress st) = Some p"
      using whole "1.prems"(3) by (simp add: fold_blocks_append)
    note key = fold_blocks_key [OF part]
    show ?thesis
    proof (cases err)
      case None
      with err have "?next + n = range_end + 1" using True by simp
      then have "download_loop tc tr serve range_end st = Inr p"
        using True att part None by (subst download_loop.simps)
          (simp add: download_step_def download_range_once_def Let_def)
      with whole \<open>?next + n = range_end + 1\<close> show ?thesis by simp
    next
      case (Some e)
      then have shed: "is_h2_load_shed e" using err by simp
      show ?thesis
      proof (cases "download_step tc tr serve range_end st")
        case (Inl res)
        then have res: "res = Inl (DlStalled e) \<and> n = 0"
          using att part Some shed key by (auto simp: download_step_def download_range_once_def plan_load_shed_resume_def
              Let_def split: option.splits if_splits prod.splits)
        have none: "fst (serve (ds_attempt st) ?next range_end) = []" using att res by simp
        have "download_loop tc tr serve range_end st = Inl (DlStalled e)"
          using Inl True res by (subst download_loop.simps) simp
        then show ?thesis using none True by auto
      next
        case (Inr st')
        then have st': "ds_progress st' = p"
          "ds_next st' = (case mem_last_height (dp_blocks p) of None \<Rightarrow> ?next | Some h \<Rightarrow> h + 1)"
          using att part by (auto elim!: download_step_Inr)
        have "ds_next st' = ?next + n"
          using "1.prems"(1) st'(2) heights by (auto simp: mem_last_height_def split: if_splits)
        then show ?thesis
          using "1.IH" [OF True Inr] "1.prems"(1,4) n True whole Inr st'(1)
          by (subst download_loop.simps) simp
      qed
    qed
  qed
qed

text \<open>C1. A download cut short any number of times by the client-side load shed and resumed gives exactly what one
  uninterrupted pass over the range gives: the same blocks, counts, receives and spends.  It never panics and it
  gives up only when some attempt delivered nothing at all.\<close>

theorem download_resume_equiv:
  assumes "honest chain (b - 1) serve" "a < b"
  shows "\<exists>p. fold_blocks tc tr (map chain [a..<b]) (progress_init unspent) = Some p \<and>
    mc_heights (dp_blocks p) = [a..<b] \<and>
    (case download_blocks tc blen serve (a, b) tr unspent of
       Inr d \<Rightarrow> d = downloaded_of blen p
     | Inl (DlStalled e) \<Rightarrow> \<exists>k next. next \<le> b - 1 \<and> fst (serve k next (b - 1)) = []
     | Inl _ \<Rightarrow> False)"
proof -
  have ht: "\<And>h. cb_height (fst (chain h)) = h" using assms(1) by (simp add: honest_def)
  have init: "mc_heights (dp_blocks (progress_init unspent)) = []" by (simp add: progress_init_def mem_new_def)
  obtain p where p: "fold_blocks tc tr (map chain [a..<b]) (progress_init unspent) = Some p"
    "mc_heights (dp_blocks p) = [a..<b]"
    using chain_fold [OF ht init] by blast
  let ?st = "\<lparr>ds_attempt = 0, ds_next = a, ds_stalled = 0, ds_progress = progress_init unspent\<rparr>"
  have e: "b - 1 + 1 = b" using assms(2) by simp
  have "case download_loop tc tr serve (b - 1) ?st of
       Inr q \<Rightarrow> fold_blocks tc tr (map chain [a..<b]) (progress_init unspent) = Some q
     | Inl (DlStalled e) \<Rightarrow> \<exists>k next. next \<le> b - 1 \<and> fst (serve k next (b - 1)) = []
     | Inl _ \<Rightarrow> False"
    using download_loop_honest [OF assms(1) init, of a ?st tc tr, unfolded e] assms(2) by simp
  with p show ?thesis
    by (intro exI [of _ p]) (auto simp: download_blocks_def split: sum.splits download_error.splits)
qed

text \<open>A chain of empty blocks served with one load shed in the middle of the range.\<close>

definition sample_chain :: "nat \<Rightarrow> (nat, string) stream_item" where
  "sample_chain h = (\<lparr>cb_height = h, cb_encoded = [], cb_vtx = []\<rparr>, [], [])"

definition shed_error :: transport_error where
  "shed_error = \<lparr>te_debug = ''GoAway(too_many_data_frames, Library)'', te_chain = []\<rparr>"

definition sample_serve :: "nat \<Rightarrow> nat \<Rightarrow> nat \<Rightarrow> (nat, string) attempt" where
  "sample_serve k next e = (if k = 0 then (map sample_chain [next..<next + 1], Some shed_error)
     else (map sample_chain [next..<e + 1], None))"

lemma sample_serve_honest: "honest sample_chain e sample_serve"
proof -
  have shed: "is_h2_load_shed shed_error" by code_simp
  have "\<exists>n \<le> e + 1 - nx. \<exists>err. sample_serve k nx e = (map sample_chain [nx..<nx + n], err) \<and>
      (case err of None \<Rightarrow> n = e + 1 - nx | Some e \<Rightarrow> is_h2_load_shed e)" if "nx \<le> e" for k nx
  proof (cases "k = 0")
    case True
    with that shed show ?thesis
      by (intro exI [of _ 1] conjI exI [of _ "Some shed_error"]) (simp_all add: sample_serve_def)
  next
    case False
    with that show ?thesis
      by (intro exI [of _ "e + 1 - nx"] conjI exI [of _ None]) (simp_all add: sample_serve_def)
  qed
  then show ?thesis unfolding honest_def by (simp add: sample_chain_def)
qed

theorem download_resume_equiv_witness:
  "\<exists>p. fold_blocks \<lparr>zatoshis_valid = (\<lambda>_. True), recipient_of = (\<lambda>_. None :: nat option)\<rparr> None
      (map sample_chain [3..<6]) (progress_init None) = Some p \<and> mc_heights (dp_blocks p) = [3..<6]"
  using download_resume_equiv [OF sample_serve_honest, of 3 6 _ None None] by auto

section \<open>What the matching finds\<close>

definition receive_of :: "'addr transparent_crate \<Rightarrow> 'addr set \<Rightarrow> 'txid transparent_utxo \<Rightarrow> ('txid, 'addr) matched_receive option" where
  "receive_of tc addresses u =
     map_option (\<lambda>o1. \<lparr>mr_output = o1, mr_coinbase_tx = tu_coinbase_tx u, mr_coinbase = tu_coinbase u\<rparr>)
       (owned_transparent_output tc addresses (tu_txid u) (tu_index u) (tu_value_zat u) (tu_script u) (tu_height u))"

definition receive_outpoint :: "('txid, 'addr) matched_receive \<Rightarrow> 'txid outpoint" where
  "receive_outpoint r = (wo_txid (mr_output r), wo_index (mr_output r))"

definition spend_outpoint :: "'txid transparent_spend \<Rightarrow> 'txid outpoint" where
  "spend_outpoint i = (ts_prevout_txid i, ts_prevout_index i)"

definition spend_of :: "'txid transparent_spend \<Rightarrow> 'txid matched_spend" where
  "spend_of i = \<lparr>ms_spending_txid = ts_spending_txid i, ms_height = ts_height i\<rparr>"

definition item_outs :: "('txid, 'enc) stream_item \<Rightarrow> 'txid transparent_utxo list" where
  "item_outs it = fst (snd it)"

definition item_ins :: "('txid, 'enc) stream_item \<Rightarrow> 'txid transparent_spend list" where
  "item_ins it = snd (snd it)"

text \<open>The outpoints of the wallet after the items: those it held and those the items paid it.\<close>

definition owned_outpoints ::
  "'addr transparent_crate \<Rightarrow> 'addr set \<Rightarrow> 'txid outpoint set \<Rightarrow> ('txid, 'enc) stream_item list \<Rightarrow> 'txid outpoint set" where
  "owned_outpoints tc A U its =
     U \<union> receive_outpoint ` set (List.map_filter (receive_of tc A) (concat (map item_outs its)))"

lemma map_filter_append: "List.map_filter f (xs @ ys) = List.map_filter f xs @ List.map_filter f ys"
  by (induction xs) (auto simp: List.map_filter_simps split: option.splits)

lemma match_output_conv:
  "match_output tc A u p =
     (case receive_of tc A u of
        None \<Rightarrow> p
      | Some r \<Rightarrow> p\<lparr>dp_watch := map_option (insert (receive_outpoint r)) (dp_watch p), dp_received := dp_received p @ [r]\<rparr>)"
  by (auto simp: match_output_def receive_of_def receive_outpoint_def split: option.splits)

lemma fold_match_output:
  "dp_watch p = Some w \<Longrightarrow>
     dp_watch (fold (match_output tc A) us p) = Some (w \<union> receive_outpoint ` set (List.map_filter (receive_of tc A) us)) \<and>
     dp_received (fold (match_output tc A) us p) = dp_received p @ List.map_filter (receive_of tc A) us \<and>
     dp_spent (fold (match_output tc A) us p) = dp_spent p"
  by (induction us arbitrary: p w) (auto simp: match_output_conv List.map_filter_simps split: option.splits)

text \<open>The state of the spend search: what is watched is owned, every owned outpoint is watched or its spend is
  recorded, and every recorded spend consumes an owned outpoint.\<close>

definition search_inv ::
  "'txid outpoint set \<Rightarrow> 'txid transparent_spend list \<Rightarrow> ('txid, 'addr, 'enc) download_progress \<Rightarrow> bool" where
  "search_inv own done p \<longleftrightarrow> (\<exists>w. dp_watch p = Some w \<and> w \<subseteq> own \<and>
     (\<forall>op \<in> own. op \<in> w \<or> (\<exists>i \<in> set done. spend_outpoint i = op \<and> spend_of i \<in> set (dp_spent p))) \<and>
     (\<forall>s \<in> set (dp_spent p). \<exists>i \<in> set done. spend_of i = s \<and> spend_outpoint i \<in> own) \<and> distinct (dp_spent p))"

lemma match_input_inv:
  assumes "search_inv own done p"
  shows "search_inv own (done @ [i]) (match_input i p)"
    and "set (dp_spent p) \<subseteq> set (dp_spent (match_input i p))"
    and "spend_outpoint i \<in> own \<Longrightarrow>
      \<exists>j \<in> set (done @ [i]). spend_outpoint j = spend_outpoint i \<and> spend_of j \<in> set (dp_spent (match_input i p))"
    and "dp_received (match_input i p) = dp_received p"
proof -
  obtain w where w: "dp_watch p = Some w" "w \<subseteq> own"
    "\<forall>op \<in> own. op \<in> w \<or> (\<exists>i \<in> set done. spend_outpoint i = op \<and> spend_of i \<in> set (dp_spent p))"
    "\<forall>s \<in> set (dp_spent p). \<exists>i \<in> set done. spend_of i = s \<and> spend_outpoint i \<in> own" "distinct (dp_spent p)"
    using assms by (auto simp: search_inv_def)
  have conv: "match_input i p = (if spend_outpoint i \<in> w
      then p\<lparr>dp_watch := Some (w - {spend_outpoint i}),
             dp_spent := (if spend_of i \<in> set (dp_spent p) then dp_spent p else dp_spent p @ [spend_of i])\<rparr>
      else p)"
    using w(1) by (simp add: match_input_def spend_outpoint_def spend_of_def Let_def)
  show "set (dp_spent p) \<subseteq> set (dp_spent (match_input i p))" "dp_received (match_input i p) = dp_received p"
    by (auto simp: conv)
  show "\<exists>j \<in> set (done @ [i]). spend_outpoint j = spend_outpoint i \<and> spend_of j \<in> set (dp_spent (match_input i p))"
    if "spend_outpoint i \<in> own" using that w(3) by (auto simp: conv)
  show "search_inv own (done @ [i]) (match_input i p)"
  proof (cases "spend_outpoint i \<in> w")
    case True
    let ?sp = "if spend_of i \<in> set (dp_spent p) then dp_spent p else dp_spent p @ [spend_of i]"
    have "\<forall>op \<in> own. op \<in> w - {spend_outpoint i} \<or> (\<exists>j \<in> set (done @ [i]). spend_outpoint j = op \<and> spend_of j \<in> set ?sp)"
      using w(3) by auto
    moreover have "\<forall>s \<in> set ?sp. \<exists>j \<in> set (done @ [i]). spend_of j = s \<and> spend_outpoint j \<in> own"
      using w(2,4) True by auto
    ultimately show ?thesis using True w(2,5) unfolding search_inv_def conv by auto
  next
    case False
    then show ?thesis using w unfolding search_inv_def conv by auto
  qed
qed

lemma fold_match_input_inv:
  "search_inv own done p \<Longrightarrow>
     search_inv own (done @ ins) (fold match_input ins p) \<and> set (dp_spent p) \<subseteq> set (dp_spent (fold match_input ins p)) \<and>
     dp_received (fold match_input ins p) = dp_received p \<and>
     (\<forall>i \<in> set ins. spend_outpoint i \<in> own \<longrightarrow>
        (\<exists>j \<in> set (done @ ins). spend_outpoint j = spend_outpoint i \<and> spend_of j \<in> set (dp_spent (fold match_input ins p))))"
proof (induction ins arbitrary: p "done")
  case (Cons i ins)
  note M = match_input_inv [OF Cons.prems, of i]
  note I = Cons.IH [OF M(1)]
  have first: "\<exists>j \<in> set (done @ i # ins). spend_outpoint j = spend_outpoint i \<and> spend_of j \<in> set (dp_spent (fold match_input (i # ins) p))"
    if own: "spend_outpoint i \<in> own"
  proof -
    obtain j where "j \<in> set (done @ [i])" "spend_outpoint j = spend_outpoint i" "spend_of j \<in> set (dp_spent (match_input i p))"
      using M(3) [OF own] by blast
    then show ?thesis using I by (intro bexI [of _ j]) auto
  qed
  show ?case using I M(2,4) first by auto
qed (auto simp: search_inv_def)

text \<open>One block of the streaming loop.\<close>

lemma fold_block_search:
  assumes "fold_block tc (Some A) it p = Some p'" "search_inv (owned_outpoints tc A U its) (concat (map item_ins its)) p"
  shows "search_inv (owned_outpoints tc A U (its @ [it])) (concat (map item_ins (its @ [it]))) p'"
    and "set (dp_spent p) \<subseteq> set (dp_spent p')"
    and "dp_received p' = dp_received p @ List.map_filter (receive_of tc A) (item_outs it)"
    and "\<forall>i \<in> set (item_ins it). spend_outpoint i \<in> owned_outpoints tc A U (its @ [it]) \<longrightarrow>
      (\<exists>j \<in> set (concat (map item_ins (its @ [it]))). spend_outpoint j = spend_outpoint i \<and> spend_of j \<in> set (dp_spent p'))"
proof -
  let ?own = "owned_outpoints tc A U (its @ [it])" and ?done = "concat (map item_ins its)"
  define q where "q = fold (match_output tc A) (item_outs it) (p\<lparr>dp_shape := count_shape (fst it) (dp_shape p)\<rparr>)"
  obtain w where w: "dp_watch p = Some w" "w \<subseteq> owned_outpoints tc A U its"
    "\<forall>op \<in> owned_outpoints tc A U its. op \<in> w \<or> (\<exists>i \<in> set ?done. spend_outpoint i = op \<and> spend_of i \<in> set (dp_spent p))"
    "\<forall>s \<in> set (dp_spent p). \<exists>i \<in> set ?done. spend_of i = s \<and> spend_outpoint i \<in> owned_outpoints tc A U its"
    "distinct (dp_spent p)"
    using assms(2) by (auto simp: search_inv_def)
  have own: "?own = owned_outpoints tc A U its \<union> receive_outpoint ` set (List.map_filter (receive_of tc A) (item_outs it))"
    by (auto simp: owned_outpoints_def map_filter_append)
  have q: "dp_watch q = Some (w \<union> receive_outpoint ` set (List.map_filter (receive_of tc A) (item_outs it)))"
    "dp_received q = dp_received p @ List.map_filter (receive_of tc A) (item_outs it)" "dp_spent q = dp_spent p"
    using fold_match_output [of "p\<lparr>dp_shape := count_shape (fst it) (dp_shape p)\<rparr>" w tc A "item_outs it"] w(1)
    by (auto simp: q_def)
  have "search_inv ?own ?done q"
    unfolding search_inv_def q own using w(2-5) by (intro exI conjI) (auto 0 3)
  note F = fold_match_input_inv [OF this, of "item_ins it"]
  have p': "p' = (fold match_input (item_ins it) q)\<lparr>dp_blocks := dp_blocks p'\<rparr>"
    using assms(1) by (auto simp: fold_block_def Let_def q_def item_outs_def item_ins_def split: prod.splits)
  have sp: "dp_spent p' = dp_spent (fold match_input (item_ins it) q)"
    "dp_received p' = dp_received (fold match_input (item_ins it) q)" "dp_watch p' = dp_watch (fold match_input (item_ins it) q)"
    by (subst p', simp)+
  have cat: "concat (map item_ins (its @ [it])) = ?done @ item_ins it" by simp
  show "search_inv ?own (concat (map item_ins (its @ [it]))) p'" using F unfolding cat search_inv_def sp by blast
  show "set (dp_spent p) \<subseteq> set (dp_spent p')" using F q by (simp add: sp)
  show "dp_received p' = dp_received p @ List.map_filter (receive_of tc A) (item_outs it)" using F q by (simp add: sp)
  show "\<forall>i \<in> set (item_ins it). spend_outpoint i \<in> ?own \<longrightarrow>
      (\<exists>j \<in> set (concat (map item_ins (its @ [it]))). spend_outpoint j = spend_outpoint i \<and> spend_of j \<in> set (dp_spent p'))"
    using F unfolding cat sp by blast
qed

lemma fold_blocks_search:
  assumes "fold_blocks tc (Some A) its (progress_init (Some U)) = Some p"
  shows "search_inv (owned_outpoints tc A U its) (concat (map item_ins its)) p \<and>
    dp_received p = List.map_filter (receive_of tc A) (concat (map item_outs its)) \<and>
    (\<forall>k < length its. \<forall>i \<in> set (item_ins (its ! k)). spend_outpoint i \<in> owned_outpoints tc A U (take (Suc k) its) \<longrightarrow>
      (\<exists>j \<in> set (concat (map item_ins its)). spend_outpoint j = spend_outpoint i \<and> spend_of j \<in> set (dp_spent p)))"
  using assms
proof (induction its arbitrary: p rule: rev_induct)
  case Nil
  then show ?case by (auto simp: search_inv_def owned_outpoints_def progress_init_def List.map_filter_simps)
next
  case (snoc it its)
  then obtain q where q: "fold_blocks tc (Some A) its (progress_init (Some U)) = Some q" "fold_block tc (Some A) it q = Some p"
    by (auto simp: fold_blocks_append split: option.splits)
  note I = snoc.IH [OF q(1)]
  note F = fold_block_search [OF q(2) conjunct1 [OF I]]
  have "\<exists>j \<in> set (concat (map item_ins (its @ [it]))). spend_outpoint j = spend_outpoint i \<and> spend_of j \<in> set (dp_spent p)"
    if k: "k < length (its @ [it])" and i: "i \<in> set (item_ins ((its @ [it]) ! k))"
      and own: "spend_outpoint i \<in> owned_outpoints tc A U (take (Suc k) (its @ [it]))" for k i
  proof (cases "k < length its")
    case True
    then have "i \<in> set (item_ins (its ! k))" "spend_outpoint i \<in> owned_outpoints tc A U (take (Suc k) its)"
      using i own by (simp_all add: nth_append)
    with True I F(2) show ?thesis by fastforce
  next
    case False
    then have "k = length its" using k by simp
    then have "i \<in> set (item_ins it)" "spend_outpoint i \<in> owned_outpoints tc A U (its @ [it])"
      using i own by simp_all
    with F(4) show ?thesis by blast
  qed
  with I F(1,3) show ?case by (simp add: map_filter_append)
qed


text \<open>A block that pays the wallet and spends that output, beside a spend of an output held before.\<close>

definition sample_items :: "(nat, string) stream_item list" where
  "sample_items =
     [(\<lparr>cb_height = 3, cb_encoded = ''b3'', cb_vtx = []\<rparr>,
       [\<lparr>tu_txid = 1, tu_index = 0, tu_value_zat = 5, tu_script = [], tu_height = Some 3, tu_coinbase_tx = None, tu_coinbase = False\<rparr>],
       [\<lparr>ts_prevout_txid = 1, ts_prevout_index = 0, ts_spending_txid = 2, ts_height = 3\<rparr>,
        \<lparr>ts_prevout_txid = 9, ts_prevout_index = 4, ts_spending_txid = 2, ts_height = 3\<rparr>])]"

definition sample_crate :: "nat transparent_crate" where
  "sample_crate = \<lparr>zatoshis_valid = (\<lambda>_. True), recipient_of = (\<lambda>_. Some 7)\<rparr>"


end
