(* ===== verification/Sync_Engine.thy ===== *)
theory Sync_Engine
  imports Download Pools
begin

text \<open>
  One sync batch, \<open>src/sync/engine.rs\<close>: choosing the range, the speculative prefetch, scanning with reorg
  recovery, and recording what the transparent matching found.  The wallet database is librustzcash's: its
  operations are the record \<open>wallet_db\<close>, each on a database state.  The upstream's answers are the record
  \<open>upstream\<close>, with the conversion of a tree state beside them.  A full transaction is represented by its id.
  Durations are not modelled.
\<close>

section \<open>The wallet database and the upstream\<close>

record 'p scan_range =
  sr_start :: nat
  sr_end :: nat
  sr_priority :: 'p

definition sr_len :: "'p scan_range \<Rightarrow> nat" where
  "sr_len r = sr_end r - sr_start r"

datatype truncate_result = TruncOk nat | TruncInvalid "nat option" | TruncErr string

datatype scan_result = ScanOk | ScanContinuity nat | ScanOther string

record ('db, 'p, 'cs, 'txid, 'addr, 'enc) wallet_db =
  db_suggest :: "'db \<Rightarrow> string + 'p scan_range list"
  db_split_at :: "'p scan_range \<Rightarrow> nat \<Rightarrow> ('p scan_range \<times> 'p scan_range) option"
  db_verify :: 'p
  db_scan :: "'enc mem_cache \<Rightarrow> nat \<Rightarrow> 'cs \<Rightarrow> nat \<Rightarrow> 'db \<Rightarrow> scan_result \<times> 'db"
  db_truncate :: "nat \<Rightarrow> 'db \<Rightarrow> truncate_result \<times> 'db"
  db_put_utxo :: "('txid, 'addr) wallet_output \<Rightarrow> 'db \<Rightarrow> bool \<times> 'db"
  db_address_for_index :: "nat \<Rightarrow> 'db \<Rightarrow> bool \<times> 'db"
  db_store_tx :: "'txid \<Rightarrow> nat option \<Rightarrow> 'db \<Rightarrow> bool \<times> 'db"
  db_read_tx :: "u8 list \<Rightarrow> nat \<Rightarrow> 'txid option"

record ('cs, 'txid, 'enc) upstream =
  up_serve :: "nat \<Rightarrow> nat \<Rightarrow> nat \<Rightarrow> ('txid, 'enc) attempt"
  up_tree_state :: "nat \<Rightarrow> string + u8 list"
  up_to_chain_state :: "u8 list \<Rightarrow> string + 'cs"
  up_fetch_tx :: "'txid \<Rightarrow> string + fetched_tx option"

record unrecoverable_reorg =
  ur_at_height :: nat
  ur_requested :: nat
  ur_safe_rewind_height :: "nat option"

datatype sync_error =
    SyncDb string
  | SyncDownload download_error
  | SyncTreeState string
  | SyncApply string
  | SyncReorg unrecoverable_reorg

section \<open>Subtree roots\<close>

text \<open>Reading each root's hash, stopping at the first that does not parse.\<close>

fun read_roots :: "(u8 list \<Rightarrow> string + 'n) \<Rightarrow> subtree_root_info list \<Rightarrow> string + (u32 \<times> 'n) list" where
  "read_roots read [] = Inr []"
| "read_roots read (r # rs) =
     (case read (root_hash r) of
        Inl e \<Rightarrow> Inl e
      | Inr n \<Rightarrow> (case read_roots read rs of Inl e \<Rightarrow> Inl e | Inr ns \<Rightarrow> Inr ((completing_height r, n) # ns)))"

definition update_subtree_roots ::
  "(shielded_pool \<Rightarrow> string + subtree_root_info list) \<Rightarrow> (u8 list \<Rightarrow> string + 's) \<Rightarrow> (u8 list \<Rightarrow> string + 'o)
     \<Rightarrow> (nat \<Rightarrow> (u32 \<times> 's) list \<Rightarrow> 'db \<Rightarrow> (string + unit) \<times> 'db)
     \<Rightarrow> (nat \<Rightarrow> (u32 \<times> 'o) list \<Rightarrow> 'db \<Rightarrow> (string + unit) \<times> 'db) \<Rightarrow> 'db \<Rightarrow> (string + unit) \<times> 'db" where
  "update_subtree_roots subtree_roots sapling_read orchard_read put_sapling put_orchard db =
     (case sum_bind (subtree_roots ShieldedSapling) (read_roots sapling_read) of
        Inl e \<Rightarrow> (Inl e, db)
      | Inr sapling_roots \<Rightarrow>
          (case put_sapling 0 sapling_roots db of
             (Inl e, db) \<Rightarrow> (Inl e, db)
           | (Inr _, db) \<Rightarrow>
               (case sum_bind (subtree_roots ShieldedOrchard) (read_roots orchard_read) of
                  Inl e \<Rightarrow> (Inl e, db)
                | Inr orchard_roots \<Rightarrow> put_orchard 0 orchard_roots db)))"

section \<open>Choosing ranges\<close>

definition DEFAULT_BATCH_SIZE :: nat where "DEFAULT_BATCH_SIZE = 10000"

text \<open>The range a batch scans: a \<open>Verify\<close> range whole, otherwise the first chunk of the first range.\<close>

definition select_range :: "('db, 'p, 'cs, 'txid, 'addr, 'enc) wallet_db \<Rightarrow> nat \<Rightarrow> 'p scan_range \<Rightarrow> 'p scan_range" where
  "select_range ops batch_size first =
     (if sr_priority first = db_verify ops then first
      else case db_split_at ops first (sr_start first + batch_size) of
             Some (cur, _) \<Rightarrow> cur
           | None \<Rightarrow> first)"

definition next_range_guess ::
  "('db, 'p, 'cs, 'txid, 'addr, 'enc) wallet_db \<Rightarrow> 'p scan_range list \<Rightarrow> 'p scan_range \<Rightarrow> nat \<Rightarrow> 'p scan_range option" where
  "next_range_guess ops scan_ranges scanning batch_size =
     (case scan_ranges of
        [] \<Rightarrow> None
      | first # _ \<Rightarrow>
          if sr_priority first = db_verify ops then None
          else case db_split_at ops first (sr_end scanning) of
                 None \<Rightarrow> None
               | Some (_, rest) \<Rightarrow>
                   (case db_split_at ops rest (sr_start rest + batch_size) of
                      Some (nxt, _) \<Rightarrow> Some nxt
                    | None \<Rightarrow> Some rest))"

record ('p, 'txid, 'addr, 'enc) prefetched =
  pf_range :: "'p scan_range"
  pf_downloaded :: "('txid, 'addr, 'enc) downloaded_range"

datatype prefetch_error = PrefetchDownload download_error | PrefetchShort nat nat

definition prefetch_range ::
  "'addr transparent_crate \<Rightarrow> ('enc \<Rightarrow> nat) \<Rightarrow> (nat \<Rightarrow> nat \<Rightarrow> nat \<Rightarrow> ('txid, 'enc) attempt) \<Rightarrow> 'p scan_range
     \<Rightarrow> prefetch_error + ('p, 'txid, 'addr, 'enc) prefetched" where
  "prefetch_range tc blen serve r =
     (case download_blocks tc blen serve (sr_start r, sr_end r) None None of
        Inl e \<Rightarrow> Inl (PrefetchDownload e)
      | Inr d \<Rightarrow>
          if mem_len (dr_blocks d) \<noteq> sr_len r then Inl (PrefetchShort (mem_len (dr_blocks d)) (sr_len r))
          else Inr \<lparr>pf_range = r, pf_downloaded = d\<rparr>)"

section \<open>Reorg recovery\<close>

definition REORG_BASE_MARGIN :: u32 where "REORG_BASE_MARGIN = 10"

definition REORG_MAX_MARGIN :: u32 where "REORG_MAX_MARGIN = of_nat DEFAULT_BATCH_SIZE"

definition next_reorg_margin :: "u32 \<Rightarrow> bool \<Rightarrow> u32" where
  "next_reorg_margin current reorged =
     (if reorged then min (saturating_mul current 2) REORG_MAX_MARGIN else REORG_BASE_MARGIN)"

text \<open>The loop over the last candidates.\<close>

fun try_targets ::
  "('db, 'p, 'cs, 'txid, 'addr, 'enc) wallet_db \<Rightarrow> nat list \<Rightarrow> 'db \<Rightarrow> (string + nat option) \<times> 'db" where
  "try_targets ops [] db = (Inr None, db)"
| "try_targets ops (t # ts) db =
     (case db_truncate ops t db of
        (TruncOk h, db') \<Rightarrow> (Inr (Some h), db')
      | (TruncInvalid _, db') \<Rightarrow> try_targets ops ts db'
      | (TruncErr e, db') \<Rightarrow> (Inl e, db'))"

definition perform_rewind ::
  "('db, 'p, 'cs, 'txid, 'addr, 'enc) wallet_db \<Rightarrow> nat \<Rightarrow> nat \<Rightarrow> nat \<Rightarrow> 'db \<Rightarrow> (sync_error + nat) \<times> 'db" where
  "perform_rewind ops at_height requested base_requested db =
     (case db_truncate ops requested db of
        (TruncOk h, db) \<Rightarrow> (Inr h, db)
      | (TruncErr e, db) \<Rightarrow> (Inl (SyncDb e), db)
      | (TruncInvalid safe, db) \<Rightarrow>
          (case (if base_requested < at_height \<and> base_requested > requested
                 then try_targets ops [base_requested] db else (Inr None, db)) of
             (Inl e, db) \<Rightarrow> (Inl (SyncDb e), db)
           | (Inr (Some h), db) \<Rightarrow> (Inr h, db)
           | (Inr None, db) \<Rightarrow>
               (let shallow = at_height - 2;
                    candidates = shallow #
                      (case safe of Some h \<Rightarrow> if h < requested \<and> h < shallow then [h] else [] | None \<Rightarrow> [])
                in case try_targets ops candidates db of
                     (Inl e, db) \<Rightarrow> (Inl (SyncDb e), db)
                   | (Inr (Some h), db) \<Rightarrow> (Inr h, db)
                   | (Inr None, db) \<Rightarrow>
                       (Inl (SyncReorg \<lparr>ur_at_height = at_height, ur_requested = requested,
                          ur_safe_rewind_height = safe\<rparr>), db))))"

record scan_outcome =
  so_ranges_changed :: bool
  so_reorged :: bool

definition scan_blocks ::
  "('db, 'p::linorder, 'cs, 'txid, 'addr, 'enc) wallet_db \<Rightarrow> 'enc mem_cache \<Rightarrow> 'cs \<Rightarrow> 'p scan_range \<Rightarrow> u32 \<Rightarrow> 'db
     \<Rightarrow> (sync_error + scan_outcome) \<times> 'db" where
  "scan_blocks ops blocks chain_state scan_range reorg_margin db =
     (case db_scan ops blocks (sr_start scan_range) chain_state (sr_len scan_range) db of
        (ScanContinuity at_height, db) \<Rightarrow>
          (let margin = max reorg_margin REORG_BASE_MARGIN;
               requested = at_height - unat margin;
               base = at_height - unat REORG_BASE_MARGIN
           in case perform_rewind ops at_height requested base db of
                (Inl e, db) \<Rightarrow> (Inl e, db)
              | (Inr _, db) \<Rightarrow> (Inr \<lparr>so_ranges_changed = True, so_reorged = True\<rparr>, db))
      | (ScanOk, db) \<Rightarrow>
          (case db_suggest ops db of
             Inl e \<Rightarrow> (Inl (SyncDb e), db)
           | Inr latest \<Rightarrow>
               (Inr \<lparr>so_ranges_changed = (case latest of [] \<Rightarrow> False | r # _ \<Rightarrow> sr_priority r > sr_priority scan_range),
                     so_reorged = False\<rparr>, db))
      | (ScanOther e, db) \<Rightarrow> (Inl (SyncApply e), db))"

section \<open>Recording transparent activity\<close>

record 'addr transparent_matcher =
  tm_all :: "'addr set"
  tm_lookahead :: "'addr \<rightharpoonup> nat"

definition lookahead_index :: "'addr transparent_matcher \<Rightarrow> 'addr \<Rightarrow> nat option" where
  "lookahead_index tm a = tm_lookahead tm a"

definition store_fetched_tx ::
  "('db, 'p, 'cs, 'txid, 'addr, 'enc) wallet_db \<Rightarrow> fetched_tx \<Rightarrow> nat \<Rightarrow> 'db \<Rightarrow> bool \<times> 'db" where
  "store_fetched_tx ops fetched height db =
     (let mined = (case ft_mined_height fetched of Some h \<Rightarrow> unat h | None \<Rightarrow> height)
      in case db_read_tx ops (ft_data fetched) mined of
           None \<Rightarrow> (False, db)
         | Some tx \<Rightarrow> db_store_tx ops tx (Some mined) db)"

definition record_lookahead_address :: "('db, 'p, 'cs, 'txid, 'addr, 'enc) wallet_db \<Rightarrow> nat \<Rightarrow> 'db \<Rightarrow> bool \<times> 'db" where
  "record_lookahead_address ops index db = db_address_for_index ops index db"

record ('db, 'txid) record_state =
  rec_db :: 'db
  rec_recorded :: nat
  rec_coinbase_stored :: "'txid set"

text \<open>The coinbase part of one iteration.\<close>

definition record_coinbase ::
  "('db, 'p, 'cs, 'txid, 'addr, 'enc) wallet_db \<Rightarrow> ('txid \<Rightarrow> string + fetched_tx option) \<Rightarrow> ('txid, 'addr) matched_receive
     \<Rightarrow> ('db, 'txid) record_state \<Rightarrow> ('db, 'txid) record_state" where
  "record_coinbase ops fetch matched st =
     (let output = mr_output matched
      in case mr_coinbase_tx matched of
           Some tx \<Rightarrow>
             if tx \<in> rec_coinbase_stored st then st
             else st\<lparr>rec_coinbase_stored := insert tx (rec_coinbase_stored st),
                     rec_db := snd (db_store_tx ops tx (wo_mined_height output) (rec_db st))\<rparr>
         | None \<Rightarrow>
             if \<not> mr_coinbase matched then st
             else (case wo_mined_height output of
                     None \<Rightarrow> st
                   | Some height \<Rightarrow>
                       if wo_txid output \<in> rec_coinbase_stored st then st
                       else let st = st\<lparr>rec_coinbase_stored := insert (wo_txid output) (rec_coinbase_stored st)\<rparr>
                            in case fetch (wo_txid output) of
                                 Inr (Some fetched) \<Rightarrow> st\<lparr>rec_db := snd (store_fetched_tx ops fetched height (rec_db st))\<rparr>
                               | _ \<Rightarrow> st))"

definition record_receive ::
  "('db, 'p, 'cs, 'txid, 'addr, 'enc) wallet_db \<Rightarrow> ('txid \<Rightarrow> string + fetched_tx option) \<Rightarrow> 'addr transparent_matcher option
     \<Rightarrow> ('txid, 'addr) matched_receive \<Rightarrow> ('db, 'txid) record_state \<Rightarrow> ('db, 'txid) record_state" where
  "record_receive ops fetch transparent matched st =
     (let output = mr_output matched;
          (row_ok, db1) = (case Option.bind transparent (\<lambda>tm. lookahead_index tm (wo_recipient output)) of
              None \<Rightarrow> (True, rec_db st)
            | Some index \<Rightarrow> record_lookahead_address ops index (rec_db st))
      in if \<not> row_ok then st\<lparr>rec_db := db1\<rparr>
         else let (put_ok, db2) = db_put_utxo ops output db1
              in if \<not> put_ok then st\<lparr>rec_db := db2\<rparr>
                 else record_coinbase ops fetch matched
                        (st\<lparr>rec_db := db2, rec_recorded := rec_recorded st + 1\<rparr>))"

definition record_spend ::
  "('db, 'p, 'cs, 'txid, 'addr, 'enc) wallet_db \<Rightarrow> ('txid \<Rightarrow> string + fetched_tx option) \<Rightarrow> 'txid matched_spend
     \<Rightarrow> nat \<times> 'db \<Rightarrow> nat \<times> 'db" where
  "record_spend ops fetch matched st =
     (case fetch (ms_spending_txid matched) of
        Inr (Some fetched) \<Rightarrow>
          (let (ok, db) = store_fetched_tx ops fetched (ms_height matched) (snd st)
           in (if ok then fst st + 1 else fst st, db))
      | _ \<Rightarrow> st)"

section \<open>One batch\<close>

record ('p, 'txid, 'addr, 'enc) batch_params =
  bp_transparent :: "'addr transparent_matcher option"
  bp_unspent :: "'txid outpoint set option"
  bp_reorg_margin :: u32
  bp_batch_size :: nat
  bp_prefetched :: "('p, 'txid, 'addr, 'enc) prefetched option"
  bp_prefetch :: bool

record 'p batch_outcome =
  bo_worked :: bool
  bo_reorged :: bool
  bo_transparent_recorded :: nat
  bo_transparent_spends_recorded :: nat
  bo_prefetch_hit :: bool
  bo_shape :: range_shape
  bo_next_prefetch :: "'p scan_range option"

definition download_chain_state :: "('cs, 'txid, 'enc) upstream \<Rightarrow> nat \<Rightarrow> string + 'cs" where
  "download_chain_state up block_height =
     (case up_tree_state up block_height of Inl e \<Rightarrow> Inl e | Inr tree_state \<Rightarrow> up_to_chain_state up tree_state)"

text \<open>A batch after its range is chosen and its blocks are at hand.\<close>

definition apply_batch ::
  "('db, 'p::linorder, 'cs, 'txid, 'addr, 'enc) wallet_db \<Rightarrow> ('cs, 'txid, 'enc) upstream
     \<Rightarrow> ('p, 'txid, 'addr, 'enc) batch_params \<Rightarrow> 'p scan_range list \<Rightarrow> 'p scan_range \<Rightarrow> bool
     \<Rightarrow> ('txid, 'addr, 'enc) downloaded_range \<Rightarrow> 'db \<Rightarrow> (sync_error + 'p batch_outcome) \<times> 'db" where
  "apply_batch ops up batch scan_ranges scan_range hit d db =
     (let next_prefetch = (if bp_prefetch batch
            then next_range_guess ops scan_ranges scan_range (bp_batch_size batch) else None);
          prior_height = max (sr_start scan_range - 1) 1
      in case download_chain_state up prior_height of
           Inl e \<Rightarrow> (Inl (SyncTreeState e), db)
         | Inr chain_state \<Rightarrow>
             (case scan_blocks ops (dr_blocks d) chain_state scan_range (bp_reorg_margin batch) db of
                (Inl e, db) \<Rightarrow> (Inl e, db)
              | (Inr outcome, db) \<Rightarrow>
                  if so_reorged outcome then
                    (Inr \<lparr>bo_worked = True, bo_reorged = True, bo_transparent_recorded = 0,
                          bo_transparent_spends_recorded = 0, bo_prefetch_hit = hit, bo_shape = dr_shape d,
                          bo_next_prefetch = None\<rparr>, db)
                  else
                    (let st = fold (record_receive ops (up_fetch_tx up) (bp_transparent batch)) (dr_received d)
                                \<lparr>rec_db = db, rec_recorded = 0, rec_coinbase_stored = {}\<rparr>;
                         (spends, db) = fold (record_spend ops (up_fetch_tx up)) (dr_spent d) (0, rec_db st)
                     in (Inr \<lparr>bo_worked = True, bo_reorged = False, bo_transparent_recorded = rec_recorded st,
                              bo_transparent_spends_recorded = spends, bo_prefetch_hit = hit, bo_shape = dr_shape d,
                              bo_next_prefetch = next_prefetch\<rparr>, db))))"

definition sync_one_batch ::
  "'addr transparent_crate \<Rightarrow> ('enc \<Rightarrow> nat) \<Rightarrow> ('db, 'p::linorder, 'cs, 'txid, 'addr, 'enc) wallet_db
     \<Rightarrow> ('cs, 'txid, 'enc) upstream \<Rightarrow> ('p, 'txid, 'addr, 'enc) batch_params \<Rightarrow> 'db
     \<Rightarrow> (sync_error + 'p batch_outcome) \<times> 'db" where
  "sync_one_batch tc blen ops up batch db =
     (case db_suggest ops db of
        Inl e \<Rightarrow> (Inl (SyncDb e), db)
      | Inr [] \<Rightarrow>
          (Inr \<lparr>bo_worked = False, bo_reorged = False, bo_transparent_recorded = 0,
                bo_transparent_spends_recorded = 0, bo_prefetch_hit = False, bo_shape = range_shape_default,
                bo_next_prefetch = None\<rparr>, db)
      | Inr (first # others) \<Rightarrow>
          (let scan_range = select_range ops (bp_batch_size batch) first
           in case (case bp_prefetched batch of
                      Some p \<Rightarrow> if pf_range p = scan_range then Some (pf_downloaded p) else None
                    | None \<Rightarrow> None) of
                Some d \<Rightarrow> apply_batch ops up batch (first # others) scan_range True d db
              | None \<Rightarrow>
                  (case download_blocks tc blen (up_serve up) (sr_start scan_range, sr_end scan_range)
                          (map_option tm_all (bp_transparent batch)) (bp_unspent batch) of
                     Inl e \<Rightarrow> (Inl (SyncDownload e), db)
                   | Inr d \<Rightarrow> apply_batch ops up batch (first # others) scan_range False d db)))"

section \<open>Reorg recovery makes progress\<close>

text \<open>
  The documented contract of \<open>truncate_to_height\<close>: it rewinds to the highest valid target at or below the
  requested height and returns it, and refuses, changing nothing, when there is none.
\<close>

definition rewind_law :: "('db, 'p, 'cs, 'txid, 'addr, 'enc) wallet_db \<Rightarrow> 'db \<Rightarrow> nat set \<Rightarrow> bool" where
  "rewind_law ops db C \<longleftrightarrow>
     (\<forall>t. if \<exists>c \<in> C. c \<le> t then \<exists>db'. db_truncate ops t db = (TruncOk (Max {c \<in> C. c \<le> t}), db')
          else \<exists>safe. db_truncate ops t db = (TruncInvalid safe, db))"

lemma rewind_law_cases:
  assumes "rewind_law ops db C"
  shows "\<exists>c \<in> C. c \<le> t \<Longrightarrow> \<exists>h db'. db_truncate ops t db = (TruncOk h, db') \<and> h \<in> C \<and> h \<le> t"
    and "\<not> (\<exists>c \<in> C. c \<le> t) \<Longrightarrow> \<exists>safe. db_truncate ops t db = (TruncInvalid safe, db)"
proof -
  show "\<exists>h db'. db_truncate ops t db = (TruncOk h, db') \<and> h \<in> C \<and> h \<le> t" if ex: "\<exists>c \<in> C. c \<le> t"
  proof -
    have "finite {c \<in> C. c \<le> t}" "{c \<in> C. c \<le> t} \<noteq> {}" using ex by auto
    from Max_in [OF this] have "Max {c \<in> C. c \<le> t} \<in> C" "Max {c \<in> C. c \<le> t} \<le> t" by auto
    moreover obtain db' where "db_truncate ops t db = (TruncOk (Max {c \<in> C. c \<le> t}), db')"
      using assms [unfolded rewind_law_def, THEN spec, of t] unfolding if_P [OF ex] by blast
    ultimately show ?thesis by blast
  qed
  show "\<exists>safe. db_truncate ops t db = (TruncInvalid safe, db)" if none: "\<not> (\<exists>c \<in> C. c \<le> t)"
    using assms [unfolded rewind_law_def, THEN spec, of t] unfolding if_not_P [OF none] .
qed

lemma try_targets_none:
  "rewind_law ops db C \<Longrightarrow> \<forall>t \<in> set ts. \<not> (\<exists>c \<in> C. c \<le> t) \<Longrightarrow> try_targets ops ts db = (Inr None, db)"
proof (induction ts)
  case (Cons t ts)
  then have "\<not> (\<exists>c \<in> C. c \<le> t)" by simp
  then obtain safe where "db_truncate ops t db = (TruncInvalid safe, db)"
    using rewind_law_cases(2) [OF Cons.prems(1)] by blast
  with Cons show ?case by simp
qed simp

lemma perform_rewind_cases:
  assumes law: "rewind_law ops db C" and order: "requested \<le> base" "base \<le> at_height - 2"
  shows "(\<exists>c \<in> C. c \<le> at_height - 2) \<Longrightarrow>
      \<exists>t h db'. perform_rewind ops at_height requested base db = (Inr h, db') \<and> t \<le> at_height - 2 \<and>
        db_truncate ops t db = (TruncOk h, db') \<and> h \<in> C \<and> h \<le> t"
    and "\<not> (\<exists>c \<in> C. c \<le> at_height - 2) \<Longrightarrow>
      \<exists>safe. perform_rewind ops at_height requested base db =
        (Inl (SyncReorg \<lparr>ur_at_height = at_height, ur_requested = requested, ur_safe_rewind_height = safe\<rparr>), db)"
proof -
  let ?ok = "\<lambda>t. \<exists>c \<in> C. c \<le> t"
  show "\<exists>t h db'. perform_rewind ops at_height requested base db = (Inr h, db') \<and> t \<le> at_height - 2 \<and>
      db_truncate ops t db = (TruncOk h, db') \<and> h \<in> C \<and> h \<le> t" if ex: "?ok (at_height - 2)"
  proof (cases "?ok requested")
    case True
    from rewind_law_cases(1) [OF law True] obtain h db'
      where t: "db_truncate ops requested db = (TruncOk h, db')" "h \<in> C" "h \<le> requested" by blast
    from order have "requested \<le> at_height - 2" by (rule le_trans)
    moreover from t have "perform_rewind ops at_height requested base db = (Inr h, db')" by (simp add: perform_rewind_def)
    ultimately show ?thesis using t by blast
  next
    case refused: False
    then obtain safe where safe: "db_truncate ops requested db = (TruncInvalid safe, db)"
      using rewind_law_cases(2) [OF law] by blast
    show ?thesis
    proof (cases "base < at_height \<and> base > requested \<and> ?ok base")
      case True
      then obtain h db' where t: "db_truncate ops base db = (TruncOk h, db')" "h \<in> C" "h \<le> base"
        using rewind_law_cases(1) [OF law, of base] by blast
      with True safe have "perform_rewind ops at_height requested base db = (Inr h, db')" by (simp add: perform_rewind_def)
      with t order show ?thesis by blast
    next
      case False
      then have base: "(if base < at_height \<and> base > requested then try_targets ops [base] db else (Inr None, db)) = (Inr None, db)"
        using try_targets_none [OF law, of "[base]"] by auto
      obtain h db' where t: "db_truncate ops (at_height - 2) db = (TruncOk h, db')" "h \<in> C" "h \<le> at_height - 2"
        using rewind_law_cases(1) [OF law ex] by blast
      then have "perform_rewind ops at_height requested base db = (Inr h, db')"
        unfolding perform_rewind_def safe prod.case truncate_result.case base sum.case option.case Let_def by simp
      with t show ?thesis by blast
    qed
  qed
  show "\<exists>safe. perform_rewind ops at_height requested base db =
      (Inl (SyncReorg \<lparr>ur_at_height = at_height, ur_requested = requested, ur_safe_rewind_height = safe\<rparr>), db)"
    if none: "\<not> ?ok (at_height - 2)"
  proof -
    have no: "\<not> ?ok t" if "t \<le> at_height - 2" for t using none that by fastforce
    obtain safe where safe: "db_truncate ops requested db = (TruncInvalid safe, db)"
      using rewind_law_cases(2) [OF law no [OF le_trans [OF order]]] by blast
    have base: "(if base < at_height \<and> base > requested then try_targets ops [base] db else (Inr None, db)) = (Inr None, db)"
      using try_targets_none [OF law, of "[base]"] no [OF order(2)] by auto
    let ?cs = "(at_height - 2) # (case safe of Some h \<Rightarrow> if h < requested \<and> h < at_height - 2 then [h] else [] | None \<Rightarrow> [])"
    have "try_targets ops ?cs db = (Inr None, db)"
      by (rule try_targets_none [OF law], rule ballI, rule no) (auto split: option.splits if_splits)
    then have "perform_rewind ops at_height requested base db =
        (Inl (SyncReorg \<lparr>ur_at_height = at_height, ur_requested = requested, ur_safe_rewind_height = safe\<rparr>), db)"
      unfolding perform_rewind_def safe prod.case truncate_result.case base sum.case option.case Let_def by simp
    then show ?thesis by blast
  qed
qed

lemma margin_order:
  "at_height - unat (max m REORG_BASE_MARGIN) \<le> at_height - unat REORG_BASE_MARGIN"
  "at_height - unat REORG_BASE_MARGIN \<le> at_height - 2"
  by (auto simp: REORG_BASE_MARGIN_def max_def word_le_nat_alt intro: diff_le_mono2)

text \<open>C3. When scanning meets a continuity error, whatever the margin in use: if the wallet has any valid rewind
  target at least two below the conflicting block, it is rewound to such a target, so the stored block the new
  chain contradicts is gone and the next pass makes progress; otherwise the scan fails with the terminal
  reorg error and the database is unchanged.\<close>

theorem reorg_recovery:
  assumes "db_scan ops blocks (sr_start r) cs (sr_len r) db = (ScanContinuity at_height, db1)" "rewind_law ops db1 C"
  shows "(if \<exists>c \<in> C. c \<le> at_height - 2
     then \<exists>t h db2. scan_blocks ops blocks cs r margin db = (Inr \<lparr>so_ranges_changed = True, so_reorged = True\<rparr>, db2) \<and>
            db_truncate ops t db1 = (TruncOk h, db2) \<and> h \<in> C \<and> h \<le> t \<and> t \<le> at_height - 2
     else \<exists>u. scan_blocks ops blocks cs r margin db = (Inl (SyncReorg u), db1) \<and> ur_at_height u = at_height)"
proof -
  let ?req = "at_height - unat (max margin REORG_BASE_MARGIN)" and ?base = "at_height - unat REORG_BASE_MARGIN"
  note P = perform_rewind_cases [OF assms(2) margin_order(1) margin_order(2), of at_height margin]
  show ?thesis
  proof (cases "\<exists>c \<in> C. c \<le> at_height - 2")
    case True
    then obtain t h db2 where "perform_rewind ops at_height ?req ?base db1 = (Inr h, db2)" "t \<le> at_height - 2"
      "db_truncate ops t db1 = (TruncOk h, db2)" "h \<in> C" "h \<le> t"
      using P(1) by blast
    with True assms(1) show ?thesis by (auto simp: scan_blocks_def Let_def)
  next
    case False
    then obtain safe where "perform_rewind ops at_height ?req ?base db1 =
        (Inl (SyncReorg \<lparr>ur_at_height = at_height, ur_requested = ?req, ur_safe_rewind_height = safe\<rparr>), db1)"
      using P(2) by blast
    with False assms(1) show ?thesis by (simp add: scan_blocks_def Let_def)
  qed
qed


text \<open>A database that is its list of checkpoints, and reports a continuity error at block 100 on every scan.\<close>

definition sample_db_ops :: "(nat list, nat, unit, nat, nat, string) wallet_db" where
  "sample_db_ops = \<lparr>db_suggest = (\<lambda>_. Inr []), db_split_at = (\<lambda>_ _. None), db_verify = 9,
     db_scan = (\<lambda>_ _ _ _ db. (ScanContinuity 100, db)),
     db_truncate = (\<lambda>t db. if filter (\<lambda>c. c \<le> t) db = [] then (TruncInvalid None, db)
        else (TruncOk (Max (set (filter (\<lambda>c. c \<le> t) db))), filter (\<lambda>c. c \<le> t) db)),
     db_put_utxo = (\<lambda>_ db. (True, db)), db_address_for_index = (\<lambda>_ db. (True, db)),
     db_store_tx = (\<lambda>_ _ db. (True, db)), db_read_tx = (\<lambda>_ _. None)\<rparr>"

lemma sample_rewind_law: "rewind_law sample_db_ops db (set db)"
  unfolding rewind_law_def sample_db_ops_def by (auto simp: filter_empty_conv)

theorem reorg_recovery_witness:
  "\<exists>t h db2. scan_blocks sample_db_ops mem_new () \<lparr>sr_start = 90, sr_end = 110, sr_priority = 1\<rparr> 40 [97, 99, 105] =
      (Inr \<lparr>so_ranges_changed = True, so_reorged = True\<rparr>, db2) \<and>
    db_truncate sample_db_ops t [97, 99, 105] = (TruncOk h, db2) \<and> h \<in> {97, 99, 105} \<and> h \<le> t \<and> t \<le> 98"
  using reorg_recovery [OF _ sample_rewind_law, of mem_new "\<lparr>sr_start = 90, sr_end = 110, sr_priority = 1\<rparr>" "()"
      "[97, 99, 105]" 100 "[97, 99, 105]" 40]
  by (simp add: sample_db_ops_def)

text \<open>The rewind margin after \<open>k\<close> batches in a row that hit a reorg is ten times two to the \<open>k\<close>, capped at
  the batch size; it never overflows, and one clean batch puts it back to ten.\<close>

theorem reorg_margin_escalates:
  "unat (((\<lambda>m. next_reorg_margin m True) ^^ k) REORG_BASE_MARGIN) = min (10 * 2 ^ k) 10000 \<and>
   unat (next_reorg_margin m False) = 10"
proof (induction k)
  case (Suc k)
  let ?m = "((\<lambda>m. next_reorg_margin m True) ^^ k) REORG_BASE_MARGIN"
  have "unat (next_reorg_margin ?m True) = min (min (unat ?m * 2) (2 ^ 32 - 1)) 10000"
    by (simp add: next_reorg_margin_def min_def word_le_nat_alt unat_saturating_mul REORG_MAX_MARGIN_def
        DEFAULT_BATCH_SIZE_def)
  with Suc show ?case by (simp add: min_def)
qed (simp add: next_reorg_margin_def REORG_BASE_MARGIN_def)

section \<open>The ranges chosen\<close>

text \<open>
  The documented contract of \<open>ScanRange::split_at\<close>: at a height strictly inside the range, the two parts with
  the same priority; otherwise nothing.
\<close>

definition split_law :: "('db, 'p, 'cs, 'txid, 'addr, 'enc) wallet_db \<Rightarrow> bool" where
  "split_law ops \<longleftrightarrow> (\<forall>r p. db_split_at ops r p =
     (if sr_start r < p \<and> p < sr_end r then Some (r\<lparr>sr_end := p\<rparr>, r\<lparr>sr_start := p\<rparr>) else None))"

lemma select_range_split:
  "split_law ops \<Longrightarrow> select_range ops n r =
     (if sr_priority r = db_verify ops \<or> n = 0 \<or> sr_end r \<le> sr_start r + n then r
      else r\<lparr>sr_end := sr_start r + n\<rparr>)"
  by (auto simp: select_range_def split_law_def)

text \<open>The range a batch scans starts where the first suggested range starts, lies inside it, and is never
  longer than the batch size unless it is a \<open>Verify\<close> range, which is scanned whole.  The range prefetched
  meanwhile is exactly the range the next batch selects once the scanned part is gone from the front of the
  suggested range, and nothing is prefetched exactly when the batch finishes that range or scans it whole.\<close>

theorem prefetch_guess_exact:
  assumes "split_law ops" "0 < n" "sr_start r < sr_end r"
  shows "let cur = select_range ops n r; rest = r\<lparr>sr_start := sr_end cur\<rparr> in
    sr_start cur = sr_start r \<and> sr_start cur < sr_end cur \<and> sr_end cur \<le> sr_end r \<and> sr_priority cur = sr_priority r \<and>
    (sr_priority r = db_verify ops \<longrightarrow> cur = r) \<and> (sr_priority r \<noteq> db_verify ops \<longrightarrow> sr_len cur \<le> n) \<and>
    next_range_guess ops (r # others) cur n =
      (if sr_priority r = db_verify ops \<or> sr_end cur = sr_end r then None else Some (select_range ops n rest))"
  using assms by (auto simp: select_range_split next_range_guess_def split_law_def sr_len_def Let_def)

definition sample_split_ops :: "(nat list, nat, unit, nat, nat, string) wallet_db" where
  "sample_split_ops = sample_db_ops\<lparr>db_split_at := (\<lambda>r p.
     if sr_start r < p \<and> p < sr_end r then Some (r\<lparr>sr_end := p\<rparr>, r\<lparr>sr_start := p\<rparr>) else None)\<rparr>"

theorem prefetch_guess_exact_witness:
  "next_range_guess sample_split_ops [\<lparr>sr_start = 100, sr_end = 350, sr_priority = 1\<rparr>]
     (select_range sample_split_ops 100 \<lparr>sr_start = 100, sr_end = 350, sr_priority = 1\<rparr>) 100
   = Some \<lparr>sr_start = 200, sr_end = 300, sr_priority = 1\<rparr>"
proof -
  have law: "split_law sample_split_ops" by (simp add: split_law_def sample_split_ops_def)
  have verify: "db_verify sample_split_ops = 9" by (simp add: sample_split_ops_def sample_db_ops_def)
  show ?thesis
    using prefetch_guess_exact [OF law, of 100 "\<lparr>sr_start = 100, sr_end = 350, sr_priority = 1\<rparr>" "[]"]
    by (simp add: Let_def select_range_split [OF law] verify)
qed

section \<open>Prefetching changes nothing but the download time\<close>

lemma apply_batch_hit:
  "apply_batch ops up (b\<lparr>bp_prefetched := q\<rparr>) rs r True d db =
     (let (res, db') = apply_batch ops up (b\<lparr>bp_prefetched := q'\<rparr>) rs r False d db
      in (map_sum id (bo_prefetch_hit_update (\<lambda>_. True)) res, db'))"
  by (simp add: apply_batch_def Let_def split: sum.splits prod.splits)

text \<open>A batch that takes a prefetched range has the same result and leaves the same database as the same batch
  downloading for itself, for a wallet without transparent matching; only the report that the prefetch was used
  differs.  A prefetch of any other range is ignored.\<close>

theorem prefetch_transparent_to_result:
  assumes "prefetch_range tc blen (up_serve up) r = Inr p" "bp_transparent b = None" "bp_unspent b = None"
  shows "\<exists>hit. sync_one_batch tc blen ops up (b\<lparr>bp_prefetched := Some p\<rparr>) db =
    (let (res, db') = sync_one_batch tc blen ops up (b\<lparr>bp_prefetched := None\<rparr>) db
     in (map_sum id (bo_prefetch_hit_update (\<lambda>_. hit)) res, db'))"
proof -
  have p: "download_blocks tc blen (up_serve up) (sr_start r, sr_end r) None None = Inr (pf_downloaded p)" "pf_range p = r"
    using assms(1) by (auto simp: prefetch_range_def split: sum.splits if_splits)
  have no_hit: "apply_batch ops up (b\<lparr>bp_prefetched := Some p\<rparr>) rs q False d db =
      (let (res, db') = apply_batch ops up (b\<lparr>bp_prefetched := None\<rparr>) rs q False d db
       in (map_sum id (bo_prefetch_hit_update (\<lambda>_. False)) res, db'))" for rs q d
    by (simp add: apply_batch_def Let_def split: sum.splits prod.splits)
  show ?thesis
  proof (cases "db_suggest ops db")
    case (Inr rs)
    show ?thesis
    proof (cases rs)
      case (Cons first others)
      show ?thesis
      proof (cases "select_range ops (bp_batch_size b) first = r")
        case True
        with Inr Cons p assms(2,3) show ?thesis
          by (intro exI [of _ True]) (simp add: sync_one_batch_def Let_def apply_batch_hit [where q' = None])
      next
        case False
        with Inr Cons p assms(2,3) show ?thesis
          by (intro exI [of _ False]) (auto simp: sync_one_batch_def Let_def no_hit split: sum.splits)
      qed
    qed (auto simp: sync_one_batch_def Inr intro: exI [of _ False])
  qed (simp add: sync_one_batch_def)
qed

text \<open>A wallet with one block left to scan, from an upstream that serves it.\<close>

definition one_block_ops :: "(nat list, nat, unit, nat, nat, string) wallet_db" where
  "one_block_ops = sample_split_ops\<lparr>db_suggest := (\<lambda>db. Inr (if db = [] then [\<lparr>sr_start = 3, sr_end = 4, sr_priority = 1\<rparr>] else [])),
     db_scan := (\<lambda>blocks start _ _ db. (ScanOk, mc_heights blocks @ db))\<rparr>"

definition one_block_up :: "(unit, nat, string) upstream" where
  "one_block_up = \<lparr>up_serve = (\<lambda>_ start last_height. (map sample_chain [start..<last_height + 1], None)),
     up_tree_state = (\<lambda>_. Inr []), up_to_chain_state = (\<lambda>_. Inr ()), up_fetch_tx = (\<lambda>_. Inr None)\<rparr>"

definition one_block_batch :: "(nat, nat, nat, string) batch_params" where
  "one_block_batch = \<lparr>bp_transparent = None, bp_unspent = None, bp_reorg_margin = 10, bp_batch_size = 100,
     bp_prefetched = None, bp_prefetch = True\<rparr>"

lemma one_block_prefetch:
  "\<exists>p. prefetch_range sample_crate length (up_serve one_block_up) \<lparr>sr_start = 3, sr_end = 4, sr_priority = 1\<rparr> = Inr p"
  by (simp add: prefetch_range_def download_blocks_def download_loop.simps download_step_def download_range_once_def
      fold_block_def progress_init_def one_block_up_def sample_chain_def mem_push_def mem_new_def Let_def sr_len_def
      mem_len_def downloaded_of_def)

theorem prefetch_transparent_to_result_witness:
  "\<exists>p hit. sync_one_batch sample_crate length one_block_ops one_block_up (one_block_batch\<lparr>bp_prefetched := Some p\<rparr>) [] =
    (let (res, db') = sync_one_batch sample_crate length one_block_ops one_block_up (one_block_batch\<lparr>bp_prefetched := None\<rparr>) []
     in (map_sum id (bo_prefetch_hit_update (\<lambda>_. hit)) res, db'))"
proof -
  obtain p where "prefetch_range sample_crate length (up_serve one_block_up)
      \<lparr>sr_start = 3, sr_end = 4, sr_priority = 1 :: nat\<rparr> = Inr p"
    using one_block_prefetch by blast
  from prefetch_transparent_to_result [OF this, of one_block_batch one_block_ops "[]"]
  show ?thesis by (auto simp: one_block_batch_def)
qed

end
