(* ===== verification/Json_Rpc.thy ===== *)
theory Json_Rpc
  imports Rpc_Error
begin

text \<open>
  JSON-RPC framing, \<open>src/server/jsonrpc.rs\<close>: reading a request out of a JSON value, the response envelopes and
  the split of a body into a single call or a batch.  The JSON reader and printer are serde's and are the
  parameter \<open>json_crate\<close>; the members of an object are an association list with one entry per key.
\<close>

record json_crate =
  json_from_slice :: "u8 list \<Rightarrow> string + json"
  json_to_string :: "json \<Rightarrow> string"

definition json_get :: "string \<Rightarrow> json \<Rightarrow> json option" where
  "json_get k v = (case v of Object kvs \<Rightarrow> map_of kvs k | _ \<Rightarrow> None)"

definition as_str :: "json \<Rightarrow> string option" where
  "as_str v = (case v of String s \<Rightarrow> Some s | _ \<Rightarrow> None)"

section \<open>Requests\<close>

record rpc_request =
  rq_id :: json
  rq_method :: string
  rq_params :: "json list"

definition from_value :: "json_crate \<Rightarrow> json \<Rightarrow> (json \<times> rpc_error) + rpc_request" where
  "from_value jc v =
     (let rid = (case json_get ''id'' v of Some i \<Rightarrow> i | None \<Rightarrow> Null)
      in case Option.bind (json_get ''method'' v) as_str of
           None \<Rightarrow> Inl (rid, rpc_error_new RPC_INVALID_REQUEST (''Missing or invalid '' @ char_of (39 :: nat) # ''method'' @ [char_of (39 :: nat)]))
         | Some m \<Rightarrow>
             (case (case json_get ''params'' v of Some p \<Rightarrow> p | None \<Rightarrow> Null) of
                Null \<Rightarrow> Inr \<lparr>rq_id = rid, rq_method = m, rq_params = []\<rparr>
              | Array arr \<Rightarrow> Inr \<lparr>rq_id = rid, rq_method = m, rq_params = arr\<rparr>
              | Object _ \<Rightarrow> Inr \<lparr>rq_id = rid, rq_method = m, rq_params = []\<rparr>
              | other \<Rightarrow> Inl (rid, rpc_error_new RPC_INVALID_REQUEST
                  (char_of (39 :: nat) # ''params'' @ char_of (39 :: nat) # '' must be an array or object, got '' @ json_to_string jc other))))"

definition positional :: "string \<Rightarrow> json list \<Rightarrow> rpc_request" where
  "positional m ps = \<lparr>rq_id = Null, rq_method = m, rq_params = ps\<rparr>"

definition param :: "rpc_request \<Rightarrow> nat \<Rightarrow> json option" where
  "param rq i = (if i < length (rq_params rq) then Some (rq_params rq ! i) else None)"

definition require_str :: "rpc_request \<Rightarrow> nat \<Rightarrow> string \<Rightarrow> rpc_error + string" where
  "require_str rq i msg =
     (case param rq i of
        None \<Rightarrow> Inl (missing_param msg)
      | Some Null \<Rightarrow> Inl (missing_param msg)
      | Some v \<Rightarrow> (case as_str v of Some s \<Rightarrow> Inr s | None \<Rightarrow> Inl (type_error (msg @ '' (expected a string)''))))"

section \<open>Responses\<close>

definition success :: "json \<Rightarrow> json \<Rightarrow> json" where
  "success rid res = Object [(''result'', res), (''error'', Null), (''id'', rid)]"

definition json_int :: "int \<Rightarrow> json" where
  "json_int i = Number (if i < 0 then CHR ''-'' # show_nat (nat (- i)) else show_nat (nat i))"

definition error_response :: "json \<Rightarrow> rpc_error \<Rightarrow> json" where
  "error_response rid err =
     Object [(''result'', Null), (''error'', Object [(''code'', json_int (err_code err)), (''message'', String (err_message err))]),
             (''id'', rid)]"

section \<open>Bodies\<close>

datatype body = Single json | Batch "json list"

definition parse_body :: "json_crate \<Rightarrow> u8 list \<Rightarrow> rpc_error + body" where
  "parse_body jc bytes =
     (case json_from_slice jc bytes of
        Inl e \<Rightarrow> Inl (rpc_error_new RPC_PARSE_ERROR (''Parse error: '' @ e))
      | Inr v \<Rightarrow>
          (case v of
             Array arr \<Rightarrow>
               if arr = [] then Inl (rpc_error_new RPC_INVALID_REQUEST ''Empty batch'') else Inr (Batch arr)
           | Object _ \<Rightarrow> Inr (Single v)
           | _ \<Rightarrow> Inl (rpc_error_new RPC_INVALID_REQUEST ''Top-level request must be an object or array'')))"

section \<open>Facts\<close>

text \<open>The id of a request, as every response to it echoes it.\<close>

definition id_of :: "json \<Rightarrow> json" where
  "id_of v = (case json_get ''id'' v of Some i \<Rightarrow> i | None \<Rightarrow> Null)"

lemma from_value_id:
  "from_value jc v = Inr rq \<Longrightarrow> rq_id rq = id_of v"
  "from_value jc v = Inl (rid, e) \<Longrightarrow> rid = id_of v \<and> err_code e = RPC_INVALID_REQUEST"
  by (auto simp: from_value_def id_of_def Let_def split: option.splits json.splits)

lemma response_members [simp]:
  "json_get ''id'' (success rid res) = Some rid" "json_get ''id'' (error_response rid err) = Some rid"
  "json_get ''result'' (success rid res) = Some res" "json_get ''error'' (success rid res) = Some Null"
  "json_get ''result'' (error_response rid err) = Some Null"
  by (simp_all add: json_get_def success_def error_response_def)

lemma parse_body_batch: "parse_body jc bytes = Inr (Batch items) \<Longrightarrow> items \<noteq> [] \<and> json_from_slice jc bytes = Inr (Array items)"
  by (auto simp: parse_body_def split: sum.splits json.splits if_splits)

end
