(* ===== verification/Rpc_Auth.thy ===== *)
theory Rpc_Auth
  imports Rust_Text
begin

text \<open>
  HTTP Basic authentication, \<open>src/server/auth.rs\<close>: salted \<open>rpcauth\<close> credentials, the configured pair, the
  cookie file, and the check of a request's header.  HMAC-SHA256, base64 and UTF-8 decoding are parameters, the
  random bytes a function draws are its arguments, and the cookie is written to a file system that another
  process may change between two calls.
\<close>

record auth_crate =
  hmac_sha256 :: "string \<Rightarrow> string \<Rightarrow> u8 list"
  b64_decode :: "string \<Rightarrow> u8 list option"
  b64_url_encode :: "u8 list \<Rightarrow> string"
  from_utf8 :: "u8 list \<Rightarrow> string option"

datatype auth_error =
    BadHash
  | BadEntry
  | BadEntryFor string
  | EmptyPassword
  | EmptyEntry string
  | NoAuthConfigured
  | CookieWrite

section \<open>Salted password hashes\<close>

record password_hash =
  ph_salt :: string
  ph_hash :: "u8 list"

definition random_hex :: "u8 list \<Rightarrow> string" where
  "random_hex drawn = hex_encode drawn"

definition ph_compute :: "auth_crate \<Rightarrow> string \<Rightarrow> string \<Rightarrow> u8 list" where
  "ph_compute c password salt = hmac_sha256 c salt password"

definition ph_from_bare :: "auth_crate \<Rightarrow> u8 list \<Rightarrow> string \<Rightarrow> password_hash" where
  "ph_from_bare c drawn password =
     (let salt = random_hex drawn in \<lparr>ph_salt = salt, ph_hash = ph_compute c password salt\<rparr>)"

definition ph_check :: "auth_crate \<Rightarrow> password_hash \<Rightarrow> string \<Rightarrow> bool" where
  "ph_check c h password \<longleftrightarrow> ph_compute c password (ph_salt h) = ph_hash h"

definition ph_from_str :: "string \<Rightarrow> auth_error + password_hash" where
  "ph_from_str s =
     (case split_once CHR ''$'' s of
        None \<Rightarrow> Inl BadHash
      | Some (salt, hash_hex) \<Rightarrow>
          (case hex_decode hash_hex of
             Some bs \<Rightarrow> if length bs = 32 then Inr \<lparr>ph_salt = salt, ph_hash = bs\<rparr> else Inl BadHash
           | None \<Rightarrow> Inl BadHash))"

definition ph_display :: "password_hash \<Rightarrow> string" where
  "ph_display h = ph_salt h @ ''$'' @ hex_encode (ph_hash h)"

definition generate_rpcauth ::
  "auth_crate \<Rightarrow> u8 list \<Rightarrow> u8 list \<Rightarrow> string \<Rightarrow> string option \<Rightarrow> string \<times> string option" where
  "generate_rpcauth c drawn_salt drawn_password username password =
     (let salt = random_hex drawn_salt;
          (password, generated) = (case password of
              Some p \<Rightarrow> (p, None)
            | None \<Rightarrow> let p = b64_url_encode c drawn_password in (p, Some p));
          hash = ph_compute c password salt
      in (username @ '':'' @ salt @ ''$'' @ hex_encode hash, generated))"

definition run_rpcauth ::
  "auth_crate \<Rightarrow> u8 list \<Rightarrow> u8 list \<Rightarrow> string \<Rightarrow> string option \<Rightarrow> auth_error + (string \<times> string option)" where
  "run_rpcauth c drawn_salt drawn_password username password =
     (if password = Some [] then Inl EmptyPassword
      else Inr (generate_rpcauth c drawn_salt drawn_password username password))"

section \<open>The cookie file\<close>

datatype fs_entry = File nat string | Symlink string | Directory

type_synonym fs = "string \<rightharpoonup> fs_entry"

text \<open>
  Unlink what is at the path, then create it anew: an entry another process puts there in between, a symbolic
  link included, makes the exclusive open fail.  \<open>parent_ok\<close> is the result of creating the parent directory.
\<close>

definition write_cookie :: "bool \<Rightarrow> (fs \<Rightarrow> fs) \<Rightarrow> string \<Rightarrow> string \<Rightarrow> string \<Rightarrow> fs \<Rightarrow> bool \<times> fs" where
  "write_cookie parent_ok interfere path user password fs =
     (if \<not> parent_ok then (False, fs)
      else if fs path = Some Directory then (False, fs)
      else let fs = interfere (fs(path := None))
           in if fs path \<noteq> None then (False, fs)
              else (True, fs(path \<mapsto> File 384 (user @ '':'' @ password))))"

section \<open>The authenticator\<close>

record rpc_config =
  rc_auth :: "string list"
  rc_user :: "string option"
  rc_password :: "string option"
  rc_cookiefile :: "string option"

type_synonym authenticator = "(string \<times> password_hash) list"

fun parse_auth_entries :: "string list \<Rightarrow> auth_error + authenticator" where
  "parse_auth_entries [] = Inr []"
| "parse_auth_entries (entry # entries) =
     (case split_once CHR '':'' entry of
        None \<Rightarrow> Inl BadEntry
      | Some (user, pwhash) \<Rightarrow>
          (case ph_from_str pwhash of
             Inl _ \<Rightarrow> Inl (BadEntryFor user)
           | Inr h \<Rightarrow> (case parse_auth_entries entries of Inl e \<Rightarrow> Inl e | Inr hs \<Rightarrow> Inr ((user, h) # hs))))"

definition reject_empty_passwords :: "auth_crate \<Rightarrow> rpc_config \<Rightarrow> authenticator \<Rightarrow> auth_error + unit" where
  "reject_empty_passwords c rpc entries =
     (if rc_password rpc = Some [] then Inl EmptyPassword
      else case List.find (\<lambda>(_, h). ph_check c h []) entries of
             Some (user, _) \<Rightarrow> Inl (EmptyEntry user)
           | None \<Rightarrow> Inr ())"

definition check_config :: "auth_crate \<Rightarrow> rpc_config \<Rightarrow> auth_error + unit" where
  "check_config c rpc =
     sum_bind (parse_auth_entries (rc_auth rpc)) (\<lambda>entries.
     sum_bind (reject_empty_passwords c rpc entries) (\<lambda>_.
       if rc_user rpc \<noteq> None \<and> rc_password rpc \<noteq> None \<or> rc_cookiefile rpc \<noteq> None then Inr ()
       else Inl NoAuthConfigured))"

text \<open>\<open>put_file\<close> is \<open>write_cookie\<close> on the path, the user and the password; \<open>salt\<close> and \<open>cookie\<close> are the bytes drawn.\<close>

definition from_config ::
  "auth_crate \<Rightarrow> u8 list \<Rightarrow> u8 list \<Rightarrow> (string \<Rightarrow> string \<Rightarrow> string \<Rightarrow> fs \<Rightarrow> bool \<times> fs) \<Rightarrow> rpc_config \<Rightarrow> fs
     \<Rightarrow> (auth_error + authenticator) \<times> fs" where
  "from_config c salt cookie put_file rpc fs =
     (case sum_bind (parse_auth_entries (rc_auth rpc)) (\<lambda>users.
             sum_bind (reject_empty_passwords c rpc users) (\<lambda>_. Inr users)) of
        Inl e \<Rightarrow> (Inl e, fs)
      | Inr users \<Rightarrow>
          (case (rc_user rpc, rc_password rpc) of
             (Some user, Some password) \<Rightarrow> (Inr (users @ [(user, ph_from_bare c salt password)]), fs)
           | _ \<Rightarrow>
               (case rc_cookiefile rpc of
                  None \<Rightarrow> (Inl NoAuthConfigured, fs)
                | Some cookiefile \<Rightarrow>
                    (let password = random_hex cookie;
                         (ok, fs) = put_file cookiefile ''__cookie__'' password fs
                     in if \<not> ok then (Inl CookieWrite, fs)
                        else (Inr (users @ [(''__cookie__'', ph_from_bare c salt password)]), fs)))))"

text \<open>The credentials a header carries, as both functions below read them.\<close>

definition basic_credentials :: "auth_crate \<Rightarrow> string option \<Rightarrow> (string \<times> string) option" where
  "basic_credentials c header =
     Option.bind header (\<lambda>h.
     Option.bind (case strip_prefix ''Basic '' h of Some b \<Rightarrow> Some b | None \<Rightarrow> strip_prefix ''basic '' h) (\<lambda>b64.
     Option.bind (b64_decode c (trim b64)) (\<lambda>decoded.
     Option.bind (from_utf8 c decoded) (split_once CHR '':''))))"

text \<open>Every credential is checked, without stopping at the first match.\<close>

definition auth_check :: "auth_crate \<Rightarrow> authenticator \<Rightarrow> string option \<Rightarrow> bool" where
  "auth_check c users header =
     (case basic_credentials c header of
        None \<Rightarrow> False
      | Some (user, password) \<Rightarrow>
          fold (\<lambda>(u, h) found. let user_ok = (u = user); pass_ok = ph_check c h password in found \<or> (user_ok \<and> pass_ok))
            users False)"

definition basic_auth_username :: "auth_crate \<Rightarrow> string option \<Rightarrow> string option" where
  "basic_auth_username c header = map_option fst (basic_credentials c header)"

section \<open>Properties\<close>

lemma fold_found: "fold (\<lambda>x found. found \<or> P x) xs b \<longleftrightarrow> b \<or> (\<exists>x \<in> set xs. P x)"
  by (induction xs arbitrary: b) auto

lemma auth_check_iff:
  "auth_check c users header \<longleftrightarrow>
     (\<exists>user password h. basic_credentials c header = Some (user, password) \<and> (user, h) \<in> set users \<and> ph_check c h password)"
proof -
  have step: "(\<lambda>(u, h) found. let user_ok = (u = user); pass_ok = ph_check c h password in found \<or> (user_ok \<and> pass_ok)) =
      (\<lambda>x found. found \<or> (fst x = user \<and> ph_check c (snd x) password))" for user password
    by (auto simp: fun_eq_iff)
  show ?thesis
    unfolding auth_check_def step fold_found by (cases "basic_credentials c header") (auto intro: bexI [of _ "(_, _)"])
qed

lemma basic_credentials_header:
  "b64_decode c (trim b64) = Some bytes \<Longrightarrow> from_utf8 c bytes = Some (user @ '':'' @ password) \<Longrightarrow> CHR '':'' \<notin> set user \<Longrightarrow>
     basic_credentials c (Some (''Basic '' @ b64)) = Some (user, password)"
  using strip_prefix_append [of "''Basic ''" b64] by (simp add: basic_credentials_def)

lemma ph_roundtrip:
  "length (ph_hash h) = 32 \<Longrightarrow> CHR ''$'' \<notin> set (ph_salt h) \<Longrightarrow> ph_from_str (ph_display h) = Inr h"
  by (simp add: ph_from_str_def ph_display_def)

text \<open>A credential line printed by \<open>zecd rpcauth\<close> works: put into the configuration it is accepted, and a
  request authenticates as that user with the password, the generated one when none was given, and with no
  other password, short of an HMAC collision under the line's salt.\<close>

theorem rpcauth_line_authenticates:
  assumes "length (hmac_sha256 c (hex_encode drawn_salt) secret) = 32" "CHR '':'' \<notin> set username"
    and "generate_rpcauth c drawn_salt drawn_password username password = (line, generated)"
    and "secret = (case password of Some p \<Rightarrow> p | None \<Rightarrow> b64_url_encode c drawn_password)"
    and "b64_decode c (trim encoded) = Some bytes" "from_utf8 c bytes = Some (username @ '':'' @ attempt)"
  shows "\<exists>users. parse_auth_entries [line] = Inr users \<and> generated = (if password = None then Some secret else None) \<and>
    (auth_check c users (Some (''Basic '' @ encoded)) \<longleftrightarrow>
       hmac_sha256 c (hex_encode drawn_salt) attempt = hmac_sha256 c (hex_encode drawn_salt) secret)"
proof -
  let ?h = "\<lparr>ph_salt = hex_encode drawn_salt, ph_hash = hmac_sha256 c (hex_encode drawn_salt) secret\<rparr>"
  have line: "line = username @ '':'' @ ph_display ?h" and gen: "generated = (if password = None then Some secret else None)"
    using assms(3,4) by (auto simp: generate_rpcauth_def ph_display_def ph_compute_def random_hex_def Let_def split: option.splits)
  have "ph_from_str (ph_display ?h) = Inr ?h" by (rule ph_roundtrip) (simp_all add: assms(1) hex_encode_plain)
  with assms(2) have "parse_auth_entries [line] = Inr [(username, ?h)]" by (simp add: line)
  moreover have "auth_check c [(username, ?h)] (Some (''Basic '' @ encoded)) \<longleftrightarrow>
      hmac_sha256 c (hex_encode drawn_salt) attempt = hmac_sha256 c (hex_encode drawn_salt) secret"
    unfolding auth_check_iff basic_credentials_header [OF assms(5,6,2)] by (simp add: ph_check_def ph_compute_def)
  ultimately show ?thesis using gen by blast
qed

text \<open>An HMAC that tells the empty message apart, and a header that carries \<open>u:p\<close>.\<close>

definition sample_auth :: auth_crate where
  "sample_auth = \<lparr>hmac_sha256 = (\<lambda>_ m. replicate 31 0 @ [if m = [] then 0 else 1]), b64_decode = (\<lambda>_. Some []),
     b64_url_encode = (\<lambda>_. ''generated''), from_utf8 = (\<lambda>_. Some ''u:p'')\<rparr>"

theorem rpcauth_line_authenticates_witness:
  "\<exists>users. parse_auth_entries [fst (generate_rpcauth sample_auth [7] [] ''u'' (Some ''p''))] = Inr users \<and>
     auth_check sample_auth users (Some ''Basic dTpw'')"
  using rpcauth_line_authenticates [OF _ _ surjective_pairing refl, where c = sample_auth and drawn_salt = "[7]" and drawn_password = "[]"
      and username = "''u''" and password = "Some ''p''" and encoded = "''dTpw''" and bytes = "[]" and attempt = "''p''"]
  by (auto simp del: parse_auth_entries.simps simp: sample_auth_def)

text \<open>No configuration the daemon starts with lets anyone in with an empty password: whatever the header, a
  request that authenticates carries a non-empty password, unless the fresh salt makes some non-empty
  password collide with the empty one.\<close>

theorem no_empty_login:
  assumes "fst (from_config c salt cookie put_file rpc fs) = Inr users" "cookie \<noteq> []"
    and "\<forall>p. p \<noteq> [] \<longrightarrow> hmac_sha256 c (hex_encode salt) p \<noteq> hmac_sha256 c (hex_encode salt) []"
    and "auth_check c users header"
  shows "\<exists>user password. basic_credentials c header = Some (user, password) \<and> password \<noteq> []"
proof -
  from assms(1) obtain entries where e: "parse_auth_entries (rc_auth rpc) = Inr entries"
    "reject_empty_passwords c rpc entries = Inr ()"
    by (auto simp: from_config_def split: sum.splits simp: sum_bind_def)
  have fresh: "\<not> ph_check c (ph_from_bare c salt p) []" if "p \<noteq> []" for p
    using assms(3) that by (auto simp: ph_check_def ph_from_bare_def ph_compute_def random_hex_def Let_def)
  have old: "\<forall>(u, h) \<in> set entries. \<not> ph_check c h []"
    using e(2) by (auto simp: reject_empty_passwords_def find_None_iff split: option.splits if_splits)
  have nonempty: "random_hex cookie \<noteq> []" using assms(2) by (cases cookie) (simp_all add: random_hex_def hex_encode_def hex_byte_def)
  have "rc_password rpc \<noteq> Some []" using e(2) by (auto simp: reject_empty_passwords_def split: if_splits)
  then have "\<exists>u p. users = entries @ [(u, ph_from_bare c salt p)] \<and> p \<noteq> []"
    using assms(1) e nonempty by (auto simp: from_config_def Let_def split: option.splits prod.splits if_splits)
  then have all: "\<forall>(u, h) \<in> set users. \<not> ph_check c h []" using old fresh by auto
  from assms(4) obtain user password h where
    "basic_credentials c header = Some (user, password)" "(user, h) \<in> set users" "ph_check c h password"
    unfolding auth_check_iff by blast
  with all show ?thesis by (cases "password = []") auto
qed

theorem no_empty_login_witness:
  "\<exists>users user password. fst (from_config sample_auth [7] [1] (\<lambda>_ _ _ fs. (True, fs))
       \<lparr>rc_auth = [], rc_user = Some ''u'', rc_password = Some ''p'', rc_cookiefile = None\<rparr> Map.empty) = Inr users \<and>
     basic_credentials sample_auth (Some ''Basic dTpw'') = Some (user, password) \<and> password \<noteq> []"
proof -
  let ?users = "[(''u'', ph_from_bare sample_auth [7] ''p'')]"
  have cfg: "fst (from_config sample_auth [7] [1] (\<lambda>_ _ _ fs. (True, fs))
       \<lparr>rc_auth = [], rc_user = Some ''u'', rc_password = Some ''p'', rc_cookiefile = None\<rparr> Map.empty) = Inr ?users"
    by (simp add: from_config_def reject_empty_passwords_def)
  have cred: "basic_credentials sample_auth (Some ''Basic dTpw'') = Some (''u'', ''p'')" by code_simp
  have "auth_check sample_auth ?users (Some ''Basic dTpw'')"
    unfolding auth_check_iff cred by (simp add: ph_check_def ph_from_bare_def ph_compute_def Let_def)
  moreover have "\<forall>p. p \<noteq> [] \<longrightarrow> hmac_sha256 sample_auth (hex_encode [7]) p \<noteq> hmac_sha256 sample_auth (hex_encode [7]) []"
    by (simp add: sample_auth_def)
  ultimately show ?thesis using no_empty_login [OF cfg] cfg by blast
qed

text \<open>\<open>zecd config check\<close> reaches the verdict the daemon reaches at start-up, error included, when the cookie
  file can be written.\<close>

theorem check_config_agrees:
  assumes "\<And>path user password fs. fst (put_file path user password fs)"
  shows "(case fst (from_config c salt cookie put_file rpc fs) of Inl e \<Rightarrow> check_config c rpc = Inl e | Inr _ \<Rightarrow> check_config c rpc = Inr ())"
  using assms
  by (cases "parse_auth_entries (rc_auth rpc)")
    (auto simp: from_config_def check_config_def sum_bind_def Let_def split: sum.splits option.splits prod.splits,
      (metis fst_conv)+)

theorem check_config_agrees_witness:
  "check_config sample_auth \<lparr>rc_auth = [''bad''], rc_user = None, rc_password = None, rc_cookiefile = Some ''c''\<rparr> = Inl BadEntry"
  using check_config_agrees [where put_file = "\<lambda>_ _ _ fs. (True, fs)" and c = sample_auth and salt = "[]" and cookie = "[]"
      and rpc = "\<lparr>rc_auth = [''bad''], rc_user = None, rc_password = None, rc_cookiefile = Some ''c''\<rparr>" and fs = "Map.empty"]
  by (simp add: from_config_def)

text \<open>Writing the cookie never follows what is at the path, a link planted there included: on success the
  path is a fresh file with mode 0600 that holds the credential, every other entry is what the other processes
  left, and if an entry appeared after the unlink the write fails and changes nothing more.\<close>

theorem write_cookie_safe:
  assumes "write_cookie parent_ok interfere path user password fs = (ok, fs')"
  shows "(ok \<longrightarrow> fs' path = Some (File 384 (user @ '':'' @ password)) \<and>
           (\<forall>q. q \<noteq> path \<longrightarrow> fs' q = interfere (fs(path := None)) q) \<and> interfere (fs(path := None)) path = None) \<and>
    (\<not> ok \<longrightarrow> fs' = fs \<or> fs' = interfere (fs(path := None)))"
  using assms by (auto simp: write_cookie_def Let_def split: if_splits)

theorem write_cookie_safe_witness:
  "fst (write_cookie True (\<lambda>fs. fs(''t'' \<mapsto> File 420 ''x'')) ''c'' ''u'' ''p'' [''c'' \<mapsto> Symlink ''t'']) \<and>
   snd (write_cookie True (\<lambda>fs. fs(''t'' \<mapsto> File 420 ''x'')) ''c'' ''u'' ''p'' [''c'' \<mapsto> Symlink ''t'']) ''t'' = Some (File 420 ''x'')"
proof -
  let ?w = "write_cookie True (\<lambda>fs. fs(''t'' \<mapsto> File 420 ''x'')) ''c'' ''u'' ''p'' [''c'' \<mapsto> Symlink ''t'']"
  have "fst ?w" by (simp add: write_cookie_def Let_def)
  with write_cookie_safe [OF surjective_pairing, of True "\<lambda>fs. fs(''t'' \<mapsto> File 420 ''x'')" "''c''" "''u''" "''p''" "[''c'' \<mapsto> Symlink ''t'']"]
  show ?thesis by simp
qed

end
