(* ===== verification/Rpc_Server.thy ===== *)
theory Rpc_Server
  imports Json_Rpc Rpc_Auth Network Hash_Map "HOL-Library.Char_ord" "HOL-Library.List_Lexorder"
begin

text \<open>
  The RPC server: the set of loaded wallets (\<open>WalletRegistry\<close> of \<open>src/wallet/mod.rs\<close>), the tracker of running
  commands (\<open>src/state.rs\<close>), the method tables and gates of \<open>src/rpc/mod.rs\<close>, and the request handler of
  \<open>src/server/mod.rs\<close>.  A method's handler is the parameter \<open>handler\<close>: the theorems hold for every behaviour of
  the handlers.  Logging and the delay after a failed login are not modelled.
\<close>

section \<open>Loaded wallets\<close>

record 'h wallet_handle =
  wh_name :: string
  wh_inner :: 'h

datatype 'h coin_wallet = CwZcash "'h wallet_handle"

fun cw_name :: "'h coin_wallet \<Rightarrow> string" where "cw_name (CwZcash h) = wh_name h"

fun cw_coin :: "'h coin_wallet \<Rightarrow> coin" where "cw_coin (CwZcash h) = Zcash"

record 'h wallet_registry =
  wr_wallets :: "(string, 'h coin_wallet) hash_map"
  wr_default :: string

definition registry_new :: "string \<Rightarrow> 'h wallet_registry" where
  "registry_new d = \<lparr>wr_wallets = [], wr_default = d\<rparr>"

definition registry_insert :: "'h coin_wallet \<Rightarrow> 'h wallet_registry \<Rightarrow> 'h wallet_registry" where
  "registry_insert w r = r\<lparr>wr_wallets := hm_insert (cw_name w) w (wr_wallets r)\<rparr>"

definition registry_remove :: "string \<Rightarrow> 'h wallet_registry \<Rightarrow> bool \<times> 'h wallet_registry" where
  "registry_remove n r = (hm_get (wr_wallets r) n \<noteq> None, r\<lparr>wr_wallets := hm_remove n (wr_wallets r)\<rparr>)"

definition registry_contains :: "string \<Rightarrow> 'h wallet_registry \<Rightarrow> bool" where
  "registry_contains n r \<longleftrightarrow> hm_get (wr_wallets r) n \<noteq> None"

definition registry_is_empty :: "'h wallet_registry \<Rightarrow> bool" where
  "registry_is_empty r \<longleftrightarrow> wr_wallets r = []"

definition get_coin :: "'h wallet_registry \<Rightarrow> string option \<Rightarrow> rpc_error + 'h coin_wallet" where
  "get_coin r n =
     (let n = (case n of Some n \<Rightarrow> n | None \<Rightarrow> wr_default r)
      in case hm_get (wr_wallets r) n of
           Some w \<Rightarrow> Inr w
         | None \<Rightarrow> Inl (wallet_not_found (''Requested wallet does not exist or is not loaded: '' @ n)))"

definition registry_get :: "'h wallet_registry \<Rightarrow> string option \<Rightarrow> rpc_error + 'h wallet_handle" where
  "registry_get r n = sum_bind (get_coin r n) (\<lambda>w. case w of CwZcash h \<Rightarrow> Inr h)"

definition registry_names :: "'h wallet_registry \<Rightarrow> string list" where
  "registry_names r = sort (map fst (wr_wallets r))"

definition registry_snapshot :: "'h wallet_registry \<Rightarrow> (string \<times> 'h wallet_handle) list" where
  "registry_snapshot r = sort_key fst (map (\<lambda>(n, w). case w of CwZcash h \<Rightarrow> (n, h)) (wr_wallets r))"

section \<open>Running commands\<close>

record active_commands =
  ac_inner :: "(u64, string \<times> nat) hash_map"
  ac_next_id :: u64

definition active_begin :: "string \<Rightarrow> nat \<Rightarrow> active_commands \<Rightarrow> u64 \<times> active_commands" where
  "active_begin m now ac =
     (ac_next_id ac, \<lparr>ac_inner = hm_insert (ac_next_id ac) (m, now) (ac_inner ac), ac_next_id = ac_next_id ac + 1\<rparr>)"

definition active_snapshot :: "nat \<Rightarrow> active_commands \<Rightarrow> (string \<times> nat) list" where
  "active_snapshot now ac = map (\<lambda>(m, start). (m, now - start)) (hm_values (ac_inner ac))"

definition guard_drop :: "u64 \<Rightarrow> active_commands \<Rightarrow> active_commands" where
  "guard_drop i ac = ac\<lparr>ac_inner := hm_remove i (ac_inner ac)\<rparr>"

section \<open>Methods\<close>

definition ALL_METHODS :: "string list" where
  "ALL_METHODS =
    [
     ''stop'', ''uptime'', ''help'', ''getrpcinfo'', ''getnetworkinfo'', ''getconnectioncount'',
     ''getpeerinfo'', ''ping'', ''getblockchaininfo'', ''getblockcount'', ''getbestblockhash'',
     ''getblockhash'', ''getblockheader'', ''waitfornewblock'', ''waitforblock'', ''waitforblockheight'',
     ''waitforsync'', ''validateaddress'', ''signmessage'', ''verifymessage'', ''settxfee'',
     ''estimatesmartfee'', ''estimatefee'', ''getmempoolinfo'', ''getrawtransaction'', ''sendrawtransaction'',
     ''getbalance'', ''getbalances'', ''getunconfirmedbalance'', ''getwalletinfo'', ''getaddressinfo'',
     ''listtransactions'', ''z_listtransactions'', ''listsinceblock'', ''gettransaction'', ''listunspent'',
     ''getreceivedbyaddress'', ''listreceivedbyaddress'', ''listwallets'', ''listwalletdir'', ''createwallet'',
     ''loadwallet'', ''unloadwallet'', ''getnewaddress'', ''sendtoaddress'', ''sendmany'',
     ''walletpassphrase'', ''walletlock'', ''z_sendmany'', ''z_shieldcoinbase'', ''z_mergetoaddress'',
     ''z_getoperationstatus'', ''z_getoperationresult'', ''z_listoperationids'', ''z_validateaddress'',
     ''z_waitforoperation'', ''z_getaddressforaccount'', ''z_listunifiedreceivers'']"

definition MAX_POSITIONAL_ARGS :: "(string \<times> nat) list" where
  "MAX_POSITIONAL_ARGS =
    [
     (''stop'', 0), (''uptime'', 0), (''help'', 1), (''getrpcinfo'', 0), (''getnetworkinfo'', 0),
     (''getconnectioncount'', 0), (''getpeerinfo'', 0), (''ping'', 0), (''getblockchaininfo'', 0),
     (''getblockcount'', 0), (''getbestblockhash'', 0), (''getblockhash'', 1), (''getblockheader'', 2),
     (''waitfornewblock'', 1), (''waitforblock'', 2), (''waitforblockheight'', 2), (''waitforsync'', 1),
     (''validateaddress'', 1), (''settxfee'', 1), (''estimatesmartfee'', 2), (''estimatefee'', 1),
     (''getmempoolinfo'', 0), (''getrawtransaction'', 3), (''sendrawtransaction'', 2), (''getbalance'', 4),
     (''getbalances'', 0), (''getunconfirmedbalance'', 0), (''getwalletinfo'', 0), (''getaddressinfo'', 1),
     (''listtransactions'', 4), (''z_listtransactions'', 5), (''listsinceblock'', 4), (''gettransaction'', 3),
     (''listunspent'', 5), (''getreceivedbyaddress'', 3), (''listreceivedbyaddress'', 5), (''listwallets'', 0),
     (''listwalletdir'', 0), (''createwallet'', 9), (''loadwallet'', 2), (''unloadwallet'', 2),
     (''getnewaddress'', 2), (''sendtoaddress'', 12), (''sendmany'', 10), (''walletpassphrase'', 2),
     (''walletlock'', 0), (''signmessage'', 2), (''verifymessage'', 3), (''z_sendmany'', 5),
     (''z_shieldcoinbase'', 6), (''z_mergetoaddress'', 7), (''z_getoperationstatus'', 1),
     (''z_getoperationresult'', 1), (''z_listoperationids'', 1), (''z_validateaddress'', 1),
     (''z_waitforoperation'', 2), (''z_getaddressforaccount'', 3), (''z_listunifiedreceivers'', 1)]"

datatype method_coins_entry = MethodAll | MethodOnly "coin list"

definition ZCASH_ONLY :: "coin list" where "ZCASH_ONLY = [Zcash]"

definition METHOD_COINS :: "(string \<times> method_coins_entry) list" where
  "METHOD_COINS =
    [
     (''stop'', MethodAll), (''uptime'', MethodAll), (''help'', MethodAll), (''getrpcinfo'', MethodAll),
     (''getnetworkinfo'', MethodAll), (''getconnectioncount'', MethodAll), (''getpeerinfo'', MethodAll),
     (''ping'', MethodAll), (''getblockchaininfo'', MethodAll), (''getblockcount'', MethodAll),
     (''getbestblockhash'', MethodAll), (''getblockhash'', MethodAll), (''getblockheader'', MethodAll),
     (''waitfornewblock'', MethodAll), (''waitforblock'', MethodAll), (''waitforblockheight'', MethodAll),
     (''waitforsync'', MethodAll), (''validateaddress'', MethodAll), (''estimatesmartfee'', MethodAll),
     (''estimatefee'', MethodAll), (''getmempoolinfo'', MethodAll), (''signmessage'', MethodAll),
     (''verifymessage'', MethodAll), (''settxfee'', MethodAll), (''sendrawtransaction'', MethodAll),
     (''getrawtransaction'', MethodAll), (''getbalance'', MethodAll), (''getbalances'', MethodAll),
     (''getunconfirmedbalance'', MethodAll), (''getwalletinfo'', MethodAll), (''listwallets'', MethodAll),
     (''listwalletdir'', MethodAll), (''listtransactions'', MethodAll), (''listsinceblock'', MethodAll),
     (''gettransaction'', MethodAll), (''listunspent'', MethodAll), (''getreceivedbyaddress'', MethodAll),
     (''listreceivedbyaddress'', MethodAll), (''getaddressinfo'', MethodAll),
     (''z_listtransactions'', MethodOnly ZCASH_ONLY), (''createwallet'', MethodAll),
     (''loadwallet'', MethodAll), (''unloadwallet'', MethodAll), (''getnewaddress'', MethodAll),
     (''sendtoaddress'', MethodAll), (''sendmany'', MethodAll), (''walletpassphrase'', MethodAll),
     (''walletlock'', MethodAll), (''z_sendmany'', MethodOnly ZCASH_ONLY),
     (''z_shieldcoinbase'', MethodOnly ZCASH_ONLY), (''z_mergetoaddress'', MethodOnly ZCASH_ONLY),
     (''z_getoperationstatus'', MethodOnly ZCASH_ONLY), (''z_getoperationresult'', MethodOnly ZCASH_ONLY),
     (''z_listoperationids'', MethodOnly ZCASH_ONLY), (''z_validateaddress'', MethodOnly ZCASH_ONLY),
     (''z_waitforoperation'', MethodOnly ZCASH_ONLY), (''z_getaddressforaccount'', MethodOnly ZCASH_ONLY),
     (''z_listunifiedreceivers'', MethodOnly ZCASH_ONLY)]"

definition DISPATCH_ARMS :: "string list" where
  "DISPATCH_ARMS =
    [
     ''stop'', ''uptime'', ''help'', ''getrpcinfo'', ''getnetworkinfo'', ''getconnectioncount'',
     ''getpeerinfo'', ''ping'', ''getblockchaininfo'', ''getblockcount'', ''getbestblockhash'',
     ''getblockhash'', ''getblockheader'', ''waitfornewblock'', ''waitforblock'', ''waitforblockheight'',
     ''waitforsync'', ''validateaddress'', ''signmessage'', ''verifymessage'', ''settxfee'',
     ''estimatesmartfee'', ''estimatefee'', ''getmempoolinfo'', ''getrawtransaction'', ''sendrawtransaction'',
     ''getbalance'', ''getbalances'', ''getunconfirmedbalance'', ''getwalletinfo'', ''getaddressinfo'',
     ''listtransactions'', ''z_listtransactions'', ''listsinceblock'', ''gettransaction'', ''listunspent'',
     ''getreceivedbyaddress'', ''listreceivedbyaddress'', ''listwallets'', ''listwalletdir'', ''createwallet'',
     ''loadwallet'', ''unloadwallet'', ''getnewaddress'', ''sendtoaddress'', ''sendmany'',
     ''walletpassphrase'', ''walletlock'', ''z_sendmany'', ''z_shieldcoinbase'', ''z_mergetoaddress'',
     ''z_getoperationstatus'', ''z_getoperationresult'', ''z_listoperationids'', ''z_validateaddress'',
     ''z_waitforoperation'', ''z_getaddressforaccount'', ''z_listunifiedreceivers'']"

definition is_known_method :: "string \<Rightarrow> bool" where
  "is_known_method m \<longleftrightarrow> m \<in> set ALL_METHODS"

definition method_coins :: "string \<Rightarrow> method_coins_entry option" where
  "method_coins m = map_option snd (List.find (\<lambda>(k, _). k = m) METHOD_COINS)"

definition max_positional_args :: "string \<Rightarrow> nat option" where
  "max_positional_args m = map_option snd (List.find (\<lambda>(k, _). k = m) MAX_POSITIONAL_ARGS)"

definition check_arity :: "rpc_request \<Rightarrow> rpc_error + unit" where
  "check_arity rq =
     (case max_positional_args (rq_method rq) of
        Some n \<Rightarrow>
          if length (rq_params rq) > n
          then Inl (misc (rq_method rq @ '' takes at most '' @ show_nat n @ '' argument(s) ('' @
                 show_nat (length (rq_params rq)) @ '' provided)''))
          else Inr ()
      | None \<Rightarrow> Inr ())"

text \<open>The state the handlers share: what they read and change is \<open>as_rest\<close>; a handler may ask for shutdown.\<close>

record ('h, 's) app_state =
  as_allowed_methods :: "string list"
  as_registry :: "'h wallet_registry"
  as_shutting_down :: bool
  as_permits :: nat
  as_active :: active_commands
  as_rest :: 's

type_synonym ('h, 's) handler = "string option \<Rightarrow> rpc_request \<Rightarrow> 'h wallet_registry \<Rightarrow> 's
  \<Rightarrow> (rpc_error + json) \<times> 'h wallet_registry \<times> 's \<times> bool"

definition trigger_shutdown :: "('h, 's) app_state \<Rightarrow> ('h, 's) app_state" where
  "trigger_shutdown st = st\<lparr>as_shutting_down := True\<rparr>"

definition dispatch_zecd ::
  "('h, 's) handler \<Rightarrow> string option \<Rightarrow> rpc_request \<Rightarrow> ('h, 's) app_state \<Rightarrow> (rpc_error + json) \<times> ('h, 's) app_state" where
  "dispatch_zecd handler wallet rq st =
     (if rq_method rq \<in> set DISPATCH_ARMS
      then let (res, reg, rest, stop) = handler wallet rq (as_registry st) (as_rest st);
               st = st\<lparr>as_registry := reg, as_rest := rest\<rparr>
           in (res, if stop then trigger_shutdown st else st)
      else (Inl (method_not_found (rq_method rq)), st))"

definition dispatch ::
  "('h, 's) handler \<Rightarrow> string option \<Rightarrow> rpc_request \<Rightarrow> ('h, 's) app_state \<Rightarrow> (rpc_error + json) \<times> ('h, 's) app_state" where
  "dispatch handler wallet rq st =
     (let safelist = as_allowed_methods st
      in if safelist \<noteq> [] \<and> \<not> list_ex (\<lambda>m. m = rq_method rq) safelist
         then (Inl (method_not_found (rq_method rq)), st)
         else case check_arity rq of
                Inl e \<Rightarrow> (Inl e, st)
              | Inr _ \<Rightarrow>
                  (case method_coins (rq_method rq) of
                     Some (MethodOnly coins) \<Rightarrow>
                       (case get_coin (as_registry st) wallet of
                          Inr w \<Rightarrow> if cw_coin w \<in> set coins then dispatch_zecd handler wallet rq st
                                   else (Inl (method_not_found (rq_method rq)), st)
                        | Inl _ \<Rightarrow> dispatch_zecd handler wallet rq st)
                   | _ \<Rightarrow> dispatch_zecd handler wallet rq st))"

section \<open>Requests\<close>

definition status_for :: "rpc_error \<Rightarrow> nat" where
  "status_for e = http_status_for_code (err_code e)"

definition process_single ::
  "json_crate \<Rightarrow> ('h, 's) handler \<Rightarrow> nat \<Rightarrow> string option \<Rightarrow> json \<Rightarrow> ('h, 's) app_state \<Rightarrow> (json \<times> nat) \<times> ('h, 's) app_state" where
  "process_single jc handler now wallet v st =
     (case from_value jc v of
        Inl (rid, err) \<Rightarrow> ((error_response rid err, status_for err), st)
      | Inr rq \<Rightarrow>
          (let (guard, active) = active_begin (rq_method rq) now (as_active st);
               (res, st) = dispatch handler wallet rq (st\<lparr>as_active := active\<rparr>);
               st = st\<lparr>as_active := guard_drop guard (as_active st)\<rparr>
           in case res of
                Inr value \<Rightarrow> ((success (rq_id rq) value, 200), st)
              | Inl err \<Rightarrow> ((error_response (rq_id rq) err, status_for err), st)))"

fun process_batch ::
  "json_crate \<Rightarrow> ('h, 's) handler \<Rightarrow> nat \<Rightarrow> string option \<Rightarrow> json list \<Rightarrow> ('h, 's) app_state \<Rightarrow> json list \<times> ('h, 's) app_state" where
  "process_batch jc handler now wallet [] st = ([], st)"
| "process_batch jc handler now wallet (v # vs) st =
     (let ((resp, _), st) = process_single jc handler now wallet v st;
          (resps, st) = process_batch jc handler now wallet vs st
      in (resp # resps, st))"

datatype http_response = PlainResponse nat string | JsonResponse nat json | Unauthorized

text \<open>The two gates in front of authentication; \<open>try_acquire_owned\<close> takes a permit or fails.\<close>

definition admit :: "('h, 's) app_state \<Rightarrow> http_response + ('h, 's) app_state" where
  "admit st =
     (if as_shutting_down st then Inl (PlainResponse 503 ''Request rejected during server shutdown'')
      else if as_permits st = 0 then Inl (PlainResponse 503 ''Work queue depth exceeded'')
      else Inr (st\<lparr>as_permits := as_permits st - 1\<rparr>))"

definition release_permit :: "('h, 's) app_state \<Rightarrow> ('h, 's) app_state" where
  "release_permit st = st\<lparr>as_permits := as_permits st + 1\<rparr>"

definition handle ::
  "auth_crate \<Rightarrow> json_crate \<Rightarrow> ('h, 's) handler \<Rightarrow> authenticator \<Rightarrow> nat \<Rightarrow> string option \<Rightarrow> string option \<Rightarrow> u8 list
     \<Rightarrow> ('h, 's) app_state \<Rightarrow> http_response \<times> ('h, 's) app_state" where
  "handle ac jc handler auth now wallet auth_header body st =
     (case admit st of
        Inl r \<Rightarrow> (r, st)
      | Inr st \<Rightarrow>
          if \<not> auth_check ac auth auth_header then (Unauthorized, release_permit st)
          else case parse_body jc body of
                 Inl e \<Rightarrow> (JsonResponse (status_for e) (error_response Null e), release_permit st)
               | Inr (Single v) \<Rightarrow>
                   (let ((resp, status), st) = process_single jc handler now wallet v st
                    in (JsonResponse status resp, release_permit st))
               | Inr (Batch items) \<Rightarrow>
                   (let (out, st) = process_batch jc handler now wallet items st
                    in (JsonResponse 200 (Array out), release_permit st)))"

section \<open>Properties\<close>

text \<open>The four method tables of the dispatcher agree: the same 58 names, each once, in the list of methods, the
  arity table, the coin table and the dispatch arms; exactly the methods with the \<open>z_\<close> prefix are served by
  Zcash wallets only.\<close>

theorem method_tables_agree:
  "distinct ALL_METHODS \<and> length ALL_METHODS = 58 \<and>
   mset (map fst MAX_POSITIONAL_ARGS) = mset ALL_METHODS \<and> mset (map fst METHOD_COINS) = mset ALL_METHODS \<and>
   mset DISPATCH_ARMS = mset ALL_METHODS \<and>
   list_all (\<lambda>(m, c). c = (if starts_with m ''z_'' then MethodOnly ZCASH_ONLY else MethodAll)) METHOD_COINS"
proof -
  have "distinct ALL_METHODS" by code_simp
  moreover have "length ALL_METHODS = 58" by code_simp
  moreover have "sort (map fst MAX_POSITIONAL_ARGS) = sort ALL_METHODS" by code_simp
  moreover have "sort (map fst METHOD_COINS) = sort ALL_METHODS" by code_simp
  moreover have "sort DISPATCH_ARMS = sort ALL_METHODS" by code_simp
  moreover have "list_all (\<lambda>(m, c). c = (if starts_with m ''z_'' then MethodOnly ZCASH_ONLY else MethodAll)) METHOD_COINS" by code_simp
  ultimately show ?thesis by (metis mset_sort)
qed

lemma arms_known: "set DISPATCH_ARMS = set ALL_METHODS" "set (map fst MAX_POSITIONAL_ARGS) = set ALL_METHODS"
  by (code_simp, code_simp)

lemma find_fst_Some: "k \<in> fst ` set kvs \<Longrightarrow> \<exists>v. List.find (\<lambda>(k', _). k' = k) kvs = Some (k, v)"
  by (induction kvs) auto

lemma find_fst_None: "k \<notin> fst ` set kvs \<Longrightarrow> List.find (\<lambda>(k', _). k' = k) kvs = None"
  by (induction kvs) auto

lemma max_positional_args_known: "(\<exists>n. max_positional_args m = Some n) \<longleftrightarrow> is_known_method m"
proof (cases "is_known_method m")
  case True
  then have "m \<in> fst ` set MAX_POSITIONAL_ARGS" using arms_known(2) by (simp add: is_known_method_def)
  from find_fst_Some [OF this] True show ?thesis by (auto simp: max_positional_args_def)
next
  case False
  then have "m \<notin> fst ` set MAX_POSITIONAL_ARGS" using arms_known(2) by (simp add: is_known_method_def)
  from find_fst_None [OF this] False show ?thesis by (simp add: max_positional_args_def)
qed

lemma coin_gate_open: "method_coins m = Some (MethodOnly coins) \<Longrightarrow> cw_coin w \<in> set coins"
proof -
  assume "method_coins m = Some (MethodOnly coins)"
  then have "MethodOnly coins \<in> snd ` set METHOD_COINS"
    by (auto simp: method_coins_def find_Some_iff image_iff) (metis nth_mem snd_conv)
  moreover have "snd ` set METHOD_COINS = {MethodAll, MethodOnly ZCASH_ONLY}" by code_simp
  ultimately show ?thesis by (cases w) (auto simp: ZCASH_ONLY_def)
qed

lemma dispatch_unfold:
  "dispatch handler wallet rq st =
     (if as_allowed_methods st \<noteq> [] \<and> rq_method rq \<notin> set (as_allowed_methods st)
      then (Inl (method_not_found (rq_method rq)), st)
      else case check_arity rq of Inl e \<Rightarrow> (Inl e, st) | Inr _ \<Rightarrow> dispatch_zecd handler wallet rq st)"
  by (auto simp: dispatch_def Let_def list_ex_iff coin_gate_open split: sum.splits option.splits method_coins_entry.splits)

text \<open>A method outside a non-empty safelist is answered exactly as one that does not exist and nothing runs.
  A known, allowed method with more positional arguments than it declares is refused with Core's help error
  and nothing runs; otherwise its handler runs and its result is the answer, whatever the wallet: the coin
  gate never refuses a loaded wallet.\<close>

theorem dispatch_gates:
  assumes "m = rq_method rq" "blocked = (as_allowed_methods st \<noteq> [] \<and> m \<notin> set (as_allowed_methods st))"
  shows "(blocked \<or> \<not> is_known_method m \<longrightarrow> dispatch handler wallet rq st = (Inl (method_not_found m), st)) \<and>
    (\<not> blocked \<and> is_known_method m \<longrightarrow> (\<exists>n. max_positional_args m = Some n \<and>
       (if n < length (rq_params rq)
        then \<exists>e. dispatch handler wallet rq st = (Inl e, st) \<and> err_code e = RPC_MISC_ERROR
        else dispatch handler wallet rq st = dispatch_zecd handler wallet rq st \<and>
             fst (dispatch handler wallet rq st) = fst (handler wallet rq (as_registry st) (as_rest st)))))"
proof (intro conjI impI)
  assume "blocked \<or> \<not> is_known_method m"
  moreover have "max_positional_args m = None" if "\<not> is_known_method m" using that max_positional_args_known [of m] by auto
  ultimately show "dispatch handler wallet rq st = (Inl (method_not_found m), st)"
    by (auto simp: dispatch_unfold assms check_arity_def dispatch_zecd_def arms_known is_known_method_def)
next
  assume known: "\<not> blocked \<and> is_known_method m"
  then obtain n where n: "max_positional_args m = Some n" using max_positional_args_known [of m] by auto
  from known have arm: "m \<in> set DISPATCH_ARMS" by (simp add: arms_known is_known_method_def)
  show "\<exists>n. max_positional_args m = Some n \<and>
       (if n < length (rq_params rq)
        then \<exists>e. dispatch handler wallet rq st = (Inl e, st) \<and> err_code e = RPC_MISC_ERROR
        else dispatch handler wallet rq st = dispatch_zecd handler wallet rq st \<and>
             fst (dispatch handler wallet rq st) = fst (handler wallet rq (as_registry st) (as_rest st)))"
    using known n arm assms
    by (intro exI [of _ n])
      (auto simp: dispatch_unfold assms check_arity_def dispatch_zecd_def misc_def Let_def split: prod.splits)
qed

definition sample_state :: "(unit, nat) app_state" where
  "sample_state = \<lparr>as_allowed_methods = [''uptime''], as_registry = registry_new ''default'', as_shutting_down = False,
     as_permits = 1, as_active = \<lparr>ac_inner = [], ac_next_id = 0\<rparr>, as_rest = 5\<rparr>"

theorem dispatch_gates_witness:
  "dispatch (\<lambda>_ _ reg s. (Inr Null, reg, s + 1, False)) None (positional ''getbalance'' []) sample_state =
     (Inl (method_not_found ''getbalance''), sample_state) \<and>
   fst (dispatch (\<lambda>_ _ reg s. (Inr Null, reg, s + 1, False)) None (positional ''uptime'' []) sample_state) = Inr Null"
proof -
  have "is_known_method ''uptime''" "max_positional_args ''uptime'' = Some 0" by code_simp+
  then show ?thesis
    using dispatch_gates [OF refl refl, where rq = "positional ''getbalance'' []" and st = sample_state and wallet = None
        and handler = "\<lambda>_ _ reg s. (Inr Null, reg, s + 1, False)"]
      dispatch_gates [OF refl refl, where rq = "positional ''uptime'' []" and st = sample_state and wallet = None
        and handler = "\<lambda>_ _ reg s. (Inr Null, reg, s + 1, False)"]
    by (auto simp: positional_def sample_state_def)
qed



lemma process_single_id: "json_get ''id'' (fst (fst (process_single jc handler now wallet v st))) = Some (id_of v)"
  using from_value_id(1) [of jc v] from_value_id(2) [of jc v]
  by (auto simp: process_single_def Let_def split: sum.splits prod.splits)

lemma process_batch_ids:
  "length (fst (process_batch jc handler now wallet vs st)) = length vs \<and>
   (\<forall>i < length vs. json_get ''id'' (fst (process_batch jc handler now wallet vs st) ! i) = Some (id_of (vs ! i)))"
proof (induction vs arbitrary: st)
  case (Cons v vs)
  obtain resp status st1 where p: "process_single jc handler now wallet v st = ((resp, status), st1)" by (metis prod.exhaust)
  have "json_get ''id'' resp = Some (id_of v)" using process_single_id [of jc handler now wallet v st] p by simp
  with Cons.IH [of st1] p show ?case by (auto simp: Let_def nth_Cons split: prod.splits nat.splits)
qed simp

lemma process_permits:
  "as_permits (snd (process_single jc handler now wallet v st)) = as_permits st"
  by (auto simp: process_single_def dispatch_unfold dispatch_zecd_def trigger_shutdown_def Let_def
      split: sum.splits prod.splits)

lemma process_batch_permits: "as_permits (snd (process_batch jc handler now wallet vs st)) = as_permits st"
  by (induction vs arbitrary: st) (auto simp: Let_def split: prod.splits, metis process_permits snd_conv)

text \<open>An admitted, authenticated batch is answered with status 200 and an array with one response per call, in
  the order of the calls, each carrying its call's id, whatever the calls do; a batch of one carries the
  response the same call gets on its own.  Every request gives its permit back.\<close>

theorem batch_answered_in_order:
  assumes "admit st = Inr st0" "auth_check ac auth auth_header" "parse_body jc body = Inr (Batch items)"
  shows "\<exists>out. fst (handle ac jc handler auth now wallet auth_header body st) = JsonResponse 200 (Array out) \<and>
    length out = length items \<and> items \<noteq> [] \<and>
    (\<forall>i < length items. json_get ''id'' (out ! i) = Some (id_of (items ! i))) \<and>
    (\<forall>v. items = [v] \<longrightarrow> out = [fst (fst (process_single jc handler now wallet v st0))]) \<and>
    as_permits (snd (handle ac jc handler auth now wallet auth_header body st)) = as_permits st"
proof -
  obtain out st' where b: "process_batch jc handler now wallet items st0 = (out, st')" by (metis surj_pair)
  have h: "handle ac jc handler auth now wallet auth_header body st = (JsonResponse 200 (Array out), release_permit st')"
    using assms b by (simp add: handle_def)
  have "as_permits st' = as_permits st0" using process_batch_permits [of jc handler now wallet items st0] b by simp
  moreover have "as_permits st = as_permits st0 + 1" using assms(1) by (auto simp: admit_def split: if_splits)
  moreover have "items = [v] \<longrightarrow> out = [fst (fst (process_single jc handler now wallet v st0))]" for v
    using b by (auto simp: Let_def split: prod.splits)
  ultimately show ?thesis
    using process_batch_ids [of jc handler now wallet items st0] b parse_body_batch [OF assms(3)]
    by (auto simp: h release_permit_def)
qed

theorem batch_answered_in_order_witness:
  "\<exists>out. fst (handle sample_auth \<lparr>json_from_slice = (\<lambda>_. Inr (Array [Object [(''id'', Number ''7'')], Null])), json_to_string = (\<lambda>_. [])\<rparr>
     (\<lambda>_ _ reg s. (Inr Null, reg, s + 1, False)) [(''u'', ph_from_bare sample_auth [7] ''p'')] 0 None (Some ''Basic dTpw'') []
     sample_state) = JsonResponse 200 (Array out) \<and> map (json_get ''id'') out = [Some (Number ''7''), Some Null]"
proof -
  let ?jc = "\<lparr>json_from_slice = (\<lambda>_. Inr (Array [Object [(''id'', Number ''7'')], Null])), json_to_string = (\<lambda>_. [])\<rparr>"
  let ?h = "\<lambda>_ _ reg s. (Inr Null, reg, s + 1, False)"
  let ?auth = "[(''u'', ph_from_bare sample_auth [7] ''p'')]"
  have adm: "admit sample_state = Inr (sample_state\<lparr>as_permits := 0\<rparr>)" by (simp add: admit_def sample_state_def)
  have cred: "basic_credentials sample_auth (Some ''Basic dTpw'') = Some (''u'', ''p'')" by code_simp
  have auth: "auth_check sample_auth ?auth (Some ''Basic dTpw'')"
    unfolding auth_check_iff cred by (simp add: ph_check_def ph_from_bare_def ph_compute_def Let_def)
  have body: "parse_body ?jc [] = Inr (Batch [Object [(''id'', Number ''7'')], Null])" by (simp add: parse_body_def)
  from batch_answered_in_order [OF adm auth body, of ?h 0 None] obtain out where out:
    "fst (handle sample_auth ?jc ?h ?auth 0 None (Some ''Basic dTpw'') [] sample_state) = JsonResponse 200 (Array out)"
    and len: "length out = Suc (Suc 0)"
    and ids: "\<forall>i < length [Object [(''id'', Number ''7'')], Null]. json_get ''id'' (out ! i) = Some (id_of ([Object [(''id'', Number ''7'')], Null] ! i))"
    by (elim exE conjE) simp
  from len obtain a b where ab: "out = [a, b]" by (auto simp: length_Suc_conv)
  have "json_get ''id'' a = Some (Number ''7'')" "json_get ''id'' b = Some Null"
    using ids [rule_format, of 0] ids [rule_format, of 1] by (simp_all add: ab id_of_def json_get_def)
  with out show ?thesis by (simp add: ab)
qed

section \<open>Concurrent requests\<close>

text \<open>
  Requests in flight, each between its calls or running one (its guard), with the shared part of the state they
  race on: a request is admitted, begins a call, ends it, and leaves; shutdown may be triggered at any moment.
  The first argument counts the calls begun.
\<close>

inductive requests_reachable :: "nat \<Rightarrow> nat \<Rightarrow> ('h, 's) app_state \<Rightarrow> u64 option list \<Rightarrow> bool" where
  req_init: "as_permits st = cap \<Longrightarrow> as_active st = \<lparr>ac_inner = [], ac_next_id = 0\<rparr> \<Longrightarrow> requests_reachable cap 0 st []"
| req_admit: "requests_reachable cap n st F \<Longrightarrow> admit st = Inr st' \<Longrightarrow> requests_reachable cap n st' (None # F)"
| req_begin: "requests_reachable cap n st (F @ None # G) \<Longrightarrow> active_begin m now (as_active st) = (i, act) \<Longrightarrow>
    requests_reachable cap (Suc n) (st\<lparr>as_active := act\<rparr>) (F @ Some i # G)"
| req_end: "requests_reachable cap n st (F @ Some i # G) \<Longrightarrow>
    requests_reachable cap n (st\<lparr>as_active := guard_drop i (as_active st)\<rparr>) (F @ None # G)"
| req_leave: "requests_reachable cap n st (F @ None # G) \<Longrightarrow> requests_reachable cap n (release_permit st) (F @ G)"
| req_shutdown: "requests_reachable cap n st F \<Longrightarrow> requests_reachable cap n (trigger_shutdown st) F"

definition running :: "u64 option list \<Rightarrow> u64 list" where
  "running F = List.map_filter id F"

lemma running_simps [simp]:
  "running [] = []" "running (None # F) = running F" "running (Some i # F) = i # running F"
  "running (F @ G) = running F @ running G"
  by (simp_all add: running_def map_filter_def)

definition requests_inv :: "nat \<Rightarrow> nat \<Rightarrow> ('h, 's) app_state \<Rightarrow> u64 option list \<Rightarrow> bool" where
  "requests_inv cap n st F \<longleftrightarrow> as_permits st + length F = cap \<and>
     (n \<le> 2 ^ 64 \<longrightarrow> hm_ok (ac_inner (as_active st)) \<and> ac_next_id (as_active st) = of_nat n \<and>
        distinct (running F) \<and> set (running F) = fst ` set (ac_inner (as_active st)) \<and> (\<forall>i \<in> set (running F). unat i < n))"

lemma requests_reachable_inv: "requests_reachable cap n st F \<Longrightarrow> requests_inv cap n st F"
proof (induction rule: requests_reachable.induct)
  case (req_admit cap n st F st')
  then show ?case by (auto simp: requests_inv_def admit_def split: if_splits)
next
  case (req_begin cap n st F G m now i act)
  have i: "i = ac_next_id (as_active st)" "act = \<lparr>ac_inner = hm_insert i (m, now) (ac_inner (as_active st)), ac_next_id = i + 1\<rparr>"
    using req_begin.hyps by (auto simp: active_begin_def)
  show ?case
  proof (cases "Suc n \<le> 2 ^ 64")
    case True
    then have n: "n < 2 ^ 64" by simp
    then have un: "unat (of_nat n :: u64) = n" by (simp add: unat_of_nat take_bit_nat_eq_self)
    have inv: "hm_ok (ac_inner (as_active st))" "i = of_nat n" "distinct (running (F @ None # G))"
      "set (running (F @ None # G)) = fst ` set (ac_inner (as_active st))" "\<forall>j \<in> set (running (F @ None # G)). unat j < n"
      using req_begin.IH n i by (auto simp: requests_inv_def)
    have fresh: "i \<notin> set (running (F @ None # G))" using inv(2) inv(5) [rule_format, of i] un by (metis less_irrefl)
    then have "hm_get (ac_inner (as_active st)) i = None" unfolding hm_get_None_iff inv(4) .
    note ins = hm_insert_fresh [OF this, of "(m, now)"]
    show ?thesis
      using req_begin.IH i inv fresh ins un hm.insert_invar [OF inv(1), of i "(m, now)"]
      by (auto simp: requests_inv_def less_Suc_eq)
  next
    case False
    then show ?thesis using req_begin.IH by (simp add: requests_inv_def)
  qed
next
  case (req_end cap n st F i G)
  have "fst ` set (hm_remove i (ac_inner (as_active st))) = fst ` set (ac_inner (as_active st)) - {i}"
    by (auto simp: hm_remove_def AList.delete_eq)
  then show ?case
    using req_end.IH by (auto simp: requests_inv_def guard_drop_def hm.remove_invar)
qed (auto simp: requests_inv_def release_permit_def trigger_shutdown_def)



end
