(* ===== verification/Actor_Monad.thy ===== *)
theory Actor_Monad
  imports Zecd_Prelude
begin

text \<open>
  Stateful code of the wallet actor as state transformers with an outcome.  Code that may panic inside the wallet
  library, or wait for ever, is a value of \<open>outcome\<close>, and the state it left behind is kept.
\<close>

section \<open>Actions\<close>

datatype 'a outcome = Returned 'a | Panicked | Diverged

type_synonym ('s, 'a) act = "'s \<Rightarrow> 'a outcome \<times> 's"

definition act_return :: "'a \<Rightarrow> ('s, 'a) act" where
  "act_return x s = (Returned x, s)"

definition act_bind :: "('s, 'a) act \<Rightarrow> ('a \<Rightarrow> ('s, 'b) act) \<Rightarrow> ('s, 'b) act" where
  "act_bind m f s = (case m s of (Returned x, s) \<Rightarrow> f x s | (Panicked, s) \<Rightarrow> (Panicked, s) | (Diverged, s) \<Rightarrow> (Diverged, s))"

text \<open>The question mark: an error is returned at once.\<close>

definition act_try :: "('s, 'e + 'a) act \<Rightarrow> ('a \<Rightarrow> ('s, 'e + 'b) act) \<Rightarrow> ('s, 'e + 'b) act" where
  "act_try m f = act_bind m (\<lambda>r. case r of Inl e \<Rightarrow> act_return (Inl e) | Inr x \<Rightarrow> f x)"

definition act_lift :: "'a \<Rightarrow> ('s, 'a) act" where
  "act_lift = act_return"

text \<open>A part of the state updated by a function that also answers.\<close>

definition act_on :: "('s \<Rightarrow> 't) \<Rightarrow> ('t \<Rightarrow> 's \<Rightarrow> 's) \<Rightarrow> ('t \<Rightarrow> 'a \<times> 't) \<Rightarrow> ('s, 'a) act" where
  "act_on get put f s = (case f (get s) of (x, t) \<Rightarrow> (Returned x, put t s))"

definition act_modify :: "('s \<Rightarrow> 's) \<Rightarrow> ('s, unit) act" where
  "act_modify f s = (Returned (), f s)"

lemma act_bind_simps [simp]:
  "m s = (Returned x, s') \<Longrightarrow> act_bind m f s = f x s'"
  "m s = (Panicked, s') \<Longrightarrow> act_bind m f s = (Panicked, s')"
  "m s = (Diverged, s') \<Longrightarrow> act_bind m f s = (Diverged, s')"
  by (simp_all add: act_bind_def)

lemma act_return_simp [simp]: "act_return x s = (Returned x, s)"
  by (simp add: act_return_def)

lemma act_bind_Returned:
  "act_bind m f s = (Returned y, s') \<longleftrightarrow> (\<exists>x s1. m s = (Returned x, s1) \<and> f x s1 = (Returned y, s'))"
  by (auto simp: act_bind_def split: prod.splits outcome.splits)

lemma act_bindE:
  assumes "act_bind m f s = (Returned y, s')"
  obtains x s1 where "m s = (Returned x, s1)" "f x s1 = (Returned y, s')"
  using assms by (auto simp: act_bind_Returned)

lemma act_try_Inr:
  "act_try m f s = (Returned (Inr y), s') \<longleftrightarrow>
     (\<exists>x s1. m s = (Returned (Inr x), s1) \<and> f x s1 = (Returned (Inr y), s'))"
proof
  assume "act_try m f s = (Returned (Inr y), s')"
  then obtain r s1 where "m s = (Returned r, s1)"
    "(case r of Inl e \<Rightarrow> act_return (Inl e) | Inr x \<Rightarrow> f x) s1 = (Returned (Inr y), s')"
    by (auto simp: act_try_def act_bind_Returned)
  then show "\<exists>x s1. m s = (Returned (Inr x), s1) \<and> f x s1 = (Returned (Inr y), s')"
    by (cases r) auto
qed (auto simp: act_try_def act_bind_Returned)

text \<open>An action that always returns.\<close>

definition act_total :: "('s, 'a) act \<Rightarrow> bool" where
  "act_total m \<longleftrightarrow> (\<forall>s. fst (m s) \<notin> {Panicked, Diverged})"

lemma act_total_iff: "act_total m \<longleftrightarrow> (\<forall>s. \<exists>x s'. m s = (Returned x, s'))"
  unfolding act_total_def by (metis fst_conv insert_iff outcome.distinct(1,3) outcome.exhaust prod.collapse singletonD)

named_theorems act_total_intros \<open>actions that always return\<close>

lemma act_total_bind [act_total_intros]: "act_total m \<Longrightarrow> (\<And>x. act_total (f x)) \<Longrightarrow> act_total (act_bind m f)"
  unfolding act_total_iff by (metis act_bind_simps(1))

lemma act_total_return [act_total_intros]: "act_total (act_return x)" "act_total (act_lift x)" "act_total (act_modify g)"
  by (simp_all add: act_total_def act_lift_def act_modify_def)

lemma act_total_try [act_total_intros]: "act_total m \<Longrightarrow> (\<And>x. act_total (f x)) \<Longrightarrow> act_total (act_try m f)"
  unfolding act_try_def by (auto intro!: act_total_intros split: sum.split)

lemma act_total_pure [act_total_intros]: "act_total (\<lambda>s. (Returned (g s), h s))"
  by (simp add: act_total_def)

text \<open>An action that may panic but never waits for ever, and one that leaves a part of the state alone.\<close>

definition act_ends :: "('s, 'a) act \<Rightarrow> bool" where
  "act_ends m \<longleftrightarrow> (\<forall>s. fst (m s) \<noteq> Diverged)"

definition act_keeps :: "('s \<Rightarrow> 't) \<Rightarrow> ('s, 'a) act \<Rightarrow> bool" where
  "act_keeps f m \<longleftrightarrow> (\<forall>s. f (snd (m s)) = f s)"

named_theorems act_intros \<open>compositional rules for actions\<close>

lemma act_ends_bind [act_intros]: "act_ends m \<Longrightarrow> (\<And>x. act_ends (f x)) \<Longrightarrow> act_ends (act_bind m f)"
  unfolding act_ends_def act_bind_def by (auto split: prod.split outcome.split) (metis fst_conv)

lemma act_ends_try [act_intros]: "act_ends m \<Longrightarrow> (\<And>x. act_ends (f x)) \<Longrightarrow> act_ends (act_try m f)"
  unfolding act_try_def by (rule act_ends_bind) (auto simp: act_ends_def split: sum.split)

lemma act_ends_simple [act_intros]:
  "act_ends (act_return x)" "act_ends (act_modify g)" "act_ends (\<lambda>s. (Returned (h s), k s))"
  by (simp_all add: act_ends_def act_modify_def)

lemma act_keeps_bind [act_intros]: "act_keeps f m \<Longrightarrow> (\<And>x. act_keeps f (g x)) \<Longrightarrow> act_keeps f (act_bind m g)"
  unfolding act_keeps_def act_bind_def by (auto split: prod.split outcome.split) (metis snd_conv)+

lemma act_keeps_try [act_intros]: "act_keeps f m \<Longrightarrow> (\<And>x. act_keeps f (g x)) \<Longrightarrow> act_keeps f (act_try m g)"
  unfolding act_try_def by (rule act_keeps_bind) (auto simp: act_keeps_def split: sum.split)

lemma act_keeps_return [act_intros]: "act_keeps f (act_return x)"
  by (simp add: act_keeps_def)

lemma act_endsD: "act_ends m \<Longrightarrow> m s \<noteq> (Diverged, s')"
  unfolding act_ends_def by (metis fst_conv)

lemma act_keepsD: "act_keeps f m \<Longrightarrow> m s = (r, s') \<Longrightarrow> f s' = f s"
  unfolding act_keeps_def by (metis snd_conv)

end
