(* ===== verification/Spend_Rules.thy ===== *)
theory Spend_Rules
  imports Tx_Size Address Rust_Text
begin

text \<open>
  The rules a send is held to before anything is built, from \<open>src/wallet/actor.rs\<close>, with the
  policy and source types of \<open>src/config.rs\<close> and \<open>src/wallet/mod.rs\<close>: the privacy ladder, the
  funding source and the notes it lets the selector use, the classification of a request's recipients, the
  greedy selection of transparent inputs with its ZIP-317 fee, and the guards run on a built proposal.
  Zatoshi amounts are natural numbers here: they are below the money range of 21 million coins, so the
  64-bit sums of the code do not wrap (\<open>selection_fits_u64\<close>).
\<close>

section \<open>Privacy policies and funding sources\<close>

datatype send_privacy =
  FullPrivacy | AllowRevealedAmounts | AllowRevealedRecipients | AllowRevealedSenders | AllowFullyTransparent

fun policy_name :: "send_privacy \<Rightarrow> string" where
  "policy_name FullPrivacy = ''FullPrivacy''"
| "policy_name AllowRevealedAmounts = ''AllowRevealedAmounts''"
| "policy_name AllowRevealedRecipients = ''AllowRevealedRecipients''"
| "policy_name AllowRevealedSenders = ''AllowRevealedSenders''"
| "policy_name AllowFullyTransparent = ''AllowFullyTransparent''"

definition privacy_parse :: "string \<Rightarrow> string + send_privacy" where
  "privacy_parse s =
     (if s = ''FullPrivacy'' then Inr FullPrivacy
      else if s = ''AllowRevealedAmounts'' then Inr AllowRevealedAmounts
      else if s = ''AllowRevealedRecipients'' then Inr AllowRevealedRecipients
      else if s = ''AllowRevealedSenders'' then Inr AllowRevealedSenders
      else if s = ''AllowFullyTransparent'' then Inr AllowFullyTransparent
      else Inl (''[spend] privacy_policy must be \"FullPrivacy\", \"AllowRevealedAmounts\", '' @
        ''\"AllowRevealedRecipients\", \"AllowRevealedSenders\", or \"AllowFullyTransparent\" (got \"'' @ s @ ''\")''))"

definition allows_transparent_recipient :: "send_privacy \<Rightarrow> bool" where
  "allows_transparent_recipient p \<longleftrightarrow>
     p \<in> {AllowRevealedRecipients, AllowRevealedSenders, AllowFullyTransparent}"

definition allows_transparent_inputs :: "send_privacy \<Rightarrow> bool" where
  "allows_transparent_inputs p \<longleftrightarrow> p \<in> {AllowRevealedSenders, AllowFullyTransparent}"

datatype shielded_family = FamilySapling | FamilyOrchard

fun family_pools :: "shielded_family \<Rightarrow> shielded_pool list" where
  "family_pools FamilySapling = [ShieldedSapling]"
| "family_pools FamilyOrchard = [ShieldedOrchard, ShieldedIronwood]"

datatype send_source =
    Unspecified
  | Shielded
  | ShieldedFamily shielded_family
  | Transparent "transparent_address option"

fun source_is_shielded :: "send_source \<Rightarrow> bool" where
  "source_is_shielded Shielded = True"
| "source_is_shielded (ShieldedFamily _) = True"
| "source_is_shielded _ = False"

fun source_is_transparent :: "send_source \<Rightarrow> bool" where
  "source_is_transparent (Transparent _) = True"
| "source_is_transparent _ = False"

text \<open>
  The selection policy handed to the wallet library: the shielded pools it may draw notes from, and, when
  transparent spending is allowed at all, the address it is restricted to and whether coinbase is excluded.
\<close>

record transparent_spend_policy =
  tsp_address :: "transparent_address option"
  tsp_non_coinbase :: bool

record spend_policy =
  sp_shielded_pools :: "shielded_pool list"
  sp_transparent :: "transparent_spend_policy option"

definition shielded_pools_policy :: "shielded_pool list \<Rightarrow> spend_policy" where
  "shielded_pools_policy ps = \<lparr>sp_shielded_pools = ps, sp_transparent = None\<rparr>"

definition with_transparent :: "transparent_spend_policy \<Rightarrow> spend_policy \<Rightarrow> spend_policy" where
  "with_transparent t p = p\<lparr>sp_transparent := Some t\<rparr>"

text \<open>The library's default policy is documented as every shielded pool and no transparent spending.\<close>

definition default_spend_policy :: spend_policy where
  "default_spend_policy = shielded_pools_policy [ShieldedSapling, ShieldedOrchard, ShieldedIronwood]"

fun spend_policy_for_source :: "send_source \<Rightarrow> spend_policy" where
  "spend_policy_for_source Unspecified = default_spend_policy"
| "spend_policy_for_source Shielded = default_spend_policy"
| "spend_policy_for_source (ShieldedFamily f) = shielded_pools_policy (family_pools f)"
| "spend_policy_for_source (Transparent None) =
     with_transparent \<lparr>tsp_address = None, tsp_non_coinbase = True\<rparr> (shielded_pools_policy [])"
| "spend_policy_for_source (Transparent (Some t)) =
     with_transparent \<lparr>tsp_address = Some t, tsp_non_coinbase = True\<rparr> (shielded_pools_policy [])"

section \<open>Refusals\<close>

definition account_not_ready :: rpc_error where
  "account_not_ready = wallet_error (''wallet account is not ready: it is being rebuilt from keys.toml on an empty data '' @
     ''directory (an encrypted wallet must be unlocked with walletpassphrase first)'')"

definition private_keys_disabled :: rpc_error where
  "private_keys_disabled = wallet_error ''Error: Private keys are disabled for this wallet''"

definition insufficient_privacy_for_transparent_sender :: "send_privacy \<Rightarrow> rpc_error" where
  "insufficient_privacy_for_transparent_sender privacy = wallet_error
     (''Insufficient privacy policy to allow transparent sender: '' @ policy_name privacy @
      '' does not permit funding a send from transparent UTXOs (which reveals the sender'' @ [CHR 0x27] @
      ''s addresses and amounts). Use privacyPolicy \"AllowRevealedSenders\" or weaker to allow this transaction to proceed.'')"

definition insufficient_privacy_for_fully_transparent :: rpc_error where
  "insufficient_privacy_for_fully_transparent = wallet_error
     (''Insufficient privacy policy to allow a transparent recipient paid from transparent funds (a fully transparent '' @
      ''transaction). Use privacyPolicy \"AllowFullyTransparent\" or \"NoPrivacy\" to allow this transaction to proceed.'')"

definition transparent_not_enabled :: rpc_error where
  "transparent_not_enabled = invalid_parameter
     ''transparent addresses are not enabled on this wallet (set [pools] transparent = true)''"

section \<open>Requests and their recipients\<close>

text \<open>
  A payment names a recipient, an address of some network, and usually an amount.  Converting the recipient
  for the wallet's network is the address library's and may fail with a message.
\<close>

record 'z payment =
  pay_recipient :: 'z
  pay_amount :: "nat option"

type_synonym ('z, 'o, 's) convert = "'z \<Rightarrow> string + ('o, 's) address"

fun transparent_recipients_loop ::
  "('z, 'o, 's) convert \<Rightarrow> 'z payment list \<Rightarrow> (transparent_address \<times> nat) list
   \<Rightarrow> rpc_error + (transparent_address \<times> nat) list option" where
  "transparent_recipients_loop conv [] out = Inr (Some out)"
| "transparent_recipients_loop conv (p # ps) out =
     (case conv (pay_recipient p) of
        Inl e \<Rightarrow> Inl (invalid_parameter (''invalid recipient address: '' @ e))
      | Inr (ATransparent t) \<Rightarrow>
          (case pay_amount p of
             None \<Rightarrow> Inl (invalid_parameter ''a send amount is required for each recipient'')
           | Some v \<Rightarrow> transparent_recipients_loop conv ps (out @ [(t, v)]))
      | Inr _ \<Rightarrow> Inr None)"

definition transparent_only_recipients ::
  "('z, 'o, 's) convert \<Rightarrow> 'z payment list \<Rightarrow> rpc_error + (transparent_address \<times> nat) list option" where
  "transparent_only_recipients conv request =
     (if request = [] then Inr None else transparent_recipients_loop conv request [])"

definition request_pays_sapling_output ::
  "('o, 's, 'c) address_codec \<Rightarrow> ('z, 'o, 's) convert \<Rightarrow> 'z payment list \<Rightarrow> bool" where
  "request_pays_sapling_output c conv request \<longleftrightarrow>
     list_ex (\<lambda>p. case conv (pay_recipient p) of
         Inr addr \<Rightarrow> has_shielded_receiver c addr \<and> \<not> has_orchard_receiver c addr
       | Inl _ \<Rightarrow> False) request"

definition request_pays_transparent_output ::
  "('o, 's, 'c) address_codec \<Rightarrow> ('z, 'o, 's) convert \<Rightarrow> 'z payment list \<Rightarrow> bool" where
  "request_pays_transparent_output c conv request \<longleftrightarrow>
     list_ex (\<lambda>p. case conv (pay_recipient p) of
         Inr addr \<Rightarrow> \<not> has_shielded_receiver c addr
       | Inl _ \<Rightarrow> False) request"

definition merge_shielded_destination_pool ::
  "('o, 's, 'c) address_codec \<Rightarrow> ('o, 's) address \<Rightarrow> bool \<Rightarrow> rpc_error + pool_type" where
  "merge_shielded_destination_pool c dest ironwood_active =
     (if has_orchard_receiver c dest then Inr (if ironwood_active then PoolIronwood else PoolOrchard)
      else if has_shielded_receiver c dest then Inr PoolSapling
      else Inl (invalid_parameter ''Invalid parameter, toaddress has no shielded receiver''))"

section \<open>Transparent fees and input selection\<close>

fun transparent_txout_size :: "transparent_address \<Rightarrow> nat" where
  "transparent_txout_size (PublicKeyHash _) = 8 + 1 + 25"
| "transparent_txout_size (ScriptHash _) = 8 + 1 + 23"

definition div_ceil :: "nat \<Rightarrow> nat \<Rightarrow> nat" where
  "div_ceil a b = (if a mod b = 0 then a div b else a div b + 1)"

definition MERGE_MAX_TRANSPARENT_INPUTS :: nat where
  "MERGE_MAX_TRANSPARENT_INPUTS = (2000000 * 10 div 100) div 150"

definition merge_transparent_fee :: "nat \<Rightarrow> nat \<Rightarrow> nat \<Rightarrow> nat \<Rightarrow> nat \<Rightarrow> nat" where
  "merge_transparent_fee n_in out_bytes p2pkh_out_size marginal grace =
     marginal * max grace (max n_in (div_ceil out_bytes p2pkh_out_size))"

text \<open>The parameters of one selection, fixed over the loop.\<close>

record selection_args =
  recipients_total :: nat
  recip_out_size :: nat
  change_out_size :: nat
  p2pkh_out_size :: nat
  marginal_fee :: nat
  grace_actions :: nat

definition fee_for :: "selection_args \<Rightarrow> nat \<Rightarrow> nat \<Rightarrow> nat" where
  "fee_for a n_in out_bytes =
     marginal_fee a * max (grace_actions a) (max n_in (div_ceil out_bytes (p2pkh_out_size a)))"

fun select_loop :: "selection_args \<Rightarrow> nat \<Rightarrow> nat \<Rightarrow> nat list \<Rightarrow> (nat \<times> nat \<times> nat \<times> bool) option" where
  "select_loop a i tot [] = None"
| "select_loop a i tot (v # vs) =
     (let tot = tot + v;
          n_in = i + 1;
          fee_c = fee_for a n_in (recip_out_size a + change_out_size a);
          fee_n = fee_for a n_in (recip_out_size a)
      in if tot \<ge> recipients_total a + fee_c then
           let change = tot - recipients_total a - fee_c
           in if change > 0 then Some (n_in, change, fee_c, True)
              else if tot = recipients_total a + fee_n then Some (n_in, 0, fee_n, False)
              else select_loop a n_in tot vs
         else if tot = recipients_total a + fee_n then Some (n_in, 0, fee_n, False)
         else select_loop a n_in tot vs)"

definition select_transparent_inputs :: "selection_args \<Rightarrow> nat list \<Rightarrow> (nat \<times> nat \<times> nat \<times> bool) option" where
  "select_transparent_inputs a values_desc = select_loop a 0 0 values_desc"


text \<open>A prefix of \<open>n\<close> inputs balances: strictly above the fee with a change output, or exactly at the fee without.\<close>

definition prefix_balances :: "selection_args \<Rightarrow> nat list \<Rightarrow> nat \<Rightarrow> bool" where
  "prefix_balances a vs n \<longleftrightarrow>
     sum_list (take n vs) > recipients_total a + fee_for a n (recip_out_size a + change_out_size a) \<or>
     sum_list (take n vs) = recipients_total a + fee_for a n (recip_out_size a)"

lemma div_ceil_mono: "m \<le> n \<Longrightarrow> div_ceil m b \<le> div_ceil n b"
proof (cases "b = 0")
  case False
  assume "m \<le> n"
  then have le: "m div b \<le> n div b" by (rule div_le_mono)
  show ?thesis
  proof (cases "m div b = n div b")
    case True
    then have "m mod b \<le> n mod b"
      using \<open>m \<le> n\<close> by (metis div_mult_mod_eq nat_add_left_cancel_le)
    with True show ?thesis by (auto simp: div_ceil_def)
  qed (use le in \<open>auto simp: div_ceil_def\<close>)
qed (auto simp: div_ceil_def)

lemma fee_for_mono: "m \<le> n \<Longrightarrow> fee_for a k m \<le> fee_for a k n"
  unfolding fee_for_def by (intro mult_le_mono2 max.mono order_refl div_ceil_mono)

text \<open>The loop, started after a prefix it has already turned down, stops at the first prefix that balances.\<close>

lemma select_loop_spec:
  assumes "length pre = i" and "tot = sum_list pre"
  shows "case select_loop a i tot vs of
      None \<Rightarrow> \<forall>n. i < n \<and> n \<le> i + length vs \<longrightarrow> \<not> prefix_balances a (pre @ vs) n
    | Some (n, change, fee, has_change) \<Rightarrow>
        i < n \<and> n \<le> i + length vs \<and> prefix_balances a (pre @ vs) n \<and>
        (\<forall>k. i < k \<and> k < n \<longrightarrow> \<not> prefix_balances a (pre @ vs) k) \<and>
        sum_list (take n (pre @ vs)) = recipients_total a + fee + change \<and>
        fee = fee_for a n (recip_out_size a + (if has_change then change_out_size a else 0)) \<and>
        (has_change \<longleftrightarrow> change > 0)"
  using assms
proof (induction vs arbitrary: pre i tot)
  case Nil
  then show ?case by auto
next
  case (Cons v vs)
  let ?d = "pre @ [v]"
  let ?t = "sum_list pre + v"
  have tk: "take (Suc i) (pre @ v # vs) = ?d" using Cons.prems by simp
  have bal: "prefix_balances a (pre @ v # vs) (Suc i) \<longleftrightarrow>
      ?t > recipients_total a + fee_for a (Suc i) (recip_out_size a + change_out_size a) \<or>
      ?t = recipients_total a + fee_for a (Suc i) (recip_out_size a)"
    unfolding prefix_balances_def tk by simp
  have fee: "fee_for a (Suc i) (recip_out_size a) \<le> fee_for a (Suc i) (recip_out_size a + change_out_size a)"
    by (rule fee_for_mono) simp
  show ?case
  proof (cases "prefix_balances a (pre @ v # vs) (Suc i)")
    case True
    then show ?thesis
      using Cons.prems fee tk unfolding bal by (auto simp: Let_def bal)
  next
    case False
    then have step: "select_loop a i tot (v # vs) = select_loop a (Suc i) ?t vs"
      using Cons.prems unfolding bal by (auto simp: Let_def)
    have ih: "case select_loop a (Suc i) ?t vs of
        None \<Rightarrow> \<forall>n. Suc i < n \<and> n \<le> Suc i + length vs \<longrightarrow> \<not> prefix_balances a (?d @ vs) n
      | Some (n, change, fee, has_change) \<Rightarrow>
          Suc i < n \<and> n \<le> Suc i + length vs \<and> prefix_balances a (?d @ vs) n \<and>
          (\<forall>k. Suc i < k \<and> k < n \<longrightarrow> \<not> prefix_balances a (?d @ vs) k) \<and>
          sum_list (take n (?d @ vs)) = recipients_total a + fee + change \<and>
          fee = fee_for a n (recip_out_size a + (if has_change then change_out_size a else 0)) \<and>
          (has_change \<longleftrightarrow> change > 0)"
      using Cons.IH [of ?d "Suc i" ?t] Cons.prems by simp
    show ?thesis
      using ih False unfolding step
      by (auto split: option.splits) (metis Suc_lessI)+
  qed
qed

lemma select_Some:
  assumes "select_transparent_inputs a vs = Some (n, change, fee, has_change)"
  shows "0 < n" "n \<le> length vs" "sum_list (take n vs) = recipients_total a + fee + change"
    "fee = fee_for a n (recip_out_size a + (if has_change then change_out_size a else 0))" "has_change \<longleftrightarrow> change > 0"
  using select_loop_spec [where pre = "[]" and i = 0 and tot = 0 and a = a and vs = vs] assms
  by (auto simp: select_transparent_inputs_def)

text \<open>The greedy selection for a fully transparent send returns the shortest prefix of the inputs, largest
  first, that balances: its value is exactly recipients, fee and change, the fee is the ZIP-317 fee of the
  transaction with that many inputs and with the change output exactly when there is one, and a change output
  is positive.  It returns nothing only when no prefix balances.
\<close>

theorem select_transparent_inputs_exact:
  "case select_transparent_inputs a vs of
      None \<Rightarrow> \<forall>n. 0 < n \<and> n \<le> length vs \<longrightarrow> \<not> prefix_balances a vs n
    | Some (n, change, fee, has_change) \<Rightarrow>
        0 < n \<and> n \<le> length vs \<and> (\<forall>k. 0 < k \<and> k < n \<longrightarrow> \<not> prefix_balances a vs k) \<and>
        sum_list (take n vs) = recipients_total a + fee + change \<and>
        fee = fee_for a n (recip_out_size a + (if has_change then change_out_size a else 0)) \<and>
        (has_change \<longleftrightarrow> change > 0)"
  using select_loop_spec [where pre = "[]" and i = 0 and tot = 0 and a = a and vs = vs]
  by (auto simp: select_transparent_inputs_def split: option.splits)

text \<open>The ZIP-317 constants: 5000 zatoshis a logical action, two grace actions, 34-byte outputs.\<close>

definition zip317_args :: "nat \<Rightarrow> nat \<Rightarrow> selection_args" where
  "zip317_args amount out_size = \<lparr>recipients_total = amount, recip_out_size = out_size, change_out_size = 34,
     p2pkh_out_size = 34, marginal_fee = 5000, grace_actions = 2\<rparr>"

lemmas selection_eval = select_transparent_inputs_def zip317_args_def fee_for_def div_ceil_def Let_def

theorem select_transparent_inputs_exact_witness:
  "select_transparent_inputs (zip317_args 100000 34) [80000, 40000, 500] = Some (2, 10000, 10000, True)
   \<and> sum_list (take 2 [80000, 40000, 500]) = (100000 :: nat) + 10000 + 10000"
proof
  have eq: "select_transparent_inputs (zip317_args 100000 34) [80000, 40000, 500] = Some (2, 10000, 10000, True)"
    by (simp add: selection_eval)
  then show "select_transparent_inputs (zip317_args 100000 34) [80000, 40000, 500] = Some (2, 10000, 10000, True)" .
  show "sum_list (take 2 [80000, 40000, 500]) = (100000 :: nat) + 10000 + 10000"
    using select_transparent_inputs_exact [where a = "zip317_args 100000 34" and vs = "[80000, 40000, 500]"]
    unfolding eq by (simp add: zip317_args_def)
qed

text \<open>
  With three recipients the change output costs one more action.  Inputs that cover the amount and the fee
  without change, with an excess below that action, are turned down: no transaction balances exactly.
\<close>

lemma covered_but_refused:
  "select_transparent_inputs (zip317_args 100000 102) [118000, 1000] = None
   \<and> (118000 :: nat) + 1000 \<ge> 100000 + fee_for (zip317_args 100000 102) 2 102"
  by (simp add: selection_eval)

text \<open>Within the money range no sum of the selection reaches 64 bits.\<close>

lemma selection_fits_u64:
  assumes "select_transparent_inputs a vs = Some (n, change, fee, hc)" and "sum_list vs \<le> 2100000000000000"
  shows "change < 2 ^ 64 \<and> fee < 2 ^ 64 \<and> recipients_total a + fee + change < 2 ^ 64"
proof -
  have eq: "sum_list (take n vs) = recipients_total a + fee + change"
    by (rule select_Some [OF assms(1)])
  have "sum_list (take n vs) \<le> sum_list vs"
    by (metis append_take_drop_id le_add1 sum_list_append)
  with assms(2) eq show ?thesis by simp
qed

end
