(* ===== verification/Proposal_Rules.thy ===== *)
theory Proposal_Rules
  imports Spend_Rules
begin

text \<open>
  What \<open>src/wallet/actor.rs\<close> checks on a proposal before building it, and how it reports failures: the
  single-step rule, the single-pool rule of \<open>FullPrivacy\<close>, the cap on Orchard-family actions, the byte
  ceiling and the shielded budget of ZIP 218; the classification of the wallet library's errors into RPC codes
  and the enrichment of a shortfall with the pending balance.
\<close>

section \<open>Proposals\<close>

text \<open>
  A step as the wallet library exposes it: the counts the size estimator reads, the pools of the notes it
  spends, of its payments and of its change, and whether it involves a pool.  \<open>step_consistent\<close> is the
  documented relation between these views.
\<close>

record ('pad, 'ver) step_view =
  sv_counts :: "('pad, 'ver) proposal_step"
  sv_note_pools :: "shielded_pool list"
  sv_payment_pools :: "pool_type list"
  sv_change_pools :: "pool_type list"
  sv_involves :: "pool_type \<Rightarrow> bool"

fun shielded_pool_type :: "shielded_pool \<Rightarrow> pool_type" where
  "shielded_pool_type ShieldedSapling = PoolSapling"
| "shielded_pool_type ShieldedOrchard = PoolOrchard"
| "shielded_pool_type ShieldedIronwood = PoolIronwood"

definition step_consistent :: "('pad, 'ver) step_view \<Rightarrow> bool" where
  "step_consistent s \<longleftrightarrow>
     (\<forall>p. sv_involves s p \<longleftrightarrow>
        input_count_in_pool (sv_counts s) p + output_count_in_pool (sv_counts s) p
          + change_count_in_pool (sv_counts s) p > 0)"

record ('pad, 'ver) proposal =
  pr_steps :: "('pad, 'ver) step_view list"
  pr_min_target_height :: u32

record ('br, 'pad, 'ver, 'circuit) proposal_lib =
  pl_crate :: protocol_crate
  pl_branch_for_height :: "z_network \<Rightarrow> u32 \<Rightarrow> 'br"
  pl_bundle_version :: "'br \<Rightarrow> value_pool \<Rightarrow> 'ver option"
  pl_circuit_version :: "'ver \<Rightarrow> 'circuit"
  pl_default_padding :: 'pad
  pl_shielded_budget :: nat
  pl_sapling_limit :: nat

definition lib_step_shape :: "('br, 'pad, 'ver, 'c) proposal_lib \<Rightarrow> ('pad, 'ver) step_view \<Rightarrow> 'br \<Rightarrow> tx_shape" where
  "lib_step_shape lib s branch = step_shape (pl_bundle_version lib) (pl_default_padding lib) (sv_counts s) branch"

definition zip218_budget_applies :: "protocol_crate \<Rightarrow> z_network \<Rightarrow> u32 \<Rightarrow> bool" where
  "zip218_budget_applies pc net height \<longleftrightarrow>
     (case activation_height pc net Nu7 of None \<Rightarrow> False | Some h \<Rightarrow> h \<le> height)"

definition proposal_branch :: "('br, 'pad, 'ver, 'c) proposal_lib \<Rightarrow> z_network \<Rightarrow> ('pad, 'ver) proposal \<Rightarrow> 'br" where
  "proposal_branch lib net p = pl_branch_for_height lib net (pr_min_target_height p)"

definition orchard_circuit_for_branch :: "('br, 'pad, 'ver, 'c) proposal_lib \<Rightarrow> 'br \<Rightarrow> 'c option" where
  "orchard_circuit_for_branch lib branch =
     map_option (pl_circuit_version lib) (pl_bundle_version lib branch ValuePoolOrchard)"

section \<open>Guards\<close>

definition single_pool_violated :: "bool \<Rightarrow> bool \<Rightarrow> bool \<Rightarrow> bool \<Rightarrow> bool" where
  "single_pool_violated transparent sapling orchard ironwood \<longleftrightarrow>
     transparent \<or> length (filter (\<lambda>p. p) [sapling, orchard, ironwood]) > 1"

definition full_privacy_refusal :: rpc_error where
  "full_privacy_refusal = invalid_parameter
     (''Privacy policy FullPrivacy rejects this send: it would leave a single shielded pool (a transparent component, or '' @
      ''a crossing between two shielded pools - Sapling, Orchard or Ironwood - that reveals the transferred amount on-chain). '' @
      ''Set [spend] privacy_policy = \"AllowRevealedRecipients\" to permit this.'')"

fun enforce_full_privacy_steps :: "('pad, 'ver) step_view list \<Rightarrow> rpc_error + unit" where
  "enforce_full_privacy_steps [] = Inr ()"
| "enforce_full_privacy_steps (s # ss) =
     (if single_pool_violated (sv_involves s PoolTransparent) (sv_involves s PoolSapling)
           (sv_involves s PoolOrchard) (sv_involves s PoolIronwood)
      then Inl full_privacy_refusal else enforce_full_privacy_steps ss)"

definition enforce_full_privacy :: "('pad, 'ver) proposal \<Rightarrow> rpc_error + unit" where
  "enforce_full_privacy p = enforce_full_privacy_steps (pr_steps p)"

definition is_orchard_family :: "shielded_pool \<Rightarrow> bool" where
  "is_orchard_family p \<longleftrightarrow> p \<in> {ShieldedOrchard, ShieldedIronwood}"

definition is_orchard_family_pooltype :: "pool_type \<Rightarrow> bool" where
  "is_orchard_family_pooltype p \<longleftrightarrow> p \<in> {PoolOrchard, PoolIronwood}"

definition step_orchard_actions :: "('pad, 'ver) step_view \<Rightarrow> nat \<times> nat" where
  "step_orchard_actions s =
     (length (filter is_orchard_family (sv_note_pools s)),
      length (filter is_orchard_family_pooltype (sv_payment_pools s)) +
      length (filter is_orchard_family_pooltype (sv_change_pools s)))"

definition orchard_action_overflow :: "tx_shape \<Rightarrow> nat \<Rightarrow> nat \<Rightarrow> nat \<Rightarrow> (nat \<times> string) option" where
  "orchard_action_overflow shape spends outputs limit =
     (let actions = orchard_family_actions shape
      in if actions \<le> limit then None
         else let one_bundle = orchard_actions shape = 0 \<or> ironwood_actions shape = 0
              in Some (if one_bundle \<and> outputs \<le> limit \<and> spends > limit then (actions, ''inputs'')
                       else if one_bundle \<and> spends \<le> limit \<and> outputs > limit then (actions, ''outputs'')
                       else (actions, ''actions'')))"

definition action_limit_message :: "tx_shape \<Rightarrow> nat \<Rightarrow> string \<Rightarrow> nat \<Rightarrow> string" where
  "action_limit_message shape n_over kind limit =
     (let split = (if orchard_actions shape > 0 \<and> ironwood_actions shape > 0
            then '' This send carries two shielded bundles that are proved separately and counted together: '' @
              show_nat (orchard_actions shape) @ '' Orchard actions spending legacy notes, and '' @
              show_nat (ironwood_actions shape) @ '' Ironwood actions.''
            else [])
      in ''Including '' @ show_nat n_over @ '' Orchard '' @ kind @ '' would exceed the current limit of '' @ show_nat limit @
         '' actions, which exists to bound this send'' @ [CHR 0x27] @ ''s memory and proving cost.'' @ split @
         '' Consolidate first with z_mergetoaddress ([\"ANY_ORCHARD\"], your own address, repeatedly until '' @
         ''remainingNotes is 0), which is usually what a wallet this fragmented wants. Or raise [spend] '' @
         ''orchard_action_limit (0 disables the cap) and send SIGHUP to reload it without restarting.'')"

fun enforce_orchard_action_steps ::
  "('br, 'pad, 'ver, 'c) proposal_lib \<Rightarrow> 'br \<Rightarrow> nat \<Rightarrow> ('pad, 'ver) step_view list \<Rightarrow> rpc_error + unit" where
  "enforce_orchard_action_steps lib branch limit [] = Inr ()"
| "enforce_orchard_action_steps lib branch limit (s # ss) =
     (let shape = lib_step_shape lib s branch; (orchard_spends, orchard_outputs) = step_orchard_actions s
      in case orchard_action_overflow shape orchard_spends orchard_outputs limit of
           Some (n_over, kind) \<Rightarrow> Inl (invalid_parameter (action_limit_message shape n_over kind limit))
         | None \<Rightarrow> enforce_orchard_action_steps lib branch limit ss)"

definition enforce_orchard_action_limit ::
  "('br, 'pad, 'ver, 'c) proposal_lib \<Rightarrow> ('pad, 'ver) proposal \<Rightarrow> 'br \<Rightarrow> nat \<Rightarrow> rpc_error + unit" where
  "enforce_orchard_action_limit lib p branch limit =
     (if limit = 0 then Inr () else enforce_orchard_action_steps lib branch limit (pr_steps p))"

definition max_tx_bytes_message :: "nat \<Rightarrow> nat \<Rightarrow> string" where
  "max_tx_bytes_message bytes max_bytes =
     ''This send would build a transaction of about '' @ show_nat bytes @ '' bytes, over the current limit of '' @
     show_nat max_bytes @ '', which exists because a node will not relay a transaction larger than its own mempool policy - '' @
     ''such a transaction is proved at full cost and then never mined. Send to fewer recipients, or consolidate first with '' @
     ''z_mergetoaddress ([\"ANY_ORCHARD\"], your own address, repeatedly until remainingNotes is 0), which spends fewer, '' @
     ''larger notes. Or raise [spend] max_tx_bytes (0 disables the ceiling) and send SIGHUP to reload it without '' @
     ''restarting - but only if every node between this wallet and a miner accepts the larger size.''"

fun enforce_max_tx_bytes_steps ::
  "('br, 'pad, 'ver, 'c) proposal_lib \<Rightarrow> 'br \<Rightarrow> nat \<Rightarrow> ('pad, 'ver) step_view list \<Rightarrow> rpc_error + unit" where
  "enforce_max_tx_bytes_steps lib branch max_bytes [] = Inr ()"
| "enforce_max_tx_bytes_steps lib branch max_bytes (s # ss) =
     (let bytes = estimate_bytes (lib_step_shape lib s branch)
      in if bytes > max_bytes then Inl (invalid_parameter (max_tx_bytes_message bytes max_bytes))
         else enforce_max_tx_bytes_steps lib branch max_bytes ss)"

definition enforce_max_tx_bytes ::
  "('br, 'pad, 'ver, 'c) proposal_lib \<Rightarrow> ('pad, 'ver) proposal \<Rightarrow> 'br \<Rightarrow> nat \<Rightarrow> rpc_error + unit" where
  "enforce_max_tx_bytes lib p branch max_bytes =
     (if max_bytes = 0 then Inr () else enforce_max_tx_bytes_steps lib branch max_bytes (pr_steps p))"

definition zip218_message :: "tx_shape \<Rightarrow> zip218_overflow_report \<Rightarrow> string" where
  "zip218_message shape over =
     (let split = (if orchard_actions shape > 0 \<and> ironwood_actions shape > 0
            then '' It carries two shielded bundles, counted together: '' @ show_nat (orchard_actions shape) @
              '' Orchard actions spending legacy notes, and '' @ show_nat (ironwood_actions shape) @ '' Ironwood actions.''
            else [])
      in ''This transaction would carry '' @ show_nat (cost over) @ '' '' @ what over @ '', over the '' @ show_nat (cap over) @
         '' that ZIP 218 allows in a whole block from NU7 on, so no node would mine it.'' @ split @
         '' This is a consensus rule, not a setting. Send to fewer recipients, or consolidate first with '' @
         ''z_mergetoaddress, which sizes each round to fit.'')"

fun enforce_zip218_steps ::
  "('br, 'pad, 'ver, 'c) proposal_lib \<Rightarrow> 'br \<Rightarrow> ('pad, 'ver) step_view list \<Rightarrow> rpc_error + unit" where
  "enforce_zip218_steps lib branch [] = Inr ()"
| "enforce_zip218_steps lib branch (s # ss) =
     (let shape = lib_step_shape lib s branch
      in case zip218_overflow (pl_shielded_budget lib) (pl_sapling_limit lib) shape of
           Some over \<Rightarrow> Inl (invalid_parameter (zip218_message shape over))
         | None \<Rightarrow> enforce_zip218_steps lib branch ss)"

definition enforce_zip218_budget ::
  "('br, 'pad, 'ver, 'c) proposal_lib \<Rightarrow> ('pad, 'ver) proposal \<Rightarrow> z_network \<Rightarrow> rpc_error + unit" where
  "enforce_zip218_budget lib p net =
     (let target = pr_min_target_height p
      in if \<not> zip218_budget_applies (pl_crate lib) net target then Inr ()
         else enforce_zip218_steps lib (pl_branch_for_height lib net target) (pr_steps p))"

definition enforce_single_step :: "('pad, 'ver) proposal \<Rightarrow> rpc_error + unit" where
  "enforce_single_step p =
     (let steps = length (pr_steps p)
      in if steps > 1 then Inl (wallet_error (''multi-transaction proposals are not supported (this send would need '' @
           show_nat steps @ '' transactions)'')) else Inr ())"

text \<open>The guards in the order both send paths run them.\<close>

definition check_proposal ::
  "('br, 'pad, 'ver, 'c) proposal_lib \<Rightarrow> z_network \<Rightarrow> send_privacy \<Rightarrow> nat \<Rightarrow> nat \<Rightarrow> ('pad, 'ver) proposal
   \<Rightarrow> rpc_error + unit" where
  "check_proposal lib net privacy orchard_action_limit max_tx_bytes p =
     sum_bind (enforce_single_step p) (\<lambda>_.
     sum_bind (if privacy = FullPrivacy then enforce_full_privacy p else Inr ()) (\<lambda>_.
     sum_bind (enforce_orchard_action_limit lib p (proposal_branch lib net p) orchard_action_limit) (\<lambda>_.
     sum_bind (enforce_max_tx_bytes lib p (proposal_branch lib net p) max_tx_bytes) (\<lambda>_.
     enforce_zip218_budget lib p net))))"

record send_shape =
  ss_inputs :: nat
  ss_orchard_actions :: nat
  ss_est_tx_bytes :: nat

definition add_step_shape ::
  "('br, 'pad, 'ver, 'c) proposal_lib \<Rightarrow> 'br \<Rightarrow> ('pad, 'ver) step_view \<Rightarrow> send_shape \<Rightarrow> send_shape" where
  "add_step_shape lib branch s acc =
     (let (spends, _) = step_orchard_actions s; shape = lib_step_shape lib s branch
      in \<lparr>ss_inputs = ss_inputs acc + spends,
          ss_orchard_actions = ss_orchard_actions acc + orchard_family_actions shape,
          ss_est_tx_bytes = max (ss_est_tx_bytes acc) (estimate_bytes shape)\<rparr>)"

definition proposal_shape :: "('br, 'pad, 'ver, 'c) proposal_lib \<Rightarrow> ('pad, 'ver) proposal \<Rightarrow> 'br \<Rightarrow> send_shape" where
  "proposal_shape lib p branch =
     fold (add_step_shape lib branch) (pr_steps p) \<lparr>ss_inputs = 0, ss_orchard_actions = 0, ss_est_tx_bytes = 0\<rparr>"

section \<open>Library errors\<close>

text \<open>
  The errors of the wallet library that the classification tells apart; every other one is known by what it
  displays.  A shortfall reported by the change strategy is recognised by its text.
\<close>

datatype proposal_failure =
    PfInsufficientFunds u64 u64
  | PfProposalShieldedBudget string
  | PfAcceptanceShieldedBudget string
  | PfAcceptance string
  | PfOther string

definition insufficient_by_text :: "string \<Rightarrow> rpc_error" where
  "insufficient_by_text s =
     (if contains (to_ascii_lowercase s) ''insufficient'' then insufficient_funds s else wallet_error s)"

definition no_pending_details :: "u64 option \<Rightarrow> u64 option \<Rightarrow> u64 \<Rightarrow> insufficient_funds_details" where
  "no_pending_details a r coinbase = \<lparr>available = a, required = r, pending_incoming = 0, pending_change = 0,
     mature_coinbase = coinbase\<rparr>"

definition budget_refusal :: "string \<Rightarrow> rpc_error" where
  "budget_refusal reason = invalid_parameter
     (''This transaction would not fit in a block under ZIP 218'' @ [CHR 0x27] @ ''s shielded budget ('' @ reason @
      ''), so no node would mine it. This is a consensus rule, not a setting. Send to fewer recipients, or consolidate first '' @
      ''with z_mergetoaddress, which sizes each round to fit.'')"

fun classify_err :: "proposal_failure \<Rightarrow> rpc_error" where
  "classify_err (PfInsufficientFunds a r) =
     with_details (insufficient_funds (''Insufficient funds: '' @ show_nat (unat a) @ '' zatoshis spendable, '' @
       show_nat (unat r) @ '' required (including fee)''))
       (InsufficientFunds (no_pending_details (Some a) (Some r) 0))"
| "classify_err (PfProposalShieldedBudget reason) = budget_refusal reason"
| "classify_err (PfAcceptanceShieldedBudget reason) = budget_refusal reason"
| "classify_err (PfAcceptance reason) =
     wallet_error (reason @ '' Nothing was sent; send again to build it against the current chain tip.'')"
| "classify_err (PfOther s) = insufficient_by_text s"

definition classify_pczt_err :: "string \<Rightarrow> rpc_error" where
  "classify_pczt_err s = insufficient_by_text s"

definition classify_merge_execute_err :: "string \<Rightarrow> rpc_error" where
  "classify_merge_execute_err s = insufficient_by_text s"

text \<open>The balances of one account of the wallet summary, per shielded pool.\<close>

record pool_balance =
  value_pending_spendability :: u64
  change_pending_confirmation :: u64

record account_balance =
  sapling_balance :: pool_balance
  orchard_balance :: pool_balance
  ironwood_balance :: pool_balance

record wallet_summary =
  account_balances :: "account_balance list"
  chain_tip_height :: u32

definition coinbase_hint :: "u64 \<Rightarrow> string" where
  "coinbase_hint zats = show_nat (unat zats) @ '' zatoshis are mature coinbase, spendable only via z_shieldcoinbase''"

definition pending_incoming_total :: "account_balance list \<Rightarrow> u64" where
  "pending_incoming_total bals = sum_list (map (\<lambda>b. value_pending_spendability (orchard_balance b)
     + value_pending_spendability (sapling_balance b)) bals)"

definition pending_change_total :: "account_balance list \<Rightarrow> u64" where
  "pending_change_total bals = sum_list (map (\<lambda>b. change_pending_confirmation (orchard_balance b)
     + change_pending_confirmation (sapling_balance b)) bals)"

definition enrich_insufficient_funds ::
  "wallet_summary option \<Rightarrow> (u32 \<Rightarrow> u64 option) \<Rightarrow> rpc_error \<Rightarrow> rpc_error" where
  "enrich_insufficient_funds summary mature_coinbase_zats err =
     (if err_code err \<noteq> RPC_WALLET_INSUFFICIENT_FUNDS then err
      else case summary of
        None \<Rightarrow> err
      | Some s \<Rightarrow>
          let incoming = pending_incoming_total (account_balances s);
              change = pending_change_total (account_balances s);
              target_height = chain_tip_height s + 1;
              coinbase = (case mature_coinbase_zats target_height of Some z \<Rightarrow> z | None \<Rightarrow> 0)
          in if incoming = 0 \<and> change = 0 \<and> coinbase = 0 then err
             else let (avail, req) = (case insufficient_funds_of err of Some d \<Rightarrow> (available d, required d) | None \<Rightarrow> (None, None));
                      msg = err_message err;
                      msg = (if incoming > 0 \<or> change > 0
                        then msg @ ''; awaiting confirmations: '' @ show_nat (unat incoming) @ '' zatoshis incoming, '' @
                          show_nat (unat change) @ '' zatoshis change - these become spendable as blocks arrive''
                        else msg);
                      msg = (if coinbase > 0 then msg @ ''; '' @ coinbase_hint coinbase else msg)
                  in with_details (insufficient_funds msg) (InsufficientFunds
                       \<lparr>available = avail, required = req, pending_incoming = incoming, pending_change = change,
                        mature_coinbase = coinbase\<rparr>))"

section \<open>Indices and horizons\<close>

definition send_catchup_exceeded :: "u32 \<Rightarrow> u32 option \<Rightarrow> u32 \<Rightarrow> u32 option" where
  "send_catchup_exceeded tip scanned limit =
     (if limit = 0 then None
      else let lag = saturating_sub tip (case scanned of Some h \<Rightarrow> h | None \<Rightarrow> 0)
           in if lag > limit then Some lag else None)"

definition transparent_child_index :: "nat \<Rightarrow> u32 option" where
  "transparent_child_index j = (if j < 2 ^ 32 \<and> j < 2 ^ 31 then Some (of_nat j) else None)"

definition gap_slots_remaining :: "u32 \<Rightarrow> u32 \<Rightarrow> u32" where
  "gap_slots_remaining gap_position gap_limit = saturating_sub gap_limit (saturating_add gap_position 1)"

definition horizon_slots_remaining :: "u32 \<Rightarrow> u32 \<Rightarrow> u32" where
  "horizon_slots_remaining horizon index = saturating_sub horizon (saturating_add index 1)"

definition recovery_horizon_for :: "u32 \<Rightarrow> u32 option \<Rightarrow> u32 \<Rightarrow> u32" where
  "recovery_horizon_for initial_scan default_frontier gap_limit =
     saturating_add (max initial_scan (case default_frontier of Some f \<Rightarrow> f | None \<Rightarrow> 0)) gap_limit"

section \<open>What the guards let through\<close>

lemma full_privacy_steps_ok:
  "enforce_full_privacy_steps ss = (if list_all (\<lambda>s. \<not> single_pool_violated (sv_involves s PoolTransparent)
     (sv_involves s PoolSapling) (sv_involves s PoolOrchard) (sv_involves s PoolIronwood)) ss
     then Inr () else Inl full_privacy_refusal)"
  by (induction ss) auto

lemma single_pool_iff:
  "\<not> single_pool_violated t s ow iw \<longleftrightarrow> \<not> t \<and> \<not> (s \<and> ow) \<and> \<not> (s \<and> iw) \<and> \<not> (ow \<and> iw)"
  by (auto simp: single_pool_violated_def)

lemma orchard_action_steps_ok:
  "enforce_orchard_action_steps lib branch limit ss = Inr () \<longleftrightarrow>
     list_all (\<lambda>s. orchard_family_actions (lib_step_shape lib s branch) \<le> limit) ss"
  by (induction ss) (auto simp: Let_def orchard_action_overflow_def split: option.splits prod.splits)

lemma max_tx_bytes_steps_ok:
  "enforce_max_tx_bytes_steps lib branch limit ss = Inr () \<longleftrightarrow>
     list_all (\<lambda>s. estimate_bytes (lib_step_shape lib s branch) \<le> limit) ss"
  by (induction ss) (auto simp: Let_def)

lemma zip218_steps_ok:
  "enforce_zip218_steps lib branch ss = Inr () \<longleftrightarrow>
     list_all (\<lambda>s. zip218_overflow (pl_shielded_budget lib) (pl_sapling_limit lib) (lib_step_shape lib s branch) = None) ss"
  by (induction ss) (auto simp: Let_def split: option.splits)

lemma guard_codes:
  "enforce_orchard_action_steps lib branch limit ss = Inl e \<Longrightarrow> err_code e = RPC_INVALID_PARAMETER"
  "enforce_max_tx_bytes_steps lib branch limit ss = Inl e \<Longrightarrow> err_code e = RPC_INVALID_PARAMETER"
  "enforce_zip218_steps lib branch ss = Inl e \<Longrightarrow> err_code e = RPC_INVALID_PARAMETER"
  by (induction ss) (auto simp: Let_def invalid_parameter_def split: option.splits prod.splits if_splits)

lemma sum_unit: "(r :: 'e + unit) \<noteq> Inr () \<longleftrightarrow> (\<exists>e. r = Inl e)"
  by (cases r) auto

text \<open>The bounds a step has to meet, one for each guard.\<close>

definition step_within ::
  "('br, 'pad, 'ver, 'c) proposal_lib \<Rightarrow> z_network \<Rightarrow> nat \<Rightarrow> nat \<Rightarrow> ('pad, 'ver) proposal \<Rightarrow> ('pad, 'ver) step_view \<Rightarrow> bool" where
  "step_within lib net limit max_bytes p s \<longleftrightarrow>
     (let shape = lib_step_shape lib s (proposal_branch lib net p)
      in (limit = 0 \<or> orchard_family_actions shape \<le> limit) \<and>
         (max_bytes = 0 \<or> estimate_bytes shape \<le> max_bytes) \<and>
         (zip218_budget_applies (pl_crate lib) net (pr_min_target_height p) \<longrightarrow>
            zip218_overflow (pl_shielded_budget lib) (pl_sapling_limit lib) shape = None))"

definition step_one_pool :: "('pad, 'ver) step_view \<Rightarrow> bool" where
  "step_one_pool s \<longleftrightarrow>
     (let used = (\<lambda>p. input_count_in_pool (sv_counts s) p + output_count_in_pool (sv_counts s) p
            + change_count_in_pool (sv_counts s) p)
      in used PoolTransparent = 0 \<and> card {p \<in> {PoolSapling, PoolOrchard, PoolIronwood}. used p > 0} \<le> 1)"

lemma step_one_pool_iff:
  assumes "step_consistent s"
  shows "step_one_pool s \<longleftrightarrow> \<not> single_pool_violated (sv_involves s PoolTransparent) (sv_involves s PoolSapling)
    (sv_involves s PoolOrchard) (sv_involves s PoolIronwood)"
proof -
  have used: "input_count_in_pool (sv_counts s) p + output_count_in_pool (sv_counts s) p
      + change_count_in_pool (sv_counts s) p > 0 \<longleftrightarrow> sv_involves s p" for p
    using assms by (simp add: step_consistent_def)
  have set: "{p \<in> {PoolSapling, PoolOrchard, PoolIronwood}. sv_involves s p} =
      (if sv_involves s PoolSapling then {PoolSapling} else {}) \<union>
      (if sv_involves s PoolOrchard then {PoolOrchard} else {}) \<union>
      (if sv_involves s PoolIronwood then {PoolIronwood} else {})"
    by auto
  show ?thesis
    unfolding step_one_pool_def Let_def neq0_conv [symmetric] single_pool_iff
    using used [of PoolTransparent] unfolding used [unfolded neq0_conv [symmetric]] set
    by (auto simp: used)
qed

lemma check_proposal_ok:
  assumes "list_all step_consistent (pr_steps p)"
  shows "check_proposal lib net privacy limit max_bytes p = Inr () \<longleftrightarrow>
      length (pr_steps p) \<le> 1 \<and> list_all (step_within lib net limit max_bytes p) (pr_steps p) \<and>
      (privacy = FullPrivacy \<longrightarrow> list_all step_one_pool (pr_steps p))"
proof -
  have pool: "enforce_full_privacy p = Inr () \<longleftrightarrow> list_all step_one_pool (pr_steps p)"
    using assms by (auto simp: enforce_full_privacy_def full_privacy_steps_ok step_one_pool_iff list_all_iff)
  show ?thesis
    unfolding check_proposal_def sum_bind_Inr
    by (auto simp: enforce_single_step_def pool enforce_orchard_action_limit_def enforce_max_tx_bytes_def
        enforce_zip218_budget_def Let_def orchard_action_steps_ok max_tx_bytes_steps_ok zip218_steps_ok
        step_within_def proposal_branch_def list_all_iff)
qed

lemma check_proposal_code:
  "check_proposal lib net privacy limit max_bytes p = Inl e \<Longrightarrow>
     err_code e = (if length (pr_steps p) > 1 then RPC_WALLET_ERROR else RPC_INVALID_PARAMETER)"
  by (auto simp: check_proposal_def sum_bind_def enforce_single_step_def enforce_full_privacy_def
      full_privacy_steps_ok enforce_orchard_action_limit_def enforce_max_tx_bytes_def enforce_zip218_budget_def
      Let_def guard_codes wallet_error_def full_privacy_refusal_def invalid_parameter_def
      split: sum.splits if_splits)

text \<open>C29. The guards accept a proposal exactly when it has at most one step, every step keeps to the action
  cap, the byte ceiling and, from NU7 on, the shielded budget, and, under \<open>FullPrivacy\<close>, spends and pays
  in a single shielded pool with nothing transparent.  A proposal of several steps is refused with -4, any other
  violation with -8.
\<close>

theorem check_proposal_exact:
  assumes "list_all step_consistent (pr_steps p)"
  shows "(check_proposal lib net privacy limit max_bytes p = Inr () \<longleftrightarrow>
      length (pr_steps p) \<le> 1 \<and> list_all (step_within lib net limit max_bytes p) (pr_steps p) \<and>
      (privacy = FullPrivacy \<longrightarrow> list_all step_one_pool (pr_steps p))) \<and>
    (case check_proposal lib net privacy limit max_bytes p of
       Inr _ \<Rightarrow> True
     | Inl e \<Rightarrow> err_code e = (if length (pr_steps p) > 1 then RPC_WALLET_ERROR else RPC_INVALID_PARAMETER))"
  by (intro conjI check_proposal_ok assms) (auto split: sum.splits dest: check_proposal_code)

text \<open>A one-step Orchard send within every limit, as the size estimator and the guards see it.\<close>

definition sample_step :: "(unit, unit) step_view" where
  "sample_step = \<lparr>sv_counts = \<lparr>input_count_in_pool = (\<lambda>p. if p = PoolOrchard then 1 else 0),
       output_count_in_pool = (\<lambda>p. if p = PoolOrchard then 1 else 0), change_count_in_pool = (\<lambda>p. if p = PoolOrchard then 1 else 0),
       ironwood_bundle_padding = (), orchard_action_count = (\<lambda>_ _. Some 2), ironwood_action_count = (\<lambda>_ _. Some 0)\<rparr>,
     sv_note_pools = [ShieldedOrchard], sv_payment_pools = [PoolOrchard], sv_change_pools = [PoolOrchard],
     sv_involves = (\<lambda>p. p = PoolOrchard)\<rparr>"

definition sample_proposal :: "(unit, unit) proposal" where
  "sample_proposal = \<lparr>pr_steps = [sample_step], pr_min_target_height = 100\<rparr>"

definition sample_crate :: protocol_crate where
  "sample_crate = \<lparr>main_activation = (\<lambda>_. Some 50), test_activation = (\<lambda>_. None), local_activation = (\<lambda>_ _. None),
     branch_id_of = (\<lambda>_. 0)\<rparr>"

definition sample_proposal_lib :: "(unit, unit, unit, unit) proposal_lib" where
  "sample_proposal_lib = \<lparr>pl_crate = sample_crate, pl_branch_for_height = (\<lambda>_ _. ()), pl_bundle_version = (\<lambda>_ _. Some ()),
     pl_circuit_version = (\<lambda>_. ()), pl_default_padding = (), pl_shielded_budget = 330, pl_sapling_limit = 300\<rparr>"

lemmas sample_proposal_defs =
  sample_step_def sample_proposal_def sample_crate_def sample_proposal_lib_def

theorem check_proposal_exact_witness:
  "check_proposal sample_proposal_lib Main FullPrivacy 50 100000 sample_proposal = Inr ()"
proof -
  have shape: "lib_step_shape sample_proposal_lib sample_step b =
      \<lparr>orchard_actions = 2, ironwood_actions = 0, sapling_spends = 0, sapling_outputs = 0,
       transparent_inputs = 0, transparent_outputs = 0\<rparr>" for b
    by (simp add: lib_step_shape_def step_shape_def pool_actions_def sample_proposal_defs Let_def)
  have "step_within sample_proposal_lib Main 50 100000 sample_proposal sample_step"
    unfolding step_within_def Let_def shape
    by (simp add: orchard_family_actions_def estimate_bytes_def orchard_bundle_bytes_def compact_size_bytes_def
        zip218_overflow_def field_widths sample_proposal_lib_def Let_def)
  moreover have "step_consistent sample_step" by (simp add: step_consistent_def sample_step_def)
  moreover from this have "step_one_pool sample_step"
    by (simp add: step_one_pool_iff) (simp add: single_pool_violated_def sample_step_def)
  ultimately show ?thesis
    using check_proposal_exact [where p = sample_proposal and lib = sample_proposal_lib and net = Main
        and privacy = FullPrivacy and limit = 50 and max_bytes = 100000]
    by (simp add: sample_proposal_def)
qed

text \<open>The enrichment looks at two of the three shielded pools: value pending in Ironwood changes nothing.\<close>

lemma enrich_ignores_ironwood:
  "enrich_insufficient_funds (Some (s\<lparr>account_balances := map (\<lambda>b. b\<lparr>ironwood_balance := f b\<rparr>) (account_balances s)\<rparr>)) m e
   = enrich_insufficient_funds (Some s) m e"
  by (simp add: enrich_insufficient_funds_def pending_incoming_total_def pending_change_total_def comp_def)

text \<open>
  C0. Enriching a failure keeps its code, leaves every error but a shortfall as it is, only appends to the
  message of a shortfall, and carries the selector's available and required amounts over.
\<close>

theorem enrich_preserves:
  "let e' = enrich_insufficient_funds summary coinbase e
   in err_code e' = err_code e \<and> (err_code e \<noteq> RPC_WALLET_INSUFFICIENT_FUNDS \<longrightarrow> e' = e) \<and>
      prefix (err_message e) (err_message e') \<and>
      map_option (\<lambda>d. (available d, required d)) (insufficient_funds_of e') =
        (if e' = e then map_option (\<lambda>d. (available d, required d)) (insufficient_funds_of e)
         else Some (case insufficient_funds_of e of Some d \<Rightarrow> (available d, required d) | None \<Rightarrow> (None, None)))"
  by (cases summary; cases "insufficient_funds_of e")
    (auto simp: enrich_insufficient_funds_def Let_def insufficient_funds_def with_details_def rpc_error_new_def
      insufficient_funds_of_def)

theorem enrich_preserves_witness:
  "err_code (enrich_insufficient_funds None (\<lambda>_. None) (wallet_error ''x'')) = RPC_WALLET_ERROR"
  using enrich_preserves [where summary = None and coinbase = "\<lambda>_. None" and e = "wallet_error ''x''"]
  by (simp add: Let_def wallet_error_def)

end
