(* ===== verification/Upstream_Link.thy ===== *)
theory Upstream_Link
  imports Chain Sync_Engine Rpc_Error
begin

text \<open>
  The wallet actor's connection to its upstream, from \<open>src/wallet/actor.rs\<close> and \<open>src/backoff.rs\<close>:
  the reconnect backoff, the health check of a fresh connection, the refusal of a node that did not follow a network
  upgrade, the refresh of the chain tip, the pacing and diagnosis of sync failures, and broadcasting.  Durations and
  instants are in nanoseconds.
\<close>

section \<open>Backoff\<close>

definition DURATION_MAX :: nat where "DURATION_MAX = (2 ^ 64 - 1) * 1000000000 + 999999999"

record backoff =
  bo_base :: nat
  bo_max :: nat
  bo_attempt :: u32

definition backoff_new :: "nat \<Rightarrow> nat \<Rightarrow> backoff" where
  "backoff_new base mx = \<lparr>bo_base = base, bo_max = mx, bo_attempt = 0\<rparr>"

definition backoff_cap :: "backoff \<Rightarrow> nat" where
  "backoff_cap b =
     (let d = bo_base b * 2 ^ unat (min (bo_attempt b) 31)
      in if d \<le> DURATION_MAX then min d (bo_max b) else bo_max b)"

text \<open>The random draw is an argument: \<open>draw c\<close> is the number drawn from \<open>0..=c\<close>.\<close>

definition next_delay :: "(nat \<Rightarrow> nat) \<Rightarrow> backoff \<Rightarrow> nat \<times> backoff" where
  "next_delay draw b =
     (let cap_millis = (backoff_cap b div 1000000) mod 2 ^ 64
      in (draw cap_millis * 1000000, b\<lparr>bo_attempt := saturating_add (bo_attempt b) 1\<rparr>))"

definition backoff_reset :: "backoff \<Rightarrow> backoff" where
  "backoff_reset b = b\<lparr>bo_attempt := 0\<rparr>"

definition reconnect_after_backoff :: "(nat \<Rightarrow> nat) \<Rightarrow> nat \<Rightarrow> backoff \<Rightarrow> nat \<times> backoff" where
  "reconnect_after_backoff draw now b = (let (d, b) = next_delay draw b in (now + d, b))"

definition SYNC_ERROR_RETRY_INTERVAL :: nat where "SYNC_ERROR_RETRY_INTERVAL = 2 * 1000000000"

definition sync_error_retry_deadline :: "nat \<Rightarrow> nat" where
  "sync_error_retry_deadline now = now + SYNC_ERROR_RETRY_INTERVAL"

section \<open>Texts from the upstream\<close>

definition is_control :: "char \<Rightarrow> bool" where
  "is_control c \<longleftrightarrow> (let n = of_char c :: nat in n < 32 \<or> (127 \<le> n \<and> n < 160))"

definition SANITIZE_MAX :: nat where "SANITIZE_MAX = 200"

definition sanitize_upstream_msg :: "string \<Rightarrow> string" where
  "sanitize_upstream_msg msg =
     (let shown = filter (\<lambda>c. \<not> is_control c) msg
      in take SANITIZE_MAX shown @ (if length shown > SANITIZE_MAX then ''...'' else []))"

datatype already_known = AkNo | AkInMempool | AkInChain

definition upstream_already_has_tx :: "string \<Rightarrow> already_known" where
  "upstream_already_has_tx msg =
     (let m = to_ascii_lowercase msg
      in if \<not> contains m ''already'' then AkNo
         else if contains m ''mempool'' \<or> contains m ''known'' then AkInMempool
         else if contains m ''chain'' \<or> contains m ''in state'' then AkInChain
         else AkNo)"

definition show_int :: "int \<Rightarrow> string" where
  "show_int i = (if i < 0 then CHR ''-'' # show_nat (nat (- i)) else show_nat (nat i))"

definition rejection :: "broadcast_outcome \<Rightarrow> rpc_error" where
  "rejection b = rpc_error_new RPC_VERIFY_REJECTED (''transaction rejected (code '' @ show_int (bo_error_code b) @ ''): '' @
     sanitize_upstream_msg (bo_error_message b))"

definition classify_broadcast_outcome :: "broadcast_outcome \<Rightarrow> rpc_error + unit" where
  "classify_broadcast_outcome b =
     (if is_accepted b then Inr ()
      else case upstream_already_has_tx (bo_error_message b) of
        AkInMempool \<Rightarrow> Inr ()
      | AkInChain \<Rightarrow> Inl (rpc_error_new RPC_VERIFY_ALREADY_IN_UTXO_SET ''Transaction outputs already in utxo set'')
      | AkNo \<Rightarrow> Inl (rejection b))"

definition chain_name_is_main :: "string \<Rightarrow> bool option" where
  "chain_name_is_main s =
     (if s = ''main'' then Some True else if s = ''test'' \<or> s = ''regtest'' then Some False else None)"

fun show_hex :: "nat \<Rightarrow> nat \<Rightarrow> string" where
  "show_hex 0 n = []"
| "show_hex (Suc w) n = show_hex w (n div 16) @ [hex_digit (n mod 16)]"

definition branch_hex :: "u32 \<Rightarrow> string" where
  "branch_hex b = ''0x'' @ show_hex 8 (unat b)"

section \<open>The upstream as the actor sees it\<close>

text \<open>
  \<open>'n\<close> is everything outside the process, \<open>'c\<close> a client handle, \<open>'d\<close> the wallet database.  A call returns
  nothing when it is cut off by its deadline, and otherwise an error or an answer.
\<close>

type_synonym 'a reply = "(string + 'a) option"

record ('n, 'c, 'd) upstream_api =
  api_describe :: string
  api_acquire :: "'n \<Rightarrow> (string + 'c) \<times> 'n"
  api_server_info :: "'c \<Rightarrow> 'n \<Rightarrow> server_info reply \<times> 'n"
  api_refresh_server_info :: "'c \<Rightarrow> 'n \<Rightarrow> (string + server_info) \<times> 'n"
  api_block_scan_covers_transparent :: "'c \<Rightarrow> bool"
  api_update_subtree_roots :: "'c \<Rightarrow> 'n \<Rightarrow> 'd \<Rightarrow> unit reply \<times> 'n \<times> 'd"
  api_latest_block :: "'c \<Rightarrow> 'n \<Rightarrow> chain_tip reply \<times> 'n"
  api_broadcast_tx :: "'c \<Rightarrow> u8 list \<Rightarrow> 'n \<Rightarrow> broadcast_outcome reply \<times> 'n"
  api_update_chain_tip :: "u32 \<Rightarrow> 'd \<Rightarrow> (string + unit) \<times> 'd"

record 'b link_config =
  lc_network :: z_network
  lc_crate :: protocol_crate
  lc_branches :: "'b branch_crate"
  lc_transparent_enabled :: bool
  lc_wallet :: string

record ('n, 'c, 'd) link =
  lk_net :: 'n
  lk_db :: 'd
  lk_client :: "'c option"
  lk_mempool_open :: bool
  lk_roots_synced :: bool
  lk_unsupported :: "unsupported_upgrade list"
  lk_branch_checked_at :: "u32 option"
  lk_tip_height :: "u32 option"
  lk_tip_hash :: "string option"
  lk_refusal :: "string option"
  lk_backoff :: backoff
  lk_reconnect_at :: nat
  lk_connected_logged :: bool
  lk_last_sync_error :: "string option"
  lk_sync_error_streak :: u32
  lk_sync_halted :: bool

section \<open>Connecting\<close>

definition verify_server_network ::
  "('n, 'c, 'd) upstream_api \<Rightarrow> z_network \<Rightarrow> 'c \<Rightarrow> 'n \<Rightarrow> server_info reply \<times> 'n" where
  "verify_server_network api network c net =
     (case api_server_info api c net of
        (Some (Inr info), net) \<Rightarrow>
          ((case chain_name_is_main (si_chain_name info) of
              Some server_is_main \<Rightarrow>
                (let wallet_is_main = (network = Main)
                 in if server_is_main \<noteq> wallet_is_main
                    then Some (Inl (''lightwalletd serves chain '' @ [CHR 0x27] @ si_chain_name info @ [CHR 0x27] @
                      '' but this wallet is configured for '' @ [CHR 0x27] @ network_name network @ [CHR 0x27]))
                    else Some (Inr info))
            | None \<Rightarrow> Some (Inr info)), net)
      | (r, net) \<Rightarrow> (r, net))"

definition transparent_capability_error :: "bool \<Rightarrow> bool \<Rightarrow> string option" where
  "transparent_capability_error transparent_enabled block_scan_covers =
     (if transparent_enabled \<and> \<not> block_scan_covers then Some
       (''this wallet has transparent receiving enabled ([pools] transparent = true), but the upstream lightwalletd does not '' @
        ''advertise that it serves transparent data in compact blocks. Transparent receives would never be discovered. '' @
        ''lightwalletd 0.5.4 and later advertise it; 0.5.0-0.5.3 serve the data without saying so, and on those set [backend] '' @
        ''assume_transparent_in_compact_blocks = true to assert the capability. Otherwise upgrade the server, point [backend] '' @
        ''server at your own zebra, or disable [pools] transparent'')
      else None)"

definition HEALTH_TIMED_OUT :: string where
  "HEALTH_TIMED_OUT = ''upstream health check timed out after 60s''"

definition prepare_client ::
  "('n, 'c, 'd) upstream_api \<Rightarrow> 'b link_config \<Rightarrow> 'c \<Rightarrow> ('n, 'c, 'd) link
   \<Rightarrow> (string + server_info) \<times> ('n, 'c, 'd) link" where
  "prepare_client api cfg c s =
     (case verify_server_network api (lc_network cfg) c (lk_net s) of
        (None, net) \<Rightarrow> (Inl HEALTH_TIMED_OUT, s\<lparr>lk_net := net\<rparr>)
      | (Some (Inl e), net) \<Rightarrow> (Inl e, s\<lparr>lk_net := net\<rparr>)
      | (Some (Inr info), net) \<Rightarrow>
          (case transparent_capability_error (lc_transparent_enabled cfg) (api_block_scan_covers_transparent api c) of
             Some why \<Rightarrow> (Inl why, s\<lparr>lk_net := net\<rparr>)
           | None \<Rightarrow>
               if lk_roots_synced s then (Inr info, s\<lparr>lk_net := net\<rparr>)
               else (case api_update_subtree_roots api c net (lk_db s) of
                       (None, net, d) \<Rightarrow> (Inl HEALTH_TIMED_OUT, s\<lparr>lk_net := net, lk_db := d\<rparr>)
                     | (Some (Inl e), net, d) \<Rightarrow> (Inl e, s\<lparr>lk_net := net, lk_db := d\<rparr>)
                     | (Some (Inr _), net, d) \<Rightarrow> (Inr info, s\<lparr>lk_net := net, lk_db := d, lk_roots_synced := True\<rparr>))))"

definition upgrade_in_force :: "u32 option \<Rightarrow> unsupported_upgrade \<Rightarrow> bool" where
  "upgrade_in_force tip u \<longleftrightarrow> uu_active u \<or>
     (case (uu_activation_height u, tip) of (Some h, Some t) \<Rightarrow> h \<le> t | _ \<Rightarrow> False)"

definition upstream_not_upgraded :: "unsupported_upgrade list \<Rightarrow> u32 option \<Rightarrow> unsupported_upgrade option" where
  "upstream_not_upgraded upgrades tip =
     List.find (\<lambda>u. uu_kind u = UpstreamNotUpgraded \<and> upgrade_in_force tip u) upgrades"

definition NODE_UPGRADE_GUIDANCE :: string where
  "NODE_UPGRADE_GUIDANCE = ''Upgrade the node to a release that schedules it (zebra 7.0.0 or zakura 1.7.0 and later for NU7) and '' @
     ''let it re-sync past the activation height; zecd will not sync a wallet against it until then.''"

definition upstream_refusal_message :: "unsupported_upgrade \<Rightarrow> string" where
  "upstream_refusal_message u =
     (let at = (case uu_activation_height u of Some h \<Rightarrow> '' at height '' @ show_nat (unat h) | None \<Rightarrow> [])
      in ''the upstream node has not adopted network upgrade '' @ [CHR 0x27] @ sanitize_upstream_msg (uu_name u) @ [CHR 0x27] @
         '' (consensus branch '' @ branch_hex (uu_branch_id u) @ ''), which this zecd build activates'' @ at @
         '': past that height the node follows the old rules on a chain the network abandoned, so this wallet will not sync '' @
         ''against it. '' @ NODE_UPGRADE_GUIDANCE)"

definition branch_check_due :: "protocol_crate \<Rightarrow> z_network \<Rightarrow> u32 option \<Rightarrow> u32 \<Rightarrow> bool" where
  "branch_check_due pc net checked_at tip \<longleftrightarrow>
     (case checked_at of
        None \<Rightarrow> False
      | Some checked \<Rightarrow> list_ex (\<lambda>s. checked < su_activation_height s \<and> su_activation_height s \<le> tip) (scheduled_upgrades pc net))"

definition refuse_stale_upstream :: "('n, 'c, 'd) link \<Rightarrow> string option \<times> ('n, 'c, 'd) link" where
  "refuse_stale_upstream s =
     (let refusal = map_option upstream_refusal_message (upstream_not_upgraded (lk_unsupported s) (lk_tip_height s))
      in (refusal, s\<lparr>lk_refusal := refusal\<rparr>))"

definition connect :: "('n, 'c, 'd) upstream_api \<Rightarrow> 'b link_config \<Rightarrow> ('n, 'c, 'd) link \<Rightarrow> (string + unit) \<times> ('n, 'c, 'd) link" where
  "connect api cfg s =
     (let s = s\<lparr>lk_mempool_open := False\<rparr>
      in case api_acquire api (lk_net s) of
           (Inl e, net) \<Rightarrow> (Inl e, s\<lparr>lk_net := net\<rparr>)
         | (Inr c, net) \<Rightarrow>
             (case prepare_client api cfg c (s\<lparr>lk_net := net, lk_client := Some c\<rparr>) of
                (Inl e, s) \<Rightarrow> (Inl e, s\<lparr>lk_client := None\<rparr>)
              | (Inr info, s) \<Rightarrow>
                  (let s = s\<lparr>lk_unsupported := unsupported_upgrades (lc_branches cfg) (lc_crate cfg) info (lc_network cfg),
                             lk_branch_checked_at := (case si_tip_height info of Some h \<Rightarrow> Some h | None \<Rightarrow> lk_tip_height s)\<rparr>
                   in case refuse_stale_upstream s of
                        (Some why, s) \<Rightarrow> (Inl why, s\<lparr>lk_client := None\<rparr>)
                      | (None, s) \<Rightarrow> (Inr (), s))))"

definition mark_disconnected :: "(nat \<Rightarrow> nat) \<Rightarrow> nat \<Rightarrow> ('n, 'c, 'd) link \<Rightarrow> ('n, 'c, 'd) link" where
  "mark_disconnected draw now s =
     (let (at, b) = reconnect_after_backoff draw now (lk_backoff s)
      in s\<lparr>lk_client := None, lk_reconnect_at := at, lk_backoff := b, lk_connected_logged := False\<rparr>)"

section \<open>The tip\<close>

definition fetch_chain_tip :: "('n, 'c, 'd) upstream_api \<Rightarrow> 'c \<Rightarrow> 'n \<Rightarrow> (string + u32 \<times> u8 list) \<times> 'n" where
  "fetch_chain_tip api c net =
     (case api_latest_block api c net of
        (None, net) \<Rightarrow> (Inl ''latest_block timed out after 30s'', net)
      | (Some (Inl e), net) \<Rightarrow> (Inl e, net)
      | (Some (Inr t), net) \<Rightarrow>
          (if unat (tip_height_of t) < 2 ^ 32 then (Inr (ucast (tip_height_of t), tip_hash t), net)
           else (Inl ''chain tip height out of range'', net)))"

definition fetch_and_store_chain_tip ::
  "('n, 'c, 'd) upstream_api \<Rightarrow> 'c \<Rightarrow> 'n \<Rightarrow> 'd \<Rightarrow> (string + u32 \<times> u8 list) \<times> 'n \<times> 'd" where
  "fetch_and_store_chain_tip api c net d =
     (case fetch_chain_tip api c net of
        (Inl e, net) \<Rightarrow> (Inl e, net, d)
      | (Inr (tip, hash), net) \<Rightarrow>
          (case api_update_chain_tip api tip d of
             (Inl e, d) \<Rightarrow> (Inl e, net, d)
           | (Inr _, d) \<Rightarrow> (Inr (tip, hash), net, d)))"

text \<open>The second half of a refresh, once the tip is known: the upgrade check, the refusal, and the bookkeeping.\<close>

definition accept_tip ::
  "u32 \<times> u8 list \<Rightarrow> ('n, 'c, 'd) link \<Rightarrow> (string + unit) \<times> ('n, 'c, 'd) link" where
  "accept_tip th s =
     (case refuse_stale_upstream s of
        (Some why, s) \<Rightarrow> (Inl why, s\<lparr>lk_client := None\<rparr>)
      | (None, s) \<Rightarrow>
          (let s = s\<lparr>lk_backoff := backoff_reset (lk_backoff s), lk_connected_logged := True\<rparr>
           in (Inr (), if length (snd th) = 32 then s\<lparr>lk_tip_hash := Some (hex_encode (rev (snd th)))\<rparr> else s)))"

definition refresh_tip ::
  "('n, 'c, 'd) upstream_api \<Rightarrow> 'b link_config \<Rightarrow> bool \<Rightarrow> ('n, 'c, 'd) link \<Rightarrow> (string + unit) \<times> ('n, 'c, 'd) link" where
  "refresh_tip api cfg has_account s =
     (case lk_client s of
        None \<Rightarrow> (Inl ''not connected'', s)
      | Some c \<Rightarrow>
          (let (r, net, d) = (if has_account then fetch_and_store_chain_tip api c (lk_net s) (lk_db s)
                 else (case fetch_chain_tip api c (lk_net s) of (r, net) \<Rightarrow> (r, net, lk_db s)));
               s = s\<lparr>lk_net := net, lk_db := d\<rparr>
           in case r of
                Inl e \<Rightarrow> (Inl e, s)
              | Inr th \<Rightarrow>
                  (let s = s\<lparr>lk_tip_height := Some (fst th)\<rparr>
                   in if branch_check_due (lc_crate cfg) (lc_network cfg) (lk_branch_checked_at s) (fst th)
                      then (case api_refresh_server_info api c (lk_net s) of
                              (Inl e, net) \<Rightarrow> (Inl e, s\<lparr>lk_net := net\<rparr>)
                            | (Inr info, net) \<Rightarrow>
                                accept_tip th (s\<lparr>lk_net := net,
                                  lk_unsupported := unsupported_upgrades (lc_branches cfg) (lc_crate cfg) info (lc_network cfg),
                                  lk_branch_checked_at := (case si_tip_height info of Some h \<Rightarrow> Some h | None \<Rightarrow> lk_tip_height s)\<rparr>))
                      else accept_tip th s)))"

section \<open>Sync failures\<close>

text \<open>An error of a sync pass: what it displays, and whether it is one of the two classes the actor asks for.\<close>

record sync_failure =
  sf_display :: string
  sf_apply_side :: bool
  sf_unrecoverable_reorg :: bool

definition sync_failure_is_terminal :: "sync_failure \<Rightarrow> bool" where
  "sync_failure_is_terminal e \<longleftrightarrow> sf_unrecoverable_reorg e"

definition PERSISTENT_SYNC_ERROR_THRESHOLD :: u32 where "PERSISTENT_SYNC_ERROR_THRESHOLD = 3"

definition UPGRADE_GUIDANCE :: string where
  "UPGRADE_GUIDANCE = ''Update to the latest zecd release; if you are already on the latest release, please report this at '' @
     ''https://forum.zcashcommunity.com''"

definition sync_failure_hint :: "bool \<Rightarrow> u32 \<Rightarrow> string \<Rightarrow> unsupported_upgrade option \<Rightarrow> string option" where
  "sync_failure_hint apply_side streak wallet upgrade =
     (if \<not> apply_side then None
      else case (case upgrade of Some u \<Rightarrow> if uu_kind u = UnknownBranch then Some u else None | None \<Rightarrow> None) of
        Some u \<Rightarrow>
          (let height = (case uu_activation_height u of Some h \<Rightarrow> '', activated at height '' @ show_nat (unat h) | None \<Rightarrow> [])
           in Some (''likely cause: this zecd build does not support network upgrade '' @ [CHR 0x27] @
                sanitize_upstream_msg (uu_name u) @ [CHR 0x27] @ '' (consensus branch '' @ branch_hex (uu_branch_id u) @ height @
                ''), so blocks past its activation cannot be scanned. '' @ UPGRADE_GUIDANCE))
      | None \<Rightarrow>
          if streak \<ge> PERSISTENT_SYNC_ERROR_THRESHOLD
          then Some (''the same error has now failed '' @ show_nat (unat streak) @ '' consecutive sync passes: the upstream is '' @
            ''serving blocks but the wallet database cannot apply them, which restarting or upgrading zecd will not fix if the '' @
            ''database itself is inconsistent. Stop the daemon and run `zecd rescan --wallet '' @ wallet @ ''` to rebuild the '' @
            ''wallet database from the seed (keys.toml is kept; funds and history are re-derived by rescanning from the wallet '' @
            ''birthday). If this looks like a zecd bug, please report it at https://forum.zcashcommunity.com'')
          else None)"

definition note_sync_error ::
  "'b link_config \<Rightarrow> sync_failure \<Rightarrow> ('n, 'c, 'd) link \<Rightarrow> string \<times> ('n, 'c, 'd) link" where
  "note_sync_error cfg e s =
     (let msg = ''sync error: '' @ sf_display e;
          s = (if lk_last_sync_error s = Some msg
               then s\<lparr>lk_sync_error_streak := saturating_add (lk_sync_error_streak s) 1\<rparr>
               else s\<lparr>lk_last_sync_error := Some msg, lk_sync_error_streak := 1\<rparr>);
          upgrade = List.find (\<lambda>u. uu_kind u = UnknownBranch \<and> upgrade_in_force (lk_tip_height s) u) (lk_unsupported s)
      in ((case sync_failure_hint (sf_apply_side e) (lk_sync_error_streak s) (lc_wallet cfg) upgrade of
             Some hint \<Rightarrow> msg @ '' ('' @ hint @ '')''
           | None \<Rightarrow> msg), s))"

text \<open>The two arms of the run loop for the result of a sync pass.\<close>

definition sync_pass_failed ::
  "'b link_config \<Rightarrow> (nat \<Rightarrow> nat) \<Rightarrow> nat \<Rightarrow> sync_failure \<Rightarrow> ('n, 'c, 'd) link \<Rightarrow> ('n, 'c, 'd) link" where
  "sync_pass_failed cfg draw now e s =
     (let s = (if \<not> lk_sync_halted s \<and> sync_failure_is_terminal e then s\<lparr>lk_sync_halted := True\<rparr> else s);
          (_, s) = note_sync_error cfg e s;
          s = mark_disconnected draw now s
      in s\<lparr>lk_reconnect_at := max (lk_reconnect_at s) (sync_error_retry_deadline now)\<rparr>)"

definition sync_pass_succeeded :: "('n, 'c, 'd) link \<Rightarrow> ('n, 'c, 'd) link" where
  "sync_pass_succeeded s = s\<lparr>lk_last_sync_error := None, lk_sync_error_streak := 0\<rparr>"

section \<open>Broadcasting\<close>

definition upstream_error :: "string \<Rightarrow> string \<Rightarrow> rpc_error" where
  "upstream_error detail client_msg = misc client_msg"

definition broadcast_committed ::
  "('n, 'c, 'd) upstream_api \<Rightarrow> 'b link_config \<Rightarrow> (nat \<Rightarrow> nat) \<Rightarrow> nat \<Rightarrow> u8 list \<Rightarrow> ('n, 'c, 'd) link
   \<Rightarrow> (rpc_error + unit) \<times> ('n, 'c, 'd) link" where
  "broadcast_committed api cfg draw now raw s =
     (let (connected, s) = (if lk_client s = None then connect api cfg s else (Inr (), s))
      in case connected of
           Inl e \<Rightarrow> (Inr (), s)
         | Inr _ \<Rightarrow>
             (case lk_client s of
                None \<Rightarrow> (Inr (), s)
              | Some c \<Rightarrow>
                  (case api_broadcast_tx api c raw (lk_net s) of
                     (Some (Inr outcome), net) \<Rightarrow>
                       (let s = s\<lparr>lk_net := net\<rparr>
                        in if is_accepted outcome then (Inr (), s)
                           else if upstream_already_has_tx (bo_error_message outcome) \<noteq> AkNo then (Inr (), s)
                           else (Inl (rejection outcome), s))
                   | (_, net) \<Rightarrow> (Inr (), mark_disconnected draw now (s\<lparr>lk_net := net\<rparr>)))))"

definition do_broadcast ::
  "('n, 'c, 'd) upstream_api \<Rightarrow> 'b link_config \<Rightarrow> (nat \<Rightarrow> nat) \<Rightarrow> nat \<Rightarrow> u8 list \<Rightarrow> ('n, 'c, 'd) link
   \<Rightarrow> (rpc_error + unit) \<times> ('n, 'c, 'd) link" where
  "do_broadcast api cfg draw now data s =
     (let (connected, s) = (if lk_client s = None then connect api cfg s else (Inr (), s))
      in case connected of
           Inl e \<Rightarrow> (Inl (upstream_error e ''could not connect to the upstream node''), s)
         | Inr _ \<Rightarrow>
             (case lk_client s of
                None \<Rightarrow> (Inl (misc ''not connected to upstream''), s)
              | Some c \<Rightarrow>
                  (case api_broadcast_tx api c data (lk_net s) of
                     (Some (Inr outcome), net) \<Rightarrow> (classify_broadcast_outcome outcome, s\<lparr>lk_net := net\<rparr>)
                   | (_, net) \<Rightarrow> (Inl (misc ''transaction broadcast to the upstream node failed''),
                                 mark_disconnected draw now (s\<lparr>lk_net := net\<rparr>)))))"

section \<open>Pacing\<close>

lemma backoff_cap_le: "backoff_cap b \<le> bo_max b"
  by (simp add: backoff_cap_def Let_def)

text \<open>The state of the backoff after \<open>k\<close> failed attempts in a row.\<close>

definition backoff_after :: "(nat \<Rightarrow> nat) \<Rightarrow> nat \<Rightarrow> backoff \<Rightarrow> backoff" where
  "backoff_after draw k b = ((\<lambda>b. snd (next_delay draw b)) ^^ k) b"

lemma backoff_after_Suc: "backoff_after draw (Suc k) b = snd (next_delay draw (backoff_after draw k b))"
  by (simp add: backoff_after_def)

lemma backoff_after_fields:
  "bo_base (backoff_after draw k b) = bo_base b \<and> bo_max (backoff_after draw k b) = bo_max b \<and>
   unat (bo_attempt (backoff_after draw k b)) = min (unat (bo_attempt b) + k) (2 ^ 32 - 1)"
proof (induction k)
  case 0
  have "unat (bo_attempt b) < 2 ^ 32" using unsigned_less [of "bo_attempt b"] by simp
  then show ?case by (simp add: backoff_after_def)
next
  case (Suc k)
  then show ?case
    by (simp add: backoff_after_Suc next_delay_def Let_def unat_saturating_add min_def)
qed

lemma unat_min31: "unat (min (a :: u32) 31) = min (unat a) 31"
  by (simp add: min_def word_le_nat_alt)

text \<open>
  C0. The k-th reconnect attempt of an outage waits at most the smaller of the maximum and the base doubled k times
  (31 times at most), whatever is drawn, and never past the configured maximum; a reset starts over at the base.
\<close>

theorem backoff_doubles:
  assumes "\<And>c. draw c \<le> c" and "bo_base b * 2 ^ 31 \<le> DURATION_MAX" and "bo_attempt b = 0"
  shows "backoff_cap (backoff_after draw k b) = min (bo_base b * 2 ^ min k 31) (bo_max b) \<and>
    fst (next_delay draw (backoff_after draw k b)) \<le> backoff_cap (backoff_after draw k b) \<and>
    backoff_cap (backoff_reset (backoff_after draw k b)) = min (bo_base b) (bo_max b)"
proof -
  let ?b = "backoff_after draw k b"
  have f: "bo_base ?b = bo_base b" "bo_max ?b = bo_max b" "unat (bo_attempt ?b) = min k (2 ^ 32 - 1)"
    using backoff_after_fields [of draw k b] assms(3) by auto
  have e: "unat (min (bo_attempt ?b) 31) = min k 31"
    using f(3) by (simp only: unat_min31) simp
  have le: "bo_base b * 2 ^ min k 31 \<le> DURATION_MAX"
    by (rule order_trans [OF _ assms(2)]) (intro mult_le_mono2 power_increasing, simp_all)
  have cap: "backoff_cap ?b = min (bo_base b * 2 ^ min k 31) (bo_max b)"
    unfolding backoff_cap_def Let_def e f using le by simp
  have "draw ((backoff_cap ?b div 1000000) mod 2 ^ 64) * 1000000 \<le> (backoff_cap ?b div 1000000) * 1000000"
    by (intro mult_le_mono1 order_trans [OF assms(1)]) simp
  then have delay: "fst (next_delay draw ?b) \<le> backoff_cap ?b"
    unfolding next_delay_def Let_def fst_conv by (meson div_times_less_eq_dividend order_trans)
  have "bo_base b \<le> DURATION_MAX" using assms(2) by simp
  then have "backoff_cap (backoff_reset ?b) = min (bo_base b) (bo_max b)"
    by (simp add: backoff_cap_def backoff_reset_def Let_def f)
  with cap delay show ?thesis by blast
qed

theorem backoff_doubles_witness:
  "fst (next_delay (\<lambda>c. c) (backoff_after (\<lambda>c. c) 3 (backoff_new 1000000000 60000000000))) \<le> 8000000000"
  using backoff_doubles [where draw = "\<lambda>c. c" and k = 3 and b = "backoff_new 1000000000 60000000000"]
  by (simp add: backoff_new_def DURATION_MAX_def)

section \<open>What a connection guarantees\<close>

lemma chain_ok:
  assumes "verify_server_network api n c net = (Some (Inr info), net')"
  shows "chain_name_is_main (si_chain_name info) \<in> {None, Some (n = Main)}"
  using assms unfolding verify_server_network_def
  by (auto simp: Let_def split: prod.splits option.splits sum.splits if_splits)

lemma prepare_ok:
  assumes "prepare_client api cfg c s = (Inr info, s')"
  shows "lk_client s' = lk_client s \<and> lk_roots_synced s' \<and>
    (\<exists>net'. verify_server_network api (lc_network cfg) c (lk_net s) = (Some (Inr info), net')) \<and>
    (lc_transparent_enabled cfg \<longrightarrow> api_block_scan_covers_transparent api c)"
  using assms unfolding prepare_client_def transparent_capability_error_def
  by (auto split: prod.splits option.splits sum.splits if_splits)

lemma refuse_stale_fields:
  assumes "refuse_stale_upstream s = (r, s')"
  shows "lk_client s' = lk_client s" "lk_roots_synced s' = lk_roots_synced s" "lk_unsupported s' = lk_unsupported s"
    "lk_tip_height s' = lk_tip_height s" "lk_branch_checked_at s' = lk_branch_checked_at s" "lk_backoff s' = lk_backoff s"
    "r = None \<longleftrightarrow> upstream_not_upgraded (lk_unsupported s) (lk_tip_height s) = None"
  using assms by (auto simp: refuse_stale_upstream_def Let_def)

lemma refuse_stale_none:
  "refuse_stale_upstream s = (None, s') \<Longrightarrow> upstream_not_upgraded (lk_unsupported s) (lk_tip_height s) = None"
  by (auto simp: refuse_stale_upstream_def Let_def)


section \<open>What a refreshed tip guarantees\<close>

lemma accept_tip_ok:
  assumes "accept_tip th s = (r, s')"
  shows "lk_tip_height s' = lk_tip_height s" "lk_unsupported s' = lk_unsupported s"
    "lk_branch_checked_at s' = lk_branch_checked_at s"
    "case r of Inr _ \<Rightarrow> upstream_not_upgraded (lk_unsupported s) (lk_tip_height s) = None \<and> bo_attempt (lk_backoff s') = 0 \<and>
        lk_client s' = lk_client s
      | Inl _ \<Rightarrow> lk_client s' = None"
  using assms unfolding accept_tip_def
  by (auto simp: Let_def backoff_reset_def refuse_stale_fields split: prod.splits option.splits if_splits
      dest: refuse_stale_none)

text \<open>A refresh that succeeds records a tip under which the node has no missing upgrade in force, from a server report
  not older than the last activation height the tip has passed whenever a report was taken before it, and resets the
  reconnect backoff.  A refresh refused for a missing upgrade drops the client, so nothing is scanned from that node.
\<close>

theorem refresh_tip_no_stale_upstream:
  assumes "refresh_tip api cfg has_account s = (r, s')" and "r = Inr ()"
  shows "\<exists>tip. lk_tip_height s' = Some tip \<and> lk_client s' = lk_client s \<and> lk_client s' \<noteq> None \<and>
      upstream_not_upgraded (lk_unsupported s') (Some tip) = None \<and> bo_attempt (lk_backoff s') = 0 \<and>
      (branch_check_due (lc_crate cfg) (lc_network cfg) (lk_branch_checked_at s) tip \<longrightarrow>
         (\<exists>c net info net'. lk_client s = Some c \<and> api_refresh_server_info api c net = (Inr info, net') \<and>
            lk_unsupported s' = unsupported_upgrades (lc_branches cfg) (lc_crate cfg) info (lc_network cfg)))"
proof -
  obtain c where c: "lk_client s = Some c"
    using assms by (auto simp: refresh_tip_def split: option.splits)
  obtain th s1 where th: "lk_tip_height s1 = Some (fst th)" "lk_client s1 = lk_client s"
      "lk_branch_checked_at s1 = lk_branch_checked_at s" "lk_unsupported s1 = lk_unsupported s"
    and step: "(if branch_check_due (lc_crate cfg) (lc_network cfg) (lk_branch_checked_at s1) (fst th)
        then (case api_refresh_server_info api c (lk_net s1) of
                (Inl e, net) \<Rightarrow> (Inl e, s1\<lparr>lk_net := net\<rparr>)
              | (Inr info, net) \<Rightarrow>
                  accept_tip th (s1\<lparr>lk_net := net,
                    lk_unsupported := unsupported_upgrades (lc_branches cfg) (lc_crate cfg) info (lc_network cfg),
                    lk_branch_checked_at := (case si_tip_height info of Some h \<Rightarrow> Some h | None \<Rightarrow> lk_tip_height s1)\<rparr>))
        else accept_tip th s1) = (Inr (), s')"
  proof -
    obtain v net d where f: "(if has_account then fetch_and_store_chain_tip api c (lk_net s) (lk_db s)
        else (case fetch_chain_tip api c (lk_net s) of (r, net) \<Rightarrow> (r, net, lk_db s))) = (v, net, d)"
      by (rule prod_cases3)
    obtain th where "v = Inr th"
      using assms f c by (cases v) (auto simp: refresh_tip_def)
    with assms f c show ?thesis
      by (intro that [of "s\<lparr>lk_net := net, lk_db := d, lk_tip_height := Some (fst th)\<rparr>" th])
        (auto simp: refresh_tip_def Let_def)
  qed
  show ?thesis
  proof (cases "branch_check_due (lc_crate cfg) (lc_network cfg) (lk_branch_checked_at s) (fst th)")
    case True
    then obtain info net where info: "api_refresh_server_info api c (lk_net s1) = (Inr info, net)"
      and acc: "accept_tip th (s1\<lparr>lk_net := net,
          lk_unsupported := unsupported_upgrades (lc_branches cfg) (lc_crate cfg) info (lc_network cfg),
          lk_branch_checked_at := (case si_tip_height info of Some h \<Rightarrow> Some h | None \<Rightarrow> lk_tip_height s1)\<rparr>) = (Inr (), s')"
      using step th by (auto split: prod.splits sum.splits)
    show ?thesis
      using accept_tip_ok [OF acc] th c info by auto
  next
    case False
    then have acc: "accept_tip th s1 = (Inr (), s')" using step th by simp
    show ?thesis using accept_tip_ok [OF acc] th c False by auto
  qed
qed

section \<open>What a broadcast reports\<close>

text \<open>
  C0. Once a transaction is stored, sending it out fails only when the node examined it and refused it for a reason
  other than already having it: never for a connection that cannot be made, breaks or times out.  A transaction the
  caller supplied is reported sent exactly when the node took it or has it in its mempool.
\<close>

theorem broadcast_reports:
  assumes "broadcast_committed api cfg draw now raw s = (r, sb)" and "do_broadcast api cfg draw now raw s = (q, sd)"
  shows "(case r of Inr _ \<Rightarrow> True
      | Inl e \<Rightarrow> \<exists>c net net' b. api_broadcast_tx api c raw net = (Some (Inr b), net') \<and> \<not> is_accepted b \<and>
          upstream_already_has_tx (bo_error_message b) = AkNo \<and> e = rejection b) \<and>
    (q = Inr () \<longleftrightarrow> (\<exists>s0 c net' b.
       ((lk_client s = None \<and> connect api cfg s = (Inr (), s0)) \<or> (lk_client s \<noteq> None \<and> s0 = s)) \<and> lk_client s0 = Some c \<and>
       api_broadcast_tx api c raw (lk_net s0) = (Some (Inr b), net') \<and>
       (is_accepted b \<or> upstream_already_has_tx (bo_error_message b) = AkInMempool)))"
proof -
  obtain v s0 where v: "(if lk_client s = None then connect api cfg s else (Inr (), s)) = (v, s0)"
    by (cases "if lk_client s = None then connect api cfg s else (Inr (), s)")
  have committed: "case r of Inr _ \<Rightarrow> True
      | Inl e \<Rightarrow> \<exists>c net net' b. api_broadcast_tx api c raw net = (Some (Inr b), net') \<and> \<not> is_accepted b \<and>
          upstream_already_has_tx (bo_error_message b) = AkNo \<and> e = rejection b"
    using assms(1) v unfolding broadcast_committed_def
    by (auto simp: Let_def split: prod.splits sum.splits option.splits if_splits)
  have "q = Inr () \<longleftrightarrow> v = Inr () \<and> (\<exists>c net' b. lk_client s0 = Some c \<and>
      api_broadcast_tx api c raw (lk_net s0) = (Some (Inr b), net') \<and>
      (is_accepted b \<or> upstream_already_has_tx (bo_error_message b) = AkInMempool))"
    using assms(2) v unfolding do_broadcast_def
    by (auto simp: Let_def classify_broadcast_outcome_def split: prod.splits sum.splits option.splits if_splits
        already_known.splits)
  with committed v show ?thesis by (auto split: if_splits)
qed

section \<open>Sync failures are paced and counted\<close>

lemma sync_pass_failed_fields:
  "lk_client (sync_pass_failed cfg draw now e s) = None"
  "lk_reconnect_at (sync_pass_failed cfg draw now e s) \<ge> now + SYNC_ERROR_RETRY_INTERVAL"
  "lk_sync_halted (sync_pass_failed cfg draw now e s) \<longleftrightarrow> lk_sync_halted s \<or> sync_failure_is_terminal e"
  "lk_last_sync_error (sync_pass_failed cfg draw now e s) = Some (''sync error: '' @ sf_display e)"
  "lk_sync_error_streak (sync_pass_failed cfg draw now e s) =
     (if lk_last_sync_error s = Some (''sync error: '' @ sf_display e) then saturating_add (lk_sync_error_streak s) 1 else 1)"
  by (simp_all add: sync_pass_failed_def note_sync_error_def mark_disconnected_def reconnect_after_backoff_def
      sync_error_retry_deadline_def Let_def split: prod.splits)

definition run_failures ::
  "'b link_config \<Rightarrow> ((nat \<Rightarrow> nat) \<times> nat \<times> sync_failure) list \<Rightarrow> ('n, 'c, 'd) link \<Rightarrow> ('n, 'c, 'd) link" where
  "run_failures cfg es s = fold (\<lambda>(draw, now, e). sync_pass_failed cfg draw now e) es s"

lemma run_failures_snoc:
  "run_failures cfg (es @ [(draw, now, e)]) s = sync_pass_failed cfg draw now e (run_failures cfg es s)"
  by (simp add: run_failures_def)

lemma failure_streak:
  assumes "es \<noteq> []" and "\<forall>(draw, now, e) \<in> set es. sf_display e = msg" and "lk_last_sync_error s = None"
  shows "unat (lk_sync_error_streak (run_failures cfg es s)) = min (length es) (2 ^ 32 - 1)"
proof -
  have "lk_last_sync_error (run_failures cfg es s) = Some (''sync error: '' @ msg) \<and>
      unat (lk_sync_error_streak (run_failures cfg es s)) = min (length es) (2 ^ 32 - 1)"
    using assms
  proof (induction es rule: rev_induct)
    case (snoc x es)
    obtain draw now e where x: "x = (draw, now, e)" by (cases x)
    have same: "sf_display e = msg" using snoc.prems x by auto
    show ?case
    proof (cases "es = []")
      case True
      then show ?thesis using snoc.prems x same by (simp add: run_failures_def sync_pass_failed_fields)
    next
      case False
      with snoc.IH snoc.prems have
        "lk_last_sync_error (run_failures cfg es s) = Some (''sync error: '' @ msg)"
        "unat (lk_sync_error_streak (run_failures cfg es s)) = min (length es) (2 ^ 32 - 1)"
        by auto
      then show ?thesis
        by (simp add: x same run_failures_snoc sync_pass_failed_fields unat_saturating_add min_def)
    qed
  qed simp
  then show ?thesis ..
qed

lemma failure_last:
  assumes "es \<noteq> []"
  shows "lk_client (run_failures cfg es s) = None"
    "lk_reconnect_at (run_failures cfg es s) \<ge> fst (snd (last es)) + SYNC_ERROR_RETRY_INTERVAL"
  using assms by (cases es rule: rev_cases; simp add: run_failures_def sync_pass_failed_fields split: prod.splits)+

lemma failures_halt:
  "lk_sync_halted (run_failures cfg es s) \<longleftrightarrow> lk_sync_halted s \<or> (\<exists>(draw, now, e) \<in> set es. sync_failure_is_terminal e)"
  by (induction es arbitrary: s) (auto simp: run_failures_def sync_pass_failed_fields)

text \<open>
  C0. After any run of failed passes with the same text, however the clock and the draws go, the actor has no client,
  waits at least the retry floor past the last failure, has counted the run exactly (up to the counter's width), and
  has halted exactly when one of the failures could not be retried.
\<close>

theorem sync_failures_paced:
  assumes "es \<noteq> []" and "\<forall>(draw, now, e) \<in> set es. sf_display e = msg" and "lk_last_sync_error s = None"
  shows "let s' = run_failures cfg es s
    in lk_client s' = None \<and> lk_reconnect_at s' \<ge> fst (snd (last es)) + SYNC_ERROR_RETRY_INTERVAL \<and>
       unat (lk_sync_error_streak s') = min (length es) (2 ^ 32 - 1) \<and>
       (lk_sync_halted s' \<longleftrightarrow> lk_sync_halted s \<or> (\<exists>(draw, now, e) \<in> set es. sync_failure_is_terminal e))"
  unfolding Let_def by (intro conjI failure_last failure_streak [OF assms] failures_halt assms)

text \<open>What is echoed from an upstream is at most 203 characters long, has no control character, and is the text
  itself whenever that is short and plain.\<close>

theorem sanitize_bounded:
  "length (sanitize_upstream_msg msg) \<le> 203 \<and> list_all (\<lambda>c. \<not> is_control c) (sanitize_upstream_msg msg) \<and>
   (length msg \<le> 200 \<and> list_all (\<lambda>c. \<not> is_control c) msg \<longrightarrow> sanitize_upstream_msg msg = msg)"
proof -
  have dots: "list_all (\<lambda>c. \<not> is_control c) ''...''" by code_simp
  have "length (sanitize_upstream_msg msg) \<le> 203"
    by (simp add: sanitize_upstream_msg_def Let_def SANITIZE_MAX_def)
  moreover have "list_all (\<lambda>c. \<not> is_control c) (sanitize_upstream_msg msg)"
    using dots by (auto simp: sanitize_upstream_msg_def Let_def list_all_iff dest: in_set_takeD)
  moreover have "filter (\<lambda>c. \<not> is_control c) msg = msg" if "list_all (\<lambda>c. \<not> is_control c) msg"
    using that by (simp add: list_all_iff filter_id_conv)
  ultimately show ?thesis
    by (auto simp: sanitize_upstream_msg_def Let_def SANITIZE_MAX_def)
qed

theorem sanitize_bounded_witness: "sanitize_upstream_msg ''bad-txns'' = ''bad-txns''"
proof -
  have "list_all (\<lambda>c. \<not> is_control c) ''bad-txns''" by code_simp
  then show ?thesis using sanitize_bounded [where msg = "''bad-txns''"] by simp
qed

section \<open>A node for the witnesses\<close>

text \<open>A node on the test chain that serves a tip at height 500 and refuses what starts with a zero byte.\<close>

definition sample_server_info :: server_info where
  "sample_server_info = \<lparr>si_chain_name = ''test'', si_tip_height = Some 500, si_upgrades = [], si_tip_branch_id = None,
     si_next_block_branch_id = None\<rparr>"

definition sample_api :: "(unit, unit, 'd) upstream_api" where
  "sample_api = \<lparr>api_describe = ''node'', api_acquire = (\<lambda>n. (Inr (), n)), api_server_info = (\<lambda>_ n. (Some (Inr sample_server_info), n)),
     api_refresh_server_info = (\<lambda>_ n. (Inr sample_server_info, n)), api_block_scan_covers_transparent = (\<lambda>_. True),
     api_update_subtree_roots = (\<lambda>_ n d. (Some (Inr ()), n, d)),
     api_latest_block = (\<lambda>_ n. (Some (Inr \<lparr>tip_height_of = 500, tip_hash = []\<rparr>), n)),
     api_broadcast_tx = (\<lambda>_ raw n. (Some (Inr (if hd raw = 0 then \<lparr>bo_error_code = 1, bo_error_message = ''bad''\<rparr> else broadcast_accepted)), n)),
     api_update_chain_tip = (\<lambda>_ d. (Inr (), d))\<rparr>"

definition no_upgrades_crate :: protocol_crate where
  "no_upgrades_crate = \<lparr>main_activation = (\<lambda>_. None), test_activation = (\<lambda>_. None), local_activation = (\<lambda>_ _. None),
     branch_id_of = (\<lambda>_. 0)\<rparr>"

definition sample_link_config :: "unit link_config" where
  "sample_link_config = \<lparr>lc_network = Test, lc_crate = no_upgrades_crate,
     lc_branches = \<lparr>branch_try_from = (\<lambda>_. Some ()), branch_to_u32 = (\<lambda>_. 0), branch_upgrade = (\<lambda>_. None), branch_for_height = (\<lambda>_ _. ())\<rparr>,
     lc_transparent_enabled = True, lc_wallet = ''w''\<rparr>"

definition sample_link :: "(unit, unit, unit) link" where
  "sample_link = \<lparr>lk_net = (), lk_db = (), lk_client = None, lk_mempool_open = False, lk_roots_synced = False, lk_unsupported = [],
     lk_branch_checked_at = None, lk_tip_height = None, lk_tip_hash = None, lk_refusal = None,
     lk_backoff = backoff_new 1000000000 60000000000, lk_reconnect_at = 0, lk_connected_logged = False,
     lk_last_sync_error = None, lk_sync_error_streak = 0, lk_sync_halted = False\<rparr>"

lemmas sample_link_defs = sample_link_def sample_link_config_def sample_api_def sample_server_info_def

lemma sample_scheduled: "scheduled_upgrades no_upgrades_crate Test = []"
  by code_simp

lemma sample_connect:
  "connect sample_api sample_link_config sample_link =
     (Inr (), sample_link\<lparr>lk_client := Some (), lk_roots_synced := True, lk_branch_checked_at := Some 500\<rparr>)"
proof -
  have no: "unsupported_upgrades (lc_branches sample_link_config) (lc_crate sample_link_config) sample_server_info Test = []"
    by (simp add: unsupported_upgrades_def unknown_entries_def mismatch_entries_def beyond_horizon_def ruling_branch_def
        horizon_def option_list_def sample_scheduled sample_link_defs List.map_filter_def)
  show ?thesis
    using no
    by (simp add: connect_def prepare_client_def verify_server_network_def chain_name_is_main_def
        transparent_capability_error_def refuse_stale_upstream_def upstream_not_upgraded_def sample_link_defs Let_def)
qed


lemma sample_refresh:
  "fst (refresh_tip sample_api sample_link_config True (snd (connect sample_api sample_link_config sample_link))) = Inr ()"
proof -
  let ?s = "snd (connect sample_api sample_link_config sample_link)"
  have due: "\<not> branch_check_due (lc_crate sample_link_config) (lc_network sample_link_config) a t" for a t
    by (simp add: branch_check_due_def sample_link_config_def sample_scheduled split: option.split)
  have fetch: "fetch_and_store_chain_tip sample_api () n d = (Inr (500, []), n, d)" for n d
    by (simp add: fetch_and_store_chain_tip_def fetch_chain_tip_def sample_api_def)
  have "lk_client ?s = Some ()" "lk_unsupported ?s = []"
    by (simp_all add: sample_connect, simp add: sample_link_def)
  then show ?thesis
    by (simp add: refresh_tip_def fetch due accept_tip_def refuse_stale_upstream_def upstream_not_upgraded_def Let_def)
qed

theorem refresh_tip_no_stale_upstream_witness:
  "\<exists>tip. lk_tip_height (snd (refresh_tip sample_api sample_link_config True
     (snd (connect sample_api sample_link_config sample_link)))) = Some tip"
  using refresh_tip_no_stale_upstream [OF prod.collapse [symmetric] sample_refresh] by blast

theorem broadcast_reports_witness:
  "fst (do_broadcast sample_api sample_link_config (\<lambda>c. c) 0 [1] sample_link) = Inr ()"
proof -
  let ?b = "broadcast_committed sample_api sample_link_config (\<lambda>c. c) 0 [1] sample_link"
  let ?d = "do_broadcast sample_api sample_link_config (\<lambda>c. c) 0 [1] sample_link"
  let ?s = "snd (connect sample_api sample_link_config sample_link)"
  have rhs: "\<exists>s0 c net' b.
       ((lk_client sample_link = None \<and> connect sample_api sample_link_config sample_link = (Inr (), s0)) \<or>
        (lk_client sample_link \<noteq> None \<and> s0 = sample_link)) \<and> lk_client s0 = Some c \<and>
       api_broadcast_tx sample_api c [1] (lk_net s0) = (Some (Inr b), net') \<and>
       (is_accepted b \<or> upstream_already_has_tx (bo_error_message b) = AkInMempool)"
    by (intro exI [of _ ?s] exI [of _ "()"] exI [of _ broadcast_accepted] conjI disjI1)
      (simp_all add: sample_connect, simp_all add: sample_link_def sample_api_def is_accepted_def broadcast_accepted_def)
  show ?thesis
    by (rule iffD2 [OF conjunct2 [OF broadcast_reports [where api = sample_api and cfg = sample_link_config
          and draw = "\<lambda>c. c" and now = 0 and raw = "[1]" and s = sample_link and r = "fst ?b" and sb = "snd ?b"
          and q = "fst ?d" and sd = "snd ?d"]] rhs]) simp_all
qed

theorem sync_failures_paced_witness:
  "unat (lk_sync_error_streak (run_failures sample_link_config
     [(\<lambda>c. c, 0, \<lparr>sf_display = ''e'', sf_apply_side = True, sf_unrecoverable_reorg = False\<rparr>),
      (\<lambda>c. 0, 9, \<lparr>sf_display = ''e'', sf_apply_side = True, sf_unrecoverable_reorg = False\<rparr>)] sample_link)) = 2"
  using sync_failures_paced [where cfg = sample_link_config and s = sample_link and msg = "''e''" and es =
      "[(\<lambda>c. c, 0, \<lparr>sf_display = ''e'', sf_apply_side = True, sf_unrecoverable_reorg = False\<rparr>),
        (\<lambda>c. 0, 9, \<lparr>sf_display = ''e'', sf_apply_side = True, sf_unrecoverable_reorg = False\<rparr>)]"]
  by (simp add: Let_def sample_link_def)

end
