(* ===== verification/Seed_Lock.thy ===== *)
theory Seed_Lock
  imports Rpc_Error
begin

text \<open>
  Custody of the decrypted seed: \<open>src/wallet/keys.rs\<close>, the \<open>walletpassphrase\<close> and \<open>walletlock\<close>
  commands and the relock of \<open>src/wallet/actor.rs\<close>, and the fast path of \<open>WalletHandle::lock\<close> in
  \<open>src/wallet/mod.rs\<close>, which locks the shared seed without waiting for the actor.  Instants are in nanoseconds.
\<close>

section \<open>The seed keeper\<close>

record mlocked_seed =
  ms_seed :: "u8 list"
  ms_locked :: bool

record seed_keeper =
  sk_seed :: "mlocked_seed option"

definition sk_locked :: seed_keeper where
  "sk_locked = \<lparr>sk_seed = None\<rparr>"

text \<open>Whether the operating system agrees to pin the pages is an argument.\<close>

definition mlocked_new :: "bool \<Rightarrow> u8 list \<Rightarrow> mlocked_seed" where
  "mlocked_new pinned seed = \<lparr>ms_seed = seed, ms_locked = pinned\<rparr>"

definition sk_lock :: "seed_keeper \<Rightarrow> seed_keeper" where
  "sk_lock k = k\<lparr>sk_seed := None\<rparr>"

definition sk_set :: "bool \<Rightarrow> u8 list \<Rightarrow> seed_keeper \<Rightarrow> seed_keeper" where
  "sk_set pinned seed k = k\<lparr>sk_seed := Some (mlocked_new pinned seed)\<rparr>"

definition is_unlocked :: "seed_keeper \<Rightarrow> bool" where
  "is_unlocked k \<longleftrightarrow> sk_seed k \<noteq> None"

definition clone_seed :: "seed_keeper \<Rightarrow> u8 list option" where
  "clone_seed k = map_option ms_seed (sk_seed k)"

definition derive_usk :: "(u8 list \<Rightarrow> u32 \<Rightarrow> string + 'usk) \<Rightarrow> seed_keeper \<Rightarrow> u32 \<Rightarrow> rpc_error + 'usk" where
  "derive_usk from_seed k account_index =
     (case sk_seed k of
        None \<Rightarrow> Inl unlock_needed
      | Some s \<Rightarrow>
          (case from_seed (ms_seed s) account_index of
             Inl e \<Rightarrow> Inl (wallet_error (''key derivation failed: '' @ e))
           | Inr usk \<Rightarrow> Inr usk))"

section \<open>The identity file\<close>

record file_meta =
  fm_is_file :: bool
  fm_mode :: u32

fun show_oct :: "nat \<Rightarrow> string" where
  "show_oct n = (if n < 8 then [digit_char n] else show_oct (n div 8) @ [digit_char (n mod 8)])"

declare show_oct.simps [simp del]

text \<open>The metadata is that of the file the path resolves to, or an error text.\<close>

definition check_identity_file_permissions :: "(string \<Rightarrow> string + file_meta) \<Rightarrow> string \<Rightarrow> string + unit" where
  "check_identity_file_permissions metadata path =
     (case metadata path of
        Inl e \<Rightarrow> Inl (''reading the age identity file '' @ path)
      | Inr meta \<Rightarrow>
          if \<not> fm_is_file meta
          then Inl (''age identity path '' @ path @ '' does not resolve to a regular file; refusing to load the wallet'' @
            [CHR 0x27] @ ''s decryption key from an unexpected file type'')
          else if and (fm_mode meta) 0x3F \<noteq> 0
          then Inl (''age identity file '' @ path @ '' has insecure permissions 0o'' @ show_oct (unat (and (fm_mode meta) 0xFFF)) @
            '': it is accessible to group/other and could leak the wallet seed to other local users. It must be readable '' @
            ''only by its owner. (try chmod 600)'')
          else Inr ())"

definition decrypt_seed_with_identity ::
  "(string \<Rightarrow> string + file_meta) \<Rightarrow> (string \<Rightarrow> string + 'ids) \<Rightarrow> ('ids \<Rightarrow> 'st \<Rightarrow> string + u8 list option) \<Rightarrow> 'st \<Rightarrow> string
   \<Rightarrow> string + u8 list option" where
  "decrypt_seed_with_identity metadata load decrypt store path =
     sum_bind (check_identity_file_permissions metadata path) (\<lambda>_.
     sum_bind (load path) (\<lambda>identities. decrypt identities store))"

section \<open>Unlocking and locking\<close>

text \<open>
  What the commands use of the stored wallet and of the key library: reading \<open>keys.toml\<close>, decrypting the seed
  with a passphrase (a failure means a wrong one), the account's viewing key as the database has it, and the one
  a seed derives.
\<close>

record ('st, 'acct) custody_lib =
  cl_read_store :: "string + 'st"
  cl_decrypt :: "'st \<Rightarrow> string \<Rightarrow> string + u8 list option"
  cl_account_ufvk :: "'acct \<Rightarrow> string + string"
  cl_seed_ufvk :: "u8 list \<Rightarrow> u32 \<Rightarrow> string + string"
  cl_pins :: bool

record 'acct custody =
  cu_encrypted :: bool
  cu_seed :: seed_keeper
  cu_unlock_until :: "nat option"
  cu_account_id :: "'acct option"
  cu_account_index :: "u32 option"

definition relock_if_expired :: "nat \<Rightarrow> 'acct custody \<Rightarrow> 'acct custody" where
  "relock_if_expired now s =
     (if (case cu_unlock_until s of Some t \<Rightarrow> now \<ge> t | None \<Rightarrow> False)
      then s\<lparr>cu_seed := sk_lock (cu_seed s), cu_unlock_until := None\<rparr> else s)"

definition check_seed_binding ::
  "('st, 'acct) custody_lib \<Rightarrow> 'acct custody \<Rightarrow> u8 list \<Rightarrow> rpc_error + unit" where
  "check_seed_binding lib s seed =
     (case (cu_account_id s, cu_account_index s) of
        (Some i, Some index) \<Rightarrow>
          (case cl_account_ufvk lib i of
             Inl e \<Rightarrow> Inl (wallet_error (''reading the wallet account: '' @ e))
           | Inr expected \<Rightarrow>
               (case cl_seed_ufvk lib seed index of
                  Inl e \<Rightarrow> Inl (wallet_error (''deriving from the seed: '' @ e))
                | Inr derived \<Rightarrow>
                    if derived \<noteq> expected
                    then Inl (wallet_error (''Error: The decrypted seed does not derive this wallet'' @ [CHR 0x27] @ ''s account; '' @
                      ''keys.toml and the wallet database disagree (one of them was replaced or belongs to a different '' @
                      ''wallet). Refusing to unlock.''))
                    else Inr ()))
      | _ \<Rightarrow> Inr ())"

definition NANOS_PER_SEC :: nat where "NANOS_PER_SEC = 1000000000"

definition do_unlock ::
  "('st, 'acct) custody_lib \<Rightarrow> string \<Rightarrow> int \<Rightarrow> nat \<Rightarrow> 'acct custody \<Rightarrow> (rpc_error + unit) \<times> 'acct custody" where
  "do_unlock lib passphrase timeout_secs now s =
     (if \<not> cu_encrypted s
      then (Inl (rpc_error_new RPC_WALLET_WRONG_ENC_STATE
        ''Error: running with an unencrypted wallet, but walletpassphrase was called.''), s)
      else case cl_read_store lib of
        Inl e \<Rightarrow> (Inl (wallet_error (''reading keys.toml: '' @ e)), s)
      | Inr st \<Rightarrow>
          (case cl_decrypt lib st passphrase of
             Inl _ \<Rightarrow> (Inl (rpc_error_new RPC_WALLET_PASSPHRASE_INCORRECT
               ''Error: The wallet passphrase entered was incorrect.''), s)
           | Inr None \<Rightarrow> (Inl (wallet_error ''wallet has no stored seed''), s)
           | Inr (Some seed) \<Rightarrow>
               (case check_seed_binding lib s seed of
                  Inl e \<Rightarrow> (Inl e, s)
                | Inr _ \<Rightarrow>
                    (let s = s\<lparr>cu_seed := sk_set (cl_pins lib) seed (cu_seed s),
                               cu_unlock_until := Some (now + nat (max timeout_secs 0) * NANOS_PER_SEC)\<rparr>
                     in (Inr (), relock_if_expired now s)))))"

definition do_lock :: "'acct custody \<Rightarrow> (rpc_error + unit) \<times> 'acct custody" where
  "do_lock s =
     (if \<not> cu_encrypted s
      then (Inl (rpc_error_new RPC_WALLET_WRONG_ENC_STATE
        ''Error: running with an unencrypted wallet, but walletlock was called.''), s)
      else (Inr (), s\<lparr>cu_seed := sk_lock (cu_seed s), cu_unlock_until := None\<rparr>))"

text \<open>The fast path of the handle: only the handle of an encrypted wallet holds the shared seed.\<close>

definition handle_fast_lock :: "'acct custody \<Rightarrow> 'acct custody" where
  "handle_fast_lock s = (if cu_encrypted s then s\<lparr>cu_seed := sk_lock (cu_seed s)\<rparr> else s)"

text \<open>What a send or a signature does to get a key: relock first, then derive.\<close>

definition derive_for_spend ::
  "(u8 list \<Rightarrow> u32 \<Rightarrow> string + 'usk) \<Rightarrow> nat \<Rightarrow> u32 \<Rightarrow> 'acct custody \<Rightarrow> (rpc_error + 'usk) \<times> 'acct custody" where
  "derive_for_spend from_seed now index s =
     (let s = relock_if_expired now s in (derive_usk from_seed (cu_seed s) index, s))"

section \<open>Histories\<close>

text \<open>
  What can happen to the custody of a running wallet, each with its time where the code reads the clock.  An
  encrypted wallet starts locked.
\<close>

datatype custody_event =
    EvUnlock string int nat
  | EvLock
  | EvFastLock
  | EvTick nat
  | EvSpend nat

fun custody_step :: "('st, 'acct) custody_lib \<Rightarrow> custody_event \<Rightarrow> 'acct custody \<Rightarrow> 'acct custody" where
  "custody_step lib (EvUnlock p t now) s = snd (do_unlock lib p t now s)"
| "custody_step lib EvLock s = snd (do_lock s)"
| "custody_step lib EvFastLock s = handle_fast_lock s"
| "custody_step lib (EvTick now) s = relock_if_expired now s"
| "custody_step lib (EvSpend now) s = relock_if_expired now s"

definition custody_start :: "'acct option \<Rightarrow> u32 option \<Rightarrow> 'acct custody" where
  "custody_start acct index = \<lparr>cu_encrypted = True, cu_seed = sk_locked, cu_unlock_until = None, cu_account_id = acct,
     cu_account_index = index\<rparr>"

definition custody_run :: "('st, 'acct) custody_lib \<Rightarrow> custody_event list \<Rightarrow> 'acct custody \<Rightarrow> 'acct custody" where
  "custody_run lib evs s = fold (custody_step lib) evs s"

text \<open>An unlock command with the right passphrase for this wallet's seed.\<close>

definition unlock_succeeds :: "('st, 'acct) custody_lib \<Rightarrow> 'acct custody \<Rightarrow> string \<Rightarrow> bool" where
  "unlock_succeeds lib s p \<longleftrightarrow>
     (\<exists>st seed. cl_read_store lib = Inr st \<and> cl_decrypt lib st p = Inr (Some seed) \<and> check_seed_binding lib s seed = Inr ())"

text \<open>
  \<open>unlocked_by lib s evs until\<close>: the last event of the history that unlocks or locks is a successful unlock whose
  timeout ends at \<open>until\<close>.
\<close>

definition unlocked_by :: "('st, 'acct) custody_lib \<Rightarrow> 'acct custody \<Rightarrow> custody_event list \<Rightarrow> nat \<Rightarrow> bool" where
  "unlocked_by lib s evs until \<longleftrightarrow>
     (\<exists>before p t now after. evs = before @ EvUnlock p t now # after \<and> unlock_succeeds lib s p \<and>
        until = now + nat (max t 0) * NANOS_PER_SEC \<and> EvLock \<notin> set after \<and> EvFastLock \<notin> set after)"

lemma relock_fields:
  "cu_encrypted (relock_if_expired now s) = cu_encrypted s" "cu_account_id (relock_if_expired now s) = cu_account_id s"
  "cu_account_index (relock_if_expired now s) = cu_account_index s"
  by (simp_all add: relock_if_expired_def)

lemma custody_step_fields:
  "cu_encrypted (custody_step lib ev s) = cu_encrypted s" "cu_account_id (custody_step lib ev s) = cu_account_id s"
  "cu_account_index (custody_step lib ev s) = cu_account_index s"
  by (cases ev; simp add: do_unlock_def do_lock_def handle_fast_lock_def relock_fields Let_def split: sum.split option.split)+

lemma check_binding_cong:
  "cu_account_id s = cu_account_id s' \<Longrightarrow> cu_account_index s = cu_account_index s' \<Longrightarrow>
     check_seed_binding lib s seed = check_seed_binding lib s' seed"
  by (simp add: check_seed_binding_def)

lemma unlocked_by_snoc:
  "unlocked_by lib s evs u \<Longrightarrow> ev \<noteq> EvLock \<Longrightarrow> ev \<noteq> EvFastLock \<Longrightarrow> unlocked_by lib s (evs @ [ev]) u"
  unfolding unlocked_by_def by fastforce

text \<open>The invariant of an encrypted wallet: a seed in memory has a deadline, set by an unlock not locked since.\<close>

definition custody_inv :: "('st, 'acct) custody_lib \<Rightarrow> 'acct custody \<Rightarrow> custody_event list \<Rightarrow> 'acct custody \<Rightarrow> bool" where
  "custody_inv lib start evs s \<longleftrightarrow>
     cu_encrypted s \<and> cu_account_id s = cu_account_id start \<and> cu_account_index s = cu_account_index start \<and>
     (is_unlocked (cu_seed s) \<longrightarrow> (\<exists>u. cu_unlock_until s = Some u \<and> unlocked_by lib start evs u))"

lemma custody_inv_step:
  assumes "custody_inv lib start evs s"
  shows "custody_inv lib start (evs @ [ev]) (custody_step lib ev s)"
proof -
  have enc: "cu_encrypted s" using assms by (simp add: custody_inv_def)
  have keep: "\<exists>u. cu_unlock_until (custody_step lib ev s) = Some u \<and> unlocked_by lib start (evs @ [ev]) u"
    if "is_unlocked (cu_seed s)" "cu_seed (custody_step lib ev s) = cu_seed s"
      "cu_unlock_until (custody_step lib ev s) = cu_unlock_until s" "ev \<noteq> EvLock" "ev \<noteq> EvFastLock"
    using assms that unlocked_by_snoc unfolding custody_inv_def by metis
  have "is_unlocked (cu_seed (custody_step lib ev s)) \<longrightarrow>
      (\<exists>u. cu_unlock_until (custody_step lib ev s) = Some u \<and> unlocked_by lib start (evs @ [ev]) u)"
  proof (cases ev)
    case (EvUnlock p t now)
    show ?thesis
    proof (cases "unlock_succeeds lib s p")
      case True
      then obtain st seed where ok: "cl_read_store lib = Inr st" "cl_decrypt lib st p = Inr (Some seed)"
          "check_seed_binding lib s seed = Inr ()"
        by (auto simp: unlock_succeeds_def)
      have "unlock_succeeds lib start p"
        using ok assms check_binding_cong [of s start] unfolding unlock_succeeds_def custody_inv_def by metis
      then have "unlocked_by lib start (evs @ [ev]) (now + nat (max t 0) * NANOS_PER_SEC)"
        unfolding unlocked_by_def EvUnlock by fastforce
      then show ?thesis
        using ok enc
        by (auto simp: EvUnlock do_unlock_def relock_if_expired_def Let_def is_unlocked_def sk_lock_def split: if_splits)
    next
      case False
      then have "snd (do_unlock lib p t now s) = s"
        using enc by (auto simp: do_unlock_def unlock_succeeds_def split: sum.splits option.splits)
      then show ?thesis using keep EvUnlock by simp
    qed
  next
    case EvLock
    then show ?thesis using enc by (simp add: do_lock_def is_unlocked_def sk_lock_def)
  next
    case EvFastLock
    then show ?thesis using enc by (simp add: handle_fast_lock_def is_unlocked_def sk_lock_def)
  next
    case (EvTick now)
    then show ?thesis
      using keep by (cases "custody_step lib ev s = s") (auto simp: relock_if_expired_def is_unlocked_def sk_lock_def)
  next
    case (EvSpend now)
    then show ?thesis
      using keep by (cases "custody_step lib ev s = s") (auto simp: relock_if_expired_def is_unlocked_def sk_lock_def)
  qed
  then show ?thesis
    using assms by (simp add: custody_inv_def custody_step_fields)
qed

lemma custody_inv_run: "custody_inv lib (custody_start a i) evs (custody_run lib evs (custody_start a i))"
proof (induction evs rule: rev_induct)
  case Nil
  then show ?case by (simp add: custody_inv_def custody_run_def custody_start_def is_unlocked_def sk_locked_def)
next
  case (snoc ev evs)
  then show ?case using custody_inv_step by (fastforce simp: custody_run_def)
qed


definition sample_custody_lib :: "(unit, unit) custody_lib" where
  "sample_custody_lib = \<lparr>cl_read_store = Inr (), cl_decrypt = (\<lambda>_ p. if p = ''pw'' then Inr (Some [1, 2]) else Inl ''bad''),
     cl_account_ufvk = (\<lambda>_. Inr ''uview''), cl_seed_ufvk = (\<lambda>_ _. Inr ''uview''), cl_pins = True\<rparr>"


text \<open>
  C0. The identity file is read only when it resolves to a regular file with no permission for group or others.
\<close>

theorem identity_file_private:
  assumes "decrypt_seed_with_identity metadata load decrypt store path = Inr seed"
  shows "\<exists>meta ids. metadata path = Inr meta \<and> fm_is_file meta \<and> and (fm_mode meta) 0x3F = 0 \<and>
    load path = Inr ids \<and> decrypt ids store = Inr seed"
  using assms
  by (auto simp: decrypt_seed_with_identity_def check_identity_file_permissions_def sum_bind_Inr
      split: sum.splits if_splits)

theorem identity_file_private_witness:
  "\<exists>meta ids. (\<lambda>_ :: string. Inr \<lparr>fm_is_file = True, fm_mode = 0x180\<rparr> :: string + file_meta) ''id'' = Inr meta \<and> fm_is_file meta \<and>
     and (fm_mode meta) 0x3F = 0 \<and> (\<lambda>_ :: string. Inr () :: string + unit) ''id'' = Inr ids \<and>
     (\<lambda>_ _. Inr (Some [7 :: u8]) :: string + u8 list option) ids () = Inr (Some [7])"
  by (rule identity_file_private) (simp add: decrypt_seed_with_identity_def check_identity_file_permissions_def)

end
