(* ===== verification/Send_Actor.thy ===== *)
theory Send_Actor
  imports Actor_Monad Proposal_Rules Upstream_Link Seed_Lock "HOL-Library.While_Combinator"
begin

text \<open>
  One send on the wallet actor, from \<open>src/wallet/actor.rs\<close>: catching up to the tip, phase A (selecting notes and
  building the unproven transaction under the proposal guards), the inline path with its three ways to build, and the
  fully transparent path.
\<close>

section \<open>The state and what it is given\<close>

record ('n, 'c, 'd, 'acct) wallet_core =
  wc_link :: "('n, 'c, 'd) link"
  wc_custody :: "'acct custody"
  wc_transparent_unspent_dirty :: bool

record ('b, 'pol) send_config =
  sc_link :: "'b link_config"
  sc_pipeline_proving :: bool
  sc_orchard_keys :: bool
  sc_enabled_pools :: receiver_set
  sc_max_send_catchup_blocks :: u32
  sc_confirmations_policy :: 'pol
  sc_orchard_action_limit :: nat
  sc_max_tx_bytes :: nat
  sc_is_shard :: bool
  sc_prover :: bool

text \<open>A spendable output of a transparent address, and a proven transaction's inputs and outputs.\<close>

record 'u transparent_utxo =
  tu_ref :: 'u
  tu_value :: nat

record 'u transparent_build =
  tb_inputs :: "'u transparent_utxo list"
  tb_recipients :: "(transparent_address \<times> nat) list"
  tb_change :: "(transparent_address \<times> nat) option"
  tb_fee :: nat

text \<open>
  The wallet library, the key library and the parts of the actor outside this theory.  \<open>sl_sync_step\<close> is one pass of
  the sync loop; \<open>sl_clock\<close> and \<open>sl_draw\<close> read the time and the random source.  Library calls that run under
  \<open>block_in_place\<close> may panic.
\<close>

record ('n, 'c, 'd, 'acct, 'z, 'o, 's, 'codec, 'br, 'pad, 'ver, 'circuit, 'pol, 'pczt, 'usk, 'txid, 'u) send_lib =
  sl_api :: "('n, 'c, 'd) upstream_api"
  sl_clock :: "'n \<Rightarrow> nat"
  sl_draw :: "'n \<Rightarrow> nat \<Rightarrow> nat"
  sl_codec :: "('o, 's, 'codec) address_codec"
  sl_convert :: "('z, 'o, 's) convert"
  sl_proposal :: "('br, 'pad, 'ver, 'circuit) proposal_lib"
  sl_from_seed :: "u8 list \<Rightarrow> u32 \<Rightarrow> string + 'usk"
  sl_has_account :: "('n, 'c, 'd, 'acct) wallet_core \<Rightarrow> bool"
  sl_sync_step :: "(('n, 'c, 'd, 'acct) wallet_core, string + bool) act"
  sl_block_fully_scanned :: "'d \<Rightarrow> u32 option"
  sl_propose_transfer :: "'acct \<Rightarrow> 'z payment list \<Rightarrow> 'pol \<Rightarrow> spend_policy \<Rightarrow> ('d, proposal_failure + ('pad, 'ver) proposal) act"
  sl_create_pczt :: "'acct \<Rightarrow> ('pad, 'ver) proposal \<Rightarrow> ('d, string + 'pczt) act"
  sl_prove_sign :: "'pczt \<Rightarrow> 'circuit option \<Rightarrow> 'usk \<Rightarrow> (rpc_error + 'pczt) outcome"
  sl_store_pczt :: "'pczt \<Rightarrow> 'circuit option \<Rightarrow> ('d, rpc_error + 'txid) act"
  sl_create_proposed :: "'usk \<Rightarrow> ('pad, 'ver) proposal \<Rightarrow> ('d, proposal_failure + 'txid list) act"
  sl_mark_trusted :: "'txid \<Rightarrow> 'd \<Rightarrow> 'd"
  sl_read_raw :: "'d \<Rightarrow> 'txid \<Rightarrow> rpc_error + u8 list"
  sl_summary :: "'d \<Rightarrow> 'pol \<Rightarrow> wallet_summary option"
  sl_coinbase :: "'d \<Rightarrow> u32 \<Rightarrow> u64 option"
  sl_keys :: "rpc_error + unit"
  sl_target_height :: "'d \<Rightarrow> string + u32 option"
  sl_receivers :: "'d \<Rightarrow> 'acct \<Rightarrow> string + transparent_address list"
  sl_spendable :: "'d \<Rightarrow> transparent_address \<Rightarrow> u32 \<Rightarrow> 'pol \<Rightarrow> string + 'u transparent_utxo list"
  sl_internal_change :: "'d \<Rightarrow> 'acct \<Rightarrow> transparent_address option"
  sl_next_address :: "'acct \<Rightarrow> 'd \<Rightarrow> (string + transparent_address option option) \<times> 'd"
  sl_build_transparent :: "'usk \<Rightarrow> 'u transparent_build \<Rightarrow> ('d, rpc_error + 'txid \<times> u8 list) act"
  sl_zip317 :: "nat \<times> nat \<times> nat"
  sl_zatoshis :: "nat \<Rightarrow> string + nat"

definition wc_db :: "('n, 'c, 'd, 'acct) wallet_core \<Rightarrow> 'd" where
  "wc_db s = lk_db (wc_link s)"

definition on_link ::
  "(('n, 'c, 'd) link \<Rightarrow> 'a \<times> ('n, 'c, 'd) link) \<Rightarrow> (('n, 'c, 'd, 'acct) wallet_core, 'a) act" where
  "on_link f = act_on wc_link (\<lambda>l s. s\<lparr>wc_link := l\<rparr>) f"

definition on_db :: "('d, 'a) act \<Rightarrow> (('n, 'c, 'd, 'acct) wallet_core, 'a) act" where
  "on_db f s = (case f (wc_db s) of (r, d) \<Rightarrow> (r, s\<lparr>wc_link := (wc_link s)\<lparr>lk_db := d\<rparr>\<rparr>))"

definition now_of where
  "now_of lib s = sl_clock lib (lk_net (wc_link s))"

definition draw_of where
  "draw_of lib s = sl_draw lib (lk_net (wc_link s))"

definition disconnect :: "_ \<Rightarrow> ('n, 'c, 'd, 'acct) wallet_core \<Rightarrow> ('n, 'c, 'd, 'acct) wallet_core" where
  "disconnect lib s = s\<lparr>wc_link := mark_disconnected (draw_of lib s) (now_of lib s) (wc_link s)\<rparr>"

definition relock_now where
  "relock_now lib s = s\<lparr>wc_custody := relock_if_expired (now_of lib s) (wc_custody s)\<rparr>"

definition require_account :: "('b, 'pol) send_config \<Rightarrow> 'acct option \<Rightarrow> ('n, 'c, 'd, 'acct) wallet_core \<Rightarrow> rpc_error + 'acct" where
  "require_account cfg requested s =
     (case (case requested of Some a \<Rightarrow> Some a | None \<Rightarrow> cu_account_id (wc_custody s)) of
        Some a \<Rightarrow> Inr a
      | None \<Rightarrow> Inl (if sc_is_shard cfg then private_keys_disabled else account_not_ready))"

definition require_account_index :: "('n, 'c, 'd, 'acct) wallet_core \<Rightarrow> rpc_error + u32" where
  "require_account_index s =
     (case cu_account_index (wc_custody s) of Some i \<Rightarrow> Inr i | None \<Rightarrow> Inl private_keys_disabled)"

definition require_prover :: "('b, 'pol) send_config \<Rightarrow> rpc_error + unit" where
  "require_prover cfg = (if sc_prover cfg then Inr () else Inl private_keys_disabled)"

lemma act_total_on_db [act_total_intros]: "act_total f \<Longrightarrow> act_total (on_db f)"
  unfolding act_total_iff on_db_def by (metis (no_types, lifting) case_prod_conv)

section \<open>Catching up before a send\<close>

definition HALTED_FOR_SEND :: rpc_error where
  "HALTED_FOR_SEND = wallet_error (''sync is halted for this wallet, so a send cannot be built against the current chain; run '' @
     ''`zecd rescan` to rebuild it'')"

definition still_syncing :: "u32 \<Rightarrow> u32 option \<Rightarrow> u32 \<Rightarrow> u32 \<Rightarrow> rpc_error" where
  "still_syncing tip scanned lag limit = rpc_error_new RPC_CLIENT_IN_INITIAL_DOWNLOAD
     (''Wallet is still syncing: it has scanned to height '' @
      (case scanned of Some h \<Rightarrow> show_nat (unat h) | None \<Rightarrow> ''none'') @ '' of '' @ show_nat (unat tip) @ '' ('' @
      show_nat (unat lag) @ '' blocks behind), more than [spend] max_send_catchup_blocks = '' @ show_nat (unat limit) @
      '' allows a send to catch up. Retry once `waitforsync` reports the wallet caught up.'')"

text \<open>
  The scan loop before a send, as long as passes report work.  A pass that fails ends it; one that panics ends the
  send; no value stands for a loop that never ends.
\<close>

partial_function (option) catch_up_loop ::
  "(('n, 'c, 'd, 'acct) wallet_core, string + bool) act \<Rightarrow> (('n, 'c, 'd, 'acct) wallet_core \<Rightarrow> ('n, 'c, 'd, 'acct) wallet_core)
   \<Rightarrow> ('n, 'c, 'd, 'acct) wallet_core \<Rightarrow> (unit outcome \<times> ('n, 'c, 'd, 'acct) wallet_core) option" where
  "catch_up_loop sync_step disc s =
     (case sync_step s of
        (Returned (Inr worked), s) \<Rightarrow> (if worked then catch_up_loop sync_step disc s else Some (Returned (), s))
      | (Returned (Inl e), s) \<Rightarrow> Some (Returned (), disc s)
      | (Panicked, s) \<Rightarrow> Some (Panicked, s)
      | (Diverged, s) \<Rightarrow> Some (Diverged, s))"

definition catch_up where
  "catch_up lib s =
     (case catch_up_loop (sl_sync_step lib) (disconnect lib) s of Some r \<Rightarrow> r | None \<Rightarrow> (Diverged, s))"

definition sync_to_tip_for_send where
  "sync_to_tip_for_send lib cfg s =
     (if lk_sync_halted (wc_link s) then (Returned (Inl HALTED_FOR_SEND), s)
      else let (connected, s) =
             (if lk_client (wc_link s) = None
              then (case connect (sl_api lib) (sc_link cfg) (wc_link s) of (r, l) \<Rightarrow> (r, s\<lparr>wc_link := l\<rparr>))
              else (Inr (), s))
           in case connected of
                Inl e \<Rightarrow> (Returned (Inr ()), s)
              | Inr _ \<Rightarrow>
                  (case refresh_tip (sl_api lib) (sc_link cfg) (sl_has_account lib s) (wc_link s) of
                     (Inl e, l) \<Rightarrow> (Returned (Inr ()), disconnect lib (s\<lparr>wc_link := l\<rparr>))
                   | (Inr _, l) \<Rightarrow>
                       (let s = s\<lparr>wc_link := l\<rparr>;
                            scanned = sl_block_fully_scanned lib (wc_db s)
                        in case Option.bind (lk_tip_height l) (\<lambda>tip. map_option (\<lambda>lag. (tip, lag))
                                  (send_catchup_exceeded tip scanned (sc_max_send_catchup_blocks cfg))) of
                             Some (tip, lag) \<Rightarrow>
                               (Returned (Inl (still_syncing tip scanned lag (sc_max_send_catchup_blocks cfg))), s)
                           | None \<Rightarrow> act_bind (catch_up lib) (\<lambda>_. act_return (Inr ())) s)))"

section \<open>Building\<close>

definition cached_pczt_path :: "('b, 'pol) send_config \<Rightarrow> bool" where
  "cached_pczt_path cfg \<longleftrightarrow> sc_orchard_keys cfg \<and> \<not> rs_contains (sc_enabled_pools cfg) RSapling"

definition pipeline_eligible :: "('b, 'pol) send_config \<Rightarrow> bool" where
  "pipeline_eligible cfg \<longleftrightarrow> sc_pipeline_proving cfg \<and> cached_pczt_path cfg"

definition enrich_now where
  "enrich_now lib policy e s =
     enrich_insufficient_funds (sl_summary lib (wc_db s) policy) (sl_coinbase lib (wc_db s)) e"

text \<open>Selecting inputs under the source's policy and checking the proposal: the first half of both builders.\<close>

definition propose_checked where
  "propose_checked lib cfg account request policy privacy spend_policy =
     act_bind (on_db (sl_propose_transfer lib account request policy spend_policy)) (\<lambda>r s.
       case r of
         Inl e \<Rightarrow> (Returned (Inl (enrich_now lib policy (classify_err e) s)), s)
       | Inr p \<Rightarrow>
           (Returned (sum_bind (check_proposal (sl_proposal lib) (lc_network (sc_link cfg)) privacy
              (sc_orchard_action_limit cfg) (sc_max_tx_bytes cfg) p) (\<lambda>_. Inr p)), s))"

record ('pczt, 'circuit) phase_a =
  pa_pczt :: 'pczt
  pa_circuit :: "'circuit option"
  pa_shape :: send_shape

definition build_proposal_and_pczt where
  "build_proposal_and_pczt lib cfg request policy privacy spend_policy =
     act_try (\<lambda>s. (Returned (require_account cfg None s), s)) (\<lambda>account.
     act_try (propose_checked lib cfg account request policy privacy spend_policy) (\<lambda>p.
     act_bind (on_db (sl_create_pczt lib account p)) (\<lambda>r s.
       case r of
         Inl e \<Rightarrow> (Returned (Inl (enrich_now lib policy (classify_pczt_err e) s)), s)
       | Inr pczt \<Rightarrow>
           (let branch = proposal_branch (sl_proposal lib) (lc_network (sc_link cfg)) p
            in (Returned (Inr \<lparr>pa_pczt = pczt, pa_circuit = orchard_circuit_for_branch (sl_proposal lib) branch,
                  pa_shape = proposal_shape (sl_proposal lib) p branch\<rparr>), s)))))"

definition derive_key where
  "derive_key lib s =
     (case require_account_index s of
        Inl e \<Rightarrow> (Returned (Inl e), s)
      | Inr i \<Rightarrow> (Returned (derive_usk (sl_from_seed lib) (cu_seed (wc_custody s)) i), s))"

definition broadcast_now where
  "broadcast_now lib cfg raw s =
     (case broadcast_committed (sl_api lib) (sc_link cfg) (draw_of lib s) (now_of lib s) raw (wc_link s) of
        (r, l) \<Rightarrow> (Returned r, s\<lparr>wc_link := l\<rparr>))"

text \<open>Storing a proven transaction and sending it out: phase C.\<close>

definition store_and_broadcast where
  "store_and_broadcast lib cfg proven circuit =
     act_try (act_lift (sl_keys lib)) (\<lambda>_.
     act_try (on_db (sl_store_pczt lib proven circuit)) (\<lambda>txid.
     act_try (\<lambda>s. (Returned (sl_read_raw lib (wc_db s) txid), s)) (\<lambda>raw.
     act_try (broadcast_now lib cfg raw) (\<lambda>_. act_return (Inr txid)))))"

definition do_send_fused where
  "do_send_fused lib cfg usk request policy privacy spend_policy =
     act_try (\<lambda>s. (Returned (require_account cfg None s), s)) (\<lambda>account.
     act_try (act_lift (require_prover cfg)) (\<lambda>_.
     act_try (propose_checked lib cfg account request policy privacy spend_policy) (\<lambda>p.
     act_try (act_bind (on_db (sl_create_proposed lib usk p)) (\<lambda>r s.
         case r of
           Inl e \<Rightarrow> (Returned (Inl (enrich_now lib policy (classify_err e) s)), s)
         | Inr txids \<Rightarrow>
             (if length txids > 1 then (Returned (Inl (wallet_error ''multi-transaction proposals are not supported'')), s)
              else (Returned (Inr (hd txids)), s)))) (\<lambda>txid.
     act_try (\<lambda>s. let s = s\<lparr>wc_link := (wc_link s)\<lparr>lk_db := sl_mark_trusted lib txid (wc_db s)\<rparr>\<rparr>
         in (Returned (sl_read_raw lib (wc_db s) txid), s)) (\<lambda>raw.
     act_try (broadcast_now lib cfg raw) (\<lambda>_. act_return (Inr txid)))))))"

section \<open>Fully transparent sends\<close>

text \<open>The spendable outputs of every receiver, or of the one the caller named.\<close>

fun gather_utxos where
  "gather_utxos spendable from [] acc = Inr acc"
| "gather_utxos spendable from (addr # addrs) acc =
     (if (case from of Some f \<Rightarrow> f \<noteq> addr | None \<Rightarrow> False) then gather_utxos spendable from addrs acc
      else case spendable addr of
        Inl e \<Rightarrow> Inl (database_internal e)
      | Inr outs \<Rightarrow> gather_utxos spendable from addrs (acc @ outs))"

definition no_utxos_error :: "u64 \<Rightarrow> rpc_error" where
  "no_utxos_error coinbase = with_details
     (insufficient_funds (if coinbase > 0
        then ''Insufficient funds: 0 spendable non-coinbase transparent UTXOs; '' @ coinbase_hint coinbase
        else ''Insufficient funds: 0 spendable transparent UTXOs''))
     (InsufficientFunds (no_pending_details (Some 0) None coinbase))"

definition not_covered_error :: "u64 \<Rightarrow> nat list \<Rightarrow> rpc_error" where
  "not_covered_error coinbase values = with_details
     (insufficient_funds (let msg = ''Insufficient funds: transparent UTXOs do not cover the amount plus fee''
        in if coinbase > 0 then msg @ ''; '' @ coinbase_hint coinbase else msg))
     (InsufficientFunds (no_pending_details (Some (of_nat (sum_list values))) None coinbase))"

text \<open>The fixed inputs, outputs and fee of the transaction, before the change address is known.\<close>

record 'u transparent_plan =
  tp_selected :: "'u transparent_utxo list"
  tp_fee :: nat
  tp_change :: "nat option"

definition plan_transparent ::
  "nat \<times> nat \<times> nat \<Rightarrow> (nat \<Rightarrow> string + nat) \<Rightarrow> u64 \<Rightarrow> (transparent_address \<times> nat) list \<Rightarrow> 'u transparent_utxo list
   \<Rightarrow> rpc_error + 'u transparent_plan" where
  "plan_transparent zip317 zatoshis coinbase recipients utxos =
     (let (marginal, grace, p2pkh) = zip317;
          utxos = sort_key (\<lambda>u. - int (tu_value u)) utxos;
          args = \<lparr>recipients_total = sum_list (map snd recipients),
                  recip_out_size = sum_list (map (transparent_txout_size \<circ> fst) recipients),
                  change_out_size = 8 + 1 + 25, p2pkh_out_size = p2pkh, marginal_fee = marginal, grace_actions = grace\<rparr>;
          values = map tu_value utxos
      in case select_transparent_inputs args values of
           None \<Rightarrow> Inl (not_covered_error coinbase values)
         | Some (n_selected, change_amount, fee_amount, has_change) \<Rightarrow>
             sum_bind (case zatoshis fee_amount of Inl e \<Rightarrow> Inl (misc (''fee value: '' @ e)) | Inr z \<Rightarrow> Inr z) (\<lambda>fee.
             sum_bind (if has_change
                then (case zatoshis change_amount of Inl e \<Rightarrow> Inl (misc (''change value: '' @ e)) | Inr z \<Rightarrow> Inr (Some z))
                else Inr None) (\<lambda>change.
             Inr \<lparr>tp_selected = take n_selected utxos, tp_fee = fee, tp_change = change\<rparr>)))"

definition change_address where
  "change_address lib account d =
     (case sl_internal_change lib d account of
        Some a \<Rightarrow> (Inr a, d)
      | None \<Rightarrow>
          (case sl_next_address lib account d of
             (Inl e, d) \<Rightarrow> (Inl (database_internal e), d)
           | (Inr None, d) \<Rightarrow> (Inl (wallet_error ''could not derive a transparent change address''), d)
           | (Inr (Some None), d) \<Rightarrow> (Inl (wallet_error ''derived change address has no transparent receiver''), d)
           | (Inr (Some (Some a)), d) \<Rightarrow> (Inr a, d)))"

definition build_transparent_send where
  "build_transparent_send lib recipients policy usk account from =
     act_try (\<lambda>d. (Returned (case sl_target_height lib d of
           Inl e \<Rightarrow> Inl (database_internal e)
         | Inr None \<Rightarrow> Inl (wallet_error ''wallet has no chain tip yet; cannot build a transaction'')
         | Inr (Some h) \<Rightarrow> Inr h), d)) (\<lambda>target_height.
     act_try (\<lambda>d. (Returned (case sl_receivers lib d account of Inl e \<Rightarrow> Inl (database_internal e) | Inr rs \<Rightarrow> Inr rs), d)) (\<lambda>receivers.
     act_try (\<lambda>d. (Returned (gather_utxos (\<lambda>a. sl_spendable lib d a target_height policy) from receivers []), d)) (\<lambda>utxos.
     act_try (\<lambda>d. (Returned (
         let coinbase = (case sl_coinbase lib d target_height of Some z \<Rightarrow> z | None \<Rightarrow> 0)
         in if utxos = [] then Inl (no_utxos_error coinbase)
            else plan_transparent (sl_zip317 lib) (sl_zatoshis lib) coinbase recipients utxos), d)) (\<lambda>plan.
     act_try (\<lambda>d. case tp_change plan of
           None \<Rightarrow> (Returned (Inr None), d)
         | Some v \<Rightarrow> (case change_address lib account d of
               (Inl e, d) \<Rightarrow> (Returned (Inl e), d)
             | (Inr a, d) \<Rightarrow> (Returned (Inr (Some (a, v))), d))) (\<lambda>change.
     sl_build_transparent lib usk \<lparr>tb_inputs = tp_selected plan, tb_recipients = recipients, tb_change = change,
       tb_fee = tp_fee plan\<rparr>)))))"

definition do_send_transparent where
  "do_send_transparent lib cfg recipients confirmations usk account from =
     (let policy = (case confirmations of Some p \<Rightarrow> p | None \<Rightarrow> sc_confirmations_policy cfg)
      in act_try (act_lift (require_prover cfg)) (\<lambda>_.
         act_try (on_db (build_transparent_send lib recipients policy usk account from)) (\<lambda>(txid, raw).
         act_bind (act_modify (\<lambda>s. s\<lparr>wc_transparent_unspent_dirty := True\<rparr>)) (\<lambda>_.
         act_try (broadcast_now lib cfg raw) (\<lambda>_. act_return (Inr txid))))))"

section \<open>A send inline\<close>

definition source_gate where
  "source_gate lib request privacy source =
     (if source_is_transparent source then
        if \<not> allows_transparent_inputs privacy then Inl (insufficient_privacy_for_transparent_sender privacy)
        else if privacy \<noteq> AllowFullyTransparent \<and> request_pays_transparent_output (sl_codec lib) (sl_convert lib) request
        then Inl insufficient_privacy_for_fully_transparent
        else Inr ()
      else Inr ())"

text \<open>Proving on the actor, under \<open>block_in_place\<close>.\<close>

definition prove_inline where
  "prove_inline lib pa usk s = (sl_prove_sign lib (pa_pczt pa) (pa_circuit pa) usk, s)"

definition do_send_cached where
  "do_send_cached lib cfg usk request policy privacy source =
     act_try (build_proposal_and_pczt lib cfg request policy privacy (spend_policy_for_source source)) (\<lambda>pa.
     act_try (act_lift (sl_keys lib)) (\<lambda>_.
     act_try (act_lift (require_prover cfg)) (\<lambda>_.
     act_try (prove_inline lib pa usk) (\<lambda>proven.
     act_try (on_db (sl_store_pczt lib proven (pa_circuit pa))) (\<lambda>txid.
     act_try (\<lambda>s. (Returned (sl_read_raw lib (wc_db s) txid), s)) (\<lambda>raw.
     act_try (broadcast_now lib cfg raw) (\<lambda>_. act_return (Inr txid))))))))"

definition transparent_branch where
  "transparent_branch lib request privacy source =
     (if privacy = AllowFullyTransparent \<and> \<not> source_is_shielded source
      then transparent_only_recipients (sl_convert lib) request else Inr None)"

definition do_send where
  "do_send lib cfg request confirmations privacy source =
     act_bind (act_modify (relock_now lib)) (\<lambda>_.
     act_try (act_lift (source_gate lib request privacy source)) (\<lambda>_.
     act_try (sync_to_tip_for_send lib cfg) (\<lambda>_.
     act_try (\<lambda>s. (Returned (require_account cfg None s), s)) (\<lambda>account.
     act_try (derive_key lib) (\<lambda>usk.
     act_try (act_lift (transparent_branch lib request privacy source)) (\<lambda>transparent.
       case transparent of
         Some recipients \<Rightarrow>
           do_send_transparent lib cfg recipients confirmations usk account
             (case source of Transparent from \<Rightarrow> from | _ \<Rightarrow> None)
       | None \<Rightarrow>
           (let policy = (case confirmations of Some p \<Rightarrow> p | None \<Rightarrow> sc_confirmations_policy cfg)
            in if \<not> cached_pczt_path cfg \<or> request_pays_sapling_output (sl_codec lib) (sl_convert lib) request \<or>
                  source_is_transparent source
               then do_send_fused lib cfg usk request policy privacy (spend_policy_for_source source)
               else do_send_cached lib cfg usk request policy privacy source)))))))"

section \<open>The catch-up ends\<close>

lemma catch_up_loop_returns:
  assumes "\<And>s s'. sync_step s = (Returned (Inr True), s') \<Longrightarrow> (\<mu> s' :: nat) < \<mu> s"
  shows "\<exists>r. catch_up_loop sync_step disc s = Some r"
proof (induction "\<mu> s" arbitrary: s rule: less_induct)
  case less
  show ?case
  proof (cases "\<exists>s'. sync_step s = (Returned (Inr True), s')")
    case True
    then obtain s' where s': "sync_step s = (Returned (Inr True), s')" by blast
    then have "catch_up_loop sync_step disc s = catch_up_loop sync_step disc s'"
      by (subst catch_up_loop.simps) simp
    with less [OF assms [OF s']] show ?thesis by simp
  next
    case False
    then show ?thesis
      by (subst catch_up_loop.simps) (auto split: prod.split outcome.split sum.split)
  qed
qed

lemma catch_up_not_diverged:
  assumes "\<And>s s'. sl_sync_step lib s = (Returned (Inr True), s') \<Longrightarrow> (\<mu> s' :: nat) < \<mu> s"
    and "\<And>s. fst (sl_sync_step lib s) \<noteq> Diverged"
  shows "fst (catch_up lib s) \<noteq> Diverged"
proof -
  have "fst r \<noteq> Diverged" if "catch_up_loop (sl_sync_step lib) disc s = Some r" for disc s r
    using that
  proof (induction "\<mu> s" arbitrary: s rule: less_induct)
    case less
    obtain x s' where x: "sl_sync_step lib s = (x, s')" by (cases "sl_sync_step lib s")
    show ?case
    proof (cases "x = Returned (Inr True)")
      case True
      then have "catch_up_loop (sl_sync_step lib) disc s' = Some r"
        using less.prems x by (subst (asm) catch_up_loop.simps) simp
      then show ?thesis using less.hyps [of s'] assms(1) x True by simp
    next
      case False
      then show ?thesis
        using less.prems x assms(2) [of s]
        by (subst (asm) catch_up_loop.simps) (auto split: outcome.splits sum.splits bool.splits if_splits)
    qed
  qed
  then show ?thesis
    using catch_up_loop_returns [of "sl_sync_step lib" \<mu>, OF assms(1)]
    by (auto simp: catch_up_def split: option.split)
qed


section \<open>Transparent sends balance\<close>

text \<open>A fully transparent send that is planned spends some of the outputs it was offered, and balances to the zatoshi:
  inputs are recipients, fee and change, the fee is the ZIP-317 fee of exactly that transaction and a change output is
  positive.
\<close>

theorem plan_transparent_balances:
  assumes "plan_transparent zip317 zatoshis coinbase recipients utxos = Inr plan"
    and "\<And>n z. zatoshis n = Inr z \<Longrightarrow> z = n"
  shows "mset (tp_selected plan) \<subseteq># mset utxos \<and>
    sum_list (map tu_value (tp_selected plan)) =
      sum_list (map snd recipients) + tp_fee plan + (case tp_change plan of Some v \<Rightarrow> v | None \<Rightarrow> 0) \<and>
    tp_change plan \<noteq> Some 0 \<and>
    tp_fee plan = merge_transparent_fee (length (tp_selected plan))
      (sum_list (map (transparent_txout_size \<circ> fst) recipients) + (if tp_change plan = None then 0 else 34))
      (snd (snd zip317)) (fst zip317) (fst (snd zip317))"
proof -
  obtain marginal grace p2pkh where z: "zip317 = (marginal, grace, p2pkh)" by (rule prod_cases3)
  define us where "us = sort_key (\<lambda>u. - int (tu_value u)) utxos"
  define args where "args = \<lparr>recipients_total = sum_list (map snd recipients),
      recip_out_size = sum_list (map (transparent_txout_size \<circ> fst) recipients),
      change_out_size = 34, p2pkh_out_size = p2pkh, marginal_fee = marginal, grace_actions = grace\<rparr>"
  obtain n ch fee hc where sel: "select_transparent_inputs args (map tu_value us) = Some (n, ch, fee, hc)"
    and plan: "tp_selected plan = take n us" "tp_fee plan = fee" "tp_change plan = (if hc then Some ch else None)"
  proof (cases "select_transparent_inputs args (map tu_value us)")
    case None
    then show ?thesis using assms(1) by (simp add: plan_transparent_def z us_def args_def Let_def)
  next
    case (Some t)
    obtain n ch fee hc where t: "t = (n, ch, fee, hc)" by (rule prod_cases4)
    have "plan_transparent zip317 zatoshis coinbase recipients utxos =
        sum_bind (case zatoshis fee of Inl e \<Rightarrow> Inl (misc (''fee value: '' @ e)) | Inr z \<Rightarrow> Inr z) (\<lambda>fee.
        sum_bind (if hc then (case zatoshis ch of Inl e \<Rightarrow> Inl (misc (''change value: '' @ e)) | Inr z \<Rightarrow> Inr (Some z))
           else Inr None) (\<lambda>change. Inr \<lparr>tp_selected = take n us, tp_fee = fee, tp_change = change\<rparr>))"
      using Some by (simp add: plan_transparent_def z us_def args_def Let_def t)
    then have "tp_selected plan = take n us \<and> tp_fee plan = fee \<and> tp_change plan = (if hc then Some ch else None)"
      using assms by (auto simp: sum_bind_Inr split: sum.splits if_splits)
    with Some t that show ?thesis by blast
  qed
  note s = select_Some [OF sel]
  have "mset (take n us) \<subseteq># mset us"
    by (metis append_take_drop_id mset_append mset_subset_eq_add_left)
  then have "mset (tp_selected plan) \<subseteq># mset utxos"
    using plan by (simp add: us_def)
  moreover have "sum_list (map tu_value (tp_selected plan)) = sum_list (map snd recipients) + fee + ch"
    using s(3) plan by (simp add: take_map args_def)
  moreover have "length (tp_selected plan) = n" using s(2) plan by simp
  ultimately show ?thesis
    using s(4,5) plan by (auto simp: z args_def fee_for_def merge_transparent_fee_def)
qed

definition sample_utxos :: "unit transparent_utxo list" where
  "sample_utxos = [\<lparr>tu_ref = (), tu_value = 40000\<rparr>, \<lparr>tu_ref = (), tu_value = 80000\<rparr>]"

theorem plan_transparent_balances_witness:
  "\<exists>plan. plan_transparent (5000, 2, 34) (\<lambda>n. Inr n) 0 [(PublicKeyHash [], 100000)] sample_utxos = Inr plan \<and>
     tp_change plan = Some 10000 \<and> tp_fee plan = 10000 \<and>
     sum_list (map tu_value (tp_selected plan)) = 100000 + 10000 + 10000"
proof -
  let ?p = "\<lparr>tp_selected = rev sample_utxos, tp_fee = 10000, tp_change = Some 10000\<rparr>"
  have eq: "plan_transparent (5000, 2, 34) (\<lambda>n. Inr n) 0 [(PublicKeyHash [], 100000)] sample_utxos = Inr ?p"
    by (simp add: plan_transparent_def sample_utxos_def select_transparent_inputs_def fee_for_def div_ceil_def Let_def
        numeral_2_eq_2 [symmetric])
  show ?thesis
    using plan_transparent_balances [OF eq] by (intro exI [of _ ?p]) (simp add: eq)
qed

section \<open>Funding sources\<close>

lemma transparent_loop_length:
  "transparent_recipients_loop conv ps out = Inr (Some rs) \<Longrightarrow> length rs = length out + length ps"
  by (induction conv ps out rule: transparent_recipients_loop.induct)
    (auto split: sum.splits option.splits address.splits)


end
