(* ===== verification/Send_Pipeline.thy ===== *)
theory Send_Pipeline
  imports Send_Actor
begin

text \<open>
  Pipelined sends, from \<open>src/wallet/actor.rs\<close>: a send whose proof runs off the actor, the sends queued behind
  it, and the commit of a finished proof.  The proofs under way and the channel of finished ones are lists of the
  state; a reply channel is a number, and an answer sent on it is recorded in \<open>wa_replies\<close>.  A panic is caught
  where the code catches it and ends the actor elsewhere.
\<close>

section \<open>State\<close>

definition MAX_QUEUED_SENDS :: nat where "MAX_QUEUED_SENDS = 64"

record ('z, 'pol) pending_send =
  pn_request :: "'z payment list"
  pn_confirmations :: "'pol option"
  pn_privacy :: send_privacy
  pn_source :: send_source
  pn_reply :: nat

text \<open>A proof handed to a blocking thread, and its completion on the channel back.\<close>

record ('pczt, 'circuit, 'usk, 'pol) proof_job =
  pj_phase_a :: "('pczt, 'circuit) phase_a"
  pj_usk :: 'usk
  pj_policy :: 'pol
  pj_reply :: nat

record ('pczt, 'circuit, 'pol) send_completion =
  sd_result :: "rpc_error + 'pczt"
  sd_circuit :: "'circuit option"
  sd_policy :: 'pol
  sd_shape :: send_shape
  sd_reply :: nat

record ('core, 'z, 'pol, 'pczt, 'circuit, 'usk, 'txid) wallet_actor =
  wa_core :: 'core
  wa_in_flight :: bool
  wa_queue :: "('z, 'pol) pending_send list"
  wa_jobs :: "('pczt, 'circuit, 'usk, 'pol) proof_job list"
  wa_done :: "('pczt, 'circuit, 'pol) send_completion list"
  wa_replies :: "(nat \<times> (rpc_error + 'txid)) list"

definition reply_to :: "nat \<Rightarrow> rpc_error + 'txid \<Rightarrow> ('core, 'z, 'pol, 'pczt, 'x, 'usk, 'txid) wallet_actor
   \<Rightarrow> ('core, 'z, 'pol, 'pczt, 'x, 'usk, 'txid) wallet_actor" where
  "reply_to n r s = s\<lparr>wa_replies := wa_replies s @ [(n, r)]\<rparr>"

definition on_core :: "('core, 'a) act \<Rightarrow> (('core, 'z, 'pol, 'pczt, 'x, 'usk, 'txid) wallet_actor, 'a) act" where
  "on_core m s = (case m (wa_core s) of (r, c) \<Rightarrow> (r, s\<lparr>wa_core := c\<rparr>))"

section \<open>Operations\<close>

text \<open>Everything a pipelined send does on the actor before its proof is handed over.\<close>

definition prepare_pipelined where
  "prepare_pipelined lib cfg p =
     act_bind (act_modify (relock_now lib)) (\<lambda>_.
     act_try (sync_to_tip_for_send lib cfg) (\<lambda>_.
     act_try (derive_key lib) (\<lambda>usk.
       let policy = (case pn_confirmations p of Some q \<Rightarrow> q | None \<Rightarrow> sc_confirmations_policy cfg)
       in act_try (build_proposal_and_pczt lib cfg (pn_request p) policy (pn_privacy p)
              (spend_policy_for_source (pn_source p))) (\<lambda>pa.
          act_try (act_lift (require_prover cfg)) (\<lambda>_.
          act_try (act_lift (sl_keys lib)) (\<lambda>_.
          act_return (Inr \<lparr>pj_phase_a = pa, pj_usk = usk, pj_policy = policy, pj_reply = pn_reply p\<rparr>)))))))"

definition start_pipelined_send where
  "start_pipelined_send lib cfg p =
     act_bind (on_core (prepare_pipelined lib cfg p)) (\<lambda>r.
       case r of
         Inl e \<Rightarrow> act_modify (reply_to (pn_reply p) (Inl e))
       | Inr job \<Rightarrow> act_modify (\<lambda>s. s\<lparr>wa_in_flight := True, wa_jobs := wa_jobs s @ [job]\<rparr>))"

definition too_many_queued :: rpc_error where
  "too_many_queued = wallet_error (''too many sends queued behind an in-flight proof ('' @ show_nat MAX_QUEUED_SENDS @
     ''); retry shortly'')"

text \<open>Whether a send is handled at once on the actor instead of being pipelined.\<close>

definition runs_inline where
  "runs_inline lib cfg p \<longleftrightarrow>
     pn_privacy p = AllowFullyTransparent \<or> source_is_transparent (pn_source p) \<or> \<not> pipeline_eligible cfg \<or>
     request_pays_sapling_output (sl_codec lib) (sl_convert lib) (pn_request p)"

definition begin_or_queue_send where
  "begin_or_queue_send lib cfg p s =
     (if runs_inline lib cfg p then
        act_bind (on_core (do_send lib cfg (pn_request p) (pn_confirmations p) (pn_privacy p) (pn_source p)))
          (\<lambda>r. act_modify (reply_to (pn_reply p) r)) s
      else if wa_in_flight s then
        (if length (wa_queue s) \<ge> MAX_QUEUED_SENDS then (Returned (), reply_to (pn_reply p) (Inl too_many_queued) s)
         else (Returned (), s\<lparr>wa_queue := wa_queue s @ [p]\<rparr>))
      else start_pipelined_send lib cfg p s)"

text \<open>The loop that starts queued sends, by recursion on the queue it empties.\<close>

fun pump_loop where
  "pump_loop start [] s = (Returned (), s\<lparr>wa_queue := []\<rparr>)"
| "pump_loop start (p # ps) s =
     (if wa_in_flight s then (Returned (), s\<lparr>wa_queue := p # ps\<rparr>)
      else act_bind (start p) (\<lambda>_. pump_loop start ps) (s\<lparr>wa_queue := ps\<rparr>))"

definition pump_send_queue where
  "pump_send_queue lib cfg s = pump_loop (start_pipelined_send lib cfg) (wa_queue s) s"

definition finish_send where
  "finish_send lib cfg d =
     act_bind (act_modify (\<lambda>s. s\<lparr>wa_in_flight := False\<rparr>)) (\<lambda>_.
     act_bind (case sd_result d of
         Inl e \<Rightarrow> act_return (Inl e)
       | Inr proven \<Rightarrow> on_core (store_and_broadcast lib cfg proven (sd_circuit d))) (\<lambda>outcome.
     act_modify (reply_to (sd_reply d) outcome)))"

definition catch_unwind :: "('s, 'a) act \<Rightarrow> ('s, 'a option) act" where
  "catch_unwind m s =
     (case m s of (Returned x, s) \<Rightarrow> (Returned (Some x), s) | (Panicked, s) \<Rightarrow> (Returned None, s) | (Diverged, s) \<Rightarrow> (Diverged, s))"

definition finish_send_caught where
  "finish_send_caught lib cfg d =
     act_bind (catch_unwind (finish_send lib cfg d)) (\<lambda>r.
     act_bind (if r = None then act_modify (\<lambda>s. s\<lparr>wa_in_flight := False\<rparr>) else act_return ()) (\<lambda>_.
     pump_send_queue lib cfg))"

text \<open>The command handler for a send, with its panic barrier.\<close>

definition handle_send_caught where
  "handle_send_caught lib cfg p =
     act_bind (catch_unwind (begin_or_queue_send lib cfg p)) (\<lambda>_. act_return ())"

text \<open>The blocking thread: a panic of the prover is an error of the completion, so one is always sent.\<close>

definition run_job where
  "run_job lib j =
     \<lparr>sd_result = (case sl_prove_sign lib (pa_pczt (pj_phase_a j)) (pa_circuit (pj_phase_a j)) (pj_usk j) of
        Returned r \<Rightarrow> r | _ \<Rightarrow> Inl (wallet_error ''proving panicked'')),
      sd_circuit = pa_circuit (pj_phase_a j), sd_policy = pj_policy j, sd_shape = pa_shape (pj_phase_a j),
      sd_reply = pj_reply j\<rparr>"

definition job_ends where
  "job_ends lib j \<longleftrightarrow> sl_prove_sign lib (pa_pczt (pj_phase_a j)) (pa_circuit (pj_phase_a j)) (pj_usk j) \<noteq> Diverged"

section \<open>Steps\<close>

text \<open>
  What happens to the pipeline: the actor handles a send command, a proof ends, the actor takes a completion.  Between
  these, anything else the actor does changes only its core: syncing, reading, locking.  The second component says
  whether the actor still runs.
\<close>

datatype ('core, 'z, 'pol) pipe_event =
    PeSend "('z, 'pol) pending_send"
  | PeProofDone nat
  | PeCommit
  | PeOther "'core \<Rightarrow> 'core"

definition still_running :: "unit outcome \<times> 's \<Rightarrow> bool \<times> 's" where
  "still_running r = (case r of (Returned _, s) \<Rightarrow> (True, s) | (_, s) \<Rightarrow> (False, s))"

fun pipe_step where
  "pipe_step lib cfg ev (False, s) = (False, s)"
| "pipe_step lib cfg (PeSend p) (True, s) = still_running (handle_send_caught lib cfg p s)"
| "pipe_step lib cfg (PeProofDone i) (True, s) =
     (True, if i < length (wa_jobs s) \<and> job_ends lib (wa_jobs s ! i)
       then s\<lparr>wa_jobs := take i (wa_jobs s) @ drop (Suc i) (wa_jobs s), wa_done := wa_done s @ [run_job lib (wa_jobs s ! i)]\<rparr>
       else s)"
| "pipe_step lib cfg PeCommit (True, s) =
     (case wa_done s of
        [] \<Rightarrow> (True, s)
      | d # ds \<Rightarrow> still_running (finish_send_caught lib cfg d (s\<lparr>wa_done := ds\<rparr>)))"
| "pipe_step lib cfg (PeOther f) (True, s) = (True, s\<lparr>wa_core := f (wa_core s)\<rparr>)"

definition pipe_run where
  "pipe_run lib cfg evs st = fold (pipe_step lib cfg) evs st"

definition pipe_start :: "'core \<Rightarrow> bool \<times> ('core, 'z, 'pol, 'pczt, 'x, 'usk, 'txid) wallet_actor" where
  "pipe_start c = (True, \<lparr>wa_core = c, wa_in_flight = False, wa_queue = [], wa_jobs = [], wa_done = [], wa_replies = []\<rparr>)"

section \<open>One proof at a time\<close>

definition pipe_inv :: "('core, 'z, 'pol, 'pczt, 'x, 'usk, 'txid) wallet_actor \<Rightarrow> bool" where
  "pipe_inv s \<longleftrightarrow>
     length (wa_jobs s) + length (wa_done s) = (if wa_in_flight s then 1 else 0) \<and>
     length (wa_queue s) \<le> MAX_QUEUED_SENDS \<and> (wa_queue s \<noteq> [] \<longrightarrow> wa_in_flight s)"

text \<open>The reply channels that have been answered or are held by the pipeline.\<close>

definition accounted :: "('core, 'z, 'pol, 'pczt, 'x, 'usk, 'txid) wallet_actor \<Rightarrow> nat multiset" where
  "accounted s = mset (map fst (wa_replies s)) + mset (map pn_reply (wa_queue s)) + mset (map pj_reply (wa_jobs s)) +
     mset (map sd_reply (wa_done s))"

definition pending_work :: "('core, 'z, 'pol, 'pczt, 'x, 'usk, 'txid) wallet_actor \<Rightarrow> nat" where
  "pending_work s = length (wa_queue s) + (if wa_in_flight s then 1 else 0)"

lemma job_reply:
  "prepare_pipelined lib cfg p c = (Returned (Inr job), c') \<Longrightarrow> pj_reply job = pn_reply p"
  by (auto simp: prepare_pipelined_def act_bind_Returned act_try_Inr Let_def)

text \<open>Starting a send answers it, hands its proof over, or stops the actor's task with nothing but the core changed.\<close>

lemma start_cases:
  assumes "start_pipelined_send lib cfg p s = (r, s')"
  obtains (failed) c where "r \<noteq> Returned ()" "s' = s\<lparr>wa_core := c\<rparr>" "fst (prepare_pipelined lib cfg p (wa_core s)) \<in> {Panicked, Diverged}"
    | (answered) c e where "r = Returned ()" "s' = reply_to (pn_reply p) (Inl e) (s\<lparr>wa_core := c\<rparr>)"
    | (started) c job where "r = Returned ()" "pj_reply job = pn_reply p"
        "s' = s\<lparr>wa_core := c, wa_in_flight := True, wa_jobs := wa_jobs s @ [job]\<rparr>"
proof -
  obtain x c where x: "prepare_pipelined lib cfg p (wa_core s) = (x, c)" by (cases "prepare_pipelined lib cfg p (wa_core s)")
  have oc: "on_core (prepare_pipelined lib cfg p) s = (x, s\<lparr>wa_core := c\<rparr>)" by (simp add: on_core_def x)
  show thesis
  proof (cases x)
    case (Returned v)
    show thesis
    proof (cases v)
      case (Inl e)
      then show thesis using assms oc Returned answered by (auto simp: start_pipelined_send_def act_modify_def)
    next
      case (Inr job)
      then have "pj_reply job = pn_reply p" using job_reply x Returned by auto
      then show thesis using assms oc Returned Inr started by (auto simp: start_pipelined_send_def act_modify_def)
    qed
  qed (use assms oc x failed in \<open>auto simp: start_pipelined_send_def\<close>)
qed

lemma pump_in_flight: "wa_in_flight s \<Longrightarrow> pump_loop start ps s = (Returned (), s\<lparr>wa_queue := ps\<rparr>)"
  by (cases ps) simp_all

definition prepare_total where
  "prepare_total (lib :: ('n, 'c, 'd, 'acct, _, _, _, _, _, _, _, _, _, _, _, _, _) send_lib) cfg \<longleftrightarrow> (\<forall>(p :: (_, _) pending_send) (c :: ('n, 'c, 'd, 'acct) wallet_core). fst (prepare_pipelined lib cfg p c) \<notin> {Panicked, Diverged})"

lemma pump_loop_inv:
  assumes "pump_loop (start_pipelined_send lib cfg) ps s = (r, s')" and "wa_jobs s = []" and "wa_done s = []"
    and "\<not> wa_in_flight s" and "length ps \<le> MAX_QUEUED_SENDS" and "wa_queue s = ps"
  shows "pending_work s' \<le> length ps \<and> accounted s' \<subseteq># accounted s \<and>
    (r = Returned () \<longrightarrow> pipe_inv s' \<and> accounted s' = accounted s) \<and> (prepare_total lib cfg \<longrightarrow> r = Returned ())"
  using assms
proof (induction ps arbitrary: s)
  case Nil
  then have "s' = s" "r = Returned ()" by auto
  with Nil show ?case by (auto simp: pipe_inv_def pending_work_def)
next
  case (Cons p ps)
  let ?s0 = "s\<lparr>wa_queue := ps\<rparr>"
  obtain x s1 where x: "start_pipelined_send lib cfg p ?s0 = (x, s1)"
    by (cases "start_pipelined_send lib cfg p ?s0")
  have loop: "pump_loop (start_pipelined_send lib cfg) (p # ps) s =
      (if x = Returned () then pump_loop (start_pipelined_send lib cfg) ps s1 else (x, s1))"
    using Cons.prems(4) x by (cases x) simp_all
  from x show ?case
  proof (cases rule: start_cases)
    case (failed c)
    then have "r = x" "s' = s1" using loop Cons.prems(1) by auto
    with failed Cons.prems show ?thesis
      by (auto simp: accounted_def prepare_total_def pending_work_def)
  next
    case (answered c e)
    have "accounted s1 = accounted s" using answered Cons.prems by (simp add: accounted_def reply_to_def)
    moreover have "pending_work s' \<le> length ps \<and> accounted s' \<subseteq># accounted s1 \<and>
        (r = Returned () \<longrightarrow> pipe_inv s' \<and> accounted s' = accounted s1) \<and> (prepare_total lib cfg \<longrightarrow> r = Returned ())"
      using Cons.prems answered loop by (intro Cons.IH) (auto simp: reply_to_def)
    ultimately show ?thesis by auto
  next
    case (started c job)
    then have "r = Returned ()" "s' = s1" using loop Cons.prems by (auto simp: pump_in_flight)
    with started Cons.prems show ?thesis by (auto simp: pipe_inv_def accounted_def pending_work_def)
  qed
qed

lemma pump_inv:
  assumes "pump_send_queue lib cfg s = (r, s')" and "wa_jobs s = []" and "wa_done s = []"
    and "\<not> wa_in_flight s" and "length (wa_queue s) \<le> MAX_QUEUED_SENDS"
  shows "pending_work s' \<le> length (wa_queue s)" "accounted s' \<subseteq># accounted s"
    "r = Returned () \<Longrightarrow> pipe_inv s'" "r = Returned () \<Longrightarrow> accounted s' = accounted s"
    "prepare_total lib cfg \<Longrightarrow> r = Returned ()"
  using pump_loop_inv [of lib cfg "wa_queue s" s r s'] assms by (auto simp: pump_send_queue_def)

text \<open>Handling a command keeps the invariant even when it panics; the reply it held is then dropped.\<close>

lemma begin_inv:
  assumes "begin_or_queue_send lib cfg p s = (r, s')" and "pipe_inv s"
  shows "pipe_inv s'" "accounted s' = accounted s + (if r = Returned () then {#pn_reply p#} else {#})"
    "r \<noteq> Returned () \<Longrightarrow> (runs_inline lib cfg p \<and>
        fst (do_send lib cfg (pn_request p) (pn_confirmations p) (pn_privacy p) (pn_source p) (wa_core s)) \<in> {Panicked, Diverged}) \<or>
      fst (prepare_pipelined lib cfg p (wa_core s)) \<in> {Panicked, Diverged}"
proof -
  have "pipe_inv s' \<and> accounted s' = accounted s + (if r = Returned () then {#pn_reply p#} else {#}) \<and>
    (r \<noteq> Returned () \<longrightarrow> (runs_inline lib cfg p \<and>
        fst (do_send lib cfg (pn_request p) (pn_confirmations p) (pn_privacy p) (pn_source p) (wa_core s)) \<in> {Panicked, Diverged}) \<or>
      fst (prepare_pipelined lib cfg p (wa_core s)) \<in> {Panicked, Diverged})"
  proof (cases "runs_inline lib cfg p")
    case True
    then show ?thesis
      using assms
      by (cases "do_send lib cfg (pn_request p) (pn_confirmations p) (pn_privacy p) (pn_source p) (wa_core s)"; cases r)
        (auto simp: begin_or_queue_send_def act_bind_def on_core_def act_modify_def reply_to_def pipe_inv_def accounted_def
          split: outcome.splits)
  next
    case inline: False
    show ?thesis
    proof (cases "wa_in_flight s")
      case True
      with inline show ?thesis
        using assms by (auto simp: begin_or_queue_send_def reply_to_def pipe_inv_def accounted_def split: if_splits)
    next
      case False
      with inline have st: "start_pipelined_send lib cfg p s = (r, s')" using assms by (simp add: begin_or_queue_send_def)
      then show ?thesis
        using assms(2) False by (cases rule: start_cases) (auto simp: reply_to_def pipe_inv_def accounted_def)
    qed
  qed
  then show "pipe_inv s'" "accounted s' = accounted s + (if r = Returned () then {#pn_reply p#} else {#})"
    "r \<noteq> Returned () \<Longrightarrow> (runs_inline lib cfg p \<and>
        fst (do_send lib cfg (pn_request p) (pn_confirmations p) (pn_privacy p) (pn_source p) (wa_core s)) \<in> {Panicked, Diverged}) \<or>
      fst (prepare_pipelined lib cfg p (wa_core s)) \<in> {Panicked, Diverged}"
    by blast+
qed

lemma finish_cases:
  assumes "finish_send lib cfg d s = (r, s')"
  obtains (answered) c v where "r = Returned ()" "s' = reply_to (sd_reply d) v (s\<lparr>wa_in_flight := False, wa_core := c\<rparr>)"
    | (failed) c proven where "r \<in> {Panicked, Diverged}" "s' = s\<lparr>wa_in_flight := False, wa_core := c\<rparr>"
        "fst (store_and_broadcast lib cfg proven (sd_circuit d) (wa_core s)) \<in> {Panicked, Diverged}"
proof (cases "sd_result d")
  case (Inl e)
  then show thesis
    using assms answered [of "Inl e" "wa_core s"] by (auto simp: finish_send_def act_modify_def act_bind_def)
next
  case (Inr proven)
  obtain x c where x: "store_and_broadcast lib cfg proven (sd_circuit d) (wa_core s) = (x, c)"
    by (cases "store_and_broadcast lib cfg proven (sd_circuit d) (wa_core s)")
  have eq: "finish_send lib cfg d s = (case x of
      Returned v \<Rightarrow> (Returned (), reply_to (sd_reply d) v (s\<lparr>wa_in_flight := False, wa_core := c\<rparr>))
    | Panicked \<Rightarrow> (Panicked, s\<lparr>wa_in_flight := False, wa_core := c\<rparr>)
    | Diverged \<Rightarrow> (Diverged, s\<lparr>wa_in_flight := False, wa_core := c\<rparr>))"
    using x Inr by (auto simp: finish_send_def act_modify_def act_bind_def on_core_def split: outcome.split)
  show thesis
    using assms eq x answered failed [where proven = proven] by (cases x) auto
qed

definition commit_total where
  "commit_total (lib :: ('n, 'c, 'd, 'acct, _, _, _, _, _, _, _, _, _, _, _, _, _) send_lib) cfg \<longleftrightarrow> (\<forall>proven circuit (c :: ('n, 'c, 'd, 'acct) wallet_core). fst (store_and_broadcast lib cfg proven circuit c) \<notin> {Panicked, Diverged})"

definition inline_total where
  "inline_total (lib :: ('n, 'c, 'd, 'acct, _, _, _, _, _, _, _, _, _, _, _, _, _) send_lib) cfg \<longleftrightarrow> (\<forall>(r :: _ payment list) f v src (c :: ('n, 'c, 'd, 'acct) wallet_core). fst (do_send lib cfg r f v src c) \<notin> {Panicked, Diverged})"

lemma finish_caught_inv:
  assumes "finish_send_caught lib cfg d s = (r, s')" and "wa_jobs s = []" and "wa_done s = []"
    and "length (wa_queue s) \<le> MAX_QUEUED_SENDS"
  shows "pending_work s' \<le> length (wa_queue s) \<or> r = Diverged" "accounted s' \<subseteq># accounted s + {#sd_reply d#}"
    "r = Returned () \<Longrightarrow> pipe_inv s'"
    "prepare_total lib cfg \<Longrightarrow> commit_total lib cfg \<Longrightarrow> r = Returned () \<and> accounted s' = accounted s + {#sd_reply d#}"
proof -
  obtain x s1 where x: "finish_send lib cfg d s = (x, s1)" by (cases "finish_send lib cfg d s")
  have s1: "wa_jobs s1 = [] \<and> wa_done s1 = [] \<and> \<not> wa_in_flight s1 \<and> wa_queue s1 = wa_queue s \<and>
      accounted s1 \<subseteq># accounted s + {#sd_reply d#} \<and>
      (commit_total lib cfg \<longrightarrow> x = Returned () \<and> accounted s1 = accounted s + {#sd_reply d#})"
    using x assms by (cases rule: finish_cases)
      (auto simp: reply_to_def accounted_def commit_total_def subset_mset.le_iff_add)
  have same: "s1\<lparr>wa_in_flight := False\<rparr> = s1" using s1 by (cases s1) simp
  have pump: "x \<noteq> Diverged \<Longrightarrow> pump_send_queue lib cfg s1 = (r, s')"
    using assms(1) x s1 by (cases x) (auto simp: finish_send_caught_def catch_unwind_def act_bind_def act_modify_def same)
  have div: "x = Diverged \<Longrightarrow> r = Diverged \<and> s' = s1"
    using assms(1) x by (auto simp: finish_send_caught_def catch_unwind_def act_bind_def)
  note p = pump_inv [OF pump]
  show "pending_work s' \<le> length (wa_queue s) \<or> r = Diverged"
    using p(1) s1 assms(4) div by (cases "x = Diverged") auto
  show "accounted s' \<subseteq># accounted s + {#sd_reply d#}"
    using p(2) s1 assms(4) div by (cases "x = Diverged") (auto intro: subset_mset.order_trans)
  show "r = Returned () \<Longrightarrow> pipe_inv s'"
    using p(3) s1 assms(4) div by (cases "x = Diverged") auto
  show "prepare_total lib cfg \<Longrightarrow> commit_total lib cfg \<Longrightarrow> r = Returned () \<and> accounted s' = accounted s + {#sd_reply d#}"
    using p(4,5) s1 assms(4) by auto
qed

definition event_replies :: "('core, 'z, 'pol) pipe_event list \<Rightarrow> nat multiset" where
  "event_replies evs = mset (concat (map (\<lambda>ev. case ev of PeSend p \<Rightarrow> [pn_reply p] | _ \<Rightarrow> []) evs))"

definition pipe_total where
  "pipe_total lib cfg \<longleftrightarrow> prepare_total lib cfg \<and> commit_total lib cfg \<and> inline_total lib cfg"

lemma pipe_step_inv:
  assumes "pipe_step lib cfg ev (alive, s) = (alive', s')" and "alive \<longrightarrow> pipe_inv s"
  shows "alive' \<longrightarrow> pipe_inv s'" "accounted s' \<subseteq># accounted s + event_replies [ev]"
    "pipe_total lib cfg \<Longrightarrow> alive \<Longrightarrow> alive' \<and> accounted s' = accounted s + event_replies [ev]"
proof -
  have "(alive' \<longrightarrow> pipe_inv s') \<and> accounted s' \<subseteq># accounted s + event_replies [ev] \<and>
    (pipe_total lib cfg \<and> alive \<longrightarrow> alive' \<and> accounted s' = accounted s + event_replies [ev])"
  proof (cases alive)
    case False
    then show ?thesis using assms by (simp add: event_replies_def)
  next
    case alive: True
    then have inv: "pipe_inv s" using assms by simp
    show ?thesis
    proof (cases ev)
      case (PeSend p)
      obtain x s1 where x: "begin_or_queue_send lib cfg p s = (x, s1)" by (cases "begin_or_queue_send lib cfg p s")
      have res: "alive' = (x \<noteq> Diverged)" "s' = s1"
        using assms(1) x alive PeSend
        by (cases x; auto simp: still_running_def handle_send_caught_def catch_unwind_def act_bind_def)+
      have tot: "pipe_total lib cfg \<Longrightarrow> x = Returned ()"
        using begin_inv(3) [OF x inv] by (auto simp: pipe_total_def prepare_total_def inline_total_def)
      show ?thesis
        using begin_inv(1,2) [OF x inv] res tot alive by (auto simp: event_replies_def PeSend)
    next
      case (PeProofDone i)
      show ?thesis
      proof (cases "i < length (wa_jobs s) \<and> job_ends lib (wa_jobs s ! i)")
        case True
        then have "wa_jobs s = [wa_jobs s ! i] \<and> i = 0 \<and> wa_done s = [] \<and> wa_in_flight s"
          using inv by (cases "wa_jobs s") (auto simp: pipe_inv_def split: if_splits)
        then obtain j where "wa_jobs s = [j]" "i = 0" "wa_done s = []" "wa_in_flight s" by auto
        then show ?thesis
          using assms(1) alive PeProofDone inv True
          by (auto simp: pipe_inv_def accounted_def event_replies_def run_job_def)
      qed (use assms(1) alive PeProofDone inv in \<open>auto simp: event_replies_def\<close>)
    next
      case PeCommit
      show ?thesis
      proof (cases "wa_done s")
        case Nil
        then show ?thesis using assms(1) alive PeCommit inv by (simp add: event_replies_def)
      next
        case (Cons d ds)
        then have e: "ds = []" "wa_jobs s = []" using inv by (auto simp: pipe_inv_def split: if_splits)
        let ?s0 = "s\<lparr>wa_done := []\<rparr>"
        obtain x s1 where x: "finish_send_caught lib cfg d ?s0 = (x, s1)" by (cases "finish_send_caught lib cfg d ?s0")
        have res: "alive' = (x = Returned ())" "s' = s1"
          using assms(1) x alive PeCommit Cons e by (cases x; auto simp: still_running_def)+
        have acc: "accounted ?s0 + {#sd_reply d#} = accounted s" by (simp add: accounted_def Cons e)
        have len: "length (wa_queue ?s0) \<le> MAX_QUEUED_SENDS" using inv by (simp add: pipe_inv_def)
        note f = finish_caught_inv [OF x _ _ len]
        show ?thesis
          using f(2-4) res acc e by (auto simp: event_replies_def PeCommit pipe_total_def)
      qed
    next
      case (PeOther f)
      then show ?thesis using assms(1) alive inv by (auto simp: pipe_inv_def accounted_def event_replies_def)
    qed
  qed
  then show "alive' \<longrightarrow> pipe_inv s'" "accounted s' \<subseteq># accounted s + event_replies [ev]"
    "pipe_total lib cfg \<Longrightarrow> alive \<Longrightarrow> alive' \<and> accounted s' = accounted s + event_replies [ev]"
    by blast+
qed

lemma pipe_run_snoc: "pipe_run lib cfg (evs @ [ev]) st = pipe_step lib cfg ev (pipe_run lib cfg evs st)"
  by (simp add: pipe_run_def)

lemma event_replies_snoc: "event_replies (evs @ [ev]) = event_replies evs + event_replies [ev]"
  by (simp add: event_replies_def)

lemma pipe_run_inv:
  assumes "pipe_run lib cfg evs (pipe_start c) = (alive, s)"
  shows "alive \<longrightarrow> pipe_inv s" "accounted s \<subseteq># event_replies evs"
    "pipe_total lib cfg \<Longrightarrow> alive \<and> accounted s = event_replies evs"
proof -
  have "(alive \<longrightarrow> pipe_inv s) \<and> accounted s \<subseteq># event_replies evs \<and>
      (pipe_total lib cfg \<longrightarrow> alive \<and> accounted s = event_replies evs)"
    using assms
  proof (induction evs arbitrary: alive s rule: rev_induct)
    case Nil
    then show ?case by (auto simp: pipe_run_def pipe_start_def pipe_inv_def accounted_def event_replies_def)
  next
    case (snoc ev evs)
    obtain b t where bt: "pipe_run lib cfg evs (pipe_start c) = (b, t)" by (cases "pipe_run lib cfg evs (pipe_start c)")
    then have step: "pipe_step lib cfg ev (b, t) = (alive, s)" using snoc.prems by (simp add: pipe_run_snoc)
    have ih: "b \<longrightarrow> pipe_inv t" "accounted t \<subseteq># event_replies evs"
        "pipe_total lib cfg \<longrightarrow> b \<and> accounted t = event_replies evs"
      using snoc.IH [OF bt] by auto
    note st = pipe_step_inv [OF step ih(1)]
    have "accounted s \<subseteq># event_replies (evs @ [ev])"
      unfolding event_replies_snoc by (rule subset_mset.order_trans [OF st(2)]) (simp add: ih(2))
    then show ?case using st(1,3) ih(3) by (auto simp: event_replies_snoc)
  qed
  then show "alive \<longrightarrow> pipe_inv s" "accounted s \<subseteq># event_replies evs"
    "pipe_total lib cfg \<Longrightarrow> alive \<and> accounted s = event_replies evs"
    by blast+
qed

text \<open>C2. In every interleaving of send commands, finishing proofs, commits and anything else the actor does, whatever the
  library panics on: as long as the actor runs, at most one proof is under way or waiting to be committed, and the
  in-flight flag says exactly that; at most 64 sends are queued, and none is queued while no proof is in flight, so the
  queue is never stranded.  No send is answered more often than it was asked for.
\<close>

theorem pipeline_invariant:
  fixes lib :: "('n, 'c, 'd, 'acct, 'z, 'o, 's, 'k, 'br, 'pad, 'ver, 'x, 'pol, 'pczt, 'usk, 'txid, 'u) send_lib"
    and cfg :: "('b, 'pol) send_config"
  assumes "pipe_run lib cfg evs (pipe_start c) = (alive, s)"
  shows "(alive \<longrightarrow> length (wa_jobs s) + length (wa_done s) = (if wa_in_flight s then 1 else 0) \<and>
      length (wa_queue s) \<le> 64 \<and> (wa_queue s \<noteq> [] \<longrightarrow> wa_in_flight s)) \<and>
    mset (map fst (wa_replies s)) \<subseteq># event_replies evs"
proof -
  have "mset (map fst (wa_replies s)) \<subseteq># accounted s"
    by (simp add: accounted_def add.assoc mset_subset_eq_add_left)
  then show ?thesis
    using pipe_run_inv(1,2) [OF assms] by (auto simp: pipe_inv_def MAX_QUEUED_SENDS_def intro: subset_mset.order_trans)
qed

section \<open>The queue drains\<close>

definition all_jobs_end where
  "all_jobs_end lib \<longleftrightarrow> (\<forall>pczt circuit usk. sl_prove_sign lib pczt circuit usk \<noteq> Diverged)"

definition drain_round :: "('core, 'z, 'pol) pipe_event list" where
  "drain_round = [PeProofDone 0, PeCommit]"

lemma drain_round_progress:
  assumes "pipe_run lib cfg drain_round (True, s) = (alive, s')" and "pipe_inv s" and "pipe_total lib cfg" and "all_jobs_end lib"
  shows "alive" "pipe_inv s'" "pending_work s' \<le> pending_work s - 1" "accounted s' = accounted s"
proof -
  obtain a t where t: "pipe_step lib cfg (PeProofDone 0) (True, s) = (a, t)" by (cases "pipe_step lib cfg (PeProofDone 0) (True, s)")
  have inv: "a" "pipe_inv t" "accounted t = accounted s"
    using pipe_step_inv [OF t] assms(2,3) by (auto simp: event_replies_def)
  have commit: "pipe_step lib cfg PeCommit (a, t) = (alive, s')"
    using assms(1) unfolding pipe_run_def drain_round_def fold_simps comp_apply id_apply t .
  have res: "alive" "pipe_inv s'" "accounted s' = accounted t"
    using pipe_step_inv [OF commit] inv assms(3) by (auto simp: event_replies_def)
  have jobs: "wa_jobs t = []" "wa_queue t = wa_queue s" "wa_in_flight t = wa_in_flight s"
    using t assms(2,4) by (cases "wa_jobs s"; auto simp: pipe_inv_def job_ends_def all_jobs_end_def split: if_splits)+
  have "pending_work s' \<le> pending_work s - 1"
  proof (cases "wa_done t")
    case Nil
    then have "\<not> wa_in_flight t" using inv(2) jobs by (auto simp: pipe_inv_def split: if_splits)
    then show ?thesis
      using commit inv Nil jobs by (auto simp: pending_work_def pipe_inv_def)
  next
    case (Cons d ds)
    then have e: "ds = []" "wa_in_flight t" using inv(2) jobs by (auto simp: pipe_inv_def split: if_splits)
    let ?t0 = "t\<lparr>wa_done := []\<rparr>"
    obtain x u where x: "finish_send_caught lib cfg d ?t0 = (x, u)" by (cases "finish_send_caught lib cfg d ?t0")
    then have su: "s' = u" "x = Returned ()"
      using commit inv(1) Cons e res(1) by (cases x; auto simp: still_running_def)+
    have len: "length (wa_queue ?t0) \<le> MAX_QUEUED_SENDS" using inv(2) by (simp add: pipe_inv_def)
    have "pending_work u \<le> length (wa_queue t)"
      using finish_caught_inv(1) [OF x _ _ len] jobs su by auto
    then show ?thesis
      using res(2) su e jobs by (auto simp: pending_work_def pipe_inv_def)
  qed
  then show "alive" "pipe_inv s'" "pending_work s' \<le> pending_work s - 1" "accounted s' = accounted s"
    using res inv by auto
qed

lemma drain_rounds:
  assumes "pipe_inv s" and "pipe_total lib cfg" and "all_jobs_end lib" and "pending_work s \<le> n"
    and "pipe_run lib cfg (concat (replicate n drain_round)) (True, s) = (alive, s')"
  shows "alive \<and> pipe_inv s' \<and> pending_work s' = 0 \<and> accounted s' = accounted s"
  using assms
proof (induction n arbitrary: s)
  case 0
  then show ?case by (simp add: pipe_run_def)
next
  case (Suc n)
  obtain a t where t: "pipe_run lib cfg drain_round (True, s) = (a, t)" by (cases "pipe_run lib cfg drain_round (True, s)")
  note d = drain_round_progress [OF t Suc.prems(1-3)]
  have "pipe_run lib cfg (concat (replicate n drain_round)) (True, t) = (alive, s')"
    using Suc.prems(5) t d(1) by (simp add: pipe_run_def)
  with Suc.IH [of t] d Suc.prems show ?case by simp
qed

text \<open>C4. Every send is answered exactly once: when the library neither panics nor hangs, the actor keeps running, and
  letting the proof in flight finish and be committed as many times as there are sends pending leaves the pipeline
  empty, with one answer for each send command.
\<close>

theorem pipeline_drains:
  assumes "pipe_total lib cfg" and "all_jobs_end lib" and "pipe_run lib cfg evs (pipe_start c) = (alive, s)"
    and "length (wa_queue s) + 1 \<le> n"
  shows "\<exists>s'. pipe_run lib cfg (evs @ concat (replicate n drain_round)) (pipe_start c) = (True, s') \<and>
    wa_queue s' = [] \<and> wa_jobs s' = [] \<and> wa_done s' = [] \<and> \<not> wa_in_flight s' \<and>
    mset (map fst (wa_replies s')) = event_replies evs"
proof -
  have run: "alive" "pipe_inv s" "accounted s = event_replies evs"
    using pipe_run_inv [OF assms(3)] assms(1) by auto
  obtain b t where t: "pipe_run lib cfg (concat (replicate n drain_round)) (True, s) = (b, t)"
    by (cases "pipe_run lib cfg (concat (replicate n drain_round)) (True, s)")
  have "pending_work s \<le> n" using assms(4) by (simp add: pending_work_def)
  from drain_rounds [OF run(2) assms(1,2) this t]
  have d: "b" "pipe_inv t" "pending_work t = 0" "accounted t = accounted s" by auto
  then have e: "wa_queue t = []" "\<not> wa_in_flight t" "wa_jobs t = []" "wa_done t = []"
    by (auto simp: pending_work_def pipe_inv_def split: if_splits)
  have "pipe_run lib cfg (evs @ concat (replicate n drain_round)) (pipe_start c) = (True, t)"
    using t assms(3) run(1) d(1) by (simp add: pipe_run_def)
  with e d run show ?thesis by (simp add: accounted_def)
qed

section \<open>A small wallet\<close>

text \<open>
  A database of unspent notes and stored transactions, each spending one note: selection takes the first unspent note and
  storing marks it spent.  Recipients are Orchard or, for \<open>True\<close>, Sapling addresses.
\<close>

type_synonym note_db = "nat list \<times> (nat \<times> nat) list"

definition store_note :: "nat \<Rightarrow> note_db \<Rightarrow> nat \<times> note_db" where
  "store_note note d = (length (snd d), (filter (\<lambda>n. n \<noteq> note) (fst d), snd d @ [(length (snd d), note)]))"

definition receiving_codec :: "(unit, unit, string) address_codec" where
  "receiving_codec = sample_codec\<lparr>can_receive_as := (\<lambda>a p. case a of
     ATransparent _ \<Rightarrow> p = TransparentPool | ASapling _ \<Rightarrow> p = SaplingPool | ATex _ \<Rightarrow> p = TransparentPool
   | AUnified ua \<Rightarrow> p = OrchardPool \<and> ua_orchard ua \<noteq> None \<or> p = SaplingPool \<and> ua_sapling ua \<noteq> None)\<rparr>"

definition sample_send_lib ::
  "(unit, unit, note_db, unit, bool, unit, unit, string, unit, unit, unit, unit, unit, nat, u8 list, nat, unit) send_lib" where
  "sample_send_lib = \<lparr>sl_api = sample_api, sl_clock = (\<lambda>_. 0), sl_draw = (\<lambda>_ c. c), sl_codec = receiving_codec,
     sl_convert = (\<lambda>z. Inr (if z then ASapling () else AUnified \<lparr>ua_orchard = Some (), ua_sapling = None, ua_transparent = None\<rparr>)),
     sl_proposal = sample_proposal_lib, sl_from_seed = (\<lambda>seed _. Inr seed), sl_has_account = (\<lambda>_. True),
     sl_sync_step = (\<lambda>s. (Returned (Inr False), s)), sl_block_fully_scanned = (\<lambda>_. Some 500),
     sl_propose_transfer = (\<lambda>_ _ _ _ d. (Returned (if fst d = [] then Inl (PfInsufficientFunds 0 1) else Inr sample_proposal), d)),
     sl_create_pczt = (\<lambda>_ _ d. (Returned (Inr (hd (fst d))), d)),
     sl_prove_sign = (\<lambda>pczt _ _. Returned (Inr pczt)),
     sl_store_pczt = (\<lambda>note _ d. (case store_note note d of (t, d) \<Rightarrow> (Returned (Inr t), d))),
     sl_create_proposed = (\<lambda>_ _ d. (case store_note (hd (fst d)) d of (t, d) \<Rightarrow> (Returned (Inr [t]), d))),
     sl_mark_trusted = (\<lambda>_ d. d), sl_read_raw = (\<lambda>_ _. Inr [1]), sl_summary = (\<lambda>_ _. None), sl_coinbase = (\<lambda>_ _. None),
     sl_keys = Inr (), sl_target_height = (\<lambda>_. Inr (Some 501)), sl_receivers = (\<lambda>_ _. Inr []), sl_spendable = (\<lambda>_ _ _ _. Inr []),
     sl_internal_change = (\<lambda>_ _. None), sl_next_address = (\<lambda>_ d. (Inr None, d)),
     sl_build_transparent = (\<lambda>_ _ d. (Returned (Inl (wallet_error ''none'')), d)), sl_zip317 = (5000, 2, 34), sl_zatoshis = Inr\<rparr>"

definition sample_send_config :: "(unit, unit) send_config" where
  "sample_send_config = \<lparr>sc_link = sample_link_config, sc_pipeline_proving = True, sc_orchard_keys = True,
     sc_enabled_pools = receiver_set_single ROrchard, sc_max_send_catchup_blocks = 0, sc_confirmations_policy = (),
     sc_orchard_action_limit = 0, sc_max_tx_bytes = 0, sc_is_shard = False, sc_prover = True\<rparr>"

definition sample_core :: "note_db \<Rightarrow> (unit, unit, note_db, unit) wallet_core" where
  "sample_core d = \<lparr>wc_link = \<lparr>lk_net = (), lk_db = d, lk_client = Some (), lk_mempool_open = False, lk_roots_synced = True,
       lk_unsupported = [], lk_branch_checked_at = None, lk_tip_height = Some 500, lk_tip_hash = None, lk_refusal = None,
       lk_backoff = backoff_new 1000000000 60000000000, lk_reconnect_at = 0, lk_connected_logged = True,
       lk_last_sync_error = None, lk_sync_error_streak = 0, lk_sync_halted = False\<rparr>,
     wc_custody = \<lparr>cu_encrypted = False, cu_seed = \<lparr>sk_seed = Some \<lparr>ms_seed = [1], ms_locked = True\<rparr>\<rparr>, cu_unlock_until = None,
       cu_account_id = Some (), cu_account_index = Some 0\<rparr>, wc_transparent_unspent_dirty = False\<rparr>"

definition sample_send :: "bool \<Rightarrow> nat \<Rightarrow> (bool, unit) pending_send" where
  "sample_send sapling n = \<lparr>pn_request = [\<lparr>pay_recipient = sapling, pay_amount = Some 1\<rparr>], pn_confirmations = None,
     pn_privacy = AllowRevealedRecipients, pn_source = Unspecified, pn_reply = n\<rparr>"

lemma sample_core_db [simp]: "wc_db (sample_core d) = d"
  by (simp add: wc_db_def sample_core_def)

lemma sample_relock [simp]: "relock_now sample_send_lib (sample_core d) = sample_core d"
  by (simp add: relock_now_def relock_if_expired_def sample_core_def)

lemma sample_on_db [simp]: "on_db f (sample_core d) = (case f d of (r, d) \<Rightarrow> (r, sample_core d))"
  by (simp add: on_db_def sample_core_def wc_db_def split: prod.split)

lemma sample_catch_up: "catch_up sample_send_lib s = (Returned (), s)"
  by (simp add: catch_up_def sample_send_lib_def catch_up_loop.simps)

lemma sample_refresh_core:
  "refresh_tip sample_api sample_link_config True (wc_link (sample_core d)) = (Inr (), wc_link (sample_core d))"
  by (simp add: refresh_tip_def fetch_and_store_chain_tip_def fetch_chain_tip_def branch_check_due_def accept_tip_def
      refuse_stale_upstream_def upstream_not_upgraded_def backoff_reset_def backoff_new_def sample_api_def sample_core_def Let_def)

lemma sample_sync [simp]: "sync_to_tip_for_send sample_send_lib sample_send_config (sample_core d) = (Returned (Inr ()), sample_core d)"
proof -
  have parts: "sl_api sample_send_lib = sample_api" "sl_has_account sample_send_lib = (\<lambda>_. True)"
    "sc_link sample_send_config = sample_link_config" "sc_max_send_catchup_blocks sample_send_config = 0"
    by (simp_all add: sample_send_lib_def sample_send_config_def)
  have core: "\<not> lk_sync_halted (wc_link (sample_core d))" "lk_client (wc_link (sample_core d)) \<noteq> None"
    "(sample_core d)\<lparr>wc_link := wc_link (sample_core d)\<rparr> = sample_core d"
    by (simp_all add: sample_core_def)
  show ?thesis
    by (simp add: sync_to_tip_for_send_def parts core sample_refresh_core send_catchup_exceeded_def sample_catch_up
        bind_eq_None_conv Let_def split: option.split)
qed

lemma sample_parts [simp]:
  "sl_keys sample_send_lib = Inr ()" "sl_read_raw sample_send_lib d t = Inr [1]" "sl_mark_trusted sample_send_lib t d = d"
  "sl_from_seed sample_send_lib seed i = Inr seed" "sl_prove_sign sample_send_lib note x k = Returned (Inr note)"
  "sl_proposal sample_send_lib = sample_proposal_lib" "sl_codec sample_send_lib = receiving_codec"
  "sl_propose_transfer sample_send_lib a r q v d = (Returned (if fst d = [] then Inl (PfInsufficientFunds 0 1) else Inr sample_proposal), d)"
  "sl_create_pczt sample_send_lib a pr d = (Returned (Inr (hd (fst d))), d)"
  "sl_store_pczt sample_send_lib note x d = (Returned (Inr (fst (store_note note d))), snd (store_note note d))"
  "sl_create_proposed sample_send_lib k pr d =
     (Returned (Inr [fst (store_note (hd (fst d)) d)]), snd (store_note (hd (fst d)) d))"
  "require_prover sample_send_config = Inr ()" "require_account sample_send_config None (sample_core d) = Inr ()"
  "sc_confirmations_policy sample_send_config = ()"
  by (simp_all add: sample_send_lib_def sample_send_config_def require_prover_def require_account_def sample_core_def
      split: prod.split)

lemma sample_derive [simp]: "derive_key sample_send_lib (sample_core d) = (Returned (Inr [1]), sample_core d)"
  by (simp add: derive_key_def require_account_index_def derive_usk_def sample_core_def)

lemma sample_broadcast [simp]:
  "broadcast_now sample_send_lib sample_send_config [1] (sample_core d) = (Returned (Inr ()), sample_core d)"
  by (simp add: broadcast_now_def broadcast_committed_def sample_send_lib_def sample_send_config_def sample_core_def
      sample_api_def is_accepted_def broadcast_accepted_def Let_def)

lemma sample_check: "check_proposal sample_proposal_lib Test AllowRevealedRecipients 0 0 sample_proposal = Inr ()"
  by (simp add: check_proposal_def enforce_single_step_def enforce_orchard_action_limit_def enforce_max_tx_bytes_def
      enforce_zip218_budget_def zip218_budget_applies_def sample_proposal_defs Let_def)

lemma sample_propose [simp]:
  "notes \<noteq> [] \<Longrightarrow> propose_checked sample_send_lib sample_send_config () r () AllowRevealedRecipients v (sample_core (notes, txs)) =
     (Returned (Inr sample_proposal), sample_core (notes, txs))"
  using sample_check
  by (simp add: propose_checked_def act_bind_def sample_send_config_def sample_link_config_def)

lemma sample_runs_inline:
  "runs_inline sample_send_lib sample_send_config (sample_send sapling n) \<longleftrightarrow> sapling"
proof -
  have "pipeline_eligible sample_send_config" by code_simp
  moreover have "request_pays_sapling_output (sl_codec sample_send_lib) (sl_convert sample_send_lib)
      (pn_request (sample_send sapling n)) \<longleftrightarrow> sapling"
    by (cases sapling) (simp_all add: request_pays_sapling_output_def has_shielded_receiver_def has_orchard_receiver_def
        sample_send_def sample_send_lib_def receiving_codec_def)
  ultimately show ?thesis
    unfolding runs_inline_def by (simp add: sample_send_def)
qed

text \<open>The first half of a send to an Orchard address, and the whole of one to a Sapling address.\<close>

lemma sample_prepare:
  "\<exists>job. prepare_pipelined sample_send_lib sample_send_config (sample_send False n) (sample_core (note # notes, txs)) =
      (Returned (Inr job), sample_core (note # notes, txs)) \<and> pa_pczt (pj_phase_a job) = note \<and> pj_reply job = n"
  by (simp add: prepare_pipelined_def build_proposal_and_pczt_def act_bind_def act_try_def act_lift_def act_modify_def
      sample_send_def Let_def)

lemma sample_inline:
  "do_send sample_send_lib sample_send_config (pn_request (sample_send True n)) None AllowRevealedRecipients Unspecified
     (sample_core (note # notes, txs)) =
   (Returned (Inr (length txs)), sample_core (snd (store_note note (note # notes, txs))))"
proof -
  have "request_pays_sapling_output receiving_codec (sl_convert sample_send_lib) (pn_request (sample_send True n))"
    by (simp add: request_pays_sapling_output_def has_shielded_receiver_def has_orchard_receiver_def
        sample_send_def sample_send_lib_def receiving_codec_def)
  then have fused: "\<not> cached_pczt_path sample_send_config \<or>
      request_pays_sapling_output (sl_codec sample_send_lib) (sl_convert sample_send_lib) (pn_request (sample_send True n)) \<or>
      source_is_transparent Unspecified"
    by simp
  show ?thesis
    unfolding do_send_def if_P [OF fused] Let_def
    by (simp add: do_send_fused_def act_bind_def act_try_def act_lift_def act_modify_def source_gate_def
        transparent_branch_def store_note_def wc_db_def)
qed

section \<open>Where sends overlap and where a panic escapes\<close>

text \<open>A send that is handled inline does not wait for the proof in flight.  In the small wallet a send to an Orchard
  address is proving when one to a Sapling address is handled: both select the only note, both are stored, and both
  callers are told their payment was sent.
\<close>

theorem inline_send_overlaps_proof:
  "\<exists>s. pipe_run sample_send_lib sample_send_config
      [PeSend (sample_send False 1), PeSend (sample_send True 2), PeProofDone 0, PeCommit]
      (pipe_start (sample_core ([7], []))) = (True, s) \<and>
    snd (wc_db (wa_core s)) = [(0, 7), (1, 7)] \<and> wa_replies s = [(2, Inr 0), (1, Inr 1)]"
proof -
  let ?p = "sample_send False 1" and ?q = "sample_send True 2"
  obtain job where job: "prepare_pipelined sample_send_lib sample_send_config ?p (sample_core ([7], [])) =
      (Returned (Inr job), sample_core ([7], []))" "pa_pczt (pj_phase_a job) = 7" "pj_reply job = 1"
    using sample_prepare [of 1 7 "[]" "[]"] by blast
  define s1 :: "((unit, unit, note_db, unit) wallet_core, bool, unit, nat, unit, u8 list, nat) wallet_actor" where
    "s1 = \<lparr>wa_core = sample_core ([7], []), wa_in_flight = True, wa_queue = [], wa_jobs = [job], wa_done = [], wa_replies = []\<rparr>"
  have step1: "pipe_step sample_send_lib sample_send_config (PeSend ?p) (pipe_start (sample_core ([7], []))) = (True, s1)"
    using job(1) by (simp add: pipe_start_def handle_send_caught_def catch_unwind_def begin_or_queue_send_def
        sample_runs_inline start_pipelined_send_def on_core_def act_bind_def act_modify_def still_running_def s1_def)
  define s2 where "s2 = s1\<lparr>wa_core := sample_core ([], [(0, 7)]), wa_replies := [(2, Inr 0)]\<rparr>"
  have q: "pn_confirmations ?q = None" "pn_privacy ?q = AllowRevealedRecipients" "pn_source ?q = Unspecified" "pn_reply ?q = 2"
    by (simp_all add: sample_send_def)
  have step2: "pipe_step sample_send_lib sample_send_config (PeSend ?q) (True, s1) = (True, s2)"
    using sample_inline [of 2 7 "[]" "[]"]
    by (simp add: handle_send_caught_def catch_unwind_def begin_or_queue_send_def sample_runs_inline q on_core_def
        act_bind_def act_modify_def still_running_def s1_def s2_def reply_to_def store_note_def)
  define s3 where "s3 = s2\<lparr>wa_jobs := [], wa_done := [run_job sample_send_lib job]\<rparr>"
  have step3: "pipe_step sample_send_lib sample_send_config (PeProofDone 0) (True, s2) = (True, s3)"
    by (simp add: s1_def s2_def s3_def job_ends_def)
  have step4: "pipe_step sample_send_lib sample_send_config PeCommit (True, s3) =
      (True, s3\<lparr>wa_done := [], wa_in_flight := False, wa_core := sample_core ([], [(0, 7), (1, 7)]),
        wa_replies := [(2, Inr 0), (1, Inr 1)]\<rparr>)"
    using job(2,3)
    by (simp add: s1_def s2_def s3_def run_job_def finish_send_caught_def finish_send_def catch_unwind_def
        store_and_broadcast_def on_core_def act_bind_def act_try_def act_lift_def act_modify_def reply_to_def
        pump_send_queue_def still_running_def store_note_def)
  show ?thesis
    unfolding pipe_run_def fold_simps comp_apply id_apply step1 step2 step3 step4 by simp
qed

text \<open>A panic while a queued send is started escapes every barrier and ends the actor, though the same panic is caught
  when the send is handled as a command.
\<close>

theorem queued_panic_escapes:
  assumes "sd_result d = Inl e" and "wa_queue s = p # ps" and "prepare_pipelined lib cfg p (wa_core s) = (Panicked, c)"
  shows "fst (finish_send_caught lib cfg d s) = Panicked \<and> fst (handle_send_caught lib cfg q t) \<noteq> Panicked"
proof -
  have "fst (finish_send_caught lib cfg d s) = Panicked"
    using assms by (simp add: finish_send_caught_def finish_send_def catch_unwind_def act_bind_def act_modify_def reply_to_def
        pump_send_queue_def start_pipelined_send_def on_core_def)
  moreover have "fst (handle_send_caught lib cfg q t) \<noteq> Panicked"
    by (auto simp: handle_send_caught_def catch_unwind_def act_bind_def split: prod.splits outcome.splits)
  ultimately show ?thesis ..
qed

definition panicking_lib where
  "panicking_lib = sample_send_lib\<lparr>sl_create_pczt := (\<lambda>_ _ d. (Panicked, d))\<rparr>"

lemma panicking_prepare:
  "prepare_pipelined panicking_lib sample_send_config (sample_send False n) (sample_core (note # notes, txs)) =
     (Panicked, sample_core (note # notes, txs))"
proof -
  have fields: "sl_clock panicking_lib = sl_clock sample_send_lib" "sl_draw panicking_lib = sl_draw sample_send_lib"
    "sl_api panicking_lib = sl_api sample_send_lib" "sl_has_account panicking_lib = sl_has_account sample_send_lib"
    "sl_sync_step panicking_lib = sl_sync_step sample_send_lib" "sl_summary panicking_lib = sl_summary sample_send_lib"
    "sl_block_fully_scanned panicking_lib = sl_block_fully_scanned sample_send_lib"
    "sl_from_seed panicking_lib = sl_from_seed sample_send_lib" "sl_coinbase panicking_lib = sl_coinbase sample_send_lib"
    "sl_propose_transfer panicking_lib = sl_propose_transfer sample_send_lib" "sl_proposal panicking_lib = sl_proposal sample_send_lib"
    by (simp_all add: panicking_lib_def)
  have basic: "now_of panicking_lib = now_of sample_send_lib" "draw_of panicking_lib = draw_of sample_send_lib"
    "enrich_now panicking_lib = enrich_now sample_send_lib"
    by (intro ext; simp only: now_of_def draw_of_def enrich_now_def fields)+
  have disc: "disconnect panicking_lib = disconnect sample_send_lib" "relock_now panicking_lib = relock_now sample_send_lib"
    by (intro ext; simp only: disconnect_def relock_now_def basic)+
  have catch: "catch_up panicking_lib = catch_up sample_send_lib"
    by (intro ext; simp only: catch_up_def disc fields)
  have same: "sync_to_tip_for_send panicking_lib sample_send_config = sync_to_tip_for_send sample_send_lib sample_send_config"
    "derive_key panicking_lib = derive_key sample_send_lib"
    "propose_checked panicking_lib sample_send_config = propose_checked sample_send_lib sample_send_config"
    by (intro ext; simp only: sync_to_tip_for_send_def derive_key_def propose_checked_def basic disc catch fields)+
  note same = same disc
  show ?thesis
    by (simp add: prepare_pipelined_def same build_proposal_and_pczt_def act_bind_def act_try_def act_lift_def act_modify_def
        sample_send_def Let_def)
      (simp add: panicking_lib_def)
qed

theorem queued_panic_escapes_witness:
  "fst (finish_send_caught panicking_lib sample_send_config
     \<lparr>sd_result = Inl (wallet_error ''proving panicked''), sd_circuit = None, sd_policy = (),
      sd_shape = \<lparr>ss_inputs = 0, ss_orchard_actions = 0, ss_est_tx_bytes = 0\<rparr>, sd_reply = 1\<rparr>
     \<lparr>wa_core = sample_core ([7], []), wa_in_flight = True, wa_queue = [sample_send False 2], wa_jobs = [], wa_done = [],
      wa_replies = []\<rparr>) = Panicked"
  by (rule queued_panic_escapes [where c = "sample_core ([7], [])" and p = "sample_send False 2" and ps = "[]", THEN conjunct1])
    (simp_all add: panicking_prepare)

text \<open>The small wallet's library always returns.\<close>

lemma sample_sync_total [act_total_intros]: "act_total (sync_to_tip_for_send sample_send_lib cfg)"
  unfolding act_total_def
  by (auto simp: sync_to_tip_for_send_def sample_catch_up act_bind_def Let_def split: prod.splits sum.splits option.splits)

lemma sample_lib_total [act_total_intros]:
  "act_total (sl_propose_transfer sample_send_lib a r q v)" "act_total (sl_create_pczt sample_send_lib a pr)"
  "act_total (sl_store_pczt sample_send_lib note x)" "act_total (sl_create_proposed sample_send_lib k pr)"
  "act_total (sl_build_transparent sample_send_lib k b)"
  "act_total (derive_key sample_send_lib)" "act_total (broadcast_now sample_send_lib cfg raw)" "act_total (prove_inline sample_send_lib pa k)"
  by (auto simp: act_total_def sample_send_lib_def derive_key_def broadcast_now_def prove_inline_def
      split: sum.splits prod.splits)

lemma sample_propose_total [act_total_intros]: "act_total (propose_checked sample_send_lib cfg a r q v w)"
  unfolding propose_checked_def
  by (intro act_total_intros) (auto simp: act_total_def split: sum.splits)

lemma sample_build_total [act_total_intros]: "act_total (build_proposal_and_pczt sample_send_lib cfg r q v w)"
  unfolding build_proposal_and_pczt_def
  by (intro act_total_intros) (auto simp: act_total_def Let_def split: sum.splits)

lemma sample_prepare_total: "prepare_total sample_send_lib cfg"
proof -
  have "act_total (prepare_pipelined sample_send_lib cfg p)" for p :: "(bool, unit) pending_send"
    unfolding prepare_pipelined_def Let_def by (intro act_total_intros)
  then show ?thesis by (simp add: prepare_total_def act_total_def)
qed

lemma sample_commit_total: "commit_total sample_send_lib cfg"
proof -
  have "act_total (store_and_broadcast sample_send_lib cfg nt x :: ((unit, unit, note_db, unit) wallet_core, _) act)" for nt x
    unfolding store_and_broadcast_def by (intro act_total_intros)
  then show ?thesis by (simp add: commit_total_def act_total_def)
qed

lemma sample_transparent_total [act_total_intros]:
  "act_total (do_send_transparent sample_send_lib cfg rs f k a from)"
proof -
  have "act_total (\<lambda>d. case tp_change plan of
      None \<Rightarrow> (Returned (Inr None), d)
    | Some v \<Rightarrow> (case change_address sample_send_lib a d of
          (Inl e, d) \<Rightarrow> (Returned (Inl e), d) | (Inr b, d) \<Rightarrow> (Returned (Inr (Some (b, v))), d)))" for plan :: "unit transparent_plan"
    by (auto simp: act_total_def split: option.splits prod.splits sum.splits)
  then have "act_total (build_transparent_send sample_send_lib rs q k a from)" for q
    unfolding build_transparent_send_def by (intro act_total_intros)
  then show ?thesis
    unfolding do_send_transparent_def Let_def by (auto intro!: act_total_intros split: prod.splits)
qed

lemma sample_fused_total [act_total_intros]: "act_total (do_send_fused sample_send_lib cfg k r q v w)"
proof -
  have "act_total (\<lambda>s. case x of
      Inl e \<Rightarrow> (Returned (Inl (enrich_now sample_send_lib q (classify_err e) s)), s)
    | Inr txids \<Rightarrow> if length txids > 1 then (Returned (Inl (wallet_error ''multi-transaction proposals are not supported'')), s)
        else (Returned (Inr (hd txids)), s))" for x
    by (auto simp: act_total_def split: sum.splits)
  then show ?thesis
    unfolding do_send_fused_def Let_def by (intro act_total_intros)
qed

lemma sample_inline_total: "inline_total sample_send_lib cfg"
proof -
  have "act_total (do_send sample_send_lib cfg r f v src)" for r :: "bool payment list" and f v src
    unfolding do_send_def Let_def do_send_cached_def
    by (auto intro!: act_total_intros split: option.split)
  then show ?thesis by (simp add: inline_total_def act_total_def)
qed

theorem pipeline_drains_witness:
  "\<exists>s. pipe_run sample_send_lib sample_send_config
      ([PeSend (sample_send False 1), PeSend (sample_send False 2)] @ concat (replicate 65 drain_round))
      (pipe_start (sample_core ([7, 8], []))) = (True, s) \<and> wa_queue s = [] \<and>
    mset (map fst (wa_replies s)) = {#1, 2#}"
proof -
  let ?evs = "[PeSend (sample_send False 1), PeSend (sample_send False 2)]"
  obtain alive s where run: "pipe_run sample_send_lib sample_send_config ?evs (pipe_start (sample_core ([7, 8], []))) = (alive, s)"
    by (cases "pipe_run sample_send_lib sample_send_config ?evs (pipe_start (sample_core ([7, 8], [])))")
  have total: "pipe_total sample_send_lib sample_send_config"
    by (simp add: pipe_total_def sample_prepare_total sample_commit_total sample_inline_total)
  have ends: "all_jobs_end sample_send_lib" by (simp add: all_jobs_end_def)
  have "length (wa_queue s) + 1 \<le> 65"
    using pipe_run_inv(1,3) [OF run] total by (simp add: pipe_inv_def MAX_QUEUED_SENDS_def)
  from pipeline_drains [OF total ends run this] show ?thesis
    by (auto simp: event_replies_def sample_send_def)
qed

theorem pipeline_invariant_witness:
  "\<exists>alive s. pipe_run sample_send_lib sample_send_config [PeSend (sample_send False 1), PeSend (sample_send False 2)]
      (pipe_start (sample_core ([7, 8], []))) = (alive, s) \<and> mset (map fst (wa_replies s)) \<subseteq># {#1, 2#}"
proof -
  let ?evs = "[PeSend (sample_send False 1), PeSend (sample_send False 2)]"
  obtain alive s where run: "pipe_run sample_send_lib sample_send_config ?evs (pipe_start (sample_core ([7, 8], []))) = (alive, s)"
    by (cases "pipe_run sample_send_lib sample_send_config ?evs (pipe_start (sample_core ([7, 8], [])))")
  with pipeline_invariant [OF run] show ?thesis
    by (auto simp: event_replies_def sample_send_def)
qed



end
