(* ===== verification/Enhance.thy ===== *)
theory Enhance
  imports Actor_Monad Upstream_Link Sync_Engine "HOL-Library.Sublist"
begin

text \<open>
  The enhancement drain of the wallet actor, from \<open>src/wallet/actor.rs\<close>: after the block scan, the wallet library lists
  transactions whose full data is still missing.  The drain fetches them in passes, and the actor publishes how many are
  outstanding and the height up to which history is complete.
\<close>

section \<open>Requests\<close>

datatype transaction_status_filter = StatusMined | StatusMempool | StatusAll
datatype output_status_filter = OutputUnspent | OutputAll

record 'addr address_request =
  ar_address :: 'addr
  ar_block_range_start :: u32
  ar_block_range_end :: "u32 option"
  ar_request_at :: "nat option"
  ar_tx_status_filter :: transaction_status_filter
  ar_output_status_filter :: output_status_filter

datatype ('txid, 'addr) enhance_request =
    GetStatus 'txid
  | Enhancement 'txid
  | TransactionsInvolvingAddress "'addr address_request"

datatype transaction_status = TxidNotRecognized | NotInMainChain | Mined u32

text \<open>Work of the wallet library: fetched by its identifier, or left to a private route.\<close>

datatype 'txid routed = Public 'txid | Private

text \<open>
  The wallet library and the upstream.  Reads may fail; storing a transaction may panic.  In a concurrent round the
  \<open>i\<close>-th request takes a handle and asks for its transaction; \<open>el_settle\<close> is the outside after the round.
\<close>

record ('n, 'c, 'd, 'txid, 'addr, 'tx) enhance_lib =
  el_api :: "('n, 'c, 'd) upstream_api"
  el_clock :: "'n \<Rightarrow> nat"
  el_draw :: "'n \<Rightarrow> nat \<Rightarrow> nat"
  el_shutdown :: "'n \<Rightarrow> bool \<times> 'n"
  el_status_work :: "'d \<Rightarrow> string + 'txid routed list"
  el_enhancement_work :: "'d \<Rightarrow> string + 'txid routed list"
  el_data_requests :: "'d \<Rightarrow> string + 'addr address_request list"
  el_spending_txids :: "'d \<Rightarrow> string + 'txid set"
  el_tx_height :: "'d \<Rightarrow> 'txid \<Rightarrow> string + u32 option"
  el_block_fully_scanned :: "'d \<Rightarrow> string + u32 option"
  el_store_tx :: "'tx \<Rightarrow> u32 option \<Rightarrow> ('d, string + unit) act"
  el_not_found :: "'txid \<Rightarrow> 'd \<Rightarrow> (string + unit) \<times> 'd"
  el_set_status :: "'txid \<Rightarrow> transaction_status \<Rightarrow> 'd \<Rightarrow> (string + unit) \<times> 'd"
  el_address_checked :: "'addr address_request \<Rightarrow> u32 \<Rightarrow> 'd \<Rightarrow> (string + unit) \<times> 'd"
  el_put_utxo :: "('txid, 'addr) wallet_output \<Rightarrow> 'd \<Rightarrow> bool \<times> 'd"
  el_address_for_index :: "nat \<Rightarrow> 'd \<Rightarrow> bool \<times> 'd"
  el_read_tx :: "u8 list \<Rightarrow> u32 \<Rightarrow> string + 'tx"
  el_txid :: "'tx \<Rightarrow> 'txid"
  el_vout :: "'tx \<Rightarrow> (u64 \<times> u8 list) list option"
  el_crate :: "'addr transparent_crate"
  el_encode :: "'addr \<Rightarrow> string"
  el_handle :: "'n \<Rightarrow> nat \<Rightarrow> string + unit"
  el_fetch :: "'n \<Rightarrow> nat \<Rightarrow> 'txid \<Rightarrow> fetched_tx option reply"
  el_settle :: "'txid list \<Rightarrow> 'n \<Rightarrow> 'n"
  el_fetch_tx :: "'c \<Rightarrow> 'txid \<Rightarrow> 'n \<Rightarrow> fetched_tx option reply \<times> 'n"
  el_tx_evidence :: "'c \<Rightarrow> string list \<Rightarrow> u32 \<Rightarrow> u32 \<Rightarrow> 'n \<Rightarrow> 'txid tx_evidence list reply \<times> 'n"

record 'b enhance_config =
  ec_link :: "'b link_config"
  ec_fetch_memos :: bool
  ec_concurrency :: nat

datatype conn_state = Down | Syncing | Ready

text \<open>What is published of the scan and of the backlog.\<close>

record sync_status =
  st_connected :: bool
  st_conn_state :: conn_state
  st_upstream_refusal :: "string option"
  st_chain_tip :: "u32 option"
  st_fully_scanned :: "u32 option"
  st_best_block_hash :: "string option"
  st_scanning :: bool
  st_pending_enhancements :: u64
  st_enhanced_through :: "u32 option"

record ('n, 'c, 'd, 'txid, 'addr) enhancer =
  eh_link :: "('n, 'c, 'd) link"
  eh_satisfied :: "('txid, 'addr) enhance_request set"
  eh_scripts :: "'addr transparent_matcher option"
  eh_set_dirty :: bool
  eh_unspent_dirty :: bool
  eh_passes :: u64
  eh_serviced :: u64
  eh_status :: "sync_status option"

definition eh_db :: "('n, 'c, 'd, 'txid, 'addr) enhancer \<Rightarrow> 'd" where
  "eh_db s = lk_db (eh_link s)"

definition set_eh_db :: "'d \<Rightarrow> ('n, 'c, 'd, 'txid, 'addr) enhancer \<Rightarrow> ('n, 'c, 'd, 'txid, 'addr) enhancer" where
  "set_eh_db d s = s\<lparr>eh_link := (eh_link s)\<lparr>lk_db := d\<rparr>\<rparr>"

definition set_eh_net :: "'n \<Rightarrow> ('n, 'c, 'd, 'txid, 'addr) enhancer \<Rightarrow> ('n, 'c, 'd, 'txid, 'addr) enhancer" where
  "set_eh_net n s = s\<lparr>eh_link := (eh_link s)\<lparr>lk_net := n\<rparr>\<rparr>"

section \<open>What is outstanding\<close>

definition public_txids :: "'txid routed list \<Rightarrow> 'txid list" where
  "public_txids work = List.map_filter (\<lambda>w. case w of Public t \<Rightarrow> Some t | Private \<Rightarrow> None) work"

definition enhance_requests ::
  "('n, 'c, 'd, 'txid, 'addr, 'tx) enhance_lib \<Rightarrow> 'd \<Rightarrow> string + ('txid, 'addr) enhance_request list" where
  "enhance_requests lib d =
     sum_bind (el_status_work lib d) (\<lambda>statuses.
     sum_bind (el_enhancement_work lib d) (\<lambda>enhancements.
     sum_bind (el_data_requests lib d) (\<lambda>addresses.
       Inr (map GetStatus (public_txids statuses) @ map Enhancement (public_txids enhancements) @
            map TransactionsInvolvingAddress addresses))))"

definition ENHANCED_THROUGH_MAX_PROBE :: nat where "ENHANCED_THROUGH_MAX_PROBE = 2048"

definition enhanced_through :: "u32 \<Rightarrow> u32 option \<Rightarrow> u32" where
  "enhanced_through fully_scanned lowest_pending =
     (case lowest_pending of Some h \<Rightarrow> min fully_scanned (saturating_sub h 1) | None \<Rightarrow> fully_scanned)"

definition is_serviceable_request :: "('txid, 'addr) enhance_request \<Rightarrow> bool" where
  "is_serviceable_request req =
     (case req of GetStatus _ \<Rightarrow> True | Enhancement _ \<Rightarrow> True | TransactionsInvolvingAddress _ \<Rightarrow> True)"

definition is_spend_search :: "'addr address_request \<Rightarrow> bool" where
  "is_spend_search r \<longleftrightarrow> ar_tx_status_filter r = StatusMined \<and> ar_output_status_filter r = OutputAll"

definition request_in_scope :: "('txid, 'addr) enhance_request \<Rightarrow> bool \<Rightarrow> 'txid set \<Rightarrow> bool" where
  "request_in_scope req fetch_memos spending \<longleftrightarrow>
     is_serviceable_request req \<and>
     (case req of
        Enhancement txid \<Rightarrow> fetch_memos \<or> txid \<in> spending
      | TransactionsInvolvingAddress r \<Rightarrow> \<not> is_spend_search r
      | GetStatus _ \<Rightarrow> True)"

text \<open>The filter, with the set of requests seen so far; inserting into it tells whether the request was new.\<close>

fun outstanding_loop ::
  "('txid, 'addr) enhance_request list \<Rightarrow> ('txid, 'addr) enhance_request set \<Rightarrow> bool \<Rightarrow> 'txid set
     \<Rightarrow> ('txid, 'addr) enhance_request set \<Rightarrow> ('txid, 'addr) enhance_request list" where
  "outstanding_loop [] satisfied fetch_memos spending seen = []"
| "outstanding_loop (r # rs) satisfied fetch_memos spending seen =
     (if request_in_scope r fetch_memos spending \<and> r \<notin> satisfied
      then (if r \<in> seen then outstanding_loop rs satisfied fetch_memos spending seen
            else r # outstanding_loop rs satisfied fetch_memos spending (insert r seen))
      else outstanding_loop rs satisfied fetch_memos spending seen)"

definition outstanding_requests ::
  "('txid, 'addr) enhance_request list \<Rightarrow> ('txid, 'addr) enhance_request set \<Rightarrow> bool \<Rightarrow> 'txid set
     \<Rightarrow> ('txid, 'addr) enhance_request list" where
  "outstanding_requests requests satisfied fetch_memos spending =
     outstanding_loop requests satisfied fetch_memos spending {}"

definition tia_check_range :: "u32 \<Rightarrow> u32 \<Rightarrow> (u32 \<times> u32) option" where
  "tia_check_range block_range_start chain_tip =
     (let start = max block_range_start 1 in if start \<le> chain_tip then Some (start, chain_tip) else None)"

definition spending_txids ::
  "('n, 'c, 'd, 'txid, 'addr, 'tx) enhance_lib \<Rightarrow> 'b enhance_config \<Rightarrow> 'd \<Rightarrow> 'txid set" where
  "spending_txids lib cfg d =
     (if ec_fetch_memos cfg then {} else case el_spending_txids lib d of Inl _ \<Rightarrow> {} | Inr txids \<Rightarrow> txids)"

definition enhancement_request_height ::
  "('n, 'c, 'd, 'txid, 'addr, 'tx) enhance_lib \<Rightarrow> 'd \<Rightarrow> ('txid, 'addr) enhance_request \<Rightarrow> u32 option" where
  "enhancement_request_height lib d req =
     (let of_txid = (\<lambda>txid. case el_tx_height lib d txid of Inl _ \<Rightarrow> None | Inr h \<Rightarrow> h)
      in case req of
           GetStatus txid \<Rightarrow> of_txid txid
         | Enhancement txid \<Rightarrow> of_txid txid
         | TransactionsInvolvingAddress addr_req \<Rightarrow> Some (ar_block_range_start addr_req))"

definition list_min :: "u32 list \<Rightarrow> u32 option" where
  "list_min hs = (case hs of [] \<Rightarrow> None | h # hs \<Rightarrow> Some (fold min hs h))"

definition summarize_backlog ::
  "('n, 'c, 'd, 'txid, 'addr, 'tx) enhance_lib \<Rightarrow> 'd \<Rightarrow> ('txid, 'addr) enhance_request list \<Rightarrow> u64 \<times> u32 option" where
  "summarize_backlog lib d pending =
     (let n = length pending
      in if n = 0 then (0, None)
         else if n > ENHANCED_THROUGH_MAX_PROBE then (of_nat n, Some 0)
         else (of_nat n, list_min (List.map_filter (enhancement_request_height lib d) pending)))"

definition enhancement_backlog ::
  "('n, 'c, 'd, 'txid, 'addr, 'tx) enhance_lib \<Rightarrow> 'b enhance_config \<Rightarrow> ('n, 'c, 'd, 'txid, 'addr) enhancer \<Rightarrow> u64 \<times> u32 option" where
  "enhancement_backlog lib cfg s =
     (case enhance_requests lib (eh_db s) of
        Inl _ \<Rightarrow> (0, Some 0)
      | Inr reqs \<Rightarrow>
          summarize_backlog lib (eh_db s)
            (outstanding_requests reqs (eh_satisfied s) (ec_fetch_memos cfg) (spending_txids lib cfg (eh_db s))))"

section \<open>Publishing\<close>

definition update_status_inner ::
  "('n, 'c, 'd, 'txid, 'addr, 'tx) enhance_lib \<Rightarrow> 'b enhance_config \<Rightarrow> (u64 \<times> u32 option) option
     \<Rightarrow> ('n, 'c, 'd, 'txid, 'addr) enhancer \<Rightarrow> ('n, 'c, 'd, 'txid, 'addr) enhancer" where
  "update_status_inner lib cfg known_backlog s =
     (let lk = eh_link s;
          fully_scanned_height = (case el_block_fully_scanned lib (eh_db s) of Inl _ \<Rightarrow> None | Inr h \<Rightarrow> h);
          (fully_scanned, scanning) = (case (fully_scanned_height, lk_tip_height lk) of
              (Some scanned, Some tip) \<Rightarrow> (Some scanned, scanned < tip)
            | _ \<Rightarrow> (None, True));
          (pending_enhancements, through) = (if scanning then (0, None)
            else let (n, lowest) = (case known_backlog of Some known \<Rightarrow> known | None \<Rightarrow> enhancement_backlog lib cfg s)
                 in (n, if ec_fetch_memos cfg then map_option (\<lambda>scanned. enhanced_through scanned lowest) fully_scanned
                        else None));
          state = (case lk_client lk of None \<Rightarrow> Down
            | Some _ \<Rightarrow> if scanning \<or> pending_enhancements > 0 then Syncing else Ready)
      in s\<lparr>eh_status := Some \<lparr>st_connected = (lk_client lk \<noteq> None), st_conn_state = state,
             st_upstream_refusal = lk_refusal lk, st_chain_tip = lk_tip_height lk, st_fully_scanned = fully_scanned,
             st_best_block_hash = lk_tip_hash lk, st_scanning = scanning,
             st_pending_enhancements = pending_enhancements, st_enhanced_through = through\<rparr>\<rparr>)"

definition update_status where
  "update_status lib cfg = update_status_inner lib cfg None"

definition update_status_with_backlog where
  "update_status_with_backlog lib cfg backlog = update_status_inner lib cfg (Some backlog)"

definition drop_upstream ::
  "('n, 'c, 'd, 'txid, 'addr, 'tx) enhance_lib \<Rightarrow> ('n, 'c, 'd, 'txid, 'addr) enhancer \<Rightarrow> ('n, 'c, 'd, 'txid, 'addr) enhancer" where
  "drop_upstream lib s =
     (let n = lk_net (eh_link s) in s\<lparr>eh_link := mark_disconnected (el_draw lib n) (el_clock lib n) (eh_link s)\<rparr>)"

section \<open>Fetching\<close>

definition parse_fetched ::
  "('n, 'c, 'd, 'txid, 'addr, 'tx) enhance_lib \<Rightarrow> u32 \<Rightarrow> fetched_tx option \<Rightarrow> string + ('tx \<times> u32 option) option" where
  "parse_fetched lib tip found =
     (case found of
        None \<Rightarrow> Inr None
      | Some raw \<Rightarrow>
          (case el_read_tx lib (ft_data raw) (case ft_mined_height raw of Some h \<Rightarrow> h | None \<Rightarrow> tip) of
             Inl e \<Rightarrow> Inl e
           | Inr tx \<Rightarrow> Inr (Some (tx, ft_mined_height raw))))"

definition fetch_one ::
  "('n, 'c, 'd, 'txid, 'addr, 'tx) enhance_lib \<Rightarrow> u32 \<Rightarrow> 'n \<Rightarrow> nat \<times> 'txid \<Rightarrow> string + ('tx \<times> u32 option) option" where
  "fetch_one lib tip net it =
     (case el_handle lib net (fst it) of
        Inl e \<Rightarrow> Inl e
      | Inr _ \<Rightarrow>
          (case el_fetch lib net (fst it) (snd it) of
             None \<Rightarrow> Inl ''fetch_tx timed out after 30s''
           | Some (Inl e) \<Rightarrow> Inl e
           | Some (Inr found) \<Rightarrow> parse_fetched lib tip found))"

definition fetch_txs_concurrent ::
  "('n, 'c, 'd, 'txid, 'addr, 'tx) enhance_lib \<Rightarrow> u32 \<Rightarrow> 'txid list \<Rightarrow> 'n \<Rightarrow> (string + ('tx \<times> u32 option) option) list \<times> 'n" where
  "fetch_txs_concurrent lib tip txids net =
     (map (fetch_one lib tip net) (List.enumerate 0 txids), el_settle lib txids net)"

text \<open>A call on the actor's own client, which is dialled first when it is missing and dropped when the call fails.\<close>

definition client_call ::
  "('n, 'c, 'd, 'txid, 'addr, 'tx) enhance_lib \<Rightarrow> 'b enhance_config \<Rightarrow> ('c \<Rightarrow> 'n \<Rightarrow> 'a reply \<times> 'n) \<Rightarrow> string
     \<Rightarrow> (('n, 'c, 'd, 'txid, 'addr) enhancer, string + 'a) act" where
  "client_call lib cfg call failed =
     act_try (\<lambda>s. case lk_client (eh_link s) of
         Some _ \<Rightarrow> (Returned (Inr ()), s)
       | None \<Rightarrow> (case connect (el_api lib) (ec_link cfg) (eh_link s) of
                    (Inl e, l) \<Rightarrow> (Returned (Inl (err_message (upstream_error e ''could not connect to the upstream node''))), s\<lparr>eh_link := l\<rparr>)
                  | (Inr _, l) \<Rightarrow> (Returned (Inr ()), s\<lparr>eh_link := l\<rparr>)))
     (\<lambda>_ s. case lk_client (eh_link s) of
         None \<Rightarrow> (Returned (Inl ''not connected to upstream''), s)
       | Some c \<Rightarrow>
           (case call c (lk_net (eh_link s)) of
              (Some (Inr x), net) \<Rightarrow> (Returned (Inr x), set_eh_net net s)
            | (_, net) \<Rightarrow> (Returned (Inl failed), update_status lib cfg (drop_upstream lib (set_eh_net net s)))))"

definition fetch_tx_from_upstream where
  "fetch_tx_from_upstream lib cfg txid =
     client_call lib cfg (\<lambda>c. el_fetch_tx lib c txid) ''transaction fetch from the upstream node failed''"

definition fetch_transparent_tx_evidence where
  "fetch_transparent_tx_evidence lib cfg addresses start end_height =
     client_call lib cfg (\<lambda>c. el_tx_evidence lib c addresses start end_height)
       ''transparent address-index query to the upstream node failed''"

definition fetch_full_tx where
  "fetch_full_tx lib cfg txid tip =
     act_try (fetch_tx_from_upstream lib cfg txid) (\<lambda>found. act_return (parse_fetched lib tip found))"

section \<open>Applying\<close>

record ('txid, 'addr) txid_request =
  tr_req :: "('txid, 'addr) enhance_request"
  tr_txid :: 'txid
  tr_enhance :: bool

definition apply_one ::
  "('n, 'c, 'd, 'txid, 'addr, 'tx) enhance_lib \<Rightarrow> ('txid, 'addr) txid_request \<times> ('tx \<times> u32 option) option \<Rightarrow> ('d, string + unit) act" where
  "apply_one lib item =
     (let req = fst item
      in if tr_enhance req
         then (case snd item of
                 Some (tx, mined) \<Rightarrow> el_store_tx lib tx mined
               | None \<Rightarrow> (\<lambda>d. case el_not_found lib (tr_txid req) d of (r, d) \<Rightarrow> (Returned r, d)))
         else (let status = (case snd item of
                   None \<Rightarrow> TxidNotRecognized
                 | Some (_, Some height) \<Rightarrow> Mined height
                 | Some (_, None) \<Rightarrow> NotInMainChain)
               in (\<lambda>d. case el_set_status lib (tr_txid req) status d of (r, d) \<Rightarrow> (Returned r, d))))"

fun apply_all ::
  "('n, 'c, 'd, 'txid, 'addr, 'tx) enhance_lib \<Rightarrow> (('txid, 'addr) txid_request \<times> ('tx \<times> u32 option) option) list \<Rightarrow> ('d, string + unit) act" where
  "apply_all lib [] = act_return (Inr ())"
| "apply_all lib (x # xs) = act_try (apply_one lib x) (\<lambda>_. apply_all lib xs)"

text \<open>A database transaction: what an error or a panic did inside it is undone.\<close>

definition transactionally :: "('d, string + unit) act \<Rightarrow> ('d, string + unit) act" where
  "transactionally body d =
     (case body d of (Returned (Inr _), d') \<Rightarrow> (Returned (Inr ()), d') | (r, _) \<Rightarrow> (r, d))"

definition apply_fetched_requests ::
  "('n, 'c, 'd, 'txid, 'addr, 'tx) enhance_lib \<Rightarrow> (('txid, 'addr) txid_request \<times> ('tx \<times> u32 option) option) list
     \<Rightarrow> (('n, 'c, 'd, 'txid, 'addr) enhancer, string + unit) act" where
  "apply_fetched_requests lib fetched s =
     (if fetched = [] then (Returned (Inr ()), s)
      else case transactionally (apply_all lib fetched) (eh_db s) of (r, d) \<Rightarrow> (r, set_eh_db d s))"

section \<open>Address requests\<close>

text \<open>The outputs of a transaction that pay the wallet, each with the lookahead index of its address.\<close>

definition owned_outputs ::
  "('n, 'c, 'd, 'txid, 'addr, 'tx) enhance_lib \<Rightarrow> 'addr transparent_matcher \<Rightarrow> 'tx \<Rightarrow> u32 option
     \<Rightarrow> (u64 \<times> u8 list) list \<Rightarrow> (('txid, 'addr) wallet_output \<times> nat option) list" where
  "owned_outputs lib matcher tx height vout =
     List.map_filter (\<lambda>(index, value_zat, script).
         map_option (\<lambda>out. (out, lookahead_index matcher (wo_recipient out)))
           (owned_transparent_output (el_crate lib) (tm_all matcher) (el_txid lib tx) index value_zat script (map_option unat height)))
       (List.enumerate 0 vout)"

fun record_outputs ::
  "('n, 'c, 'd, 'txid, 'addr, 'tx) enhance_lib \<Rightarrow> (('txid, 'addr) wallet_output \<times> nat option) list \<Rightarrow> nat \<Rightarrow> 'd \<Rightarrow> nat \<times> 'd" where
  "record_outputs lib [] recorded d = (recorded, d)"
| "record_outputs lib ((out, lookahead) # outs) recorded d =
     (let (row_ok, d) = (case lookahead of None \<Rightarrow> (True, d) | Some index \<Rightarrow> el_address_for_index lib index d)
      in if \<not> row_ok then record_outputs lib outs recorded d
         else let (put_ok, d) = el_put_utxo lib out d
              in record_outputs lib outs (if put_ok then recorded + 1 else recorded) d)"

definition record_tx_transparent_receives ::
  "('n, 'c, 'd, 'txid, 'addr, 'tx) enhance_lib \<Rightarrow> 'b enhance_config \<Rightarrow> 'tx \<Rightarrow> u32 option
     \<Rightarrow> ('n, 'c, 'd, 'txid, 'addr) enhancer \<Rightarrow> nat \<times> ('n, 'c, 'd, 'txid, 'addr) enhancer" where
  "record_tx_transparent_receives lib cfg tx height s =
     (if \<not> lc_transparent_enabled (ec_link cfg) then (0, s)
      else case eh_scripts s of
        None \<Rightarrow> (0, s)
      | Some matcher \<Rightarrow>
          (case el_vout lib tx of
             None \<Rightarrow> (0, s)
           | Some vout \<Rightarrow>
               (let (recorded, d) = record_outputs lib (owned_outputs lib matcher tx height vout) 0 (eh_db s);
                    s = set_eh_db d s
                in (recorded, if recorded > 0 then s\<lparr>eh_set_dirty := True, eh_unspent_dirty := True\<rparr> else s))))"

definition tx_already_recorded :: "('n, 'c, 'd, 'txid, 'addr, 'tx) enhance_lib \<Rightarrow> 'd \<Rightarrow> 'txid \<Rightarrow> bool" where
  "tx_already_recorded lib d txid = (case el_tx_height lib d txid of Inr (Some _) \<Rightarrow> True | _ \<Rightarrow> False)"

definition read_shutdown ::
  "('n, 'c, 'd, 'txid, 'addr, 'tx) enhance_lib \<Rightarrow> (('n, 'c, 'd, 'txid, 'addr) enhancer, bool) act" where
  "read_shutdown lib s = (case el_shutdown lib (lk_net (eh_link s)) of (b, net) \<Rightarrow> (Returned b, set_eh_net net s))"

text \<open>The transaction an item of evidence names, or nothing when it is already recorded or unknown.\<close>

definition evidence_tx ::
  "('n, 'c, 'd, 'txid, 'addr, 'tx) enhance_lib \<Rightarrow> 'b enhance_config \<Rightarrow> u32 \<Rightarrow> 'txid tx_evidence
     \<Rightarrow> (('n, 'c, 'd, 'txid, 'addr) enhancer, string + ('tx \<times> u32 option) option) act" where
  "evidence_tx lib cfg tip item s =
     (case item of
        EvidenceTxid txid \<Rightarrow>
          (if tx_already_recorded lib (eh_db s) txid then (Returned (Inr None), s)
           else fetch_full_tx lib cfg txid tip s)
      | EvidenceRaw raw \<Rightarrow>
          (case parse_fetched lib tip (Some raw) of
             Inr (Some (tx, mined)) \<Rightarrow>
               (Returned (Inr (if tx_already_recorded lib (eh_db s) (el_txid lib tx) then None else Some (tx, mined))), s)
           | r \<Rightarrow> (Returned r, s)))"

definition store_evidence_tx ::
  "('n, 'c, 'd, 'txid, 'addr, 'tx) enhance_lib \<Rightarrow> 'b enhance_config \<Rightarrow> 'tx \<Rightarrow> u32 option
     \<Rightarrow> (('n, 'c, 'd, 'txid, 'addr) enhancer, string + unit) act" where
  "store_evidence_tx lib cfg tx mined =
     act_try (\<lambda>s. case el_store_tx lib tx mined (eh_db s) of (r, d) \<Rightarrow> (r, set_eh_db d s))
       (\<lambda>_ s. (Returned (Inr ()), snd (record_tx_transparent_receives lib cfg tx mined s)))"

fun store_tx_evidence ::
  "('n, 'c, 'd, 'txid, 'addr, 'tx) enhance_lib \<Rightarrow> 'b enhance_config \<Rightarrow> u32 \<Rightarrow> 'txid tx_evidence list
     \<Rightarrow> (('n, 'c, 'd, 'txid, 'addr) enhancer, string + unit) act" where
  "store_tx_evidence lib cfg tip [] = act_return (Inr ())"
| "store_tx_evidence lib cfg tip (item # items) =
     act_bind (read_shutdown lib) (\<lambda>stop.
       if stop then act_return (Inl ''shutdown during address check'')
       else act_try (evidence_tx lib cfg tip item) (\<lambda>found.
         case found of
           None \<Rightarrow> store_tx_evidence lib cfg tip items
         | Some (tx, mined) \<Rightarrow> act_try (store_evidence_tx lib cfg tx mined) (\<lambda>_. store_tx_evidence lib cfg tip items)))"

definition service_address_request ::
  "('n, 'c, 'd, 'txid, 'addr, 'tx) enhance_lib \<Rightarrow> 'b enhance_config \<Rightarrow> 'addr address_request \<Rightarrow> u32
     \<Rightarrow> (('n, 'c, 'd, 'txid, 'addr) enhancer, string + unit) act" where
  "service_address_request lib cfg addr_req tip =
     (case tia_check_range (ar_block_range_start addr_req) tip of
        None \<Rightarrow> act_return (Inr ())
      | Some (start, as_of) \<Rightarrow>
          act_try (fetch_transparent_tx_evidence lib cfg [el_encode lib (ar_address addr_req)] start as_of) (\<lambda>evidence.
          act_try (store_tx_evidence lib cfg tip evidence) (\<lambda>_ s.
            case el_address_checked lib (addr_req\<lparr>ar_block_range_end := Some (as_of + 1)\<rparr>) as_of (eh_db s) of
              (r, d) \<Rightarrow> (Returned r, set_eh_db d s))))"

section \<open>One pass\<close>

definition txid_requests :: "('txid, 'addr) enhance_request list \<Rightarrow> ('txid, 'addr) txid_request list" where
  "txid_requests reqs = List.map_filter (\<lambda>req. case req of
      GetStatus txid \<Rightarrow> Some \<lparr>tr_req = req, tr_txid = txid, tr_enhance = False\<rparr>
    | Enhancement txid \<Rightarrow> Some \<lparr>tr_req = req, tr_txid = txid, tr_enhance = True\<rparr>
    | TransactionsInvolvingAddress _ \<Rightarrow> None) reqs"

definition address_requests ::
  "('txid, 'addr) enhance_request list \<Rightarrow> (('txid, 'addr) enhance_request \<times> 'addr address_request) list" where
  "address_requests reqs = List.map_filter (\<lambda>req. case req of
      TransactionsInvolvingAddress a \<Rightarrow> Some (req, a) | _ \<Rightarrow> None) reqs"

text \<open>The answers up to the first failure.\<close>

fun answered :: "('a \<times> ('e + 'b)) list \<Rightarrow> ('a \<times> 'b) list \<times> bool" where
  "answered [] = ([], False)"
| "answered ((a, Inr b) # rest) = (case answered rest of (xs, failed) \<Rightarrow> ((a, b) # xs, failed))"
| "answered ((a, Inl e) # rest) = ([], True)"

definition attempted ::
  "('txid, 'addr) enhance_request list \<Rightarrow> ('n, 'c, 'd, 'txid, 'addr) enhancer \<Rightarrow> ('n, 'c, 'd, 'txid, 'addr) enhancer" where
  "attempted reqs s = s\<lparr>eh_satisfied := eh_satisfied s \<union> set reqs\<rparr>"

text \<open>The requests that name a transaction: how many were handled, and whether the pass is over.\<close>

definition service_txids ::
  "('n, 'c, 'd, 'txid, 'addr, 'tx) enhance_lib \<Rightarrow> u32 \<Rightarrow> ('txid, 'addr) txid_request list
     \<Rightarrow> (('n, 'c, 'd, 'txid, 'addr) enhancer, nat \<times> bool) act" where
  "service_txids lib tip reqs s =
     (if reqs = [] then (Returned (0, False), s)
      else let (fetched, net) = fetch_txs_concurrent lib tip (map tr_txid reqs) (lk_net (eh_link s));
               (to_apply, failed) = answered (zip reqs fetched)
           in act_bind (apply_fetched_requests lib to_apply) (\<lambda>applied s.
                let (handled, aborted, s) = (case applied of
                      Inr _ \<Rightarrow> (length to_apply, False, attempted (map (tr_req \<circ> fst) to_apply) s)
                    | Inl _ \<Rightarrow> (0, True, s))
                in if failed then (Returned (handled, True), drop_upstream lib s)
                   else (Returned (handled, aborted), s))
              (set_eh_net net s))"

text \<open>The address searches, one at a time; nothing stands for a shutdown, which ends the pass at once.\<close>

fun service_addresses ::
  "('n, 'c, 'd, 'txid, 'addr, 'tx) enhance_lib \<Rightarrow> 'b enhance_config \<Rightarrow> u32
     \<Rightarrow> (('txid, 'addr) enhance_request \<times> 'addr address_request) list \<Rightarrow> nat
     \<Rightarrow> (('n, 'c, 'd, 'txid, 'addr) enhancer, (nat \<times> bool) option) act" where
  "service_addresses lib cfg tip [] handled = act_return (Some (handled, False))"
| "service_addresses lib cfg tip ((req, addr_req) # rest) handled =
     act_bind (read_shutdown lib) (\<lambda>stop.
       if stop then act_return None
       else act_bind (service_address_request lib cfg addr_req tip) (\<lambda>r.
         case r of
           Inl _ \<Rightarrow> act_return (Some (handled, True))
         | Inr _ \<Rightarrow> act_bind (act_modify (attempted [req])) (\<lambda>_. service_addresses lib cfg tip rest (Suc handled))))"

text \<open>The end of a pass: the totals, what is published, and whether serviceable requests remain.\<close>

definition finish_pass ::
  "('n, 'c, 'd, 'txid, 'addr, 'tx) enhance_lib \<Rightarrow> 'b enhance_config \<Rightarrow> ('txid, 'addr) enhance_request list \<Rightarrow> nat \<Rightarrow> bool
     \<Rightarrow> (('n, 'c, 'd, 'txid, 'addr) enhancer, bool) act" where
  "finish_pass lib cfg pending handled aborted s =
     (let s = s\<lparr>eh_passes := eh_passes s + 1, eh_serviced := eh_serviced s + of_nat handled\<rparr>
      in if aborted then (Returned False, update_status lib cfg s)
         else let remaining = filter (\<lambda>r. r \<notin> eh_satisfied s) pending
              in (Returned (length pending > handled),
                  if remaining = [] then update_status lib cfg s
                  else update_status_with_backlog lib cfg (summarize_backlog lib (eh_db s) remaining) s))"

definition run_pass ::
  "('n, 'c, 'd, 'txid, 'addr, 'tx) enhance_lib \<Rightarrow> 'b enhance_config \<Rightarrow> u32 \<Rightarrow> ('txid, 'addr) enhance_request list
     \<Rightarrow> (('n, 'c, 'd, 'txid, 'addr) enhancer, bool) act" where
  "run_pass lib cfg tip pending =
     (let pass = take (min (length pending) (max (ec_concurrency cfg) 1)) pending
      in act_bind (read_shutdown lib) (\<lambda>stop.
           if stop then act_return False
           else act_bind (service_txids lib tip (txid_requests pass)) (\<lambda>(handled, aborted).
             if aborted then finish_pass lib cfg pending handled True
             else act_bind (service_addresses lib cfg tip (address_requests pass) handled) (\<lambda>r.
               case r of
                 None \<Rightarrow> act_return False
               | Some (handled, aborted) \<Rightarrow> finish_pass lib cfg pending handled aborted))))"

definition pending_now ::
  "('n, 'c, 'd, 'txid, 'addr, 'tx) enhance_lib \<Rightarrow> 'b enhance_config \<Rightarrow> ('n, 'c, 'd, 'txid, 'addr) enhancer
     \<Rightarrow> string + ('txid, 'addr) enhance_request list" where
  "pending_now lib cfg s =
     sum_bind (enhance_requests lib (eh_db s)) (\<lambda>requests.
       Inr (outstanding_requests requests (eh_satisfied s) (ec_fetch_memos cfg) (spending_txids lib cfg (eh_db s))))"

definition enhance_step ::
  "('n, 'c, 'd, 'txid, 'addr, 'tx) enhance_lib \<Rightarrow> 'b enhance_config \<Rightarrow> (('n, 'c, 'd, 'txid, 'addr) enhancer, bool) act" where
  "enhance_step lib cfg s =
     (case lk_tip_height (eh_link s) of
        None \<Rightarrow> (Returned False, s)
      | Some tip \<Rightarrow>
          (case lk_client (eh_link s) of
             None \<Rightarrow> (Returned False, s)
           | Some _ \<Rightarrow>
               (case pending_now lib cfg s of
                  Inl _ \<Rightarrow> (Returned False, s)
                | Inr pending \<Rightarrow> run_pass lib cfg tip pending s)))"

definition enhance_step_caught ::
  "('n, 'c, 'd, 'txid, 'addr, 'tx) enhance_lib \<Rightarrow> 'b enhance_config \<Rightarrow> (('n, 'c, 'd, 'txid, 'addr) enhancer, bool) act" where
  "enhance_step_caught lib cfg s =
     (case enhance_step lib cfg s of (Panicked, s) \<Rightarrow> (Returned False, s) | r \<Rightarrow> r)"

section \<open>What the filter keeps\<close>

lemma outstanding_loop_eq:
  "outstanding_loop rs sat fm sp seen =
     filter (\<lambda>r. r \<notin> seen) (rev (remdups (rev (filter (\<lambda>r. request_in_scope r fm sp \<and> r \<notin> sat) rs))))"
proof (induction rs arbitrary: seen)
  case (Cons r rs)
  let ?F = "\<lambda>r. request_in_scope r fm sp \<and> r \<notin> sat"
  have keep: "rev (remdups (rev ys @ [r])) = r # filter (\<lambda>x. x \<noteq> r) (rev (remdups (rev ys)))" for ys
    by (induction ys rule: rev_induct) auto
  show ?case
    by (cases "?F r") (auto simp: Cons.IH keep conj_commute intro!: filter_cong)
qed simp

text \<open>
  The outstanding requests are the first occurrences, in the order they were read, of exactly the requests that are in
  scope and not yet attempted.
\<close>

theorem outstanding_requests_exact:
  "outstanding_requests rs sat fm sp =
     rev (remdups (rev (filter (\<lambda>r. request_in_scope r fm sp \<and> r \<notin> sat) rs)))"
  by (simp add: outstanding_requests_def outstanding_loop_eq)

lemma distinct_outstanding [simp]: "distinct (outstanding_requests rs sat fm sp)"
  by (simp add: outstanding_requests_def outstanding_loop_eq)

lemma set_outstanding [simp]:
  "set (outstanding_requests rs sat fm sp) = {r \<in> set rs. request_in_scope r fm sp \<and> r \<notin> sat}"
  by (auto simp: outstanding_requests_def outstanding_loop_eq)

lemma length_outstanding: "length (outstanding_requests rs sat fm sp) \<le> length rs"
  by (simp add: outstanding_requests_def outstanding_loop_eq)
    (metis (no_types, lifting) length_filter_le length_remdups_leq length_rev le_trans)

lemma pending_now_Inr:
  "pending_now lib cfg s = Inr pending \<longleftrightarrow>
     (\<exists>reqs. enhance_requests lib (eh_db s) = Inr reqs \<and>
        pending = outstanding_requests reqs (eh_satisfied s) (ec_fetch_memos cfg) (spending_txids lib cfg (eh_db s)))"
  by (auto simp: pending_now_def sum_bind_Inr)

section \<open>What a pass attempts\<close>

lemma link_setters [simp]:
  "eh_satisfied (set_eh_db d s) = eh_satisfied s" "eh_satisfied (set_eh_net n s) = eh_satisfied s"
  "eh_satisfied (drop_upstream lib s) = eh_satisfied s"
  "eh_satisfied (update_status_inner lib cfg k s) = eh_satisfied s"
  "eh_satisfied (update_status lib cfg s) = eh_satisfied s"
  "eh_satisfied (update_status_with_backlog lib cfg b s) = eh_satisfied s"
  by (simp_all add: set_eh_db_def set_eh_net_def drop_upstream_def update_status_def update_status_with_backlog_def
      update_status_inner_def Let_def split: prod.split)

lemma eh_db_setters [simp]:
  "eh_db (set_eh_db d s) = d" "eh_db (set_eh_net n s) = eh_db s" "eh_db (drop_upstream lib s) = eh_db s"
  "eh_db (attempted reqs s) = eh_db s" "eh_db (update_status_inner lib cfg k s) = eh_db s"
  "eh_db (update_status lib cfg s) = eh_db s"
  by (simp_all add: eh_db_def set_eh_db_def set_eh_net_def drop_upstream_def attempted_def mark_disconnected_def
      update_status_def update_status_inner_def Let_def split: prod.split)

lemma eh_satisfied_attempted [simp]: "eh_satisfied (attempted reqs s) = eh_satisfied s \<union> set reqs"
  by (simp add: attempted_def)

lemma client_call_keeps [act_intros]: "act_keeps eh_satisfied (client_call lib cfg call failed)"
  unfolding client_call_def
  by (rule act_intros) (auto simp: act_keeps_def split: option.split sum.split prod.split)

lemma fetch_keeps [act_intros]:
  "act_keeps eh_satisfied (fetch_full_tx lib cfg txid tip)"
  "act_keeps eh_satisfied (fetch_transparent_tx_evidence lib cfg as a b)"
  unfolding fetch_full_tx_def fetch_tx_from_upstream_def fetch_transparent_tx_evidence_def by (intro act_intros)+

lemma read_shutdown_keeps [act_intros]: "act_keeps eh_satisfied (read_shutdown lib)"
  by (simp add: act_keeps_def read_shutdown_def split: prod.split)

lemma receives_keep [simp]: "eh_satisfied (snd (record_tx_transparent_receives lib cfg tx h s)) = eh_satisfied s"
  by (simp add: record_tx_transparent_receives_def Let_def split: option.split prod.split)

lemma store_evidence_keeps [act_intros]: "act_keeps eh_satisfied (store_evidence_tx lib cfg tx mined)"
  unfolding store_evidence_tx_def by (rule act_intros) (auto simp: act_keeps_def split: prod.split)

lemma evidence_tx_keeps [act_intros]: "act_keeps eh_satisfied (evidence_tx lib cfg tip item)"
proof (cases item)
  case (EvidenceTxid txid)
  then show ?thesis
    using fetch_keeps(1) [of lib cfg txid tip] by (auto simp: act_keeps_def evidence_tx_def)
qed (auto simp: act_keeps_def evidence_tx_def split: sum.split option.split)

lemma store_tx_evidence_keeps [act_intros]: "act_keeps eh_satisfied (store_tx_evidence lib cfg tip items)"
proof (induction items)
  case (Cons item items)
  then show ?case
    by (auto intro!: act_intros split: option.split)
qed (simp only: store_tx_evidence.simps act_keeps_return)

lemma service_address_keeps [act_intros]: "act_keeps eh_satisfied (service_address_request lib cfg a tip)"
proof -
  have "act_keeps eh_satisfied (\<lambda>s. case el_address_checked lib b h (eh_db s) of (r, d) \<Rightarrow> (Returned r, set_eh_db d s))" for b h
    by (simp add: act_keeps_def split: prod.split)
  then show ?thesis
    unfolding service_address_request_def by (auto intro!: act_intros split: option.split)
qed

lemma apply_fetched_keeps [act_intros]: "act_keeps eh_satisfied (apply_fetched_requests lib fetched)"
  by (simp add: act_keeps_def apply_fetched_requests_def split: prod.split)

lemma finish_pass_keeps [act_intros]: "act_keeps eh_satisfied (finish_pass lib cfg pending handled aborted)"
  by (simp add: act_keeps_def finish_pass_def Let_def)

lemma answered_all: "answered xs = (ys, False) \<Longrightarrow> map fst ys = map fst xs"
  by (induction xs arbitrary: ys rule: answered.induct) (auto split: prod.splits)

lemma service_txids_attempts:
  assumes "service_txids lib tip reqs s = (Returned (handled, False), s')"
  shows "handled = length reqs \<and> eh_satisfied s' = eh_satisfied s \<union> set (map tr_req reqs)"
proof (cases "reqs = []")
  case False
  define fetched net where "fetched = fst (fetch_txs_concurrent lib tip (map tr_txid reqs) (lk_net (eh_link s)))"
    and "net = snd (fetch_txs_concurrent lib tip (map tr_txid reqs) (lk_net (eh_link s)))"
  obtain ys failed where ans: "answered (zip reqs fetched) = (ys, failed)" by fastforce
  have len: "length fetched = length reqs"
    by (simp add: fetched_def fetch_txs_concurrent_def)
  from assms False ans obtain s1 where run: "apply_fetched_requests lib ys (set_eh_net net s) = (Returned (Inr ()), s1)"
    and nf: "\<not> failed" and h: "handled = length ys" and s': "s' = attempted (map (tr_req \<circ> fst) ys) s1"
    by (auto simp: service_txids_def fetched_def net_def act_bind_Returned Let_def split: prod.splits if_splits sum.splits)
  have "map fst ys = reqs"
    using answered_all [of "zip reqs fetched" ys] ans nf len by simp
  then have "map (tr_req \<circ> fst) ys = map tr_req reqs" "length ys = length reqs"
    by (metis map_map, metis length_map)
  then show ?thesis
    using h s' act_keepsD [OF apply_fetched_keeps run] by (simp del: map_map)
qed (use assms in \<open>simp add: service_txids_def\<close>)

lemma service_addresses_attempts:
  "service_addresses lib cfg tip reqs handled s = (Returned (Some (handled', False)), s') \<Longrightarrow>
     handled' = handled + length reqs \<and> eh_satisfied s' = eh_satisfied s \<union> set (map fst reqs)"
proof (induction reqs arbitrary: handled s)
  case (Cons ra reqs)
  obtain req a where ra: "ra = (req, a)" by fastforce
  from Cons.prems obtain stop s1 where r1: "read_shutdown lib s = (Returned stop, s1)"
    and rest: "(if stop then act_return None else act_bind (service_address_request lib cfg a tip) (\<lambda>r. case r of
         Inl _ \<Rightarrow> act_return (Some (handled, True))
       | Inr _ \<Rightarrow> act_bind (act_modify (attempted [req])) (\<lambda>_. service_addresses lib cfg tip reqs (Suc handled)))) s1
       = (Returned (Some (handled', False)), s')"
    unfolding ra service_addresses.simps by (elim act_bindE)
  from rest obtain r s2 where r2: "service_address_request lib cfg a tip s1 = (Returned r, s2)"
    and r3: "(case r of Inl _ \<Rightarrow> act_return (Some (handled, True))
       | Inr _ \<Rightarrow> act_bind (act_modify (attempted [req])) (\<lambda>_. service_addresses lib cfg tip reqs (Suc handled))) s2
       = (Returned (Some (handled', False)), s')"
    by (cases stop) (auto elim!: act_bindE)
  from r3 have r4: "service_addresses lib cfg tip reqs (Suc handled) (attempted [req] s2) = (Returned (Some (handled', False)), s')"
    by (cases r) (auto elim!: act_bindE simp: act_modify_def)
  have "eh_satisfied s2 = eh_satisfied s"
    using act_keepsD [OF read_shutdown_keeps r1] act_keepsD [OF service_address_keeps r2] by simp
  then show ?case
    using Cons.IH [OF r4] by (simp add: ra Un_commute)
qed simp

lemma pass_partition:
  "set (map tr_req (txid_requests pass)) \<union> set (map fst (address_requests pass)) = set pass"
  "length (txid_requests pass) + length (address_requests pass) = length pass"
  by (induction pass)
    (auto simp: txid_requests_def address_requests_def map_filter_simps split: enhance_request.splits)

text \<open>A pass that says more remains attempted the whole of its share, and something was left.\<close>

lemma run_pass_progress:
  assumes run: "run_pass lib cfg tip pending s = (Returned True, s')"
  defines "k \<equiv> max (ec_concurrency cfg) 1"
  shows "k < length pending \<and> eh_satisfied s' = eh_satisfied s \<union> set (take k pending)"
proof -
  define pass where "pass = take (min (length pending) k) pending"
  let ?addresses = "\<lambda>handled. act_bind (service_addresses lib cfg tip (address_requests pass) handled) (\<lambda>r.
      case r of None \<Rightarrow> act_return False | Some (handled, aborted) \<Rightarrow> finish_pass lib cfg pending handled aborted)"
  let ?txids = "act_bind (service_txids lib tip (txid_requests pass)) (\<lambda>(handled, aborted).
      if aborted then finish_pass lib cfg pending handled True else ?addresses handled)"
  have no_abort: "\<not> aborted" if "finish_pass lib cfg pending h aborted t = (Returned True, s')" for h aborted t
    using that by (auto simp: finish_pass_def Let_def split: if_splits)
  obtain stop s1 where r1: "read_shutdown lib s = (Returned stop, s1)"
    and "(if stop then act_return False else ?txids) s1 = (Returned True, s')"
    using run unfolding run_pass_def Let_def pass_def [symmetric] k_def [symmetric] by (elim act_bindE)
  then have "?txids s1 = (Returned True, s')"
    by (cases stop) auto
  then obtain ha s2 where r2': "service_txids lib tip (txid_requests pass) s1 = (Returned ha, s2)"
    and rest: "(case ha of (handled, aborted) \<Rightarrow> if aborted then finish_pass lib cfg pending handled True else ?addresses handled) s2
      = (Returned True, s')"
    by (elim act_bindE)
  obtain h1 where ha: "ha = (h1, False)" and rest2: "?addresses h1 s2 = (Returned True, s')"
    using rest no_abort [where aborted = True] by (cases ha) (auto split: if_splits)
  note r2 = r2' [unfolded ha]
  obtain r s3 where r3': "service_addresses lib cfg tip (address_requests pass) h1 s2 = (Returned r, s3)"
    and rest3: "(case r of None \<Rightarrow> act_return False | Some (handled, aborted) \<Rightarrow> finish_pass lib cfg pending handled aborted) s3
      = (Returned True, s')"
    using rest2 by (elim act_bindE)
  obtain h2 where r: "r = Some (h2, False)" and fin: "finish_pass lib cfg pending h2 False s3 = (Returned True, s')"
    using rest3 no_abort by (cases r) (auto, metis (full_types))
  note r3 = r3' [unfolded r]
  note a1 = service_txids_attempts [OF r2] and a2 = service_addresses_attempts [OF r3]
  have "eh_satisfied s' = eh_satisfied s \<union> set pass"
    using a1 a2 act_keepsD [OF read_shutdown_keeps r1] act_keepsD [OF finish_pass_keeps fin] pass_partition(1) [of pass]
    by auto
  moreover have "h2 = length pass"
    using a1 a2 pass_partition(2) [of pass] by simp
  moreover have "h2 < length pending"
    using fin by (auto simp: finish_pass_def Let_def)
  ultimately show ?thesis
    by (auto simp: pass_def min_def split: if_splits)
qed

lemma enhance_step_progress:
  assumes "enhance_step lib cfg s = (Returned True, s')"
  obtains pending where "pending_now lib cfg s = Inr pending" "max (ec_concurrency cfg) 1 < length pending"
    "eh_satisfied s' = eh_satisfied s \<union> set (take (max (ec_concurrency cfg) 1) pending)"
  using assms run_pass_progress [of lib cfg _ _ s s']
  by (auto simp: enhance_step_def split: option.splits sum.splits)

section \<open>The drain ends\<close>

lemma store_ends: "(\<And>tx m. act_ends (el_store_tx lib tx m)) \<Longrightarrow> act_ends (apply_one lib item)"
  by (cases "snd item") (auto simp: apply_one_def act_ends_def Let_def split: prod.split)

lemma apply_all_ends:
  assumes "\<And>tx m. act_ends (el_store_tx lib tx m)"
  shows "act_ends (apply_all lib items)"
proof (induction items)
  case (Cons item items)
  then show ?case
    using store_ends [OF assms] by (simp add: act_intros)
qed (simp only: apply_all.simps act_ends_simple)

lemma client_call_ends [act_intros]: "act_ends (client_call lib cfg call failed)"
  unfolding client_call_def
  by (rule act_intros) (auto simp: act_ends_def split: option.split sum.split prod.split)

lemma fetch_full_tx_ends [act_intros]: "act_ends (fetch_full_tx lib cfg txid tip)"
  unfolding fetch_full_tx_def fetch_tx_from_upstream_def by (intro act_intros)

lemma evidence_tx_ends [act_intros]: "act_ends (evidence_tx lib cfg tip item)"
proof (cases item)
  case (EvidenceTxid txid)
  then show ?thesis
    using fetch_full_tx_ends [of lib cfg txid tip] by (auto simp: act_ends_def evidence_tx_def)
qed (auto simp: act_ends_def evidence_tx_def split: sum.split option.split)

lemma read_shutdown_ends [act_intros]: "act_ends (read_shutdown lib)"
  by (simp add: act_ends_def read_shutdown_def split: prod.split)

lemma store_tx_evidence_ends:
  assumes store: "\<And>tx m. act_ends (el_store_tx lib tx m)"
  shows "act_ends (store_tx_evidence lib cfg tip items)"
proof (induction items)
  case (Cons item items)
  have "act_ends (store_evidence_tx lib cfg tx mined)" for tx mined
    unfolding store_evidence_tx_def
    by (rule act_intros) (use act_endsD [OF store] in \<open>auto simp: act_ends_def split: prod.split\<close>)
  with Cons show ?case
    by (auto intro!: act_intros split: option.split)
qed (simp only: store_tx_evidence.simps act_ends_simple)

lemma service_address_ends:
  assumes store: "\<And>tx m. act_ends (el_store_tx lib tx m)"
  shows "act_ends (service_address_request lib cfg a tip)"
proof -
  have "act_ends (\<lambda>s. case el_address_checked lib b h (eh_db s) of (r, d) \<Rightarrow> (Returned r, set_eh_db d s))" for b h
    by (simp add: act_ends_def split: prod.split)
  moreover have "act_ends (fetch_transparent_tx_evidence lib cfg as x y)" for as x y
    unfolding fetch_transparent_tx_evidence_def by (rule act_intros)
  ultimately show ?thesis
    unfolding service_address_request_def using store_tx_evidence_ends [OF store]
    by (auto intro!: act_intros split: option.split)
qed

lemma service_txids_ends:
  assumes store: "\<And>tx m. act_ends (el_store_tx lib tx m)"
  shows "act_ends (service_txids lib tip reqs)"
proof -
  have "act_ends (apply_fetched_requests lib items)" for items
    using apply_all_ends [OF store, of items]
    by (auto simp: act_ends_def apply_fetched_requests_def transactionally_def split: prod.split outcome.split sum.split)
      (metis fst_conv)
  then show ?thesis
    unfolding act_ends_def service_txids_def
    by (auto simp: act_bind_def Let_def split: prod.split outcome.split sum.split) (metis fst_conv)
qed

lemma service_addresses_ends:
  assumes store: "\<And>tx m. act_ends (el_store_tx lib tx m)"
  shows "act_ends (service_addresses lib cfg tip reqs handled)"
proof (induction reqs arbitrary: handled)
  case (Cons ra reqs)
  then show ?case
    using service_address_ends [OF store] by (cases ra) (auto intro!: act_intros split: sum.split)
qed (simp only: service_addresses.simps act_ends_simple)

lemma enhance_step_ends:
  assumes store: "\<And>tx m. act_ends (el_store_tx lib tx m)"
  shows "act_ends (enhance_step lib cfg)"
proof -
  have "act_ends (finish_pass lib cfg pending h b)" for pending h b
    by (simp add: act_ends_def finish_pass_def Let_def)
  then have "act_ends (run_pass lib cfg tip pending)" for tip pending
    unfolding run_pass_def using service_txids_ends [OF store] service_addresses_ends [OF store]
    by (auto intro!: act_intros simp: Let_def split: prod.split option.split)
  then show ?thesis
    unfolding act_ends_def enhance_step_def by (auto split: option.split sum.split)
qed

text \<open>The drain: passes for as long as one says that more remains.\<close>

fun drain :: "('n, 'c, 'd, 'txid, 'addr, 'tx) enhance_lib \<Rightarrow> 'b enhance_config \<Rightarrow> nat
    \<Rightarrow> ('n, 'c, 'd, 'txid, 'addr) enhancer \<Rightarrow> ('n, 'c, 'd, 'txid, 'addr) enhancer option" where
  "drain lib cfg 0 s = None"
| "drain lib cfg (Suc fuel) s =
     (case enhance_step_caught lib cfg s of
        (Returned again, s) \<Rightarrow> (if again then drain lib cfg fuel s else Some s)
      | (_, s) \<Rightarrow> None)"

text \<open>C20. The enhancement drain ends.  Storing a transaction can queue further requests, but as long as all requests
  the wallet library ever names during the drain come from a finite set, at most as many passes as that set has
  elements (and one more) are made before a pass says that nothing remains: a pass that asks to be repeated has
  attempted new requests.  Panics of the library are allowed, and end the drain.\<close>

theorem enhancement_drain_terminates:
  assumes finite: "finite U"
    and requests: "\<And>d reqs. enhance_requests lib d = Inr reqs \<Longrightarrow> set reqs \<subseteq> U"
    and store: "\<And>tx m. act_ends (el_store_tx lib tx m)"
  shows "\<exists>s'. drain lib cfg (Suc (card (U - eh_satisfied s))) s = Some s'"
proof (induction "card (U - eh_satisfied s)" arbitrary: s rule: less_induct)
  case less
  obtain r t where step: "enhance_step lib cfg s = (r, t)" by fastforce
  show ?case
  proof (cases "r = Returned True")
    case True
    with step obtain pending where pending: "pending_now lib cfg s = Inr pending" and len: "max (ec_concurrency cfg) 1 < length pending"
      and sat: "eh_satisfied t = eh_satisfied s \<union> set (take (max (ec_concurrency cfg) 1) pending)"
      by (auto elim: enhance_step_progress)
    obtain x xs where x: "pending = x # xs"
      using len by (cases pending) auto
    have "x \<in> U - eh_satisfied s"
      using pending x requests by (fastforce simp: pending_now_Inr dest: arg_cong [where f = set])
    moreover have "x \<in> eh_satisfied t"
      using sat x by (simp add: take_Cons')
    ultimately have smaller: "card (U - eh_satisfied t) < card (U - eh_satisfied s)"
      using sat finite by (intro psubset_card_mono) auto
    have more: "drain lib cfg m u = Some v \<Longrightarrow> m \<le> n \<Longrightarrow> drain lib cfg n u = Some v" for m n u v
    proof (induction m arbitrary: n u)
      case (Suc m)
      then show ?case by (cases n) (auto split: prod.splits outcome.splits if_splits)
    qed simp
    obtain s' where "drain lib cfg (Suc (card (U - eh_satisfied t))) t = Some s'"
      using less(1) [OF smaller] by blast
    then have "drain lib cfg (card (U - eh_satisfied s)) t = Some s'"
      using more smaller by (metis Suc_leI)
    then show ?thesis
      using True step by (simp add: enhance_step_caught_def)
  next
    case False
    moreover have "r \<noteq> Diverged"
      using act_endsD [OF enhance_step_ends [OF store]] step by metis
    ultimately show ?thesis
      by (cases r) (simp_all add: enhance_step_caught_def step)
  qed
qed

section \<open>What is published\<close>

lemma fold_min_le: "fold min hs h \<le> h \<and> (\<forall>x \<in> set hs. fold min hs h \<le> x)" for h :: u32
proof (induction hs arbitrary: h)
  case (Cons x hs)
  have "fold min hs (min x h) \<le> min x h" "\<forall>y \<in> set hs. fold min hs (min x h) \<le> y"
    using Cons by blast+
  then show ?case
    by (auto intro: order_trans)
qed simp

lemma list_min_le: "x \<in> set hs \<Longrightarrow> \<exists>m. list_min hs = Some m \<and> m \<le> x"
  using fold_min_le by (cases hs) (auto simp: list_min_def)

lemma set_map_filter: "set (List.map_filter f xs) = {y. \<exists>x \<in> set xs. f x = Some y}"
  by (induction xs) (auto simp: map_filter_simps split: option.splits)

lemma enhanced_through_le: "enhanced_through scanned lowest \<le> scanned"
  by (auto simp: enhanced_through_def split: option.split)

lemma enhanced_through_below:
  assumes "lowest = Some m" "m \<le> h"
  shows "unat (enhanced_through scanned lowest) \<le> unat h - 1"
proof -
  have "unat (min scanned (saturating_sub m 1)) \<le> unat m - 1"
    by (metis min.cobounded2 unat_saturating_sub unsigned_1 word_le_nat_alt)
  then show ?thesis
    using assms by (simp add: enhanced_through_def word_le_nat_alt)
qed

text \<open>The summary of a backlog: its size, and a height no pending request of known height is below.\<close>

lemma summarize_backlog_lowest:
  assumes "r \<in> set pending" "enhancement_request_height lib d r = Some h"
  shows "\<exists>m. snd (summarize_backlog lib d pending) = Some m \<and> m \<le> h"
proof -
  have "h \<in> set (List.map_filter (enhancement_request_height lib d) pending)"
    using assms by (auto simp: set_map_filter)
  then show ?thesis
    using assms(1) list_min_le by (auto simp: summarize_backlog_def Let_def)
qed

lemma summarize_backlog_count:
  assumes "length pending < 2 ^ 64"
  shows "fst (summarize_backlog lib d pending) = 0 \<longleftrightarrow> pending = []"
proof -
  have "(of_nat (length pending) :: u64) = 0 \<longleftrightarrow> length pending = 0"
    using assms by (simp add: unat_eq_zero [symmetric] unat_of_nat del: unat_eq_zero)
  then show ?thesis
    by (auto simp: summarize_backlog_def Let_def)
qed


text \<open>When the requests cannot be read, a scanned and connected wallet is published as ready with nothing pending and
  a watermark of zero.\<close>

theorem failed_read_published_ready:
  assumes "enhance_requests lib (eh_db s) = Inl e"
    and "lk_client (eh_link s) = Some c" "lk_tip_height (eh_link s) = Some tip"
    and "el_block_fully_scanned lib (eh_db s) = Inr (Some scanned)" "tip \<le> scanned" "ec_fetch_memos cfg"
  shows "\<exists>st. eh_status (update_status lib cfg s) = Some st \<and> st_conn_state st = Ready \<and>
    st_pending_enhancements st = 0 \<and> st_enhanced_through st = Some 0"
proof -
  have "\<not> scanned < tip"
    using assms(5) by simp
  then show ?thesis
    using assms
    by (simp add: update_status_def update_status_inner_def enhancement_backlog_def Let_def enhanced_through_def
        saturating_sub_def)
qed

section \<open>A request that cannot be served\<close>

text \<open>A transaction that the upstream serves but this build cannot parse, or any other failed answer, at the head of
  the queue stops the drain: the pass applies nothing, attempts nothing, and drops the connection, so the next pass
  starts at the same request.\<close>

theorem failed_head_blocks_drain:
  assumes state: "lk_tip_height (eh_link s) = Some tip" "lk_client (eh_link s) = Some c"
    and pending: "pending_now lib cfg s = Inr (Enhancement txid # rest)"
    and running: "el_shutdown lib (lk_net (eh_link s)) = (False, net)"
    and failed: "fetch_one lib tip net (0, txid) = Inl e"
  shows "\<exists>s'. enhance_step lib cfg s = (Returned False, s') \<and> eh_db s' = eh_db s \<and>
    eh_satisfied s' = eh_satisfied s \<and> lk_client (eh_link s') = None"
proof -
  define s1 where "s1 = set_eh_net net s"
  define pass where "pass = take (min (length (Enhancement txid # rest)) (max (ec_concurrency cfg) 1)) (Enhancement txid # rest)"
  have "max (ec_concurrency cfg) 1 \<noteq> 0" by simp
  then obtain k where "min (length (Enhancement txid # rest)) (max (ec_concurrency cfg) 1) = Suc k"
    by (metis Suc_diff_1 length_Cons min_less_iff_conj not_gr_zero zero_less_Suc)
  then obtain more_reqs where reqs: "txid_requests pass =
      \<lparr>tr_req = Enhancement txid, tr_txid = txid, tr_enhance = True\<rparr> # more_reqs"
    by (simp add: pass_def txid_requests_def map_filter_simps)
  have net1: "lk_net (eh_link s1) = net"
    by (simp add: s1_def set_eh_net_def)
  define t where "t = drop_upstream lib (attempted [] (set_eh_net (el_settle lib (map tr_txid (txid_requests pass)) net) s1))"
  have txids: "service_txids lib tip (txid_requests pass) s1 = (Returned (0, True), t)"
    by (simp add: service_txids_def reqs fetch_txs_concurrent_def net1 failed apply_fetched_requests_def t_def)
  have "read_shutdown lib s = (Returned False, s1)"
    by (simp add: read_shutdown_def running s1_def)
  then have run: "run_pass lib cfg tip (Enhancement txid # rest) s = finish_pass lib cfg (Enhancement txid # rest) 0 True t"
    unfolding run_pass_def Let_def pass_def [symmetric] using txids by (simp add: act_bind_def)
  then show ?thesis
    using state pending
    by (simp add: enhance_step_def finish_pass_def t_def s1_def eh_db_def update_status_def update_status_inner_def
        drop_upstream_def mark_disconnected_def attempted_def set_eh_net_def Let_def split: prod.split)
qed

section \<open>A wallet for the witnesses\<close>

text \<open>
  A database that lists the transactions whose data is missing, each mined at the height of its number.  Storing
  transaction 30 discovers transaction 10; transaction 66 is served with bytes that do not parse.
\<close>

definition sample_enhance_lib :: "(unit, unit, nat list, nat, nat, nat) enhance_lib" where
  "sample_enhance_lib = \<lparr>el_api = sample_api, el_clock = (\<lambda>_. 0), el_draw = (\<lambda>_ c. c), el_shutdown = (\<lambda>n. (False, n)),
     el_status_work = (\<lambda>_. Inr []),
     el_enhancement_work = (\<lambda>d. Inr (map Public (filter (\<lambda>t. t = 10 \<or> t = 30 \<or> t = 40 \<or> t = 66) d))),
     el_data_requests = (\<lambda>_. Inr []), el_spending_txids = (\<lambda>_. Inr {}), el_tx_height = (\<lambda>_ t. Inr (Some (of_nat t))),
     el_block_fully_scanned = (\<lambda>_. Inr (Some 50)),
     el_store_tx = (\<lambda>tx _ d. (Returned (Inr ()), (if tx = 30 then [10] else []) @ filter (\<lambda>t. t \<noteq> tx) d)),
     el_not_found = (\<lambda>t d. (Inr (), filter (\<lambda>u. u \<noteq> t) d)), el_set_status = (\<lambda>_ _ d. (Inr (), d)),
     el_address_checked = (\<lambda>_ _ d. (Inr (), d)), el_put_utxo = (\<lambda>_ d. (True, d)), el_address_for_index = (\<lambda>_ d. (True, d)),
     el_read_tx = (\<lambda>bytes _. case bytes of [b] \<Rightarrow> Inr (unat b) | _ \<Rightarrow> Inl ''unexpected end''), el_txid = (\<lambda>tx. tx),
     el_vout = (\<lambda>_. None), el_crate = \<lparr>zatoshis_valid = (\<lambda>_. True), recipient_of = (\<lambda>_. None)\<rparr>, el_encode = (\<lambda>_. []),
     el_handle = (\<lambda>_ _. Inr ()),
     el_fetch = (\<lambda>_ _ t. Some (Inr (Some \<lparr>ft_data = (if t = 66 then [] else [of_nat t]), ft_mined_height = Some (of_nat t)\<rparr>))),
     el_settle = (\<lambda>_ n. n), el_fetch_tx = (\<lambda>_ _ n. (Some (Inr None), n)), el_tx_evidence = (\<lambda>_ _ _ _ n. (Some (Inr []), n))\<rparr>"

definition sample_enhance_config :: "unit enhance_config" where
  "sample_enhance_config = \<lparr>ec_link = sample_link_config, ec_fetch_memos = True, ec_concurrency = 1\<rparr>"

definition sample_enhancer :: "nat list \<Rightarrow> (unit, unit, nat list, nat, nat) enhancer" where
  "sample_enhancer d = \<lparr>eh_link = \<lparr>lk_net = (), lk_db = d, lk_client = Some (), lk_mempool_open = False, lk_roots_synced = True,
       lk_unsupported = [], lk_branch_checked_at = Some 50, lk_tip_height = Some 50, lk_tip_hash = None, lk_refusal = None,
       lk_backoff = backoff_new 1000000000 60000000000, lk_reconnect_at = 0, lk_connected_logged = True,
       lk_last_sync_error = None, lk_sync_error_streak = 0, lk_sync_halted = False\<rparr>,
     eh_satisfied = {}, eh_scripts = None, eh_set_dirty = False, eh_unspent_dirty = False, eh_passes = 0, eh_serviced = 0,
     eh_status = None\<rparr>"

lemmas sample_enhance_defs = sample_enhance_lib_def sample_enhance_config_def sample_enhancer_def

lemmas pass_defs = enhance_step_def pending_now_def run_pass_def read_shutdown_def service_txids_def fetch_txs_concurrent_def
  fetch_one_def parse_fetched_def apply_fetched_requests_def transactionally_def apply_one_def finish_pass_def
  txid_requests_def address_requests_def attempted_def outstanding_requests_def request_in_scope_def is_serviceable_request_def
  enhance_requests_def public_txids_def spending_txids_def summarize_backlog_def ENHANCED_THROUGH_MAX_PROBE_def
  enhancement_request_height_def list_min_def update_status_def update_status_with_backlog_def update_status_inner_def
  enhancement_backlog_def enhanced_through_def eh_db_def set_eh_db_def set_eh_net_def

text \<open>A pass that leaves requests publishes from what it read before it stored anything, so a request that its own
  stores discovered at a lower height is not counted: after enhancing transaction 30 with 40 still pending, the
  watermark claims that history is complete through height 39 while transaction 10, at height 10, is outstanding.\<close>

theorem watermark_overshoots_discovered_work:
  "\<exists>s' st pending.
     enhance_step sample_enhance_lib sample_enhance_config (sample_enhancer [30, 40]) = (Returned True, s') \<and>
     eh_status s' = Some st \<and> st_enhanced_through st = Some 39 \<and>
     pending_now sample_enhance_lib sample_enhance_config s' = Inr pending \<and> Enhancement 10 \<in> set pending \<and>
     enhancement_request_height sample_enhance_lib (eh_db s') (Enhancement 10) = Some 10"
  by (simp add: pass_defs sample_enhance_defs act_bind_def act_try_def map_filter_simps Let_def saturating_sub_def
      List.enumerate_simps)

lemma sample_enhance_requests:
  "enhance_requests sample_enhance_lib d = Inr reqs \<Longrightarrow> set reqs \<subseteq> Enhancement ` {10, 30, 40, 66}"
  by (auto simp: enhance_requests_def public_txids_def sample_enhance_defs List.map_filter_def)

theorem enhancement_drain_terminates_witness:
  "\<exists>s'. drain sample_enhance_lib sample_enhance_config
     (Suc (card (Enhancement ` {10, 30, 40, 66} - eh_satisfied (sample_enhancer [30, 40])))) (sample_enhancer [30, 40]) = Some s'"
  by (rule enhancement_drain_terminates [where U = "Enhancement ` {10, 30, 40, 66}"])
    (simp, erule sample_enhance_requests, simp add: act_ends_def sample_enhance_lib_def)

lemma sample_pending: "pending_now sample_enhance_lib sample_enhance_config (sample_enhancer [66, 40]) = Inr [Enhancement 66, Enhancement 40]"
  by (simp add: pass_defs sample_enhance_defs map_filter_simps)

theorem failed_head_blocks_drain_witness:
  "\<exists>s'. enhance_step sample_enhance_lib sample_enhance_config (sample_enhancer [66, 40]) = (Returned False, s') \<and>
     eh_db s' = eh_db (sample_enhancer [66, 40]) \<and> eh_satisfied s' = eh_satisfied (sample_enhancer [66, 40]) \<and>
     lk_client (eh_link s') = None"
  by (rule failed_head_blocks_drain [OF _ _ sample_pending])
    (simp_all add: sample_enhance_defs fetch_one_def parse_fetched_def)


theorem failed_read_published_ready_witness:
  "\<exists>st. eh_status (update_status (sample_enhance_lib\<lparr>el_status_work := \<lambda>_. Inl ''locked''\<rparr>) sample_enhance_config (sample_enhancer [40])) = Some st \<and>
     st_conn_state st = Ready \<and> st_pending_enhancements st = 0 \<and> st_enhanced_through st = Some 0"
  by (rule failed_read_published_ready [where e = "''locked''" and c = "()" and tip = 50 and scanned = 50])
    (simp_all add: sample_enhance_defs enhance_requests_def eh_db_def)

end
