(* ===== verification/Wallet_History.thy ===== *)
theory Wallet_History
  imports Amount Address Json_Rpc "HOL-Library.List_Lexorder" "HOL-Library.Char_ord"
begin

text \<open>
  The history methods of \<open>src/rpc/wallet_methods.rs\<close>: the entries of a wallet transaction, paging over the history,
  polling with \<open>listsinceblock\<close>, the received-by totals and the unspent notes.  The SQL queries of
  \<open>src/wallet/read.rs\<close> are parameters.  An object built by \<open>json!\<close> is the list of its members in the order the code
  inserts them.
\<close>

section \<open>Rows\<close>

definition EXTERNAL_KEY_SCOPE :: int where "EXTERNAL_KEY_SCOPE = 0"

record tx_output_record =
  or_pool :: int
  or_output_index :: u32
  or_from_account :: "nat option"
  or_to_account :: "nat option"
  or_to_address :: "string option"
  or_value :: int
  or_is_change :: bool
  or_recipient_key_scope :: "int option"
  or_memo :: "u8 list option"
  or_diversifier_index :: "nat option"

definition is_internal_change :: "tx_output_record \<Rightarrow> bool" where
  "is_internal_change out =
     (case or_recipient_key_scope out of
        Some scope \<Rightarrow> scope \<noteq> EXTERNAL_KEY_SCOPE
      | None \<Rightarrow> or_is_change out)"

record tx_record =
  tx_mined_height :: "u32 option"
  tx_txid_hex :: string
  tx_expiry_height :: "u32 option"
  tx_account_balance_delta :: int
  tx_fee_paid :: "u64 option"
  tx_block_time :: "int option"
  tx_expired_unmined :: bool
  tx_tx_index :: "u32 option"
  tx_block_hash :: "string option"
  tx_created_time :: "int option"
  tx_outputs :: "tx_output_record list"
  tx_raw :: "u8 list option"

record unspent_note =
  un_txid :: string
  un_vout :: u32
  un_value :: u64
  un_mined_height :: "u32 option"
  un_trusted :: bool
  un_address :: "string option"
  un_pool :: int
  un_generated :: bool

record tx_query =
  q_start_height :: "u32 option"
  q_end_height :: "u32 option"
  q_limit :: "u32 option"
  q_newest_first :: bool
  q_omit_memos :: bool

datatype memo = MemoEmpty | MemoText string | MemoOther

text \<open>
  What a handler sees of a wallet: its published scan height, the first-seen times, the address codec, the JSON and
  memo readers, and the queries of the read-only database.
\<close>

datatype ua_receivers = ReceiversFine | Inconsistent string

record ('o, 's, 'z) wallet_view =
  wv_codec :: "('o, 's, 'z) address_codec"
  wv_from_str :: "string \<Rightarrow> json option"
  wv_memo :: "u8 list \<Rightarrow> memo option"
  wv_fully_scanned :: "u32 option"
  wv_first_seen :: "string \<Rightarrow> int option"
  wv_fetch_memos :: bool
  wv_default_receivers :: receiver_set
  wv_query_transactions :: "tx_query \<Rightarrow> rpc_error + tx_record list"
  wv_received_tx_records :: "string list option \<Rightarrow> rpc_error + tx_record list"
  wv_recorded_encodings :: "string \<Rightarrow> string list"
  wv_all_addresses :: "string list"
  wv_is_mine :: "string \<Rightarrow> bool"
  wv_classify :: "string \<Rightarrow> ua_receivers"
  wv_block_height_by_hash :: "string \<Rightarrow> rpc_error + u32 option"
  wv_block_info_at :: "u32 \<Rightarrow> string option"
  wv_first_scanned_block :: "string option"
  wv_list_unspent :: "rpc_error + unspent_note list"

definition txid_internal :: "string \<Rightarrow> u8 list option" where
  "txid_internal display_hex =
     (case hex_decode display_hex of
        Some b \<Rightarrow> if length b \<noteq> 32 then None else Some (rev b)
      | None \<Rightarrow> None)"

definition is_block_hash_wellformed :: "string \<Rightarrow> bool" where
  "is_block_hash_wellformed display_hash \<longleftrightarrow> txid_internal display_hash \<noteq> None"

section \<open>Reading parameters\<close>

definition parse_i64 :: "string \<Rightarrow> int option" where
  "parse_i64 s =
     (case s of
        c # t \<Rightarrow>
          if c = CHR ''-'' then
            (if t \<noteq> [] \<and> all_digits t \<and> digits_value t \<le> 2 ^ 63 then Some (- digits_value t) else None)
          else map_option int (parse_unsigned (2 ^ 63 - 1) s)
      | [] \<Rightarrow> None)"

definition as_i64 :: "json \<Rightarrow> int option" where
  "as_i64 v = (case v of Number s \<Rightarrow> parse_i64 s | _ \<Rightarrow> None)"

definition as_bool :: "json \<Rightarrow> bool option" where
  "as_bool v = (case v of Bool b \<Rightarrow> Some b | _ \<Rightarrow> None)"

text \<open>A parameter that is present and not null.\<close>

definition given :: "rpc_request \<Rightarrow> nat \<Rightarrow> json option" where
  "given req i = (case param req i of Some Null \<Rightarrow> None | v \<Rightarrow> v)"

definition height_param :: "rpc_request \<Rightarrow> nat \<Rightarrow> string \<Rightarrow> rpc_error + u32 option" where
  "height_param req i name =
     (case given req i of
        None \<Rightarrow> Inr None
      | Some v \<Rightarrow>
          (case as_i64 v of
             None \<Rightarrow> Inl (type_error (name @ '' must be a number''))
           | Some n \<Rightarrow> if 0 \<le> n \<and> n < 2 ^ 32 then Inr (Some (of_int n))
               else Inl (invalid_parameter (name @ '' out of range''))))"

definition count_from_params :: "rpc_request \<Rightarrow> nat \<Rightarrow> nat \<Rightarrow> rpc_error + nat \<times> nat" where
  "count_from_params req count_i from_i =
     sum_bind (case given req count_i of
          None \<Rightarrow> Inr 10
        | Some v \<Rightarrow> (case as_i64 v of
            Some n \<Rightarrow> if n \<ge> 0 then Inr (nat n) else Inl (invalid_parameter ''Negative count'')
          | None \<Rightarrow> Inl (type_error ''count must be a number'')))
       (\<lambda>n_count. sum_bind (case given req from_i of
          None \<Rightarrow> Inr 0
        | Some v \<Rightarrow> (case as_i64 v of
            Some n \<Rightarrow> if n \<ge> 0 then Inr (nat n) else Inl (invalid_parameter ''Negative from'')
          | None \<Rightarrow> Inl (type_error ''from must be a number'')))
       (\<lambda>from. Inr (n_count, from)))"

definition depth_param :: "json option \<Rightarrow> string \<Rightarrow> int \<Rightarrow> rpc_error + int" where
  "depth_param v name dflt =
     (case v of
        None \<Rightarrow> Inr dflt
      | Some Null \<Rightarrow> Inr dflt
      | Some v \<Rightarrow> (case as_i64 v of Some n \<Rightarrow> Inr n | None \<Rightarrow> Inl (type_error (name @ '' must be a number''))))"

fun addresses_loop :: "('o, 's, 'z) address_codec \<Rightarrow> json list \<Rightarrow> string set \<Rightarrow> rpc_error + string set" where
  "addresses_loop c [] seen = Inr seen"
| "addresses_loop c (entry # rest) seen =
     (case as_str entry of
        None \<Rightarrow> Inl (type_error ''addresses entries must be strings'')
      | Some s \<Rightarrow>
          if \<not> v_is_valid (validate c s) then Inl (invalid_address_or_key (''Invalid Zcash address: '' @ s))
          else if s \<in> seen then Inl (invalid_parameter (''Invalid parameter, duplicated address: '' @ s))
          else addresses_loop c rest (insert s seen))"

definition addresses_filter :: "json option \<Rightarrow> ('o, 's, 'z) address_codec \<Rightarrow> rpc_error + string set option" where
  "addresses_filter v c =
     (case v of
        None \<Rightarrow> Inr None
      | Some Null \<Rightarrow> Inr None
      | Some (Array arr) \<Rightarrow> (if arr = [] then Inr None else sum_bind (addresses_loop c arr {}) (\<lambda>set. Inr (Some set)))
      | Some _ \<Rightarrow> Inl (type_error ''addresses must be an array''))"

section \<open>The entries of one transaction\<close>

definition output_categories :: "bool \<Rightarrow> bool \<Rightarrow> string list" where
  "output_categories from_account to_account =
     (case (from_account, to_account) of
        (False, True) \<Rightarrow> [''receive'']
      | (True, False) \<Rightarrow> [''send'']
      | (True, True) \<Rightarrow> [''send'', ''receive'']
      | (False, False) \<Rightarrow> [])"

definition confirmations :: "u32 option \<Rightarrow> u32 option \<Rightarrow> int" where
  "confirmations fully_scanned mined_height =
     (case (fully_scanned, mined_height) of
        (Some scanned, Some h) \<Rightarrow> if scanned \<ge> h then uint (scanned - h + 1) else 0
      | _ \<Rightarrow> 0)"

definition tx_confirmations :: "u32 option \<Rightarrow> tx_record \<Rightarrow> int" where
  "tx_confirmations fully_scanned tx =
     (if tx_expired_unmined tx then - 1 else confirmations fully_scanned (tx_mined_height tx))"

definition tx_time :: "tx_record \<Rightarrow> int option \<Rightarrow> int" where
  "tx_time tx first_seen =
     (case tx_block_time tx of Some t \<Rightarrow> t
      | None \<Rightarrow> (case first_seen of Some t \<Rightarrow> t
          | None \<Rightarrow> (case tx_created_time tx of Some t \<Rightarrow> t | None \<Rightarrow> 0)))"

definition pool_name :: "int \<Rightarrow> string" where
  "pool_name pool =
     (if pool = 0 then ''transparent'' else if pool = 2 then ''sapling'' else if pool = 3 then ''orchard''
      else if pool = 4 then ''ironwood'' else ''unknown'')"

definition z_tx_status :: "tx_record \<Rightarrow> string" where
  "z_tx_status tx =
     (if tx_mined_height tx \<noteq> None then ''mined'' else if tx_expired_unmined tx then ''expired'' else ''waiting'')"

text \<open>Members added when a value is present.\<close>

definition opt_member :: "string \<Rightarrow> ('a \<Rightarrow> json) \<Rightarrow> 'a option \<Rightarrow> (string \<times> json) list" where
  "opt_member k f v = (case v of Some x \<Rightarrow> [(k, f x)] | None \<Rightarrow> [])"

definition block_fields :: "tx_record \<Rightarrow> u32 \<Rightarrow> (string \<times> json) list" where
  "block_fields tx h =
     opt_member ''blockhash'' String (tx_block_hash tx) @ [(''blockheight'', json_int (uint h))] @
     opt_member ''blockindex'' (json_int \<circ> uint) (tx_tx_index tx) @ opt_member ''blocktime'' json_int (tx_block_time tx)"

definition push_wallet_tx_fields :: "tx_record \<Rightarrow> int \<Rightarrow> (string \<times> json) list" where
  "push_wallet_tx_fields tx time =
     (case tx_mined_height tx of
        Some h \<Rightarrow> block_fields tx h
      | None \<Rightarrow> [(''trusted'', Bool (\<not> tx_expired_unmined tx \<and> tx_account_balance_delta tx < 0))]) @
     [(''walletconflicts'', Array []), (''time'', json_int time), (''timereceived'', json_int time)]"

definition push_memo_fields :: "(u8 list \<Rightarrow> memo option) \<Rightarrow> u8 list option \<Rightarrow> (string \<times> json) list" where
  "push_memo_fields parse mem =
     (case mem of
        None \<Rightarrow> []
      | Some bytes \<Rightarrow>
          (let parsed = parse bytes
           in if parsed = Some MemoEmpty then []
              else (''memo'', String (hex_encode bytes)) #
                (case parsed of Some (MemoText t) \<Rightarrow> [(''memoStr'', String t)] | _ \<Rightarrow> [])))"

definition display_address :: "('o, 's, 'z) address_codec \<Rightarrow> tx_output_record \<Rightarrow> string" where
  "display_address c out =
     (case or_to_address out of
        None \<Rightarrow> []
      | Some addr \<Rightarrow> (case single_receiver_for_pool c addr (or_pool out) of Some single \<Rightarrow> single | None \<Rightarrow> addr))"

text \<open>
  An amount as a JSON number; the text always parses (\<open>Amount.arbitrary_precision\<close>), so the panic of \<open>expect\<close> is not a
  case of its own here.
\<close>

definition signed_value :: "('o, 's, 'z) wallet_view \<Rightarrow> int \<Rightarrow> json" where
  "signed_value v amount = (case signed_zats_to_value (wv_from_str v) amount of Some j \<Rightarrow> j | None \<Rightarrow> Null)"

definition unsigned_value :: "('o, 's, 'z) wallet_view \<Rightarrow> u64 \<Rightarrow> json" where
  "unsigned_value v amount = (case zats_to_value (wv_from_str v) amount of Some j \<Rightarrow> j | None \<Rightarrow> Null)"

definition fee_value :: "u64 \<Rightarrow> int" where
  "fee_value fee = - sint fee"

definition entry_amount :: "string \<Rightarrow> tx_output_record \<Rightarrow> int" where
  "entry_amount category out = (if category = ''send'' then - or_value out else or_value out)"

definition visible_categories :: "tx_output_record \<Rightarrow> string list" where
  "visible_categories out =
     (if is_internal_change out then []
      else output_categories (or_from_account out \<noteq> None) (or_to_account out \<noteq> None))"

definition index_field :: "string \<Rightarrow> tx_output_record \<Rightarrow> (string \<times> json) list" where
  "index_field category out =
     (if category = ''receive'' then opt_member ''diversifier_index'' (json_int \<circ> int) (or_diversifier_index out) else [])"

definition tx_entry ::
  "('o, 's, 'z) wallet_view \<Rightarrow> tx_record \<Rightarrow> int \<Rightarrow> int \<Rightarrow> tx_output_record \<Rightarrow> string \<Rightarrow> json" where
  "tx_entry v tx confs time out category =
     Object (
       [(''address'', String (display_address (wv_codec v) out)), (''category'', String category),
        (''amount'', signed_value v (entry_amount category out)), (''label'', String []),
        (''vout'', json_int (uint (or_output_index out))), (''pool'', String (pool_name (or_pool out))),
        (''confirmations'', json_int confs), (''txid'', String (tx_txid_hex tx)), (''bip125-replaceable'', String ''no'')] @
       index_field category out @
       (if category = ''send''
        then (''abandoned'', Bool (tx_expired_unmined tx)) # opt_member ''fee'' (signed_value v \<circ> fee_value) (tx_fee_paid tx)
        else []) @
       push_memo_fields (wv_memo v) (or_memo out) @
       push_wallet_tx_fields tx time)"

definition tx_entries ::
  "('o, 's, 'z) wallet_view \<Rightarrow> tx_record \<Rightarrow> int \<Rightarrow> int \<Rightarrow> string option \<Rightarrow> json list" where
  "tx_entries v tx confs time label_filter =
     concat (map (\<lambda>out.
       if is_internal_change out then []
       else if (case label_filter of Some f \<Rightarrow> f \<noteq> [] | None \<Rightarrow> False) then []
       else map (tx_entry v tx confs time out) (output_categories (or_from_account out \<noteq> None) (or_to_account out \<noteq> None)))
     (tx_outputs tx))"

definition z_tx_entry ::
  "('o, 's, 'z) wallet_view \<Rightarrow> tx_record \<Rightarrow> int \<Rightarrow> int \<Rightarrow> tx_output_record \<Rightarrow> string \<Rightarrow> json" where
  "z_tx_entry v tx confs time out category =
     (let send = (category = ''send''); amount = entry_amount category out
      in Object (
       [(''txid'', String (tx_txid_hex tx)), (''status'', String (z_tx_status tx)), (''confirmations'', json_int confs),
        (''time'', json_int time), (''walletconflicts'', Array []), (''pool'', String (pool_name (or_pool out))),
        (''category'', String category), (''amount'', signed_value v amount), (''amountZat'', json_int amount),
        (''address'', String (display_address (wv_codec v) out)), (''outindex'', json_int (uint (or_output_index out))),
        (''change'', Bool False), (''outgoing'', Bool send)] @
       index_field category out @
       (case tx_mined_height tx of Some h \<Rightarrow> block_fields tx h | None \<Rightarrow> []) @
       (case tx_expiry_height tx of Some e \<Rightarrow> if e \<noteq> 0 then [(''expiryheight'', json_int (uint e))] else [] | None \<Rightarrow> []) @
       (if send then (case tx_fee_paid tx of
            Some fee \<Rightarrow> [(''fee'', signed_value v (fee_value fee)), (''feeZat'', json_int (fee_value fee))] | None \<Rightarrow> [])
        else []) @
       push_memo_fields (wv_memo v) (or_memo out)))"

definition z_tx_entries :: "('o, 's, 'z) wallet_view \<Rightarrow> tx_record \<Rightarrow> int \<Rightarrow> int \<Rightarrow> json list" where
  "z_tx_entries v tx confs time =
     concat (map (\<lambda>out. map (z_tx_entry v tx confs time out) (visible_categories out)) (tx_outputs tx))"

definition wallet_funded_tx :: "int \<Rightarrow> bool" where
  "wallet_funded_tx account_balance_delta \<longleftrightarrow> account_balance_delta < 0"

definition gettransaction_amount :: "int \<Rightarrow> u64 option \<Rightarrow> int" where
  "gettransaction_amount account_balance_delta fee_paid =
     (if wallet_funded_tx account_balance_delta
      then account_balance_delta + sint (case fee_paid of Some f \<Rightarrow> f | None \<Rightarrow> 0)
      else account_balance_delta)"

definition gettransaction_details :: "('o, 's, 'z) wallet_view \<Rightarrow> tx_record \<Rightarrow> json list" where
  "gettransaction_details v tx =
     concat (map (\<lambda>out. map (\<lambda>category. Object (
         [(''address'', String (display_address (wv_codec v) out)), (''category'', String category),
          (''amount'', signed_value v (entry_amount category out)), (''vout'', json_int (uint (or_output_index out))),
          (''pool'', String (pool_name (or_pool out))), (''label'', String [])] @
         index_field category out @
         (if category = ''send''
          then (''abandoned'', Bool (tx_expired_unmined tx)) # opt_member ''fee'' (signed_value v \<circ> fee_value) (tx_fee_paid tx)
          else []) @
         push_memo_fields (wv_memo v) (or_memo out))) (visible_categories out)) (tx_outputs tx))"

section \<open>Paging\<close>

definition USIZE_MAX :: nat where "USIZE_MAX = 2 ^ 64 - 1"
definition U32_MAX :: nat where "U32_MAX = 2 ^ 32 - 1"

record history_page =
  hp_from :: nat
  hp_count :: nat
  hp_start_height :: "u32 option"
  hp_end_height :: "u32 option"

fun expand_until :: "(tx_record \<Rightarrow> json list) \<Rightarrow> nat \<Rightarrow> tx_record list \<Rightarrow> json list \<Rightarrow> json list" where
  "expand_until expand want [] entries = entries"
| "expand_until expand want (tx # txs) entries =
     (let entries = entries @ rev (expand tx)
      in if length entries \<ge> want then entries else expand_until expand want txs entries)"

definition window_history_from_txs :: "tx_record list \<Rightarrow> nat \<Rightarrow> nat \<Rightarrow> (tx_record \<Rightarrow> json list) \<Rightarrow> json list" where
  "window_history_from_txs newest_first_txs from n_count expand =
     (let want = min USIZE_MAX (from + n_count);
          entries = expand_until expand want newest_first_txs [];
          start = min from (length entries);
          stop = min want (length entries)
      in rev (take (stop - start) (drop start entries)))"

text \<open>The loop over growing pages; the page of a round has \<open>k + 1\<close> transactions.\<close>

function paginate_loop ::
  "(nat \<Rightarrow> rpc_error + tx_record list) \<Rightarrow> nat \<Rightarrow> nat \<Rightarrow> (tx_record \<Rightarrow> json list) \<Rightarrow> nat \<Rightarrow> rpc_error + json list" where
  "paginate_loop fetch from n_count expand k =
     (case fetch (Suc k) of
        Inl e \<Rightarrow> Inl e
      | Inr txs \<Rightarrow>
          (let entries = window_history_from_txs txs from n_count expand
           in if length entries \<ge> n_count \<or> \<not> length txs mod 2 ^ 32 \<ge> Suc k then Inr entries
              else if 2 * Suc k \<le> U32_MAX then paginate_loop fetch from n_count expand (2 * k + 1)
              else if Suc k \<ge> U32_MAX then Inr entries
              else paginate_loop fetch from n_count expand (U32_MAX - 1)))"
  by pat_completeness auto
termination
  by (relation "measure (\<lambda>(_, _, _, _, k). U32_MAX - k)") (auto simp: U32_MAX_def)

declare paginate_loop.simps [simp del]

definition paginate_history ::
  "('o, 's, 'z) wallet_view \<Rightarrow> history_page \<Rightarrow> (tx_record \<Rightarrow> json list) \<Rightarrow> rpc_error + json list" where
  "paginate_history v page expand =
     (let want = min USIZE_MAX (hp_from page + hp_count page);
          limit = min (max want 1) U32_MAX
      in paginate_loop (\<lambda>limit. wv_query_transactions v \<lparr>q_start_height = hp_start_height page, q_end_height = hp_end_height page,
             q_limit = Some (of_nat limit), q_newest_first = True, q_omit_memos = \<not> wv_fetch_memos v\<rparr>)
           (hp_from page) (hp_count page) expand (limit - 1))"

definition entries_of :: "('o, 's, 'z) wallet_view \<Rightarrow> string option \<Rightarrow> tx_record \<Rightarrow> json list" where
  "entries_of v label_filter tx =
     tx_entries v tx (tx_confirmations (wv_fully_scanned v) tx) (tx_time tx (wv_first_seen v (tx_txid_hex tx))) label_filter"

definition listtransactions :: "rpc_error + ('o, 's, 'z) wallet_view \<Rightarrow> rpc_request \<Rightarrow> rpc_error + json" where
  "listtransactions wallet req =
     (let label_filter = (case Option.bind (param req 0) as_str of Some s \<Rightarrow> if s \<noteq> ''*'' then Some s else None | None \<Rightarrow> None)
      in sum_bind (count_from_params req 1 2) (\<lambda>(n_count, skip).
         sum_bind wallet (\<lambda>v.
         sum_bind (paginate_history v \<lparr>hp_from = skip, hp_count = n_count, hp_start_height = None, hp_end_height = None\<rparr>
                    (entries_of v label_filter)) (\<lambda>entries. Inr (Array entries)))))"

definition z_listtransactions :: "rpc_error + ('o, 's, 'z) wallet_view \<Rightarrow> rpc_request \<Rightarrow> rpc_error + json" where
  "z_listtransactions wallet req =
     sum_bind (count_from_params req 0 1) (\<lambda>(n_count, from).
     sum_bind (case given req 2 of None \<Rightarrow> Inr () | Some (Bool _) \<Rightarrow> Inr ()
               | Some _ \<Rightarrow> Inl (type_error ''includeWatchonly must be a boolean'')) (\<lambda>_.
     sum_bind (height_param req 3 ''start_height'') (\<lambda>start_height.
     sum_bind (height_param req 4 ''end_height'') (\<lambda>end_height.
     sum_bind (case (start_height, end_height) of
          (Some start, Some stop) \<Rightarrow>
            if start \<ge> stop then Inl (invalid_parameter (''start_height ('' @ show_nat (unat start) @ '') must be below end_height ('' @
                show_nat (unat stop) @ ''); the range is [start_height, end_height)''))
            else Inr ()
        | _ \<Rightarrow> Inr ()) (\<lambda>_.
     sum_bind wallet (\<lambda>v.
     sum_bind (paginate_history v \<lparr>hp_from = from, hp_count = n_count, hp_start_height = start_height, hp_end_height = end_height\<rparr>
          (\<lambda>tx. z_tx_entries v tx (tx_confirmations (wv_fully_scanned v) tx) (tx_time tx (wv_first_seen v (tx_txid_hex tx)))))
       (\<lambda>entries. Inr (Array entries))))))))"

section \<open>Polling\<close>

definition since_height_of :: "('o, 's, 'z) wallet_view \<Rightarrow> rpc_request \<Rightarrow> rpc_error + u32 option" where
  "since_height_of v req =
     (case Option.bind (param req 0) as_str of
        None \<Rightarrow> Inr None
      | Some hash \<Rightarrow>
          if hash = [] then Inr None
          else sum_bind (wv_block_height_by_hash v hash) (\<lambda>found.
            case found of
              Some height \<Rightarrow> Inr (Some height)
            | None \<Rightarrow> if is_block_hash_wellformed hash then Inr None
                else Inl (invalid_address_or_key ''Block not found'')))"

definition target_conf_of :: "rpc_request \<Rightarrow> rpc_error + u32" where
  "target_conf_of req =
     (case given req 1 of
        None \<Rightarrow> Inr 1
      | Some v \<Rightarrow> (case as_i64 v of
            Some n \<Rightarrow> if 1 \<le> n \<and> n < 2 ^ 32 then Inr (of_int n) else Inl (invalid_parameter ''Invalid target_confirmations'')
          | None \<Rightarrow> Inl (invalid_parameter ''Invalid target_confirmations'')))"

definition lastblock_of :: "('o, 's, 'z) wallet_view \<Rightarrow> u32 \<Rightarrow> string" where
  "lastblock_of v target_conf =
     (case Option.bind (Option.bind (wv_fully_scanned v)
             (\<lambda>scanned. if scanned \<ge> target_conf - 1 then Some (scanned - (target_conf - 1)) else None))
           (wv_block_info_at v) of
        Some hash \<Rightarrow> hash
      | None \<Rightarrow> (case wv_first_scanned_block v of Some hash \<Rightarrow> hash | None \<Rightarrow> replicate 64 (CHR ''0'')))"

definition since_query :: "('o, 's, 'z) wallet_view \<Rightarrow> u32 option \<Rightarrow> tx_query" where
  "since_query v since_height =
     \<lparr>q_start_height = map_option (\<lambda>h. saturating_add h 1) since_height, q_end_height = None, q_limit = None,
      q_newest_first = False, q_omit_memos = \<not> wv_fetch_memos v\<rparr>"

definition listsinceblock :: "rpc_error + ('o, 's, 'z) wallet_view \<Rightarrow> rpc_request \<Rightarrow> rpc_error + json" where
  "listsinceblock wallet req =
     sum_bind wallet (\<lambda>v.
     sum_bind (since_height_of v req) (\<lambda>since_height.
     sum_bind (target_conf_of req) (\<lambda>target_conf.
     sum_bind (wv_query_transactions v (since_query v since_height)) (\<lambda>txs.
       Inr (Object [(''transactions'', Array (concat (map (entries_of v None) txs))), (''removed'', Array []),
                    (''lastblock'', String (lastblock_of v target_conf))])))))"

section \<open>Received totals and unspent notes\<close>

definition COINBASE_MATURITY :: int where "COINBASE_MATURITY = 100"

definition received_address_key :: "('o, 's, 'z) wallet_view \<Rightarrow> string \<Rightarrow> string" where
  "received_address_key v addr =
     (case issued_encoding (wv_codec v) addr (wv_default_receivers v) of Some s \<Rightarrow> s | None \<Rightarrow> addr)"

definition received_address_candidates :: "('o, 's, 'z) wallet_view \<Rightarrow> string \<Rightarrow> string list" where
  "received_address_candidates v addr =
     (let candidates = wv_recorded_encodings v addr
      in if addr \<in> set candidates then candidates else candidates @ [addr])"

text \<open>The outputs of a transaction that count, with the address each is filed under.\<close>

definition counted_outputs ::
  "('o, 's, 'z) wallet_view \<Rightarrow> int \<Rightarrow> bool \<Rightarrow> tx_record \<Rightarrow> (string \<times> int) list" where
  "counted_outputs v conf include_immature_coinbase tx =
     List.map_filter (\<lambda>out.
       if is_internal_change out \<or> or_to_account out = None then None
       else if \<not> include_immature_coinbase \<and> tx_tx_index tx = Some 0 \<and> or_pool out = 0 \<and> conf < COINBASE_MATURITY then None
       else map_option (\<lambda>addr. (received_address_key v addr, max (or_value out) 0)) (or_to_address out)) (tx_outputs tx)"

definition credit_output ::
  "int \<Rightarrow> string \<Rightarrow> string \<times> int \<Rightarrow> (string \<rightharpoonup> int \<times> int \<times> string list) \<Rightarrow> (string \<rightharpoonup> int \<times> int \<times> string list)" where
  "credit_output conf txid item m =
     (let (amount, c, txids) = (case m (fst item) of Some e \<Rightarrow> e | None \<Rightarrow> (0, 2 ^ 63 - 1, []))
      in m(fst item \<mapsto> (amount + snd item, min c conf, txids @ [txid])))"

definition received_by_address ::
  "('o, 's, 'z) wallet_view \<Rightarrow> tx_record list \<Rightarrow> int \<Rightarrow> bool \<Rightarrow> (string \<rightharpoonup> int \<times> int \<times> string list)" where
  "received_by_address v txs minconf include_immature_coinbase =
     fold (\<lambda>tx m.
         let conf = tx_confirmations (wv_fully_scanned v) tx
         in if conf < minconf then m
            else fold (credit_output conf (tx_txid_hex tx)) (counted_outputs v conf include_immature_coinbase tx) m)
       txs Map.empty"

definition getreceivedbyaddress :: "rpc_error + ('o, 's, 'z) wallet_view \<Rightarrow> rpc_request \<Rightarrow> rpc_error + json" where
  "getreceivedbyaddress wallet req =
     sum_bind (require_str req 0 ''getreceivedbyaddress requires an address'') (\<lambda>addr.
     sum_bind (depth_param (param req 1) ''minconf'' 1) (\<lambda>minconf.
     let include_immature_coinbase = (case Option.bind (param req 2) as_bool of Some b \<Rightarrow> b | None \<Rightarrow> False)
     in sum_bind wallet (\<lambda>v.
        if \<not> v_is_valid (validate (wv_codec v) addr) then Inl (invalid_address_or_key (''Invalid Zcash address: '' @ addr))
        else (case wv_classify v addr of
          Inconsistent why \<Rightarrow> Inl (invalid_address_or_key why)
        | ReceiversFine \<Rightarrow>
            if \<not> wv_is_mine v addr then Inl (wallet_error ''Address not found in wallet'')
            else sum_bind (wv_received_tx_records v (Some (received_address_candidates v addr))) (\<lambda>txs.
              Inr (unsigned_value v (of_int (case received_by_address v txs minconf include_immature_coinbase (received_address_key v addr) of
                Some (amt, _, _) \<Rightarrow> amt | None \<Rightarrow> 0)))))))) "

definition listreceivedbyaddress :: "rpc_error + ('o, 's, 'z) wallet_view \<Rightarrow> rpc_request \<Rightarrow> rpc_error + json" where
  "listreceivedbyaddress wallet req =
     sum_bind (depth_param (param req 0) ''minconf'' 1) (\<lambda>minconf.
     let include_empty = (case Option.bind (param req 1) as_bool of Some b \<Rightarrow> b | None \<Rightarrow> False);
         address_filter = Option.bind (param req 3) as_str;
         include_immature_coinbase = (case Option.bind (param req 4) as_bool of Some b \<Rightarrow> b | None \<Rightarrow> False)
     in sum_bind wallet (\<lambda>v.
        sum_bind (wv_received_tx_records v (map_option (received_address_candidates v) address_filter)) (\<lambda>txs.
        let received = received_by_address v txs minconf include_immature_coinbase;
            addrs = sorted_list_of_set (dom received \<union> (if include_empty then received_address_key v ` set (wv_all_addresses v) else {}));
            filter_key = map_option (received_address_key v) address_filter
        in Inr (Array (List.map_filter (\<lambda>addr.
             if (case filter_key of Some f \<Rightarrow> f \<noteq> addr | None \<Rightarrow> False) then None
             else let (amount, conf, txids) = (case received addr of Some e \<Rightarrow> e | None \<Rightarrow> (0, 0, []))
                  in Some (Object [(''address'', String addr), (''amount'', unsigned_value v (of_int amount)),
                       (''confirmations'', json_int (if txids = [] then 0 else conf)), (''label'', String []),
                       (''txids'', Array (map String txids))])) addrs)))))"

definition unspent_selected :: "u32 option \<Rightarrow> int \<Rightarrow> int \<Rightarrow> string set option \<Rightarrow> bool \<Rightarrow> unspent_note \<Rightarrow> bool" where
  "unspent_selected scanned minconf maxconf filter_set include_unsafe n =
     (let conf = confirmations scanned (un_mined_height n)
      in conf \<ge> minconf \<and> conf \<le> maxconf \<and> (include_unsafe \<or> conf > 0 \<or> un_trusted n) \<and>
         (case filter_set of None \<Rightarrow> True | Some f \<Rightarrow> (case un_address n of Some a \<Rightarrow> a \<in> f | None \<Rightarrow> False)))"

definition unspent_json ::
  "('o, 's, 'z) wallet_view \<Rightarrow> unspent_note list \<Rightarrow> int \<Rightarrow> int \<Rightarrow> string set option \<Rightarrow> bool \<Rightarrow> json list" where
  "unspent_json v notes minconf maxconf filter_set include_unsafe =
     map (\<lambda>n. let conf = confirmations (wv_fully_scanned v) (un_mined_height n)
         in Object ([(''txid'', String (un_txid n)), (''vout'', json_int (uint (un_vout n))),
              (''address'', String (case un_address n of Some a \<Rightarrow> a | None \<Rightarrow> [])), (''amount'', unsigned_value v (un_value n)),
              (''confirmations'', json_int conf), (''spendable'', Bool True), (''solvable'', Bool True),
              (''safe'', Bool (conf > 0 \<or> un_trusted n)), (''pool'', String (pool_name (un_pool n)))] @
              (if un_pool n = 0 then [(''generated'', Bool (un_generated n))] else [])))
       (filter (unspent_selected (wv_fully_scanned v) minconf maxconf filter_set include_unsafe) notes)"

definition listunspent :: "rpc_error + ('o, 's, 'z) wallet_view \<Rightarrow> rpc_request \<Rightarrow> rpc_error + json" where
  "listunspent wallet req =
     sum_bind (depth_param (param req 0) ''minconf'' 1) (\<lambda>minconf.
     sum_bind (depth_param (param req 1) ''maxconf'' 9999999) (\<lambda>maxconf.
     sum_bind wallet (\<lambda>v.
     sum_bind (addresses_filter (param req 2) (wv_codec v)) (\<lambda>filter_set.
     sum_bind (case given req 3 of None \<Rightarrow> Inr True | Some (Bool b) \<Rightarrow> Inr b
               | Some _ \<Rightarrow> Inl (type_error ''include_unsafe must be a boolean'')) (\<lambda>include_unsafe.
     sum_bind (wv_list_unspent v) (\<lambda>notes.
       Inr (Array (unspent_json v notes minconf maxconf filter_set include_unsafe))))))))"

definition gettransaction ::
  "rpc_error + ('o, 's, 'z) wallet_view \<Rightarrow> (string \<Rightarrow> rpc_error + tx_record option) \<Rightarrow> (string \<Rightarrow> u8 list option) \<Rightarrow> rpc_request \<Rightarrow> rpc_error + json" where
  "gettransaction wallet get_transaction get_raw_tx req =
     sum_bind (require_str req 0 ''gettransaction requires a txid'') (\<lambda>txid.
     sum_bind wallet (\<lambda>v.
     sum_bind (get_transaction txid) (\<lambda>found.
       case found of
         None \<Rightarrow> Inl (invalid_address_or_key ''Invalid or non-wallet transaction id'')
       | Some rec \<Rightarrow>
           (let hex = (case tx_raw rec of
                  Some raw \<Rightarrow> hex_encode raw
                | None \<Rightarrow> (case txid_internal (tx_txid_hex rec) of
                      Some _ \<Rightarrow> (case get_raw_tx (tx_txid_hex rec) of Some raw \<Rightarrow> hex_encode raw | None \<Rightarrow> [])
                    | None \<Rightarrow> []))
            in Inr (Object (
                 [(''amount'', signed_value v (gettransaction_amount (tx_account_balance_delta rec) (tx_fee_paid rec))),
                  (''confirmations'', json_int (tx_confirmations (wv_fully_scanned v) rec)), (''txid'', String (tx_txid_hex rec)),
                  (''bip125-replaceable'', String ''no''), (''details'', Array (gettransaction_details v rec)), (''hex'', String hex)] @
                 (if wallet_funded_tx (tx_account_balance_delta rec)
                  then opt_member ''fee'' (signed_value v \<circ> fee_value) (tx_fee_paid rec) else []) @
                 push_wallet_tx_fields rec (tx_time rec (wv_first_seen v txid))))))))"

section \<open>Paging is exact\<close>

text \<open>The whole history, newest entry first.\<close>

definition newest_entries :: "(tx_record \<Rightarrow> json list) \<Rightarrow> tx_record list \<Rightarrow> json list" where
  "newest_entries expand txs = concat (map (rev \<circ> expand) txs)"

lemma newest_entries_rev: "newest_entries expand txs = rev (concat (map expand (rev txs)))"
  by (induction txs) (simp_all add: newest_entries_def)

lemma newest_entries_take: "\<exists>ys. newest_entries expand txs = newest_entries expand (take k txs) @ ys"
  unfolding newest_entries_def by (metis append_take_drop_id concat_append map_append)

lemma expand_until_prefix:
  "\<exists>ys. expand_until expand want txs es @ ys = es @ newest_entries expand txs \<and>
     (ys = [] \<or> want \<le> length (expand_until expand want txs es))"
proof (induction txs arbitrary: es)
  case (Cons tx txs)
  then show ?case
    using Cons.IH [of "es @ rev (expand tx)"]
    by (cases "want \<le> length (es @ rev (expand tx))") (auto simp: newest_entries_def Let_def)
qed (simp add: newest_entries_def)

lemma window_of_prefix:
  assumes "es @ ys = full" "ys = [] \<or> from + n \<le> length es"
  shows "take (min (from + n) (length es) - min from (length es)) (drop (min from (length es)) es) = take n (drop from full)"
proof (cases "ys = []")
  case True
  then have "es = full" using assms(1) by simp
  then show ?thesis
    by (cases "from \<le> length full") (auto simp: min_def)
next
  case False
  then have "from + n \<le> length es" using assms(2) by simp
  then show ?thesis
    unfolding assms(1) [symmetric] by (simp add: min_def)
qed

lemma window_exact:
  assumes "from + n \<le> USIZE_MAX"
  shows "window_history_from_txs txs from n expand = rev (take n (drop from (newest_entries expand txs)))"
proof -
  obtain ys where "expand_until expand (from + n) txs [] @ ys = newest_entries expand txs"
    "ys = [] \<or> from + n \<le> length (expand_until expand (from + n) txs [])"
    using expand_until_prefix [of expand "from + n" txs "[]"] by auto
  from window_of_prefix [OF this] assms show ?thesis
    by (simp add: window_history_from_txs_def Let_def min_absorb2)
qed

lemma take_of_prefix: "full = es @ ys \<Longrightarrow> n \<le> length (take n (drop from es)) \<Longrightarrow> take n (drop from full) = take n (drop from es)"
  by simp

lemma paginate_loop_exact:
  assumes fetch: "\<And>limit. limit \<le> U32_MAX \<Longrightarrow> fetch limit = Inr (take limit all)"
    and size: "length all < U32_MAX" "from + n \<le> USIZE_MAX"
  shows "k < U32_MAX \<Longrightarrow> paginate_loop fetch from n expand k = Inr (rev (take n (drop from (newest_entries expand all))))"
proof (induction k rule: measure_induct_rule [of "\<lambda>k. U32_MAX - k"])
  case (less k)
  let ?txs = "take (Suc k) all"
  let ?entries = "window_history_from_txs ?txs from n expand"
  have f: "fetch (Suc k) = Inr ?txs"
    using fetch less.prems by simp
  have win: "?entries = rev (take n (drop from (newest_entries expand ?txs)))"
    by (rule window_exact) (rule size)
  have len: "length ?txs mod 2 ^ 32 = length ?txs"
    using size(1) by (simp add: U32_MAX_def)
  have step: "paginate_loop fetch from n expand k =
      (if length ?entries \<ge> n \<or> \<not> length ?txs \<ge> Suc k then Inr ?entries
       else if 2 * Suc k \<le> U32_MAX then paginate_loop fetch from n expand (2 * k + 1)
       else if Suc k \<ge> U32_MAX then Inr ?entries else paginate_loop fetch from n expand (U32_MAX - 1))"
    by (subst paginate_loop.simps) (simp only: f sum.case Let_def len)
  consider (covered) "length ?entries \<ge> n" | (all) "\<not> length ?txs \<ge> Suc k"
    | (more) "\<not> length ?entries \<ge> n" "length ?txs \<ge> Suc k" by blast
  then show ?case
  proof cases
    case covered
    obtain ys where "newest_entries expand all = newest_entries expand ?txs @ ys"
      using newest_entries_take by blast
    then have "take n (drop from (newest_entries expand all)) = take n (drop from (newest_entries expand ?txs))"
      using covered by (intro take_of_prefix) (simp_all add: win)
    then show ?thesis
      using covered step win by simp
  next
    case all
    then have "?txs = all" by simp
    then show ?thesis
      using all step win by simp
  next
    case more
    have next_k: "2 * Suc k \<le> U32_MAX \<Longrightarrow> paginate_loop fetch from n expand (2 * k + 1) = Inr (rev (take n (drop from (newest_entries expand all))))"
      using less.IH [of "2 * k + 1"] by (simp add: U32_MAX_def)
    have last_k: "\<not> 2 * Suc k \<le> U32_MAX \<Longrightarrow> \<not> Suc k \<ge> U32_MAX \<Longrightarrow>
        paginate_loop fetch from n expand (U32_MAX - 1) = Inr (rev (take n (drop from (newest_entries expand all))))"
      using less.IH [of "U32_MAX - 1"] by (simp add: U32_MAX_def)
    have "\<not> Suc k \<ge> U32_MAX"
      using more(2) size(1) by auto
    then show ?thesis
      using more next_k last_k step by (auto simp del: mult_Suc_right)
  qed
qed

text \<open>C26. Paging over the history returns exactly the page it was asked for: with the transactions of the wallet newest
  first behind the query, the answer is the same as expanding the whole history oldest first and taking the \<open>count\<close>
  entries that end \<open>from\<close> entries before its end, however many entries each transaction has (none included) and
  however many rounds of growing pages it takes.\<close>

theorem paginate_history_exact:
  assumes query: "\<And>limit. limit \<le> U32_MAX \<Longrightarrow> wv_query_transactions v \<lparr>q_start_height = hp_start_height page,
      q_end_height = hp_end_height page, q_limit = Some (of_nat limit), q_newest_first = True,
      q_omit_memos = \<not> wv_fetch_memos v\<rparr> = Inr (take limit all)"
    and size: "length all < U32_MAX" "hp_from page + hp_count page \<le> USIZE_MAX"
  shows "paginate_history v page expand =
    Inr (rev (take (hp_count page) (drop (hp_from page) (rev (concat (map expand (rev all)))))))"
proof -
  have "min (max (min USIZE_MAX (hp_from page + hp_count page)) 1) U32_MAX - 1 < U32_MAX"
    by (simp add: U32_MAX_def)
  from paginate_loop_exact [OF query size this] show ?thesis
    by (simp add: paginate_history_def Let_def newest_entries_rev)
qed

section \<open>Entries identify outputs\<close>

lemma unat_less_32: "unat (w :: u32) < 2 ^ 32"
  using unsigned_less [of w] by simp

lemma show_nat_inj: "show_nat m = show_nat n \<Longrightarrow> m = n"
  by (metis digits_value_show_nat of_nat_eq_iff)

lemma json_int_uint_inj: "json_int (uint a) = json_int (uint b) \<Longrightarrow> a = b" for a b :: "'a::len word"
  by (auto simp: json_int_def word_unat_eq_iff dest!: show_nat_inj)

lemma pool_name_inj: "pool_name a = pool_name b \<Longrightarrow> a \<in> {0, 2, 3, 4} \<Longrightarrow> b \<in> {0, 2, 3, 4} \<Longrightarrow> a = b"
  by (auto simp: pool_name_def)

definition entry_key :: "json \<Rightarrow> json option \<times> json option \<times> json option" where
  "entry_key e = (json_get ''pool'' e, json_get ''vout'' e, json_get ''category'' e)"

lemma entry_key_tx_entry:
  "entry_key (tx_entry v tx confs time out category) =
     (Some (String (pool_name (or_pool out))), Some (json_int (uint (or_output_index out))), Some (String category))"
  by (simp add: entry_key_def tx_entry_def json_get_def)

lemma tx_entries_all:
  "tx_entries v tx confs time None = concat (map (\<lambda>out. map (tx_entry v tx confs time out) (visible_categories out)) (tx_outputs tx))"
  by (simp add: tx_entries_def visible_categories_def if_distrib cong: if_cong)

lemma distinct_visible_categories: "distinct (visible_categories out)"
  by (simp add: visible_categories_def output_categories_def split: bool.split)

text \<open>Within a transaction an entry is identified by the pool, the output index and the category: no two entries of
  \<open>listtransactions\<close> or \<open>listsinceblock\<close> agree in all three, and so none is reported twice.\<close>

theorem entries_identify_outputs:
  assumes keys: "distinct (map (\<lambda>out. (or_pool out, or_output_index out)) (tx_outputs tx))"
    and pools: "\<And>out. out \<in> set (tx_outputs tx) \<Longrightarrow> or_pool out \<in> {0, 2, 3, 4}"
  shows "distinct (map entry_key (tx_entries v tx confs time None))"
proof -
  have "distinct (concat (map (\<lambda>out. map (\<lambda>c. entry_key (tx_entry v tx confs time out c)) (visible_categories out)) outs))"
    if "distinct (map (\<lambda>out. (or_pool out, or_output_index out)) outs)" "set outs \<subseteq> set (tx_outputs tx)" for outs
    using that
  proof (induction outs)
    case (Cons out outs)
    have "distinct (map (\<lambda>c. entry_key (tx_entry v tx confs time out c)) (visible_categories out))"
      using distinct_visible_categories by (auto simp: distinct_map inj_on_def entry_key_tx_entry)
    moreover have other: "entry_key (tx_entry v tx confs time out c) \<noteq> entry_key (tx_entry v tx confs time out' c')"
      if "out' \<in> set outs" for out' c c'
      using Cons.prems that pools [of out] pools [of out']
      by (auto simp: entry_key_tx_entry image_iff dest!: json_int_uint_inj pool_name_inj)
    then have "set (map (\<lambda>c. entry_key (tx_entry v tx confs time out c)) (visible_categories out)) \<inter>
        set (concat (map (\<lambda>out. map (\<lambda>c. entry_key (tx_entry v tx confs time out c)) (visible_categories out)) outs)) = {}"
    proof -
      have "k \<noteq> k'" if "k \<in> (\<lambda>c. entry_key (tx_entry v tx confs time out c)) ` set (visible_categories out)"
        "out' \<in> set outs" "k' \<in> (\<lambda>c. entry_key (tx_entry v tx confs time out' c)) ` set (visible_categories out')" for k k' out'
        using that other by blast
      then show ?thesis
        by (simp only: set_map set_concat image_image) blast
    qed
    ultimately show ?case
      using Cons by simp
  qed simp
  from this [OF keys order_refl] show ?thesis
    by (simp add: tx_entries_all map_concat comp_def)
qed

section \<open>Polling misses nothing\<close>

text \<open>What the query behind \<open>listsinceblock\<close> returns: the transactions at or above the start height and all unmined ones.\<close>

definition since_query_law :: "('o, 's, 'z) wallet_view \<Rightarrow> tx_record set \<Rightarrow> bool" where
  "since_query_law v txs \<longleftrightarrow>
     (\<forall>q. q_end_height q = None \<and> q_limit q = None \<longrightarrow>
        (\<exists>rows. wv_query_transactions v q = Inr rows \<and>
           set rows = {tx \<in> txs. case (q_start_height q, tx_mined_height tx) of (Some start, Some h) \<Rightarrow> start \<le> h | _ \<Rightarrow> True}))"

definition transactions_of :: "json \<Rightarrow> json set" where
  "transactions_of answer = (case json_get ''transactions'' answer of Some (Array es) \<Rightarrow> set es | _ \<Rightarrow> {})"

definition since_request :: "string \<Rightarrow> rpc_request" where
  "since_request hash = positional ''listsinceblock'' [String hash]"

lemma listsinceblock_reports:
  assumes law: "since_query_law v txs" and since: "since_height_of v req = Inr since" and target: "target_conf_of req = Inr t"
  obtains answer where "listsinceblock (Inr v) req = Inr answer"
    "\<And>tx. tx \<in> txs \<Longrightarrow> (\<And>s h. since = Some s \<Longrightarrow> tx_mined_height tx = Some h \<Longrightarrow> s < h) \<Longrightarrow>
       set (entries_of v None tx) \<subseteq> transactions_of answer"
proof -
  obtain rows where rows: "wv_query_transactions v (since_query v since) = Inr rows"
    and set: "set rows = {tx \<in> txs. case (q_start_height (since_query v since), tx_mined_height tx) of
      (Some start, Some h) \<Rightarrow> start \<le> h | _ \<Rightarrow> True}"
    using law by (force simp: since_query_law_def since_query_def)
  have inc: "saturating_add s 1 \<le> h" if "s < h" for s h :: u32
  proof -
    have "unat s + 1 \<le> unat h" using that by (simp add: word_less_nat_alt)
    moreover have "unat h < 2 ^ 32" by (rule unat_less_32)
    ultimately show ?thesis by (simp add: word_le_nat_alt unat_saturating_add)
  qed
  show ?thesis
  proof (rule that)
    show "listsinceblock (Inr v) req = Inr (Object [(''transactions'', Array (concat (map (entries_of v None) rows))),
        (''removed'', Array []), (''lastblock'', String (lastblock_of v t))])"
      by (simp add: listsinceblock_def since target rows)
  next
    fix tx assume "tx \<in> txs" "\<And>s h. since = Some s \<Longrightarrow> tx_mined_height tx = Some h \<Longrightarrow> s < h"
    then have "tx \<in> set rows"
      using inc by (auto simp: set since_query_def split: option.split)
    then show "set (entries_of v None tx) \<subseteq> transactions_of (Object [(''transactions'', Array (concat (map (entries_of v None) rows))),
        (''removed'', Array []), (''lastblock'', String (lastblock_of v t))])"
      by (auto simp: transactions_of_def json_get_def)
  qed
qed

text \<open>A transaction with fewer confirmations than the target depth is above the cursor.\<close>

lemma few_confirmations_above:
  fixes scanned target h :: u32
  assumes pos: "0 < target" "target - 1 \<le> scanned" and depth: "unat scanned + 1 < 2 ^ 32"
    and few: "confirmations (Some scanned) (Some h) < uint target"
  shows "scanned - (target - 1) < h"
proof (rule ccontr)
  assume "\<not> scanned - (target - 1) < h"
  then have le: "h \<le> scanned - (target - 1)" by simp
  have t: "unat (target - 1) = unat target - 1"
    using pos(1) by (simp add: unat_minus_one word_gt_0)
  have u: "unat (scanned - (target - 1)) = unat scanned - (unat target - 1)"
    using pos(2) t by (simp add: unat_sub)
  have b: "unat target - 1 \<le> unat scanned" "0 < unat target"
    using pos t by (simp_all add: word_le_nat_alt word_gt_0 unat_gt_0)
  have "unat h \<le> unat scanned - (unat target - 1)"
    using le u by (simp add: word_le_nat_alt)
  then have hs: "h \<le> scanned" and bound: "unat target \<le> unat scanned - unat h + 1"
    using b by (auto simp: word_le_nat_alt)
  have "unat (scanned - h + 1) = unat scanned - unat h + 1"
    using hs depth by (simp add: unat_word_ariths(1) unat_sub word_le_nat_alt)
  moreover have "uint target = int (unat target)" "uint (scanned - h + 1) = int (unat (scanned - h + 1))"
    by simp_all
  ultimately have "uint target \<le> uint (scanned - h + 1)"
    using bound by linarith
  with few hs show False by (simp add: confirmations_def)
qed


section \<open>Received totals\<close>

definition total_at :: "string \<Rightarrow> (string \<rightharpoonup> int \<times> int \<times> string list) \<Rightarrow> int" where
  "total_at k m = (case m k of Some (amount, _, _) \<Rightarrow> amount | None \<Rightarrow> 0)"

lemma total_at_credit:
  "total_at k (credit_output conf txid item m) = total_at k m + (if fst item = k then snd item else 0)"
  by (auto simp: total_at_def credit_output_def split: option.split prod.split)

lemma total_at_fold_credit:
  "total_at k (fold (credit_output conf txid) items m) = total_at k m + (\<Sum>item\<leftarrow>filter (\<lambda>item. fst item = k) items. snd item)"
  by (induction items arbitrary: m) (auto simp: total_at_credit)

text \<open>The total reported for an address is the sum of the wallet's outputs that are filed under it: not internal change,
  in transactions with at least \<open>minconf\<close> confirmations, without immature transparent coinbase unless asked for, whichever
  encoding of the address each output was recorded under.\<close>

theorem received_totals_exact:
  "total_at k (received_by_address v txs minconf inc) =
     (\<Sum>tx\<leftarrow>filter (\<lambda>tx. minconf \<le> tx_confirmations (wv_fully_scanned v) tx) txs.
        \<Sum>item\<leftarrow>filter (\<lambda>item. fst item = k) (counted_outputs v (tx_confirmations (wv_fully_scanned v) tx) inc tx). snd item)"
proof -
  let ?step = "\<lambda>tx m. let conf = tx_confirmations (wv_fully_scanned v) tx
      in if conf < minconf then m else fold (credit_output conf (tx_txid_hex tx)) (counted_outputs v conf inc tx) m"
  have "total_at k (fold ?step txs m) = total_at k m +
     (\<Sum>tx\<leftarrow>filter (\<lambda>tx. minconf \<le> tx_confirmations (wv_fully_scanned v) tx) txs.
        \<Sum>item\<leftarrow>filter (\<lambda>item. fst item = k) (counted_outputs v (tx_confirmations (wv_fully_scanned v) tx) inc tx). snd item)" for m
    by (induction txs arbitrary: m) (auto simp: total_at_fold_credit Let_def)
  from this [of Map.empty] show ?thesis
    by (simp add: received_by_address_def total_at_def)
qed

section \<open>A wallet for the witnesses\<close>

text \<open>A wallet that scanned from block 100 and received one output in that block.\<close>

definition polled_output :: tx_output_record where
  "polled_output = \<lparr>or_pool = 3, or_output_index = 0, or_from_account = None, or_to_account = Some 0, or_to_address = None,
     or_value = 5, or_is_change = False, or_recipient_key_scope = Some 0, or_memo = None, or_diversifier_index = None\<rparr>"

definition polled_tx :: tx_record where
  "polled_tx = \<lparr>tx_mined_height = Some 100, tx_txid_hex = ''aa'', tx_expiry_height = None, tx_account_balance_delta = 5,
     tx_fee_paid = None, tx_block_time = Some 7, tx_expired_unmined = False, tx_tx_index = Some 1, tx_block_hash = None,
     tx_created_time = None, tx_outputs = [polled_output], tx_raw = None\<rparr>"

definition block_hash_at :: "u32 \<Rightarrow> string" where
  "block_hash_at h = hex_encode (replicate 32 (ucast h))"

definition fresh_tx :: tx_record where
  "fresh_tx = polled_tx\<lparr>tx_mined_height := Some 102\<rparr>"

definition poll_rows :: "tx_record list \<Rightarrow> tx_query \<Rightarrow> tx_record list" where
  "poll_rows held q =
     (let rows = filter (\<lambda>tx. case (q_start_height q, tx_mined_height tx) of (Some start, Some h) \<Rightarrow> start \<le> h | _ \<Rightarrow> True) held
      in case q_limit q of Some l \<Rightarrow> take (unat l) rows | None \<Rightarrow> rows)"

definition poll_view :: "u32 \<Rightarrow> (unit, unit, string) wallet_view" where
  "poll_view scanned = \<lparr>wv_codec = sample_codec, wv_from_str = (\<lambda>s. Some (Number s)), wv_memo = (\<lambda>_. None),
     wv_fully_scanned = Some scanned, wv_first_seen = (\<lambda>_. None), wv_fetch_memos = True,
     wv_default_receivers = receiver_set_single ROrchard, wv_query_transactions = (\<lambda>q. Inr (poll_rows [polled_tx] q)),
     wv_received_tx_records = (\<lambda>_. Inr []), wv_recorded_encodings = (\<lambda>_. []), wv_all_addresses = [], wv_is_mine = (\<lambda>_. True),
     wv_classify = (\<lambda>_. ReceiversFine),
     wv_block_height_by_hash = (\<lambda>h. Inr (if h = block_hash_at 100 then Some 100 else if h = block_hash_at 101 then Some 101 else None)),
     wv_block_info_at = (\<lambda>h. if 100 \<le> h \<and> h \<le> scanned then Some (block_hash_at h) else None),
     wv_first_scanned_block = Some (block_hash_at 100), wv_list_unspent = Inr []\<rparr>"

lemma block_hash_wellformed [simp]: "is_block_hash_wellformed (block_hash_at h)"
  by (simp add: is_block_hash_wellformed_def txid_internal_def block_hash_at_def)

lemma block_hash_nonempty [simp]: "block_hash_at h \<noteq> []"
  using hex_encode_length [of "replicate 32 (ucast h)"] by (auto simp: block_hash_at_def simp del: hex_encode_length)

lemma block_hash_differ: "block_hash_at 101 \<noteq> block_hash_at 100"
proof
  assume "block_hash_at 101 = block_hash_at 100"
  then have "(replicate 32 (ucast (101 :: u32)) :: u8 list) = replicate 32 (ucast (100 :: u32))"
    unfolding block_hash_at_def by (metis hex_decode_encode option.inject)
  then show False by simp
qed

definition fresh_view :: "(unit, unit, string) wallet_view" where
  "fresh_view = (poll_view 110)\<lparr>wv_query_transactions := \<lambda>q. Inr (poll_rows [fresh_tx] q)\<rparr>"

lemma fresh_law: "since_query_law fresh_view {fresh_tx}"
  unfolding since_query_law_def by (auto simp: fresh_view_def poll_rows_def Let_def split: option.split)


text \<open>When the block at the target depth predates the wallet's scan range, \<open>listsinceblock\<close> answers with the earliest
  scanned block, which is above that depth: a transaction in that block, reported with 3 of 6 confirmations, is not
  reported again by the next call.\<close>

theorem listsinceblock_first_block_lost:
  "confirmations (Some 102) (tx_mined_height polled_tx) = 3 \<and>
   lastblock_of (poll_view 102) 6 = block_hash_at 100 \<and>
   listsinceblock (Inr (poll_view 110)) (since_request (lastblock_of (poll_view 102) 6)) =
     Inr (Object [(''transactions'', Array []), (''removed'', Array []), (''lastblock'', String (block_hash_at 110))])"
proof -
  have last: "lastblock_of (poll_view 102) 6 = block_hash_at 100" "lastblock_of (poll_view 110) 1 = block_hash_at 110"
    by (simp_all add: lastblock_of_def poll_view_def)
  have since: "since_height_of (poll_view 110) (since_request (block_hash_at 100)) = Inr (Some 100)"
    by (simp add: since_height_of_def since_request_def positional_def param_def as_str_def poll_view_def)
  have target: "target_conf_of (since_request h) = Inr 1" for h
    by (simp add: target_conf_of_def since_request_def positional_def given_def param_def)
  have rows: "wv_query_transactions (poll_view 110) (since_query (poll_view 110) (Some 100)) = Inr []"
    by (simp add: poll_view_def since_query_def poll_rows_def polled_tx_def saturating_add_def Let_def)
  show ?thesis
    unfolding listsinceblock_def last sum_bind_simps since target rows
    by (simp add: last confirmations_def polled_tx_def)
qed

theorem paginate_history_exact_witness:
  "paginate_history (poll_view 110) \<lparr>hp_from = 0, hp_count = 10, hp_start_height = None, hp_end_height = None\<rparr> (entries_of (poll_view 110) None) =
     Inr (rev (take 10 (drop 0 (rev (concat (map (entries_of (poll_view 110) None) (rev [polled_tx])))))))"
proof -
  have "unat (of_nat limit :: u32) = limit" if "limit \<le> U32_MAX" for limit
    using that by (simp add: unat_of_nat U32_MAX_def)
  then show ?thesis
    using paginate_history_exact [where v = "poll_view 110" and all = "[polled_tx]"
        and page = "\<lparr>hp_from = 0, hp_count = 10, hp_start_height = None, hp_end_height = None\<rparr>" and expand = "entries_of (poll_view 110) None"]
    by (simp add: poll_view_def poll_rows_def U32_MAX_def USIZE_MAX_def)
qed

theorem entries_identify_outputs_witness:
  "distinct (map entry_key (tx_entries (poll_view 110) polled_tx 11 7 None))"
  by (rule entries_identify_outputs) (simp_all add: polled_tx_def polled_output_def)

end
