(* ===== verification/Wallet_Send_Rpc.thy ===== *)
theory Wallet_Send_Rpc
  imports Wallet_History Spend_Rules Operations
begin

text \<open>
  The sending and address methods of \<open>src/rpc/wallet_methods.rs\<close>: reading their parameters, building payments, the
  funding source and the privacy gate of \<open>z_sendmany\<close>, and the operations it starts.  The payment library is a record
  of functions; the actor behind \<open>send\<close> is a parameter.
\<close>

section \<open>Address requests\<close>

definition set_error_message :: "receiver_set_error \<Rightarrow> string" where
  "set_error_message e =
     (case e of
        TransparentInSet \<Rightarrow> ''transparent is not a shielded pool; enable transparent receiving via the '' @
          ''[pools] transparent flag, not as a pool/receiver''
      | EmptyReceiverSet \<Rightarrow> ''at least one shielded pool is required''
      | BadReceiver r \<Rightarrow> receiver_error_message r)"

definition mixed_receivers_error :: rpc_error where
  "mixed_receivers_error = invalid_address_or_key
     (''transparent cannot be combined with shielded receivers; request \"transparent\" alone for a bare t-address'')"

fun receiver_tokens_loop :: "string list \<Rightarrow> receiver list \<Rightarrow> rpc_error + receiver list" where
  "receiver_tokens_loop [] pools = Inr pools"
| "receiver_tokens_loop (tok # toks) pools =
     (let token = trim tok
      in case receiver_from_config_str token of
           Inl RejectIronwood \<Rightarrow> Inl (invalid_address_or_key (receiver_error_message RejectIronwood))
         | Inl (UnknownToken _) \<Rightarrow> Inl (invalid_address_or_key (''Unknown address type '' @ [CHR 0x27] @ token @ [CHR 0x27]))
         | Inr pool \<Rightarrow>
             if is_transparent pool then Inl mixed_receivers_error else receiver_tokens_loop toks (pools @ [pool]))"

definition parse_receiver_tokens :: "string option \<Rightarrow> rpc_error + receiver_request" where
  "parse_receiver_tokens address_type =
     (case map_option trim address_type of
        None \<Rightarrow> Inr DefaultReceivers
      | Some raw \<Rightarrow>
          if raw = [] then Inr DefaultReceivers
          else if to_ascii_lowercase raw = ''unified'' \<or> to_ascii_lowercase raw = ''default'' then Inr DefaultReceivers
          else if to_ascii_lowercase raw = ''transparent'' then Inr TransparentReceiver
          else sum_bind (receiver_tokens_loop (split_on (CHR '','') raw) []) (\<lambda>pools.
            case receiver_set_new pools of
              Inl e \<Rightarrow> Inl (invalid_address_or_key (''Invalid address type: '' @ set_error_message e))
            | Inr s \<Rightarrow> Inr (ShieldedReceivers s)))"

definition ACCOUNT_RANGE_ERROR :: rpc_error where
  "ACCOUNT_RANGE_ERROR = invalid_parameter ''Invalid account number, must be 0 <= account <= (2^31)-2.''"

definition parse_account_arg :: "json option \<Rightarrow> rpc_error + nat" where
  "parse_account_arg v =
     (case v of
        None \<Rightarrow> Inl (missing_param ''z_getaddressforaccount requires an account number'')
      | Some v \<Rightarrow>
          (case as_i64 v of
             None \<Rightarrow> Inl ACCOUNT_RANGE_ERROR
           | Some n \<Rightarrow>
               if \<not> (0 \<le> n \<and> n \<le> 2 ^ 31 - 2) then Inl ACCOUNT_RANGE_ERROR
               else if n \<noteq> 0 then Inl (wallet_error (''Error: account '' @ show_nat (nat n) @
                 '' has not been generated; zecd wallets have a single account (account 0).''))
               else Inr 0))"

fun receiver_types_loop :: "json list \<Rightarrow> receiver list \<Rightarrow> string list \<Rightarrow> rpc_error + receiver list \<times> string list" where
  "receiver_types_loop [] pools invalid = Inr (pools, invalid)"
| "receiver_types_loop (item # items) pools invalid =
     (case as_str item of
        None \<Rightarrow> Inl (type_error ''receiver type must be a string'')
      | Some s \<Rightarrow>
          if to_ascii_lowercase s = ''p2pkh'' then receiver_types_loop items (pools @ [RTransparent]) invalid
          else (case receiver_from_config_str s of
                  Inr p \<Rightarrow> receiver_types_loop items (pools @ [p]) invalid
                | Inl RejectIronwood \<Rightarrow> Inl (invalid_parameter (receiver_error_message RejectIronwood))
                | Inl (UnknownToken _) \<Rightarrow> receiver_types_loop items pools (invalid @ [s])))"

definition TRANSPARENT_NOT_ENABLED :: rpc_error where
  "TRANSPARENT_NOT_ENABLED = invalid_parameter
     ''transparent addresses are not enabled on this wallet; set [pools] transparent = true''"

definition parse_receiver_types_array :: "json option \<Rightarrow> receiver_set \<Rightarrow> bool \<Rightarrow> rpc_error + receiver_request" where
  "parse_receiver_types_array v enabled_pools transparent_enabled =
     (case v of
        None \<Rightarrow> Inr DefaultReceivers
      | Some Null \<Rightarrow> Inr DefaultReceivers
      | Some (Array arr) \<Rightarrow>
          if arr = [] then Inr DefaultReceivers
          else sum_bind (receiver_types_loop arr [] []) (\<lambda>(pools, invalid).
            if invalid \<noteq> [] then Inl (invalid_parameter (join '', '' invalid @ '' '' @
                (if length invalid = 1 then ''is an invalid receiver type'' else ''are invalid receiver types'') @
                ''. Arguments must be \"p2pkh\", \"sapling\" or \"orchard\".''))
            else if list_ex is_transparent pools
            then (if list_ex (\<lambda>p. \<not> is_transparent p) pools
                  then Inl (invalid_parameter (''p2pkh cannot be combined with a shielded receiver: a transparent receiver is handed '' @
                    ''out as a bare t-address (ZIP-316 forbids a transparent-only unified address, and zecd never mixes a transparent '' @
                    ''receiver into one). Request [\"p2pkh\"] alone for a transparent address.''))
                  else if \<not> transparent_enabled then Inl TRANSPARENT_NOT_ENABLED
                  else Inr TransparentReceiver)
            else (case receiver_set_new pools of
                    Inl e \<Rightarrow> Inl (invalid_parameter (''invalid receiver_types: '' @ set_error_message e))
                  | Inr s \<Rightarrow>
                      if \<not> is_subset_of s enabled_pools
                      then Inl (invalid_parameter (''receiver_types requests a pool not enabled on this wallet; enabled pools: '' @
                        rs_display_names enabled_pools))
                      else Inr (ShieldedReceivers s)))
      | Some _ \<Rightarrow> Inl (invalid_parameter ''Invalid parameter, expected receiver_types to be an array of strings''))"

text \<open>The diversifier space is that of \<open>DiversifierIndex\<close>: 11 bytes.\<close>

definition DIVERSIFIER_ERROR :: rpc_error where
  "DIVERSIFIER_ERROR = invalid_parameter ''Invalid diversifier index, must be an unsigned integer.''"

definition parse_diversifier_index_arg :: "json option \<Rightarrow> rpc_error + nat option" where
  "parse_diversifier_index_arg v =
     (case v of
        None \<Rightarrow> Inr None
      | Some Null \<Rightarrow> Inr None
      | Some (Number num) \<Rightarrow>
          (case parse_unsigned (2 ^ 128 - 1) num of
             None \<Rightarrow> Inl DIVERSIFIER_ERROR
           | Some parsed \<Rightarrow> if parsed < 2 ^ 88 then Inr (Some parsed) else Inl (invalid_parameter ''diversifier index is too large.''))
      | Some _ \<Rightarrow> Inl DIVERSIFIER_ERROR)"

section \<open>Depths and policies\<close>

record confirmations_policy =
  cp_trusted :: u32
  cp_untrusted :: u32
  cp_allow_zero_conf_shielding :: bool

definition symmetrical_confirmations :: "u32 \<Rightarrow> confirmations_policy" where
  "symmetrical_confirmations minconf =
     \<lparr>cp_trusted = max minconf 1, cp_untrusted = max minconf 1, cp_allow_zero_conf_shielding = False\<rparr>"

definition minconf_policy :: "json option \<Rightarrow> confirmations_policy \<Rightarrow> rpc_error + confirmations_policy" where
  "minconf_policy v dflt =
     (case v of
        None \<Rightarrow> Inr dflt
      | Some Null \<Rightarrow> Inr dflt
      | Some v \<Rightarrow>
          (case as_i64 v of
             Some n \<Rightarrow> (let n = max n 1 in Inr (symmetrical_confirmations (if n < 2 ^ 32 then of_int n else - 1)))
           | None \<Rightarrow> Inl (type_error ''minconf must be a number'')))"

definition check_balance_dummy :: "json option \<Rightarrow> rpc_error + unit" where
  "check_balance_dummy v =
     (case v of
        None \<Rightarrow> Inr ()
      | Some Null \<Rightarrow> Inr ()
      | Some (String s) \<Rightarrow>
          if s = ''*'' then Inr ()
          else Inl (rpc_error_new RPC_METHOD_DEPRECATED ''dummy first argument must be excluded or set to \"*\".'')
      | Some _ \<Rightarrow> Inl (type_error ''dummy must be a string''))"

definition param_engaged :: "json \<Rightarrow> bool" where
  "param_engaged v = (case v of Null \<Rightarrow> False | Bool b \<Rightarrow> b | Array a \<Rightarrow> a \<noteq> [] | _ \<Rightarrow> True)"

definition engaged :: "rpc_request \<Rightarrow> nat \<Rightarrow> bool" where
  "engaged req i = (case param req i of Some v \<Rightarrow> param_engaged v | None \<Rightarrow> False)"

definition shielded_family_of :: "('o, 's, 'z) address_codec \<Rightarrow> ('o, 's) address \<Rightarrow> shielded_family option" where
  "shielded_family_of c addr =
     (case (can_receive_as c addr SaplingPool, can_receive_as c addr OrchardPool) of
        (True, False) \<Rightarrow> Some FamilySapling
      | (False, True) \<Rightarrow> Some FamilyOrchard
      | _ \<Rightarrow> None)"

definition verbose_param :: "json option \<Rightarrow> rpc_error + bool" where
  "verbose_param v =
     (case v of
        None \<Rightarrow> Inr False
      | Some Null \<Rightarrow> Inr False
      | Some (Bool b) \<Rightarrow> Inr b
      | Some _ \<Rightarrow> Inl (type_error ''verbose must be a boolean''))"

definition send_result :: "string \<Rightarrow> bool \<Rightarrow> json" where
  "send_result txid verbose =
     (if verbose then Object [(''txid'', String txid), (''fee_reason'', String ''ZIP 317'')] else String txid)"

definition privacy_from_policy :: "string option \<Rightarrow> send_privacy \<Rightarrow> rpc_error + send_privacy" where
  "privacy_from_policy s dflt =
     (case s of
        None \<Rightarrow> Inr dflt
      | Some p \<Rightarrow>
          if p = ''LegacyCompat'' then Inr dflt
          else if p = ''FullPrivacy'' then Inr FullPrivacy
          else if p = ''AllowRevealedAmounts'' then Inr AllowRevealedAmounts
          else if p = ''AllowRevealedRecipients'' then Inr AllowRevealedRecipients
          else if p = ''AllowRevealedSenders'' \<or> p = ''AllowLinkingAccountAddresses'' then Inr AllowRevealedSenders
          else if p = ''AllowFullyTransparent'' \<or> p = ''NoPrivacy'' then Inr AllowFullyTransparent
          else Inl (invalid_parameter (''Unknown privacy policy: '' @ p)))"

fun opid_loop :: "(string \<Rightarrow> bool) \<Rightarrow> json list \<Rightarrow> rpc_error + operation_id list" where
  "opid_loop uuid [] = Inr []"
| "opid_loop uuid (v # vs) =
     (case as_str v of
        None \<Rightarrow> Inl (invalid_parameter ''Invalid operation ID, expected a string'')
      | Some s \<Rightarrow> sum_bind (operation_id_from_str uuid s) (\<lambda>i. sum_bind (opid_loop uuid vs) (\<lambda>is. Inr (i # is))))"

definition parse_opid_filter :: "(string \<Rightarrow> bool) \<Rightarrow> rpc_request \<Rightarrow> nat \<Rightarrow> rpc_error + operation_id list option" where
  "parse_opid_filter uuid req i =
     (case param req i of
        None \<Rightarrow> Inr None
      | Some Null \<Rightarrow> Inr None
      | Some (Array arr) \<Rightarrow> sum_bind (opid_loop uuid arr) (\<lambda>ids. Inr (Some ids))
      | Some _ \<Rightarrow> Inl (invalid_parameter ''Invalid parameter, expected an array of operation ids''))"

definition DEFAULT_WAIT_OPERATION_TIMEOUT_SECS :: int where "DEFAULT_WAIT_OPERATION_TIMEOUT_SECS = 120"
definition MAX_WAIT_OPERATION_TIMEOUT_SECS :: int where "MAX_WAIT_OPERATION_TIMEOUT_SECS = 3600"

definition wait_timeout_secs :: "rpc_request \<Rightarrow> nat \<Rightarrow> rpc_error + int" where
  "wait_timeout_secs req i =
     (case given req i of
        None \<Rightarrow> Inr DEFAULT_WAIT_OPERATION_TIMEOUT_SECS
      | Some v \<Rightarrow>
          (case as_i64 v of
             None \<Rightarrow> Inl (invalid_parameter ''Invalid parameter, timeout must be an integer number of seconds'')
           | Some n \<Rightarrow>
               if n < 0 then Inl (invalid_parameter ''Timeout cannot be negative.'')
               else Inr (min n MAX_WAIT_OPERATION_TIMEOUT_SECS)))"

definition MAX_UNLOCK_TIMEOUT_SECS :: int where "MAX_UNLOCK_TIMEOUT_SECS = 100000000"

definition walletpassphrase_args :: "rpc_request \<Rightarrow> rpc_error + string \<times> int" where
  "walletpassphrase_args req =
     sum_bind (require_str req 0 ''walletpassphrase requires a passphrase'') (\<lambda>passphrase.
     case Option.bind (param req 1) as_i64 of
       None \<Rightarrow> Inl (invalid_parameter ''walletpassphrase requires an integer timeout (seconds)'')
     | Some timeout \<Rightarrow>
         if timeout < 0 then Inl (invalid_parameter ''Timeout cannot be negative.'')
         else if passphrase = [] then Inl (invalid_parameter ''passphrase cannot be empty'')
         else Inr (passphrase, min timeout MAX_UNLOCK_TIMEOUT_SECS))"

section \<open>Payments\<close>

text \<open>
  The payment library: a memo from bytes, the range of an amount, whether a payment can be built, and the error of a
  request, if any.
\<close>

record 'z built_payment =
  bp_recipient :: 'z
  bp_zats :: u64
  bp_memo :: "u8 list option"

record 'z payment_lib =
  pl_memo :: "u8 list \<Rightarrow> u8 list option"
  pl_zatoshis :: "u64 \<Rightarrow> bool"
  pl_payment :: "'z built_payment \<Rightarrow> bool"
  pl_request :: "'z built_payment list \<Rightarrow> string option"

definition recipient_refused :: "send_privacy \<Rightarrow> string \<Rightarrow> rpc_error" where
  "recipient_refused privacy addr = invalid_parameter (''Privacy policy '' @ policy_name privacy @ '' rejects '' @ addr @
     '': it has no shielded receiver, so paying it would reveal the amount and recipient on-chain. Use privacyPolicy '' @
     ''\"AllowRevealedRecipients\" (or set [spend] privacy_policy) to permit this.'')"

definition build_memo :: "'z payment_lib \<Rightarrow> string option \<Rightarrow> rpc_error + u8 list option" where
  "build_memo lib memo_hex =
     (case memo_hex of
        None \<Rightarrow> Inr None
      | Some h \<Rightarrow>
          (case hex_decode h of
             None \<Rightarrow> Inl (invalid_parameter ''Invalid parameter, expected memo data in hexadecimal format.'')
           | Some bytes \<Rightarrow>
               (case pl_memo lib bytes of
                  None \<Rightarrow> Inl (invalid_parameter ''Invalid parameter, memo is longer than the maximum allowed 512 bytes.'')
                | Some mb \<Rightarrow> Inr (Some mb))))"

definition receives_shielded :: "('o, 's, 'z) address_codec \<Rightarrow> string \<Rightarrow> bool" where
  "receives_shielded c addr = (case decode_on_network c addr of Some a \<Rightarrow> has_shielded_receiver c a | None \<Rightarrow> False)"

definition is_tex :: "('o, 's, 'z) address_codec \<Rightarrow> string \<Rightarrow> bool" where
  "is_tex c addr = (case decode_on_network c addr of Some (ATex _) \<Rightarrow> True | _ \<Rightarrow> False)"

definition build_payment ::
  "'z payment_lib \<Rightarrow> ('o, 's, 'z) address_codec \<Rightarrow> coin \<Rightarrow> send_privacy \<Rightarrow> string \<Rightarrow> json \<Rightarrow> string option \<Rightarrow> bool
     \<Rightarrow> rpc_error + 'z built_payment" where
  "build_payment lib c coin privacy addr amount memo_hex allow_zero =
     sum_bind (parse_recipient_on_network c coin addr) (\<lambda>zaddr.
     if is_tex c addr
     then Inl (invalid_parameter (''Invalid parameter, TEX addresses are not supported as a recipient: '' @ addr))
     else if \<not> allows_transparent_recipient privacy \<and> \<not> receives_shielded c addr then Inl (recipient_refused privacy addr)
     else sum_bind (value_to_zats amount) (\<lambda>zats.
     if \<not> allow_zero \<and> zats = 0 then Inl (type_error ''Invalid amount'')
     else if \<not> pl_zatoshis lib zats then Inl (type_error ''Amount out of range'')
     else sum_bind (build_memo lib memo_hex) (\<lambda>memo.
     let p = \<lparr>bp_recipient = zaddr, bp_zats = zats, bp_memo = memo\<rparr>
     in if pl_payment lib p then Inr p
        else Inl (invalid_parameter ''Memo cannot be used with a transparent recipient''))))"

definition transaction_request :: "'z payment_lib \<Rightarrow> 'z built_payment list \<Rightarrow> rpc_error + 'z built_payment list" where
  "transaction_request lib payments =
     (case pl_request lib payments of
        None \<Rightarrow> Inr payments
      | Some e \<Rightarrow> Inl (wallet_error (''invalid payment request: '' @ e)))"

section \<open>Sends\<close>

record ('o, 's, 'z) send_wallet =
  sw_name :: string
  sw_coin :: coin
  sw_view :: "('o, 's, 'z) wallet_view"
  sw_confirmations :: confirmations_policy
  sw_send :: "'z built_payment list \<Rightarrow> confirmations_policy option \<Rightarrow> send_privacy \<Rightarrow> send_source \<Rightarrow> rpc_error + string"

record spend_settings =
  ss_privacy :: send_privacy
  ss_allow_duplicate_shielded_recipients :: bool

definition memo_param :: "json option \<Rightarrow> rpc_error + string option" where
  "memo_param v =
     (case v of
        None \<Rightarrow> Inr None
      | Some Null \<Rightarrow> Inr None
      | Some (String s) \<Rightarrow> Inr (if s = [] then None else Some s)
      | Some _ \<Rightarrow> Inl (type_error ''memo must be a hex string''))"

definition sendtoaddress ::
  "'z payment_lib \<Rightarrow> spend_settings \<Rightarrow> rpc_error + ('o, 's, 'z) send_wallet \<Rightarrow> rpc_request \<Rightarrow> rpc_error + json" where
  "sendtoaddress lib cfg wallet req =
     sum_bind (require_str req 0 ''sendtoaddress requires an address'') (\<lambda>addr.
     case given req 1 of
       None \<Rightarrow> Inl (missing_param ''sendtoaddress requires an amount'')
     | Some amount \<Rightarrow>
         if engaged req 4
         then Inl (invalid_parameter ''subtractfeefromamount is not supported (fees are ZIP-317, paid by the sender)'')
         else if engaged req 9
         then Inl (invalid_parameter ''fee_rate is not supported (fees are ZIP-317, computed by the wallet)'')
         else sum_bind (verbose_param (param req 10)) (\<lambda>verbose.
              sum_bind (memo_param (param req 11)) (\<lambda>memo.
              sum_bind wallet (\<lambda>h.
              sum_bind (build_payment lib (wv_codec (sw_view h)) (sw_coin h) (ss_privacy cfg) addr amount memo False) (\<lambda>payment.
              sum_bind (transaction_request lib [payment]) (\<lambda>request.
              sum_bind (sw_send h request None (ss_privacy cfg) Unspecified) (\<lambda>txid.
                Inr (send_result txid verbose))))))))"

fun sendmany_payments ::
  "'z payment_lib \<Rightarrow> ('o, 's, 'z) address_codec \<Rightarrow> coin \<Rightarrow> send_privacy \<Rightarrow> (string \<times> json) list \<Rightarrow> rpc_error + 'z built_payment list" where
  "sendmany_payments lib c coin privacy [] = Inr []"
| "sendmany_payments lib c coin privacy ((addr, amount) # rest) =
     sum_bind (build_payment lib c coin privacy addr amount None False) (\<lambda>p.
     sum_bind (sendmany_payments lib c coin privacy rest) (\<lambda>ps. Inr (p # ps)))"

definition sendmany ::
  "'z payment_lib \<Rightarrow> spend_settings \<Rightarrow> rpc_error + ('o, 's, 'z) send_wallet \<Rightarrow> rpc_request \<Rightarrow> rpc_error + json" where
  "sendmany lib cfg wallet req =
     sum_bind (case given req 1 of
         None \<Rightarrow> Inl (missing_param ''sendmany requires an amounts object'')
       | Some (Object kvs) \<Rightarrow> Inr kvs
       | Some _ \<Rightarrow> Inl (type_error ''amounts must be an address->amount object'')) (\<lambda>recipients.
     if engaged req 4
     then Inl (invalid_parameter ''subtractfeefrom is not supported (fees are ZIP-317, paid by the sender)'')
     else if engaged req 8
     then Inl (invalid_parameter ''fee_rate is not supported (fees are ZIP-317, computed by the wallet)'')
     else sum_bind (verbose_param (param req 9)) (\<lambda>verbose.
          sum_bind wallet (\<lambda>h.
          sum_bind (sendmany_payments lib (wv_codec (sw_view h)) (sw_coin h) (ss_privacy cfg) recipients) (\<lambda>payments.
          if payments = [] then Inl (invalid_parameter ''sendmany requires at least one recipient'')
          else sum_bind (transaction_request lib payments) (\<lambda>request.
               sum_bind (sw_send h request None (ss_privacy cfg) Unspecified) (\<lambda>txid.
                 Inr (send_result txid verbose)))))))"

text \<open>The funding source of \<open>z_sendmany\<close>.\<close>

definition source_of :: "('o, 's, 'z) wallet_view \<Rightarrow> string \<Rightarrow> rpc_error + send_source" where
  "source_of v fromaddress =
     (if fromaddress = ''ANY_TADDR'' then Inr (Transparent None)
      else if fromaddress = ''ANY_SAPLING'' then Inr (ShieldedFamily FamilySapling)
      else if fromaddress = ''ANY_ORCHARD'' then Inr (ShieldedFamily FamilyOrchard)
      else if fromaddress = ''ANY_SPROUT'' then Inl (invalid_parameter ''Invalid parameter, Sprout is not supported'')
      else case decode_on_network (wv_codec v) fromaddress of
        None \<Rightarrow> Inl (invalid_address_or_key ''Invalid from address: should be a taddr, zaddr, or unified address'')
      | Some decoded \<Rightarrow>
          (case wv_classify v fromaddress of
             Inconsistent why \<Rightarrow> Inl (invalid_address_or_key why)
           | ReceiversFine \<Rightarrow>
               if \<not> wv_is_mine v fromaddress
               then Inl (invalid_address_or_key ''Invalid from address, no payment source found for address.'')
               else (case decoded of
                       ATransparent t \<Rightarrow> Inr (Transparent (Some t))
                     | _ \<Rightarrow> (case shielded_family_of (wv_codec v) decoded of
                                 Some family \<Rightarrow> Inr (ShieldedFamily family)
                               | None \<Rightarrow> Inr Shielded))))"

definition OUTPUT_KEYS :: "string list" where "OUTPUT_KEYS = [''address'', ''amount'', ''memo'']"

definition read_output :: "json \<Rightarrow> rpc_error + string \<times> json \<times> string option" where
  "read_output out =
     (case out of
        Object obj \<Rightarrow>
          (case find (\<lambda>k. k \<notin> set OUTPUT_KEYS) (map fst obj) of
             Some key \<Rightarrow> Inl (invalid_parameter (''Invalid parameter, unrecognized key: '' @ key))
           | None \<Rightarrow>
               (case Option.bind (map_of obj ''address'') as_str of
                  None \<Rightarrow> Inl (invalid_parameter ''amounts entry requires an address'')
                | Some addr \<Rightarrow>
                    (case map_of obj ''amount'' of
                       None \<Rightarrow> Inl (invalid_parameter ''amounts entry requires an amount'')
                     | Some amount \<Rightarrow> sum_bind (memo_param (map_of obj ''memo'')) (\<lambda>memo. Inr (addr, amount, memo)))))
      | _ \<Rightarrow> Inl (invalid_parameter ''amounts entry must be an object''))"

definition duplicate_error :: "string \<Rightarrow> bool \<Rightarrow> rpc_error" where
  "duplicate_error addr shielded = invalid_parameter (''Invalid parameter, duplicated recipient address: '' @ addr @
     (if shielded then '' (set [rpc] allow_duplicate_shielded_recipients to permit repeated shielded recipients)'' else []))"

fun outputs_loop ::
  "'z payment_lib \<Rightarrow> ('o, 's, 'z) address_codec \<Rightarrow> coin \<Rightarrow> send_privacy \<Rightarrow> bool \<Rightarrow> json list \<Rightarrow> string set \<Rightarrow> bool \<Rightarrow> 'z built_payment list
     \<Rightarrow> rpc_error + bool \<times> 'z built_payment list" where
  "outputs_loop lib c coin privacy allow_dup [] seen transparent payments = Inr (transparent, payments)"
| "outputs_loop lib c coin privacy allow_dup (out # outs) seen transparent payments =
     sum_bind (read_output out) (\<lambda>(addr, amount, memo).
     let shielded = receives_shielded c addr;
         transparent = (transparent \<or> decode_on_network c addr \<noteq> None \<and> \<not> shielded)
     in if addr \<in> seen \<and> \<not> (shielded \<and> allow_dup) then Inl (duplicate_error addr shielded)
        else sum_bind (build_payment lib c coin privacy addr amount memo True) (\<lambda>p.
          outputs_loop lib c coin privacy allow_dup outs (insert addr seen) transparent (payments @ [p])))"

text \<open>What the background task of an accepted \<open>z_sendmany\<close> runs.\<close>

record 'z queued_send =
  qs_request :: "'z built_payment list"
  qs_policy :: confirmations_policy
  qs_privacy :: send_privacy
  qs_source :: send_source

definition sendmany_queue ::
  "'z payment_lib \<Rightarrow> spend_settings \<Rightarrow> ('o, 's, 'z) send_wallet \<Rightarrow> send_source \<Rightarrow> send_privacy \<Rightarrow> confirmations_policy \<Rightarrow> json list
     \<Rightarrow> rpc_error + 'z queued_send" where
  "sendmany_queue lib cfg h source privacy policy outputs =
     sum_bind (outputs_loop lib (wv_codec (sw_view h)) (sw_coin h) privacy
         (ss_allow_duplicate_shielded_recipients cfg) outputs {} False []) (\<lambda>(transparent, payments).
     if source_is_transparent source \<and> transparent \<and> privacy \<noteq> AllowFullyTransparent
     then Inl insufficient_privacy_for_fully_transparent
     else sum_bind (transaction_request lib payments) (\<lambda>request.
       Inr \<lparr>qs_request = request, qs_policy = policy, qs_privacy = privacy, qs_source = source\<rparr>))"

definition sendmany_outputs :: "rpc_request \<Rightarrow> rpc_error + json list" where
  "sendmany_outputs req =
     (case param req 1 of
        Some (Array outputs) \<Rightarrow>
          if outputs = [] then Inl (invalid_parameter ''Invalid parameter, amounts array is empty.'') else Inr outputs
      | _ \<Rightarrow> Inl (invalid_parameter ''Invalid parameter, expected amounts array''))"

definition sendmany_privacy :: "spend_settings \<Rightarrow> send_source \<Rightarrow> rpc_request \<Rightarrow> rpc_error + send_privacy" where
  "sendmany_privacy cfg source req =
     sum_bind (privacy_from_policy (Option.bind (param req 4) as_str) (ss_privacy cfg)) (\<lambda>privacy.
     if source_is_transparent source \<and> \<not> allows_transparent_inputs privacy
     then Inl (insufficient_privacy_for_transparent_sender privacy)
     else Inr privacy)"

definition sendmany_plan ::
  "'z payment_lib \<Rightarrow> spend_settings \<Rightarrow> ('o, 's, 'z) send_wallet \<Rightarrow> rpc_request \<Rightarrow> rpc_error + string \<times> json list \<times> 'z queued_send" where
  "sendmany_plan lib cfg h req =
     sum_bind (require_str req 0 ''z_sendmany requires a fromaddress'') (\<lambda>fromaddress.
     sum_bind (source_of (sw_view h) fromaddress) (\<lambda>source.
     sum_bind (sendmany_outputs req) (\<lambda>outputs.
     if engaged req 3 then Inl (invalid_parameter ''fee is not supported (fees are ZIP-317, computed by the wallet)'')
     else sum_bind (sendmany_privacy cfg source req) (\<lambda>privacy.
          sum_bind (minconf_policy (param req 2) (sw_confirmations h)) (\<lambda>policy.
          sum_bind (sendmany_queue lib cfg h source privacy policy outputs) (\<lambda>job.
            Inr (fromaddress, outputs, job)))))))"

definition z_sendmany ::
  "'z payment_lib \<Rightarrow> spend_settings \<Rightarrow> rpc_error + ('o, 's, 'z) send_wallet \<Rightarrow> operation_id \<Rightarrow> int \<Rightarrow> rpc_request
     \<Rightarrow> operation_registry \<Rightarrow> (rpc_error + json \<times> 'z queued_send) \<times> operation_registry" where
  "z_sendmany lib cfg wallet fresh_id now req m =
     (case sum_bind wallet (\<lambda>h. sum_bind (sendmany_plan lib cfg h req) (\<lambda>plan. Inr (h, plan))) of
        Inl e \<Rightarrow> (Inl e, m)
      | Inr (h, fromaddress, outputs, job) \<Rightarrow>
          (let ctx = \<lparr>ctx_method = ''z_sendmany'', ctx_params = Object [(''fromaddress'', String fromaddress), (''amounts'', Array outputs),
                 (''minconf'', case param req 2 of Some v \<Rightarrow> v | None \<Rightarrow> json_int 1)]\<rparr>
           in case try_insert m (sw_name h) (Some ctx) fresh_id now of
                (Inl e, m) \<Rightarrow> (Inl e, m)
              | (Inr opid, m) \<Rightarrow> (Inr (String opid, job), m)))"

section \<open>What an accepted send satisfies\<close>

text \<open>A payment the policy admits: to a recipient of the wallet's network that is not a TEX address, with a shielded
  receiver unless the policy reveals recipients, for the amount the caller wrote.\<close>

definition admitted :: "('o, 's, 'z) address_codec \<Rightarrow> send_privacy \<Rightarrow> string \<times> json \<times> string option \<Rightarrow> 'z built_payment \<Rightarrow> bool" where
  "admitted c privacy item p \<longleftrightarrow>
     (case item of (addr, amount, memo) \<Rightarrow>
        try_from_encoded c addr = Some (bp_recipient p) \<and> decode_on_network c addr \<noteq> None \<and> \<not> is_tex c addr \<and>
        (receives_shielded c addr \<or> allows_transparent_recipient privacy) \<and>
        value_to_zats amount = Inr (bp_zats p) \<and> unat (bp_zats p) \<le> MAX_MONEY)"

lemma build_payment_admitted:
  assumes "build_payment lib c coin privacy addr amount memo z = Inr p"
  shows "admitted c privacy (addr, amount, memo) p"
proof -
  obtain zaddr zats memo' where zaddr: "parse_recipient_on_network c coin addr = Inr zaddr" and tex: "\<not> is_tex c addr"
    and pol: "allows_transparent_recipient privacy \<or> receives_shielded c addr" and zats: "value_to_zats amount = Inr zats"
    and p: "p = \<lparr>bp_recipient = zaddr, bp_zats = zats, bp_memo = memo'\<rparr>"
    using assms by (auto simp: build_payment_def sum_bind_Inr Let_def split: if_splits)
  have "try_from_encoded c addr = Some zaddr" "decode_on_network c addr \<noteq> None"
    using zaddr by (auto simp: parse_recipient_on_network_def parse_recipient_def split: sum.splits option.splits if_splits)
  moreover obtain t where "unat zats \<le> MAX_MONEY"
    using value_to_zats_literal [OF zats] by blast
  ultimately show ?thesis
    using tex pol zats p by (auto simp: admitted_def)
qed

definition repeat_allowed :: "('o, 's, 'z) address_codec \<Rightarrow> bool \<Rightarrow> string \<Rightarrow> string \<Rightarrow> bool" where
  "repeat_allowed c allow_dup a b \<longleftrightarrow> a = b \<longrightarrow> receives_shielded c b \<and> allow_dup"

lemma outputs_loop_sound:
  assumes "outputs_loop lib c coin privacy dup outs seen tr ps = Inr (tr', ps')"
  shows "\<exists>items qs. map read_output outs = map Inr items \<and> ps' = ps @ qs \<and> list_all2 (admitted c privacy) items qs \<and>
    (tr' \<longleftrightarrow> tr \<or> (\<exists>item \<in> set items. \<not> receives_shielded c (fst item))) \<and>
    sorted_wrt (repeat_allowed c dup) (map fst items) \<and> (\<forall>a \<in> seen. \<forall>item \<in> set items. repeat_allowed c dup a (fst item))"
  using assms
proof (induction outs arbitrary: seen tr ps)
  case (Cons out outs)
  obtain addr amount memo p where out: "read_output out = Inr (addr, amount, memo)"
    and dup: "addr \<in> seen \<longrightarrow> receives_shielded c addr \<and> dup"
    and p: "build_payment lib c coin privacy addr amount memo True = Inr p"
    and rest: "outputs_loop lib c coin privacy dup outs (insert addr seen)
        (tr \<or> decode_on_network c addr \<noteq> None \<and> \<not> receives_shielded c addr) (ps @ [p]) = Inr (tr', ps')"
    using Cons.prems by (auto simp: sum_bind_Inr Let_def split: if_splits)
  note adm = build_payment_admitted [OF p]
  from Cons.IH [OF rest] obtain items qs where ih: "map read_output outs = map Inr items" "ps' = (ps @ [p]) @ qs"
    "list_all2 (admitted c privacy) items qs"
    "tr' \<longleftrightarrow> (tr \<or> decode_on_network c addr \<noteq> None \<and> \<not> receives_shielded c addr) \<or> (\<exists>item \<in> set items. \<not> receives_shielded c (fst item))"
    "sorted_wrt (repeat_allowed c dup) (map fst items)"
    "\<forall>a \<in> insert addr seen. \<forall>item \<in> set items. repeat_allowed c dup a (fst item)"
    by blast
  have dec: "decode_on_network c addr \<noteq> None"
    using adm by (simp add: admitted_def)
  have fresh: "\<forall>a \<in> seen. repeat_allowed c dup a addr"
    using dup by (auto simp: repeat_allowed_def)
  show ?case
  proof (intro exI [of _ "(addr, amount, memo) # items"] exI [of _ "p # qs"] conjI)
    show "tr' \<longleftrightarrow> tr \<or> (\<exists>item \<in> set ((addr, amount, memo) # items). \<not> receives_shielded c (fst item))"
      using ih(4) dec by simp
    show "sorted_wrt (repeat_allowed c dup) (map fst ((addr, amount, memo) # items))"
      using ih(5,6) by simp
    show "\<forall>a \<in> seen. \<forall>item \<in> set ((addr, amount, memo) # items). repeat_allowed c dup a (fst item)"
      using ih(6) fresh by simp
  qed (use ih(1-3) out adm in simp_all)
qed simp

text \<open>What a queued send promises of the outputs it was asked for.\<close>

definition keeps_policy :: "('o, 's, 'z) address_codec \<Rightarrow> bool \<Rightarrow> json list \<Rightarrow> 'z queued_send \<Rightarrow> bool" where
  "keeps_policy c allow_dup outputs job \<longleftrightarrow>
     (\<exists>items. map read_output outputs = map Inr items \<and>
        list_all2 (admitted c (qs_privacy job)) items (qs_request job) \<and>
        sorted_wrt (repeat_allowed c allow_dup) (map fst items) \<and>
        (source_is_transparent (qs_source job) \<longrightarrow> allows_transparent_inputs (qs_privacy job) \<and>
          (qs_privacy job = AllowFullyTransparent \<or> (\<forall>item \<in> set items. receives_shielded c (fst item)))))"

lemma sendmany_queue_sound:
  assumes "sendmany_queue lib cfg h source privacy policy outputs = Inr job"
    and "source_is_transparent source \<longrightarrow> allows_transparent_inputs privacy"
  shows "qs_source job = source \<and> qs_privacy job = privacy \<and>
    keeps_policy (wv_codec (sw_view h)) (ss_allow_duplicate_shielded_recipients cfg) outputs job"
proof -
  let ?c = "wv_codec (sw_view h)" and ?dup = "ss_allow_duplicate_shielded_recipients cfg"
  obtain tr where q: "qs_privacy job = privacy" "qs_source job = source"
    and loop: "outputs_loop lib ?c (sw_coin h) privacy ?dup outputs {} False [] = Inr (tr, qs_request job)"
    and full: "source_is_transparent source \<and> tr \<longrightarrow> privacy = AllowFullyTransparent"
    using assms(1)
    by (cases "outputs_loop lib ?c (sw_coin h) privacy ?dup outputs {} False []")
       (auto simp: sendmany_queue_def sum_bind_Inr transaction_request_def split: if_splits option.splits)
  from outputs_loop_sound [OF loop] obtain items where items: "map read_output outputs = map Inr items"
    "list_all2 (admitted ?c privacy) items (qs_request job)" "tr \<longleftrightarrow> (\<exists>item \<in> set items. \<not> receives_shielded ?c (fst item))"
    "sorted_wrt (repeat_allowed ?c ?dup) (map fst items)"
    by auto
  have "keeps_policy ?c ?dup outputs job"
    unfolding keeps_policy_def using items full assms(2) q by (intro exI [of _ items]) (auto simp only: simp_thms)
  with q show ?thesis
    by simp
qed

lemma sendmany_plan_sound:
  assumes "sendmany_plan lib cfg h req = Inr (fa, outputs, job)"
  shows "param req 1 = Some (Array outputs) \<and> outputs \<noteq> [] \<and> source_of (sw_view h) fa = Inr (qs_source job) \<and>
    keeps_policy (wv_codec (sw_view h)) (ss_allow_duplicate_shielded_recipients cfg) outputs job"
proof -
  obtain source privacy policy where src: "source_of (sw_view h) fa = Inr source" and outs: "sendmany_outputs req = Inr outputs"
    and priv: "sendmany_privacy cfg source req = Inr privacy"
    and queue: "sendmany_queue lib cfg h source privacy policy outputs = Inr job"
    using assms by (auto simp: sendmany_plan_def sum_bind_Inr split: if_splits)
  have "source_is_transparent source \<longrightarrow> allows_transparent_inputs privacy"
    using priv by (auto simp: sendmany_privacy_def sum_bind_Inr split: if_splits)
  with queue src have "source_of (sw_view h) fa = Inr (qs_source job) \<and>
    keeps_policy (wv_codec (sw_view h)) (ss_allow_duplicate_shielded_recipients cfg) outputs job"
    using sendmany_queue_sound by blast
  moreover have "param req 1 = Some (Array outputs) \<and> outputs \<noteq> []"
    using outs by (auto simp: sendmany_outputs_def split: option.splits json.splits if_splits)
  ultimately show ?thesis
    by blast
qed


text \<open>A wallet that pays one shielded recipient with full privacy.\<close>

definition sample_send_wallet :: "(unit, unit, string) send_wallet" where
  "sample_send_wallet = \<lparr>sw_name = ''w'', sw_coin = Zcash, sw_view = poll_view 5, sw_confirmations = symmetrical_confirmations 3,
     sw_send = (\<lambda>_ _ _ _. Inr ''t'')\<rparr>"

definition sample_payment_lib :: "string payment_lib" where
  "sample_payment_lib = \<lparr>pl_memo = Some, pl_zatoshis = (\<lambda>_. True), pl_payment = (\<lambda>_. True), pl_request = (\<lambda>_. None)\<rparr>"

definition sample_spend_settings :: spend_settings where
  "sample_spend_settings = \<lparr>ss_privacy = FullPrivacy, ss_allow_duplicate_shielded_recipients = False\<rparr>"

definition sample_sendmany :: rpc_request where
  "sample_sendmany = \<lparr>rq_id = Null, rq_method = ''z_sendmany'', rq_params = [String ''ANY_SAPLING'', Array [Object [(''address'', String ''z''), (''amount'', Number ''1'')]]]\<rparr>"

definition sample_job :: "string queued_send" where
  "sample_job = \<lparr>qs_request = [\<lparr>bp_recipient = ''z'', bp_zats = 100000000, bp_memo = None\<rparr>], qs_policy = symmetrical_confirmations 3,
     qs_privacy = FullPrivacy, qs_source = ShieldedFamily FamilySapling\<rparr>"

lemma sample_amount: "value_to_zats (Number ''1'') = Inr 100000000"
proof -
  have "parse_fixed_point ''1'' 8 = Some 100000000" by code_simp
  then show ?thesis
    by (simp add: value_to_zats_def MAX_MONEY_value)
qed

lemma sample_plan: "sendmany_plan sample_payment_lib sample_spend_settings sample_send_wallet sample_sendmany =
    Inr (''ANY_SAPLING'', [Object [(''address'', String ''z''), (''amount'', Number ''1'')]], sample_job)"
proof -
  have "outputs_loop sample_payment_lib sample_codec Zcash FullPrivacy False [Object [(''address'', String ''z''), (''amount'', Number ''1'')]] {} False []
    = Inr (False, [\<lparr>bp_recipient = ''z'', bp_zats = 100000000, bp_memo = None\<rparr>])"
    by (simp add: read_output_def OUTPUT_KEYS_def as_str_def memo_param_def receives_shielded_def decode_on_network_def sample_codec_def
        has_shielded_receiver_def build_payment_def parse_recipient_on_network_def parse_recipient_def is_tex_def sample_amount
        sample_payment_lib_def build_memo_def)
  then show ?thesis
    by (simp add: sendmany_plan_def require_str_def as_str_def param_def sample_sendmany_def source_of_def sendmany_outputs_def engaged_def
        sendmany_privacy_def privacy_from_policy_def minconf_policy_def sendmany_queue_def sample_send_wallet_def poll_view_def
        sample_spend_settings_def transaction_request_def sample_job_def)
       (simp add: sample_payment_lib_def)
qed


section \<open>Address requests are well formed\<close>

definition names_receiver :: "json \<Rightarrow> receiver \<Rightarrow> bool" where
  "names_receiver v r \<longleftrightarrow> (case v of
     String s \<Rightarrow> if to_ascii_lowercase s = ''p2pkh'' then r = RTransparent else receiver_from_config_str s = Inr r
   | _ \<Rightarrow> False)"

lemma receiver_types_loop_names:
  "receiver_types_loop arr pools invalid = Inr (pools', []) \<Longrightarrow>
     invalid = [] \<and> (\<exists>qs. pools' = pools @ qs \<and> list_all2 names_receiver arr qs)"
proof (induction arr pools invalid rule: receiver_types_loop.induct)
  case (2 item items pools invalid)
  obtain s where s: "as_str item = Some s" "item = String s"
    using "2.prems" by (cases item) (auto simp: as_str_def)
  show ?case
  proof (cases "to_ascii_lowercase s = ''p2pkh''")
    case True
    then have "receiver_types_loop items (pools @ [RTransparent]) invalid = Inr (pools', [])"
      using "2.prems" s(1) by simp
    from "2.IH"(1) [OF s(1) True this] obtain qs where "invalid = []" "pools' = pools @ RTransparent # qs" "list_all2 names_receiver items qs"
      by auto
    moreover have "names_receiver item RTransparent"
      using True s(2) by (simp add: names_receiver_def)
    ultimately show ?thesis
      by simp
  next
    case notp: False
    show ?thesis
    proof (cases "receiver_from_config_str s")
      case (Inl e)
      then obtain t where e: "receiver_from_config_str s = Inl (UnknownToken t)"
        using "2.prems" s(1) notp by (cases e) simp_all
      then have "receiver_types_loop items pools (invalid @ [s]) = Inr (pools', [])"
        using "2.prems" s(1) notp by simp
      from "2.IH"(2) [OF s(1) notp e refl this] show ?thesis
        by simp
    next
      case (Inr r)
      then have "receiver_types_loop items (pools @ [r]) invalid = Inr (pools', [])"
        using "2.prems" s(1) notp by simp
      from "2.IH"(3) [OF s(1) notp Inr this] obtain qs where "invalid = []" "pools' = pools @ r # qs" "list_all2 names_receiver items qs"
        by auto
      moreover have "names_receiver item r"
        using Inr notp s(2) by (simp add: names_receiver_def)
      ultimately show ?thesis
        by simp
    qed
  qed
qed simp

lemma names_receiver_sets:
  "list_all2 names_receiver arr qs \<Longrightarrow> set qs = {r. \<exists>v \<in> set arr. names_receiver v r}"
  by (induction rule: list_all2_induct) (auto simp: names_receiver_def split: json.splits if_splits)

text \<open>What the address methods hand to the wallet is a well-formed request whatever the caller sent.  A shielded
  request is a canonical receiver set, and one read from an array holds exactly the receivers named there, all within the
  pools the wallet has enabled.  A transparent request read from an array is made only where transparent receiving is
  on and every name in the array is transparent.\<close>

theorem receiver_requests_well_formed:
  "(case parse_receiver_tokens t of Inr (ShieldedReceivers s) \<Rightarrow> receiver_set_ok s | _ \<Rightarrow> True) \<and>
   (case parse_receiver_types_array (Some (Array arr)) enabled transparent of
      Inr (ShieldedReceivers s) \<Rightarrow> receiver_set_ok s \<and> is_subset_of s enabled \<and>
        set (rs_pools s) = {r. \<exists>v \<in> set arr. names_receiver v r}
    | Inr TransparentReceiver \<Rightarrow> transparent \<and> list_all (\<lambda>v. names_receiver v RTransparent) arr
    | Inr DefaultReceivers \<Rightarrow> arr = []
    | Inl _ \<Rightarrow> True)"
proof
  show "case parse_receiver_tokens t of Inr (ShieldedReceivers s) \<Rightarrow> receiver_set_ok s | _ \<Rightarrow> True"
  proof (cases "parse_receiver_tokens t")
    case (Inr r)
    show ?thesis
    proof (cases r)
      case (ShieldedReceivers s)
      then obtain pools where "(case receiver_set_new pools of Inl e \<Rightarrow> Inl (invalid_address_or_key (''Invalid address type: '' @ set_error_message e))
            | Inr s \<Rightarrow> Inr (ShieldedReceivers s)) = Inr (ShieldedReceivers s)"
        using Inr by (auto simp: parse_receiver_tokens_def sum_bind_Inr split: option.splits if_splits)
      then have "receiver_set_new pools = Inr s"
        by (simp split: sum.splits)
      then show ?thesis
        using Inr ShieldedReceivers receiver_set_new_ok by simp
    qed (use Inr in simp_all)
  qed simp
  show "case parse_receiver_types_array (Some (Array arr)) enabled transparent of
      Inr (ShieldedReceivers s) \<Rightarrow> receiver_set_ok s \<and> is_subset_of s enabled \<and>
        set (rs_pools s) = {r. \<exists>v \<in> set arr. names_receiver v r}
    | Inr TransparentReceiver \<Rightarrow> transparent \<and> list_all (\<lambda>v. names_receiver v RTransparent) arr
    | Inr DefaultReceivers \<Rightarrow> arr = []
    | Inl _ \<Rightarrow> True"
  proof (cases "receiver_types_loop arr [] []")
    case (Inr b)
    obtain pools invalid where b: "b = (pools, invalid)"
      by (cases b)
    show ?thesis
    proof (cases "arr = [] \<or> invalid \<noteq> []")
      case False
      have names: "list_all2 names_receiver arr pools"
        using receiver_types_loop_names [of arr "[]" "[]" pools] Inr b False by auto
      note rset = names_receiver_sets [OF names]
      have "\<not> list_ex (\<lambda>p. \<not> is_transparent p) pools \<Longrightarrow> list_all (\<lambda>v. names_receiver v RTransparent) arr"
        using names by (induction rule: list_all2_induct) (auto simp: is_transparent_def)
      then show ?thesis
        using Inr b False rset receiver_set_new_ok [of pools]
        by (auto simp: parse_receiver_types_array_def split: sum.splits)
    qed (use Inr b in \<open>auto simp: parse_receiver_types_array_def\<close>)
  qed (auto simp: parse_receiver_types_array_def)
qed

end
