(* ===== verification/Transparent_Addresses.thy ===== *)
theory Transparent_Addresses
  imports Sync_Engine Proposal_Rules
begin

text \<open>
  Addresses and their recovery, \<open>src/wallet/actor.rs\<close>: issuing a unified or a bare transparent address, the recovery
  horizon, the exposure of the initial window in chunks, and the set of addresses the block scan matches.  The wallet
  library derives and records addresses; it is the record \<open>address_lib\<close>, each operation on a database state.  Log lines
  are the values of \<open>notice\<close>.
\<close>

section \<open>The library and the state\<close>

datatype exposure = Exposed "(u32 \<times> u32) option" | NotExposed

record receiver_meta =
  rm_index :: "u32 option"
  rm_exposure :: exposure

datatype address_error = DiversifierIndexReuse nat | ReachedGapLimit | AddressFailure

record ('acct, 'db, 'ua, 'addr) address_lib =
  al_next :: "'acct \<Rightarrow> unified_address_request \<Rightarrow> 'db \<Rightarrow> (address_error + ('ua \<times> nat) option) \<times> 'db"
  al_at :: "'acct \<Rightarrow> nat \<Rightarrow> unified_address_request \<Rightarrow> 'db \<Rightarrow> (address_error + 'ua option) \<times> 'db"
  al_receivers :: "'acct \<Rightarrow> bool \<Rightarrow> 'db \<Rightarrow> address_error + ('addr \<times> receiver_meta) list"
  al_metadata :: "'acct \<Rightarrow> 'addr \<Rightarrow> 'db \<Rightarrow> receiver_meta option"
  al_default :: "'acct \<Rightarrow> 'db \<Rightarrow> ('ua \<times> nat) option"
  al_ivk :: "'acct \<Rightarrow> 'db \<Rightarrow> (u32 \<Rightarrow> 'addr option) option"
  al_transparent :: "'ua \<Rightarrow> 'addr option"
  al_encode_ua :: "'ua \<Rightarrow> string"
  al_encode_t :: "'addr \<Rightarrow> string"
  al_show :: "address_error \<Rightarrow> string"

record address_config =
  ac_is_shard :: bool
  ac_transparent_enabled :: bool
  ac_transparent_default :: bool
  ac_default_receivers :: receiver_set
  ac_enabled_pools :: receiver_set
  ac_initial_scan :: u32
  ac_gap_limit :: u32
  ac_gap_warn_threshold :: u32
  ac_allow_beyond :: bool
  ac_default_frontier :: "u32 option"

datatype notice =
    GapLow u32
  | HorizonLow u32
  | IssuedWithinHorizon u32
  | IssuedBeyondHorizon u32
  | PreexposeFailed u32 u32

record ('acct, 'db, 'addr) address_book =
  ab_db :: 'db
  ab_account_id :: "'acct option"
  ab_set_dirty :: bool
  ab_preexpose :: "(u32 \<times> u32) option"
  ab_preexposed :: bool
  ab_frontier :: "u32 option"
  ab_scripts :: "'addr transparent_matcher option"
  ab_notices :: "notice list"

definition notify :: "notice \<Rightarrow> ('acct, 'db, 'addr) address_book \<Rightarrow> ('acct, 'db, 'addr) address_book" where
  "notify n s = s\<lparr>ab_notices := ab_notices s @ [n]\<rparr>"

section \<open>The horizon\<close>

definition transparent_recovery_horizon :: "address_config \<Rightarrow> u32" where
  "transparent_recovery_horizon cfg = recovery_horizon_for (ac_initial_scan cfg) (ac_default_frontier cfg) (ac_gap_limit cfg)"

definition default_transparent_frontier :: "('acct, 'db, 'ua, 'addr) address_lib \<Rightarrow> 'acct \<Rightarrow> 'db \<Rightarrow> u32 option" where
  "default_transparent_frontier lib acct db =
     Option.bind (al_default lib acct db) (\<lambda>(ua, d).
     Option.bind (al_transparent lib ua) (\<lambda>_.
     map_option (\<lambda>i. saturating_add i 1) (transparent_child_index d)))"

definition map_address_for_index_error :: "('acct, 'db, 'ua, 'addr) address_lib \<Rightarrow> address_error \<Rightarrow> rpc_error" where
  "map_address_for_index_error lib e =
     (case e of
        DiversifierIndexReuse j \<Rightarrow> wallet_error (''Error: address at diversifier index '' @ show_nat j @
          '' was already generated with different receiver types.'')
      | other \<Rightarrow> wallet_error (''address generation failed: '' @ al_show lib other))"

definition transparent_receiver :: "('acct, 'db, 'ua, 'addr) address_lib \<Rightarrow> 'ua \<Rightarrow> rpc_error + 'addr" where
  "transparent_receiver lib ua =
     (case al_transparent lib ua of
        Some t \<Rightarrow> Inr t
      | None \<Rightarrow> Inl (wallet_error ''derived address unexpectedly has no transparent receiver''))"

definition is_exposed :: "receiver_meta \<Rightarrow> bool" where
  "is_exposed m = (case rm_exposure m of Exposed _ \<Rightarrow> True | NotExposed \<Rightarrow> False)"

fun max_list :: "u32 list \<Rightarrow> u32 option" where
  "max_list [] = None"
| "max_list (x # xs) = Some (case max_list xs of None \<Rightarrow> x | Some m \<Rightarrow> max x m)"

definition next_external_transparent_index :: "('acct, 'db, 'ua, 'addr) address_lib \<Rightarrow> 'acct \<Rightarrow> 'db \<Rightarrow> u32" where
  "next_external_transparent_index lib acct db =
     (case al_receivers lib acct False db of
        Inr r \<Rightarrow> (case max_list (map (\<lambda>i. saturating_add i 1) (List.map_filter rm_index (filter is_exposed (map snd r)))) of
            Some m \<Rightarrow> m | None \<Rightarrow> 0)
      | Inl _ \<Rightarrow> 0)"

definition next_unexposed_external_index :: "('acct, 'db, 'ua, 'addr) address_lib \<Rightarrow> 'acct \<Rightarrow> 'db \<Rightarrow> u32" where
  "next_unexposed_external_index lib acct db =
     (case al_receivers lib acct False db of
        Inr r \<Rightarrow> (case max_list (map (\<lambda>i. saturating_add i 1) (List.map_filter rm_index (map snd r))) of
            Some m \<Rightarrow> m | None \<Rightarrow> 0)
      | Inl _ \<Rightarrow> 0)"

definition warn_if_gap_low ::
  "('acct, 'db, 'ua, 'addr) address_lib \<Rightarrow> address_config \<Rightarrow> 'acct \<Rightarrow> 'addr
     \<Rightarrow> ('acct, 'db, 'addr) address_book \<Rightarrow> ('acct, 'db, 'addr) address_book" where
  "warn_if_gap_low lib cfg acct taddr s =
     (case al_metadata lib acct taddr (ab_db s) of
        Some meta \<Rightarrow>
          (case rm_exposure meta of
             Exposed (Some (gap_position, gap_limit)) \<Rightarrow>
               (let in_window = gap_slots_remaining gap_position gap_limit;
                    under_horizon = (case rm_index meta of
                        Some i \<Rightarrow> horizon_slots_remaining (transparent_recovery_horizon cfg) i | None \<Rightarrow> 0);
                    remaining = max in_window under_horizon
                in if remaining \<le> ac_gap_warn_threshold cfg then notify (GapLow remaining) s else s)
           | _ \<Rightarrow> s)
      | None \<Rightarrow> s)"

text \<open>The one with the highest index among the exposed receivers; of several, the last in the library's order.\<close>

fun highest_receiver :: "('addr \<times> receiver_meta) list \<Rightarrow> (u32 \<times> 'addr) option" where
  "highest_receiver [] = None"
| "highest_receiver ((a, m) # rs) =
     (case (is_exposed m, rm_index m) of
        (True, Some i) \<Rightarrow> (case highest_receiver rs of
            Some (j, b) \<Rightarrow> if i > j then Some (i, a) else Some (j, b)
          | None \<Rightarrow> Some (i, a))
      | _ \<Rightarrow> highest_receiver rs)"

definition audit_transparent_recovery_window ::
  "('acct, 'db, 'ua, 'addr) address_lib \<Rightarrow> address_config \<Rightarrow> 'acct
     \<Rightarrow> ('acct, 'db, 'addr) address_book \<Rightarrow> ('acct, 'db, 'addr) address_book" where
  "audit_transparent_recovery_window lib cfg acct s =
     (case al_receivers lib acct False (ab_db s) of
        Inl _ \<Rightarrow> s
      | Inr receivers \<Rightarrow> (case highest_receiver receivers of
          Some (_, taddr) \<Rightarrow> warn_if_gap_low lib cfg acct taddr s | None \<Rightarrow> s))"

section \<open>Issuing addresses\<close>

definition address_account :: "address_config \<Rightarrow> 'acct option \<Rightarrow> ('acct, 'db, 'addr) address_book \<Rightarrow> rpc_error + 'acct" where
  "address_account cfg requested s =
     (case requested of
        Some a \<Rightarrow> Inr a
      | None \<Rightarrow> (case ab_account_id s of
          Some a \<Rightarrow> Inr a
        | None \<Rightarrow> Inl (if ac_is_shard cfg then private_keys_disabled else account_not_ready)))"

definition beyond_horizon_error :: "u32 \<Rightarrow> u32 \<Rightarrow> rpc_error" where
  "beyond_horizon_error index hz = wallet_error (''transparent address gap limit reached: external index ('' @ show_nat (unat index) @
     '') is beyond the recovery horizon ('' @ show_nat (unat hz) @ '' = transparent_gap_limit past the restore floor), '' @
     ''so it would not be recoverable from seed. Raise [pools] transparent_initial_scan to your issuance high-water mark '' @
     ''(preferred - a large transparent_gap_limit makes every recorded transparent receive re-derive the whole window), '' @
     ''fund a lower-index address, or set transparent_allow_beyond_recovery_window = true to issue beyond the horizon anyway.'')"

definition expose_transparent_index ::
  "('acct, 'db, 'ua, 'addr) address_lib \<Rightarrow> address_config \<Rightarrow> 'acct \<Rightarrow> u32 \<Rightarrow> ('acct, 'db, 'addr) address_book
     \<Rightarrow> (rpc_error + string) \<times> ('acct, 'db, 'addr) address_book" where
  "expose_transparent_index lib cfg acct index s =
     (let hz = transparent_recovery_horizon cfg
      in if index \<ge> hz \<and> \<not> ac_allow_beyond cfg then (Inl (beyond_horizon_error index hz), s)
         else let s = s\<lparr>ab_set_dirty := True\<rparr>
              in case al_at lib acct (unat index) transparent_extraction_request (ab_db s) of
                   (Inl e, db) \<Rightarrow> (Inl (map_address_for_index_error lib e), s\<lparr>ab_db := db\<rparr>)
                 | (Inr None, db) \<Rightarrow> (Inl (wallet_error (''Error: no address at diversifier index '' @ show_nat (unat index) @ ''.'')),
                     s\<lparr>ab_db := db\<rparr>)
                 | (Inr (Some ua), db) \<Rightarrow>
                     (let s = s\<lparr>ab_db := db\<rparr>
                      in case transparent_receiver lib ua of
                           Inl e \<Rightarrow> (Inl e, s)
                         | Inr taddr \<Rightarrow>
                             (let s = (if index < hz
                                       then let s = notify (IssuedWithinHorizon index) s;
                                                remaining = horizon_slots_remaining hz index
                                            in if remaining \<le> ac_gap_warn_threshold cfg then notify (HorizonLow remaining) s else s
                                       else notify (IssuedBeyondHorizon index) s)
                              in (Inr (al_encode_t lib taddr), s))))"

definition new_transparent_address_beyond_gap ::
  "('acct, 'db, 'ua, 'addr) address_lib \<Rightarrow> address_config \<Rightarrow> 'acct \<Rightarrow> ('acct, 'db, 'addr) address_book
     \<Rightarrow> (rpc_error + string \<times> u32) \<times> ('acct, 'db, 'addr) address_book" where
  "new_transparent_address_beyond_gap lib cfg acct s =
     (let index = next_external_transparent_index lib acct (ab_db s)
      in case expose_transparent_index lib cfg acct index s of
           (Inl e, s) \<Rightarrow> (Inl e, s)
         | (Inr a, s) \<Rightarrow> (Inr (a, index), s))"

definition new_transparent_address ::
  "('acct, 'db, 'ua, 'addr) address_lib \<Rightarrow> address_config \<Rightarrow> 'acct option \<Rightarrow> ('acct, 'db, 'addr) address_book
     \<Rightarrow> (rpc_error + string \<times> u32) \<times> ('acct, 'db, 'addr) address_book" where
  "new_transparent_address lib cfg account s =
     (if \<not> ac_transparent_enabled cfg then (Inl transparent_not_enabled, s)
      else case address_account cfg account s of
        Inl e \<Rightarrow> (Inl e, s)
      | Inr acct \<Rightarrow>
          (let s = s\<lparr>ab_set_dirty := True\<rparr>
           in case al_next lib acct transparent_extraction_request (ab_db s) of
                (Inr (Some (ua, j)), db) \<Rightarrow>
                  (let s = s\<lparr>ab_db := db\<rparr>
                   in case transparent_receiver lib ua of
                        Inl e \<Rightarrow> (Inl e, s)
                      | Inr taddr \<Rightarrow>
                          (let s = warn_if_gap_low lib cfg acct taddr s
                           in case transparent_child_index j of
                                Some index \<Rightarrow> (Inr (al_encode_t lib taddr, index), s)
                              | None \<Rightarrow> (Inl (wallet_error (''derived transparent address at diversifier index '' @ show_nat j @
                                  '' outside the BIP 44 non-hardened child range'')), s)))
              | (Inr None, db) \<Rightarrow> (Inl (wallet_error (''no transparent address available for account; the account'' @ [CHR 0x27] @
                  ''s viewing key may not support a transparent receiver'')), s\<lparr>ab_db := db\<rparr>)
              | (Inl ReachedGapLimit, db) \<Rightarrow> new_transparent_address_beyond_gap lib cfg acct (s\<lparr>ab_db := db\<rparr>)
              | (Inl e, db) \<Rightarrow> (Inl (wallet_error (''address generation failed: '' @ al_show lib e)), s\<lparr>ab_db := db\<rparr>)))"

definition pool_not_enabled :: "address_config \<Rightarrow> receiver_set \<Rightarrow> rpc_error" where
  "pool_not_enabled cfg rs = invalid_parameter (''requested receivers ('' @ rs_display_names rs @
     '') include a pool not enabled on this wallet ('' @ rs_display_names (ac_enabled_pools cfg) @ '')'')"

definition no_address_error :: "receiver_set \<Rightarrow> rpc_error" where
  "no_address_error receivers = wallet_error (''no address available for account with receivers ('' @ rs_display_names receivers @
     ''); the account'' @ [CHR 0x27] @ ''s viewing key may not support all requested pools'')"

text \<open>A request resolved against the configuration: the transparent path, or the receivers of a unified address.\<close>

definition resolve_request :: "address_config \<Rightarrow> receiver_request \<Rightarrow> rpc_error + receiver_set option" where
  "resolve_request cfg request =
     (case request of
        TransparentReceiver \<Rightarrow> Inr None
      | DefaultReceivers \<Rightarrow> if ac_transparent_default cfg then Inr None else Inr (Some (ac_default_receivers cfg))
      | ShieldedReceivers rs \<Rightarrow>
          if \<not> is_subset_of rs (ac_enabled_pools cfg) then Inl (pool_not_enabled cfg rs) else Inr (Some rs))"

definition next_unified_address ::
  "('acct, 'db, 'ua, 'addr) address_lib \<Rightarrow> 'acct \<Rightarrow> receiver_set \<Rightarrow> ('acct, 'db, 'addr) address_book
     \<Rightarrow> (rpc_error + 'ua \<times> nat) \<times> ('acct, 'db, 'addr) address_book" where
  "next_unified_address lib acct receivers s =
     (case al_next lib acct (to_unified_address_request receivers) (ab_db s) of
        (Inl e, db) \<Rightarrow> (Inl (wallet_error (''address generation failed: '' @ al_show lib e)), s\<lparr>ab_db := db\<rparr>)
      | (Inr None, db) \<Rightarrow> (Inl (no_address_error receivers), s\<lparr>ab_db := db\<rparr>)
      | (Inr (Some r), db) \<Rightarrow> (Inr r, s\<lparr>ab_db := db\<rparr>))"

definition get_new_address ::
  "('acct, 'db, 'ua, 'addr) address_lib \<Rightarrow> address_config \<Rightarrow> 'acct option \<Rightarrow> receiver_request \<Rightarrow> ('acct, 'db, 'addr) address_book
     \<Rightarrow> (rpc_error + string) \<times> ('acct, 'db, 'addr) address_book" where
  "get_new_address lib cfg account request s =
     (case resolve_request cfg request of
        Inl e \<Rightarrow> (Inl e, s)
      | Inr None \<Rightarrow> (case new_transparent_address lib cfg account s of
            (Inl e, s) \<Rightarrow> (Inl e, s) | (Inr (a, _), s) \<Rightarrow> (Inr a, s))
      | Inr (Some receivers) \<Rightarrow>
          (case address_account cfg account s of
             Inl e \<Rightarrow> (Inl e, s)
           | Inr acct \<Rightarrow> (case next_unified_address lib acct receivers s of
               (Inl e, s) \<Rightarrow> (Inl e, s) | (Inr (ua, _), s) \<Rightarrow> (Inr (al_encode_ua lib ua), s))))"

record derived_address =
  da_address :: string
  da_index :: nat
  da_receiver_types :: "string list"

definition child_index_error :: "nat \<Rightarrow> rpc_error" where
  "child_index_error j = invalid_parameter (''diversifier index '' @ show_nat j @
     '' is not a valid transparent child index: a transparent receiver is derived at a BIP 44 non-hardened index, '' @
     ''so it must be less than '' @ show_nat (2 ^ 31) @ ''.'')"

definition transparent_address_for_account ::
  "('acct, 'db, 'ua, 'addr) address_lib \<Rightarrow> address_config \<Rightarrow> 'acct option \<Rightarrow> nat option \<Rightarrow> ('acct, 'db, 'addr) address_book
     \<Rightarrow> (rpc_error + derived_address) \<times> ('acct, 'db, 'addr) address_book" where
  "transparent_address_for_account lib cfg account diversifier_index s =
     (if \<not> ac_transparent_enabled cfg then (Inl transparent_not_enabled, s)
      else case (case diversifier_index of
            None \<Rightarrow> new_transparent_address lib cfg account s
          | Some j \<Rightarrow>
              (case transparent_child_index j of
                 None \<Rightarrow> (Inl (child_index_error j), s)
               | Some index \<Rightarrow>
                   (case address_account cfg None s of
                      Inl e \<Rightarrow> (Inl e, s)
                    | Inr acct \<Rightarrow> (case expose_transparent_index lib cfg acct index s of
                        (Inl e, s) \<Rightarrow> (Inl e, s) | (Inr a, s) \<Rightarrow> (Inr (a, index), s))))) of
          (Inl e, s) \<Rightarrow> (Inl e, s)
        | (Inr (a, index), s) \<Rightarrow> (Inr \<lparr>da_address = a, da_index = unat index, da_receiver_types = [''p2pkh'']\<rparr>, s))"

definition get_address_for_account ::
  "('acct, 'db, 'ua, 'addr) address_lib \<Rightarrow> address_config \<Rightarrow> 'acct option \<Rightarrow> receiver_request \<Rightarrow> nat option \<Rightarrow> ('acct, 'db, 'addr) address_book
     \<Rightarrow> (rpc_error + derived_address) \<times> ('acct, 'db, 'addr) address_book" where
  "get_address_for_account lib cfg account request diversifier_index s =
     (case resolve_request cfg request of
        Inl e \<Rightarrow> (Inl e, s)
      | Inr None \<Rightarrow> transparent_address_for_account lib cfg account diversifier_index s
      | Inr (Some receivers) \<Rightarrow>
          (case address_account cfg account s of
             Inl e \<Rightarrow> (Inl e, s)
           | Inr acct \<Rightarrow>
               (let derived = (\<lambda>ua j. \<lparr>da_address = al_encode_ua lib ua, da_index = j, da_receiver_types = rs_names receivers\<rparr>)
                in case diversifier_index of
                     None \<Rightarrow> (case next_unified_address lib acct receivers s of
                         (Inl e, s) \<Rightarrow> (Inl e, s) | (Inr (ua, j), s) \<Rightarrow> (Inr (derived ua j), s))
                   | Some j \<Rightarrow>
                       (case al_at lib acct j (to_unified_address_request receivers) (ab_db s) of
                          (Inl e, db) \<Rightarrow> (Inl (map_address_for_index_error lib e), s\<lparr>ab_db := db\<rparr>)
                        | (Inr None, db) \<Rightarrow> (Inl (wallet_error (''Error: no address at diversifier index '' @ show_nat j @ ''.'')), s\<lparr>ab_db := db\<rparr>)
                        | (Inr (Some ua), db) \<Rightarrow> (Inr (derived ua j), s\<lparr>ab_db := db\<rparr>)))))"

section \<open>The initial window\<close>

definition TRANSPARENT_PREEXPOSE_CHUNK :: u32 where "TRANSPARENT_PREEXPOSE_CHUNK = 1000"

fun expose_indices ::
  "('acct, 'db, 'ua, 'addr) address_lib \<Rightarrow> 'acct \<Rightarrow> nat list \<Rightarrow> 'db \<Rightarrow> (address_error + unit) \<times> 'db" where
  "expose_indices lib acct [] db = (Inr (), db)"
| "expose_indices lib acct (i # is) db =
     (case al_at lib acct i transparent_extraction_request db of
        (Inl e, db) \<Rightarrow> (Inl e, db)
      | (Inr _, db) \<Rightarrow> expose_indices lib acct is db)"

text \<open>A chunk in one database transaction, rolled back when an index fails.\<close>

definition expose_chunk ::
  "('acct, 'db, 'ua, 'addr) address_lib \<Rightarrow> 'acct \<Rightarrow> u32 \<Rightarrow> u32 \<Rightarrow> 'db \<Rightarrow> (address_error + unit) \<times> 'db" where
  "expose_chunk lib acct start stop db =
     (case expose_indices lib acct [unat start..<unat stop] db of
        (Inl e, _) \<Rightarrow> (Inl e, db)
      | (Inr _, db') \<Rightarrow> (Inr (), db'))"

definition preexpose_start :: "('acct, 'db, 'ua, 'addr) address_lib \<Rightarrow> 'acct \<Rightarrow> ('acct, 'db, 'addr) address_book \<Rightarrow> u32" where
  "preexpose_start lib acct s = (case ab_preexpose s of Some (d, _) \<Rightarrow> d | None \<Rightarrow> next_unexposed_external_index lib acct (ab_db s))"

definition preexpose_transparent_chunk ::
  "('acct, 'db, 'ua, 'addr) address_lib \<Rightarrow> address_config \<Rightarrow> 'acct \<Rightarrow> ('acct, 'db, 'addr) address_book
     \<Rightarrow> bool \<times> ('acct, 'db, 'addr) address_book" where
  "preexpose_transparent_chunk lib cfg acct s =
     (let depth = ac_initial_scan cfg
      in if depth = 0 then (False, s)
         else let start = preexpose_start lib acct s
              in if start \<ge> depth then (False, s)
                 else let s = (if ab_preexpose s = None then s\<lparr>ab_preexpose := Some (start, depth)\<rparr> else s);
                          stop = min depth (saturating_add start TRANSPARENT_PREEXPOSE_CHUNK)
                      in case expose_chunk lib acct start stop (ab_db s) of
                           (Inl e, db) \<Rightarrow> (False, notify (PreexposeFailed start stop) (s\<lparr>ab_db := db\<rparr>))
                         | (Inr _, db) \<Rightarrow>
                             (let s = s\<lparr>ab_db := db, ab_preexpose := map_option (\<lambda>(_, t). (stop, t)) (ab_preexpose s)\<rparr>
                              in (\<not> stop \<ge> depth, s)))"

section \<open>The matched set\<close>

definition external_frontier :: "u32 \<Rightarrow> receiver_meta list \<Rightarrow> u32" where
  "external_frontier initial metas =
     fold (\<lambda>m f. case rm_index m of Some i \<Rightarrow> if is_exposed m then max f (saturating_add i 1) else f | None \<Rightarrow> f) metas initial"

definition add_lookahead :: "'addr \<Rightarrow> u32 \<Rightarrow> 'addr transparent_matcher \<Rightarrow> 'addr transparent_matcher" where
  "add_lookahead addr index tm =
     (if addr \<in> tm_all tm then tm
      else tm\<lparr>tm_all := insert addr (tm_all tm), tm_lookahead := (tm_lookahead tm)(addr \<mapsto> unat index)\<rparr>)"

fun lookahead_loop ::
  "(u32 \<Rightarrow> 'addr option) \<Rightarrow> u32 set \<Rightarrow> u32 list \<Rightarrow> 'addr transparent_matcher \<Rightarrow> 'addr transparent_matcher" where
  "lookahead_loop derive recorded [] tm = tm"
| "lookahead_loop derive recorded (index # indices) tm =
     (if index \<in> recorded then lookahead_loop derive recorded indices tm
      else if \<not> index < 2 ^ 31 then tm
      else case derive index of
        Some addr \<Rightarrow>
          lookahead_loop derive recorded indices
            (add_lookahead addr index tm)
      | None \<Rightarrow> lookahead_loop derive recorded indices tm)"

definition indices_from :: "u32 \<Rightarrow> u32 \<Rightarrow> u32 list" where
  "indices_from start stop = map of_nat [unat start..<unat stop]"

definition rebuild_transparent_set ::
  "('acct, 'db, 'ua, 'addr) address_lib \<Rightarrow> address_config \<Rightarrow> 'acct \<Rightarrow> ('acct, 'db, 'addr) address_book \<Rightarrow> ('acct, 'db, 'addr) address_book" where
  "rebuild_transparent_set lib cfg acct s =
     (case al_receivers lib acct True (ab_db s) of
        Inl _ \<Rightarrow> s
      | Inr receivers \<Rightarrow>
          (case al_receivers lib acct False (ab_db s) of
             Inl _ \<Rightarrow> s
           | Inr external \<Rightarrow>
               (let metas = map snd external;
                    recorded = set (List.map_filter rm_index metas);
                    frontier = external_frontier (ac_initial_scan cfg) metas;
                    start = \<lparr>tm_all = set (map fst receivers), tm_lookahead = Map.empty\<rparr>;
                    tm = (case al_ivk lib acct (ab_db s) of
                        Some derive \<Rightarrow> lookahead_loop derive recorded
                          (indices_from frontier (saturating_add frontier (ac_gap_limit cfg))) start
                      | None \<Rightarrow> start)
                in s\<lparr>ab_frontier := Some frontier, ab_scripts := Some tm, ab_set_dirty := False\<rparr>)))"

text \<open>What a sync pass does with the addresses before it scans; \<open>True\<close> when it stops there, with more of the window to
  expose.\<close>

definition prepare_addresses ::
  "('acct, 'db, 'ua, 'addr) address_lib \<Rightarrow> address_config \<Rightarrow> 'acct \<Rightarrow> ('acct, 'db, 'addr) address_book
     \<Rightarrow> bool \<times> ('acct, 'db, 'addr) address_book" where
  "prepare_addresses lib cfg acct s =
     (let (m, s) = (if ab_preexposed s then (False, s)
            else let (m, s) = preexpose_transparent_chunk lib cfg acct s;
                     s = s\<lparr>ab_set_dirty := True\<rparr>
                 in if m then (True, s)
                    else (False, audit_transparent_recovery_window lib cfg acct (s\<lparr>ab_preexposed := True\<rparr>)))
      in if m then (True, s)
         else (False, if ab_set_dirty s then rebuild_transparent_set lib cfg acct s else s))"

section \<open>What the library does\<close>

text \<open>
  The documented behaviour of the wallet library for the external transparent addresses of one account: the viewing
  key derives them, the rows of the database are what the query of receivers lists, and deriving at an index records
  and exposes that index and no other.
\<close>

definition lists_rows ::
  "('acct, 'db, 'ua, 'addr) address_lib \<Rightarrow> 'acct \<Rightarrow> (u32 \<Rightarrow> 'addr option) \<Rightarrow> ('db \<Rightarrow> nat \<rightharpoonup> exposure) \<Rightarrow> 'db \<Rightarrow> bool" where
  "lists_rows lib acct derive rows db \<longleftrightarrow>
     (\<exists>ext receivers. al_receivers lib acct False db = Inr ext \<and> al_receivers lib acct True db = Inr receivers \<and>
        set ext \<subseteq> set receivers \<and>
        set ext = {(a, \<lparr>rm_index = Some (of_nat i), rm_exposure = e\<rparr>) | a i e. rows db i = Some e \<and> derive (of_nat i) = Some a})"

definition exposes_index ::
  "('acct, 'db, 'ua, 'addr) address_lib \<Rightarrow> 'acct \<Rightarrow> (u32 \<Rightarrow> 'addr option) \<Rightarrow> ('db \<Rightarrow> nat \<rightharpoonup> exposure) \<Rightarrow> 'db \<Rightarrow> nat \<Rightarrow> bool" where
  "exposes_index lib acct derive rows db i \<longleftrightarrow>
     (\<exists>r db' g. al_at lib acct i transparent_extraction_request db = (Inr r, db') \<and>
        rows db' = (if derive (of_nat i) = None then rows db else (rows db)(i \<mapsto> Exposed g)))"

definition address_laws ::
  "('acct, 'db, 'ua, 'addr) address_lib \<Rightarrow> 'acct \<Rightarrow> (u32 \<Rightarrow> 'addr option) \<Rightarrow> ('db \<Rightarrow> nat \<rightharpoonup> exposure) \<Rightarrow> bool" where
  "address_laws lib acct derive rows \<longleftrightarrow>
     (\<forall>db. al_ivk lib acct db = Some derive \<and> lists_rows lib acct derive rows db \<and>
        (\<forall>i e. rows db i = Some e \<longrightarrow> i < 2 ^ 31 \<and> derive (of_nat i) \<noteq> None) \<and>
        (\<forall>i. i < 2 ^ 31 \<longrightarrow> exposes_index lib acct derive rows db i))"

lemma law_ivk: "address_laws lib acct derive rows \<Longrightarrow> al_ivk lib acct db = Some derive"
  unfolding address_laws_def by blast

lemma law_rows:
  assumes "address_laws lib acct derive rows" "rows db i = Some e"
  shows "i < 2 ^ 31" "\<exists>a. derive (of_nat i) = Some a"
  using assms unfolding address_laws_def not_None_eq by blast+

lemma law_receivers:
  assumes "address_laws lib acct derive rows"
  obtains ext receivers where "al_receivers lib acct False db = Inr ext" "al_receivers lib acct True db = Inr receivers"
    "set ext \<subseteq> set receivers"
    "set ext = {(a, \<lparr>rm_index = Some (of_nat i), rm_exposure = e\<rparr>) | a i e. rows db i = Some e \<and> derive (of_nat i) = Some a}"
proof -
  have "lists_rows lib acct derive rows db"
    using assms unfolding address_laws_def by blast
  then show thesis
    unfolding lists_rows_def using that by blast
qed

lemma law_at:
  assumes "address_laws lib acct derive rows" "i < 2 ^ 31"
  obtains r g db' where "al_at lib acct i transparent_extraction_request db = (Inr r, db')"
    "rows db' = (if derive (of_nat i) = None then rows db else (rows db)(i \<mapsto> Exposed g))"
proof -
  have "exposes_index lib acct derive rows db i"
    using assms unfolding address_laws_def by blast
  then show thesis
    unfolding exposes_index_def using that by blast
qed

section \<open>The frontier and the lookahead\<close>

lemma fold_frontier_ge: "f \<le> fold (\<lambda>m f. case rm_index m of Some i \<Rightarrow> if is_exposed m then max f (saturating_add i 1) else f | None \<Rightarrow> f) ms (f :: u32)"
  by (induction ms arbitrary: f) (auto split: option.splits intro: order_trans [OF max.cobounded1])

lemma external_frontier_ge:
  "f \<le> external_frontier f ms"
  "m \<in> set ms \<Longrightarrow> is_exposed m \<Longrightarrow> rm_index m = Some i \<Longrightarrow> saturating_add i 1 \<le> external_frontier f ms"
proof -
  show "f \<le> external_frontier f ms"
    unfolding external_frontier_def by (rule fold_frontier_ge)
  show "saturating_add i 1 \<le> external_frontier f ms" if "m \<in> set ms" "is_exposed m" "rm_index m = Some i"
    using that unfolding external_frontier_def
  proof (induction ms arbitrary: f)
    case (Cons x ms)
    show ?case
    proof (cases "m = x")
      case True
      then show ?thesis
        using Cons.prems fold_frontier_ge [of "max f (saturating_add i 1)" ms] by simp
    next
      case False
      then show ?thesis
        using Cons by simp
    qed
  qed simp
qed

lemma external_frontier_cases:
  "external_frontier f ms = f \<or> (\<exists>m \<in> set ms. is_exposed m \<and> (\<exists>i. rm_index m = Some i \<and> external_frontier f ms = saturating_add i 1))"
  unfolding external_frontier_def
proof (induction ms arbitrary: f)
  case (Cons x ms)
  show ?case
  proof (cases "is_exposed x \<and> rm_index x \<noteq> None")
    case True
    then obtain i where i: "rm_index x = Some i" "is_exposed x"
      by blast
    have "max f (saturating_add i 1) = f \<or> max f (saturating_add i 1) = saturating_add i 1"
      by (simp add: max_def)
    then show ?thesis
      using Cons.IH [of "max f (saturating_add i 1)"] i by (elim disjE) auto
  next
    case False
    then show ?thesis
      using Cons.IH [of f] by (cases "rm_index x") auto
  qed
qed simp

lemma add_lookahead_all [simp]: "tm_all (add_lookahead a i tm) = insert a (tm_all tm)"
  by (auto simp: add_lookahead_def)

lemma lookahead_loop_keeps: "tm_all tm \<subseteq> tm_all (lookahead_loop derive recorded is tm)"
proof (induction "is" arbitrary: tm)
  case (Cons x xs)
  show ?case
    using Cons.IH [of tm] Cons.IH [of "add_lookahead (the (derive x)) x tm"] by (cases "derive x") auto
qed simp

lemma lookahead_loop_covers:
  assumes "sorted is" "i \<in> set is" "i < 2 ^ 31" "derive i = Some a" "i \<notin> recorded"
  shows "a \<in> tm_all (lookahead_loop derive recorded is tm)"
  using assms
proof (induction "is" arbitrary: tm)
  case (Cons x xs)
  show ?case
  proof (cases "x = i")
    case True
    then show ?thesis
      using Cons.prems lookahead_loop_keeps [of "add_lookahead a i tm" derive recorded xs] by auto
  next
    case False
    then have "i \<in> set xs" "x < 2 ^ 31"
      using Cons.prems by (auto intro: order.strict_trans1)
    then show ?thesis
      using Cons by (auto split: option.splits)
  qed
qed simp

lemma lookahead_loop_only:
  "tm_all (lookahead_loop derive recorded is tm) \<subseteq> tm_all tm \<union> {a. \<exists>i \<in> set is. derive i = Some a}"
proof (induction "is" arbitrary: tm)
  case (Cons x xs)
  show ?case
  proof (cases "derive x")
    case None
    then show ?thesis
      using Cons.IH [of tm] by auto
  next
    case (Some a)
    then show ?thesis
      using Cons.IH [of tm] Cons.IH [of "add_lookahead a x tm"] by auto
  qed
qed simp

lemma indices_from_sorted: "sorted (indices_from start stop)"
proof -
  have "sorted (map (of_nat :: nat \<Rightarrow> u32) xs)" if "sorted xs" "\<forall>x \<in> set xs. x < 2 ^ 32" for xs
    using that by (induction xs) (auto simp: word_le_nat_alt unat_of_nat)
  moreover have "x < 2 ^ 32" if "x < unat stop" for x
    using that unsigned_less [of stop, where ?'a = nat] by simp
  ultimately show ?thesis
    unfolding indices_from_def by auto
qed

lemma indices_from_set: "i \<in> set (indices_from start stop) \<longleftrightarrow> start \<le> i \<and> i < stop"
proof
  show "start \<le> i \<and> i < stop" if "i \<in> set (indices_from start stop)"
    using that unsigned_less [of stop, where ?'a = nat]
    by (auto simp: indices_from_def word_le_nat_alt word_less_nat_alt unat_of_nat)
  show "i \<in> set (indices_from start stop)" if "start \<le> i \<and> i < stop"
    using that by (auto simp: indices_from_def word_le_nat_alt word_less_nat_alt intro!: image_eqI [of _ _ "unat i"])
qed

text \<open>The frontier of a database: past the floor and past every exposed row.\<close>

definition frontier_of :: "address_config \<Rightarrow> (nat \<rightharpoonup> exposure) \<Rightarrow> u32 \<Rightarrow> bool" where
  "frontier_of cfg rs F \<longleftrightarrow>
     ac_initial_scan cfg \<le> F \<and> (\<forall>i g. rs i = Some (Exposed g) \<longrightarrow> i < unat F) \<and>
     (F = ac_initial_scan cfg \<or> (\<exists>i g. rs i = Some (Exposed g) \<and> unat F = Suc i))"

lemma row_index_unat: "i < 2 ^ 31 \<Longrightarrow> unat (of_nat i :: u32) = i"
  by (simp add: unat_of_nat)

lemma row_index_succ: "i < 2 ^ 31 \<Longrightarrow> unat (saturating_add (of_nat i :: u32) 1) = Suc i"
  by (simp add: unat_saturating_add unat_of_nat)

lemma external_frontier_of:
  assumes laws: "address_laws lib acct derive rows"
    and ext: "set ext = {(a, \<lparr>rm_index = Some (of_nat i), rm_exposure = e\<rparr>) | a i e. rows db i = Some e \<and> derive (of_nat i) = Some a}"
  shows "frontier_of cfg (rows db) (external_frontier (ac_initial_scan cfg) (map snd ext))"
proof -
  let ?F = "external_frontier (ac_initial_scan cfg) (map snd ext)"
  have above: "i < unat ?F" if row: "rows db i = Some (Exposed g)" for i g
  proof -
    obtain a where "derive (of_nat i) = Some a"
      using law_rows [OF laws row] by blast
    with row have "\<lparr>rm_index = Some (of_nat i), rm_exposure = Exposed g\<rparr> \<in> set (map snd ext)"
      using ext by force
    from external_frontier_ge(2) [OF this, of "of_nat i" "ac_initial_scan cfg"]
    show ?thesis
      using row_index_succ [OF law_rows(1) [OF laws row]] by (simp add: is_exposed_def word_le_nat_alt)
  qed
  have "?F = ac_initial_scan cfg \<or> (\<exists>i g. rows db i = Some (Exposed g) \<and> unat ?F = Suc i)"
  proof (cases "?F = ac_initial_scan cfg")
    case False
    then obtain m j where m: "m \<in> set (map snd ext)" "is_exposed m" "rm_index m = Some j" "?F = saturating_add j 1"
      using external_frontier_cases by blast
    then obtain i e where "rows db i = Some e" "m = \<lparr>rm_index = Some (of_nat i), rm_exposure = e\<rparr>"
      using ext by auto
    with m show ?thesis
      using row_index_succ [OF law_rows(1) [OF laws]] by (auto simp: is_exposed_def split: exposure.splits)
  qed simp
  then show ?thesis
    unfolding frontier_of_def using above external_frontier_ge(1) by blast
qed

text \<open>After a rebuild the matcher holds the address of every recorded row, and of every index of the gap past the frontier.\<close>

lemma rebuild_covers:
  assumes laws: "address_laws lib acct derive rows"
  obtains tm F where "ab_scripts (rebuild_transparent_set lib cfg acct s) = Some tm" "frontier_of cfg (rows (ab_db s)) F"
    "\<forall>i a. i < 2 ^ 31 \<and> derive (of_nat i) = Some a \<and>
       (i \<in> dom (rows (ab_db s)) \<or> unat F \<le> i \<and> i < unat (saturating_add F (ac_gap_limit cfg))) \<longrightarrow> a \<in> tm_all tm"
    "\<forall>receivers. al_receivers lib acct True (ab_db s) = Inr receivers \<longrightarrow>
       tm_all tm \<subseteq> fst ` set receivers \<union> {a. \<exists>i. unat F \<le> unat i \<and> derive i = Some a}"
proof -
  obtain ext receivers where r: "al_receivers lib acct False (ab_db s) = Inr ext" "al_receivers lib acct True (ab_db s) = Inr receivers"
    "set ext \<subseteq> set receivers"
    and ext: "set ext = {(a, \<lparr>rm_index = Some (of_nat i), rm_exposure = e\<rparr>) | a i e. rows (ab_db s) i = Some e \<and> derive (of_nat i) = Some a}"
    using law_receivers [OF laws, of "ab_db s"] .
  define F where "F = external_frontier (ac_initial_scan cfg) (map snd ext)"
  define recorded where "recorded = set (List.map_filter rm_index (map snd ext))"
  define tm where "tm = lookahead_loop derive recorded (indices_from F (saturating_add F (ac_gap_limit cfg)))
    \<lparr>tm_all = set (map fst receivers), tm_lookahead = Map.empty\<rparr>"
  have scripts: "ab_scripts (rebuild_transparent_set lib cfg acct s) = Some tm"
    by (simp add: rebuild_transparent_set_def r law_ivk [OF laws] F_def recorded_def tm_def Let_def)
  have front: "frontier_of cfg (rows (ab_db s)) F"
    unfolding F_def by (rule external_frontier_of [OF laws ext])
  have base: "fst ` set ext \<subseteq> tm_all tm"
    using lookahead_loop_keeps [of "\<lparr>tm_all = set (map fst receivers), tm_lookahead = Map.empty\<rparr>"] r(3)
    unfolding tm_def by fastforce
  have row: "a \<in> tm_all tm" if "i \<in> dom (rows (ab_db s))" "derive (of_nat i) = Some a" for i a
    using that base ext by force
  have cover: "a \<in> tm_all tm" if i: "i < 2 ^ 31" "derive (of_nat i) = Some a" "unat F \<le> i" "i < unat (saturating_add F (ac_gap_limit cfg))" for i a
  proof (cases "of_nat i \<in> recorded")
    case True
    then obtain m where "m \<in> set (map snd ext)" "rm_index m = Some (of_nat i)"
      by (force simp: recorded_def map_filter_def)
    then obtain j e where j: "rows (ab_db s) j = Some e" "(of_nat j :: u32) = of_nat i"
      using ext by auto
    have "j = i"
      using row_index_unat [OF law_rows(1) [OF laws j(1)]] row_index_unat [OF i(1)] j(2) by metis
    then show ?thesis
      using row j i(2) by blast
  next
    case False
    have small: "(of_nat i :: u32) < 2 ^ 31"
      using i(1) by (simp add: word_less_nat_alt unat_of_nat)
    have "of_nat i \<in> set (indices_from F (saturating_add F (ac_gap_limit cfg)))"
      using i by (simp add: indices_from_set word_le_nat_alt word_less_nat_alt unat_of_nat)
    from lookahead_loop_covers [where derive = derive and recorded = recorded, OF indices_from_sorted this small] i(2) False show ?thesis
      unfolding tm_def by blast
  qed
  have idx: "unat F \<le> unat i" if "i \<in> set (indices_from F (saturating_add F (ac_gap_limit cfg)))" for i
    using that by (simp add: indices_from_set word_le_nat_alt)
  have only: "tm_all tm \<subseteq> fst ` set receivers \<union> {a. \<exists>i. unat F \<le> unat i \<and> derive i = Some a}"
    using lookahead_loop_only [of derive recorded "indices_from F (saturating_add F (ac_gap_limit cfg))" "\<lparr>tm_all = set (map fst receivers), tm_lookahead = Map.empty\<rparr>"]
      idx
    unfolding tm_def by (simp, blast)
  show thesis
    using that [OF scripts front] row cover only r(2) by (metis (no_types, lifting) sum.inject(2))
qed

section \<open>The initial window is exposed, and a restore covers the horizon\<close>

text \<open>From \<open>R\<close> to \<open>R'\<close> the derivable indices of \<open>A\<close> were exposed and nothing else changed.\<close>

definition exposed_in :: "(u32 \<Rightarrow> 'addr option) \<Rightarrow> nat set \<Rightarrow> (nat \<rightharpoonup> exposure) \<Rightarrow> (nat \<rightharpoonup> exposure) \<Rightarrow> bool" where
  "exposed_in derive A R R' \<longleftrightarrow>
     (\<forall>i. if i \<in> A \<and> derive (of_nat i) \<noteq> None then \<exists>g. R' i = Some (Exposed g) else R' i = R i)"

lemma exposed_in_refl: "exposed_in derive {} R R"
  by (simp add: exposed_in_def)

lemma exposed_in_trans: "exposed_in derive A R R' \<Longrightarrow> exposed_in derive B R' R'' \<Longrightarrow> exposed_in derive (A \<union> B) R R''"
  unfolding exposed_in_def by (smt (verit, ccfv_threshold) Un_iff)

lemma exposed_in_dom:
  assumes "exposed_in derive A R R'"
  shows "i \<in> dom R' \<longleftrightarrow> i \<in> dom R \<or> i \<in> A \<and> derive (of_nat i) \<noteq> None"
proof -
  have "if i \<in> A \<and> derive (of_nat i) \<noteq> None then \<exists>g. R' i = Some (Exposed g) else R' i = R i"
    using assms unfolding exposed_in_def by blast
  then show ?thesis
    by (cases "i \<in> A \<and> derive (of_nat i) \<noteq> None") (auto simp: dom_def)
qed

lemma expose_indices_rows:
  assumes laws: "address_laws lib acct derive rows"
  shows "\<forall>i \<in> set is. i < 2 ^ 31 \<Longrightarrow>
    \<exists>db'. expose_indices lib acct is db = (Inr (), db') \<and> exposed_in derive (set is) (rows db) (rows db')"
proof (induction "is" arbitrary: db)
  case Nil
  then show ?case
    by (simp add: exposed_in_refl)
next
  case (Cons i xs)
  then have i: "i < 2 ^ 31" and xs: "\<forall>i \<in> set xs. i < 2 ^ 31"
    by simp_all
  obtain r g db1 where at: "al_at lib acct i transparent_extraction_request db = (Inr r, db1)"
    and r1: "rows db1 = (if derive (of_nat i) = None then rows db else (rows db)(i \<mapsto> Exposed g))"
    using law_at [OF laws i] .
  from Cons.IH [OF xs] obtain db' where db': "expose_indices lib acct xs db1 = (Inr (), db')"
    and grow: "exposed_in derive (set xs) (rows db1) (rows db')"
    by blast
  have "exposed_in derive {i} (rows db) (rows db1)"
    unfolding exposed_in_def r1 by auto
  from exposed_in_trans [OF this grow] show ?case
    using at db' by simp
qed

lemma expose_chunk_rows:
  assumes "address_laws lib acct derive rows" "unat stop \<le> 2 ^ 31"
  shows "\<exists>db'. expose_chunk lib acct start stop db = (Inr (), db') \<and>
    exposed_in derive {unat start..<unat stop} (rows db) (rows db')"
proof -
  have "\<forall>i \<in> set [unat start..<unat stop]. i < 2 ^ 31"
    using assms(2) by auto
  from expose_indices_rows [OF assms(1) this, of db] show ?thesis
    unfolding expose_chunk_def by (elim exE conjE) simp
qed

text \<open>The passes of the sync loop up to the first that goes on to scan.\<close>

fun prepare_passes ::
  "('acct, 'db, 'ua, 'addr) address_lib \<Rightarrow> address_config \<Rightarrow> 'acct \<Rightarrow> nat \<Rightarrow> ('acct, 'db, 'addr) address_book
     \<Rightarrow> ('acct, 'db, 'addr) address_book option" where
  "prepare_passes lib cfg acct 0 s = None"
| "prepare_passes lib cfg acct (Suc k) s =
     (case prepare_addresses lib cfg acct s of (True, s) \<Rightarrow> prepare_passes lib cfg acct k s | (False, s) \<Rightarrow> Some s)"

lemma chunk_done: "preexpose_start lib acct s \<ge> ac_initial_scan cfg \<Longrightarrow> preexpose_transparent_chunk lib cfg acct s = (False, s)"
  by (simp add: preexpose_transparent_chunk_def Let_def)

lemma chunk_step:
  assumes laws: "address_laws lib acct derive rows" and depth: "unat (ac_initial_scan cfg) \<le> 2 ^ 31" "preexpose_start lib acct s < ac_initial_scan cfg"
  defines "stop \<equiv> min (ac_initial_scan cfg) (saturating_add (preexpose_start lib acct s) TRANSPARENT_PREEXPOSE_CHUNK)"
  obtains s' where "preexpose_transparent_chunk lib cfg acct s = (\<not> stop \<ge> ac_initial_scan cfg, s')" "preexpose_start lib acct s' = stop"
    "ab_preexposed s' = ab_preexposed s" "exposed_in derive {unat (preexpose_start lib acct s)..<unat stop} (rows (ab_db s)) (rows (ab_db s'))"
proof -
  have "unat stop \<le> 2 ^ 31"
    using depth(1) unfolding stop_def by (simp add: min_def word_le_nat_alt)
  from expose_chunk_rows [OF laws this] obtain db' where db': "expose_chunk lib acct (preexpose_start lib acct s) stop (ab_db s) = (Inr (), db')"
    "exposed_in derive {unat (preexpose_start lib acct s)..<unat stop} (rows (ab_db s)) (rows db')"
    by blast
  have nz: "ac_initial_scan cfg \<noteq> 0" "\<not> preexpose_start lib acct s \<ge> ac_initial_scan cfg"
    using depth(2) by auto
  define s1 where "s1 = (if ab_preexpose s = None then s\<lparr>ab_preexpose := Some (preexpose_start lib acct s, ac_initial_scan cfg)\<rparr> else s)"
  define s' where "s' = s1\<lparr>ab_db := db', ab_preexpose := map_option (\<lambda>(_, t). (stop, t)) (ab_preexpose s1)\<rparr>"
  have s1: "ab_db s1 = ab_db s" "ab_preexpose s1 \<noteq> None" "ab_preexposed s1 = ab_preexposed s"
    by (simp_all add: s1_def)
  have "preexpose_transparent_chunk lib cfg acct s = (\<not> stop \<ge> ac_initial_scan cfg, s')"
    unfolding preexpose_transparent_chunk_def Let_def
    using nz db'(1) s1(1) by (simp add: s1_def [symmetric] stop_def [symmetric] s'_def)
  moreover have "preexpose_start lib acct s' = stop" "ab_preexposed s' = ab_preexposed s" "ab_db s' = db'"
    using s1 by (auto simp: s'_def preexpose_start_def)
  ultimately show thesis
    using that db'(2) by simp
qed

lemma audit_frame [simp]:
  "ab_db (audit_transparent_recovery_window lib cfg acct s) = ab_db s"
  "ab_set_dirty (audit_transparent_recovery_window lib cfg acct s) = ab_set_dirty s"
  by (auto simp: audit_transparent_recovery_window_def warn_if_gap_low_def notify_def Let_def split: sum.splits option.splits exposure.splits)

lemma pass_done:
  assumes "\<not> ab_preexposed s" "preexpose_transparent_chunk lib cfg acct s = (False, s1)"
  shows "\<exists>s'. prepare_passes lib cfg acct (Suc k) s = Some (rebuild_transparent_set lib cfg acct s') \<and> ab_db s' = ab_db s1"
  using assms by (intro exI [of _ "audit_transparent_recovery_window lib cfg acct (s1\<lparr>ab_set_dirty := True, ab_preexposed := True\<rparr>)"])
    (simp add: prepare_addresses_def Let_def)

lemma exposed_in_empty: "b \<le> a \<Longrightarrow> exposed_in derive {a..<b} R R"
  by (simp add: exposed_in_def)

lemma passes_expose:
  assumes laws: "address_laws lib acct derive rows" and depth: "unat (ac_initial_scan cfg) \<le> 2 ^ 31"
  shows "\<not> ab_preexposed s \<Longrightarrow> unat (ac_initial_scan cfg) - unat (preexpose_start lib acct s) \<le> 1000 * k \<Longrightarrow>
    \<exists>s'. prepare_passes lib cfg acct (Suc k) s = Some (rebuild_transparent_set lib cfg acct s') \<and>
      exposed_in derive {unat (preexpose_start lib acct s)..<unat (ac_initial_scan cfg)} (rows (ab_db s)) (rows (ab_db s'))"
proof (induction k arbitrary: s)
  case 0
  then have "preexpose_start lib acct s \<ge> ac_initial_scan cfg"
    by (simp add: word_le_nat_alt)
  with pass_done [OF 0(1) chunk_done [OF this], of 0] show ?case
    using exposed_in_empty by (metis word_le_nat_alt)
next
  case (Suc k)
  show ?case
  proof (cases "preexpose_start lib acct s \<ge> ac_initial_scan cfg")
    case True
    with pass_done [OF Suc.prems(1) chunk_done [OF True], of "Suc k"] show ?thesis
      using exposed_in_empty by (metis word_le_nat_alt)
  next
    case False
    define stop where "stop = min (ac_initial_scan cfg) (saturating_add (preexpose_start lib acct s) TRANSPARENT_PREEXPOSE_CHUNK)"
    obtain s1 where s1: "preexpose_transparent_chunk lib cfg acct s = (\<not> stop \<ge> ac_initial_scan cfg, s1)" "preexpose_start lib acct s1 = stop"
      "\<not> ab_preexposed s1" "exposed_in derive {unat (preexpose_start lib acct s)..<unat stop} (rows (ab_db s)) (rows (ab_db s1))"
      using chunk_step [OF laws depth, of s] False Suc.prems(1) unfolding stop_def by (metis not_le)
    have stop: "unat stop = min (unat (ac_initial_scan cfg)) (unat (preexpose_start lib acct s) + 1000)"
      using False unsigned_less [of "ac_initial_scan cfg", where ?'a = nat]
      by (simp add: stop_def TRANSPARENT_PREEXPOSE_CHUNK_def unat_saturating_add word_le_nat_alt min_def)
    show ?thesis
    proof (cases "stop \<ge> ac_initial_scan cfg")
      case True
      then have "unat stop = unat (ac_initial_scan cfg)"
        using stop by (simp add: word_le_nat_alt)
      moreover have "preexpose_transparent_chunk lib cfg acct s = (False, s1)"
        using s1(1) True by simp
      ultimately show ?thesis
        using pass_done [OF Suc.prems(1), of lib cfg acct s1 "Suc k"] s1(4) by auto
    next
      case more: False
      let ?s = "s1\<lparr>ab_set_dirty := True\<rparr>"
      have cur: "preexpose_start lib acct ?s = stop"
        using s1(2) by (cases "ab_preexpose s1") (simp_all add: preexpose_start_def)
      have "prepare_passes lib cfg acct (Suc (Suc k)) s = prepare_passes lib cfg acct (Suc k) ?s"
        using s1(1) more Suc.prems(1) by (simp add: prepare_addresses_def Let_def)
      moreover have "unat (ac_initial_scan cfg) - unat (preexpose_start lib acct ?s) \<le> 1000 * k"
        using Suc.prems(2) stop more unfolding cur by (simp add: word_le_nat_alt)
      then obtain s' where s': "prepare_passes lib cfg acct (Suc k) ?s = Some (rebuild_transparent_set lib cfg acct s')"
        "exposed_in derive {unat stop..<unat (ac_initial_scan cfg)} (rows (ab_db s1)) (rows (ab_db s'))"
        using Suc.IH [of ?s] s1(3) cur by auto
      moreover have "{unat (preexpose_start lib acct s)..<unat stop} \<union> {unat stop..<unat (ac_initial_scan cfg)} =
          {unat (preexpose_start lib acct s)..<unat (ac_initial_scan cfg)}"
        using stop False by (auto simp: word_le_nat_alt)
      ultimately show ?thesis
        using exposed_in_trans [OF s1(4) s'(2)] by auto
    qed
  qed
qed

lemma max_list_spec: "max_list xs = Some m \<Longrightarrow> m \<in> set xs \<and> (\<forall>x \<in> set xs. x \<le> m)"
proof (induction xs arbitrary: m)
  case (Cons x xs)
  show ?case
  proof (cases "max_list xs")
    case None
    then show ?thesis
      using Cons.prems by (cases xs) auto
  next
    case (Some k)
    with Cons.IH [OF Some] Cons.prems show ?thesis
      by (auto simp: max_def) (metis linear order_trans)
  qed
qed simp

lemma max_list_None: "max_list xs = None \<longleftrightarrow> xs = []"
  by (cases xs) simp_all

lemma next_unexposed_rows:
  assumes laws: "address_laws lib acct derive rows"
  shows "(\<forall>i \<in> dom (rows db). i < unat (next_unexposed_external_index lib acct db)) \<and>
    (next_unexposed_external_index lib acct db = 0 \<or> unat (next_unexposed_external_index lib acct db) - 1 \<in> dom (rows db))"
proof -
  obtain ext receivers where r: "al_receivers lib acct False db = Inr ext" and "al_receivers lib acct True db = Inr receivers"
    "set ext \<subseteq> set receivers"
    and ext: "set ext = {(a, \<lparr>rm_index = Some (of_nat i), rm_exposure = e\<rparr>) | a i e. rows db i = Some e \<and> derive (of_nat i) = Some a}"
    using law_receivers [OF laws, of db] .
  let ?is = "map (\<lambda>i. saturating_add i 1) (List.map_filter rm_index (map snd ext))"
  have dom: "x \<in> set ?is \<longleftrightarrow> (\<exists>i \<in> dom (rows db). x = saturating_add (of_nat i) 1)" for x
  proof -
    have "x \<in> set ?is \<longleftrightarrow> (\<exists>i e a. rows db i = Some e \<and> derive (of_nat i) = Some a \<and> x = saturating_add (of_nat i) 1)"
      using ext by (force simp: map_filter_def image_iff)
    then show ?thesis
      using law_rows(2) [OF laws] by blast
  qed
  have succ: "unat (saturating_add (of_nat i :: u32) 1) = Suc i" if "i \<in> dom (rows db)" for i
    using that row_index_succ law_rows(1) [OF laws] by blast
  show ?thesis
  proof (cases "max_list ?is")
    case None
    then have "dom (rows db) = {}"
      using dom max_list_None [of ?is] by auto
    moreover have "next_unexposed_external_index lib acct db = 0"
      using r None by (simp add: next_unexposed_external_index_def)
    ultimately show ?thesis
      by simp
  next
    case (Some m)
    then have n: "next_unexposed_external_index lib acct db = m"
      using r by (simp add: next_unexposed_external_index_def)
    from max_list_spec [OF Some] obtain j where j: "j \<in> dom (rows db)" "m = saturating_add (of_nat j) 1"
      using dom by blast
    moreover have "i < unat m" if "i \<in> dom (rows db)" for i
    proof -
      have "saturating_add (of_nat i) 1 \<le> m"
        using max_list_spec [OF Some] dom that by blast
      then show ?thesis
        using succ [OF that] by (simp add: word_le_nat_alt)
    qed
    ultimately show ?thesis
      using n succ [OF j(1)] by simp
  qed
qed

lemma preexpose_starts_at:
  assumes laws: "address_laws lib acct derive rows"
    and fresh: "dom (rows (ab_db s)) = {..<n}" "ab_preexpose s = None"
  shows "unat (preexpose_start lib acct s) = n"
proof -
  have "\<forall>i<n. i < unat (preexpose_start lib acct s)" "unat (preexpose_start lib acct s) = 0 \<or> unat (preexpose_start lib acct s) - 1 < n"
    using next_unexposed_rows [OF laws, of "ab_db s"] fresh by (simp_all add: preexpose_start_def unat_eq_zero)
  then show ?thesis
    by (cases n; cases "unat (preexpose_start lib acct s)") auto
qed

lemma chunks_enough: "(d :: nat) - e \<le> 1000 * (d div 1000 + 1)"
proof -
  have "d mod 1000 \<le> 1000" "d = 1000 * (d div 1000) + d mod 1000"
    by simp_all
  then show ?thesis
    by (simp add: le_diff_conv)
qed

text \<open>Below the frontier of a table that holds the window, every index is in the old table or in the window.\<close>

lemma frontier_within:
  assumes frontier: "frontier_of cfg table F" and i: "i < unat F"
    and dom: "\<And>j. j \<in> dom table \<Longrightarrow> j < n \<or> j < unat (ac_initial_scan cfg)"
  shows "i < n \<or> i < unat (ac_initial_scan cfg)"
proof (cases "F = ac_initial_scan cfg")
  case False
  then obtain j g where "table j = Some (Exposed g)" "unat F = Suc j"
    using frontier unfolding frontier_of_def by blast
  then have "j < n \<or> j < unat (ac_initial_scan cfg)" "i \<le> j"
    using dom [of j] i by auto
  then show ?thesis
    by auto
qed (use i in simp)

text \<open>The recovery horizon lies within a gap of the frontier.\<close>

lemma horizon_within_gap:
  assumes frontier: "frontier_of cfg table F"
    and anchor: "\<And>f. ac_default_frontier cfg = Some f \<Longrightarrow> \<exists>d g. unat f = Suc d \<and> table d = Some (Exposed g)"
  shows "unat (transparent_recovery_horizon cfg) \<le> unat (saturating_add F (ac_gap_limit cfg))"
proof -
  have "f \<le> F" if f: "ac_default_frontier cfg = Some f" for f
  proof -
    obtain d g where d: "unat f = Suc d" "table d = Some (Exposed g)"
      using anchor [OF f] by blast
    then have "d < unat F"
      using frontier unfolding frontier_of_def by blast
    then show ?thesis
      using d(1) by (simp add: word_le_nat_alt)
  qed
  then have "max (ac_initial_scan cfg) (case ac_default_frontier cfg of Some f \<Rightarrow> f | None \<Rightarrow> 0) \<le> F"
    using frontier by (auto simp: frontier_of_def split: option.splits)
  then show ?thesis
    by (simp add: transparent_recovery_horizon_def recovery_horizon_for_def unat_saturating_add word_le_nat_alt)
qed

text \<open>C15. A restore covers the recovery horizon.  On a fresh account, whose recorded rows are the indices below some number
  and whose default address is exposed, the passes of the sync loop expose the initial window and end, within one pass
  per thousand addresses, at a pass that scans with a matcher holding the address of every index below the horizon.
  So every address the wallet issues below the horizon is found by a restore from the seed.\<close>

theorem restore_covers_horizon:
  assumes laws: "address_laws lib acct derive rows"
    and fresh: "dom (rows (ab_db s)) = {..<n}" "ab_preexpose s = None" "\<not> ab_preexposed s"
    and anchor: "\<And>f. ac_default_frontier cfg = Some f \<Longrightarrow> \<exists>d g. unat f = Suc d \<and> rows (ab_db s) d = Some (Exposed g)"
    and depth: "unat (ac_initial_scan cfg) \<le> 2 ^ 31"
  shows "\<exists>s' tm. prepare_passes lib cfg acct (unat (ac_initial_scan cfg) div 1000 + 2) s = Some s' \<and> ab_scripts s' = Some tm \<and>
    (\<forall>i a. i < 2 ^ 31 \<and> i < unat (transparent_recovery_horizon cfg) \<and> derive (of_nat i) = Some a \<longrightarrow> a \<in> tm_all tm)"
proof -
  let ?depth = "unat (ac_initial_scan cfg)"
  note start = preexpose_starts_at [OF laws fresh(1,2)]
  obtain s1 where
    s1: "prepare_passes lib cfg acct (?depth div 1000 + 2) s = Some (rebuild_transparent_set lib cfg acct s1)"
    and rows1: "exposed_in derive {n..<?depth} (rows (ab_db s)) (rows (ab_db s1))"
    using passes_expose [OF laws depth fresh(3) chunks_enough] unfolding start by auto
  obtain tm F where tm: "ab_scripts (rebuild_transparent_set lib cfg acct s1) = Some tm" "frontier_of cfg (rows (ab_db s1)) F"
    and cover: "\<forall>i a. i < 2 ^ 31 \<and> derive (of_nat i) = Some a \<and>
       (i \<in> dom (rows (ab_db s1)) \<or> unat F \<le> i \<and> i < unat (saturating_add F (ac_gap_limit cfg))) \<longrightarrow> a \<in> tm_all tm"
    by (rule rebuild_covers [OF laws, of cfg s1]) blast
  have dom1: "i \<in> dom (rows (ab_db s1)) \<longleftrightarrow> i < n \<or> i < ?depth \<and> derive (of_nat i) \<noteq> None" for i
    using exposed_in_dom [OF rows1, of i] fresh(1) by auto
  have "\<exists>d g. unat f = Suc d \<and> rows (ab_db s1) d = Some (Exposed g)" if "ac_default_frontier cfg = Some f" for f
    using anchor [OF that] rows1 unfolding exposed_in_def by (smt (verit))
  note horizon = horizon_within_gap [OF tm(2) this]
  have "a \<in> tm_all tm" if "i < 2 ^ 31" "i < unat (transparent_recovery_horizon cfg)" "derive (of_nat i) = Some a" for i a
  proof (cases "i < unat F")
    case True
    then have "i \<in> dom (rows (ab_db s1))"
      using frontier_within [OF tm(2), of i n] dom1 that(3) by auto
    then show ?thesis
      using cover that by blast
  next
    case False
    then show ?thesis
      using cover that horizon by (metis not_le order.strict_trans2)
  qed
  then show ?thesis
    using s1 tm(1) by blast
qed

text \<open>C39. An interrupted initial window is not resumed where it stopped.  The first chunk of a process starts past the highest
  recorded index, so once an address at or past the end of the window was issued by its index, a restart exposes nothing:
  an index of the window that was not yet recorded is in no matcher the following scan uses, although it is below the
  recovery horizon.\<close>

theorem interrupted_window_left_open:
  assumes laws: "address_laws lib acct derive rows"
    and restarted: "ab_preexpose s = None" "\<not> ab_preexposed s"
    and issued: "unat (ac_initial_scan cfg) \<le> Suc m" "m \<in> dom (rows (ab_db s))"
    and missing: "i < unat (ac_initial_scan cfg)" "i < 2 ^ 31" "derive (of_nat i) = Some a" "al_receivers lib acct True (ab_db s) = Inr receivers" "a \<notin> fst ` set receivers"
    and distinct: "\<And>j k. derive j = Some a \<Longrightarrow> derive k = Some a \<Longrightarrow> j = k"
  shows "\<exists>s' tm. prepare_addresses lib cfg acct s = (False, s') \<and> ab_scripts s' = Some tm \<and> a \<notin> tm_all tm \<and>
    i < unat (transparent_recovery_horizon cfg)"
proof -
  have "m < unat (preexpose_start lib acct s)"
    using next_unexposed_rows [OF laws, of "ab_db s"] issued(2) restarted(1) by (simp add: preexpose_start_def)
  then have "preexpose_start lib acct s \<ge> ac_initial_scan cfg"
    using issued(1) by (simp add: word_le_nat_alt)
  from chunk_done [OF this] obtain s1 where s1: "prepare_addresses lib cfg acct s = (False, rebuild_transparent_set lib cfg acct s1)" "ab_db s1 = ab_db s"
    using restarted(2) by (auto simp: prepare_addresses_def Let_def)
  obtain tm F where tm: "ab_scripts (rebuild_transparent_set lib cfg acct s1) = Some tm" "frontier_of cfg (rows (ab_db s1)) F"
    and "\<forall>i a. i < 2 ^ 31 \<and> derive (of_nat i) = Some a \<and>
       (i \<in> dom (rows (ab_db s1)) \<or> unat F \<le> i \<and> i < unat (saturating_add F (ac_gap_limit cfg))) \<longrightarrow> a \<in> tm_all tm"
    and only: "\<forall>receivers. al_receivers lib acct True (ab_db s1) = Inr receivers \<longrightarrow>
       tm_all tm \<subseteq> fst ` set receivers \<union> {a. \<exists>i. unat F \<le> unat i \<and> derive i = Some a}"
    by (rule rebuild_covers [OF laws, of cfg s1]) blast
  have "a \<notin> tm_all tm"
  proof
    assume "a \<in> tm_all tm"
    then obtain j where j: "unat F \<le> unat j" "derive j = Some a"
      using only missing(4,5) s1(2) by fastforce
    have "unat j = i"
      using distinct [OF missing(3) j(2)] row_index_unat [OF missing(2)] by metis
    then show False
      using j(1) missing(1) tm(2) by (simp add: frontier_of_def word_le_nat_alt)
  qed
  moreover have "i < unat (transparent_recovery_horizon cfg)"
    using missing(1,2) by (simp add: transparent_recovery_horizon_def recovery_horizon_for_def unat_saturating_add max_def word_le_nat_alt)
  ultimately show ?thesis
    using s1(1) tm(1) by blast
qed

text \<open>A transparent address asked for by its index is issued only within the non-hardened range, and past the recovery
  horizon only where the operator allowed it, with the warning to the audit log; the answer names that index, and the
  matcher is rebuilt before the next scan.  A refused index changes nothing.\<close>

theorem explicit_index_policy:
  "case get_address_for_account lib cfg account TransparentReceiver (Some j) s of
     (Inr d, s') \<Rightarrow> da_index d = j \<and> j < 2 ^ 31 \<and> da_receiver_types d = [''p2pkh''] \<and> ac_transparent_enabled cfg \<and> ab_set_dirty s' \<and>
       (j < unat (transparent_recovery_horizon cfg) \<or> ac_allow_beyond cfg \<and> IssuedBeyondHorizon (of_nat j) \<in> set (ab_notices s'))
   | (Inl _, s') \<Rightarrow> ab_notices s' = ab_notices s \<and>
       (j < 2 ^ 31 \<and> ac_transparent_enabled cfg \<and> (j < unat (transparent_recovery_horizon cfg) \<or> ac_allow_beyond cfg) \<or> s' = s)"
proof (cases "j < 2 ^ 31 \<and> ac_transparent_enabled cfg")
  case False
  then show ?thesis
    by (auto simp: get_address_for_account_def resolve_request_def transparent_address_for_account_def transparent_child_index_def)
next
  case ok: True
  have child: "transparent_child_index j = Some (of_nat j)" and j: "unat (of_nat j :: u32) = j"
    using ok by (simp_all add: transparent_child_index_def row_index_unat)
  show ?thesis
  proof (cases "address_account cfg None s")
    case (Inl e)
    then show ?thesis
      using ok child by (simp add: get_address_for_account_def resolve_request_def transparent_address_for_account_def)
  next
    case (Inr acct)
    show ?thesis
    proof (cases "of_nat j \<ge> transparent_recovery_horizon cfg \<and> \<not> ac_allow_beyond cfg")
      case True
      then show ?thesis
        using ok child Inr
        by (simp add: get_address_for_account_def resolve_request_def transparent_address_for_account_def expose_transparent_index_def)
    next
      case False
      then have pol: "j < unat (transparent_recovery_horizon cfg) \<or> ac_allow_beyond cfg"
        using j by (auto simp: word_le_nat_alt)
      show ?thesis
        using ok child Inr False pol j
        by (auto simp: get_address_for_account_def resolve_request_def transparent_address_for_account_def expose_transparent_index_def
            transparent_receiver_def notify_def Let_def word_less_nat_alt split: prod.splits sum.splits option.splits if_splits)
    qed
  qed
qed

section \<open>A library that keeps the laws\<close>

text \<open>The database is the list of recorded indices, every row is exposed, and an address is its index.\<close>

definition sample_address_lib :: "(unit, nat list, nat, nat) address_lib" where
  "sample_address_lib = \<lparr>
     al_next = (\<lambda>_ _ db. (Inl ReachedGapLimit, db)),
     al_at = (\<lambda>_ i _ db. (Inr (Some i), i # db)),
     al_receivers = (\<lambda>_ _ db. Inr (map (\<lambda>i. (i, \<lparr>rm_index = Some (of_nat i), rm_exposure = Exposed None\<rparr>)) (filter (\<lambda>i. i < 2 ^ 31) db))),
     al_metadata = (\<lambda>_ _ _. None), al_default = (\<lambda>_ _. Some (0, 0)), al_ivk = (\<lambda>_ _. Some (\<lambda>w. Some (unat w))),
     al_transparent = Some, al_encode_ua = (\<lambda>_. []), al_encode_t = (\<lambda>_. []), al_show = (\<lambda>_. [])\<rparr>"

definition sample_rows :: "nat list \<Rightarrow> nat \<rightharpoonup> exposure" where
  "sample_rows db i = (if i \<in> set db \<and> i < 2 ^ 31 then Some (Exposed None) else None)"

lemma sample_address_laws: "address_laws sample_address_lib () (\<lambda>w. Some (unat w)) sample_rows"
proof -
  have "set (map (\<lambda>i. (i, \<lparr>rm_index = Some (of_nat i :: u32), rm_exposure = Exposed None\<rparr>)) (filter (\<lambda>i. i < 2 ^ 31) db)) =
      {(a, \<lparr>rm_index = Some (of_nat i), rm_exposure = e\<rparr>) | a i e. sample_rows db i = Some e \<and> Some (unat (of_nat i :: u32)) = Some a}" for db
    by (auto simp: sample_rows_def row_index_unat image_iff split: if_splits)
  moreover have "sample_rows (i # db) = (sample_rows db)(i \<mapsto> Exposed None)" if "i < 2 ^ 31" for i db
    using that by (auto simp: sample_rows_def fun_eq_iff)
  ultimately show ?thesis
    unfolding address_laws_def lists_rows_def exposes_index_def
    by (simp add: sample_address_lib_def sample_rows_def) blast
qed

definition sample_address_config :: address_config where
  "sample_address_config = \<lparr>ac_is_shard = False, ac_transparent_enabled = True, ac_transparent_default = False,
     ac_default_receivers = receiver_set_single ROrchard, ac_enabled_pools = receiver_set_single ROrchard,
     ac_initial_scan = 10, ac_gap_limit = 5, ac_gap_warn_threshold = 2, ac_allow_beyond = False, ac_default_frontier = Some 1\<rparr>"

definition sample_book :: "nat list \<Rightarrow> (unit, nat list, nat) address_book" where
  "sample_book db = \<lparr>ab_db = db, ab_account_id = Some (), ab_set_dirty = False, ab_preexpose = None, ab_preexposed = False,
     ab_frontier = None, ab_scripts = None, ab_notices = []\<rparr>"

theorem restore_covers_horizon_witness:
  "\<exists>s' tm. prepare_passes sample_address_lib sample_address_config () 2 (sample_book [0]) = Some s' \<and> ab_scripts s' = Some tm \<and> 14 \<in> tm_all tm"
proof -
  have dom: "dom (sample_rows (ab_db (sample_book [0]))) = {..<1}"
    by (auto simp: sample_book_def sample_rows_def split: if_splits)
  have cfg: "ac_initial_scan sample_address_config = 10" "ac_default_frontier sample_address_config = Some 1"
    "unat (transparent_recovery_horizon sample_address_config) = 15"
    by (simp_all add: sample_address_config_def transparent_recovery_horizon_def recovery_horizon_for_def saturating_add_def)
  have "\<exists>s' tm. prepare_passes sample_address_lib sample_address_config () (unat (ac_initial_scan sample_address_config) div 1000 + 2) (sample_book [0]) = Some s' \<and>
      ab_scripts s' = Some tm \<and>
      (\<forall>i a. i < 2 ^ 31 \<and> i < unat (transparent_recovery_horizon sample_address_config) \<and> Some (unat (of_nat i :: u32)) = Some a \<longrightarrow> a \<in> tm_all tm)"
    by (rule restore_covers_horizon [OF sample_address_laws dom])
      (simp_all add: cfg sample_book_def sample_rows_def)
  then obtain s' tm where run: "prepare_passes sample_address_lib sample_address_config () (Suc (Suc 0)) (sample_book [0]) = Some s'" "ab_scripts s' = Some tm"
      and all: "\<forall>i a. i < 2 ^ 31 \<and> i < 15 \<and> Some (unat (of_nat i :: u32)) = Some a \<longrightarrow> a \<in> tm_all tm"
    unfolding cfg by (auto simp del: prepare_passes.simps)
  have "14 \<in> tm_all tm"
    using all [rule_format, of 14 14] row_index_unat [of 14] by simp
  then show ?thesis
    using run by (metis numeral_2_eq_2)
qed

theorem interrupted_window_left_open_witness:
  "\<exists>s' tm. prepare_addresses sample_address_lib sample_address_config () (sample_book [0, 1, 2, 9]) = (False, s') \<and> ab_scripts s' = Some tm \<and>
    5 \<notin> tm_all tm \<and> 5 < unat (transparent_recovery_horizon sample_address_config)"
  by (rule interrupted_window_left_open [OF sample_address_laws, where m = 9 and receivers = "map (\<lambda>i. (i, \<lparr>rm_index = Some (of_nat i), rm_exposure = Exposed None\<rparr>)) [0, 1, 2, 9]"])
    (simp_all add: sample_book_def sample_address_config_def sample_rows_def dom_def sample_address_lib_def word_unat_eq_iff)

end
