(* ===== verification/Migrate.thy ===== *)
theory Migrate
  imports Network
begin

text \<open>
  The layout migration of a wallet directory, \<open>src/migrate.rs\<close>.  A path is the list of its components; the file
  system maps a path to what is there, a directory with its whole tree as one value; the databases are files, so that
  the source's tests for a file and for a path agree on them.  The wallets of the configuration
  are listed in the order of their names.  Renaming and creating a directory may fail: what they allow is the record
  \<open>fs_ops\<close>.
\<close>

type_synonym path = "string list"
type_synonym 'c fs = "path \<rightharpoonup> 'c"

datatype migrate_error =
    BothPlaces string string
  | CreateFailed path
  | RenameFailed string path path

record wallet_entry =
  we_dir :: path
  we_coin :: coin

type_synonym wallets = "(string \<times> wallet_entry) list"

record fs_ops =
  fo_mkdir :: "path \<Rightarrow> bool"
  fo_rename :: "path \<Rightarrow> path \<Rightarrow> bool"

section \<open>The plan\<close>

definition ENGINE_ARTIFACTS :: "string list" where
  "ENGINE_ARTIFACTS = [''data.sqlite'', ''data.sqlite-wal'', ''data.sqlite-shm'', ''blockmeta.sqlite'',
     ''blockmeta.sqlite-wal'', ''blockmeta.sqlite-shm'', ''blocks'']"

definition PRIMARY_ARTIFACT :: string where "PRIMARY_ARTIFACT = ''data.sqlite''"

definition engine_dir_of :: "path \<Rightarrow> coin \<Rightarrow> path" where
  "engine_dir_of dir c = dir @ [coin_data_dir c, coin_engine_dir c]"

definition entry_engine_dir :: "wallet_entry \<Rightarrow> path" where
  "entry_engine_dir e = engine_dir_of (we_dir e) (we_coin e)"

record wallet_move =
  wm_wallet :: string
  wm_from :: path
  wm_to :: path
  wm_artifacts :: "string list"

fun plan_artifacts :: "'c fs \<Rightarrow> string \<Rightarrow> path \<Rightarrow> path \<Rightarrow> string list \<Rightarrow> migrate_error + string list" where
  "plan_artifacts fs name from_dir to_dir [] = Inr []"
| "plan_artifacts fs name from_dir to_dir (a # as) =
     (if fs (from_dir @ [a]) = None then plan_artifacts fs name from_dir to_dir as
      else if fs (to_dir @ [a]) \<noteq> None then Inl (BothPlaces name a)
      else sum_bind (plan_artifacts fs name from_dir to_dir as) (\<lambda>rest. Inr (a # rest)))"

fun plan :: "'c fs \<Rightarrow> wallets \<Rightarrow> migrate_error + wallet_move list" where
  "plan fs [] = Inr []"
| "plan fs ((name, entry) # ws) =
     sum_bind (plan_artifacts fs name (we_dir entry) (entry_engine_dir entry) ENGINE_ARTIFACTS) (\<lambda>artifacts.
     sum_bind (plan fs ws) (\<lambda>moves.
       Inr (if artifacts = [] then moves
            else \<lparr>wm_wallet = name, wm_from = we_dir entry, wm_to = entry_engine_dir entry, wm_artifacts = artifacts\<rparr> # moves)))"

section \<open>The moves\<close>

definition rename :: "fs_ops \<Rightarrow> path \<Rightarrow> path \<Rightarrow> 'c fs \<Rightarrow> 'c fs option" where
  "rename ops src dst fs =
     (case fs src of
        None \<Rightarrow> None
      | Some c \<Rightarrow> if fo_rename ops src dst then Some (fs(src := None, dst \<mapsto> c)) else None)"

fun apply_artifacts ::
  "fs_ops \<Rightarrow> string \<Rightarrow> path \<Rightarrow> path \<Rightarrow> string list \<Rightarrow> 'c fs \<Rightarrow> (migrate_error + unit) \<times> 'c fs" where
  "apply_artifacts ops name from_dir to_dir [] fs = (Inr (), fs)"
| "apply_artifacts ops name from_dir to_dir (a # as) fs =
     (case rename ops (from_dir @ [a]) (to_dir @ [a]) fs of
        None \<Rightarrow> (Inl (RenameFailed name (from_dir @ [a]) (to_dir @ [a])), fs)
      | Some fs \<Rightarrow> apply_artifacts ops name from_dir to_dir as fs)"

definition apply_move :: "fs_ops \<Rightarrow> wallet_move \<Rightarrow> 'c fs \<Rightarrow> (migrate_error + unit) \<times> 'c fs" where
  "apply_move ops m fs =
     (if \<not> fo_mkdir ops (wm_to m) then (Inl (CreateFailed (wm_to m)), fs)
      else apply_artifacts ops (wm_wallet m) (wm_from m) (wm_to m) (wm_artifacts m) fs)"

fun apply_moves :: "fs_ops \<Rightarrow> wallet_move list \<Rightarrow> 'c fs \<Rightarrow> (migrate_error + unit) \<times> 'c fs" where
  "apply_moves ops [] fs = (Inr (), fs)"
| "apply_moves ops (m # ms) fs =
     (case apply_move ops m fs of (Inl e, fs) \<Rightarrow> (Inl e, fs) | (Inr _, fs) \<Rightarrow> apply_moves ops ms fs)"

definition migrate :: "fs_ops \<Rightarrow> wallets \<Rightarrow> 'c fs \<Rightarrow> (migrate_error + wallet_move list) \<times> 'c fs" where
  "migrate ops ws fs =
     (case plan fs ws of
        Inl e \<Rightarrow> (Inl e, fs)
      | Inr moves \<Rightarrow>
          if moves = [] then (Inr moves, fs)
          else (case apply_moves ops moves fs of (Inl e, fs) \<Rightarrow> (Inl e, fs) | (Inr _, fs) \<Rightarrow> (Inr moves, fs)))"

text \<open>Where a command that may not migrate reads a wallet database.\<close>

definition engine_dir_for_reading :: "'c fs \<Rightarrow> wallet_entry \<Rightarrow> path" where
  "engine_dir_for_reading fs entry =
     (let engine = entry_engine_dir entry
      in if fs (engine @ [PRIMARY_ARTIFACT]) \<noteq> None \<or> fs (we_dir entry @ [PRIMARY_ARTIFACT]) = None then engine
         else we_dir entry)"

definition awaits_migration :: "'c fs \<Rightarrow> path \<Rightarrow> coin \<Rightarrow> bool" where
  "awaits_migration fs wallet_dir c \<longleftrightarrow>
     fs (wallet_dir @ [PRIMARY_ARTIFACT]) \<noteq> None \<and> fs (engine_dir_of wallet_dir c @ [PRIMARY_ARTIFACT]) = None"

section \<open>An abstract migration\<close>

text \<open>
  What the migration is for: every artifact of every wallet that is at the root is in the engine directory, and nothing
  else moved.  \<open>moving\<close> lists the pairs of places; a layout is proper when no two places of its wallets coincide.
\<close>

definition moving :: "wallets \<Rightarrow> (path \<times> path) list" where
  "moving ws = concat (map (\<lambda>(_, e). map (\<lambda>a. (we_dir e @ [a], entry_engine_dir e @ [a])) ENGINE_ARTIFACTS) ws)"

definition proper_layout :: "wallets \<Rightarrow> bool" where
  "proper_layout ws \<longleftrightarrow> distinct (map fst (moving ws) @ map snd (moving ws))"

definition move_pair :: "'c fs \<Rightarrow> path \<times> path \<Rightarrow> 'c fs" where
  "move_pair fs p = (case fs (fst p) of None \<Rightarrow> fs | Some c \<Rightarrow> fs(fst p := None, snd p \<mapsto> c))"

definition move_all :: "(path \<times> path) list \<Rightarrow> 'c fs \<Rightarrow> 'c fs" where
  "move_all ps fs = fold (\<lambda>p fs. move_pair fs p) ps fs"

definition present :: "'c fs \<Rightarrow> path \<times> path \<Rightarrow> bool" where
  "present fs p \<longleftrightarrow> fs (fst p) \<noteq> None"

definition or_else :: "'a option \<Rightarrow> 'a option \<Rightarrow> 'a option" where
  "or_else a b = (case a of Some x \<Rightarrow> Some x | None \<Rightarrow> b)"

lemma or_else_simps [simp]: "or_else None b = b" "or_else (Some x) b = Some x"
  by (simp_all add: or_else_def)

text \<open>The file system after the pairs of \<open>S\<close> were moved and nothing else was touched.\<close>

definition moved :: "(path \<times> path) set \<Rightarrow> 'c fs \<Rightarrow> 'c fs \<Rightarrow> bool" where
  "moved S fs fs' \<longleftrightarrow>
     (\<forall>s t. (s, t) \<in> S \<longrightarrow> fs' s = None \<and> fs' t = or_else (fs s) (fs t)) \<and>
     (\<forall>p. p \<notin> fst ` S \<and> p \<notin> snd ` S \<longrightarrow> fs' p = fs p)"

text \<open>The file system a crash or a failing rename leaves behind: some of the planned renames were done.\<close>

definition interrupted :: "nat \<Rightarrow> wallets \<Rightarrow> 'c fs \<Rightarrow> 'c fs" where
  "interrupted k ws fs = move_all (take k (filter (present fs) (moving ws))) fs"

section \<open>Moving distinct places\<close>

definition apart :: "(path \<times> path) set \<Rightarrow> bool" where
  "apart S \<longleftrightarrow> (\<forall>p \<in> S. \<forall>q \<in> S. fst p \<noteq> snd q \<and> (fst p = fst q \<longrightarrow> p = q) \<and> (snd p = snd q \<longrightarrow> p = q))"

lemma apart_subset: "apart S \<Longrightarrow> T \<subseteq> S \<Longrightarrow> apart T"
  unfolding apart_def by blast

lemma apart_outside:
  assumes "apart S" "(s, t) \<in> S" "T \<subseteq> S" "(s, t) \<notin> T"
  shows "s \<notin> fst ` T" "s \<notin> snd ` T" "t \<notin> fst ` T" "t \<notin> snd ` T"
proof -
  have "s \<noteq> fst q \<and> s \<noteq> snd q \<and> t \<noteq> fst q \<and> t \<noteq> snd q" if "q \<in> T" for q
  proof -
    have q: "q \<in> S" "q \<noteq> (s, t)"
      using that assms by auto
    show ?thesis
      using assms(1) [unfolded apart_def, rule_format, OF assms(2) q(1)] assms(1) [unfolded apart_def, rule_format, OF q(1) assms(2)] q(2) by auto
  qed
  then show "s \<notin> fst ` T" "s \<notin> snd ` T" "t \<notin> fst ` T" "t \<notin> snd ` T"
    by blast+
qed

lemma movedI:
  assumes "\<And>s t. (s, t) \<in> S \<Longrightarrow> fs' s = None \<and> fs' t = or_else (fs s) (fs t)"
    "\<And>p. p \<notin> fst ` S \<Longrightarrow> p \<notin> snd ` S \<Longrightarrow> fs' p = fs p"
  shows "moved S fs fs'"
  using assms unfolding moved_def by blast

lemma movedD:
  assumes "moved S fs fs'"
  shows "(s, t) \<in> S \<Longrightarrow> fs' s = None" "(s, t) \<in> S \<Longrightarrow> fs' t = or_else (fs s) (fs t)"
    "p \<notin> fst ` S \<Longrightarrow> p \<notin> snd ` S \<Longrightarrow> fs' p = fs p"
  using assms unfolding moved_def by blast+

lemma move_pair_other: "q \<noteq> fst p \<Longrightarrow> q \<noteq> snd p \<Longrightarrow> move_pair fs p q = fs q"
  by (simp add: move_pair_def split: option.split)

lemma move_all_Cons: "move_all (p # ps) fs = move_all ps (move_pair fs p)"
  by (simp add: move_all_def)

lemma move_all_other: "q \<notin> fst ` set ps \<Longrightarrow> q \<notin> snd ` set ps \<Longrightarrow> move_all ps fs q = fs q"
  by (induction ps arbitrary: fs) (simp_all add: move_all_def move_pair_other)

lemma apart_pair:
  assumes "apart (set ((s, t) # ps))" "distinct ((s, t) # ps)"
  shows "s \<noteq> t" "s \<notin> fst ` set ps" "s \<notin> snd ` set ps" "t \<notin> fst ` set ps" "t \<notin> snd ` set ps" "apart (set ps)"
proof -
  show "s \<noteq> t"
    using assms(1) by (auto simp: apart_def)
  show "s \<notin> fst ` set ps" "s \<notin> snd ` set ps" "t \<notin> fst ` set ps" "t \<notin> snd ` set ps"
    using apart_outside [OF assms(1), of s t "set ps"] assms(2) by auto
  show "apart (set ps)"
    using assms(1) by (rule apart_subset) auto
qed

lemma move_all_moved: "apart (set ps) \<Longrightarrow> distinct ps \<Longrightarrow> moved (set ps) fs (move_all ps fs)"
proof (induction ps arbitrary: fs)
  case (Cons p ps)
  obtain s t where p: "p = (s, t)"
    by (cases p)
  note ap = apart_pair [OF Cons.prems [unfolded p]]
  have ih: "moved (set ps) (move_pair fs p) (move_all ps (move_pair fs p))"
    using Cons.IH [OF ap(6)] Cons.prems(2) by simp
  have head: "move_all ps (move_pair fs p) s = None" "move_all ps (move_pair fs p) t = or_else (fs s) (fs t)"
    using ap by (simp_all add: move_all_other p move_pair_def split: option.split)
  have rest: "move_all ps (move_pair fs p) s' = None" "move_all ps (move_pair fs p) t' = or_else (fs s') (fs t')"
    if st: "(s', t') \<in> set ps" for s' t'
  proof -
    have "s' \<noteq> s" "s' \<noteq> t" "t' \<noteq> s" "t' \<noteq> t"
      using ap(2-5) st by force+
    then have "move_pair fs p s' = fs s'" "move_pair fs p t' = fs t'"
      by (simp_all add: move_pair_other p)
    then show "move_all ps (move_pair fs p) s' = None" "move_all ps (move_pair fs p) t' = or_else (fs s') (fs t')"
      using movedD [OF ih] st by simp_all
  qed
  show ?case
    unfolding move_all_Cons
  proof (rule movedI)
    fix q assume "q \<notin> fst ` set (p # ps)" "q \<notin> snd ` set (p # ps)"
    then show "move_all ps (move_pair fs p) q = fs q"
      by (simp add: move_all_other move_pair_other)
  qed (use head rest p in auto)
qed (simp add: moved_def move_all_def)

lemma moved_unique:
  assumes "moved S fs fs1" "moved S fs fs2"
  shows "fs1 = fs2"
proof
  fix p
  show "fs1 p = fs2 p"
  proof (cases "p \<in> fst ` S \<or> p \<in> snd ` S")
    case True
    then obtain s t where "(s, t) \<in> S" "p = s \<or> p = t"
      by fastforce
    then show ?thesis
      using movedD(1,2) [OF assms(1)] movedD(1,2) [OF assms(2)] by auto
  next
    case False
    then show ?thesis
      using movedD(3) [OF assms(1)] movedD(3) [OF assms(2)] by simp
  qed
qed

text \<open>Pairs whose source is absent move nothing.\<close>

lemma moved_absent:
  assumes ap: "apart S" and m: "moved {p \<in> S. present fs p} fs fs'"
  shows "moved S fs fs'"
proof (rule movedI)
  fix s t assume st: "(s, t) \<in> S"
  show "fs' s = None \<and> fs' t = or_else (fs s) (fs t)"
  proof (cases "fs s")
    case None
    have "s \<notin> fst ` {p \<in> S. present fs p}" "s \<notin> snd ` {p \<in> S. present fs p}" "t \<notin> fst ` {p \<in> S. present fs p}" "t \<notin> snd ` {p \<in> S. present fs p}"
      using ap st None unfolding apart_def present_def by fastforce+
    then have "fs' s = fs s" "fs' t = fs t"
      using movedD(3) [OF m] by blast+
    then show ?thesis
      using None by simp
  next
    case (Some c)
    then have "(s, t) \<in> {p \<in> S. present fs p}"
      using st by (simp add: present_def)
    then show ?thesis
      using movedD(1,2) [OF m] by blast
  qed
next
  fix p assume "p \<notin> fst ` S" "p \<notin> snd ` S"
  then show "fs' p = fs p"
    using movedD(3) [OF m] by blast
qed

lemma moved_trans:
  assumes ap: "apart S" and sub: "T \<subseteq> S" and m1: "moved T fs fs1" and m2: "moved S fs1 fs2"
  shows "moved S fs fs2"
proof (rule movedI)
  fix s t assume st: "(s, t) \<in> S"
  have "fs2 s = None"
    using movedD(1) [OF m2 st] .
  moreover have "fs2 t = or_else (fs s) (fs t)"
  proof (cases "(s, t) \<in> T")
    case True
    then show ?thesis
      using movedD(2) [OF m2 st] movedD(1,2) [OF m1 True] by simp
  next
    case False
    then show ?thesis
      using apart_outside [OF ap st sub] movedD(2) [OF m2 st] movedD(3) [OF m1] by simp
  qed
  ultimately show "fs2 s = None \<and> fs2 t = or_else (fs s) (fs t)"
    by blast
next
  fix p assume "p \<notin> fst ` S" "p \<notin> snd ` S"
  then show "fs2 p = fs p"
    using movedD(3) [OF m2] movedD(3) [OF m1] sub by (metis image_mono subsetD)
qed

section \<open>The plan lists what is present\<close>

definition entry_pairs :: "wallet_entry \<Rightarrow> string list \<Rightarrow> (path \<times> path) list" where
  "entry_pairs e as = map (\<lambda>a. (we_dir e @ [a], entry_engine_dir e @ [a])) as"

definition move_pairs :: "wallet_move list \<Rightarrow> (path \<times> path) list" where
  "move_pairs ms = concat (map (\<lambda>m. map (\<lambda>a. (wm_from m @ [a], wm_to m @ [a])) (wm_artifacts m)) ms)"

definition both_places :: "'c fs \<Rightarrow> path \<times> path \<Rightarrow> bool" where
  "both_places fs p \<longleftrightarrow> fs (fst p) \<noteq> None \<and> fs (snd p) \<noteq> None"

lemma moving_Cons: "moving ((n, e) # ws) = entry_pairs e ENGINE_ARTIFACTS @ moving ws"
  by (simp add: moving_def entry_pairs_def)

lemma plan_artifacts_spec:
  "plan_artifacts fs n (we_dir e) (entry_engine_dir e) as =
     (case find (\<lambda>a. both_places fs (we_dir e @ [a], entry_engine_dir e @ [a])) as of
        Some a \<Rightarrow> Inl (BothPlaces n a)
      | None \<Rightarrow> Inr (filter (\<lambda>a. fs (we_dir e @ [a]) \<noteq> None) as))"
  by (induction as) (auto simp: both_places_def split: option.splits)

lemma plan_Inr:
  "plan fs ws = Inr ms \<Longrightarrow> move_pairs ms = filter (present fs) (moving ws) \<and> (\<forall>p \<in> set (moving ws). \<not> both_places fs p)"
proof (induction ws arbitrary: ms)
  case (Cons w ws)
  obtain n e where w: "w = (n, e)"
    by (cases w)
  let ?as = "filter (\<lambda>a. fs (we_dir e @ [a]) \<noteq> None) ENGINE_ARTIFACTS"
  obtain ms' where ms': "plan fs ws = Inr ms'" "plan_artifacts fs n (we_dir e) (entry_engine_dir e) ENGINE_ARTIFACTS = Inr ?as"
    "ms = (if ?as = [] then ms' else \<lparr>wm_wallet = n, wm_from = we_dir e, wm_to = entry_engine_dir e, wm_artifacts = ?as\<rparr> # ms')"
    using Cons.prems unfolding w plan.simps sum_bind_Inr plan_artifacts_spec by (auto split: option.splits)
  have "move_pairs ms = entry_pairs e ?as @ move_pairs ms'"
    unfolding ms'(3) by (simp add: move_pairs_def entry_pairs_def)
  moreover have "entry_pairs e ?as = filter (present fs) (entry_pairs e ENGINE_ARTIFACTS)"
    by (simp add: entry_pairs_def filter_map present_def o_def)
  moreover have "\<forall>p \<in> set (entry_pairs e ENGINE_ARTIFACTS). \<not> both_places fs p"
    using ms'(2) unfolding plan_artifacts_spec by (auto simp: entry_pairs_def find_None_iff split: option.splits)
  ultimately show ?case
    using Cons.IH [OF ms'(1)] by (auto simp: w moving_Cons)
qed (simp add: move_pairs_def moving_def)

lemma plan_total: "\<forall>p \<in> set (moving ws). \<not> both_places fs p \<Longrightarrow> \<exists>ms. plan fs ws = Inr ms"
proof (induction ws)
  case (Cons w ws)
  obtain n e where w: "w = (n, e)"
    by (cases w)
  have "find (\<lambda>a. both_places fs (we_dir e @ [a], entry_engine_dir e @ [a])) ENGINE_ARTIFACTS = None"
    using Cons.prems by (auto simp: w moving_Cons entry_pairs_def find_None_iff)
  then show ?case
    using Cons by (auto simp: w moving_Cons plan_artifacts_spec simp del: find_None_iff)
qed simp

section \<open>The moves are done\<close>

definition always :: fs_ops where
  "always = \<lparr>fo_mkdir = \<lambda>_. True, fo_rename = \<lambda>_ _. True\<rparr>"

lemma apply_artifacts_always:
  "apart (set (map (\<lambda>a. (f @ [a], t @ [a])) as)) \<Longrightarrow> distinct as \<Longrightarrow> \<forall>a \<in> set as. fs (f @ [a]) \<noteq> None \<Longrightarrow>
     apply_artifacts always n f t as fs = (Inr (), move_all (map (\<lambda>a. (f @ [a], t @ [a])) as) fs)"
proof (induction as arbitrary: fs)
  case (Cons a as)
  let ?p = "(f @ [a], t @ [a])"
  have d: "distinct (map (\<lambda>a. (f @ [a], t @ [a])) (a # as))"
    using Cons.prems(2) by (auto simp: distinct_map inj_on_def)
  note ap = apart_pair [OF Cons.prems(1) [simplified list.map] d [simplified list.map]]
  obtain c where c: "fs (f @ [a]) = Some c"
    using Cons.prems(3) by auto
  have keep: "fs' (f @ [b]) \<noteq> None" if "b \<in> set as" "fs' = move_pair fs ?p" for b fs'
  proof -
    have "f @ [b] \<noteq> fst ?p" "f @ [b] \<noteq> snd ?p"
      using ap(2,4) that(1) by force+
    then show ?thesis
      using Cons.prems(3) that by (simp add: move_pair_other)
  qed
  have "rename always (f @ [a]) (t @ [a]) fs = Some (move_pair fs ?p)"
    by (simp add: rename_def always_def move_pair_def c)
  then show ?case
    using Cons.IH [of "move_pair fs ?p"] ap(6) Cons.prems(2) keep by (simp add: move_all_Cons)
qed (simp add: move_all_def)

lemma move_all_append: "move_all (ps @ qs) fs = move_all qs (move_all ps fs)"
  by (simp add: move_all_def)

lemma apply_moves_always:
  "apart (set (move_pairs ms)) \<Longrightarrow> distinct (move_pairs ms) \<Longrightarrow> \<forall>p \<in> set (move_pairs ms). present fs p \<Longrightarrow>
     apply_moves always ms fs = (Inr (), move_all (move_pairs ms) fs)"
proof (induction ms arbitrary: fs)
  case (Cons m ms)
  let ?ps = "map (\<lambda>a. (wm_from m @ [a], wm_to m @ [a])) (wm_artifacts m)"
  have split: "move_pairs (m # ms) = ?ps @ move_pairs ms"
    by (simp add: move_pairs_def)
  have head: "apply_move always m fs = (Inr (), move_all ?ps fs)"
  proof -
    have "apart (set ?ps)"
      using Cons.prems(1) by (rule apart_subset) (auto simp: split)
    moreover have "distinct (wm_artifacts m)"
      using Cons.prems(2) by (simp add: split distinct_map)
    moreover have "\<forall>a \<in> set (wm_artifacts m). fs (wm_from m @ [a]) \<noteq> None"
      using Cons.prems(3) unfolding split present_def by force
    ultimately show ?thesis
      by (simp add: apply_move_def apply_artifacts_always) (simp add: always_def)
  qed
  have keep: "present (move_all ?ps fs) p" if p: "p \<in> set (move_pairs ms)" for p
  proof -
    have new: "p \<notin> set ?ps"
      using Cons.prems(2) p by (auto simp: split)
    have "fst p \<notin> fst ` set ?ps" "fst p \<notin> snd ` set ?ps"
    proof -
      have "fst p \<noteq> fst q \<and> fst p \<noteq> snd q" if q: "q \<in> set ?ps" for q
      proof -
        have mem: "p \<in> set (move_pairs (m # ms))" "q \<in> set (move_pairs (m # ms))" "p \<noteq> q"
          using p q new by (auto simp: split simp del: set_map)
        then show ?thesis
          using Cons.prems(1) [unfolded apart_def, rule_format, OF mem(1,2)] by blast
      qed
      then show "fst p \<notin> fst ` set ?ps" "fst p \<notin> snd ` set ?ps"
        by blast+
    qed
    then show ?thesis
      using Cons.prems(3) p by (simp add: present_def move_all_other split)
  qed
  have "apart (set (move_pairs ms))"
    using Cons.prems(1) by (rule apart_subset) (auto simp: split)
  then show ?case
    using Cons.IH [of "move_all ?ps fs"] Cons.prems(2) head keep by (simp add: split move_all_append)
qed (simp add: move_pairs_def move_all_def)

lemma proper_apart:
  assumes "proper_layout ws"
  shows "apart (set (moving ws))" "distinct (moving ws)"
proof -
  have d: "distinct (map fst (moving ws))" "distinct (map snd (moving ws))" "set (map fst (moving ws)) \<inter> set (map snd (moving ws)) = {}"
    using assms by (simp_all add: proper_layout_def)
  then show "distinct (moving ws)"
    by (simp add: distinct_map)
  show "apart (set (moving ws))"
    unfolding apart_def using d by (auto simp: distinct_map inj_on_def)
qed

lemma migrate_always:
  assumes "proper_layout ws" "plan fs ws = Inr ms"
  shows "migrate always ws fs = (Inr ms, move_all (filter (present fs) (moving ws)) fs)"
proof -
  note ap = proper_apart [OF assms(1)]
  have ps: "move_pairs ms = filter (present fs) (moving ws)"
    using plan_Inr [OF assms(2)] by blast
  have "apply_moves always ms fs = (Inr (), move_all (move_pairs ms) fs)"
  proof (rule apply_moves_always)
    show "apart (set (move_pairs ms))"
      unfolding ps using ap(1) by (rule apart_subset) auto
  qed (use ap(2) in \<open>simp_all add: ps\<close>)
  then show ?thesis
    using assms(2) ps by (auto simp: migrate_def move_pairs_def move_all_def)
qed

section \<open>Resuming and refusing\<close>

lemma migrate_moves:
  assumes "proper_layout ws" "plan fs ws = Inr ms"
  shows "moved (set (moving ws)) fs (snd (migrate always ws fs))"
proof (rule moved_absent [OF proper_apart(1) [OF assms(1)]])
  have "apart (set (filter (present fs) (moving ws)))" "distinct (filter (present fs) (moving ws))"
    using proper_apart [OF assms(1)] by (auto intro: apart_subset)
  from move_all_moved [OF this] show "moved {p \<in> set (moving ws). present fs p} fs (snd (migrate always ws fs))"
    by (simp add: migrate_always [OF assms])
qed

text \<open>C14. An interrupted migration resumes.  In a layout whose places are distinct, where the file system lets the moves
  happen and no artifact is in both places, whatever number of renames a first run had done when it was cut off, the
  next run succeeds and leaves the very file system an uninterrupted run leaves: every artifact that was at a wallet's
  root is in its engine directory with its content, and no other path changed.\<close>

theorem migrate_resumes:
  assumes proper: "proper_layout ws" and plan: "plan fs ws = Inr ms"
  shows "\<exists>ms'. migrate always ws (interrupted k ws fs) = (Inr ms', snd (migrate always ws fs)) \<and>
    moved (set (moving ws)) fs (snd (migrate always ws fs))"
proof -
  let ?taken = "take k (filter (present fs) (moving ws))" and ?cut = "interrupted k ws fs"
  note ap = proper_apart [OF proper]
  have sub: "set ?taken \<subseteq> set (moving ws)"
    using set_take_subset by fastforce
  have cut: "moved (set ?taken) fs ?cut"
    unfolding interrupted_def using ap sub by (intro move_all_moved) (auto intro: apart_subset)
  have "\<not> both_places ?cut p" if p: "p \<in> set (moving ws)" for p
  proof
    obtain s t where st: "p = (s, t)"
      by (cases p)
    assume both: "both_places ?cut p"
    show False
    proof (cases "p \<in> set ?taken")
      case True
      then show False
        using movedD(1) [OF cut] both by (auto simp: st both_places_def)
    next
      case False
      have "s \<notin> fst ` set ?taken" "s \<notin> snd ` set ?taken" "t \<notin> fst ` set ?taken" "t \<notin> snd ` set ?taken"
        using apart_outside [OF ap(1) _ sub] p False unfolding st by blast+
      then have "both_places fs p"
        using movedD(3) [OF cut] both by (simp add: st both_places_def)
      then show False
        using plan_Inr [OF plan] p by blast
    qed
  qed
  then obtain ms' where ms': "plan ?cut ws = Inr ms'"
    using plan_total by blast
  have "moved (set (moving ws)) fs (snd (migrate always ws ?cut))"
    using moved_trans [OF ap(1) sub cut migrate_moves [OF proper ms']] .
  then have "snd (migrate always ws ?cut) = snd (migrate always ws fs)"
    using migrate_moves [OF proper plan] by (rule moved_unique)
  then show ?thesis
    using migrate_always [OF proper ms'] migrate_moves [OF proper plan] by simp
qed

text \<open>The migration refuses exactly the ambiguous case, an artifact both at a wallet's root and in its engine directory,
  and then touches nothing.\<close>

theorem migrate_refuses_ambiguity:
  "(\<exists>p \<in> set (moving ws). both_places fs p) = (\<exists>n a. migrate ops ws fs = (Inl (BothPlaces n a), fs))"
proof
  assume "\<exists>p \<in> set (moving ws). both_places fs p"
  then obtain e where e: "plan fs ws = Inl e"
    using plan_Inr by (metis sum.exhaust)
  have "plan fs ws = Inl e \<Longrightarrow> \<exists>n a. e = BothPlaces n a" for ws
    by (induction fs ws rule: plan.induct) (auto simp: plan_artifacts_spec sum_bind_def split: sum.splits option.splits)
  with e show "\<exists>n a. migrate ops ws fs = (Inl (BothPlaces n a), fs)"
    by (auto simp: migrate_def)
next
  have no: "fst (apply_artifacts ops n f t as fs) \<noteq> Inl (BothPlaces m a)" for n f t as m a and fs :: "'a fs"
    by (induction as arbitrary: fs) (simp_all split: option.split)
  have "fst (apply_moves ops ms fs) \<noteq> Inl (BothPlaces n a)" for ms n a and fs :: "'a fs"
  proof (induction ms arbitrary: fs)
    case (Cons m ms)
    then show ?case
      using no [of "wm_wallet m" "wm_from m" "wm_to m" "wm_artifacts m" fs n a]
      by (auto simp: apply_move_def split: prod.splits sum.splits)
  qed simp
  moreover assume "\<exists>n a. migrate ops ws fs = (Inl (BothPlaces n a), fs)"
  ultimately obtain e where "plan fs ws = Inl e"
    by (auto simp: migrate_def split: sum.splits prod.splits if_splits) (metis fst_conv)
  then show "\<exists>p \<in> set (moving ws). both_places fs p"
    using plan_total by fastforce
qed

text \<open>A migration cut off after its first rename separates a database from its log for a reader: the directory a command
  that may not migrate reads from is the engine directory, which has the database, while the write-ahead log with its
  last transactions is still at the wallet root.\<close>

theorem interrupted_move_hides_log:
  assumes root: "fs (we_dir e @ [''data.sqlite'']) = Some d" "fs (we_dir e @ [''data.sqlite-wal'']) = Some w"
    and fresh: "fs (entry_engine_dir e @ [''data.sqlite'']) = None" "fs (entry_engine_dir e @ [''data.sqlite-wal'']) = None"
  shows "\<exists>fs'. fs' = interrupted 1 [(n, e)] fs \<and> engine_dir_for_reading fs' e = entry_engine_dir e \<and>
    fs' (entry_engine_dir e @ [''data.sqlite'']) = Some d \<and> fs' (entry_engine_dir e @ [''data.sqlite-wal'']) = None \<and>
    fs' (we_dir e @ [''data.sqlite-wal'']) = Some w"
proof -
  have "moving [(n, e)] = (we_dir e @ [''data.sqlite''], entry_engine_dir e @ [''data.sqlite'']) #
      map (\<lambda>a. (we_dir e @ [a], entry_engine_dir e @ [a])) (tl ENGINE_ARTIFACTS)"
    by (simp add: moving_def ENGINE_ARTIFACTS_def)
  then have "interrupted 1 [(n, e)] fs = fs(we_dir e @ [''data.sqlite''] := None, entry_engine_dir e @ [''data.sqlite''] \<mapsto> d)"
    using root(1) by (simp add: interrupted_def present_def move_all_def move_pair_def)
  moreover have "entry_engine_dir e = we_dir e @ [coin_data_dir (we_coin e), coin_engine_dir (we_coin e)]"
    by (simp add: entry_engine_dir_def engine_dir_of_def)
  ultimately show ?thesis
    using root fresh by (simp add: engine_dir_for_reading_def PRIMARY_ARTIFACT_def)
qed

section \<open>A wallet directory\<close>

definition old_wallets :: wallets where
  "old_wallets = [(''w'', \<lparr>we_dir = [''wallet''], we_coin = Zcash\<rparr>)]"

definition old_layout :: "nat fs" where
  "old_layout = [[''wallet'', ''data.sqlite''] \<mapsto> 1, [''wallet'', ''data.sqlite-wal''] \<mapsto> 2, [''wallet'', ''keys.toml''] \<mapsto> 3]"

lemma old_layout_proper: "proper_layout old_wallets" "\<exists>ms. plan old_layout old_wallets = Inr ms"
  by (simp_all add: proper_layout_def old_wallets_def old_layout_def moving_def ENGINE_ARTIFACTS_def entry_engine_dir_def engine_dir_of_def)

theorem migrate_resumes_witness:
  "snd (migrate always old_wallets (interrupted 1 old_wallets old_layout)) [''wallet'', ''zec'', ''lrz'', ''data.sqlite-wal''] = Some 2"
proof -
  obtain ms where "plan old_layout old_wallets = Inr ms"
    using old_layout_proper(2) by blast
  from migrate_resumes [OF old_layout_proper(1) this, of 1]
  have "moved (set (moving old_wallets)) old_layout (snd (migrate always old_wallets (interrupted 1 old_wallets old_layout)))"
    by (auto simp: prod_eq_iff)
  from movedD(2) [OF this, of "[''wallet'', ''data.sqlite-wal'']" "[''wallet'', ''zec'', ''lrz'', ''data.sqlite-wal'']"] show ?thesis
    by (simp add: moving_def old_wallets_def ENGINE_ARTIFACTS_def entry_engine_dir_def engine_dir_of_def old_layout_def)
qed

theorem migrate_refuses_ambiguity_witness:
  "\<exists>n a. migrate always old_wallets (old_layout([''wallet'', ''zec'', ''lrz'', ''data.sqlite''] \<mapsto> 9)) =
     (Inl (BothPlaces n a), old_layout([''wallet'', ''zec'', ''lrz'', ''data.sqlite''] \<mapsto> 9))"
proof -
  have "\<exists>p \<in> set (moving old_wallets). both_places (old_layout([''wallet'', ''zec'', ''lrz'', ''data.sqlite''] \<mapsto> 9)) p"
    by (rule bexI [of _ "([''wallet'', ''data.sqlite''], [''wallet'', ''zec'', ''lrz'', ''data.sqlite''])"])
      (simp_all add: moving_def old_wallets_def ENGINE_ARTIFACTS_def entry_engine_dir_def engine_dir_of_def old_layout_def both_places_def)
  then show ?thesis
    by (rule iffD1 [OF migrate_refuses_ambiguity])
qed

theorem interrupted_move_hides_log_witness:
  "engine_dir_for_reading (interrupted 1 old_wallets old_layout) \<lparr>we_dir = [''wallet''], we_coin = Zcash\<rparr> = [''wallet'', ''zec'', ''lrz'']"
  using interrupted_move_hides_log [of old_layout "\<lparr>we_dir = [''wallet''], we_coin = Zcash\<rparr>" 1 2 "''w''"]
  by (simp add: old_wallets_def old_layout_def entry_engine_dir_def engine_dir_of_def)

end
