(* ===== verification/Shutdown_Drain.thy ===== *)
theory Shutdown_Drain
  imports Send_Pipeline
begin

text \<open>
  What the actor still does once it is told to stop, \<open>finish_accepted_sends\<close> of \<open>src/wallet/actor.rs\<close>: it commits the
  proofs it waits for, then handles the commands already in its mailbox, within a configured time.  The clock is the
  list of the tests against the deadline that still succeed, one element per test; an element says whether a proof that
  is waited for at that point ends in the time that is left.  When the list is used up the deadline has passed.
\<close>

section \<open>Commands\<close>

text \<open>The commands of the mailbox: a send, or any other, which changes the core and answers a channel of its own.\<close>

datatype ('core, 'z, 'pol) command =
    CmdSend "('z, 'pol) pending_send"
  | CmdOther "('core, unit) act"

definition handle_command where
  "handle_command lib cfg cmd =
     act_bind (case cmd of CmdSend p \<Rightarrow> begin_or_queue_send lib cfg p | CmdOther f \<Rightarrow> on_core f) (\<lambda>_. act_return False)"

definition handle_command_caught where
  "handle_command_caught lib cfg cmd =
     act_bind (catch_unwind (handle_command lib cfg cmd)) (\<lambda>r.
       act_return (case r of Some stop \<Rightarrow> stop | None \<Rightarrow> False))"

section \<open>The drain\<close>

text \<open>Waiting for a completion until the deadline: one already on the channel is taken at once.\<close>

definition recv_completion where
  "recv_completion lib in_time s =
     (case wa_done s of
        d # ds \<Rightarrow> (Some d, s\<lparr>wa_done := ds\<rparr>)
      | [] \<Rightarrow>
          (case wa_jobs s of
             [] \<Rightarrow> (None, s)
           | j # js \<Rightarrow> if in_time \<and> job_ends lib j then (Some (run_job lib j), s\<lparr>wa_jobs := js\<rparr>) else (None, s)))"

fun drain_proofs where
  "drain_proofs lib cfg [] finished s = (Returned (finished, []), s)"
| "drain_proofs lib cfg (t # ts) finished s =
     (if \<not> wa_in_flight s then (Returned (finished, t # ts), s)
      else case recv_completion lib t s of
        (None, s) \<Rightarrow> (Returned (finished, []), s)
      | (Some d, s) \<Rightarrow> act_bind (finish_send_caught lib cfg d) (\<lambda>_. drain_proofs lib cfg ts (Suc finished)) s)"

fun drain_commands where
  "drain_commands lib cfg [] mailbox finished s = (Returned (Some finished), s)"
| "drain_commands lib cfg (t # ts) [] finished s = (Returned (Some finished), s)"
| "drain_commands lib cfg (t # ts) (cmd # mailbox) finished s =
     act_bind (handle_command_caught lib cfg cmd) (\<lambda>stop.
       if stop then act_return None else drain_commands lib cfg ts mailbox (Suc finished)) s"

text \<open>The result is what the log reports, the work finished and the sends abandoned, when it gets that far.\<close>

definition finish_accepted_sends where
  "finish_accepted_sends lib cfg shutdown_drain ts mailbox =
     (if shutdown_drain = (0 :: nat) then act_return None
      else act_bind (drain_proofs lib cfg ts (0 :: nat)) (\<lambda>(finished, ts).
        act_bind (drain_commands lib cfg ts mailbox finished) (\<lambda>r.
          case r of
            None \<Rightarrow> act_return None
          | Some finished \<Rightarrow> (\<lambda>s. (Returned (Some (finished, length (wa_queue s) + (if wa_in_flight s then 1 else 0))), s)))))"

section \<open>What is waiting is finished\<close>

lemma recv_round:
  assumes "pipe_inv s" "wa_in_flight s" "all_jobs_end lib"
  obtains d s0 where "recv_completion lib True s = (Some d, s0)"
    "pipe_run lib cfg drain_round (True, s) = still_running (finish_send_caught lib cfg d s0)"
proof (cases "wa_done s")
  case Nil
  then obtain j where j: "wa_jobs s = [j]"
    using assms(1,2) by (cases "wa_jobs s") (auto simp: pipe_inv_def)
  have "job_ends lib j"
    using assms(3) by (simp add: all_jobs_end_def job_ends_def)
  with j Nil show thesis
    by (cases s; intro that [of "run_job lib j" "s\<lparr>wa_jobs := []\<rparr>"])
      (simp_all add: recv_completion_def pipe_run_def drain_round_def)
next
  case (Cons d ds)
  then have "wa_jobs s = []" "ds = []"
    using assms(1,2) by (auto simp: pipe_inv_def)
  with Cons show thesis
    by (intro that [of d "s\<lparr>wa_done := []\<rparr>"]) (simp_all add: recv_completion_def pipe_run_def drain_round_def)
qed

text \<open>One round of waiting commits one send, and the sends queued behind it move up.\<close>

lemma drain_proofs_finish:
  assumes "pipe_inv s" "pipe_total lib cfg" "all_jobs_end lib" "pending_work s + m \<le> length ts" "\<forall>t \<in> set ts. t"
  shows "\<exists>k ts' s'. drain_proofs lib cfg ts n s = (Returned (k, ts'), s') \<and> m \<le> length ts' \<and> pipe_inv s' \<and>
    pending_work s' = 0 \<and> accounted s' = accounted s"
  using assms
proof (induction ts arbitrary: s n)
  case Nil
  then show ?case by simp
next
  case (Cons t ts)
  show ?case
  proof (cases "wa_in_flight s")
    case False
    then have "pending_work s = 0"
      using Cons.prems(1) by (auto simp: pipe_inv_def pending_work_def)
    with False Cons.prems show ?thesis by simp
  next
    case True
    obtain d s0 where d: "recv_completion lib True s = (Some d, s0)"
        "pipe_run lib cfg drain_round (True, s) = still_running (finish_send_caught lib cfg d s0)"
      using recv_round [OF Cons.prems(1) True Cons.prems(3)] by blast
    obtain r s1 where r: "finish_send_caught lib cfg d s0 = (r, s1)"
      by (cases "finish_send_caught lib cfg d s0")
    have run: "pipe_run lib cfg drain_round (True, s) = (r = Returned (), s1)"
      using d(2) r by (cases r) (simp_all add: still_running_def)
    note p = drain_round_progress [OF run Cons.prems(1-3)]
    have "pending_work s \<ge> 1"
      using True by (simp add: pending_work_def)
    then have left: "pending_work s1 + m \<le> length ts"
      using p(3) Cons.prems(4) by simp
    have ts: "\<forall>t \<in> set ts. t" and t: "t"
      using Cons.prems(5) by (metis list.set_intros)+
    have step: "drain_proofs lib cfg (t # ts) n s = drain_proofs lib cfg ts (Suc n) s1"
      using True t d(1) r p(1) by (simp add: act_bind_def)
    show ?thesis
      unfolding step using Cons.IH [OF p(2) Cons.prems(2,3) left ts, of "Suc n"] p(4) by simp
  qed
qed

text \<open>A command that ends where it is handled: any that is not a send, and a send that is not pipelined.\<close>

fun settled_at_once where
  "settled_at_once lib cfg (CmdSend p) \<longleftrightarrow> runs_inline lib cfg p"
| "settled_at_once lib cfg (CmdOther f) \<longleftrightarrow> act_total f"

definition command_replies :: "('core, 'z, 'pol) command list \<Rightarrow> nat multiset" where
  "command_replies cmds = mset (concat (map (\<lambda>c. case c of CmdSend p \<Rightarrow> [pn_reply p] | _ \<Rightarrow> []) cmds))"

definition idle :: "('core, 'z, 'pol, 'pczt, 'x, 'usk, 'txid) wallet_actor \<Rightarrow> bool" where
  "idle s \<longleftrightarrow> wa_queue s = [] \<and> wa_jobs s = [] \<and> wa_done s = [] \<and> \<not> wa_in_flight s"

lemma idle_iff: "pipe_inv s \<Longrightarrow> idle s \<longleftrightarrow> pending_work s = 0"
  by (auto simp: idle_def pipe_inv_def pending_work_def split: if_splits)

lemma settled_step:
  fixes lib :: "('n, 'c, 'd, 'acct, 'z, 'o, 's, 'k, 'br, 'pad, 'ver, 'x, 'pol, 'pczt, 'usk, 'txid, 'u) send_lib"
  assumes "pipe_total lib cfg" "settled_at_once lib cfg cmd" "idle s"
  shows "\<exists>s'. handle_command_caught lib cfg cmd s = (Returned False, s') \<and> idle s' \<and>
    accounted s' = accounted s + command_replies [cmd]"
proof (cases cmd)
  case (CmdSend p)
  obtain r c where rc: "do_send lib cfg (pn_request p) (pn_confirmations p) (pn_privacy p) (pn_source p) (wa_core s) = (r, c)"
    by (cases "do_send lib cfg (pn_request p) (pn_confirmations p) (pn_privacy p) (pn_source p) (wa_core s)")
  have "r \<notin> {Panicked, Diverged}"
    using assms(1) rc unfolding pipe_total_def inline_total_def by (metis fst_conv)
  then obtain v where "r = Returned v"
    by (cases r) auto
  with rc assms(2,3) CmdSend show ?thesis
    by (auto simp: handle_command_caught_def handle_command_def catch_unwind_def begin_or_queue_send_def act_bind_def
        on_core_def act_modify_def reply_to_def idle_def accounted_def command_replies_def)
next
  case (CmdOther f)
  then obtain c where "f (wa_core s) = (Returned (), c)"
    using assms(2) by (cases "f (wa_core s)"; cases "fst (f (wa_core s))") (auto simp: act_total_def dest: spec [of _ "wa_core s"])
  with CmdOther assms(3) show ?thesis
    by (auto simp: handle_command_caught_def handle_command_def catch_unwind_def act_bind_def on_core_def idle_def
        accounted_def command_replies_def)
qed


lemma drain_commands_finish:
  assumes "pipe_total lib cfg" "\<forall>cmd \<in> set mailbox. settled_at_once lib cfg cmd" "idle s" "length mailbox \<le> length ts"
  shows "\<exists>s'. drain_commands lib cfg ts mailbox n s = (Returned (Some (n + length mailbox)), s') \<and> idle s' \<and>
    accounted s' = accounted s + command_replies mailbox"
  using assms(2-)
proof (induction mailbox arbitrary: ts s n)
  case Nil
  then show ?case by (cases ts) (simp_all add: command_replies_def)
next
  case (Cons cmd mailbox)
  then obtain t ts' where ts: "ts = t # ts'" "length mailbox \<le> length ts'"
    by (cases ts) auto
  obtain s1 where s1: "handle_command_caught lib cfg cmd s = (Returned False, s1)" "idle s1"
      "accounted s1 = accounted s + command_replies [cmd]"
    using settled_step [OF assms(1)] Cons.prems by (meson list.set_intros(1))
  have "drain_commands lib cfg ts (cmd # mailbox) n s = drain_commands lib cfg ts' mailbox (Suc n) s1"
    using ts s1(1) by (simp add: act_bind_def)
  then show ?case
    using Cons.IH [of s1 ts' "Suc n"] Cons.prems ts s1(2,3) by (auto simp: command_replies_def)
qed

text \<open>C10. The drain finishes what was accepted.  When the library neither panics nor hangs, every proof ends in time, and
  there is time for as many tests as there are sends pending and commands buffered, the actor stops with nothing
  abandoned: the send being proved, every send queued behind it and every buffered command that is settled where it is
  handled has been answered, each exactly once.\<close>

theorem accepted_sends_finish:
  assumes inv: "pipe_inv s" and lib: "pipe_total lib cfg" "all_jobs_end lib"
    and mailbox: "\<forall>cmd \<in> set mailbox. settled_at_once lib cfg cmd"
    and time: "shutdown_drain > 0" "length (wa_queue s) + 1 + length mailbox \<le> length ts" "\<forall>t \<in> set ts. t"
  shows "\<exists>k s'. finish_accepted_sends lib cfg shutdown_drain ts mailbox s = (Returned (Some (k, 0)), s') \<and>
    wa_queue s' = [] \<and> wa_jobs s' = [] \<and> wa_done s' = [] \<and> \<not> wa_in_flight s' \<and>
    mset (map fst (wa_replies s')) = accounted s + command_replies mailbox"
proof -
  have "pending_work s + length mailbox \<le> length ts"
    using time(2) by (simp add: pending_work_def)
  then obtain k ts' s1 where s1: "drain_proofs lib cfg ts 0 s = (Returned (k, ts'), s1)" "length mailbox \<le> length ts'"
      "pipe_inv s1" "pending_work s1 = 0" "accounted s1 = accounted s"
    using drain_proofs_finish [OF inv lib _ time(3)] by blast
  then have "idle s1"
    by (simp add: idle_iff)
  then obtain s2 where s2: "drain_commands lib cfg ts' mailbox k s1 = (Returned (Some (k + length mailbox)), s2)" "idle s2"
      "accounted s2 = accounted s1 + command_replies mailbox"
    using drain_commands_finish [OF lib(1) mailbox _ s1(2)] by blast
  have "finish_accepted_sends lib cfg shutdown_drain ts mailbox s = (Returned (Some (k + length mailbox, 0)), s2)"
    using time(1) s1(1) s2(1,2) by (simp add: finish_accepted_sends_def act_bind_def idle_def)
  with s2 s1(5) show ?thesis
    by (auto simp: idle_def accounted_def)
qed

text \<open>C35. A send that is still in the mailbox when the actor is told to stop is not finished, however long the drain may take.
  With an idle pipeline and one pipelined send buffered, the send's proof is started after the wait for proofs is over:
  the actor stops at once, with the send abandoned and its caller not answered.\<close>

theorem buffered_send_abandoned:
  assumes "idle s" "\<not> runs_inline lib cfg p" "prepare_pipelined lib cfg p (wa_core s) = (Returned (Inr job), c)"
    and "shutdown_drain > 0" "ts \<noteq> []"
  shows "\<exists>s'. finish_accepted_sends lib cfg shutdown_drain ts [CmdSend p] s = (Returned (Some (1, 1)), s') \<and>
    wa_jobs s' = [job] \<and> wa_in_flight s' \<and> wa_replies s' = wa_replies s"
proof -
  obtain t ts' where ts: "ts = t # ts'"
    using assms(5) by (cases ts) auto
  have proofs: "drain_proofs lib cfg ts 0 s = (Returned (0, ts), s)"
    using assms(1) ts by (simp add: idle_def)
  let ?s' = "s\<lparr>wa_core := c, wa_in_flight := True, wa_jobs := [job]\<rparr>"
  have "handle_command_caught lib cfg (CmdSend p) s = (Returned False, ?s')"
    using assms(1-3) by (simp add: handle_command_caught_def handle_command_def catch_unwind_def begin_or_queue_send_def
        start_pipelined_send_def on_core_def act_bind_def act_modify_def idle_def)
  then have "drain_commands lib cfg ts [CmdSend p] 0 s = (Returned (Some 1), ?s')"
    unfolding ts by (cases ts') (simp_all add: act_bind_def)
  then have "finish_accepted_sends lib cfg shutdown_drain ts [CmdSend p] s = (Returned (Some (1, 1)), ?s')"
    using proofs assms(1,4) by (simp add: finish_accepted_sends_def act_bind_def idle_def)
  then show ?thesis
    by auto
qed

section \<open>The small wallet stops\<close>

theorem buffered_send_abandoned_witness:
  "\<exists>s' :: ((unit, unit, note_db, unit) wallet_core, bool, unit, nat, unit, u8 list, nat) wallet_actor.
    finish_accepted_sends sample_send_lib sample_send_config 10 [True, True, True] [CmdSend (sample_send False 1)]
      (snd (pipe_start (sample_core ([7], [])))) = (Returned (Some (1, 1)), s') \<and> wa_in_flight s' \<and> wa_replies s' = []"
proof -
  obtain job where job: "prepare_pipelined sample_send_lib sample_send_config (sample_send False 1) (sample_core ([7], [])) =
      (Returned (Inr job), sample_core ([7], []))"
    using sample_prepare by blast
  show ?thesis
    using buffered_send_abandoned [of "snd (pipe_start (sample_core ([7], [])))" sample_send_lib sample_send_config
        "sample_send False 1" job "sample_core ([7], [])" 10 "[True, True, True]"] job sample_runs_inline
    by (auto simp: idle_def pipe_start_def)
qed

definition stopping_wallet :: "((unit, unit, note_db, unit) wallet_core, bool, unit, nat, unit, u8 list, nat) wallet_actor" where
  "stopping_wallet = \<lparr>wa_core = sample_core ([7, 8, 9], []), wa_in_flight = True, wa_queue = [sample_send False 2], wa_jobs = [],
     wa_done = [\<lparr>sd_result = Inl (wallet_error ''proving panicked''), sd_circuit = None, sd_policy = (),
       sd_shape = \<lparr>ss_inputs = 0, ss_orchard_actions = 0, ss_est_tx_bytes = 0\<rparr>, sd_reply = 1\<rparr>], wa_replies = []\<rparr>"

theorem accepted_sends_finish_witness:
  "\<exists>k s'. finish_accepted_sends sample_send_lib sample_send_config 10 (replicate 4 True) [CmdSend (sample_send True 3)]
      stopping_wallet = (Returned (Some (k, 0)), s') \<and> mset (map fst (wa_replies s')) = {#1, 2, 3#}"
proof -
  have total: "pipe_inv stopping_wallet" "pipe_total sample_send_lib sample_send_config" "all_jobs_end sample_send_lib"
    by (simp_all add: pipe_total_def sample_prepare_total sample_commit_total sample_inline_total all_jobs_end_def
        pipe_inv_def MAX_QUEUED_SENDS_def stopping_wallet_def)
  have "accounted stopping_wallet = {#1, 2#}"
    by (simp add: accounted_def stopping_wallet_def sample_send_def)
  moreover have "command_replies [CmdSend (sample_send True 3)] = {#3#}"
    by (simp add: command_replies_def sample_send_def)
  ultimately show ?thesis
    using accepted_sends_finish [OF total, of "[CmdSend (sample_send True 3)]" 10 "replicate 4 True"]
    by (auto simp: sample_runs_inline stopping_wallet_def)
qed

end
