(* ===== verification/Fleet.thy ===== *)
theory Fleet
  imports Shard "HOL-Library.Char_ord" "HOL-Library.List_Lexorder"
begin

text \<open>
  The fleet, \<open>src/fleet.rs\<close>: manifests on disk, the layout of their wallets over shards at startup, and the manager
  that onboards wallets while the daemon runs, with the part of a shard's actor it talks to (\<open>src/wallet/actor.rs\<close>).
  A shard directory is its number; the directory name is \<open>shard_dir_name\<close> of it.
\<close>

section \<open>Shard directories\<close>

lemma shard_dir_name_inj: "shard_dir_name i = shard_dir_name j \<longleftrightarrow> i = j"
proof
  assume "shard_dir_name i = shard_dir_name j"
  then have "digits_value (show_padded 4 i) = digits_value (show_padded 4 j)"
    by (simp add: shard_dir_name_def)
  then show "i = j"
    by (simp add: digits_value_show_padded)
qed simp

text \<open>Both loops walk upwards through the directories on disk, of which there are finitely many.\<close>

definition dirs_from :: "nat list \<Rightarrow> nat \<Rightarrow> nat" where
  "dirs_from dirs i = length (filter (\<lambda>j. i \<le> j) dirs)"

lemma dirs_from_less: "i \<in> set dirs \<Longrightarrow> dirs_from dirs (Suc i) < dirs_from dirs i"
proof (induction dirs)
  case (Cons d dirs)
  have "dirs_from dirs (Suc i) \<le> dirs_from dirs i"
    unfolding dirs_from_def by (induction dirs) auto
  with Cons show ?case
    by (cases "d = i") (auto simp: dirs_from_def)
qed simp

function shard_dirs_loop :: "nat list \<Rightarrow> nat \<Rightarrow> nat list" where
  "shard_dirs_loop dirs index = (if index \<in> set dirs then index # shard_dirs_loop dirs (Suc index) else [])"
  by pat_completeness auto
termination by (relation "measure (\<lambda>(dirs, i). dirs_from dirs i)") (auto intro: dirs_from_less)

declare shard_dirs_loop.simps [simp del]

definition existing_shard_dirs :: "nat list \<Rightarrow> nat list" where
  "existing_shard_dirs dirs = shard_dirs_loop dirs 0"

function next_free_shard_dir :: "nat list \<Rightarrow> nat \<Rightarrow> nat" where
  "next_free_shard_dir dirs index = (if index \<in> set dirs then next_free_shard_dir dirs (Suc index) else index)"
  by pat_completeness auto
termination by (relation "measure (\<lambda>(dirs, i). dirs_from dirs i)") (auto intro: dirs_from_less)

declare next_free_shard_dir.simps [simp del]

lemma next_free_not_existing: "next_free_shard_dir dirs i \<notin> set dirs"
  by (induction dirs i rule: next_free_shard_dir.induct) (subst next_free_shard_dir.simps, simp)

lemma shard_dirs_loop_upt: "\<exists>n. shard_dirs_loop dirs i = [i..<i + n] \<and> {i..<i + n} \<subseteq> set dirs \<and> i + n \<notin> set dirs"
proof (induction dirs i rule: shard_dirs_loop.induct)
  case (1 dirs i)
  show ?case
  proof (cases "i \<in> set dirs")
    case True
    then obtain n where n: "shard_dirs_loop dirs (Suc i) = [Suc i..<Suc i + n]" "{Suc i..<Suc i + n} \<subseteq> set dirs" "Suc i + n \<notin> set dirs"
      using 1 by blast
    have "{i..<i + Suc n} = insert i {Suc i..<Suc i + n}"
      by auto
    with True n show ?thesis
      by (intro exI [of _ "Suc n"]) (simp add: shard_dirs_loop.simps [of dirs i] upt_conv_Cons)
  qed (auto intro: exI [of _ 0] simp: shard_dirs_loop.simps [of dirs i])
qed

section \<open>The layout at startup\<close>

text \<open>What a shard database reports, one entry per account id: the account's name and birthday, if there is an account.\<close>

fun inspect_accounts :: "nat \<Rightarrow> (string option \<times> u32) option list \<Rightarrow> (string \<rightharpoonup> nat) \<times> u32 option \<Rightarrow> (string \<rightharpoonup> nat) \<times> u32 option" where
  "inspect_accounts index [] acc = acc"
| "inspect_accounts index (None # rest) acc = inspect_accounts index rest acc"
| "inspect_accounts index (Some (name, birthday) # rest) (placed, lowest) =
     inspect_accounts index rest
       ((case name of Some n \<Rightarrow> placed(n \<mapsto> index) | None \<Rightarrow> placed),
        Some (case lowest of None \<Rightarrow> birthday | Some l \<Rightarrow> min l birthday))"

definition inspect_shard :: "nat \<Rightarrow> (string option \<times> u32) option list \<Rightarrow> (string \<rightharpoonup> nat) \<Rightarrow> shard_state \<times> (string \<rightharpoonup> nat)" where
  "inspect_shard index accounts placed =
     (let (placed, lowest) = inspect_accounts index accounts (placed, None)
      in (\<lparr>sh_accounts = length accounts, sh_lowest_birthday = lowest\<rparr>, placed))"

fun inspect_shards :: "(nat \<Rightarrow> (string option \<times> u32) option list) \<Rightarrow> nat list \<Rightarrow> (string \<rightharpoonup> nat) \<Rightarrow> shard_state list \<times> (string \<rightharpoonup> nat)" where
  "inspect_shards db [] placed = ([], placed)"
| "inspect_shards db (i # is) placed =
     (let (st, placed) = inspect_shard i (db i) placed; (sts, placed) = inspect_shards db is placed in (st # sts, placed))"

record fleet_config =
  fc_shard_size :: nat
  fc_cohort_depth :: u32

fun distribute :: "(string \<rightharpoonup> nat) \<Rightarrow> shard_member list \<Rightarrow> shard_member list list \<times> shard_member list
    \<Rightarrow> shard_member list list \<times> shard_member list" where
  "distribute placed [] acc = acc"
| "distribute placed (mem # mems) (shards, unplaced) =
     (case placed (sm_name mem) of
        Some i \<Rightarrow> if i < length shards then distribute placed mems (shards[i := shards ! i @ [mem]], unplaced)
                  else distribute placed mems (shards, unplaced @ [mem])
      | None \<Rightarrow> distribute placed mems (shards, unplaced @ [mem]))"

definition push_member :: "shard_member \<times> nat \<Rightarrow> shard_member list list \<Rightarrow> shard_member list list" where
  "push_member p shards =
     (let shards = shards @ replicate (Suc (snd p) - length shards) []
      in shards[snd p := shards ! snd p @ [fst p]])"

text \<open>The layout: each shard directory with its members, the shards with no member left out.\<close>

type_synonym layout = "(nat \<times> shard_member list) list"

definition plan_shards :: "shard_member list \<Rightarrow> (string \<rightharpoonup> nat) \<Rightarrow> shard_state list \<Rightarrow> fleet_config \<Rightarrow> shard_member list list" where
  "plan_shards members placed existing cfg =
     (let (shards, unplaced) = distribute placed members (replicate (length existing) [], [])
      in fold push_member (zip unplaced (place_members existing unplaced (fc_shard_size cfg) (fc_cohort_depth cfg))) shards)"

definition fleet_plan :: "shard_member list \<Rightarrow> (string \<rightharpoonup> nat) \<Rightarrow> shard_state list \<Rightarrow> fleet_config \<Rightarrow> layout" where
  "fleet_plan members placed existing cfg =
     filter (\<lambda>(_, ms). ms \<noteq> []) (enumerate 0 (plan_shards members placed existing cfg))"

definition layout_members :: "layout \<Rightarrow> nat" where
  "layout_members l = sum_list (map (length \<circ> snd) l)"


section \<open>The layout serves every wallet once\<close>

definition shard_at :: "'a list list \<Rightarrow> nat \<Rightarrow> 'a list" where
  "shard_at shards i = (if i < length shards then shards ! i else [])"

lemma shard_at_push: "shard_at (push_member p shards) i = shard_at shards i @ (if i = snd p then [fst p] else [])"
  by (auto simp: shard_at_def push_member_def Let_def nth_append nth_list_update)

lemma shard_at_pushes: "shard_at (fold push_member ps shards) i = shard_at shards i @ map fst (filter (\<lambda>p. snd p = i) ps)"
  by (induction ps arbitrary: shards) (simp_all add: shard_at_push)

lemma mset_replace: "i < length xs \<Longrightarrow> mset (concat (xs[i := xs ! i @ [x]])) = add_mset x (mset (concat xs))"
  by (induction xs arbitrary: i) (auto split: nat.split)

lemma mset_push: "mset (concat (push_member p shards)) = add_mset (fst p) (mset (concat shards))"
proof -
  let ?shards = "shards @ replicate (Suc (snd p) - length shards) []"
  have "mset (concat ?shards) = mset (concat shards)"
    by simp
  moreover have "snd p < length ?shards"
    by simp
  ultimately show ?thesis
    by (simp only: push_member_def Let_def mset_replace)
qed

lemma mset_pushes: "mset (concat (fold push_member ps shards)) = mset (concat shards) + mset (map fst ps)"
  by (induction ps arbitrary: shards) (simp_all add: mset_push)

definition stays :: "(string \<rightharpoonup> nat) \<Rightarrow> nat \<Rightarrow> shard_member \<Rightarrow> bool" where
  "stays placed n mem \<longleftrightarrow> (\<exists>j < n. placed (sm_name mem) = Some j)"

lemma distribute_spec:
  "distribute placed mems (shards, unplaced) = (shards', unplaced') \<Longrightarrow>
     length shards' = length shards \<and>
     (\<forall>i < length shards. shards' ! i = shards ! i @ filter (\<lambda>mem. placed (sm_name mem) = Some i) mems) \<and>
     unplaced' = unplaced @ filter (\<lambda>mem. \<not> stays placed (length shards) mem) mems \<and>
     mset (concat shards') + mset unplaced' = mset (concat shards) + mset unplaced + mset mems"
proof (induction placed mems "(shards, unplaced)" arbitrary: shards unplaced rule: distribute.induct)
  case (2 placed mem mems shards unplaced)
  show ?case
  proof (cases "stays placed (length shards) mem")
    case True
    then obtain i where i: "placed (sm_name mem) = Some i" "i < length shards"
      by (auto simp: stays_def)
    let ?shards = "shards[i := shards ! i @ [mem]]"
    have eq: "distribute placed mems (?shards, unplaced) = (shards', unplaced')"
      using 2(4) i by simp
    show ?thesis
      using 2(2) [OF i(1,2) eq] i True by (auto simp: mset_replace nth_list_update)
  next
    case False
    then have eq: "distribute placed mems (shards, unplaced @ [mem]) = (shards', unplaced')"
      using 2(4) by (auto simp: stays_def split: option.splits if_splits)
    have "length shards' = length shards \<and>
     (\<forall>i < length shards. shards' ! i = shards ! i @ filter (\<lambda>mem. placed (sm_name mem) = Some i) mems) \<and>
     unplaced' = (unplaced @ [mem]) @ filter (\<lambda>mem. \<not> stays placed (length shards) mem) mems \<and>
     mset (concat shards') + mset unplaced' = mset (concat shards) + mset (unplaced @ [mem]) + mset mems"
    proof (cases "placed (sm_name mem)")
      case None
      show ?thesis
        by (rule 2(1) [OF None eq])
    next
      case (Some i)
      then show ?thesis
        using 2(3) [OF Some _ eq] False by (auto simp: stays_def)
    qed
    with False show ?thesis
      by (auto simp: stays_def)
  qed
qed auto

lemma concat_filter_empty: "concat (map snd (filter (\<lambda>(_, ms). ms \<noteq> []) (enumerate n xs))) = concat xs"
  by (induction xs arbitrary: n) auto

lemma length_filter_zip:
  "length xs = length ys \<Longrightarrow> length (filter (\<lambda>p. snd p = i) (zip xs ys)) = count_list ys i"
  by (induction xs ys rule: list_induct2) auto

text \<open>What the plan puts into each shard: the wallets already there, then the arrivals.\<close>

lemma plan_shards_spec:
  assumes "unplaced = filter (\<lambda>mem. \<not> stays placed (length existing) mem) members"
    and "out = place_members existing unplaced (fc_shard_size cfg) (fc_cohort_depth cfg)"
    and "length out = length unplaced"
  shows "mset (concat (plan_shards members placed existing cfg)) = mset members"
    and "shard_at (plan_shards members placed existing cfg) i =
      filter (\<lambda>mem. i < length existing \<and> placed (sm_name mem) = Some i) members @ map fst (filter (\<lambda>p. snd p = i) (zip unplaced out))"
proof -
  obtain shards u where d: "distribute placed members (replicate (length existing) [], []) = (shards, u)"
    by (cases "distribute placed members (replicate (length existing) [], [])")
  note D = distribute_spec [OF d]
  have u: "u = unplaced"
    using D assms(1) by simp
  then have plan: "plan_shards members placed existing cfg = fold push_member (zip unplaced out) shards"
    by (simp add: plan_shards_def d assms(2))
  show "mset (concat (plan_shards members placed existing cfg)) = mset members"
  proof -
    have "mset (concat shards) + mset u = mset members"
      using D [THEN conjunct2, THEN conjunct2, THEN conjunct2] by simp
    then show ?thesis
      by (simp only: plan mset_pushes u map_fst_zip assms(3))
  qed
  have "shard_at shards i = filter (\<lambda>mem. i < length existing \<and> placed (sm_name mem) = Some i) members"
    using D by (simp add: shard_at_def)
  then show "shard_at (plan_shards members placed existing cfg) i =
      filter (\<lambda>mem. i < length existing \<and> placed (sm_name mem) = Some i) members @ map fst (filter (\<lambda>p. snd p = i) (zip unplaced out))"
    by (simp add: plan shard_at_pushes)
qed


definition arrivals :: "(string \<rightharpoonup> nat) \<Rightarrow> shard_state list \<Rightarrow> shard_member list \<Rightarrow> shard_member list" where
  "arrivals placed existing ms = filter (\<lambda>mem. \<forall>j < length existing. placed (sm_name mem) \<noteq> Some j) ms"

lemma plan_entry:
  assumes size: "1 \<le> fc_shard_size cfg" and entry: "(i, ms) \<in> set (fleet_plan members placed existing cfg)"
  shows "mem \<in> set ms \<Longrightarrow> j < length existing \<Longrightarrow> placed (sm_name mem) = Some j \<Longrightarrow> i = j"
    and "arrivals placed existing ms \<noteq> [] \<Longrightarrow> occupied existing i + length (arrivals placed existing ms) \<le> fc_shard_size cfg"
proof -
  define unplaced where "unplaced = filter (\<lambda>mem. \<not> stays placed (length existing) mem) members"
  define out where "out = place_members existing unplaced (fc_shard_size cfg) (fc_cohort_depth cfg)"
  obtain shards' where loop: "place_loop (fc_shard_size cfg) (fc_cohort_depth cfg) existing unplaced = (out, shards')"
    unfolding out_def place_members_def by (metis prod.collapse)
  note L = place_loop_spec [OF size loop]
  have len: "length out = length unplaced"
    using L by blast
  let ?old = "filter (\<lambda>mem. i < length existing \<and> placed (sm_name mem) = Some i) members"
  let ?new = "map fst (filter (\<lambda>p. snd p = i) (zip unplaced out))"
  have ms: "ms = ?old @ ?new"
    using entry plan_shards_spec(2) [OF unplaced_def out_def len, of i]
    by (auto simp: fleet_plan_def in_set_enumerate_eq shard_at_def)
  have new: "\<not> stays placed (length existing) mem" if "mem \<in> set ?new" for mem
    using that by (auto simp: unplaced_def dest: set_zip_leftD)
  then show "mem \<in> set ms \<Longrightarrow> j < length existing \<Longrightarrow> placed (sm_name mem) = Some j \<Longrightarrow> i = j"
    unfolding ms set_append by (auto simp: stays_def)
  have arr: "arrivals placed existing ms = ?new"
    unfolding ms arrivals_def filter_append using new by (auto simp: stays_def filter_empty_conv filter_id_conv)
  then have "length (arrivals placed existing ms) = count_list out i"
    using len by (simp add: length_filter_zip)
  moreover assume "arrivals placed existing ms \<noteq> []"
  then have "i \<in> set out"
    unfolding arr by (auto simp: filter_empty_conv dest: set_zip_rightD)
  then have "occupied existing i + count_list out i \<le> fc_shard_size cfg"
    using L by metis
  ultimately show "occupied existing i + length (arrivals placed existing ms) \<le> fc_shard_size cfg"
    by simp
qed

lemma fleet_plan_perm:
  assumes "1 \<le> fc_shard_size cfg"
  shows "mset (concat (map snd (fleet_plan members placed existing cfg))) = mset members"
proof -
  define unplaced where "unplaced = filter (\<lambda>mem. \<not> stays placed (length existing) mem) members"
  define out where "out = place_members existing unplaced (fc_shard_size cfg) (fc_cohort_depth cfg)"
  have len: "length out = length unplaced"
    unfolding out_def place_members_def using place_loop_spec [OF assms] by (metis prod.collapse)
  show ?thesis
    by (simp only: fleet_plan_def concat_filter_empty plan_shards_spec(1) [OF unplaced_def out_def len])
qed

lemma fleet_plan_dirs: "distinct (map fst (fleet_plan members placed existing cfg))"
  unfolding fleet_plan_def by (rule distinct_map_filter) (simp add: enumerate_eq_zip)

text \<open>C24. The startup layout serves every manifested wallet exactly once.  Each wallet an inspected shard already holds stays in
  that shard, no directory is listed twice, and a shard that takes arrivals ends with at most the shard size, its
  accounts that no manifest names counted.\<close>

theorem fleet_plan_sound:
  assumes "1 \<le> fc_shard_size cfg"
  shows "mset (concat (map snd (fleet_plan members placed existing cfg))) = mset members \<and>
    distinct (map fst (fleet_plan members placed existing cfg)) \<and>
    (\<forall>(i, ms) \<in> set (fleet_plan members placed existing cfg).
      (\<forall>mem \<in> set ms. \<forall>j < length existing. placed (sm_name mem) = Some j \<longrightarrow> i = j) \<and>
      (arrivals placed existing ms \<noteq> [] \<longrightarrow> occupied existing i + length (arrivals placed existing ms) \<le> fc_shard_size cfg))"
  using fleet_plan_perm [OF assms] fleet_plan_dirs plan_entry [OF assms] by blast

section \<open>The shard actor\<close>

record ('k, 'id) shard_actor =
  sa_db :: "('k, 'id) shard_db"
  sa_accounts :: "string \<rightharpoonup> 'id"
  sa_pending :: "shard_member list"
  sa_errors :: "string set"

datatype fleet_error =
    NameTaken string
  | BadName string
  | BadKey shard_error
  | AlreadyInShard string
  | ManifestExists string
  | IoFailed string
  | StartFailed shard_error
  | NoManifest string
  | NotLoaded string
  | ConfiguredWallet string
  | DuplicateName string

definition add_shard_member :: "shard_member \<Rightarrow> ('k, 'id) shard_actor \<Rightarrow> (fleet_error + unit) \<times> ('k, 'id) shard_actor" where
  "add_shard_member mem a =
     (if sa_accounts a (sm_name mem) \<noteq> None \<or> sm_name mem \<in> sm_name ` set (sa_pending a)
      then (Inl (AlreadyInShard (sm_name mem)), a)
      else (Inr (), a\<lparr>sa_errors := sa_errors a - {sm_name mem}, sa_pending := sa_pending a @ [mem]\<rparr>))"

text \<open>What fetching the tree state below a birthday and reading it as an account birthday gives.\<close>

datatype birthday_fetch = TreeStateUnavailable | TreeStateUnusable | AccountBirthday

definition import_pending_shard_members ::
  "'k ufvk_codec \<Rightarrow> z_network \<Rightarrow> bool \<Rightarrow> (shard_member \<Rightarrow> birthday_fetch) \<Rightarrow> 'id \<Rightarrow> ('k, 'id) shard_actor \<Rightarrow> ('k, 'id) shard_actor" where
  "import_pending_shard_members codec net connected fetch fresh a =
     (case sa_pending a of
        [] \<Rightarrow> a
      | mem # rest \<Rightarrow>
          if \<not> connected then a
          else (case fetch mem of
             TreeStateUnavailable \<Rightarrow> a
           | TreeStateUnusable \<Rightarrow> a\<lparr>sa_pending := rest, sa_errors := insert (sm_name mem) (sa_errors a)\<rparr>
           | AccountBirthday \<Rightarrow>
               (case import_member codec net fresh (sa_db a) mem of
                  (Inr account, db) \<Rightarrow>
                    a\<lparr>sa_db := db, sa_accounts := (sa_accounts a)(sm_name mem \<mapsto> account), sa_pending := rest\<rparr>
                | (Inl _, db) \<Rightarrow> a\<lparr>sa_db := db, sa_pending := rest, sa_errors := insert (sm_name mem) (sa_errors a)\<rparr>)))"

definition spawn_shard ::
  "'k ufvk_codec \<Rightarrow> z_network \<Rightarrow> ('k, 'id) shard_db \<Rightarrow> shard_member list \<Rightarrow> fleet_error + ('k, 'id) shard_actor" where
  "spawn_shard codec net db members =
     (case reconcile_accounts codec net db members of
        Inl e \<Rightarrow> Inl (StartFailed e)
      | Inr r \<Rightarrow> Inr \<lparr>sa_db = db, sa_accounts = adopted r, sa_pending = pending r, sa_errors = {}\<rparr>)"

section \<open>The manager\<close>

record ('k, 'id) shard_runtime =
  rt_dir :: nat
  rt_members :: "string set"
  rt_accounts :: nat
  rt_lowest_birthday :: "u32 option"
  rt_actor :: "('k, 'id) shard_actor"

datatype served = Configured | InShard nat

text \<open>The manager with what it acts on: the shard directories and the manifests on disk, and the wallets served.\<close>

record ('k, 'id) fleet =
  fl_shards :: "('k, 'id) shard_runtime list"
  fl_dirs :: "nat list"
  fl_manifests :: "shard_member list"
  fl_registry :: "string \<rightharpoonup> served"

text \<open>Which steps on the file system succeed.\<close>

record fleet_io =
  io_write :: "string \<Rightarrow> bool"
  io_remove :: "string \<Rightarrow> bool"
  io_create_dir :: "nat \<Rightarrow> bool"

definition min_birthday :: "u32 option \<Rightarrow> u32 \<Rightarrow> u32 option" where
  "min_birthday lowest b = Some (case lowest of None \<Rightarrow> b | Some l \<Rightarrow> min l b)"

definition register_shard ::
  "nat \<Rightarrow> ('k, 'id) shard_actor \<Rightarrow> string list \<Rightarrow> u32 option \<Rightarrow> ('k, 'id) shard_runtime list \<Rightarrow> ('k, 'id) shard_runtime list" where
  "register_shard dir actor members lowest shards =
     shards @ [\<lparr>rt_dir = dir, rt_members = set members, rt_accounts = length members, rt_lowest_birthday = lowest, rt_actor = actor\<rparr>]"

definition check_wallet_name :: "string \<Rightarrow> bool" where
  "check_wallet_name name \<longleftrightarrow> name \<noteq> [] \<and>
     list_all (\<lambda>c. is_ascii_alphanumeric c \<or> c \<in> set ''-_.'') name"

definition shard_holding :: "string \<Rightarrow> ('k, 'id) shard_runtime list \<Rightarrow> nat option" where
  "shard_holding name shards = List.find (\<lambda>i. name \<in> rt_members (shards ! i)) [0..<length shards]"

definition runtime_states :: "('k, 'id) shard_runtime list \<Rightarrow> shard_state list" where
  "runtime_states shards = map (\<lambda>s. \<lparr>sh_accounts = rt_accounts s, sh_lowest_birthday = rt_lowest_birthday s\<rparr>) shards"

text \<open>The three ways to place a wallet: it is in a shard already, it joins a running one, or it opens a new one.\<close>

definition reload_member :: "nat \<Rightarrow> shard_member \<Rightarrow> ('k, 'id) fleet \<Rightarrow> (fleet_error + nat) \<times> ('k, 'id) fleet" where
  "reload_member i mem fl =
     (let shard = fl_shards fl ! i
      in if sm_name mem \<in> sa_errors (rt_actor shard)
         then (case add_shard_member mem (rt_actor shard) of
             (Inl e, _) \<Rightarrow> (Inl e, fl)
           | (Inr _, a) \<Rightarrow> (Inr (rt_dir shard), fl\<lparr>fl_shards := (fl_shards fl)[i := shard\<lparr>rt_actor := a\<rparr>]\<rparr>))
         else (Inr (rt_dir shard), fl))"

definition join_running :: "nat \<Rightarrow> shard_member \<Rightarrow> ('k, 'id) fleet \<Rightarrow> (fleet_error + nat) \<times> ('k, 'id) fleet" where
  "join_running i mem fl =
     (let shard = fl_shards fl ! i
      in case add_shard_member mem (rt_actor shard) of
          (Inl e, _) \<Rightarrow> (Inl e, fl)
        | (Inr _, a) \<Rightarrow>
            (Inr (rt_dir shard),
             fl\<lparr>fl_shards := (fl_shards fl)[i := shard\<lparr>rt_actor := a, rt_accounts := rt_accounts shard + 1,
               rt_members := insert (sm_name mem) (rt_members shard),
               rt_lowest_birthday := min_birthday (rt_lowest_birthday shard) (sm_birthday mem)\<rparr>]\<rparr>))"

definition open_shard ::
  "'k ufvk_codec \<Rightarrow> z_network \<Rightarrow> fleet_io \<Rightarrow> nat \<Rightarrow> shard_member \<Rightarrow> ('k, 'id) fleet \<Rightarrow> (fleet_error + nat) \<times> ('k, 'id) fleet" where
  "open_shard codec net io index mem fl =
     (let dir = next_free_shard_dir (fl_dirs fl) index
      in if \<not> io_create_dir io dir then (Inl (IoFailed (shard_dir_name dir)), fl)
         else (let fl = fl\<lparr>fl_dirs := fl_dirs fl @ [dir]\<rparr>
               in case spawn_shard codec net [] [mem] of
                   Inl e \<Rightarrow> (Inl e, fl)
                 | Inr a \<Rightarrow>
                     (Inr dir, fl\<lparr>fl_shards := register_shard dir a [sm_name mem] (Some (sm_birthday mem)) (fl_shards fl)\<rparr>)))"

definition fleet_place ::
  "'k ufvk_codec \<Rightarrow> z_network \<Rightarrow> fleet_config \<Rightarrow> fleet_io \<Rightarrow> shard_member \<Rightarrow> ('k, 'id) fleet \<Rightarrow> (fleet_error + nat) \<times> ('k, 'id) fleet" where
  "fleet_place codec net cfg io mem fl =
     (case shard_holding (sm_name mem) (fl_shards fl) of
        Some i \<Rightarrow> reload_member i mem fl
      | None \<Rightarrow>
          (let index = hd (place_members (runtime_states (fl_shards fl)) [mem] (fc_shard_size cfg) (fc_cohort_depth cfg))
           in if index < length (fl_shards fl) then join_running index mem fl else open_shard codec net io index mem fl))"

definition write_manifest :: "fleet_io \<Rightarrow> shard_member \<Rightarrow> ('k, 'id) fleet \<Rightarrow> (fleet_error + unit) \<times> ('k, 'id) fleet" where
  "write_manifest io mem fl =
     (if sm_name mem \<in> sm_name ` set (fl_manifests fl) then (Inl (ManifestExists (sm_name mem)), fl)
      else if \<not> io_write io (sm_name mem) then (Inl (IoFailed (sm_name mem)), fl)
      else (Inr (), fl\<lparr>fl_manifests := fl_manifests fl @ [mem]\<rparr>))"

definition remove_manifest :: "fleet_io \<Rightarrow> string \<Rightarrow> ('k, 'id) fleet \<Rightarrow> ('k, 'id) fleet" where
  "remove_manifest io name fl =
     (if io_remove io name then fl\<lparr>fl_manifests := filter (\<lambda>m. sm_name m \<noteq> name) (fl_manifests fl)\<rparr> else fl)"

definition place_and_serve ::
  "'k ufvk_codec \<Rightarrow> z_network \<Rightarrow> fleet_config \<Rightarrow> fleet_io \<Rightarrow> shard_member \<Rightarrow> bool \<Rightarrow> ('k, 'id) fleet \<Rightarrow> (fleet_error + unit) \<times> ('k, 'id) fleet" where
  "place_and_serve codec net cfg io mem persist fl =
     (case fleet_place codec net cfg io mem fl of
        (Inr dir, fl) \<Rightarrow> (Inr (), fl\<lparr>fl_registry := (fl_registry fl)(sm_name mem \<mapsto> InShard dir)\<rparr>)
      | (Inl e, fl) \<Rightarrow> (Inl e, if persist then remove_manifest io (sm_name mem) fl else fl))"

definition onboard ::
  "'k ufvk_codec \<Rightarrow> z_network \<Rightarrow> fleet_config \<Rightarrow> fleet_io \<Rightarrow> shard_member \<Rightarrow> bool \<Rightarrow> ('k, 'id) fleet \<Rightarrow> (fleet_error + unit) \<times> ('k, 'id) fleet" where
  "onboard codec net cfg io mem persist fl =
     (if fl_registry fl (sm_name mem) \<noteq> None then (Inl (NameTaken (sm_name mem)), fl)
      else if \<not> check_wallet_name (sm_name mem) then (Inl (BadName (sm_name mem)), fl)
      else case decode_ufvk codec net mem of
        Inl e \<Rightarrow> (Inl (BadKey e), fl)
      | Inr _ \<Rightarrow>
          if persist then
            (case write_manifest io mem fl of
               (Inl e, fl) \<Rightarrow> (Inl e, fl)
             | (Inr _, fl) \<Rightarrow> place_and_serve codec net cfg io mem persist fl)
          else place_and_serve codec net cfg io mem persist fl)"

text \<open>Reading the manifests: in name order, refusing a name that appears twice.\<close>

fun first_duplicate :: "shard_member list \<Rightarrow> string option" where
  "first_duplicate (a # b # ms) = (if sm_name a = sm_name b then Some (sm_name a) else first_duplicate (b # ms))"
| "first_duplicate _ = None"

definition load_manifests :: "shard_member list \<Rightarrow> fleet_error + shard_member list" where
  "load_manifests files =
     (let members = sort_key sm_name files
      in case first_duplicate members of Some dup \<Rightarrow> Inl (DuplicateName dup) | None \<Rightarrow> Inr members)"

text \<open>The wallet-management calls of the RPC interface.\<close>

definition createwallet where
  "createwallet codec net cfg io mem fl = onboard codec net cfg io mem True fl"

definition loadwallet where
  "loadwallet codec net cfg io name fl =
     (case load_manifests (fl_manifests fl) of
        Inl e \<Rightarrow> (Inl e, fl)
      | Inr members \<Rightarrow>
          (case List.find (\<lambda>m. sm_name m = name) members of
             None \<Rightarrow> (Inl (NoManifest name), fl)
           | Some mem \<Rightarrow> onboard codec net cfg io mem False fl))"

definition unloadwallet :: "string \<Rightarrow> ('k, 'id) fleet \<Rightarrow> (fleet_error + unit) \<times> ('k, 'id) fleet" where
  "unloadwallet name fl =
     (case fl_registry fl name of
        Some Configured \<Rightarrow> (Inl (ConfiguredWallet name), fl)
      | Some (InShard _) \<Rightarrow> (Inr (), fl\<lparr>fl_registry := (fl_registry fl)(name := None)\<rparr>)
      | None \<Rightarrow> (Inl (NotLoaded name), fl))"


section \<open>Startup\<close>

text \<open>The databases on disk: by directory the accounts, and the birthday of each account.\<close>

definition report_of :: "('id \<Rightarrow> u32) \<Rightarrow> ('k, 'id) shard_db \<Rightarrow> (string option \<times> u32) option list" where
  "report_of birthday db = map (\<lambda>(i, acc). map_option (\<lambda>a. (acc_name a, birthday i)) acc) db"

definition startup_layout ::
  "fleet_config \<Rightarrow> nat list \<Rightarrow> (nat \<Rightarrow> ('k, 'id) shard_db) \<Rightarrow> ('id \<Rightarrow> u32) \<Rightarrow> shard_member list \<Rightarrow> layout" where
  "startup_layout cfg dirs db birthday members =
     (let (existing, placed) = inspect_shards (report_of birthday \<circ> db) (existing_shard_dirs dirs) Map.empty
      in fleet_plan members placed existing cfg)"

definition lowest_of :: "shard_member list \<Rightarrow> u32 option" where
  "lowest_of ms = fold (\<lambda>mem l. min_birthday l (sm_birthday mem)) ms None"

fun start_shards ::
  "'k ufvk_codec \<Rightarrow> z_network \<Rightarrow> fleet_io \<Rightarrow> (nat \<Rightarrow> ('k, 'id) shard_db) \<Rightarrow> layout \<Rightarrow> ('k, 'id) fleet \<Rightarrow> fleet_error + ('k, 'id) fleet" where
  "start_shards codec net io db [] fl = Inr fl"
| "start_shards codec net io db ((dir, ms) # rest) fl =
     (if \<not> io_create_dir io dir then Inl (IoFailed (shard_dir_name dir))
      else sum_bind (spawn_shard codec net (if dir \<in> set (fl_dirs fl) then db dir else []) ms) (\<lambda>a.
        start_shards codec net io db rest
          (fl\<lparr>fl_dirs := List.insert dir (fl_dirs fl),
              fl_shards := register_shard dir a (map sm_name ms) (lowest_of ms) (fl_shards fl),
              fl_registry := fold (\<lambda>mem r. r(sm_name mem \<mapsto> InShard dir)) ms (fl_registry fl)\<rparr>)))"

definition load_fleet ::
  "'k ufvk_codec \<Rightarrow> z_network \<Rightarrow> fleet_config \<Rightarrow> fleet_io \<Rightarrow> nat list \<Rightarrow> (nat \<Rightarrow> ('k, 'id) shard_db) \<Rightarrow> ('id \<Rightarrow> u32) \<Rightarrow>
     shard_member list \<Rightarrow> string list \<Rightarrow> fleet_error + ('k, 'id) fleet" where
  "load_fleet codec net cfg io dirs db birthday files configured =
     sum_bind (load_manifests files) (\<lambda>members.
       case List.find (\<lambda>mem. sm_name mem \<in> set configured) members of
         Some mem \<Rightarrow> Inl (NameTaken (sm_name mem))
       | None \<Rightarrow>
           start_shards codec net io db (startup_layout cfg dirs db birthday members)
             \<lparr>fl_shards = [], fl_dirs = dirs, fl_manifests = files,
              fl_registry = (\<lambda>n. if n \<in> set configured then Some Configured else None)\<rparr>)"

section \<open>What can happen to a running fleet\<close>

datatype ('k, 'id) fleet_event =
    CreateWallet fleet_io shard_member
  | LoadWallet fleet_io string
  | UnloadWallet string
  | ImportPass nat bool "shard_member \<Rightarrow> birthday_fetch" 'id
  | OperatorEdits "shard_member list"

fun fleet_step where
  "fleet_step codec net cfg (CreateWallet io mem) fl = snd (createwallet codec net cfg io mem fl)"
| "fleet_step codec net cfg (LoadWallet io name) fl = snd (loadwallet codec net cfg io name fl)"
| "fleet_step codec net cfg (UnloadWallet name) fl = snd (unloadwallet name fl)"
| "fleet_step codec net cfg (ImportPass i connected fetch fresh) fl =
     (if i < length (fl_shards fl)
      then fl\<lparr>fl_shards := (fl_shards fl)[i := (fl_shards fl ! i)\<lparr>rt_actor :=
             import_pending_shard_members codec net connected fetch fresh (rt_actor (fl_shards fl ! i))\<rparr>]\<rparr>
      else fl)"
| "fleet_step codec net cfg (OperatorEdits files) fl = fl\<lparr>fl_manifests := files\<rparr>"

definition fleet_run where
  "fleet_run codec net cfg evs fl = fold (fleet_step codec net cfg) evs fl"

text \<open>
  What the running fleet keeps: no two shards share a directory or a wallet; a shard counts its wallets and each of
  them is imported, queued or has a recorded failure; a served fleet wallet is one of the shard that serves it.
\<close>

definition actor_knows :: "('k, 'id) shard_actor \<Rightarrow> string set" where
  "actor_knows a = dom (sa_accounts a) \<union> sm_name ` set (sa_pending a) \<union> sa_errors a"

definition shard_inv :: "nat \<Rightarrow> ('k, 'id) shard_runtime \<Rightarrow> bool" where
  "shard_inv cap s \<longleftrightarrow> finite (rt_members s) \<and> rt_accounts s = card (rt_members s) \<and> rt_accounts s \<le> cap \<and>
     rt_members s = actor_knows (rt_actor s)"

definition shards_apart :: "('k, 'id) shard_runtime list \<Rightarrow> bool" where
  "shards_apart shards \<longleftrightarrow> (\<forall>i j. i < j \<and> j < length shards \<longrightarrow>
     rt_dir (shards ! i) \<noteq> rt_dir (shards ! j) \<and> rt_members (shards ! i) \<inter> rt_members (shards ! j) = {})"

definition fleet_inv :: "nat \<Rightarrow> ('k, 'id) fleet \<Rightarrow> bool" where
  "fleet_inv cap fl \<longleftrightarrow> shards_apart (fl_shards fl) \<and> rt_dir ` set (fl_shards fl) \<subseteq> set (fl_dirs fl) \<and>
     (\<forall>s \<in> set (fl_shards fl). shard_inv cap s) \<and>
     (\<forall>n d. fl_registry fl n = Some (InShard d) \<longrightarrow> (\<exists>s \<in> set (fl_shards fl). rt_dir s = d \<and> n \<in> rt_members s))"


section \<open>The invariant of the running fleet\<close>

lemma knows_add: "add_shard_member mem a = (Inr (), a') \<Longrightarrow> actor_knows a' = insert (sm_name mem) (actor_knows a)"
  by (auto simp: add_shard_member_def actor_knows_def split: if_splits)

lemma knows_import [simp]: "actor_knows (import_pending_shard_members codec net connected fetch fresh a) = actor_knows a"
  by (auto simp: import_pending_shard_members_def actor_knows_def split: list.split birthday_fetch.split prod.split sum.split)

lemma knows_spawn:
  assumes "spawn_shard codec net db members = Inr a"
  shows "actor_knows a = sm_name ` set members"
proof -
  obtain bu bn r where r: "match_members codec net bu bn members \<lparr>adopted = Map.empty, pending = []\<rparr> = Inr r"
      "a = \<lparr>sa_db = db, sa_accounts = adopted r, sa_pending = pending r, sa_errors = {}\<rparr>"
    using assms by (auto simp: spawn_shard_def reconcile_accounts_def split: sum.splits prod.splits)
  then have "adopted r = fold (adopt codec bu) members Map.empty" "pending r = filter (\<lambda>mem. account_for codec bu mem = None) members"
    by (simp_all add: match_members_Inr)
  then show ?thesis
    unfolding actor_knows_def r(2) by (auto simp: dom_fold_adopt simp del: not_None_eq)
qed

lemma holding_Some: "shard_holding n shards = Some i \<Longrightarrow> i < length shards \<and> n \<in> rt_members (shards ! i)"
  by (auto simp: shard_holding_def find_Some_iff)

lemma holding_None: "shard_holding n shards = None \<Longrightarrow> s \<in> set shards \<Longrightarrow> n \<notin> rt_members s"
  by (auto simp: shard_holding_def find_None_iff in_set_conv_nth)

lemma shards_apart_update:
  assumes "shards_apart shards" "i < length shards" "rt_dir s' = rt_dir (shards ! i)"
    "\<And>j. j < length shards \<Longrightarrow> j \<noteq> i \<Longrightarrow> rt_members (shards ! j) \<inter> rt_members s' = {}"
  shows "shards_apart (shards[i := s'])"
  using assms unfolding shards_apart_def by (auto simp: nth_list_update)

lemma shards_apart_members:
  assumes "shards_apart shards" "i < length shards" "j < length shards" "i \<noteq> j"
  shows "rt_members (shards ! i) \<inter> rt_members (shards ! j) = {}"
  using assms unfolding shards_apart_def by (metis Int_commute linorder_neqE_nat)

lemma fleet_inv_update:
  assumes inv: "fleet_inv cap fl" and i: "i < length (fl_shards fl)"
    and s': "rt_dir s' = rt_dir (fl_shards fl ! i)" "rt_members s' = rt_members (fl_shards fl ! i) \<union> new" "shard_inv cap s'"
    and new: "\<And>s. s \<in> set (fl_shards fl) \<Longrightarrow> s \<noteq> fl_shards fl ! i \<Longrightarrow> new \<inter> rt_members s = {}"
  shows "fleet_inv cap (fl\<lparr>fl_shards := (fl_shards fl)[i := s']\<rparr>)"
proof -
  let ?shards = "fl_shards fl"
  have ap: "shards_apart ?shards"
    using inv by (simp add: fleet_inv_def)
  have "shards_apart (?shards[i := s'])"
  proof (rule shards_apart_update [OF ap i s'(1)])
    fix j assume j: "j < length ?shards" "j \<noteq> i"
    then have "rt_dir (?shards ! j) \<noteq> rt_dir (?shards ! i)"
      using ap i unfolding shards_apart_def by (metis linorder_neqE_nat)
    then have "new \<inter> rt_members (?shards ! j) = {}"
      using j(1) by (intro new) auto
    then show "rt_members (?shards ! j) \<inter> rt_members s' = {}"
      using shards_apart_members [OF ap j(1) i j(2)] s'(2) by blast
  qed
  moreover have "rt_dir ` set (?shards[i := s']) \<subseteq> set (fl_dirs fl)"
    using inv i s'(1) set_update_subset_insert [of ?shards i s'] unfolding fleet_inv_def by (auto simp: subset_iff)
  moreover have "\<forall>s \<in> set (?shards[i := s']). shard_inv cap s"
    using inv s'(3) set_update_subset_insert [of ?shards i s'] unfolding fleet_inv_def by blast
  moreover have "\<exists>s \<in> set (?shards[i := s']). rt_dir s = d \<and> n \<in> rt_members s"
    if reg: "fl_registry fl n = Some (InShard d)" for n d
  proof -
    obtain j where j: "j < length ?shards" "rt_dir (?shards ! j) = d" "n \<in> rt_members (?shards ! j)"
      using inv reg unfolding fleet_inv_def by (metis in_set_conv_nth)
    then have "rt_dir (?shards[i := s'] ! j) = d \<and> n \<in> rt_members (?shards[i := s'] ! j)"
      using s' by (cases "j = i") auto
    then show ?thesis
      using j(1) by (metis length_list_update nth_mem)
  qed
  ultimately show ?thesis
    by (simp add: fleet_inv_def)
qed

lemma fleet_inv_append:
  assumes inv: "fleet_inv cap fl" and dir: "rt_dir s' \<notin> rt_dir ` set (fl_shards fl)" "rt_dir s' \<in> set dirs" "set (fl_dirs fl) \<subseteq> set dirs"
    and s': "shard_inv cap s'" "\<And>s. s \<in> set (fl_shards fl) \<Longrightarrow> rt_members s \<inter> rt_members s' = {}"
  shows "fleet_inv cap (fl\<lparr>fl_dirs := dirs, fl_shards := fl_shards fl @ [s']\<rparr>)"
proof -
  have old: "rt_dir (fl_shards fl ! i) \<noteq> rt_dir s'" "rt_members (fl_shards fl ! i) \<inter> rt_members s' = {}"
    if "i < length (fl_shards fl)" for i
    using that dir(1) s'(2) by (metis image_eqI nth_mem)+
  have "shards_apart (fl_shards fl)"
    using inv by (simp add: fleet_inv_def)
  then have "shards_apart (fl_shards fl @ [s'])"
    using old unfolding shards_apart_def by (auto simp: nth_append less_Suc_eq)
  then show ?thesis
    using inv dir(2,3) s'(1) unfolding fleet_inv_def by auto
qed


lemma fleet_inv_registry:
  assumes "fleet_inv cap fl" "s \<in> set (fl_shards fl)" "n \<in> rt_members s"
  shows "fleet_inv cap (fl\<lparr>fl_registry := (fl_registry fl)(n \<mapsto> InShard (rt_dir s))\<rparr>)"
  using assms by (auto simp: fleet_inv_def)

lemma place_room:
  assumes "index = hd (place_members (runtime_states shards) [mem] sz depth)" "index < length shards"
  shows "rt_accounts (shards ! index) < sz"
proof -
  have "index = fst (place_one sz depth (runtime_states shards) mem)"
    using assms(1) by (simp add: place_members_def case_prod_beta Let_def)
  then have "accepts sz depth (sm_birthday mem) (runtime_states shards ! index)"
    using place_one_choice [OF refl, of sz depth "runtime_states shards" mem] assms(2) by (auto simp: runtime_states_def)
  then show ?thesis
    using assms(2) by (simp add: accepts_def runtime_states_def)
qed

text \<open>Placing a wallet keeps the invariant, and a wallet that was placed is in the shard it is served from.\<close>

definition placed_ok :: "nat \<Rightarrow> string \<Rightarrow> (fleet_error + nat) \<times> ('k, 'id) fleet \<Rightarrow> bool" where
  "placed_ok cap n r \<longleftrightarrow> fleet_inv cap (snd r) \<and>
     (\<forall>d. fst r = Inr d \<longrightarrow> (\<exists>s \<in> set (fl_shards (snd r)). rt_dir s = d \<and> n \<in> rt_members s))"

lemma reload_ok:
  assumes inv: "fleet_inv cap fl" and hold: "shard_holding (sm_name mem) (fl_shards fl) = Some i"
  shows "placed_ok cap (sm_name mem) (reload_member i mem fl)"
proof -
  let ?s = "fl_shards fl ! i"
  have i: "i < length (fl_shards fl)" "sm_name mem \<in> rt_members ?s"
    using holding_Some [OF hold] by auto
  have sinv: "shard_inv cap ?s"
    using inv i(1) by (simp add: fleet_inv_def)
  have "fleet_inv cap (fl\<lparr>fl_shards := (fl_shards fl)[i := ?s\<lparr>rt_actor := a\<rparr>]\<rparr>)"
    if a: "add_shard_member mem (rt_actor ?s) = (Inr (), a)" for a
  proof (rule fleet_inv_update [OF inv i(1), where new = "{}"])
    have "actor_knows a = rt_members ?s"
      using knows_add [OF a] sinv i(2) by (auto simp: shard_inv_def)
    then show "shard_inv cap (?s\<lparr>rt_actor := a\<rparr>)"
      using sinv by (auto simp: shard_inv_def)
  qed simp_all
  moreover have "\<exists>s \<in> set ((fl_shards fl)[i := ?s\<lparr>rt_actor := a\<rparr>]). rt_dir s = rt_dir ?s \<and> sm_name mem \<in> rt_members s" for a
    using i by (intro bexI [of _ "?s\<lparr>rt_actor := a\<rparr>"]) (simp_all add: set_update_memI)
  moreover have "\<exists>s \<in> set (fl_shards fl). rt_dir s = rt_dir ?s \<and> sm_name mem \<in> rt_members s"
    using i by (metis nth_mem)
  ultimately show ?thesis
    using inv by (auto simp: placed_ok_def reload_member_def Let_def split: prod.split sum.split)
qed

lemma join_ok:
  assumes inv: "fleet_inv cap fl" and hold: "shard_holding (sm_name mem) (fl_shards fl) = None"
    and i: "i < length (fl_shards fl)" "rt_accounts (fl_shards fl ! i) < cap"
  shows "placed_ok cap (sm_name mem) (join_running i mem fl)"
proof -
  let ?s = "fl_shards fl ! i"
  define s' where "s' a = ?s\<lparr>rt_actor := a, rt_accounts := rt_accounts ?s + 1, rt_members := insert (sm_name mem) (rt_members ?s),
      rt_lowest_birthday := min_birthday (rt_lowest_birthday ?s) (sm_birthday mem)\<rparr>" for a
  have sinv: "shard_inv cap ?s"
    using inv i(1) by (simp add: fleet_inv_def)
  have new: "sm_name mem \<notin> rt_members s" if "s \<in> set (fl_shards fl)" for s
    using holding_None [OF hold that] .
  have upd: "fleet_inv cap (fl\<lparr>fl_shards := (fl_shards fl)[i := s' a]\<rparr>)"
    if a: "add_shard_member mem (rt_actor ?s) = (Inr (), a)" for a
  proof (rule fleet_inv_update [OF inv i(1), where new = "{sm_name mem}"])
    show "shard_inv cap (s' a)"
      using sinv knows_add [OF a] i new [of ?s] by (auto simp: shard_inv_def s'_def)
  qed (use new in \<open>simp_all add: s'_def\<close>)
  show ?thesis
  proof (cases "add_shard_member mem (rt_actor ?s)")
    case (Pair r a)
    show ?thesis
    proof (cases r)
      case (Inr u)
      then have join: "join_running i mem fl = (Inr (rt_dir ?s), fl\<lparr>fl_shards := (fl_shards fl)[i := s' a]\<rparr>)"
        using Pair by (simp add: join_running_def s'_def Let_def)
      have "s' a \<in> set ((fl_shards fl)[i := s' a])"
        using i(1) by (simp add: set_update_memI)
      then show ?thesis
        unfolding join placed_ok_def using upd [of a] Pair Inr by (auto simp: s'_def intro!: bexI [of _ "s' a"])
    qed (use Pair inv in \<open>simp add: placed_ok_def join_running_def Let_def\<close>)
  qed
qed

lemma open_ok:
  fixes codec :: "'k ufvk_codec" and fl :: "('k, 'id) fleet"
  assumes inv: "fleet_inv cap fl" and hold: "shard_holding (sm_name mem) (fl_shards fl) = None" and cap: "1 \<le> cap"
  shows "placed_ok cap (sm_name mem) (open_shard codec net io index mem fl)"
proof -
  define dir where "dir = next_free_shard_dir (fl_dirs fl) index"
  define s' :: "('k, 'id) shard_actor \<Rightarrow> ('k, 'id) shard_runtime" where "s' a = \<lparr>rt_dir = dir, rt_members = {sm_name mem}, rt_accounts = 1,
      rt_lowest_birthday = Some (sm_birthday mem), rt_actor = a\<rparr>" for a
  have fresh: "dir \<notin> set (fl_dirs fl)"
    by (simp add: dir_def next_free_not_existing)
  have dirs: "fleet_inv cap (fl\<lparr>fl_dirs := fl_dirs fl @ [dir]\<rparr>)"
    using inv by (auto simp: fleet_inv_def)
  have app: "fleet_inv cap (fl\<lparr>fl_dirs := fl_dirs fl @ [dir], fl_shards := fl_shards fl @ [s' a]\<rparr>)"
    if a: "spawn_shard codec net [] [mem] = Inr a" for a
  proof (rule fleet_inv_append [OF inv])
    show "rt_dir (s' a) \<notin> rt_dir ` set (fl_shards fl)"
      using inv fresh by (auto simp: fleet_inv_def s'_def)
    show "shard_inv cap (s' a)"
      using cap knows_spawn [OF a] by (simp add: shard_inv_def s'_def)
  qed (use holding_None [OF hold] in \<open>auto simp: s'_def\<close>)
  have "open_shard codec net io index mem fl =
      (if \<not> io_create_dir io dir then (Inl (IoFailed (shard_dir_name dir)), fl)
       else case spawn_shard codec net [] [mem] of
           Inl e \<Rightarrow> (Inl e, fl\<lparr>fl_dirs := fl_dirs fl @ [dir]\<rparr>)
         | Inr a \<Rightarrow> (Inr dir, fl\<lparr>fl_dirs := fl_dirs fl @ [dir], fl_shards := fl_shards fl @ [s' a]\<rparr>))"
    by (simp add: open_shard_def dir_def [symmetric] register_shard_def s'_def Let_def split: sum.split)
  moreover have "rt_dir (s' a) = dir" "sm_name mem \<in> rt_members (s' a)" for a
    by (simp_all add: s'_def)
  ultimately show ?thesis
    using inv dirs app by (auto simp: placed_ok_def split: sum.split)
qed


lemma place_ok:
  assumes inv: "fleet_inv cap fl" and cap: "1 \<le> cap" "fc_shard_size cfg \<le> cap"
  shows "placed_ok cap (sm_name mem) (fleet_place codec net cfg io mem fl)"
proof (cases "shard_holding (sm_name mem) (fl_shards fl)")
  case None
  define index where "index = hd (place_members (runtime_states (fl_shards fl)) [mem] (fc_shard_size cfg) (fc_cohort_depth cfg))"
  show ?thesis
  proof (cases "index < length (fl_shards fl)")
    case True
    then have "rt_accounts (fl_shards fl ! index) < cap"
      using place_room [OF index_def] cap(2) by simp
    with True None show ?thesis
      using join_ok [OF inv None] by (simp add: fleet_place_def index_def [symmetric] Let_def)
  qed (use None open_ok [OF inv None cap(1)] in \<open>simp add: fleet_place_def index_def [symmetric] Let_def\<close>)
qed (use reload_ok [OF inv] in \<open>simp add: fleet_place_def\<close>)

lemma manifests_inv [simp]: "fleet_inv cap (fl\<lparr>fl_manifests := ms\<rparr>) = fleet_inv cap fl"
  by (simp add: fleet_inv_def)

lemma onboard_inv:
  assumes inv: "fleet_inv cap fl" and cap: "1 \<le> cap" "fc_shard_size cfg \<le> cap"
  shows "fleet_inv cap (snd (onboard codec net cfg io mem persist fl))"
proof -
  have serve: "fleet_inv cap (snd (place_and_serve codec net cfg io mem persist fl))" if "fleet_inv cap fl" for fl :: "('a, 'b) fleet"
  proof (cases "fleet_place codec net cfg io mem fl")
    case (Pair r fl')
    then have ok: "placed_ok cap (sm_name mem) (r, fl')"
      using place_ok [OF that cap, of mem codec net io] by simp
    show ?thesis
    proof (cases r)
      case (Inr d)
      then obtain s where "s \<in> set (fl_shards fl')" "rt_dir s = d" "sm_name mem \<in> rt_members s"
        using ok by (auto simp: placed_ok_def)
      with fleet_inv_registry [of cap fl' s "sm_name mem"] ok show ?thesis
        by (simp add: place_and_serve_def Pair Inr placed_ok_def)
    qed (use ok in \<open>simp add: place_and_serve_def Pair placed_ok_def remove_manifest_def\<close>)
  qed
  have "fleet_inv cap (snd (write_manifest io mem fl))"
    using inv by (simp add: write_manifest_def)
  then show ?thesis
    using inv serve by (auto simp: onboard_def split: sum.split prod.split)
qed

lemma fleet_step_inv:
  assumes inv: "fleet_inv cap fl" and cap: "1 \<le> cap" "fc_shard_size cfg \<le> cap"
  shows "fleet_inv cap (fleet_step codec net cfg ev fl)"
proof (cases ev)
  case (ImportPass i connected fetch fresh)
  let ?s = "fl_shards fl ! i" and ?a = "import_pending_shard_members codec net connected fetch fresh (rt_actor (fl_shards fl ! i))"
  show ?thesis
  proof (cases "i < length (fl_shards fl)")
    case True
    then have "shard_inv cap ?s"
      using inv by (simp add: fleet_inv_def)
    then have "shard_inv cap (?s\<lparr>rt_actor := ?a\<rparr>)"
      by (auto simp: shard_inv_def)
    from fleet_inv_update [OF inv True _ _ this, where new = "{}"] show ?thesis
      using True by (simp add: ImportPass)
  qed (use inv in \<open>simp add: ImportPass\<close>)
next
  case (UnloadWallet name)
  then show ?thesis
    using inv by (auto simp: unloadwallet_def fleet_inv_def split: option.split served.split)
qed (use inv onboard_inv [OF inv cap] in
  \<open>auto simp: createwallet_def loadwallet_def split: sum.split option.split\<close>)

lemma fleet_run_inv:
  assumes "fleet_inv cap fl" "1 \<le> cap" "fc_shard_size cfg \<le> cap"
  shows "fleet_inv cap (fleet_run codec net cfg evs fl)"
  using assms by (induction evs arbitrary: fl) (simp_all add: fleet_run_def fleet_step_inv)


text \<open>Startup establishes it.\<close>

lemma first_duplicate_None:
  "sorted (map sm_name ms) \<Longrightarrow> first_duplicate ms = None \<Longrightarrow> distinct (map sm_name ms)"
proof (induction ms rule: first_duplicate.induct)
  case (1 a b ms)
  then have rest: "distinct (map sm_name (b # ms))" and ab: "sm_name a < sm_name b"
    by (auto split: if_splits)
  have "sm_name b \<le> sm_name m" if "m \<in> set ms" for m
    using 1 that by auto
  with ab have "sm_name a \<notin> sm_name ` set (b # ms)"
    by fastforce
  with rest show ?case
    by simp
qed simp_all

lemma load_manifests_distinct:
  "load_manifests files = Inr members \<Longrightarrow> members = sort_key sm_name files \<and> distinct (map sm_name members)"
  using first_duplicate_None [of "sort_key sm_name files"] by (auto simp: load_manifests_def Let_def split: option.splits)

lemma registry_fold:
  "fold (\<lambda>mem r. r(sm_name mem \<mapsto> v)) ms r n = (if n \<in> sm_name ` set ms then Some v else r n)"
  by (induction ms arbitrary: r) auto

lemma start_shards_inv:
  assumes "start_shards codec net io db lay fl = Inr fl'" "fleet_inv cap fl"
    and "distinct (map fst lay)" "distinct (map sm_name (concat (map snd lay)))"
    and "\<forall>d \<in> set (map fst lay). d \<notin> rt_dir ` set (fl_shards fl)"
    and "\<forall>s \<in> set (fl_shards fl). \<forall>mem \<in> set (concat (map snd lay)). sm_name mem \<notin> rt_members s"
    and "\<forall>(d, ms) \<in> set lay. length ms \<le> cap"
  shows "fleet_inv cap fl'"
  using assms
proof (induction codec net io db lay fl rule: start_shards.induct)
  case (2 codec net io db dir ms rest fl)
  obtain a where a: "spawn_shard codec net (if dir \<in> set (fl_dirs fl) then db dir else []) ms = Inr a" "io_create_dir io dir"
    using 2(2) by (auto simp: sum_bind_Inr split: if_splits)
  define s' where "s' = \<lparr>rt_dir = dir, rt_members = sm_name ` set ms, rt_accounts = length ms, rt_lowest_birthday = lowest_of ms, rt_actor = a\<rparr>"
  define fl1 where "fl1 = fl\<lparr>fl_dirs := List.insert dir (fl_dirs fl), fl_shards := fl_shards fl @ [s']\<rparr>"
  define fl2 where "fl2 = fl1\<lparr>fl_registry := fold (\<lambda>mem r. r(sm_name mem \<mapsto> InShard dir)) ms (fl_registry fl)\<rparr>"
  have later: "start_shards codec net io db rest fl2 = Inr fl'"
    using 2(2) a by (simp add: fl2_def fl1_def s'_def register_shard_def)
  have dist: "distinct (map sm_name ms)" "length ms \<le> cap" "dir \<notin> fst ` set rest"
    using 2(4,5,8) by auto
  have "shard_inv cap s'"
    using knows_spawn [OF a(1)] dist by (auto simp: shard_inv_def s'_def distinct_card [of "map sm_name ms", simplified])
  moreover have "rt_members s \<inter> rt_members s' = {}" if "s \<in> set (fl_shards fl)" for s
    using 2(7) that by (auto simp: s'_def)
  ultimately have inv1: "fleet_inv cap fl1"
    unfolding fl1_def using 2(6) by (intro fleet_inv_append [OF 2(3)]) (auto simp: s'_def)
  have inv2: "fleet_inv cap fl2"
    using inv1 unfolding fleet_inv_def fl2_def by (auto simp: registry_fold fl1_def s'_def split: if_splits)
  have shards2: "fl_shards fl2 = fl_shards fl @ [s']"
    by (simp add: fl2_def fl1_def)
  have names: "sm_name ` set ms \<inter> sm_name ` set (concat (map snd rest)) = {}"
    using 2(5) by (auto simp: distinct_append)
  have fl2: "fl2 = fl\<lparr>fl_dirs := List.insert dir (fl_dirs fl),
           fl_shards := register_shard dir a (map sm_name ms) (lowest_of ms) (fl_shards fl),
           fl_registry := fold (\<lambda>mem r. r(sm_name mem \<mapsto> InShard dir)) ms (fl_registry fl)\<rparr>"
    by (simp add: fl2_def fl1_def s'_def register_shard_def)
  show ?case
  proof (rule 2(1) [of a, folded fl2, OF _ later inv2])
    show "\<forall>s \<in> set (fl_shards fl2). \<forall>mem \<in> set (concat (map snd rest)). sm_name mem \<notin> rt_members s"
    proof (intro ballI)
      fix s mem assume s: "s \<in> set (fl_shards fl2)" and mem: "mem \<in> set (concat (map snd rest))"
      have "sm_name mem \<notin> sm_name ` set ms"
        using names mem by blast
      then show "sm_name mem \<notin> rt_members s"
        using s mem 2(7) by (auto simp: shards2 s'_def)
    qed
  qed (use 2 a dist in \<open>auto simp: shards2 s'_def\<close>)
qed simp


lemma load_fleet_inv:
  assumes "load_fleet codec net cfg io dirs db birthday files configured = Inr fl" "1 \<le> fc_shard_size cfg"
    and "\<forall>(d, ms) \<in> set (startup_layout cfg dirs db birthday (sort_key sm_name files)). length ms \<le> cap"
  shows "fleet_inv cap fl"
proof -
  let ?lay = "startup_layout cfg dirs db birthday (sort_key sm_name files)"
  obtain members where m: "load_manifests files = Inr members"
      "start_shards codec net io db (startup_layout cfg dirs db birthday members)
        \<lparr>fl_shards = [], fl_dirs = dirs, fl_manifests = files,
         fl_registry = (\<lambda>n. if n \<in> set configured then Some Configured else None)\<rparr> = Inr fl"
    using assms(1) by (auto simp: load_fleet_def sum_bind_Inr split: option.splits)
  note members = load_manifests_distinct [OF m(1)]
  have "mset (concat (map snd ?lay)) = mset members" "distinct (map fst ?lay)"
    using fleet_plan_perm [OF assms(2)] members by (simp_all add: startup_layout_def fleet_plan_dirs case_prod_beta)
  then have "distinct (map sm_name (concat (map snd ?lay)))" "distinct (map fst ?lay)"
    using members by (metis mset_map mset_eq_imp_distinct_iff)+
  then show ?thesis
    using m(2) members assms(3)
    by (intro start_shards_inv [OF m(2)]) (auto simp: fleet_inv_def shards_apart_def split: if_splits)
qed

text \<open>C9. A running fleet, after any sequence of created, loaded and unloaded wallets, import passes of its shards, and edits of
  the manifest directory by the operator: no two shards ever run over one directory; a wallet is in at most one shard,
  and it is served from the shard it is in; there it is imported, queued for import, or has a recorded failure; and no
  shard is given more wallets than the shard size, or than it started with.\<close>

theorem fleet_serves_once:
  assumes start: "load_fleet codec net cfg io dirs db birthday files configured = Inr fl0" and size: "1 \<le> fc_shard_size cfg"
    and cap: "\<forall>(d, ms) \<in> set (startup_layout cfg dirs db birthday (sort_key sm_name files)). length ms \<le> cap" "fc_shard_size cfg \<le> cap"
    and fl: "fl = fleet_run codec net cfg evs fl0"
  shows "(\<forall>i j. i < j \<and> j < length (fl_shards fl) \<longrightarrow>
      rt_dir (fl_shards fl ! i) \<noteq> rt_dir (fl_shards fl ! j) \<and> rt_members (fl_shards fl ! i) \<inter> rt_members (fl_shards fl ! j) = {}) \<and>
    (\<forall>n d. fl_registry fl n = Some (InShard d) \<longrightarrow>
      (\<exists>s \<in> set (fl_shards fl). rt_dir s = d \<and> n \<in> rt_members s \<and>
        (sa_accounts (rt_actor s) n \<noteq> None \<or> n \<in> sm_name ` set (sa_pending (rt_actor s)) \<or> n \<in> sa_errors (rt_actor s)))) \<and>
    (\<forall>s \<in> set (fl_shards fl). card (rt_members s) \<le> cap)"
proof -
  have "fleet_inv cap fl"
    unfolding fl using load_fleet_inv [OF start size cap(1)] size cap(2) by (intro fleet_run_inv) auto
  then have inv: "shards_apart (fl_shards fl)" "\<And>s. s \<in> set (fl_shards fl) \<Longrightarrow> shard_inv cap s"
      "\<And>n d. fl_registry fl n = Some (InShard d) \<Longrightarrow> \<exists>s \<in> set (fl_shards fl). rt_dir s = d \<and> n \<in> rt_members s"
    by (auto simp: fleet_inv_def)
  have known: "sa_accounts (rt_actor s) n \<noteq> None \<or> n \<in> sm_name ` set (sa_pending (rt_actor s)) \<or> n \<in> sa_errors (rt_actor s)"
    if "s \<in> set (fl_shards fl)" "n \<in> rt_members s" for s n
    using inv(2) [OF that(1)] that(2) by (auto simp: shard_inv_def actor_knows_def)
  have count: "card (rt_members s) \<le> cap" if "s \<in> set (fl_shards fl)" for s
    using inv(2) [OF that] by (auto simp: shard_inv_def)
  show ?thesis
  proof (intro conjI ballI)
    show "\<forall>n d. fl_registry fl n = Some (InShard d) \<longrightarrow>
      (\<exists>s \<in> set (fl_shards fl). rt_dir s = d \<and> n \<in> rt_members s \<and>
        (sa_accounts (rt_actor s) n \<noteq> None \<or> n \<in> sm_name ` set (sa_pending (rt_actor s)) \<or> n \<in> sa_errors (rt_actor s)))"
    proof (intro allI impI)
      fix n d assume "fl_registry fl n = Some (InShard d)"
      then obtain s where "s \<in> set (fl_shards fl)" "rt_dir s = d" "n \<in> rt_members s"
        using inv(3) by blast
      with known show "\<exists>s \<in> set (fl_shards fl). rt_dir s = d \<and> n \<in> rt_members s \<and>
          (sa_accounts (rt_actor s) n \<noteq> None \<or> n \<in> sm_name ` set (sa_pending (rt_actor s)) \<or> n \<in> sa_errors (rt_actor s))"
        by (intro bexI [of _ s]) simp_all
    qed
  qed (use inv(1) count in \<open>simp_all add: shards_apart_def\<close>)
qed


section \<open>Where the fleet and its directories part\<close>

text \<open>\<open>loadwallet\<close> serves a wallet that is still in a shard by its name alone: whatever viewing key the manifest now holds,
  no shard changes, and the wallet is served from the account imported before.\<close>

theorem reload_ignores_key:
  assumes "shard_holding name (fl_shards fl) = Some i" "name \<notin> sa_errors (rt_actor (fl_shards fl ! i))"
    and "fl_registry fl name = None" "check_wallet_name name"
    and "load_manifests (fl_manifests fl) = Inr members" "List.find (\<lambda>m. sm_name m = name) members = Some mem"
    and "decode_ufvk codec net mem = Inr key"
  shows "loadwallet codec net cfg io name fl =
    (Inr (), fl\<lparr>fl_registry := (fl_registry fl)(name \<mapsto> InShard (rt_dir (fl_shards fl ! i)))\<rparr>)"
proof -
  have "sm_name mem = name"
    using assms(6) by (auto simp: find_Some_iff)
  then show ?thesis
    using assms by (simp add: loadwallet_def onboard_def place_and_serve_def fleet_place_def reload_member_def Let_def)
qed

lemma inspect_accounts_named:
  "n \<in> dom (fst (inspect_accounts i accs (placed, l))) \<Longrightarrow> n \<in> dom placed \<or> (\<exists>b. Some (Some n, b) \<in> set accs)"
  by (induction i accs "(placed, l)" arbitrary: placed l rule: inspect_accounts.induct)
    (fastforce split: option.splits if_splits)+

lemma inspect_shards_named:
  "n \<in> dom (snd (inspect_shards db is placed)) \<Longrightarrow> n \<in> dom placed \<or> (\<exists>i \<in> set is. \<exists>b. Some (Some n, b) \<in> set (db i))"
proof (induction "is" arbitrary: placed)
  case (Cons i "is")
  then show ?case
    using inspect_accounts_named [of n i "db i" placed None]
    by (auto simp: inspect_shard_def Let_def case_prod_beta)
qed simp

lemma length_inspect_shards: "length (fst (inspect_shards db is placed)) = length is"
  by (induction "is" arbitrary: placed) (simp_all add: case_prod_beta Let_def)

text \<open>A shard directory removed by hand moves the wallets of every shard above it: a wallet whose account is only in a
  directory past the first missing one is planned into another directory, though that account is still on disk.\<close>

theorem gap_moves_wallet:
  assumes gap: "\<forall>i < n. i \<in> set dirs" "n \<notin> set dirs" "n < k" "k \<in> set dirs"
    and only: "\<forall>i < n. \<forall>b. Some (Some (sm_name mem), b) \<notin> set (report_of birthday (db i))" and size: "1 \<le> fc_shard_size cfg"
  shows "\<exists>d. startup_layout cfg dirs db birthday [mem] = [(d, [mem])] \<and> d \<noteq> k"
proof -
  obtain m where m: "existing_shard_dirs dirs = [0..<m]" "{0..<m} \<subseteq> set dirs" "m \<notin> set dirs"
    using shard_dirs_loop_upt [of dirs 0] by (auto simp: existing_shard_dirs_def)
  then have "m = n"
    using gap(1,2) by (metis atLeastLessThan_iff linorder_neqE_nat subsetD zero_le)
  define existing where "existing = fst (inspect_shards (report_of birthday \<circ> db) [0..<n] Map.empty)"
  define placed where "placed = snd (inspect_shards (report_of birthday \<circ> db) [0..<n] Map.empty)"
  have len: "length existing = n"
    by (simp add: existing_def length_inspect_shards)
  have "sm_name mem \<notin> dom placed"
    using inspect_shards_named [of "sm_name mem" "report_of birthday \<circ> db" "[0..<n]" Map.empty] only by (auto simp: placed_def)
  then have new: "placed (sm_name mem) = None"
    by blast
  define j where "j = fst (place_one (fc_shard_size cfg) (fc_cohort_depth cfg) existing mem)"
  have j: "j \<le> n"
    using place_one_choice [OF refl, of "fc_shard_size cfg" "fc_cohort_depth cfg" existing mem] len by (auto simp: j_def)
  have "plan_shards [mem] placed existing cfg = push_member (mem, j) (replicate n [])"
    by (simp add: plan_shards_def new place_members_def j_def len case_prod_beta Let_def)
  also have "\<dots> = (replicate (max n (Suc j)) [])[j := [mem]]"
    using nat_minus_add_max [of "Suc j" n] by (simp add: add.commute max.commute push_member_def Let_def replicate_add [symmetric] nth_append)
  finally have plan: "plan_shards [mem] placed existing cfg = replicate j [] @ [mem] # replicate (max n (Suc j) - Suc j) []"
    by (simp add: list_update_append upd_conv_take_nth_drop)
  have "filter (\<lambda>(_, ms). ms \<noteq> []) (enumerate i (replicate q [])) = ([] :: (nat \<times> shard_member list) list)" for i q
    by (induction q arbitrary: i) simp_all
  then have "fleet_plan [mem] placed existing cfg = [(j, [mem])]"
    by (simp add: fleet_plan_def plan enumerate_append_eq)
  then show ?thesis
    using m(1) \<open>m = n\<close> j gap(3) by (simp add: startup_layout_def existing_def placed_def case_prod_beta)
qed


section \<open>A small fleet\<close>

definition plain_codec :: "string ufvk_codec" where
  "plain_codec = \<lparr>ufvk_decode = Some, ufvk_encode = (\<lambda>k. k)\<rparr>"

definition working_io :: fleet_io where
  "working_io = \<lparr>io_write = (\<lambda>_. True), io_remove = (\<lambda>_. True), io_create_dir = (\<lambda>_. True)\<rparr>"

definition view_wallet :: "string \<Rightarrow> string \<Rightarrow> shard_member" where
  "view_wallet name key = \<lparr>sm_name = name, sm_ufvk = key, sm_birthday = 100\<rparr>"

definition account :: "nat \<Rightarrow> string \<Rightarrow> string \<Rightarrow> nat \<times> (string, nat) shard_account option" where
  "account i name key = (i, Some \<lparr>acc_id = i, acc_name = Some name, acc_ufvk = Some key\<rparr>)"

definition pairs :: fleet_config where "pairs = \<lparr>fc_shard_size = 2, fc_cohort_depth = 10\<rparr>"

definition full_shard :: "nat \<Rightarrow> (string, nat) shard_db" where
  "full_shard d = (if d = 0 then [account 1 ''a'' ''k1'', account 2 ''gone'' ''k2''] else [])"

lemmas small_fleet = plain_codec_def working_io_def view_wallet_def account_def pairs_def full_shard_def

lemma full_shard_dirs: "existing_shard_dirs [0] = [0]"
  by (simp add: existing_shard_dirs_def shard_dirs_loop.simps [of "[0]" 0] shard_dirs_loop.simps [of "[0]" "Suc 0"])

lemma full_shard_layout: "startup_layout pairs [0] full_shard (\<lambda>_. 100) [view_wallet ''a'' ''k1''] = [(0, [view_wallet ''a'' ''k1''])]"
  by (simp add: startup_layout_def full_shard_dirs inspect_shard_def report_of_def fleet_plan_def plan_shards_def
      place_members_def small_fleet Let_def)

definition full_fleet :: "(string, nat) fleet" where
  "full_fleet = \<lparr>fl_shards = [\<lparr>rt_dir = 0, rt_members = {''a''}, rt_accounts = 1, rt_lowest_birthday = Some 100,
       rt_actor = \<lparr>sa_db = full_shard 0, sa_accounts = [''a'' \<mapsto> 1], sa_pending = [], sa_errors = {}\<rparr>\<rparr>],
     fl_dirs = [0], fl_manifests = [view_wallet ''a'' ''k1''], fl_registry = [''a'' \<mapsto> InShard 0]\<rparr>"

lemma full_fleet_loads:
  "load_fleet plain_codec Main pairs working_io [0] full_shard (\<lambda>_. 100) [view_wallet ''a'' ''k1''] [] = Inr full_fleet"
proof -
  have "spawn_shard plain_codec Main (full_shard 0) [view_wallet ''a'' ''k1''] =
      Inr \<lparr>sa_db = full_shard 0, sa_accounts = [''a'' \<mapsto> 1], sa_pending = [], sa_errors = {}\<rparr>"
    by (simp add: spawn_shard_def reconcile_accounts_def decode_ufvk_def small_fleet Let_def)
  then show ?thesis
    by (simp add: load_fleet_def load_manifests_def full_shard_layout)
      (simp add: register_shard_def lowest_of_def min_birthday_def full_fleet_def working_io_def view_wallet_def)
qed

text \<open>The manager counts a shard's manifested wallets, not the accounts of its database.  A database with the full shard
  size of two accounts, one of whose manifests was removed, is loaded as a shard with room: the next wallet created
  joins it, and its import leaves three accounts in the database.\<close>

theorem unmanifested_accounts_not_counted:
  "\<exists>fl. load_fleet plain_codec Main pairs working_io [0] full_shard (\<lambda>_. 100) [view_wallet ''a'' ''k1''] [] = Inr fl \<and>
    length (full_shard 0) = fc_shard_size pairs \<and>
    map (length \<circ> sa_db \<circ> rt_actor) (fl_shards (fleet_run plain_codec Main pairs
      [CreateWallet working_io (view_wallet ''b'' ''k3''), ImportPass 0 True (\<lambda>_. AccountBirthday) 3] fl)) = [3]"
proof -
  have "place_members (runtime_states (fl_shards full_fleet)) [view_wallet ''b'' ''k3''] 2 10 = [0]"
    by (simp add: place_members_def place_one_def runtime_states_def full_fleet_def find_last_def accepts_def small_fleet)
  then have "map (length \<circ> sa_db \<circ> rt_actor) (fl_shards (fleet_run plain_codec Main pairs
      [CreateWallet working_io (view_wallet ''b'' ''k3''), ImportPass 0 True (\<lambda>_. AccountBirthday) 3] full_fleet)) = [3]"
    by (simp add: fleet_run_def createwallet_def onboard_def write_manifest_def place_and_serve_def fleet_place_def
        shard_holding_def join_running_def add_shard_member_def import_pending_shard_members_def import_member_def
        decode_ufvk_def check_wallet_name_def is_ascii_alphanumeric_def full_fleet_def small_fleet Let_def)
  then show ?thesis
    using full_fleet_loads by (simp add: small_fleet)
qed

theorem fleet_plan_sound_witness:
  "mset (concat (map snd (fleet_plan [view_wallet ''a'' ''k1'', view_wallet ''b'' ''k2''] [''a'' \<mapsto> 0]
     [\<lparr>sh_accounts = 2, sh_lowest_birthday = Some 100\<rparr>] pairs))) = mset [view_wallet ''a'' ''k1'', view_wallet ''b'' ''k2'']"
  by (rule fleet_plan_sound [THEN conjunct1]) (simp add: pairs_def)

theorem fleet_serves_once_witness:
  "list_all (\<lambda>s. card (rt_members s) \<le> 2)
     (fl_shards (fleet_run plain_codec Main pairs [UnloadWallet ''a'', LoadWallet working_io ''a''] full_fleet))"
  unfolding list_all_iff
  by (rule fleet_serves_once [OF full_fleet_loads _ _ _ refl, THEN conjunct2, THEN conjunct2])
    (simp_all add: full_shard_layout, simp_all add: pairs_def)

theorem reload_ignores_key_witness:
  "fst (loadwallet plain_codec Main pairs working_io ''a''
     (full_fleet\<lparr>fl_registry := Map.empty, fl_manifests := [view_wallet ''a'' ''other key'']\<rparr>)) = Inr ()"
proof -
  let ?fl = "full_fleet\<lparr>fl_registry := Map.empty, fl_manifests := [view_wallet ''a'' ''other key'']\<rparr>"
  have "shard_holding ''a'' (fl_shards ?fl) = Some 0" "''a'' \<notin> sa_errors (rt_actor (fl_shards ?fl ! 0))"
    "check_wallet_name ''a''" "load_manifests (fl_manifests ?fl) = Inr [view_wallet ''a'' ''other key'']"
    "List.find (\<lambda>m. sm_name m = ''a'') [view_wallet ''a'' ''other key''] = Some (view_wallet ''a'' ''other key'')"
    "decode_ufvk plain_codec Main (view_wallet ''a'' ''other key'') = Inr ''other key''"
    by (simp_all add: shard_holding_def full_fleet_def check_wallet_name_def is_ascii_alphanumeric_def load_manifests_def decode_ufvk_def small_fleet)
  note facts = this
  show ?thesis
    by (subst reload_ignores_key [OF facts(1,2) _ facts(3-6)]) simp_all
qed

theorem gap_moves_wallet_witness:
  "\<exists>d. startup_layout pairs [0, 2] (\<lambda>d. if d = 2 then [account 1 ''a'' ''k1''] else []) (\<lambda>_. 100) [view_wallet ''a'' ''k1''] =
     [(d, [view_wallet ''a'' ''k1''])] \<and> d \<noteq> 2"
  by (rule gap_moves_wallet [where n = 1]) (simp_all add: report_of_def pairs_def)

end
