(* ===== verification/Proxy.thy ===== *)
theory Proxy
  imports Rust_Text
begin

text \<open>
  The SOCKS proxy setting, \<open>src/socks.rs\<close>: reading a proxy token, its canonical form, and the destination a connection
  asks the proxy for.  Dialling is the transport library's.
\<close>

section \<open>The setting\<close>

record socks_proxy =
  px_host :: string
  px_port :: u16

datatype proxy_error =
    UnsupportedScheme string string
  | NoScheme string
  | Credentials string
  | UnexpectedChar string char
  | MissingPort string
  | EmptyHost string
  | NotAPort string string
  | PortZero string

text \<open>\<open>split_once\<close> on a string.\<close>

fun split_once_str :: "string \<Rightarrow> string \<Rightarrow> (string \<times> string) option" where
  "split_once_str p [] = (if p = [] then Some ([], []) else None)"
| "split_once_str p (c # s) =
     (case strip_prefix p (c # s) of
        Some r \<Rightarrow> Some ([], r)
      | None \<Rightarrow> map_option (\<lambda>(a, b). (c # a, b)) (split_once_str p s))"

definition unbracket :: "string \<Rightarrow> string" where
  "unbracket host =
     (case strip_prefix ''['' host of
        None \<Rightarrow> host
      | Some h \<Rightarrow> (case strip_suffix '']'' h of Some h' \<Rightarrow> h' | None \<Rightarrow> h))"

definition parse_address :: "string \<Rightarrow> string \<Rightarrow> proxy_error + socks_proxy" where
  "parse_address token rest =
     (case rsplit_once CHR '':'' rest of
        None \<Rightarrow> Inl (MissingPort token)
      | Some (host, port) \<Rightarrow>
          (let host = unbracket host
           in if host = [] then Inl (EmptyHost token)
              else case parse_unsigned 65535 port of
                  None \<Rightarrow> Inl (NotAPort token port)
                | Some n \<Rightarrow> if n = 0 then Inl (PortZero token) else Inr \<lparr>px_host = host, px_port = of_nat n\<rparr>))"

definition proxy_parse :: "string \<Rightarrow> proxy_error + socks_proxy" where
  "proxy_parse input =
     (let token = trim input
      in case split_once_str ''://'' token of
          None \<Rightarrow> Inl (NoScheme token)
        | Some (scheme, rest) \<Rightarrow>
            if scheme \<noteq> ''socks5'' \<and> scheme \<noteq> ''socks5h'' then Inl (UnsupportedScheme scheme token)
            else if CHR ''@'' \<in> set rest then Inl (Credentials token)
            else case List.find (\<lambda>c. c \<in> set ''/?#'') rest of
                Some c \<Rightarrow> Inl (UnexpectedChar token c)
              | None \<Rightarrow> parse_address token rest)"

definition proxy_display :: "socks_proxy \<Rightarrow> string" where
  "proxy_display p =
     ''socks5://'' @ (if CHR '':'' \<in> set (px_host p) then ''['' @ px_host p @ '']'' else px_host p) @ '':'' @
     show_nat (unat (px_port p))"

section \<open>Connecting\<close>

record uri =
  uri_host :: "string option"
  uri_port :: "u16 option"
  uri_scheme :: "string option"

text \<open>The destination as the proxy is asked for it: by name, so that the proxy resolves it.\<close>

definition socks_target :: "uri \<Rightarrow> string option" where
  "socks_target u =
     map_option (\<lambda>host. host @ '':'' @ show_nat (unat (case uri_port u of
         Some port \<Rightarrow> port
       | None \<Rightarrow> if uri_scheme u = Some ''https'' then 443 else 80))) (uri_host u)"

datatype connector = Direct | Socks socks_proxy

definition connector_new :: "socks_proxy option \<Rightarrow> connector" where
  "connector_new proxy = (case proxy of Some p \<Rightarrow> Socks p | None \<Rightarrow> Direct)"

section \<open>Reading what was written\<close>

lemma show_nat_no_colon: "CHR '':'' \<notin> set (show_nat n)"
proof
  assume "CHR '':'' \<in> set (show_nat n)"
  then have "is_ascii_digit CHR '':''"
    using show_nat_digits [of n] by (simp add: all_digits_def list_all_iff)
  then show False
    by (simp add: is_ascii_digit_def)
qed

lemma punctuation_no_digit: "c \<in> set ''@/?#'' \<Longrightarrow> \<not> is_ascii_digit c"
  by (simp, elim disjE) (simp_all add: is_ascii_digit_def)

lemma trim_ends:
  assumes "s \<noteq> []" "\<not> is_whitespace (hd s)" "\<not> is_whitespace (last s)"
  shows "trim s = s"
  using assms by (simp add: trim_def trim_start_def trim_end_def dropWhile_id hd_rev)

lemma digit_not_whitespace: "is_ascii_digit c \<Longrightarrow> \<not> is_whitespace c"
  by (auto simp: is_ascii_digit_def is_whitespace_def Let_def)

lemma trim_display: "trim (proxy_display p) = proxy_display p"
proof (rule trim_ends)
  let ?n = "show_nat (unat (px_port p))"
  have "last (proxy_display p) = last ?n"
    by (simp add: proxy_display_def)
  moreover have "is_ascii_digit (last ?n)"
    using show_nat_digits [of "unat (px_port p)"] show_nat_nonempty [of "unat (px_port p)"]
    by (simp add: all_digits_def list_all_iff)
  ultimately show "\<not> is_whitespace (last (proxy_display p))"
    by (simp add: digit_not_whitespace)
qed (simp_all add: proxy_display_def is_whitespace_def)

lemma scheme_split: "split_once_str ''://'' (''socks5://'' @ r) = Some (''socks5'', r)"
  by (simp add: strip_prefix_def starts_with_def)

lemma strip_suffix_append [simp]: "strip_suffix q (s @ q) = Some s"
  by (simp add: strip_suffix_def)

lemma strip_suffix_SomeD: "strip_suffix q s = Some t \<Longrightarrow> s = t @ q"
  unfolding strip_suffix_def by (auto dest!: strip_prefix_SomeD) (metis rev_append rev_rev_ident)

text \<open>The characters a proxy host cannot have.\<close>

definition host_ok :: "string \<Rightarrow> bool" where
  "host_ok h \<longleftrightarrow> h \<noteq> [] \<and> set h \<inter> set ''@/?#'' = {}"

lemma unbracket_subset: "set (unbracket h) \<subseteq> set h"
  by (auto simp: unbracket_def split: option.splits dest!: strip_prefix_SomeD strip_suffix_SomeD)

lemma proxy_parse_Inr:
  assumes "proxy_parse t = Inr p"
  shows "host_ok (px_host p)" "px_port p \<noteq> 0"
proof -
  obtain rest host port n where r: "CHR ''@'' \<notin> set rest" "List.find (\<lambda>c. c \<in> set ''/?#'') rest = None"
      "rsplit_once CHR '':'' rest = Some (host, port)" "unbracket host \<noteq> []" "parse_unsigned 65535 port = Some n" "n \<noteq> 0"
      "p = \<lparr>px_host = unbracket host, px_port = of_nat n\<rparr>"
    using assms by (auto simp: proxy_parse_def parse_address_def Let_def split: option.splits if_splits prod.splits)
  have "set host \<subseteq> set rest"
    using rsplit_once_SomeD [OF r(3)] by auto
  then have "set (unbracket host) \<inter> set ''@/?#'' = {}"
    using r(1,2) unbracket_subset [of host] by (auto simp: find_None_iff)
  then show "host_ok (px_host p)"
    using r(4,7) by (simp add: host_ok_def)
  have "n \<le> 65535"
    using parse_unsigned_le [OF r(5)] .
  then have "unat (of_nat n :: u16) = n"
    by (simp add: unat_of_nat)
  then show "px_port p \<noteq> 0"
    using r(6,7) by auto
qed

lemma parse_display:
  assumes "host_ok (px_host p)" "px_port p \<noteq> 0"
  shows "proxy_parse (proxy_display p) = Inr p \<longleftrightarrow> CHR '':'' \<in> set (px_host p) \<or> hd (px_host p) \<noteq> CHR ''[''"
proof -
  let ?h = "if CHR '':'' \<in> set (px_host p) then ''['' @ px_host p @ '']'' else px_host p" and ?n = "unat (px_port p)"
  let ?rest = "?h @ '':'' @ show_nat ?n"
  have "?n < 2 ^ LENGTH(16)"
    by (rule unsigned_less)
  then have port: "?n \<le> 65535" "?n \<noteq> 0"
    using assms(2) by (simp_all add: unat_eq_0)
  have digits: "set (show_nat ?n) \<inter> set ''@/?#'' = {}"
    using punctuation_no_digit show_nat_digits [of ?n] unfolding all_digits_def list_all_iff by blast
  have plain: "CHR ''@'' \<notin> set ?rest" "List.find (\<lambda>c. c \<in> set ''/?#'') ?rest = None"
    using assms(1) digits by (auto simp: host_ok_def find_None_iff)
  have "proxy_display p = ''socks5://'' @ ?rest"
    unfolding proxy_display_def by (rule refl)
  then have "split_once_str ''://'' (proxy_display p) = Some (''socks5'', ?rest)"
    by (metis scheme_split)
  then have "proxy_parse (proxy_display p) = parse_address (proxy_display p) ?rest"
    unfolding proxy_parse_def Let_def trim_display using plain by (simp only: option.case prod.case) simp
  also have "\<dots> = (if unbracket ?h = [] then Inl (EmptyHost (proxy_display p)) else Inr \<lparr>px_host = unbracket ?h, px_port = px_port p\<rparr>)"
    using port rsplit_once_append [OF show_nat_no_colon, of ?h ?n] by (simp add: parse_address_def Let_def)
  finally have parse: "proxy_parse (proxy_display p) = Inr p \<longleftrightarrow> unbracket ?h = px_host p"
    using assms(1) by (cases p) (auto simp: host_ok_def)
  obtain c h where ch: "px_host p = c # h"
    using assms(1) by (cases "px_host p") (auto simp: host_ok_def)
  have "length (unbracket (CHR ''['' # h)) \<le> length h"
    using strip_suffix_SomeD [of "'']''" h] by (auto simp: unbracket_def strip_prefix_def starts_with_def split: option.split)
  then have "unbracket (CHR ''['' # h) \<noteq> CHR ''['' # h"
    by auto
  moreover have "c \<noteq> CHR ''['' \<Longrightarrow> unbracket (c # h) = c # h"
    by (simp add: unbracket_def strip_prefix_def starts_with_def)
  ultimately have "unbracket (px_host p) = px_host p \<longleftrightarrow> c \<noteq> CHR ''[''"
    unfolding ch by blast
  moreover have "unbracket (''['' @ px_host p @ '']'') = px_host p"
    using strip_suffix_append [of "'']''" "px_host p"] by (simp add: unbracket_def strip_prefix_def starts_with_def)
  ultimately show ?thesis
    unfolding parse by (simp add: ch)
qed

text \<open>The canonical form of a proxy reads back as the same proxy, as showing and reloading a configuration needs, for every
  proxy that was read, except one: a host with no colon that itself begins with a bracket.\<close>

theorem proxy_roundtrip:
  assumes "proxy_parse t = Inr p"
  shows "proxy_parse (proxy_display p) = Inr p \<longleftrightarrow> CHR '':'' \<in> set (px_host p) \<or> hd (px_host p) \<noteq> CHR ''[''"
  using parse_display [OF proxy_parse_Inr [OF assms]] .

theorem proxy_roundtrip_witness:
  "proxy_parse (proxy_display \<lparr>px_host = ''::1'', px_port = 9050\<rparr>) = Inr \<lparr>px_host = ''::1'', px_port = 9050\<rparr> \<and>
   proxy_parse (proxy_display \<lparr>px_host = ''[x'', px_port = 9050\<rparr>) \<noteq> Inr \<lparr>px_host = ''[x'', px_port = 9050\<rparr>"
proof -
  have "proxy_parse ''socks5h://[::1]:9050'' = Inr \<lparr>px_host = ''::1'', px_port = 9050\<rparr>"
    "proxy_parse ''socks5://[[x:9050'' = Inr \<lparr>px_host = ''[x'', px_port = 9050\<rparr>"
    by (simp_all add: proxy_parse_def parse_address_def unbracket_def trim_def trim_start_def trim_end_def is_whitespace_def
        strip_prefix_def strip_suffix_def starts_with_def rsplit_once_def parse_unsigned_def all_digits_def is_ascii_digit_def
        digits_value_def to_digit_def)
  from this [THEN proxy_roundtrip] show ?thesis
    by simp
qed

end
