(* ===== verification/Account_Binding.thy ===== *)
theory Account_Binding
  imports Network Seed_Lock
begin

text \<open>
  Which account a wallet serves: the key file \<open>keys.toml\<close> (\<open>src/wallet/store.rs\<close>), the check of the database's
  account against the viewing key pinned there (\<open>src/wallet/binding.rs\<close>), and the two places the actor runs it
  (\<open>src/wallet/actor.rs\<close>), at startup and when it rebuilds the account of an empty database.  The text encoding of the
  key file, the encryption of the mnemonic, key derivation and the wallet database are libraries: a key file is its
  fields, or unreadable.
\<close>

section \<open>The key file\<close>

record store_encoding =
  se_mnemonic :: "string option"
  se_network :: "string option"
  se_birthday :: "u32 option"
  se_encryption :: "string option"
  se_ufvk :: "string option"

record wallet_store =
  ws_network :: z_network
  ws_birthday :: block_height
  ws_seed_ciphertext :: "string option"
  ws_encrypted :: bool
  ws_pinned_ufvk :: "string option"

type_synonym keys_file = "(string + store_encoding) option"

datatype store_error =
    KeysMissing
  | KeysUnreadable string
  | KeysExist
  | KeysIo string
  | KeysNetwork network_error
  | UnknownNu5

definition ENC_PASSPHRASE :: string where "ENC_PASSPHRASE = ''passphrase''"

text \<open>Which steps of a write succeed.\<close>

record write_io =
  wi_open :: bool
  wi_write :: bool
  wi_rename :: bool

definition write_keys_atomic :: "write_io \<Rightarrow> store_encoding \<Rightarrow> bool \<Rightarrow> keys_file \<Rightarrow> (store_error + unit) \<times> keys_file" where
  "write_keys_atomic io enc create_new f =
     (if create_new then
        (if f \<noteq> None then (Inl KeysExist, f)
         else if \<not> wi_open io then (Inl (KeysIo ''creating''), f)
         else if \<not> wi_write io then (Inl (KeysIo ''writing''), Some (Inl ''truncated''))
         else (Inr (), Some (Inr enc)))
      else if \<not> wi_open io \<or> \<not> wi_write io then (Inl (KeysIo ''writing''), f)
      else if \<not> wi_rename io then (Inl (KeysIo ''replacing''), f)
      else (Inr (), Some (Inr enc)))"

definition fresh_encoding :: "string option \<Rightarrow> block_height \<Rightarrow> z_network \<Rightarrow> string option \<Rightarrow> string \<Rightarrow> store_encoding" where
  "fresh_encoding mnemonic birthday network encryption ufvk =
     \<lparr>se_mnemonic = mnemonic, se_network = Some (network_name network), se_birthday = Some birthday,
      se_encryption = encryption, se_ufvk = Some ufvk\<rparr>"

text \<open>The three ways to create a key file; the ciphertexts come from the encryption library, which may fail.\<close>

definition init_with_mnemonic where
  "init_with_mnemonic io ciphertext birthday network ufvk f =
     (case ciphertext of
        Inl e \<Rightarrow> (Inl (KeysIo e), f)
      | Inr ct \<Rightarrow> write_keys_atomic io (fresh_encoding (Some ct) birthday network None ufvk) True f)"

definition init_with_passphrase where
  "init_with_passphrase io ciphertext birthday network ufvk f =
     (case ciphertext of
        Inl e \<Rightarrow> (Inl (KeysIo e), f)
      | Inr ct \<Rightarrow> write_keys_atomic io (fresh_encoding (Some ct) birthday network (Some ENC_PASSPHRASE) ufvk) True f)"

definition init_view_only where
  "init_view_only io birthday network ufvk f =
     write_keys_atomic io (fresh_encoding None birthday network None ufvk) True f"

definition view_only_placeholder :: "z_network \<Rightarrow> block_height \<Rightarrow> wallet_store" where
  "view_only_placeholder network birthday =
     \<lparr>ws_network = network, ws_birthday = birthday, ws_seed_ciphertext = None, ws_encrypted = False, ws_pinned_ufvk = None\<rparr>"

definition open_keys :: "keys_file \<Rightarrow> store_error + store_encoding" where
  "open_keys f = (case f of None \<Rightarrow> Inl KeysMissing | Some (Inl e) \<Rightarrow> Inl (KeysUnreadable e) | Some (Inr enc) \<Rightarrow> Inr enc)"

definition pin_ufvk :: "write_io \<Rightarrow> string \<Rightarrow> keys_file \<Rightarrow> (store_error + unit) \<times> keys_file" where
  "pin_ufvk io ufvk f =
     (case open_keys f of
        Inl e \<Rightarrow> (Inl e, f)
      | Inr enc \<Rightarrow>
          if se_ufvk enc = Some ufvk then (Inr (), f)
          else write_keys_atomic io (enc\<lparr>se_ufvk := Some ufvk\<rparr>) False f)"

text \<open>A missing birthday defaults to the activation of NU5; a network without one is a panic of the program.\<close>

definition store_read :: "protocol_crate \<Rightarrow> environment \<Rightarrow> keys_file \<Rightarrow> store_error + wallet_store" where
  "store_read pc env f =
     sum_bind (open_keys f) (\<lambda>enc.
     sum_bind (case se_network enc of
         None \<Rightarrow> Inr Test
       | Some s \<Rightarrow> (case network_parse env s of Inl e \<Rightarrow> Inl (KeysNetwork e) | Inr n \<Rightarrow> Inr n)) (\<lambda>network.
     sum_bind (case se_birthday enc of
         Some b \<Rightarrow> Inr b
       | None \<Rightarrow> (case activation_height pc network Nu5 of Some h \<Rightarrow> Inr h | None \<Rightarrow> Inl UnknownNu5)) (\<lambda>birthday.
       Inr \<lparr>ws_network = network, ws_birthday = birthday, ws_seed_ciphertext = se_mnemonic enc,
            ws_encrypted = (se_encryption enc = Some ENC_PASSPHRASE), ws_pinned_ufvk = se_ufvk enc\<rparr>)))"

definition has_seed :: "wallet_store \<Rightarrow> bool" where
  "has_seed st \<longleftrightarrow> ws_seed_ciphertext st \<noteq> None"

section \<open>The binding check\<close>

datatype bind_error = BindingMismatch string string | PinFailed store_error

definition verify_or_pin_account :: "write_io \<Rightarrow> string option \<Rightarrow> string \<Rightarrow> keys_file \<Rightarrow> (bind_error + unit) \<times> keys_file" where
  "verify_or_pin_account io pinned account_ufvk f =
     (case pinned of
        Some p \<Rightarrow> if p = account_ufvk then (Inr (), f) else (Inl (BindingMismatch p account_ufvk), f)
      | None \<Rightarrow> (case pin_ufvk io account_ufvk f of (Inl e, f) \<Rightarrow> (Inl (PinFailed e), f) | (Inr _, f) \<Rightarrow> (Inr (), f)))"

section \<open>Accounts of the database\<close>

record db_account =
  da_ufvk :: "string option"
  da_index :: "u32 option"
  da_view_only :: bool

type_synonym 'id account_db = "('id \<times> db_account option) list"

datatype start_error =
    StoreError store_error
  | AccountNotFound
  | NoViewingKey
  | PinnedKeyInvalid string
  | NothingToRebuildFrom
  | NoAccount
  | SeedDerivationFailed string
  | SeedMismatch
  | BindError bind_error

definition account_ufvk_encoded :: "'id account_db \<Rightarrow> 'id \<Rightarrow> start_error + string" where
  "account_ufvk_encoded db i =
     (case map_of db i of
        Some (Some a) \<Rightarrow> (case da_ufvk a of Some u \<Rightarrow> Inr u | None \<Rightarrow> Inl NoViewingKey)
      | _ \<Rightarrow> Inl AccountNotFound)"

definition try_select_account :: "'id account_db \<Rightarrow> start_error + ('id \<times> u32 option \<times> bool) option" where
  "try_select_account db =
     (case db of
        [] \<Rightarrow> Inr None
      | (i, _) # _ \<Rightarrow>
          (case map_of db i of
             Some (Some a) \<Rightarrow> Inr (Some (i, da_index a, da_view_only a))
           | _ \<Rightarrow> Inl AccountNotFound))"

section \<open>Starting an actor\<close>

datatype bootstrap_key = SeedKey | UfvkKey string

record 'id bound_actor =
  ba_account_id :: "'id option"
  ba_account_index :: "u32 option"
  ba_watch_only :: bool
  ba_pending_bootstrap :: "(block_height \<times> bootstrap_key) option"
  ba_seed :: "u8 list option"

record start_config =
  st_bootstrap :: bool
  st_auto_unlock :: bool
  st_age_identity :: bool

text \<open>
  What the libraries answer: decrypting the stored seed with the configured identity, the viewing key a seed derives at
  an index, whether a viewing key decodes, and creating an account from the seed or from a viewing key.
\<close>

record 'id binding_lib =
  bl_decrypt :: "wallet_store \<Rightarrow> string + u8 list option"
  bl_seed_ufvk :: "u8 list \<Rightarrow> u32 \<Rightarrow> string + string"
  bl_decodes :: "string \<Rightarrow> bool"
  bl_create :: "u8 list \<Rightarrow> 'id account_db \<Rightarrow> string + 'id account_db"
  bl_import :: "string \<Rightarrow> 'id account_db \<Rightarrow> string + 'id account_db"

definition choose_bootstrap_key :: "'id binding_lib \<Rightarrow> wallet_store \<Rightarrow> start_error + bootstrap_key" where
  "choose_bootstrap_key lib st =
     (if has_seed st then Inr SeedKey
      else case ws_pinned_ufvk st of
          Some pin \<Rightarrow> if bl_decodes lib pin then Inr (UfvkKey pin) else Inl (PinnedKeyInvalid pin)
        | None \<Rightarrow> Inl NothingToRebuildFrom)"

definition resolve_account :: "'id binding_lib \<Rightarrow> start_config \<Rightarrow> wallet_store \<Rightarrow> 'id account_db \<Rightarrow> start_error + 'id bound_actor" where
  "resolve_account lib cfg st db =
     sum_bind (try_select_account db) (\<lambda>r.
       case r of
         Some (i, index, view_only) \<Rightarrow>
           Inr \<lparr>ba_account_id = Some i, ba_account_index = index, ba_watch_only = view_only, ba_pending_bootstrap = None, ba_seed = None\<rparr>
       | None \<Rightarrow>
           sum_bind (choose_bootstrap_key lib st) (\<lambda>key.
             if \<not> st_bootstrap cfg then Inl NoAccount
             else Inr \<lparr>ba_account_id = None, ba_account_index = None, ba_watch_only = (key \<noteq> SeedKey),
                  ba_pending_bootstrap = Some (ws_birthday st, key), ba_seed = None\<rparr>))"

text \<open>The unlock at startup: the seed is checked against the account before it is kept.\<close>

definition auto_unlock :: "'id binding_lib \<Rightarrow> start_config \<Rightarrow> wallet_store \<Rightarrow> string option \<Rightarrow> 'id bound_actor \<Rightarrow> start_error + 'id bound_actor" where
  "auto_unlock lib cfg st account_ufvk a =
     (if ba_watch_only a \<or> ws_encrypted st \<or> \<not> st_auto_unlock cfg \<or> \<not> st_age_identity cfg \<or> \<not> has_seed st then Inr a
      else case bl_decrypt lib st of
          Inl _ \<Rightarrow> Inr a
        | Inr None \<Rightarrow> Inr a
        | Inr (Some seed) \<Rightarrow>
            (case (account_ufvk, ba_account_index a) of
               (Some expected, Some index) \<Rightarrow>
                 (case bl_seed_ufvk lib seed index of
                    Inl e \<Rightarrow> Inl (SeedDerivationFailed e)
                  | Inr derived \<Rightarrow> if derived \<noteq> expected then Inl SeedMismatch else Inr (a\<lparr>ba_seed := Some seed\<rparr>))
             | _ \<Rightarrow> Inr (a\<lparr>ba_seed := Some seed\<rparr>)))"

definition bind_account :: "write_io \<Rightarrow> wallet_store \<Rightarrow> string option \<Rightarrow> 'a \<Rightarrow> keys_file \<Rightarrow> (start_error + 'a) \<times> keys_file" where
  "bind_account io st account_ufvk a f =
     (case account_ufvk of
        None \<Rightarrow> (Inr a, f)
      | Some u \<Rightarrow>
          (case verify_or_pin_account io (ws_pinned_ufvk st) u f of
             (Inl e, f) \<Rightarrow> (Inl (BindError e), f)
           | (Inr _, f) \<Rightarrow> (Inr a, f)))"

definition spawn_wallet where
  "spawn_wallet lib pc env io cfg db f =
     (case store_read pc env f of
        Inl e \<Rightarrow> (Inl (StoreError e), f)
      | Inr st \<Rightarrow>
          (case resolve_account lib cfg st db of
             Inl e \<Rightarrow> (Inl e, f)
           | Inr a \<Rightarrow>
               (case (case ba_account_id a of None \<Rightarrow> Inr None | Some i \<Rightarrow> sum_bind (account_ufvk_encoded db i) (\<lambda>u. Inr (Some u))) of
                  Inl e \<Rightarrow> (Inl e, f)
                | Inr account_ufvk \<Rightarrow>
                    (case auto_unlock lib cfg st account_ufvk a of
                       Inl e \<Rightarrow> (Inl e, f)
                     | Inr a \<Rightarrow> bind_account io st account_ufvk a f))))"

section \<open>Rebuilding an account\<close>

text \<open>One attempt: the seed and the upstream it needs may be missing, then it is tried again later.\<close>

definition create_bootstrap_account :: "'id binding_lib \<Rightarrow> bootstrap_key \<Rightarrow> u8 list option \<Rightarrow> 'id account_db \<Rightarrow> (string + 'id account_db) option" where
  "create_bootstrap_account lib key seed db =
     (case key of
        SeedKey \<Rightarrow> (case seed of None \<Rightarrow> None | Some s \<Rightarrow> Some (bl_create lib s db))
      | UfvkKey u \<Rightarrow> Some (bl_import lib u db))"

definition adopt_account where
  "adopt_account pc env io db a f =
     (case try_select_account db of
        Inr (Some (i, index, view_only)) \<Rightarrow>
          (let unadopted = a\<lparr>ba_pending_bootstrap := None\<rparr>
           in case account_ufvk_encoded db i of
               Inl _ \<Rightarrow> (unadopted, f)
             | Inr u \<Rightarrow>
                 (case store_read pc env f of
                    Inl _ \<Rightarrow> (unadopted, f)
                  | Inr st \<Rightarrow>
                      (case verify_or_pin_account io (ws_pinned_ufvk st) u f of
                         (Inl _, f) \<Rightarrow> (unadopted, f)
                       | (Inr _, f) \<Rightarrow>
                           (a\<lparr>ba_account_id := Some i, ba_account_index := index, ba_watch_only := view_only, ba_pending_bootstrap := None\<rparr>, f))))
      | _ \<Rightarrow> (a, f))"

definition maybe_bootstrap_account where
  "maybe_bootstrap_account lib pc env io connected db a f =
     (case ba_pending_bootstrap a of
        None \<Rightarrow> (a, db, f)
      | Some (_, key) \<Rightarrow>
          if ba_account_id a \<noteq> None then (a\<lparr>ba_pending_bootstrap := None\<rparr>, db, f)
          else if \<not> connected then (a, db, f)
          else (case create_bootstrap_account lib key (ba_seed a) db of
              None \<Rightarrow> (a, db, f)
            | Some (Inl _) \<Rightarrow> (a, db, f)
            | Some (Inr db) \<Rightarrow> (case adopt_account pc env io db a f of (a, f) \<Rightarrow> (a, db, f))))"


section \<open>A wallet over its restarts\<close>

text \<open>
  The key file, the database and the actor, if it runs.  Whoever can write the data directory may replace the database
  while the wallet is stopped; the configuration and the libraries may answer differently at every step.
\<close>

record 'id wallet_node =
  wn_keys :: keys_file
  wn_db :: "'id account_db"
  wn_actor :: "'id bound_actor option"

datatype 'id node_event =
    StartWallet "'id binding_lib" write_io start_config
  | StopWallet
  | BootstrapPass "'id binding_lib" write_io bool
  | SeedUnlocked "u8 list"
  | ReplaceDatabase "'id account_db"

fun node_step :: "protocol_crate \<Rightarrow> environment \<Rightarrow> 'id node_event \<Rightarrow> 'id wallet_node \<Rightarrow> 'id wallet_node" where
  "node_step pc env (StartWallet lib io cfg) n =
     (if wn_actor n \<noteq> None then n
      else case spawn_wallet lib pc env io cfg (wn_db n) (wn_keys n) of
          (Inl _, f) \<Rightarrow> n\<lparr>wn_keys := f\<rparr>
        | (Inr a, f) \<Rightarrow> n\<lparr>wn_keys := f, wn_actor := Some a\<rparr>)"
| "node_step pc env StopWallet n = n\<lparr>wn_actor := None\<rparr>"
| "node_step pc env (BootstrapPass lib io connected) n =
     (case wn_actor n of
        None \<Rightarrow> n
      | Some a \<Rightarrow>
          (case maybe_bootstrap_account lib pc env io connected (wn_db n) a (wn_keys n) of
             (a, db, f) \<Rightarrow> n\<lparr>wn_actor := Some a, wn_db := db, wn_keys := f\<rparr>))"
| "node_step pc env (SeedUnlocked seed) n = n\<lparr>wn_actor := map_option (\<lambda>a. a\<lparr>ba_seed := Some seed\<rparr>) (wn_actor n)\<rparr>"
| "node_step pc env (ReplaceDatabase db) n = (if wn_actor n = None then n\<lparr>wn_db := db\<rparr> else n)"

definition node_run where
  "node_run pc env evs n = fold (node_step pc env) evs n"

definition bound_to :: "store_encoding \<Rightarrow> string \<Rightarrow> 'id wallet_node \<Rightarrow> bool" where
  "bound_to enc u n \<longleftrightarrow> wn_keys n = Some (Inr enc) \<and>
     (\<forall>a i. wn_actor n = Some a \<and> ba_account_id a = Some i \<longrightarrow> account_ufvk_encoded (wn_db n) i = Inr u)"

lemma verify_pinned: "verify_or_pin_account io (Some u) v f = (r, f') \<Longrightarrow> f' = f \<and> (r = Inr () \<longrightarrow> v = u)"
  by (auto simp: verify_or_pin_account_def split: if_splits)

lemma store_read_pin: "store_read pc env (Some (Inr enc)) = Inr st \<Longrightarrow> ws_pinned_ufvk st = se_ufvk enc"
  by (auto simp: store_read_def open_keys_def sum_bind_Inr)

lemma auto_unlock_account:
  "auto_unlock lib cfg st u a = Inr a' \<Longrightarrow> ba_account_id a' = ba_account_id a \<and> ba_account_index a' = ba_account_index a \<and>
     ba_watch_only a' = ba_watch_only a"
  by (auto simp: auto_unlock_def split: if_splits sum.splits option.splits prod.splits)

lemma bind_account_pinned:
  assumes "bind_account io st u a f = (r, f')" "ws_pinned_ufvk st = Some p"
  shows "f' = f" "r = Inr a' \<Longrightarrow> a' = a \<and> (u = None \<or> u = Some p)"
  using assms by (auto simp: bind_account_def split: option.splits sum.splits prod.splits dest!: verify_pinned)

text \<open>How a start that succeeds went.\<close>

lemma spawn_steps:
  assumes "spawn_wallet lib pc env io cfg db f = (Inr a, f')"
  obtains st a0 u where "store_read pc env f = Inr st" "resolve_account lib cfg st db = Inr a0"
    "(case ba_account_id a0 of None \<Rightarrow> Inr None | Some i \<Rightarrow> sum_bind (account_ufvk_encoded db i) (\<lambda>u. Inr (Some u))) = Inr u"
    "auto_unlock lib cfg st u a0 = Inr a" "bind_account io st u a f = (Inr a, f')"
proof -
  obtain st where st: "store_read pc env f = Inr st"
    using assms by (cases "store_read pc env f") (auto simp: spawn_wallet_def)
  obtain a0 where a0: "resolve_account lib cfg st db = Inr a0"
    using assms st by (cases "resolve_account lib cfg st db") (auto simp: spawn_wallet_def)
  define r where "r = (case ba_account_id a0 of None \<Rightarrow> Inr None | Some i \<Rightarrow> sum_bind (account_ufvk_encoded db i) (\<lambda>u. Inr (Some u)))"
  obtain u where u: "r = Inr u"
    using assms st a0 by (cases r) (auto simp: spawn_wallet_def r_def)
  obtain a1 where a1: "auto_unlock lib cfg st u a0 = Inr a1"
    using assms st a0 u by (cases "auto_unlock lib cfg st u a0") (auto simp: spawn_wallet_def r_def)
  then have b: "bind_account io st u a1 f = (Inr a, f')"
    using assms st a0 u by (simp add: spawn_wallet_def r_def)
  then have "a1 = a"
    by (auto simp: bind_account_def split: option.splits sum.splits prod.splits)
  with st a0 u a1 b show thesis
    unfolding r_def by (intro that) simp_all
qed

lemma spawn_keys:
  assumes "spawn_wallet lib pc env io cfg db (Some (Inr enc)) = (r, f')" "se_ufvk enc = Some p"
  shows "f' = Some (Inr enc)"
  using assms unfolding spawn_wallet_def
  by (auto split: sum.splits dest!: bind_account_pinned(1) simp: store_read_pin)

lemma spawn_account:
  assumes "spawn_wallet lib pc env io cfg db (Some (Inr enc)) = (Inr a, f')" "se_ufvk enc = Some p" "ba_account_id a = Some i"
  shows "account_ufvk_encoded db i = Inr p"
proof -
  from assms(1) show ?thesis
  proof (rule spawn_steps)
    fix st a0 u
    assume st: "store_read pc env (Some (Inr enc)) = Inr st"
      and u: "(case ba_account_id a0 of None \<Rightarrow> Inr None | Some i \<Rightarrow> sum_bind (account_ufvk_encoded db i) (\<lambda>u. Inr (Some u))) = Inr u"
      and un: "auto_unlock lib cfg st u a0 = Inr a" and b: "bind_account io st u a (Some (Inr enc)) = (Inr a, f')"
    have "ba_account_id a0 = Some i"
      using auto_unlock_account [OF un] assms(3) by simp
    then obtain v where v: "account_ufvk_encoded db i = Inr v" "u = Some v"
      using u by (auto simp: sum_bind_Inr)
    have "ws_pinned_ufvk st = Some p"
      using store_read_pin [OF st] assms(2) by simp
    from bind_account_pinned(2) [OF b this refl] show ?thesis
      using v by simp
  qed
qed

lemma adopt_pinned:
  assumes "adopt_account pc env io db a (Some (Inr enc)) = (a', f')" "se_ufvk enc = Some p" "ba_account_id a = None"
  shows "f' = Some (Inr enc)" "ba_account_id a' = Some i \<Longrightarrow> account_ufvk_encoded db i = Inr p"
  using assms unfolding adopt_account_def
  by (auto simp: Let_def store_read_pin split: sum.splits option.splits prod.splits dest!: verify_pinned)

lemma bootstrap_pinned:
  assumes "maybe_bootstrap_account lib pc env io connected db a (Some (Inr enc)) = (a', db', f')" "se_ufvk enc = Some p"
    and "ba_account_id a = Some i \<longrightarrow> account_ufvk_encoded db i = Inr p"
  shows "f' = Some (Inr enc)" "ba_account_id a' = Some i \<Longrightarrow> account_ufvk_encoded db' i = Inr p"
  using assms unfolding maybe_bootstrap_account_def
  by (auto split: option.splits sum.splits prod.splits if_splits dest: adopt_pinned)

lemma node_step_bound:
  assumes "bound_to enc u n" "se_ufvk enc = Some u"
  shows "bound_to enc u (node_step pc env ev n)"
proof (cases ev)
  case (StartWallet lib io cfg)
  then show ?thesis
    using assms spawn_keys [OF _ assms(2)] spawn_account [OF _ assms(2)]
    by (cases "spawn_wallet lib pc env io cfg (wn_db n) (wn_keys n)") (fastforce simp: bound_to_def split: sum.split)
next
  case (BootstrapPass lib io connected)
  show ?thesis
  proof (cases "wn_actor n")
    case (Some a)
    obtain a' db f where m: "maybe_bootstrap_account lib pc env io connected (wn_db n) a (Some (Inr enc)) = (a', db, f)"
      by (metis prod_cases3)
    have pre: "ba_account_id a = Some i \<longrightarrow> account_ufvk_encoded (wn_db n) i = Inr u" for i
      using assms(1) Some by (simp add: bound_to_def)
    show ?thesis
      using assms(1) bootstrap_pinned [OF m assms(2) pre] Some m by (simp add: bound_to_def BootstrapPass)
  qed (use assms BootstrapPass in simp)
qed (use assms in \<open>auto simp: bound_to_def\<close>)

text \<open>C8. A wallet whose key file pins a viewing key only ever serves the account of that key.  Over any sequence of starts
  and stops, account rebuilds and unlocks, with the database replaced by anything while the wallet is stopped and
  whatever the libraries and the file system answer: the account an actor serves has the pinned viewing key in the
  database it serves from, and the key file is unchanged.\<close>

theorem served_account_is_pinned:
  assumes "se_ufvk enc = Some u" "n = node_run pc env evs \<lparr>wn_keys = Some (Inr enc), wn_db = db, wn_actor = None\<rparr>"
  shows "wn_keys n = Some (Inr enc) \<and>
    (\<forall>a i. wn_actor n = Some a \<and> ba_account_id a = Some i \<longrightarrow> account_ufvk_encoded (wn_db n) i = Inr u)"
proof -
  have all: "bound_to enc u (fold (node_step pc env) evs m)" if "bound_to enc u m" for m :: "'a wallet_node"
    using that by (induction evs arbitrary: m) (simp_all add: node_step_bound [OF _ assms(1)])
  have "bound_to enc u \<lparr>wn_keys = Some (Inr enc), wn_db = db, wn_actor = None\<rparr>"
    by (simp add: bound_to_def)
  from all [OF this] have "bound_to enc u n"
    unfolding assms(2) node_run_def .
  then show ?thesis
    unfolding bound_to_def .
qed


section \<open>The first pin\<close>

lemma resolve_account_some:
  assumes "resolve_account lib cfg st db = Inr a" "ba_account_id a = Some i"
  shows "\<exists>acc. map_of db i = Some (Some acc) \<and> ba_account_index a = da_index acc \<and> ba_watch_only a = da_view_only acc"
  using assms by (auto simp: resolve_account_def try_select_account_def sum_bind_Inr split: list.splits option.splits if_splits)

lemma pin_unpinned:
  assumes "pin_ufvk io v (Some (Inr enc)) = (Inr (), f')" "se_ufvk enc = None"
  shows "f' = Some (Inr (enc\<lparr>se_ufvk := Some v\<rparr>))"
  using assms by (auto simp: pin_ufvk_def open_keys_def write_keys_atomic_def split: if_splits)

lemma auto_unlock_seed:
  assumes "auto_unlock lib cfg st (Some v) a0 = Inr a" "ba_seed a0 = None" "ba_seed a = Some seed" "ba_account_index a = Some k"
  shows "bl_seed_ufvk lib seed k = Inr v"
  using assms by (auto simp: auto_unlock_def split: if_splits sum.splits option.splits)

text \<open>A key file without a pin gets one at the first start that serves an account: the account's viewing key, with every
  other field, the encrypted mnemonic above all, as it was.  When that start also unlocked a seed and the account
  says at which index it derives, the seed derives the key that is pinned.\<close>

theorem first_start_pins:
  assumes start: "spawn_wallet lib pc env io cfg db (Some (Inr enc)) = (Inr a, f')" and unpinned: "se_ufvk enc = None"
    and account: "ba_account_id a = Some i"
  shows "\<exists>v. account_ufvk_encoded db i = Inr v \<and> f' = Some (Inr (enc\<lparr>se_ufvk := Some v\<rparr>)) \<and>
    (\<forall>seed k. ba_seed a = Some seed \<and> ba_account_index a = Some k \<longrightarrow> bl_seed_ufvk lib seed k = Inr v)"
  using start
proof (rule spawn_steps)
  fix st a0 u
  assume st: "store_read pc env (Some (Inr enc)) = Inr st" and a0: "resolve_account lib cfg st db = Inr a0"
    and u: "(case ba_account_id a0 of None \<Rightarrow> Inr None | Some i \<Rightarrow> sum_bind (account_ufvk_encoded db i) (\<lambda>u. Inr (Some u))) = Inr u"
    and un: "auto_unlock lib cfg st u a0 = Inr a" and b: "bind_account io st u a (Some (Inr enc)) = (Inr a, f')"
  have "ba_account_id a0 = Some i"
    using auto_unlock_account [OF un] account by simp
  then obtain v where v: "account_ufvk_encoded db i = Inr v" "u = Some v"
    using u by (auto simp: sum_bind_Inr)
  have "ws_pinned_ufvk st = None"
    using store_read_pin [OF st] unpinned by simp
  then have "pin_ufvk io v (Some (Inr enc)) = (Inr (), f')"
    using b v(2) by (auto simp: bind_account_def verify_or_pin_account_def split: prod.splits sum.splits)
  from pin_unpinned [OF this unpinned] have "f' = Some (Inr (enc\<lparr>se_ufvk := Some v\<rparr>))" .
  moreover have "ba_seed a0 = None"
    using a0 by (auto simp: resolve_account_def sum_bind_Inr split: option.splits if_splits)
  ultimately show ?thesis
    using v auto_unlock_seed [OF un [unfolded v(2)]] by blast
qed

text \<open>C40. The seed does not veto the first pin of a view-only account.  With an unpinned key file that holds a seed, and a
  database whose account is an imported viewing key of someone else, the start succeeds without looking at the seed
  and pins the foreign key; and because the account has no derivation index, no later unlock checks it either.\<close>

theorem foreign_view_account_pinned:
  assumes "store_read pc env (Some (Inr enc)) = Inr st" "se_ufvk enc = None"
    and "io = \<lparr>wi_open = True, wi_write = True, wi_rename = True\<rparr>"
    and "db = [(i, Some \<lparr>da_ufvk = Some foreign, da_index = None, da_view_only = True\<rparr>)]"
  shows "\<exists>a. spawn_wallet lib pc env io cfg db (Some (Inr enc)) = (Inr a, Some (Inr (enc\<lparr>se_ufvk := Some foreign\<rparr>))) \<and>
    ba_account_id a = Some i \<and> (\<forall>clib cu seed. cu_account_index cu = ba_account_index a \<longrightarrow> check_seed_binding clib cu seed = Inr ())"
proof -
  have pin: "ws_pinned_ufvk st = None"
    using store_read_pin [OF assms(1)] assms(2) by simp
  have "spawn_wallet lib pc env io cfg db (Some (Inr enc)) =
      (Inr \<lparr>ba_account_id = Some i, ba_account_index = None, ba_watch_only = True, ba_pending_bootstrap = None, ba_seed = None\<rparr>,
       Some (Inr (enc\<lparr>se_ufvk := Some foreign\<rparr>)))"
    using pin by (simp add: spawn_wallet_def assms resolve_account_def try_select_account_def account_ufvk_encoded_def auto_unlock_def
        bind_account_def verify_or_pin_account_def pin_ufvk_def open_keys_def write_keys_atomic_def)
  then show ?thesis
    by (auto simp: check_seed_binding_def split: option.split)
qed

text \<open>A key file reads back as it was created, whichever of the three kinds of wallet it is for, on every network whose name
  reads back as that network.\<close>

theorem keys_roundtrip:
  assumes "network_parse env (network_name network) = Inr network"
    and "io = \<lparr>wi_open = True, wi_write = True, wi_rename = True\<rparr>"
  shows "store_read pc env (snd (init_with_passphrase io (Inr ct) birthday network ufvk None)) =
      Inr \<lparr>ws_network = network, ws_birthday = birthday, ws_seed_ciphertext = Some ct, ws_encrypted = True, ws_pinned_ufvk = Some ufvk\<rparr> \<and>
    store_read pc env (snd (init_with_mnemonic io (Inr ct) birthday network ufvk None)) =
      Inr \<lparr>ws_network = network, ws_birthday = birthday, ws_seed_ciphertext = Some ct, ws_encrypted = False, ws_pinned_ufvk = Some ufvk\<rparr> \<and>
    store_read pc env (snd (init_view_only io birthday network ufvk None)) =
      Inr \<lparr>ws_network = network, ws_birthday = birthday, ws_seed_ciphertext = None, ws_encrypted = False, ws_pinned_ufvk = Some ufvk\<rparr>"
  using assms by (simp add: init_with_passphrase_def init_with_mnemonic_def init_view_only_def write_keys_atomic_def fresh_encoding_def
      store_read_def open_keys_def)

section \<open>A small wallet directory\<close>

definition plain_binding_lib :: "nat binding_lib" where
  "plain_binding_lib = \<lparr>bl_decrypt = (\<lambda>_. Inr (Some [7])), bl_seed_ufvk = (\<lambda>_ _. Inr ''uview1own''), bl_decodes = (\<lambda>_. True),
     bl_create = (\<lambda>_ db. Inr (db @ [(0, Some \<lparr>da_ufvk = Some ''uview1own'', da_index = Some 0, da_view_only = False\<rparr>)])),
     bl_import = (\<lambda>u db. Inr (db @ [(0, Some \<lparr>da_ufvk = Some u, da_index = None, da_view_only = True\<rparr>)]))\<rparr>"

definition own_keys :: "string option \<Rightarrow> store_encoding" where
  "own_keys pin = \<lparr>se_mnemonic = Some ''armored'', se_network = Some ''main'', se_birthday = Some 5, se_encryption = None, se_ufvk = pin\<rparr>"

lemma own_keys_simps [simp]: "se_ufvk (own_keys pin) = pin" "(own_keys pin)\<lparr>se_ufvk := p\<rparr> = own_keys p"
  by (simp_all add: own_keys_def)

definition writes :: write_io where "writes = \<lparr>wi_open = True, wi_write = True, wi_rename = True\<rparr>"

definition unattended :: start_config where
  "unattended = \<lparr>st_bootstrap = True, st_auto_unlock = True, st_age_identity = True\<rparr>"

definition no_upgrades :: protocol_crate where
  "no_upgrades = \<lparr>main_activation = (\<lambda>_. None), test_activation = (\<lambda>_. None), local_activation = (\<lambda>_ _. None), branch_id_of = (\<lambda>_. 0)\<rparr>"

lemma parse_main: "network_parse env ''main'' = Inr Main"
proof -
  have "trim ''main'' = ''main''"
    by (rule trim_id) (simp add: is_whitespace_def)
  then show ?thesis
    by (simp add: network_parse_def)
qed

lemma read_own_keys: "store_read no_upgrades (\<lambda>_. None) (Some (Inr (own_keys pin))) =
    Inr \<lparr>ws_network = Main, ws_birthday = 5, ws_seed_ciphertext = Some ''armored'', ws_encrypted = False, ws_pinned_ufvk = pin\<rparr>"
  by (simp add: store_read_def open_keys_def own_keys_def parse_main ENC_PASSPHRASE_def)

theorem keys_roundtrip_witness:
  "store_read no_upgrades (\<lambda>_. None) (snd (init_with_passphrase writes (Inr ''armored'') 5 Main ''uview1own'' None)) =
     Inr \<lparr>ws_network = Main, ws_birthday = 5, ws_seed_ciphertext = Some ''armored'', ws_encrypted = True, ws_pinned_ufvk = Some ''uview1own''\<rparr>"
  by (rule keys_roundtrip [THEN conjunct1]) (simp_all add: parse_main writes_def)

theorem served_account_is_pinned_witness:
  "\<exists>n a. n = node_run no_upgrades (\<lambda>_. None)
       [StartWallet plain_binding_lib writes unattended, BootstrapPass plain_binding_lib writes True]
       \<lparr>wn_keys = Some (Inr (own_keys (Some ''uview1own''))), wn_db = [], wn_actor = None\<rparr> \<and>
     wn_actor n = Some a \<and> ba_account_id a = Some 0 \<and> account_ufvk_encoded (wn_db n) 0 = Inr ''uview1own''"
proof -
  define n where "n = node_run no_upgrades (\<lambda>_. None)
       [StartWallet plain_binding_lib writes unattended, BootstrapPass plain_binding_lib writes True]
       \<lparr>wn_keys = Some (Inr (own_keys (Some ''uview1own''))), wn_db = [], wn_actor = None\<rparr>"
  have "\<exists>a. wn_actor n = Some a \<and> ba_account_id a = Some 0"
    by (simp add: n_def node_run_def spawn_wallet_def read_own_keys resolve_account_def try_select_account_def choose_bootstrap_key_def
        has_seed_def unattended_def auto_unlock_def plain_binding_lib_def bind_account_def maybe_bootstrap_account_def
        create_bootstrap_account_def adopt_account_def account_ufvk_encoded_def verify_or_pin_account_def Let_def)
  then show ?thesis
    using served_account_is_pinned [OF _ n_def, of "''uview1own''"] n_def by (auto simp: own_keys_def)
qed

theorem first_start_pins_witness:
  "\<exists>a f'. spawn_wallet plain_binding_lib no_upgrades (\<lambda>_. None) writes unattended
       [(0, Some \<lparr>da_ufvk = Some ''uview1own'', da_index = Some 0, da_view_only = False\<rparr>)] (Some (Inr (own_keys None))) = (Inr a, f') \<and>
     f' = Some (Inr (own_keys (Some ''uview1own'')))"
proof -
  let ?db = "[(0, Some \<lparr>da_ufvk = Some ''uview1own'', da_index = Some 0, da_view_only = False\<rparr>)]"
  have "\<exists>a f'. spawn_wallet plain_binding_lib no_upgrades (\<lambda>_. None) writes unattended ?db (Some (Inr (own_keys None))) = (Inr a, f') \<and> ba_account_id a = Some 0"
    by (simp add: spawn_wallet_def read_own_keys resolve_account_def try_select_account_def has_seed_def unattended_def auto_unlock_def
        plain_binding_lib_def bind_account_def account_ufvk_encoded_def verify_or_pin_account_def pin_ufvk_def open_keys_def
        write_keys_atomic_def writes_def)
  then obtain a f' where a: "spawn_wallet plain_binding_lib no_upgrades (\<lambda>_. None) writes unattended ?db (Some (Inr (own_keys None))) = (Inr a, f')"
      "ba_account_id a = Some 0"
    by blast
  from first_start_pins [OF a(1) _ a(2)] a(1) show ?thesis
    by (auto simp: account_ufvk_encoded_def)
qed

theorem foreign_view_account_pinned_witness:
  "\<exists>a. spawn_wallet plain_binding_lib no_upgrades (\<lambda>_. None) writes unattended
       [(0, Some \<lparr>da_ufvk = Some ''uview1foreign'', da_index = None, da_view_only = True\<rparr>)] (Some (Inr (own_keys None))) =
     (Inr a, Some (Inr (own_keys (Some ''uview1foreign''))))"
  using foreign_view_account_pinned [OF read_own_keys _ writes_def refl, where foreign = "''uview1foreign''" and lib = plain_binding_lib
      and cfg = unattended and i = 0]
  by auto

end
