(* ===== verification/Health.thy ===== *)
theory Health
  imports Enhance Rpc_Server
begin

text \<open>
  The health endpoints, \<open>src/health.rs\<close>: whether a wallet is ready under the configured mode, the snapshot over all
  loaded wallets, and the answer of the readiness probe.  Of the JSON of the snapshot the flags are kept.
\<close>

section \<open>Configuration and status\<close>

datatype readiness_mode = Synced | Scanned | Connected

fun readiness_as_str :: "readiness_mode \<Rightarrow> string" where
  "readiness_as_str Synced = ''synced''"
| "readiness_as_str Scanned = ''scanned''"
| "readiness_as_str Connected = ''connected''"

definition readiness_parse :: "string \<Rightarrow> readiness_mode option" where
  "readiness_parse s =
     (if s = ''synced'' then Some Synced else if s = ''scanned'' then Some Scanned
      else if s = ''connected'' then Some Connected else None)"

record health_config =
  hc_readiness :: readiness_mode
  hc_max_scan_lag :: u32

record wallet_status = sync_status +
  st_birthday :: "u32 option"
  st_encrypted :: bool
  st_unlocked_until :: "nat option"

section \<open>One wallet\<close>

definition scan_lag :: "wallet_status \<Rightarrow> u32 option" where
  "scan_lag st =
     (case (st_chain_tip st, st_fully_scanned st) of
        (Some tip, Some scanned) \<Rightarrow> Some (saturating_sub tip scanned)
      | _ \<Rightarrow> None)"

definition wallet_ready :: "health_config \<Rightarrow> wallet_status \<Rightarrow> bool" where
  "wallet_ready cfg st \<longleftrightarrow>
     st_connected st \<and> st_upstream_refusal st = None \<and>
     (case hc_readiness cfg of
        Synced \<Rightarrow> (case (st_chain_tip st, st_fully_scanned st) of
            (Some tip, Some scanned) \<Rightarrow> saturating_sub tip scanned \<le> hc_max_scan_lag cfg \<and> st_pending_enhancements st = 0
          | _ \<Rightarrow> False)
      | Scanned \<Rightarrow> (case (st_chain_tip st, st_fully_scanned st) of
            (Some tip, Some scanned) \<Rightarrow> saturating_sub tip scanned \<le> hc_max_scan_lag cfg
          | _ \<Rightarrow> False)
      | Connected \<Rightarrow> (case (st_chain_tip st, st_birthday st) of
            (Some tip, Some birthday) \<Rightarrow> tip > birthday
          | _ \<Rightarrow> False))"

definition is_locked :: "wallet_status \<Rightarrow> bool" where
  "is_locked st \<longleftrightarrow> st_encrypted st \<and> st_unlocked_until st = Some 0"

section \<open>All wallets\<close>

text \<open>A loaded wallet: its published status and whether its actor still takes commands.\<close>

type_synonym loaded_wallet = "wallet_status \<times> bool"

record wallet_report =
  wr_scan_lag :: "u32 option"
  wr_actor_alive :: bool
  wr_locked :: bool
  wr_ready :: bool

record health_snapshot =
  hs_ready :: bool
  hs_any_down :: bool
  hs_any_actor_down :: bool
  hs_any_locked :: bool
  hs_any_enhancing :: bool
  hs_any_refused :: bool
  hs_wallets :: "(string \<times> wallet_report) list"

definition note_wallet :: "health_config \<Rightarrow> string \<times> loaded_wallet wallet_handle \<Rightarrow> health_snapshot \<Rightarrow> health_snapshot" where
  "note_wallet cfg w s =
     (let (st, actor_alive) = wh_inner (snd w);
          w_ready = actor_alive \<and> wallet_ready cfg st
      in \<lparr>hs_ready = hs_ready s \<and> w_ready,
          hs_any_down = hs_any_down s \<or> st_conn_state st = Down,
          hs_any_actor_down = hs_any_actor_down s \<or> \<not> actor_alive,
          hs_any_locked = hs_any_locked s \<or> is_locked st,
          hs_any_enhancing = hs_any_enhancing s \<or> \<not> st_scanning st \<and> st_pending_enhancements st > 0,
          hs_any_refused = hs_any_refused s \<or> st_upstream_refusal st \<noteq> None,
          hs_wallets = hs_wallets s @ [(fst w, \<lparr>wr_scan_lag = scan_lag st, wr_actor_alive = actor_alive,
             wr_locked = is_locked st, wr_ready = w_ready\<rparr>)]\<rparr>)"

definition health_snapshot_of :: "health_config \<Rightarrow> loaded_wallet wallet_registry \<Rightarrow> health_snapshot" where
  "health_snapshot_of cfg registry =
     (let loaded = registry_snapshot registry
      in fold (note_wallet cfg) loaded
           \<lparr>hs_ready = (loaded \<noteq> []), hs_any_down = False, hs_any_actor_down = False, hs_any_locked = False,
            hs_any_enhancing = False, hs_any_refused = False, hs_wallets = []\<rparr>)"

definition readyz :: "health_config \<Rightarrow> loaded_wallet wallet_registry \<Rightarrow> nat \<times> string option \<times> health_snapshot" where
  "readyz cfg registry =
     (let snap = health_snapshot_of cfg registry
      in (if hs_ready snap then 200 else 503,
          if hs_ready snap then None
          else Some (if hs_any_actor_down snap then ''actor_down''
                     else if hs_any_refused snap then ''upstream_not_upgraded''
                     else if hs_any_down snap then ''upstream_down''
                     else if hs_any_enhancing snap then ''enhancing''
                     else ''syncing''),
          snap))"

section \<open>What the probe says\<close>

lemma note_wallets:
  "fold (note_wallet cfg) ws s =
     \<lparr>hs_ready = hs_ready s \<and> (\<forall>w \<in> set ws. snd (wh_inner (snd w)) \<and> wallet_ready cfg (fst (wh_inner (snd w)))),
      hs_any_down = hs_any_down s \<or> (\<exists>w \<in> set ws. st_conn_state (fst (wh_inner (snd w))) = Down),
      hs_any_actor_down = hs_any_actor_down s \<or> (\<exists>w \<in> set ws. \<not> snd (wh_inner (snd w))),
      hs_any_locked = hs_any_locked s \<or> (\<exists>w \<in> set ws. is_locked (fst (wh_inner (snd w)))),
      hs_any_enhancing = hs_any_enhancing s \<or>
        (\<exists>w \<in> set ws. \<not> st_scanning (fst (wh_inner (snd w))) \<and> st_pending_enhancements (fst (wh_inner (snd w))) > 0),
      hs_any_refused = hs_any_refused s \<or> (\<exists>w \<in> set ws. st_upstream_refusal (fst (wh_inner (snd w))) \<noteq> None),
      hs_wallets = hs_wallets s @ map (\<lambda>w. (fst w, \<lparr>wr_scan_lag = scan_lag (fst (wh_inner (snd w))),
        wr_actor_alive = snd (wh_inner (snd w)), wr_locked = is_locked (fst (wh_inner (snd w))),
        wr_ready = (snd (wh_inner (snd w)) \<and> wallet_ready cfg (fst (wh_inner (snd w))))\<rparr>)) ws\<rparr>"
  by (induction ws arbitrary: s) (auto simp: note_wallet_def case_prod_beta Let_def)

definition loaded_wallets :: "'h wallet_registry \<Rightarrow> 'h set" where
  "loaded_wallets r = (\<lambda>w. wh_inner (snd w)) ` set (registry_snapshot r)"

lemma loaded_empty: "loaded_wallets r = {} \<longleftrightarrow> registry_snapshot r = []"
  by (simp add: loaded_wallets_def)

definition caught_up :: "health_config \<Rightarrow> wallet_status \<Rightarrow> bool" where
  "caught_up cfg st \<longleftrightarrow> (\<exists>tip scanned. st_chain_tip st = Some tip \<and> st_fully_scanned st = Some scanned \<and>
     unat tip \<le> unat scanned + unat (hc_max_scan_lag cfg))"

lemma wallet_ready_synced:
  "hc_readiness cfg = Synced \<Longrightarrow> wallet_ready cfg st \<longleftrightarrow>
     st_connected st \<and> st_upstream_refusal st = None \<and> caught_up cfg st \<and> st_pending_enhancements st = 0"
  by (auto simp: wallet_ready_def caught_up_def word_le_nat_alt unat_saturating_sub le_diff_conv add.commute split: option.splits)


text \<open>The modes are ordered: a wallet ready in the strict mode is ready in the scanned one.\<close>

lemma synced_implies_scanned:
  "wallet_ready (cfg\<lparr>hc_readiness := Synced\<rparr>) st \<Longrightarrow> wallet_ready (cfg\<lparr>hc_readiness := Scanned\<rparr>) st"
  by (auto simp: wallet_ready_def split: option.splits)

lemma readiness_parse_as_str: "readiness_parse (readiness_as_str m) = Some m"
  by (cases m) (simp_all add: readiness_parse_def)

section \<open>A wallet still fetching\<close>

definition fetching :: wallet_status where
  "fetching = \<lparr>st_connected = True, st_conn_state = Ready, st_upstream_refusal = None, st_chain_tip = Some 500, st_fully_scanned = Some 499,
     st_best_block_hash = None, st_scanning = False, st_pending_enhancements = 2, st_enhanced_through = None,
     st_birthday = Some 1, st_encrypted = True, st_unlocked_until = Some 0\<rparr>"

definition one_wallet :: "loaded_wallet wallet_registry" where
  "one_wallet = registry_insert (CwZcash \<lparr>wh_name = ''w'', wh_inner = (fetching, True)\<rparr>) (registry_new ''w'')"


end
