(* ===== verification/Block_Wait.thy ===== *)
theory Block_Wait
  imports Health Wallet_History
begin

text \<open>
  The waiting calls of \<open>src/rpc/blockchain.rs\<close>.  A wait follows the status its wallet's actor publishes on a watch
  channel: the channel has a version, a subscriber the last version it has seen.  The wait runs beside the actor, so it is
  a step relation in which a status may be published, time may pass and the daemon may stop between any two of its steps.
  What a wait reads of the wallet is published with the status.  Instants are in milliseconds.
\<close>

section \<open>Parameters\<close>

definition wait_timeout :: "rpc_request \<Rightarrow> nat \<Rightarrow> rpc_error + nat option" where
  "wait_timeout rq i =
     sum_bind (case param rq i of
         None \<Rightarrow> Inr 0
       | Some Null \<Rightarrow> Inr 0
       | Some v \<Rightarrow> (case as_i64 v of
             Some n \<Rightarrow> Inr n
           | None \<Rightarrow> Inl (type_error ''Timeout must be an integer number of milliseconds''))) (\<lambda>millis.
       if millis < 0 then Inl (misc ''Negative timeout'')
       else Inr (if millis > 0 then Some (nat millis) else None))"

definition parse_blockhash_param :: "string \<Rightarrow> rpc_error + unit" where
  "parse_blockhash_param s =
     (if length s \<noteq> 64 then Inl (invalid_parameter (''blockhash must be of length 64 (not '' @ show_nat (length s) @ '', for '' @ [CHR 0x27] @ s @ [CHR 0x27] @ '')''))
      else if hex_decode s = None then Inl (invalid_parameter (''blockhash must be hexadecimal string (not '' @ [CHR 0x27] @ s @ [CHR 0x27] @ '')''))
      else Inr ())"

definition height_param :: "rpc_request \<Rightarrow> string \<Rightarrow> rpc_error + u32" where
  "height_param rq msg =
     (case param rq 0 of
        None \<Rightarrow> Inl (missing_param msg)
      | Some Null \<Rightarrow> Inl (missing_param msg)
      | Some v \<Rightarrow>
          (case as_i64 v of
             None \<Rightarrow> Inl (type_error ''Block height must be an integer'')
           | Some n \<Rightarrow> if 0 \<le> n \<and> n < 2 ^ 32 then Inr (of_int n) else Inl (invalid_parameter ''Block height out of range'')))"

section \<open>The best block\<close>

text \<open>What is published: the status, and the scanned blocks by height with their hash and time.\<close>

record published =
  pb_status :: wallet_status
  pb_blocks :: "u32 \<rightharpoonup> string \<times> int"

definition best_block :: "published \<Rightarrow> u32 \<times> string option \<times> int option" where
  "best_block p =
     (case st_fully_scanned (pb_status p) of
        Some h \<Rightarrow>
          (case pb_blocks p h of
             Some (hash, time) \<Rightarrow> (h, Some hash, Some time)
           | None \<Rightarrow> (h, st_best_block_hash (pb_status p), None))
      | None \<Rightarrow> (0, st_best_block_hash (pb_status p), None))"

definition getblockcount :: "published \<Rightarrow> u32" where
  "getblockcount p = (case st_fully_scanned (pb_status p) of Some h \<Rightarrow> h | None \<Rightarrow> 0)"

definition getbestblockhash :: "published \<Rightarrow> rpc_error + string" where
  "getbestblockhash p =
     (case best_block p of
        (_, Some hash, _) \<Rightarrow> Inr hash
      | _ \<Rightarrow> Inl (misc ''best block hash not yet known (still syncing)''))"

definition getblockhash :: "published \<Rightarrow> rpc_request \<Rightarrow> rpc_error + string" where
  "getblockhash p rq =
     sum_bind (height_param rq ''getblockhash requires a height'') (\<lambda>height.
       case pb_blocks p height of
         Some (hash, _) \<Rightarrow> Inr hash
       | None \<Rightarrow>
           (case (if st_chain_tip (pb_status p) = Some height then st_best_block_hash (pb_status p) else None) of
              Some hash \<Rightarrow> Inr hash
            | None \<Rightarrow> Inl (invalid_parameter ''Block height out of range'')))"

section \<open>The wait\<close>

definition WAIT_RECHECK_INTERVAL :: nat where "WAIT_RECHECK_INTERVAL = 1000"

text \<open>Where the loop is: about to mark the status seen, about to read, with a reading that does not satisfy it, asleep until
  some instant, or done with the reading it answers with.\<close>

datatype wait_reason = Satisfied | TimedOut | Stopped

datatype 'v wait_pc = Marking | Reading | Judged 'v | Parked 'v nat | Done wait_reason 'v

record 'v wait_state =
  ws_version :: nat
  ws_value :: 'v
  ws_seen :: nat
  ws_now :: nat
  ws_deadline :: "nat option"
  ws_pc :: "'v wait_pc"

definition nap :: "nat option \<Rightarrow> nat \<Rightarrow> nat" where
  "nap deadline now = min (case deadline of Some d \<Rightarrow> d - now | None \<Rightarrow> WAIT_RECHECK_INTERVAL) WAIT_RECHECK_INTERVAL"

definition timed_out :: "nat option \<Rightarrow> nat \<Rightarrow> bool" where
  "timed_out deadline now \<longleftrightarrow> (case deadline of Some d \<Rightarrow> d \<le> now | None \<Rightarrow> False)"

inductive wait_step :: "('v \<Rightarrow> bool) \<Rightarrow> 'v wait_state \<Rightarrow> 'v wait_state \<Rightarrow> bool" for satisfied where
  publish: "wait_step satisfied s (s\<lparr>ws_version := Suc (ws_version s), ws_value := v\<rparr>)"
| tick: "ws_now s \<le> t \<Longrightarrow> wait_step satisfied s (s\<lparr>ws_now := t\<rparr>)"
| mark: "ws_pc s = Marking \<Longrightarrow> wait_step satisfied s (s\<lparr>ws_seen := ws_version s, ws_pc := Reading\<rparr>)"
| answer: "ws_pc s = Reading \<Longrightarrow> satisfied (ws_value s) \<Longrightarrow> wait_step satisfied s (s\<lparr>ws_pc := Done Satisfied (ws_value s)\<rparr>)"
| judge: "ws_pc s = Reading \<Longrightarrow> \<not> satisfied (ws_value s) \<Longrightarrow> wait_step satisfied s (s\<lparr>ws_pc := Judged (ws_value s)\<rparr>)"
| time_out: "ws_pc s = Judged v \<Longrightarrow> timed_out (ws_deadline s) (ws_now s) \<Longrightarrow> wait_step satisfied s (s\<lparr>ws_pc := Done TimedOut v\<rparr>)"
| park: "ws_pc s = Judged v \<Longrightarrow> \<not> timed_out (ws_deadline s) (ws_now s) \<Longrightarrow>
    wait_step satisfied s (s\<lparr>ws_pc := Parked v (ws_now s + nap (ws_deadline s) (ws_now s))\<rparr>)"
| changed: "ws_pc s = Parked v w \<Longrightarrow> ws_version s \<noteq> ws_seen s \<Longrightarrow>
    wait_step satisfied s (s\<lparr>ws_seen := ws_version s, ws_pc := Marking\<rparr>)"
| slept: "ws_pc s = Parked v w \<Longrightarrow> w \<le> ws_now s \<Longrightarrow> wait_step satisfied s (s\<lparr>ws_pc := Marking\<rparr>)"
| stopped: "ws_pc s = Parked v w \<Longrightarrow> wait_step satisfied s (s\<lparr>ws_pc := Done Stopped v\<rparr>)"

definition wait_start :: "'v \<Rightarrow> nat \<Rightarrow> nat option \<Rightarrow> 'v wait_state" where
  "wait_start v now timeout =
     \<lparr>ws_version = 0, ws_value = v, ws_seen = 0, ws_now = now, ws_deadline = map_option (\<lambda>t. now + t) timeout, ws_pc = Marking\<rparr>"

section \<open>The calls\<close>

text \<open>Each call is a condition on the best block; a wait that ends answers with the best block it last read.\<close>

definition wait_for_best_block :: "(u32 \<Rightarrow> string option \<Rightarrow> bool) \<Rightarrow> published \<Rightarrow> bool" where
  "wait_for_best_block satisfied p = (case best_block p of (height, hash, _) \<Rightarrow> satisfied height hash)"

definition wait_result :: "u32 \<Rightarrow> string option \<Rightarrow> json" where
  "wait_result height hash =
     Object [(''hash'', String (case hash of Some h \<Rightarrow> h | None \<Rightarrow> [])), (''height'', json_int (int (unat height)))]"

definition waitfornewblock :: "published \<Rightarrow> rpc_request \<Rightarrow> rpc_error + nat option \<times> (published \<Rightarrow> bool)" where
  "waitfornewblock p rq =
     sum_bind (wait_timeout rq 0) (\<lambda>timeout.
       case best_block p of
         (start_height, start_hash, _) \<Rightarrow>
           Inr (timeout, wait_for_best_block (\<lambda>height hash. height \<noteq> start_height \<or> hash \<noteq> start_hash)))"

definition waitforblock :: "rpc_request \<Rightarrow> rpc_error + nat option \<times> (published \<Rightarrow> bool)" where
  "waitforblock rq =
     sum_bind (require_str rq 0 ''waitforblock requires a block hash'') (\<lambda>target.
     sum_bind (parse_blockhash_param target) (\<lambda>_.
     sum_bind (wait_timeout rq 1) (\<lambda>timeout.
       Inr (timeout, wait_for_best_block (\<lambda>_ hash. hash = Some (to_ascii_lowercase target))))))"

definition waitforblockheight :: "rpc_request \<Rightarrow> rpc_error + nat option \<times> (published \<Rightarrow> bool)" where
  "waitforblockheight rq =
     sum_bind (height_param rq ''waitforblockheight requires a height'') (\<lambda>target.
     sum_bind (wait_timeout rq 1) (\<lambda>timeout.
       Inr (timeout, wait_for_best_block (\<lambda>height _. height \<ge> target))))"

text \<open>\<open>waitforsync\<close> waits on the whole status: the wallet's account imported, the scan done, nothing left to fetch, or an
  import that failed for good.\<close>

record sync_published =
  sp_published :: published
  sp_accounts :: "string set"
  sp_import_errors :: "string \<rightharpoonup> string"

definition synced :: "string \<Rightarrow> sync_published \<Rightarrow> bool" where
  "synced name p \<longleftrightarrow> name \<in> sp_accounts p \<and> \<not> st_scanning (pb_status (sp_published p)) \<and>
     st_pending_enhancements (pb_status (sp_published p)) = 0"

definition waitforsync :: "string \<Rightarrow> rpc_request \<Rightarrow> rpc_error + nat option \<times> (sync_published \<Rightarrow> bool)" where
  "waitforsync name rq =
     sum_bind (wait_timeout rq 0) (\<lambda>timeout. Inr (timeout, \<lambda>p. synced name p \<or> sp_import_errors p name \<noteq> None))"

section \<open>No publication is missed\<close>

definition wait_inv :: "('v \<Rightarrow> bool) \<Rightarrow> 'v wait_state \<Rightarrow> bool" where
  "wait_inv satisfied s \<longleftrightarrow> ws_seen s \<le> ws_version s \<and>
     (case ws_pc s of
        Marking \<Rightarrow> True
      | Reading \<Rightarrow> True
      | Judged v \<Rightarrow> \<not> satisfied v \<and> (ws_seen s = ws_version s \<longrightarrow> v = ws_value s)
      | Parked v w \<Rightarrow> \<not> satisfied v \<and> (ws_seen s = ws_version s \<longrightarrow> v = ws_value s) \<and>
          (\<forall>d. ws_deadline s = Some d \<longrightarrow> w \<le> d) \<and> w \<le> ws_now s + WAIT_RECHECK_INTERVAL
      | Done Satisfied v \<Rightarrow> satisfied v
      | Done TimedOut v \<Rightarrow> \<not> satisfied v \<and> timed_out (ws_deadline s) (ws_now s)
      | Done Stopped v \<Rightarrow> \<not> satisfied v)"

lemma nap_bounds:
  "\<not> timed_out deadline now \<Longrightarrow> deadline = Some d \<Longrightarrow> now + nap deadline now \<le> d"
  "nap deadline now \<le> WAIT_RECHECK_INTERVAL"
  by (auto simp: nap_def timed_out_def)

lemma timed_out_mono: "timed_out deadline t \<Longrightarrow> t \<le> t' \<Longrightarrow> timed_out deadline t'"
  by (auto simp: timed_out_def split: option.splits)

lemma wait_step_inv: "wait_step satisfied s s' \<Longrightarrow> wait_inv satisfied s \<Longrightarrow> wait_inv satisfied s'"
proof (induction rule: wait_step.induct)
  case (publish s v)
  then show ?case by (auto simp: wait_inv_def split: wait_pc.splits wait_reason.splits)
next
  case (tick s t)
  then show ?case by (auto simp: wait_inv_def intro: timed_out_mono split: wait_pc.splits wait_reason.splits)
next
  case (park s v)
  then show ?case using nap_bounds [of "ws_deadline s" "ws_now s"] by (auto simp: wait_inv_def)
qed (auto simp: wait_inv_def)

lemma wait_step_deadline: "wait_step satisfied s s' \<Longrightarrow> ws_deadline s' = ws_deadline s"
  by (induction rule: wait_step.induct) simp_all

lemma wait_reachable:
  "(wait_step satisfied)\<^sup>*\<^sup>* s s' \<Longrightarrow> wait_inv satisfied s \<Longrightarrow> wait_inv satisfied s' \<and> ws_deadline s' = ws_deadline s"
  by (induction rule: rtranclp_induct) (auto dest: wait_step_inv wait_step_deadline)

text \<open>C13. A wait misses no publication.  In every interleaving with the actor's publications, whenever the wait sleeps with
  nothing new on the channel, what it last judged is what is published now, and it does not satisfy the wait; it sleeps
  never past its deadline, nor more than the recheck interval.  An answer given as satisfied is, one given for the
  timeout comes at or after the deadline.\<close>

theorem no_lost_wakeup:
  assumes "(wait_step satisfied)\<^sup>*\<^sup>* (wait_start v0 t0 timeout) s"
  shows "(\<forall>v w. ws_pc s = Parked v w \<and> ws_seen s = ws_version s \<longrightarrow> v = ws_value s \<and> \<not> satisfied (ws_value s)) \<and>
    (\<forall>v w t. ws_pc s = Parked v w \<and> timeout = Some t \<longrightarrow> w \<le> t0 + t) \<and>
    (\<forall>v w. ws_pc s = Parked v w \<longrightarrow> w \<le> ws_now s + 1000) \<and>
    (\<forall>v. ws_pc s = Done Satisfied v \<longrightarrow> satisfied v) \<and>
    (\<forall>v. ws_pc s = Done TimedOut v \<longrightarrow> (\<exists>t. timeout = Some t \<and> t0 + t \<le> ws_now s))"
proof -
  have "wait_inv satisfied (wait_start v0 t0 timeout)"
    by (simp add: wait_inv_def wait_start_def)
  from wait_reachable [OF assms this] have inv: "wait_inv satisfied s" and d: "ws_deadline s = map_option (\<lambda>t. t0 + t) timeout"
    by (simp_all add: wait_start_def)
  show ?thesis
    using inv d by (auto simp: wait_inv_def WAIT_RECHECK_INTERVAL_def timed_out_def split: option.splits)
qed


section \<open>A wait ends\<close>

text \<open>The wait's own next step, the timer taken when it is due.\<close>

definition wait_advance :: "('v \<Rightarrow> bool) \<Rightarrow> 'v wait_state \<Rightarrow> 'v wait_state" where
  "wait_advance satisfied s =
     (case ws_pc s of
        Marking \<Rightarrow> s\<lparr>ws_seen := ws_version s, ws_pc := Reading\<rparr>
      | Reading \<Rightarrow> s\<lparr>ws_pc := (if satisfied (ws_value s) then Done Satisfied (ws_value s) else Judged (ws_value s))\<rparr>
      | Judged v \<Rightarrow>
          s\<lparr>ws_pc := (if timed_out (ws_deadline s) (ws_now s) then Done TimedOut v
             else Parked v (ws_now s + nap (ws_deadline s) (ws_now s)))\<rparr>
      | Parked v w \<Rightarrow>
          if ws_version s \<noteq> ws_seen s then s\<lparr>ws_seen := ws_version s, ws_pc := Marking\<rparr>
          else if w \<le> ws_now s then s\<lparr>ws_pc := Marking\<rparr> else s
      | Done _ _ \<Rightarrow> s)"

lemma wait_advance_step: "wait_advance satisfied s = s \<or> wait_step satisfied s (wait_advance satisfied s)"
  by (cases "ws_pc s") (auto simp: wait_advance_def intro: wait_step.intros)

definition is_done :: "'v wait_state \<Rightarrow> bool" where
  "is_done s \<longleftrightarrow> (case ws_pc s of Done _ _ \<Rightarrow> True | _ \<Rightarrow> False)"

lemma advance_from:
  "ws_pc s = Judged v \<Longrightarrow> timed_out (ws_deadline s) (ws_now s) \<Longrightarrow> is_done (wait_advance satisfied s)"
  "ws_pc s = Reading \<Longrightarrow> timed_out (ws_deadline s) (ws_now s) \<Longrightarrow> is_done ((wait_advance satisfied ^^ 2) s)"
  "ws_pc s = Marking \<Longrightarrow> timed_out (ws_deadline s) (ws_now s) \<Longrightarrow> is_done ((wait_advance satisfied ^^ 3) s)"
  by (simp_all add: is_done_def wait_advance_def numeral_2_eq_2 numeral_3_eq_3)

text \<open>A wait with a timeout ends: once its deadline has passed, wherever the interleaving left it, it answers within four of
  its own steps, and each of them is a step of the relation or leaves an ended wait alone.\<close>

theorem wait_ends:
  assumes "(wait_step satisfied)\<^sup>*\<^sup>* (wait_start v0 t0 (Some t)) s" "t0 + t \<le> ws_now s"
  shows "\<exists>k \<le> 4. is_done ((wait_advance satisfied ^^ k) s) \<and> (wait_step satisfied)\<^sup>*\<^sup>* s ((wait_advance satisfied ^^ k) s)"
proof -
  have path: "(wait_step satisfied)\<^sup>*\<^sup>* s ((wait_advance satisfied ^^ k) s)" for k
  proof (induction k)
    case (Suc k)
    then show ?case
      using wait_advance_step [of satisfied "(wait_advance satisfied ^^ k) s"] by (auto intro: rtranclp.rtrancl_into_rtrancl)
  qed simp
  have "wait_inv satisfied (wait_start v0 t0 (Some t))"
    by (simp add: wait_inv_def wait_start_def)
  from wait_reachable [OF assms(1) this] have inv: "wait_inv satisfied s" and d: "ws_deadline s = Some (t0 + t)"
    by (simp_all add: wait_start_def)
  then have late: "timed_out (ws_deadline s) (ws_now s)"
    using assms(2) by (simp add: timed_out_def)
  have "\<exists>k \<le> 4. is_done ((wait_advance satisfied ^^ k) s)"
  proof (cases "ws_pc s")
    case (Parked v w)
    then have "w \<le> ws_now s"
      using inv d assms(2) by (auto simp: wait_inv_def)
    then have m: "ws_pc (wait_advance satisfied s) = Marking" "timed_out (ws_deadline (wait_advance satisfied s)) (ws_now (wait_advance satisfied s))"
      using Parked late by (simp_all add: wait_advance_def)
    have "(wait_advance satisfied ^^ 4) s = (wait_advance satisfied ^^ 3) (wait_advance satisfied s)"
      by (simp add: eval_nat_numeral funpow_swap1)
    then show ?thesis
      using advance_from(3) [OF m] by (intro exI [of _ 4]) simp
  next
    case Marking
    then show ?thesis using advance_from(3) [OF _ late] by (intro exI [of _ 3]) simp
  next
    case Reading
    then show ?thesis using advance_from(2) [OF _ late] by (intro exI [of _ 2]) simp
  next
    case (Judged v)
    then show ?thesis using advance_from(1) [OF _ late] by (intro exI [of _ 1]) simp
  qed (simp add: is_done_def exI [of _ 0])
  then show ?thesis
    using path by blast
qed

section \<open>A wait for the third block\<close>

lemma third_block_parked:
  "(wait_step (\<lambda>h. (3 :: nat) \<le> h))\<^sup>*\<^sup>* (wait_start 2 5 (Some 100)) ((wait_start 2 5 (Some 100))\<lparr>ws_pc := Parked 2 105\<rparr>)"
proof -
  let ?s = "wait_start (2 :: nat) 5 (Some 100)" and ?P = "\<lambda>h. (3 :: nat) \<le> h"
  have "wait_step ?P ?s (?s\<lparr>ws_pc := Reading\<rparr>)"
    using mark [of ?s ?P] by (simp add: wait_start_def)
  then have read: "(wait_step ?P)\<^sup>*\<^sup>* ?s (?s\<lparr>ws_pc := Reading\<rparr>)"
    by (rule r_into_rtranclp)
  have "wait_step ?P (?s\<lparr>ws_pc := Reading\<rparr>) (?s\<lparr>ws_pc := Judged 2\<rparr>)"
    using judge [of "?s\<lparr>ws_pc := Reading\<rparr>" ?P] by (simp add: wait_start_def)
  with read have judged: "(wait_step ?P)\<^sup>*\<^sup>* ?s (?s\<lparr>ws_pc := Judged 2\<rparr>)"
    by (rule rtranclp.rtrancl_into_rtrancl)
  have "wait_step ?P (?s\<lparr>ws_pc := Judged 2\<rparr>) (?s\<lparr>ws_pc := Parked 2 105\<rparr>)"
    using park [of "?s\<lparr>ws_pc := Judged 2\<rparr>" 2 ?P] by (simp add: wait_start_def timed_out_def nap_def WAIT_RECHECK_INTERVAL_def)
  with judged show ?thesis
    by (rule rtranclp.rtrancl_into_rtrancl)
qed

theorem no_lost_wakeup_witness: "\<exists>s. (wait_step (\<lambda>h. (3 :: nat) \<le> h))\<^sup>*\<^sup>* (wait_start 2 5 (Some 100)) s \<and> ws_pc s = Parked 2 105 \<and> (105 :: nat) \<le> 5 + 100"
  using third_block_parked no_lost_wakeup [OF third_block_parked] by (intro exI conjI) (assumption, simp_all add: wait_start_def)

theorem wait_ends_witness:
  "\<exists>s. (wait_step (\<lambda>h. (3 :: nat) \<le> h))\<^sup>*\<^sup>* (wait_start 2 5 (Some 100)) s \<and> is_done s"
proof -
  let ?s = "(wait_start (2 :: nat) 5 (Some 100))\<lparr>ws_pc := Parked 2 105\<rparr>"
  have tick: "wait_step (\<lambda>h. 3 \<le> h) ?s (?s\<lparr>ws_now := 105\<rparr>)"
    by (rule wait_step.tick) (simp add: wait_start_def)
  have "(wait_step (\<lambda>h. 3 \<le> h))\<^sup>*\<^sup>* (wait_start 2 5 (Some 100)) (?s\<lparr>ws_now := 105\<rparr>)"
    using third_block_parked tick by (rule rtranclp.rtrancl_into_rtrancl)
  with wait_ends [OF this] show ?thesis
    by (auto intro: rtranclp_trans)
qed

end
