(* ===== verification/Locality.thy ===== *)
theory Locality
  imports Proxy
begin

unbundle bit_operations_syntax

text \<open>
  Which hosts count as local, and the gate on credentials over plaintext (\<open>src/chain/zebra.rs\<close>): the standard
  library's IP address parser, the private ranges, \<open>host_is_local\<close>, the credentials of the \<open>[zebra]\<close> section and
  \<open>cleartext_gate\<close>.  Base64, SHA-256 and the cookie file are parameters.
\<close>

section \<open>IP addresses\<close>

text \<open>The parser of \<open>std::net\<close>: each reader returns what it read and the text left, or nothing.\<close>

record ipv4_addr =
  v4_a :: u8
  v4_b :: u8
  v4_c :: u8
  v4_d :: u8

datatype ip_addr = V4 ipv4_addr | V6 "u16 list"

definition digit_in :: "nat \<Rightarrow> char \<Rightarrow> nat option" where
  "digit_in radix c = (case hex_value c of Some d \<Rightarrow> if d < radix then Some d else None | None \<Rightarrow> None)"

fun read_digits :: "nat \<Rightarrow> string \<Rightarrow> nat list \<times> string" where
  "read_digits radix [] = ([], [])"
| "read_digits radix (c # s) =
     (case digit_in radix c of
        None \<Rightarrow> ([], c # s)
      | Some d \<Rightarrow> (let (ds, rest) = read_digits radix s in (d # ds, rest)))"

definition read_number :: "nat \<Rightarrow> nat \<Rightarrow> bool \<Rightarrow> nat \<Rightarrow> string \<Rightarrow> (nat \<times> string) option" where
  "read_number radix max_digits allow_zero_prefix max_value s =
     (let (ds, rest) = read_digits radix s;
          value = foldl (\<lambda>v d. v * radix + d) 0 ds
      in if length ds > max_digits then None
         else if ds = [] then None
         else if \<not> allow_zero_prefix \<and> hd ds = 0 \<and> length ds > 1 then None
         else if value > max_value then None
         else Some (value, rest))"

definition read_given_char :: "char \<Rightarrow> string \<Rightarrow> string option" where
  "read_given_char c s = (case s of d # t \<Rightarrow> if d = c then Some t else None | [] \<Rightarrow> None)"

text \<open>\<open>read_separator\<close>: the separator comes first, except before the first element.\<close>

definition read_separator :: "char \<Rightarrow> nat \<Rightarrow> (string \<Rightarrow> ('a \<times> string) option) \<Rightarrow> string \<Rightarrow> ('a \<times> string) option" where
  "read_separator sep index inner s =
     (if index > 0 then Option.bind (read_given_char sep s) inner else inner s)"

definition read_octet :: "nat \<Rightarrow> string \<Rightarrow> (nat \<times> string) option" where
  "read_octet i = read_separator CHR ''.'' i (read_number 10 3 False 255)"

definition read_ipv4_addr :: "string \<Rightarrow> (ipv4_addr \<times> string) option" where
  "read_ipv4_addr s =
     Option.bind (read_octet 0 s) (\<lambda>(a, s).
     Option.bind (read_octet 1 s) (\<lambda>(b, s).
     Option.bind (read_octet 2 s) (\<lambda>(c, s).
     map_option (\<lambda>(d, s). (\<lparr>v4_a = of_nat a, v4_b = of_nat b, v4_c = of_nat c, v4_d = of_nat d\<rparr>, s)) (read_octet 3 s))))"

definition be_pair :: "u8 \<Rightarrow> u8 \<Rightarrow> u16" where
  "be_pair hi lo = of_nat (256 * unat hi + unat lo)"

text \<open>\<open>read_groups\<close>: the groups read, whether a trailing IPv4 address was among them, and the text left.\<close>

function read_groups :: "nat \<Rightarrow> nat \<Rightarrow> string \<Rightarrow> u16 list \<times> bool \<times> string" where
  "read_groups limit i s =
     (if limit \<le> i then ([], False, s)
      else case (if i < limit - 1 then read_separator CHR '':'' i read_ipv4_addr s else None) of
          Some (v4, rest) \<Rightarrow> ([be_pair (v4_a v4) (v4_b v4), be_pair (v4_c v4) (v4_d v4)], True, rest)
        | None \<Rightarrow>
            (case read_separator CHR '':'' i (read_number 16 4 True 65535) s of
               None \<Rightarrow> ([], False, s)
             | Some (g, rest) \<Rightarrow> (let (gs, v4, rest) = read_groups limit (i + 1) rest in (of_nat g # gs, v4, rest))))"
  by pat_completeness auto
termination by (relation "measure (\<lambda>(limit, i, s). limit - i)") auto

declare read_groups.simps [simp del]

definition read_ipv6_addr :: "string \<Rightarrow> (u16 list \<times> string) option" where
  "read_ipv6_addr s =
     (let (head, head_ipv4, s) = read_groups 8 0 s
      in if length head = 8 then Some (head, s)
         else if head_ipv4 then None
         else Option.bind (read_given_char CHR '':'' s) (\<lambda>s.
              Option.bind (read_given_char CHR '':'' s) (\<lambda>s.
              let (tail, _, s) = read_groups (8 - (length head + 1)) 0 s
              in Some (head @ replicate (8 - length head - length tail) 0 @ tail, s))))"

definition parse_ip_addr :: "string \<Rightarrow> ip_addr option" where
  "parse_ip_addr s =
     (case (case read_ipv4_addr s of
              Some (v4, rest) \<Rightarrow> Some (V4 v4, rest)
            | None \<Rightarrow> map_option (\<lambda>(gs, rest). (V6 gs, rest)) (read_ipv6_addr s)) of
        Some (ip, rest) \<Rightarrow> if rest = [] then Some ip else None
      | None \<Rightarrow> None)"

definition is_loopback :: "ip_addr \<Rightarrow> bool" where
  "is_loopback ip = (case ip of V4 a \<Rightarrow> v4_a a = 127 | V6 gs \<Rightarrow> gs = [0, 0, 0, 0, 0, 0, 0, 1])"

text \<open>\<open>Ipv4Addr::is_private\<close>, \<open>is_link_local\<close> and \<open>Ipv6Addr::to_ipv4_mapped\<close>.\<close>

definition v4_is_private :: "ipv4_addr \<Rightarrow> bool" where
  "v4_is_private a \<longleftrightarrow>
     v4_a a = 10 \<or> (v4_a a = 172 \<and> 16 \<le> v4_b a \<and> v4_b a \<le> 31) \<or> (v4_a a = 192 \<and> v4_b a = 168)"

definition v4_is_link_local :: "ipv4_addr \<Rightarrow> bool" where
  "v4_is_link_local a \<longleftrightarrow> v4_a a = 169 \<and> v4_b a = 254"

definition to_ipv4_mapped :: "u16 list \<Rightarrow> ipv4_addr option" where
  "to_ipv4_mapped gs =
     (if take 6 gs = [0, 0, 0, 0, 0, 65535] \<and> length gs = 8
      then Some \<lparr>v4_a = ucast (drop_bit 8 (gs ! 6)), v4_b = ucast (gs ! 6),
                 v4_c = ucast (drop_bit 8 (gs ! 7)), v4_d = ucast (gs ! 7)\<rparr>
      else None)"

section \<open>Local hosts\<close>

definition parse_host_ip :: "string \<Rightarrow> ip_addr option" where
  "parse_host_ip host =
     parse_ip_addr (case Option.bind (strip_prefix ''['' host) (strip_suffix '']'') of Some bare \<Rightarrow> bare | None \<Rightarrow> host)"

definition eq_ignore_ascii_case :: "string \<Rightarrow> string \<Rightarrow> bool" where
  "eq_ignore_ascii_case s t \<longleftrightarrow> to_ascii_lowercase s = to_ascii_lowercase t"

definition host_is_loopback :: "string \<Rightarrow> bool" where
  "host_is_loopback host =
     (case parse_host_ip host of Some ip \<Rightarrow> is_loopback ip | None \<Rightarrow> eq_ignore_ascii_case host ''localhost'')"

definition ipv4_is_private_network :: "ipv4_addr \<Rightarrow> bool" where
  "ipv4_is_private_network ip \<longleftrightarrow>
     v4_is_private ip \<or> v4_is_link_local ip \<or> (v4_a ip = 100 \<and> 64 \<le> v4_b ip \<and> v4_b ip \<le> 127)"

definition ip_is_private_network :: "ip_addr \<Rightarrow> bool" where
  "ip_is_private_network ip =
     (case ip of
        V4 v4 \<Rightarrow> ipv4_is_private_network v4
      | V6 gs \<Rightarrow>
          (case to_ipv4_mapped gs of
             Some mapped \<Rightarrow> ipv4_is_private_network mapped
           | None \<Rightarrow> (let seg0 = gs ! 0 in seg0 AND 0xfe00 = 0xfc00 \<or> seg0 AND 0xffc0 = 0xfe80)))"

definition host_is_local :: "string \<Rightarrow> bool \<Rightarrow> bool" where
  "host_is_local host rfc1918_is_local =
     (case parse_host_ip host of
        Some ip \<Rightarrow> is_loopback ip \<or> (rfc1918_is_local \<and> ip_is_private_network ip)
      | None \<Rightarrow> eq_ignore_ascii_case host ''localhost'')"

record cleartext_policy =
  cp_rfc1918_is_local :: bool
  cp_allow_remote_cleartext :: bool

definition cleartext_policy_default :: cleartext_policy where
  "cleartext_policy_default = \<lparr>cp_rfc1918_is_local = True, cp_allow_remote_cleartext = False\<rparr>"

section \<open>Credentials\<close>

record zebra_auth =
  za_user :: "string option"
  za_password :: "string option"
  za_cookie :: "string option"

definition zebra_auth_default :: zebra_auth where
  "zebra_auth_default = \<lparr>za_user = None, za_password = None, za_cookie = None\<rparr>"

datatype backend_error =
    UserPasswordTogether
  | CookieUnreadable string
  | CookieMalformed string
  | CleartextCredentials string
  | InvalidAddress string

definition is_configured :: "zebra_auth \<Rightarrow> bool" where
  "is_configured a \<longleftrightarrow> za_cookie a \<noteq> None \<or> za_user a \<noteq> None \<or> za_password a \<noteq> None"

definition auth_validate :: "zebra_auth \<Rightarrow> backend_error + unit" where
  "auth_validate a =
     (if za_cookie a \<noteq> None then Inr ()
      else case (za_user a, za_password a) of
          (Some _, None) \<Rightarrow> Inl UserPasswordTogether
        | (None, Some _) \<Rightarrow> Inl UserPasswordTogether
        | _ \<Rightarrow> Inr ())"

text \<open>\<open>b64\<close> is base64's standard encoding and \<open>read_file\<close> the file system at the moment of the connect.\<close>

definition basic_header :: "(string \<Rightarrow> string) \<Rightarrow> string \<Rightarrow> string" where
  "basic_header b64 cred = ''Basic '' @ b64 cred"

definition auth_header ::
  "(string \<Rightarrow> string) \<Rightarrow> (string \<Rightarrow> string option) \<Rightarrow> zebra_auth \<Rightarrow> backend_error + string option" where
  "auth_header b64 read_file a =
     sum_bind (auth_validate a) (\<lambda>_.
     case za_cookie a of
       Some path \<Rightarrow>
         (case read_file path of
            None \<Rightarrow> Inl (CookieUnreadable path)
          | Some contents \<Rightarrow>
              (let cred = trim contents
               in if CHR '':'' \<notin> set cred then Inl (CookieMalformed path) else Inr (Some (basic_header b64 cred))))
     | None \<Rightarrow>
         (case (za_user a, za_password a) of
            (Some u, Some p) \<Rightarrow> Inr (Some (basic_header b64 (u @ '':'' @ p)))
          | (None, None) \<Rightarrow> Inr None
          | _ \<Rightarrow> Inl UserPasswordTogether))"

text \<open>The identity a connection key carries in place of the credentials: a digest over tagged, length-prefixed fields.\<close>

primrec le_bytes :: "nat \<Rightarrow> nat \<Rightarrow> u8 list" where
  "le_bytes 0 n = []"
| "le_bytes (Suc k) n = of_nat n # le_bytes k (n div 256)"

definition str_bytes :: "string \<Rightarrow> u8 list" where
  "str_bytes s = map (\<lambda>c. of_nat (of_char c)) s"

definition auth_field :: "u8 \<Rightarrow> u8 list option \<Rightarrow> u8 list" where
  "auth_field tag v = tag # (case v of Some bytes \<Rightarrow> 1 # le_bytes 8 (length bytes) @ bytes | None \<Rightarrow> [0])"

definition auth_preimage :: "zebra_auth \<Rightarrow> u8 list" where
  "auth_preimage a =
     str_bytes ''zecd zebra auth v1'' @
     auth_field 0 (map_option str_bytes (za_user a)) @
     auth_field 1 (map_option str_bytes (za_password a)) @
     auth_field 2 (map_option str_bytes (za_cookie a))"

definition identity_digest :: "(u8 list \<Rightarrow> u8 list) \<Rightarrow> zebra_auth \<Rightarrow> string" where
  "identity_digest sha a = hex_encode (sha (auth_preimage a))"

definition cleartext_gate :: "string \<Rightarrow> bool \<Rightarrow> cleartext_policy \<Rightarrow> backend_error + unit" where
  "cleartext_gate host credentialed policy =
     (if credentialed \<and> \<not> host_is_local host (cp_rfc1918_is_local policy) \<and> \<not> cp_allow_remote_cleartext policy
      then Inl (CleartextCredentials host) else Inr ())"

record zebra_client =
  zc_url :: string
  zc_auth_header :: "string option"
  zc_connector :: connector

text \<open>\<open>ZebraClient::new\<close>; \<open>uri_ok\<close> says whether the HTTP library takes the text as a URI.\<close>

definition zebra_client_new ::
  "(string \<Rightarrow> bool) \<Rightarrow> (string \<Rightarrow> string) \<Rightarrow> (string \<Rightarrow> string option) \<Rightarrow> string \<Rightarrow> u16 \<Rightarrow> zebra_auth \<Rightarrow>
   cleartext_policy \<Rightarrow> socks_proxy option \<Rightarrow> backend_error + zebra_client" where
  "zebra_client_new uri_ok b64 read_file host port auth policy proxy =
     (let url = ''http://'' @ host @ '':'' @ show_nat (unat port) @ ''/''
      in if \<not> uri_ok url then Inl (InvalidAddress (host @ '':'' @ show_nat (unat port)))
         else sum_bind (auth_header b64 read_file auth) (\<lambda>header.
              sum_bind (cleartext_gate host (header \<noteq> None) policy) (\<lambda>_.
              Inr \<lparr>zc_url = url, zc_auth_header = header, zc_connector = connector_new proxy\<rparr>)))"

section \<open>The gate\<close>

lemma auth_validate_cases:
  "auth_validate a = Inr () \<longleftrightarrow> za_cookie a \<noteq> None \<or> (za_user a = None \<longleftrightarrow> za_password a = None)"
  by (auto simp: auth_validate_def split: option.splits)

text \<open>A header is sent exactly when credentials are configured, so the two places that decide the gate agree.\<close>

lemma auth_header_configured:
  "auth_header b64 read_file a = Inr h \<Longrightarrow> (h \<noteq> None) = is_configured a"
  by (auto simp: auth_header_def is_configured_def sum_bind_Inr Let_def auth_validate_def
      split: option.splits if_splits)

lemma auth_header_validated: "auth_header b64 read_file a = Inr h \<Longrightarrow> auth_validate a = Inr ()"
  by (auto simp: auth_header_def sum_bind_Inr)

lemma cleartext_gate_Inr [simp]:
  "cleartext_gate host credentialed policy = Inr () \<longleftrightarrow>
     \<not> credentialed \<or> host_is_local host (cp_rfc1918_is_local policy) \<or> cp_allow_remote_cleartext policy"
  by (simp add: cleartext_gate_def)

lemma zebra_client_new_Inr:
  "zebra_client_new uri_ok b64 read_file host port auth policy proxy = Inr c \<longleftrightarrow>
     uri_ok (''http://'' @ host @ '':'' @ show_nat (unat port) @ ''/'') \<and>
     (\<exists>header. auth_header b64 read_file auth = Inr header \<and>
       cleartext_gate host (header \<noteq> None) policy = Inr () \<and>
       c = \<lparr>zc_url = ''http://'' @ host @ '':'' @ show_nat (unat port) @ ''/'', zc_auth_header = header,
            zc_connector = connector_new proxy\<rparr>)"
  by (auto simp: zebra_client_new_def Let_def sum_bind_Inr)

section \<open>The identity of credentials\<close>

lemma length_le_bytes [simp]: "length (le_bytes k n) = k"
  by (induction k arbitrary: n) auto

lemma le_bytes_inj: "le_bytes k n = le_bytes k m \<Longrightarrow> n < 256 ^ k \<Longrightarrow> m < 256 ^ k \<Longrightarrow> n = m"
proof (induction k arbitrary: n m)
  case (Suc k)
  have "unat (of_nat n :: u8) = unat (of_nat m :: u8)"
    using Suc.prems(1) by simp
  then have "n mod 256 = m mod 256"
    by (simp add: unat_of_nat)
  moreover have "n div 256 = m div 256"
    using Suc.prems by (intro Suc.IH) (simp_all add: less_mult_imp_div_less mult.commute)
  ultimately show ?case
    by (metis div_mult_mod_eq)
qed simp

lemma byte_of_char_inj: "(of_nat (of_char c) :: u8) = of_nat (of_char d) \<Longrightarrow> c = d"
proof -
  assume "(of_nat (of_char c) :: u8) = of_nat (of_char d)"
  then have "unat (of_nat (of_char c) :: u8) = unat (of_nat (of_char d) :: u8)"
    by simp
  then have "(of_char c :: nat) = of_char d"
    by (simp add: unat_of_nat)
  then show "c = d"
    by simp
qed

lemma str_bytes_inj: "str_bytes s = str_bytes t \<longleftrightarrow> s = t"
  unfolding str_bytes_def by (rule inj_map_eq_map) (auto intro!: injI dest: byte_of_char_inj)

text \<open>A field can be read back from the front of what follows it.\<close>

lemma auth_field_inj:
  assumes eq: "auth_field tag v @ r = auth_field tag v' @ r'"
    and len: "\<forall>b. v = Some b \<longrightarrow> length b < 2 ^ 64" "\<forall>b. v' = Some b \<longrightarrow> length b < 2 ^ 64"
  shows "v = v' \<and> r = r'"
proof (cases v)
  case None
  then show ?thesis
    using eq by (cases v') (auto simp: auth_field_def)
next
  case (Some b)
  then obtain b' where b': "v' = Some b'"
    using eq by (cases v') (auto simp: auth_field_def)
  have "le_bytes 8 (length b) @ b @ r = le_bytes 8 (length b') @ b' @ r'"
    using eq Some b' by (simp add: auth_field_def)
  then have "le_bytes 8 (length b) = le_bytes 8 (length b')" and rest: "b @ r = b' @ r'"
    using append_eq_append_conv [of "le_bytes 8 (length b)" "le_bytes 8 (length b')"] by simp_all
  then have "length b = length b'"
    using le_bytes_inj [of 8 "length b" "length b'"] len Some b' by simp
  with rest Some b' show ?thesis
    by simp
qed

definition field_sized :: "string option \<Rightarrow> bool" where
  "field_sized v = (case v of Some s \<Rightarrow> length s < 2 ^ 64 | None \<Rightarrow> True)"

definition auth_sized :: "zebra_auth \<Rightarrow> bool" where
  "auth_sized a \<longleftrightarrow> field_sized (za_user a) \<and> field_sized (za_password a) \<and> field_sized (za_cookie a)"

lemma string_field_inj:
  assumes "auth_field tag (map_option str_bytes v) @ r = auth_field tag (map_option str_bytes v') @ r'"
    and sized: "field_sized v" "field_sized v'"
  shows "v = v' \<and> r = r'"
proof -
  have "\<forall>b. map_option str_bytes v = Some b \<longrightarrow> length b < 2 ^ 64" "\<forall>b. map_option str_bytes v' = Some b \<longrightarrow> length b < 2 ^ 64"
    using sized by (auto simp: field_sized_def str_bytes_def)
  from auth_field_inj [OF assms(1) this] show ?thesis
    by (cases v; cases v') (auto simp: str_bytes_inj)
qed

lemma auth_preimage_inj:
  assumes eq: "auth_preimage a = auth_preimage b" and len: "auth_sized a" "auth_sized b"
  shows "a = b"
proof -
  let ?f = "\<lambda>tag v. auth_field tag (map_option str_bytes v)"
  have sized: "field_sized (za_user a)" "field_sized (za_user b)" "field_sized (za_password a)"
    "field_sized (za_password b)" "field_sized (za_cookie a)" "field_sized (za_cookie b)"
    using len by (simp_all add: auth_sized_def)
  have "?f 0 (za_user a) @ ?f 1 (za_password a) @ ?f 2 (za_cookie a) =
      ?f 0 (za_user b) @ ?f 1 (za_password b) @ ?f 2 (za_cookie b)"
    using eq by (simp add: auth_preimage_def)
  note user = string_field_inj [OF this sized(1,2)]
  note password = string_field_inj [OF conjunct2 [OF user] sized(3,4)]
  have "?f 2 (za_cookie a) @ [] = ?f 2 (za_cookie b) @ []"
    using password by simp
  note cookie = string_field_inj [OF this sized(5,6)]
  show ?thesis
    using user password cookie by (intro zebra_auth.equality) auto
qed

lemma hex_encode_inj: "hex_encode x = hex_encode y \<Longrightarrow> x = y"
  by (metis hex_decode_encode option.inject)

lemma identity_digest_eq:
  assumes "identity_digest sha a = identity_digest sha b" "auth_sized a" "auth_sized b"
  shows "a = b \<or> (\<exists>x y. x \<noteq> y \<and> sha x = sha y)"
  using assms auth_preimage_inj hex_encode_inj unfolding identity_digest_def by blast

end
