(* ===== verification/Backend.thy ===== *)
theory Backend
  imports Locality Network
begin

text \<open>
  The upstream endpoint a wallet dials: \<open>src/backend.rs\<close> (the server token, TLS trust, the refusals before a dial and
  the verifier a dial uses) with the \<open>[backend]\<close> section of \<open>src/config.rs\<close> and its per-wallet overrides.  SHA-256,
  certificate chain validation, PEM reading and the transports are parameters.
\<close>

section \<open>TLS settings\<close>

datatype tls_roots = Native | Webpki

datatype cert_fingerprint = CertFingerprint "u8 list"

datatype server_error =
    InvalidTlsRoots string
  | InvalidTlsMode string
  | FingerprintLength string nat
  | FingerprintHex string
  | ZecrocksOnRegtest
  | InvalidPort string
  | InvalidEndpoint string
  | EmptyServerHost string
  | TrustOnPlaintext string u16
  | PlaintextRefused string u16
  | BadUri string
  | BadCaFile
  | ConnectFailed
  | Auth backend_error
  | SkipVerifyWithTrust
  | TrustWithTlsOff
  | TrustWithHttpToken
  | CaFileUnreadable string
  | BadProxy proxy_error
  | InSection string server_error

definition tls_roots_parse :: "string \<Rightarrow> server_error + tls_roots" where
  "tls_roots_parse s =
     (let t = to_ascii_lowercase (trim s)
      in if t = ''native'' \<or> t = ''system'' then Inr Native
         else if t = ''webpki'' \<or> t = ''mozilla'' then Inr Webpki
         else Inl (InvalidTlsRoots t))"

definition parse_tls_mode :: "string \<Rightarrow> server_error + bool option" where
  "parse_tls_mode s =
     (let t = to_ascii_lowercase (trim s)
      in if t = ''auto'' then Inr None
         else if t = ''yes'' \<or> t = ''true'' \<or> t = ''on'' \<or> t = ''tls'' then Inr (Some True)
         else if t = ''no'' \<or> t = ''false'' \<or> t = ''off'' \<or> t = ''plaintext'' then Inr (Some False)
         else Inl (InvalidTlsMode t))"

definition fingerprint_parse :: "string \<Rightarrow> server_error + cert_fingerprint" where
  "fingerprint_parse s =
     (let hex_only = filter (\<lambda>c. c \<noteq> CHR '':'') (trim s)
      in if length hex_only \<noteq> 64 then Inl (FingerprintLength s (length hex_only))
         else case hex_decode hex_only of
             None \<Rightarrow> Inl (FingerprintHex s)
           | Some bytes \<Rightarrow> Inr (CertFingerprint bytes))"

definition fingerprint_of :: "(u8 list \<Rightarrow> u8 list) \<Rightarrow> u8 list \<Rightarrow> cert_fingerprint" where
  "fingerprint_of sha cert = CertFingerprint (sha cert)"

text \<open>A byte as \<open>{b:02X}\<close> prints it.\<close>

definition upper_hex_digit :: "nat \<Rightarrow> char" where
  "upper_hex_digit n = (if n < 10 then char_of (48 + n) else char_of (55 + n))"

definition upper_hex_byte :: "u8 \<Rightarrow> string" where
  "upper_hex_byte b = [upper_hex_digit (unat b div 16), upper_hex_digit (unat b mod 16)]"

primrec fingerprint_display :: "cert_fingerprint \<Rightarrow> string" where
  "fingerprint_display (CertFingerprint bytes) = join '':'' (map upper_hex_byte bytes)"

record tls_options =
  to_force_tls :: "bool option"
  to_roots :: tls_roots
  to_insecure_skip_verify :: bool
  to_ca_pem :: "u8 list option"
  to_pins :: "cert_fingerprint list"

definition tls_options_default :: tls_options where
  "tls_options_default =
     \<lparr>to_force_tls = None, to_roots = Native, to_insecure_skip_verify = False, to_ca_pem = None, to_pins = []\<rparr>"

definition requires_tls :: "tls_options \<Rightarrow> bool" where
  "requires_tls t \<longleftrightarrow> to_ca_pem t \<noteq> None \<or> to_pins t \<noteq> []"

section \<open>Endpoints\<close>

datatype server_kind = Lightwalletd | ZebraRpc

record server =
  sv_host :: string
  sv_port :: u16
  sv_kind :: server_kind
  sv_network :: z_network
  sv_tls :: tls_options
  sv_zebra_auth :: zebra_auth
  sv_cleartext_policy :: cleartext_policy
  sv_assume_transparent :: bool
  sv_proxy :: "socks_proxy option"

definition server_new :: "string \<Rightarrow> u16 \<Rightarrow> server_kind \<Rightarrow> z_network \<Rightarrow> server" where
  "server_new host port kind network =
     \<lparr>sv_host = host, sv_port = port, sv_kind = kind, sv_network = network, sv_tls = tls_options_default,
      sv_zebra_auth = zebra_auth_default, sv_cleartext_policy = cleartext_policy_default,
      sv_assume_transparent = False, sv_proxy = None\<rparr>"

definition ZEBRA_RPC_PORT_MAIN :: u16 where "ZEBRA_RPC_PORT_MAIN = 8234"
definition ZEBRA_RPC_PORT_TEST :: u16 where "ZEBRA_RPC_PORT_TEST = 18234"

definition trim_end_slashes :: "string \<Rightarrow> string" where
  "trim_end_slashes s = rev (dropWhile (\<lambda>c. c = CHR ''/'') (rev s))"

definition token_scheme :: "string \<Rightarrow> server_kind \<times> bool option \<times> string" where
  "token_scheme token =
     (case strip_prefix ''zebra://'' token of
        Some rest \<Rightarrow> (ZebraRpc, None, rest)
      | None \<Rightarrow>
          (case strip_prefix ''https://'' token of
             Some rest \<Rightarrow> (Lightwalletd, Some True, rest)
           | None \<Rightarrow>
               (case strip_prefix ''http://'' token of
                  Some rest \<Rightarrow> (Lightwalletd, Some False, rest)
                | None \<Rightarrow> (Lightwalletd, None, token))))"

definition token_address :: "string \<Rightarrow> bool option \<Rightarrow> string \<Rightarrow> server_error + (string \<times> u16)" where
  "token_address token force_tls rest =
     (case rsplit_once CHR '':'' rest of
        Some (host, port_str) \<Rightarrow>
          (case parse_unsigned 65535 port_str of
             None \<Rightarrow> Inl (InvalidPort token)
           | Some port \<Rightarrow> Inr (host, of_nat port))
      | None \<Rightarrow> if force_tls = Some True then Inr (rest, 443) else Inl (InvalidEndpoint token))"

definition resolve_server :: "string \<Rightarrow> z_network \<Rightarrow> server_error + server" where
  "resolve_server token network =
     (if token = ''zebra''
      then Inr (server_new ''127.0.0.1'' (case network of Main \<Rightarrow> ZEBRA_RPC_PORT_MAIN | _ \<Rightarrow> ZEBRA_RPC_PORT_TEST)
                  ZebraRpc network)
      else if token = ''zecrocks''
      then (case network of
              Main \<Rightarrow> Inr ((server_new ''zec.rocks'' 443 Lightwalletd network)
                            \<lparr>sv_tls := tls_options_default\<lparr>to_force_tls := Some True\<rparr>\<rparr>)
            | Test \<Rightarrow> Inr ((server_new ''testnet.zec.rocks'' 443 Lightwalletd network)
                            \<lparr>sv_tls := tls_options_default\<lparr>to_force_tls := Some True\<rparr>\<rparr>)
            | Regtest _ \<Rightarrow> Inl ZecrocksOnRegtest)
      else
        (let (kind, force_tls, rest) = token_scheme token;
             rest = trim_end_slashes rest
         in sum_bind (token_address token force_tls rest) (\<lambda>(host, port).
            if host = [] then Inl (EmptyServerHost token)
            else Inr ((server_new host port kind network)\<lparr>sv_tls := tls_options_default\<lparr>to_force_tls := force_tls\<rparr>\<rparr>))))"

definition use_tls :: "server \<Rightarrow> bool" where
  "use_tls s = (case to_force_tls (sv_tls s) of Some b \<Rightarrow> b | None \<Rightarrow> \<not> host_is_local (sv_host s) True)"

definition server_endpoint :: "server \<Rightarrow> string" where
  "server_endpoint s =
     (if use_tls s then ''https'' else ''http'') @ ''://'' @ sv_host s @ '':'' @ show_nat (unat (sv_port s))"

definition describe_server :: "server \<Rightarrow> string" where
  "describe_server s =
     (let via = (case sv_proxy s of Some p \<Rightarrow> '' via '' @ proxy_display p | None \<Rightarrow> [])
      in case sv_kind s of
          Lightwalletd \<Rightarrow>
            ''lightwalletd '' @ sv_host s @ '':'' @ show_nat (unat (sv_port s)) @ '' (tls='' @
            (if use_tls s then ''true'' else ''false'') @ '')'' @ via
        | ZebraRpc \<Rightarrow> ''zebra-rpc '' @ sv_host s @ '':'' @ show_nat (unat (sv_port s)) @ via)"

section \<open>Refusals before a dial\<close>

definition check_plaintext_lwd :: "server \<Rightarrow> server_error + unit" where
  "check_plaintext_lwd s =
     (if requires_tls (sv_tls s) then Inl (TrustOnPlaintext (sv_host s) (sv_port s))
      else if \<not> host_is_local (sv_host s) (cp_rfc1918_is_local (sv_cleartext_policy s)) \<and>
              \<not> cp_allow_remote_cleartext (sv_cleartext_policy s)
      then Inl (PlaintextRefused (sv_host s) (sv_port s))
      else Inr ())"

definition lift_auth :: "backend_error + 'a \<Rightarrow> server_error + 'a" where
  "lift_auth r = (case r of Inl e \<Rightarrow> Inl (Auth e) | Inr x \<Rightarrow> Inr x)"

definition preflight :: "server \<Rightarrow> server_error + unit" where
  "preflight s =
     (case sv_kind s of
        Lightwalletd \<Rightarrow> if \<not> use_tls s then check_plaintext_lwd s else Inr ()
      | ZebraRpc \<Rightarrow>
          sum_bind (lift_auth (auth_validate (sv_zebra_auth s))) (\<lambda>_.
          lift_auth (cleartext_gate (sv_host s) (is_configured (sv_zebra_auth s)) (sv_cleartext_policy s))))"

section \<open>The dial\<close>

text \<open>
  What the libraries decide: whether a text is a URI, the encoding of credentials, the files, whether a PEM bundle holds a
  usable certificate, whether the TLS stack takes a configuration, the digest, chain validation, and whether the
  connection is made.
\<close>

datatype verifier =
    PinnedVerifier "cert_fingerprint list" "u8 list option"
  | RootsVerifier tls_roots "u8 list option"
  | NoVerification

record tls_lib =
  tl_uri_ok :: "string \<Rightarrow> bool"
  tl_b64 :: "string \<Rightarrow> string"
  tl_read_file :: "string \<Rightarrow> string option"
  tl_ca_usable :: "u8 list \<Rightarrow> bool"
  tl_config_ok :: "verifier \<Rightarrow> bool"
  tl_sha256 :: "u8 list \<Rightarrow> u8 list"
  tl_chain_ok :: "u8 list \<Rightarrow> u8 list \<Rightarrow> string \<Rightarrow> bool"
  tl_roots_ok :: "tls_roots \<Rightarrow> u8 list option \<Rightarrow> u8 list \<Rightarrow> string \<Rightarrow> bool"
  tl_reachable :: "connector \<Rightarrow> string \<Rightarrow> bool"

text \<open>The verifier \<open>connect_lwd\<close> chooses: pins first, then the root store, and no verification last.\<close>

definition choose_verifier :: "tls_options \<Rightarrow> verifier" where
  "choose_verifier t =
     (if to_pins t \<noteq> [] then PinnedVerifier (to_pins t) (to_ca_pem t)
      else if \<not> to_insecure_skip_verify t then RootsVerifier (to_roots t) (to_ca_pem t)
      else NoVerification)"

definition verifier_new :: "tls_lib \<Rightarrow> verifier \<Rightarrow> server_error + unit" where
  "verifier_new lib v =
     (if (case v of PinnedVerifier _ (Some pem) \<Rightarrow> \<not> tl_ca_usable lib pem | _ \<Rightarrow> False) then Inl BadCaFile
      else if \<not> tl_config_ok lib v then Inl BadCaFile else Inr ())"

text \<open>\<open>verify_server_cert\<close> of the three verifiers, for a leaf certificate and the host it should be for.\<close>

definition accepts_cert :: "tls_lib \<Rightarrow> verifier \<Rightarrow> u8 list \<Rightarrow> string \<Rightarrow> bool" where
  "accepts_cert lib v cert host =
     (case v of
        PinnedVerifier pins ca \<Rightarrow>
          (let presented = fingerprint_of (tl_sha256 lib) cert
           in list_ex (\<lambda>pin. pin = presented) pins \<and>
              (case ca of Some pem \<Rightarrow> tl_chain_ok lib pem cert host | None \<Rightarrow> True))
      | RootsVerifier roots ca \<Rightarrow> tl_roots_ok lib roots ca cert host
      | NoVerification \<Rightarrow> True)"

datatype any_source =
    LwdConnection "verifier option" connector string bool
  | ZebraConnection zebra_client

definition connect_lwd :: "tls_lib \<Rightarrow> server \<Rightarrow> server_error + any_source" where
  "connect_lwd lib s =
     sum_bind (if \<not> use_tls s then check_plaintext_lwd s else Inr ()) (\<lambda>_.
     if \<not> tl_uri_ok lib (server_endpoint s) then Inl (BadUri (server_endpoint s))
     else sum_bind (if use_tls s then verifier_new lib (choose_verifier (sv_tls s)) else Inr ()) (\<lambda>_.
          let conn = connector_new (sv_proxy s)
          in if \<not> tl_reachable lib conn (server_endpoint s) then Inl ConnectFailed
             else Inr (LwdConnection (if use_tls s then Some (choose_verifier (sv_tls s)) else None) conn
                         (server_endpoint s) (sv_assume_transparent s))))"

definition connect_zebra :: "tls_lib \<Rightarrow> server \<Rightarrow> server_error + any_source" where
  "connect_zebra lib s =
     sum_bind (lift_auth (zebra_client_new (tl_uri_ok lib) (tl_b64 lib) (tl_read_file lib) (sv_host s) (sv_port s)
                 (sv_zebra_auth s) (sv_cleartext_policy s) (sv_proxy s))) (\<lambda>client.
     if \<not> tl_reachable lib (zc_connector client) (zc_url client) then Inl ConnectFailed
     else Inr (ZebraConnection client))"

definition connect_server :: "tls_lib \<Rightarrow> server \<Rightarrow> server_error + any_source" where
  "connect_server lib s = (case sv_kind s of Lightwalletd \<Rightarrow> connect_lwd lib s | ZebraRpc \<Rightarrow> connect_zebra lib s)"

section \<open>Configuration\<close>

record backend_config =
  bc_server :: string
  bc_connect_timeout_secs :: nat
  bc_reconnect_base_secs :: nat
  bc_reconnect_max_secs :: nat
  bc_rfc1918_is_local :: bool
  bc_allow_remote_cleartext :: bool
  bc_tls :: "bool option"
  bc_tls_roots :: tls_roots
  bc_tls_insecure_skip_verify :: bool
  bc_tls_ca_pem :: "u8 list option"
  bc_tls_ca_file :: "string option"
  bc_tls_pins :: "cert_fingerprint list"
  bc_assume_transparent :: bool
  bc_proxy :: "socks_proxy option"

record backend_file =
  bf_server :: "string option"
  bf_connect_timeout_secs :: "nat option"
  bf_reconnect_base_secs :: "nat option"
  bf_reconnect_max_secs :: "nat option"
  bf_rfc1918_is_local :: "bool option"
  bf_allow_remote_cleartext :: "bool option"
  bf_tls :: "string option"
  bf_tls_roots :: "string option"
  bf_tls_insecure_skip_verify :: "bool option"
  bf_tls_ca_file :: "string option"
  bf_tls_pinned_sha256 :: "string list option"
  bf_assume_transparent :: "bool option"
  bf_proxy :: "string option"

definition select_server_token :: "string option \<Rightarrow> string option \<Rightarrow> string" where
  "select_server_token cli_server file_server =
     (case cli_server of Some t \<Rightarrow> t | None \<Rightarrow> (case file_server of Some t \<Rightarrow> t | None \<Rightarrow> ''zebra''))"

definition unwrap_or :: "'a option \<Rightarrow> 'a \<Rightarrow> 'a" where
  "unwrap_or x d = (case x of Some v \<Rightarrow> v | None \<Rightarrow> d)"

text \<open>\<open>context\<close>, and a parse applied to an optional key.\<close>

definition with_context :: "string \<Rightarrow> server_error + 'a \<Rightarrow> server_error + 'a" where
  "with_context ctx r = (case r of Inl e \<Rightarrow> Inl (InSection ctx e) | Inr x \<Rightarrow> Inr x)"

definition optional :: "('a \<Rightarrow> server_error + 'b) \<Rightarrow> 'a option \<Rightarrow> server_error + 'b option" where
  "optional f x = (case x of None \<Rightarrow> Inr None | Some v \<Rightarrow> (case f v of Inl e \<Rightarrow> Inl e | Inr y \<Rightarrow> Inr (Some y)))"

fun parse_pins :: "string list \<Rightarrow> server_error + cert_fingerprint list" where
  "parse_pins [] = Inr []"
| "parse_pins (p # ps) = sum_bind (fingerprint_parse p) (\<lambda>fp. sum_bind (parse_pins ps) (\<lambda>fps. Inr (fp # fps)))"

definition read_ca :: "(string \<Rightarrow> u8 list option) \<Rightarrow> string \<Rightarrow> server_error + u8 list" where
  "read_ca read path = (case read path of None \<Rightarrow> Inl (CaFileUnreadable path) | Some pem \<Rightarrow> Inr pem)"

definition parse_proxy_token :: "string \<Rightarrow> server_error + socks_proxy" where
  "parse_proxy_token t = (case proxy_parse t of Inl e \<Rightarrow> Inl (BadProxy e) | Inr p \<Rightarrow> Inr p)"

text \<open>The \<open>[backend]\<close> part of \<open>AppConfig::resolve_overrides_with\<close>; \<open>read\<close> reads the CA file.\<close>

definition resolve_backend ::
  "(string \<Rightarrow> u8 list option) \<Rightarrow> string option \<Rightarrow> string option \<Rightarrow> backend_file \<Rightarrow> server_error + backend_config" where
  "resolve_backend read cli_server cli_proxy f =
     (let base = max 1 (unwrap_or (bf_reconnect_base_secs f) 1)
      in sum_bind (with_context ''[backend] tls'' (optional parse_tls_mode (bf_tls f))) (\<lambda>tls.
         sum_bind (with_context ''[backend] tls_roots'' (optional tls_roots_parse (bf_tls_roots f))) (\<lambda>roots.
         sum_bind (optional (read_ca read) (bf_tls_ca_file f)) (\<lambda>ca_pem.
         sum_bind (with_context ''[backend] tls_pinned_sha256'' (parse_pins (unwrap_or (bf_tls_pinned_sha256 f) []))) (\<lambda>pins.
         sum_bind (with_context ''[backend] proxy''
                     (optional parse_proxy_token (case cli_proxy of Some t \<Rightarrow> Some t | None \<Rightarrow> bf_proxy f))) (\<lambda>proxy.
         Inr \<lparr>bc_server = select_server_token cli_server (bf_server f),
              bc_connect_timeout_secs = max 1 (unwrap_or (bf_connect_timeout_secs f) 10),
              bc_reconnect_base_secs = base,
              bc_reconnect_max_secs = max base (unwrap_or (bf_reconnect_max_secs f) 60),
              bc_rfc1918_is_local = unwrap_or (bf_rfc1918_is_local f) True,
              bc_allow_remote_cleartext = unwrap_or (bf_allow_remote_cleartext f) False,
              bc_tls = unwrap_or tls None,
              bc_tls_roots = unwrap_or roots Native,
              bc_tls_insecure_skip_verify = unwrap_or (bf_tls_insecure_skip_verify f) False,
              bc_tls_ca_pem = ca_pem,
              bc_tls_ca_file = bf_tls_ca_file f,
              bc_tls_pins = pins,
              bc_assume_transparent = unwrap_or (bf_assume_transparent f) False,
              bc_proxy = proxy\<rparr>))))))"

definition validate_backend_tls :: "backend_config \<Rightarrow> server_error + unit" where
  "validate_backend_tls b =
     (let authenticating = bc_tls_ca_pem b \<noteq> None \<or> bc_tls_pins b \<noteq> []
      in if authenticating \<and> bc_tls_insecure_skip_verify b then Inl SkipVerifyWithTrust
         else if authenticating \<and> bc_tls b = Some False then Inl TrustWithTlsOff
         else if authenticating \<and> starts_with (bc_server b) ''http://'' then Inl TrustWithHttpToken
         else Inr ())"

record backend_override =
  bo_server :: "string option"
  bo_tls :: "bool option option"
  bo_tls_roots :: "tls_roots option"
  bo_tls_insecure_skip_verify :: "bool option"
  bo_tls_ca_pem :: "u8 list option"
  bo_tls_ca_file :: "string option"
  bo_tls_pins :: "cert_fingerprint list option"
  bo_assume_transparent :: "bool option"

definition backend_override_default :: backend_override where
  "backend_override_default =
     \<lparr>bo_server = None, bo_tls = None, bo_tls_roots = None, bo_tls_insecure_skip_verify = None, bo_tls_ca_pem = None,
      bo_tls_ca_file = None, bo_tls_pins = None, bo_assume_transparent = None\<rparr>"

definition override_is_empty :: "backend_override \<Rightarrow> bool" where
  "override_is_empty v \<longleftrightarrow>
     bo_server v = None \<and> bo_tls v = None \<and> bo_tls_roots v = None \<and> bo_tls_insecure_skip_verify v = None \<and>
     bo_tls_ca_pem v = None \<and> bo_tls_pins v = None \<and> bo_assume_transparent v = None"

definition effective :: "backend_override \<Rightarrow> backend_config \<Rightarrow> backend_config" where
  "effective v g =
     g\<lparr>bc_server := unwrap_or (bo_server v) (bc_server g),
       bc_tls := unwrap_or (bo_tls v) (bc_tls g),
       bc_tls_roots := unwrap_or (bo_tls_roots v) (bc_tls_roots g),
       bc_tls_insecure_skip_verify := unwrap_or (bo_tls_insecure_skip_verify v) (bc_tls_insecure_skip_verify g),
       bc_tls_ca_pem := (case bo_tls_ca_pem v of Some p \<Rightarrow> Some p | None \<Rightarrow> bc_tls_ca_pem g),
       bc_tls_ca_file := (case bo_tls_ca_file v of Some p \<Rightarrow> Some p | None \<Rightarrow> bc_tls_ca_file g),
       bc_tls_pins := unwrap_or (bo_tls_pins v) (bc_tls_pins g),
       bc_assume_transparent := unwrap_or (bo_assume_transparent v) (bc_assume_transparent g)\<rparr>"

text \<open>The keys of a \<open>[wallets.<name>]\<close> section that override the backend.\<close>

record wallet_backend_file =
  wf_server :: "string option"
  wf_tls :: "string option"
  wf_tls_roots :: "string option"
  wf_tls_insecure_skip_verify :: "bool option"
  wf_tls_ca_file :: "string option"
  wf_tls_pinned_sha256 :: "string list option"
  wf_assume_transparent :: "bool option"

definition resolve_wallet_backend ::
  "(string \<Rightarrow> u8 list option) \<Rightarrow> string \<Rightarrow> wallet_backend_file \<Rightarrow> server_error + backend_override" where
  "resolve_wallet_backend read name w =
     (let key = (\<lambda>k. ''[wallets.'' @ name @ ''] '' @ k)
      in sum_bind (with_context (key ''tls'') (optional parse_tls_mode (wf_tls w))) (\<lambda>tls.
         sum_bind (with_context (key ''tls_roots'') (optional tls_roots_parse (wf_tls_roots w))) (\<lambda>roots.
         sum_bind (optional (read_ca read) (wf_tls_ca_file w)) (\<lambda>ca_pem.
         sum_bind (with_context (key ''tls_pinned_sha256'') (optional parse_pins (wf_tls_pinned_sha256 w))) (\<lambda>pins.
         Inr \<lparr>bo_server = wf_server w, bo_tls = tls, bo_tls_roots = roots,
              bo_tls_insecure_skip_verify = wf_tls_insecure_skip_verify w, bo_tls_ca_pem = ca_pem,
              bo_tls_ca_file = wf_tls_ca_file w, bo_tls_pins = pins,
              bo_assume_transparent = wf_assume_transparent w\<rparr>)))))"

text \<open>The checks after the sections are read: the global settings, then every wallet that overrides any of them.\<close>

fun validate_wallet_backends :: "backend_config \<Rightarrow> (string \<times> backend_override) list \<Rightarrow> server_error + unit" where
  "validate_wallet_backends g [] = Inr ()"
| "validate_wallet_backends g ((name, v) # ws) =
     sum_bind (if override_is_empty v then Inr ()
               else with_context (''[wallets.'' @ name @ '']'') (validate_backend_tls (effective v g))) (\<lambda>_.
     validate_wallet_backends g ws)"

definition validate_backends :: "backend_config \<Rightarrow> (string \<times> backend_override) list \<Rightarrow> server_error + unit" where
  "validate_backends g ws = sum_bind (validate_backend_tls g) (\<lambda>_. validate_wallet_backends g ws)"

section \<open>Resolving an endpoint with its settings\<close>

definition bc_tls_options :: "backend_config \<Rightarrow> tls_options" where
  "bc_tls_options b =
     \<lparr>to_force_tls = bc_tls b, to_roots = bc_tls_roots b, to_insecure_skip_verify = bc_tls_insecure_skip_verify b,
      to_ca_pem = bc_tls_ca_pem b, to_pins = bc_tls_pins b\<rparr>"

definition apply_zebra_auth :: "zebra_auth \<Rightarrow> server \<Rightarrow> server" where
  "apply_zebra_auth a s = (if sv_kind s = ZebraRpc then s\<lparr>sv_zebra_auth := a\<rparr> else s)"

definition apply_cleartext_policy :: "cleartext_policy \<Rightarrow> server \<Rightarrow> server" where
  "apply_cleartext_policy p s = s\<lparr>sv_cleartext_policy := p\<rparr>"

definition apply_tls :: "tls_options \<Rightarrow> server \<Rightarrow> server" where
  "apply_tls opts s =
     (let scheme_forced = to_force_tls (sv_tls s);
          s = s\<lparr>sv_tls := opts\<rparr>
      in case scheme_forced of
          Some forced \<Rightarrow> s\<lparr>sv_tls := (sv_tls s)\<lparr>to_force_tls := Some forced\<rparr>\<rparr>
        | None \<Rightarrow> s)"

definition apply_transparent_capability_override :: "bool \<Rightarrow> server \<Rightarrow> server" where
  "apply_transparent_capability_override assume_capable s =
     (if assume_capable \<and> sv_kind s \<noteq> Lightwalletd then s else s\<lparr>sv_assume_transparent := assume_capable\<rparr>)"

definition apply_proxy :: "socks_proxy option \<Rightarrow> server \<Rightarrow> server" where
  "apply_proxy p s = s\<lparr>sv_proxy := p\<rparr>"

definition apply_backend :: "zebra_auth \<Rightarrow> backend_config \<Rightarrow> server \<Rightarrow> server" where
  "apply_backend zebra b s =
     apply_proxy (bc_proxy b)
       (apply_transparent_capability_override (bc_assume_transparent b)
         (apply_tls (bc_tls_options b)
           (apply_cleartext_policy
              \<lparr>cp_rfc1918_is_local = bc_rfc1918_is_local b, cp_allow_remote_cleartext = bc_allow_remote_cleartext b\<rparr>
             (apply_zebra_auth zebra s))))"

definition resolve_configured :: "zebra_auth \<Rightarrow> backend_config \<Rightarrow> z_network \<Rightarrow> server_error + server" where
  "resolve_configured zebra b network =
     sum_bind (resolve_server (bc_server b) network) (\<lambda>s. Inr (apply_backend zebra b s))"

definition resolve_for_wallet ::
  "zebra_auth \<Rightarrow> backend_config \<Rightarrow> backend_override \<Rightarrow> z_network \<Rightarrow> server_error + server" where
  "resolve_for_wallet zebra g v network =
     (let b = effective v g
      in sum_bind (resolve_server (bc_server b) network) (\<lambda>s. Inr (apply_backend zebra b s)))"

section \<open>What a resolved endpoint carries\<close>

lemma unwrap_or_simps [simp]: "unwrap_or None d = d" "unwrap_or (Some x) d = x"
  by (simp_all add: unwrap_or_def)

lemma effective_empty: "override_is_empty v \<Longrightarrow> bo_tls_ca_file v = None \<Longrightarrow> effective v g = g"
  by (simp add: effective_def override_is_empty_def)

lemma validate_backend_tls_effective_empty:
  "override_is_empty v \<Longrightarrow> validate_backend_tls (effective v g) = validate_backend_tls g"
  by (auto simp: effective_def override_is_empty_def validate_backend_tls_def Let_def)

text \<open>Every wallet's effective settings pass the checks, also those of the wallets that were skipped.\<close>

lemma validate_backends_effective:
  assumes "validate_backends g ws = Inr ()" "(name, v) \<in> set ws"
  shows "validate_backend_tls (effective v g) = Inr ()"
proof (cases "override_is_empty v")
  case True
  then show ?thesis
    using assms by (simp add: validate_backend_tls_effective_empty validate_backends_def sum_bind_Inr)
next
  case False
  have "validate_wallet_backends g ws = Inr ()"
    using assms(1) by (simp add: validate_backends_def sum_bind_Inr)
  then show ?thesis
    using assms(2) False
  proof (induction ws)
    case (Cons w ws)
    then show ?case
      by (cases w) (auto simp: sum_bind_Inr with_context_def split: if_splits sum.splits)
  qed simp
qed

lemma apply_backend_fields [simp]:
  "sv_host (apply_backend z b s) = sv_host s" "sv_port (apply_backend z b s) = sv_port s"
  "sv_kind (apply_backend z b s) = sv_kind s" "sv_network (apply_backend z b s) = sv_network s"
  "sv_proxy (apply_backend z b s) = bc_proxy b"
  "sv_zebra_auth (apply_backend z b s) = (if sv_kind s = ZebraRpc then z else sv_zebra_auth s)"
  "sv_cleartext_policy (apply_backend z b s) =
     \<lparr>cp_rfc1918_is_local = bc_rfc1918_is_local b, cp_allow_remote_cleartext = bc_allow_remote_cleartext b\<rparr>"
  by (simp_all add: apply_backend_def apply_proxy_def apply_transparent_capability_override_def apply_tls_def
      apply_cleartext_policy_def apply_zebra_auth_def Let_def split: option.split)

lemma apply_backend_tls:
  "sv_tls (apply_backend z b s) =
     (bc_tls_options b)\<lparr>to_force_tls := (case to_force_tls (sv_tls s) of Some f \<Rightarrow> Some f | None \<Rightarrow> bc_tls b)\<rparr>"
  by (simp add: apply_backend_def apply_proxy_def apply_transparent_capability_override_def apply_tls_def
      apply_cleartext_policy_def apply_zebra_auth_def bc_tls_options_def Let_def split: option.split)

text \<open>The token decides the force flag: it is off only for an \<open>http://\<close> token, and no credentials are attached yet.\<close>

lemma resolve_server_shape:
  assumes "resolve_server token network = Inr s"
  shows "sv_zebra_auth s = zebra_auth_default \<and> sv_network s = network \<and> sv_host s \<noteq> [] \<and>
    (to_force_tls (sv_tls s) = Some False \<longrightarrow> starts_with token ''http://'') \<and>
    (sv_kind s = ZebraRpc \<longrightarrow> to_force_tls (sv_tls s) = None)"
proof (cases "token = ''zebra'' \<or> token = ''zecrocks''")
  case True
  then show ?thesis
    using assms by (cases network) (auto simp: resolve_server_def server_new_def tls_options_default_def split: if_splits)
next
  case False
  obtain kind force_tls rest where scheme: "token_scheme token = (kind, force_tls, rest)"
    by (cases "token_scheme token")
  obtain host port where "token_address token force_tls (trim_end_slashes rest) = Inr (host, port)" "host \<noteq> []"
    and s: "s = (server_new host port kind network)\<lparr>sv_tls := tls_options_default\<lparr>to_force_tls := force_tls\<rparr>\<rparr>"
    using assms False scheme by (auto simp: resolve_server_def sum_bind_Inr split: if_splits)
  moreover have "(force_tls = Some False \<longrightarrow> starts_with token ''http://'') \<and> (kind = ZebraRpc \<longrightarrow> force_tls = None)"
    using scheme by (auto simp: token_scheme_def strip_prefix_def split: if_splits)
  ultimately show ?thesis
    by (simp add: server_new_def)
qed

lemma resolve_for_wallet_Inr:
  "resolve_for_wallet z g v network = Inr s \<longleftrightarrow>
     (\<exists>s0. resolve_server (bc_server (effective v g)) network = Inr s0 \<and> s = apply_backend z (effective v g) s0)"
  by (auto simp: resolve_for_wallet_def Let_def sum_bind_Inr)

section \<open>What a dial does\<close>

lemma connect_lwd_Inr:
  "connect_lwd lib s = Inr src \<longleftrightarrow>
     (\<not> use_tls s \<longrightarrow> check_plaintext_lwd s = Inr ()) \<and> tl_uri_ok lib (server_endpoint s) \<and>
     (use_tls s \<longrightarrow> verifier_new lib (choose_verifier (sv_tls s)) = Inr ()) \<and>
     tl_reachable lib (connector_new (sv_proxy s)) (server_endpoint s) \<and>
     src = LwdConnection (if use_tls s then Some (choose_verifier (sv_tls s)) else None) (connector_new (sv_proxy s))
       (server_endpoint s) (sv_assume_transparent s)"
  by (auto simp: connect_lwd_def sum_bind_Inr Let_def)

lemma check_plaintext_lwd_Inr:
  "check_plaintext_lwd s = Inr () \<longleftrightarrow>
     \<not> requires_tls (sv_tls s) \<and>
     (host_is_local (sv_host s) (cp_rfc1918_is_local (sv_cleartext_policy s)) \<or> cp_allow_remote_cleartext (sv_cleartext_policy s))"
  by (auto simp: check_plaintext_lwd_def)

lemma lift_auth_Inr [simp]: "lift_auth r = Inr x \<longleftrightarrow> r = Inr x"
  by (auto simp: lift_auth_def split: sum.splits)

lemma connect_zebra_Inr:
  "connect_zebra lib s = Inr src \<longleftrightarrow>
     (\<exists>client. zebra_client_new (tl_uri_ok lib) (tl_b64 lib) (tl_read_file lib) (sv_host s) (sv_port s) (sv_zebra_auth s)
        (sv_cleartext_policy s) (sv_proxy s) = Inr client \<and> tl_reachable lib (zc_connector client) (zc_url client) \<and>
        src = ZebraConnection client)"
  by (auto simp: connect_zebra_def sum_bind_Inr)

text \<open>C11. No setting that authenticates the server is void.  For every wallet of a configuration that loads, if pins or a private
  CA are in force for it and it dials a lightwalletd, then a dial that is made is over TLS and verifies the certificate,
  and a pinned endpoint accepts only certificates with a pinned fingerprint (that the private CA vouches for, if there is
  one).
\<close>

theorem tls_trust_never_void:
  assumes "validate_backends g ws = Inr ()" "(name, v) \<in> set ws"
    and "resolve_for_wallet zebra g v network = Inr s" "sv_kind s = Lightwalletd"
    and "connect_server lib s = Inr src"
    and "bc_tls_pins (effective v g) \<noteq> [] \<or> bc_tls_ca_pem (effective v g) \<noteq> None"
  shows "\<exists>ver conn url assume_capable. src = LwdConnection (Some ver) conn url assume_capable \<and> ver \<noteq> NoVerification \<and>
    (bc_tls_pins (effective v g) \<noteq> [] \<longrightarrow> (\<forall>cert host. accepts_cert lib ver cert host \<longrightarrow>
       fingerprint_of (tl_sha256 lib) cert \<in> set (bc_tls_pins (effective v g)) \<and>
       (\<forall>pem. bc_tls_ca_pem (effective v g) = Some pem \<longrightarrow> tl_chain_ok lib pem cert host)))"
proof -
  let ?b = "effective v g"
  obtain s0 where s: "s = apply_backend zebra ?b s0"
    using assms(3) by (auto simp: resolve_for_wallet_Inr)
  have skip: "\<not> bc_tls_insecure_skip_verify ?b"
    using validate_backends_effective [OF assms(1,2)] assms(6) by (auto simp: validate_backend_tls_def Let_def split: if_splits)
  have opts: "to_pins (sv_tls s) = bc_tls_pins ?b" "to_ca_pem (sv_tls s) = bc_tls_ca_pem ?b"
      "to_insecure_skip_verify (sv_tls s) = bc_tls_insecure_skip_verify ?b"
    by (simp_all add: s apply_backend_tls bc_tls_options_def)
  have "requires_tls (sv_tls s)"
    using assms(6) by (auto simp: requires_tls_def opts)
  with assms(4,5) have "src = LwdConnection (Some (choose_verifier (sv_tls s))) (connector_new (sv_proxy s))
      (server_endpoint s) (sv_assume_transparent s)"
    by (auto simp: connect_server_def connect_lwd_Inr check_plaintext_lwd_Inr)
  moreover have "choose_verifier (sv_tls s) \<noteq> NoVerification"
    using skip by (simp add: choose_verifier_def opts)
  moreover have "fingerprint_of (tl_sha256 lib) cert \<in> set (bc_tls_pins ?b) \<and>
       (\<forall>pem. bc_tls_ca_pem ?b = Some pem \<longrightarrow> tl_chain_ok lib pem cert host)"
    if "bc_tls_pins ?b \<noteq> []" "accepts_cert lib (choose_verifier (sv_tls s)) cert host" for cert host
    using that by (auto simp: choose_verifier_def opts accepts_cert_def Let_def list_ex_iff split: option.splits)
  ultimately show ?thesis
    by blast
qed

text \<open>C12. What a wallet's dial puts on the wire.  Whatever the overrides, a connection that is made goes through the daemon's proxy
  if one is configured; a lightwalletd is never given the zebra credentials, and a plaintext one is on a local host
  unless remote cleartext is allowed; a zebra connection that sends an \<open>Authorization\<close> header has such a host too.
\<close>

theorem dial_respects_locality:
  assumes "resolve_for_wallet zebra g v network = Inr s" "connect_server lib s = Inr src"
  shows "case src of
      LwdConnection ver conn url assume_capable \<Rightarrow>
        conn = connector_new (bc_proxy g) \<and> sv_zebra_auth s = zebra_auth_default \<and>
        (ver = None \<longrightarrow> host_is_local (sv_host s) (bc_rfc1918_is_local g) \<or> bc_allow_remote_cleartext g)
    | ZebraConnection client \<Rightarrow>
        zc_connector client = connector_new (bc_proxy g) \<and>
        (zc_auth_header client \<noteq> None \<longrightarrow>
           is_configured zebra \<and> (host_is_local (sv_host s) (bc_rfc1918_is_local g) \<or> bc_allow_remote_cleartext g))"
proof -
  let ?b = "effective v g"
  obtain s0 where s0: "resolve_server (bc_server ?b) network = Inr s0" and s: "s = apply_backend zebra ?b s0"
    using assms(1) by (auto simp: resolve_for_wallet_Inr)
  have policy: "bc_proxy ?b = bc_proxy g" "bc_rfc1918_is_local ?b = bc_rfc1918_is_local g"
      "bc_allow_remote_cleartext ?b = bc_allow_remote_cleartext g"
    by (simp_all add: effective_def)
  show ?thesis
  proof (cases "sv_kind s")
    case Lightwalletd
    then show ?thesis
      using assms(2) resolve_server_shape [OF s0]
      by (auto simp: connect_server_def connect_lwd_Inr check_plaintext_lwd_Inr s policy)
  next
    case ZebraRpc
    then obtain client where "src = ZebraConnection client" and client:
        "zebra_client_new (tl_uri_ok lib) (tl_b64 lib) (tl_read_file lib) (sv_host s) (sv_port s) (sv_zebra_auth s)
          (sv_cleartext_policy s) (sv_proxy s) = Inr client"
      using assms(2) by (auto simp: connect_server_def connect_zebra_Inr)
    moreover have "sv_zebra_auth s = zebra"
      using ZebraRpc by (simp add: s)
    ultimately show ?thesis
      by (auto simp: zebra_client_new_Inr s policy dest: auth_header_configured)
  qed
qed

section \<open>The check before deployment\<close>

text \<open>The refusals that depend on the configuration alone.\<close>

fun policy_refusal :: "server_error \<Rightarrow> bool" where
  "policy_refusal (TrustOnPlaintext _ _) = True"
| "policy_refusal (PlaintextRefused _ _) = True"
| "policy_refusal (Auth UserPasswordTogether) = True"
| "policy_refusal (Auth (CleartextCredentials _)) = True"
| "policy_refusal _ = False"

lemma connect_lwd_policy:
  "connect_lwd lib s = Inl e \<and> policy_refusal e \<longleftrightarrow> \<not> use_tls s \<and> check_plaintext_lwd s = Inl e"
  by (auto simp: connect_lwd_def check_plaintext_lwd_def verifier_new_def Let_def split: if_splits option.splits)

lemma auth_header_readable:
  assumes "auth_validate a = Inr u"
    and "\<And>path. za_cookie a = Some path \<Longrightarrow> \<exists>contents. read_file path = Some contents \<and> CHR '':'' \<in> set (trim contents)"
  shows "\<exists>h. auth_header b64 read_file a = Inr h"
proof (cases "za_cookie a")
  case None
  then show ?thesis
    using assms(1) by (auto simp: auth_header_def auth_validate_def split: option.splits)
next
  case (Some path)
  then obtain contents where "read_file path = Some contents" "CHR '':'' \<in> set (trim contents)"
    using assms(2) by blast
  with Some show ?thesis
    by (simp add: auth_header_def auth_validate_def Let_def)
qed


section \<open>Reading what was written\<close>

lemma show_nat_last_no_slash: "last (show_nat n) \<noteq> CHR ''/''"
proof
  assume "last (show_nat n) = CHR ''/''"
  then have "is_ascii_digit CHR ''/''"
    using show_nat_digits [of n] last_in_set [OF show_nat_nonempty [of n]] by (metis all_digits_def list_all_iff)
  then show False
    by (simp add: is_ascii_digit_def)
qed

lemma trim_end_slashes_id: "s \<noteq> [] \<Longrightarrow> last s \<noteq> CHR ''/'' \<Longrightarrow> trim_end_slashes s = s"
  by (simp add: trim_end_slashes_def dropWhile_id hd_rev)

lemma token_address_port:
  "token_address token force_tls (host @ '':'' @ show_nat (unat port)) = Inr (host, port)"
proof -
  have "unat port \<le> 65535"
    using unsigned_less [of port, where 'a = nat] by simp
  then show ?thesis
    using show_nat_no_colon [of "unat port"] by (simp add: token_address_def)
qed

lemma token_scheme_http: "token_scheme (''https://'' @ rest) = (Lightwalletd, Some True, rest)"
    "token_scheme (''http://'' @ rest) = (Lightwalletd, Some False, rest)"
    "token_scheme (''zebra://'' @ rest) = (ZebraRpc, None, rest)"
  by (simp_all add: token_scheme_def strip_prefix_def starts_with_def)

lemma resolve_scheme_token:
  assumes "host \<noteq> []" and scheme: "token_scheme token = (kind, force_tls, host @ '':'' @ show_nat (unat port))"
    and "token \<noteq> ''zebra''" "token \<noteq> ''zecrocks''"
  shows "resolve_server token network =
    Inr ((server_new host port kind network)\<lparr>sv_tls := tls_options_default\<lparr>to_force_tls := force_tls\<rparr>\<rparr>)"
proof -
  have "trim_end_slashes (host @ '':'' @ show_nat (unat port)) = host @ '':'' @ show_nat (unat port)"
    using show_nat_last_no_slash [of "unat port"] by (intro trim_end_slashes_id) auto
  then show ?thesis
    using assms(1,3,4) scheme token_address_port [of token force_tls host port] by (simp add: resolve_server_def)
qed

text \<open>The endpoint a lightwalletd server prints, read as a server token, names the same host and port, and dials with TLS
  exactly when the server did; likewise a zebra server's host and port written as \<open>zebra://host:port\<close>.
\<close>

theorem server_token_roundtrip:
  assumes "sv_host s \<noteq> []"
  shows "(\<exists>s'. resolve_server (server_endpoint s) network = Inr s' \<and>
      sv_kind s' = Lightwalletd \<and> sv_host s' = sv_host s \<and> sv_port s' = sv_port s \<and> use_tls s' = use_tls s) \<and>
    (\<exists>s'. resolve_server (''zebra://'' @ sv_host s @ '':'' @ show_nat (unat (sv_port s))) network = Inr s' \<and>
      sv_kind s' = ZebraRpc \<and> sv_host s' = sv_host s \<and> sv_port s' = sv_port s)"
proof -
  let ?rest = "sv_host s @ '':'' @ show_nat (unat (sv_port s))"
  have "resolve_server (server_endpoint s) network =
      Inr ((server_new (sv_host s) (sv_port s) Lightwalletd network)\<lparr>sv_tls := tls_options_default\<lparr>to_force_tls := Some (use_tls s)\<rparr>\<rparr>)"
    using assms token_scheme_http [of ?rest] by (intro resolve_scheme_token) (simp_all add: server_endpoint_def)
  moreover have "resolve_server (''zebra://'' @ ?rest) network =
      Inr ((server_new (sv_host s) (sv_port s) ZebraRpc network)\<lparr>sv_tls := tls_options_default\<lparr>to_force_tls := None\<rparr>\<rparr>)"
    using assms token_scheme_http(3) [of ?rest] by (intro resolve_scheme_token) simp_all
  ultimately show ?thesis
    by (simp add: server_new_def use_tls_def)
qed

lemma hex_value_upper: "n < 16 \<Longrightarrow> hex_value (upper_hex_digit n) = Some n"
  by (simp add: hex_value_def upper_hex_digit_def Let_def)

lemma upper_hex_plain: "n < 16 \<Longrightarrow> upper_hex_digit n \<noteq> CHR '':''" "n < 16 \<Longrightarrow> \<not> is_whitespace (upper_hex_digit n)"
proof -
  have "list_all (\<lambda>n. upper_hex_digit n \<noteq> CHR '':'' \<and> \<not> is_whitespace (upper_hex_digit n)) [0..<16]" by code_simp
  then show "n < 16 \<Longrightarrow> upper_hex_digit n \<noteq> CHR '':''" "n < 16 \<Longrightarrow> \<not> is_whitespace (upper_hex_digit n)"
    by (simp_all only: list_all_iff set_upt) simp_all
qed

lemma unat_byte_parts: "unat (b :: u8) div 16 < 16" "unat b mod 16 < 16" "16 * (unat b div 16) + unat b mod 16 = unat b"
  using unsigned_less [of b, where 'a = nat] by simp_all

lemma filter_join: "filter P sep = [] \<Longrightarrow> filter P (join sep xs) = concat (map (filter P) xs)"
  by (induction sep xs rule: join.induct) auto

lemma set_join: "set (join sep xs) \<subseteq> set sep \<union> \<Union> (set ` set xs)"
  by (induction sep xs rule: join.induct) auto

lemma join_upper_hex:
  "filter (\<lambda>c. c \<noteq> CHR '':'') (join '':'' (map upper_hex_byte bytes)) = concat (map upper_hex_byte bytes)"
proof -
  have "filter (\<lambda>c. c \<noteq> CHR '':'') (upper_hex_byte b) = upper_hex_byte b" for b
    by (simp add: upper_hex_byte_def upper_hex_plain unat_byte_parts)
  then show ?thesis
    by (simp add: filter_join comp_def)
qed

lemma hex_decode_upper: "hex_decode (concat (map upper_hex_byte bytes)) = Some bytes"
  by (induction bytes) (simp_all add: upper_hex_byte_def hex_value_upper unat_byte_parts)

lemma join_upper_no_space: "c \<in> set (join '':'' (map upper_hex_byte bytes)) \<Longrightarrow> \<not> is_whitespace c"
  using set_join [of "'':''" "map upper_hex_byte bytes"]
  by (auto simp: upper_hex_byte_def upper_hex_plain unat_byte_parts is_whitespace_def [of "CHR '':''"])

text \<open>A fingerprint as an error message prints it can be pasted back as a pin.\<close>

theorem fingerprint_roundtrip:
  assumes "length bytes = 32"
  shows "fingerprint_parse (fingerprint_display (CertFingerprint bytes)) = Inr (CertFingerprint bytes)"
proof -
  have "trim (fingerprint_display (CertFingerprint bytes)) = fingerprint_display (CertFingerprint bytes)"
    using join_upper_no_space by (intro trim_id) auto
  moreover have "length (concat (map upper_hex_byte bytes)) = 2 * length bytes"
    by (induction bytes) (simp_all add: upper_hex_byte_def)
  ultimately show ?thesis
    using assms by (simp add: fingerprint_parse_def join_upper_hex hex_decode_upper)
qed

section \<open>Sharing a connection\<close>

text \<open>
  \<open>connection_key\<close>: the key under which wallets share an upstream connection, a text over the derived \<open>Debug\<close> forms of the
  endpoint's fields.  \<open>dbg_network\<close> prints the network, whose regtest form is the protocol library's.
\<close>

definition debug_bool :: "bool \<Rightarrow> string" where
  "debug_bool b = (if b then ''true'' else ''false'')"

definition debug_option :: "('a \<Rightarrow> string) \<Rightarrow> 'a option \<Rightarrow> string" where
  "debug_option f x = (case x of None \<Rightarrow> ''None'' | Some v \<Rightarrow> ''Some('' @ f v @ '')'')"

definition debug_list :: "('a \<Rightarrow> string) \<Rightarrow> 'a list \<Rightarrow> string" where
  "debug_list f xs = ''['' @ join '', '' (map f xs) @ '']''"

definition debug_byte :: "u8 \<Rightarrow> string" where
  "debug_byte b = show_nat (unat b)"

definition debug_roots :: "tls_roots \<Rightarrow> string" where
  "debug_roots r = (case r of Native \<Rightarrow> ''Native'' | Webpki \<Rightarrow> ''Webpki'')"

primrec debug_fingerprint :: "cert_fingerprint \<Rightarrow> string" where
  "debug_fingerprint (CertFingerprint bytes) = ''CertFingerprint('' @ debug_list debug_byte bytes @ '')''"

definition debug_tls :: "tls_options \<Rightarrow> string" where
  "debug_tls t =
     ''TlsOptions { force_tls: '' @ debug_option debug_bool (to_force_tls t) @
     '', roots: '' @ debug_roots (to_roots t) @
     '', insecure_skip_verify: '' @ debug_bool (to_insecure_skip_verify t) @
     '', ca_pem: '' @ debug_option (debug_list debug_byte) (to_ca_pem t) @
     '', pins: '' @ debug_list debug_fingerprint (to_pins t) @ '' }''"

definition debug_policy :: "cleartext_policy \<Rightarrow> string" where
  "debug_policy p =
     ''CleartextPolicy { rfc1918_is_local: '' @ debug_bool (cp_rfc1918_is_local p) @
     '', allow_remote_cleartext: '' @ debug_bool (cp_allow_remote_cleartext p) @ '' }''"

definition debug_proxy :: "socks_proxy \<Rightarrow> string" where
  "debug_proxy p = ''SocksProxy { host: '' @ debug_str (px_host p) @ '', port: '' @ show_nat (unat (px_port p)) @ '' }''"

definition debug_kind :: "server_kind \<Rightarrow> string" where
  "debug_kind k = (case k of Lightwalletd \<Rightarrow> ''Lightwalletd'' | ZebraRpc \<Rightarrow> ''ZebraRpc'')"

definition connection_key :: "(u8 list \<Rightarrow> u8 list) \<Rightarrow> (z_network \<Rightarrow> string) \<Rightarrow> server \<Rightarrow> string" where
  "connection_key sha dbg_network s =
     debug_kind (sv_kind s) @ ''|'' @ sv_host s @ ''|'' @ show_nat (unat (sv_port s)) @ ''|'' @
     dbg_network (sv_network s) @ ''|'' @ debug_tls (sv_tls s) @ ''|'' @
     identity_digest sha (sv_zebra_auth s) @ ''|'' @ debug_policy (sv_cleartext_policy s) @ ''|'' @
     debug_bool (sv_assume_transparent s) @ ''|'' @ debug_option debug_proxy (sv_proxy s)"

text \<open>A delimiter that one side cannot contain tells the two sides apart.\<close>

lemma delimiter_left:
  assumes "(d :: char) \<notin> set a" "d \<notin> set a'" "a @ d # r = a' @ d # r'"
  shows "a = a' \<and> r = r'"
proof -
  have "split_once d (a @ d # r) = split_once d (a' @ d # r')"
    by (simp only: assms(3))
  then show ?thesis
    unfolding split_once_append [OF assms(1)] split_once_append [OF assms(2)] by simp
qed

lemma delimiter_right:
  assumes "(d :: char) \<notin> set b" "d \<notin> set b'" "a @ d # b = a' @ d # b'"
  shows "a = a' \<and> b = b'"
proof -
  have "rsplit_once d (a @ d # b) = rsplit_once d (a' @ d # b')"
    by (simp only: assms(3))
  then show ?thesis
    unfolding rsplit_once_append [OF assms(1)] rsplit_once_append [OF assms(2)] by simp
qed

text \<open>A decimal number followed by something that is not a digit can be read back.\<close>

definition nondigit_start :: "string \<Rightarrow> bool" where
  "nondigit_start r \<longleftrightarrow> (\<forall>c t. r = c # t \<longrightarrow> \<not> is_ascii_digit c)"

lemma show_nat_eq_iff: "show_nat n = show_nat m \<longleftrightarrow> n = m"
  by (metis digits_value_show_nat of_nat_eq_iff)

lemma show_nat_rest:
  assumes "show_nat n @ r = show_nat m @ r'" "nondigit_start r" "nondigit_start r'"
  shows "n = m \<and> r = r'"
proof -
  have "takeWhile is_ascii_digit (show_nat k @ q) = show_nat k" if "nondigit_start q" for k q
    using that show_nat_digits [of k]
    by (cases q) (auto simp: takeWhile_append2 all_digits_def list_all_iff nondigit_start_def takeWhile_eq_all_conv)
  from this [OF assms(2), of n] this [OF assms(3), of m] have "show_nat n = show_nat m"
    using assms(1) by simp
  with assms(1) show ?thesis
    by (simp add: show_nat_eq_iff)
qed

lemma join_Cons: "join sep (x # xs) = x @ (if xs = [] then [] else sep @ join sep xs)"
  by (cases xs) auto

lemma digit_not_bracket: "is_ascii_digit c \<Longrightarrow> c \<noteq> CHR '']''"
  by (auto simp: is_ascii_digit_def)

lemma show_nat_not_bracket: "show_nat n @ q \<noteq> CHR '']'' # r"
  using show_nat_digits [of n] show_nat_nonempty [of n]
  by (cases "show_nat n") (auto dest: digit_not_bracket)

lemma debug_bytes_rest:
  "join '', '' (map debug_byte xs) @ '']'' @ r = join '', '' (map debug_byte ys) @ '']'' @ r' \<Longrightarrow> xs = ys \<and> r = r'"
proof (induction xs arbitrary: ys)
  case Nil
  then show ?case
    using show_nat_not_bracket by (cases ys) (auto simp: join_Cons debug_byte_def dest: sym)
next
  case (Cons x xs)
  let ?tail = "\<lambda>zs q. if zs = [] then '']'' @ q else '', '' @ join '', '' (map debug_byte zs) @ '']'' @ q"
  have tail: "nondigit_start (?tail zs q)" for zs q
    by (auto simp: nondigit_start_def is_ascii_digit_def)
  have split: "join '', '' (map debug_byte (z # zs)) @ '']'' @ q = show_nat (unat z) @ ?tail zs q" for z zs q
    by (simp add: join_Cons debug_byte_def)
  obtain y zs where ys: "ys = y # zs"
    using Cons.prems show_nat_not_bracket unfolding split by (cases ys) auto
  have "show_nat (unat x) @ ?tail xs r = show_nat (unat y) @ ?tail zs r'"
    using Cons.prems unfolding ys split .
  from show_nat_rest [OF this tail tail] have "unat x = unat y" and rest: "?tail xs r = ?tail zs r'"
    by blast+
  then have "x = y"
    by (simp add: word_eq_iff_unsigned [where 'a = nat])
  moreover have "xs = zs \<and> r = r'"
    using rest Cons.IH [of zs] by (cases "xs = []"; cases "zs = []") auto
  ultimately show ?case
    using ys by simp
qed

text \<open>The printed forms that can be read back from the front of a text.\<close>

definition prefix_code :: "('a \<Rightarrow> string) \<Rightarrow> bool" where
  "prefix_code f \<longleftrightarrow> (\<forall>x y r r'. f x @ r = f y @ r' \<longrightarrow> x = y \<and> r = r')"

lemma prefix_codeD: "prefix_code f \<Longrightarrow> f x @ r = f y @ r' \<Longrightarrow> x = y \<and> r = r'"
  unfolding prefix_code_def by blast

lemma prefix_code_bool: "prefix_code debug_bool"
  by (auto simp: prefix_code_def debug_bool_def)

lemma prefix_code_roots: "prefix_code debug_roots"
  by (auto simp: prefix_code_def debug_roots_def split: tls_roots.splits)

lemma prefix_code_option:
  assumes "prefix_code f"
  shows "prefix_code (debug_option f)"
  unfolding prefix_code_def
proof (intro allI impI)
  fix x y r r' assume eq: "debug_option f x @ r = debug_option f y @ r'"
  show "x = y \<and> r = r'"
  proof (cases "x = None \<or> y = None")
    case True
    then show ?thesis
      using eq by (auto simp: debug_option_def split: option.splits)
  next
    case False
    then obtain a b where "x = Some a" "y = Some b" by auto
    moreover from this eq have "f a @ '')'' @ r = f b @ '')'' @ r'"
      by (simp add: debug_option_def)
    ultimately show ?thesis
      using prefix_codeD [OF assms] by blast
  qed
qed

lemma prefix_code_bytes: "prefix_code (debug_list debug_byte)"
  using debug_bytes_rest by (auto simp: prefix_code_def debug_list_def)

lemma prefix_code_fingerprint: "prefix_code debug_fingerprint"
  unfolding prefix_code_def
proof (intro allI impI)
  fix x y r r' assume eq: "debug_fingerprint x @ r = debug_fingerprint y @ r'"
  obtain a b where "x = CertFingerprint a" "y = CertFingerprint b" by (cases x; cases y)
  moreover from this eq have "debug_list debug_byte a @ '')'' @ r = debug_list debug_byte b @ '')'' @ r'" by simp
  ultimately show "x = y \<and> r = r'"
    using prefix_codeD [OF prefix_code_bytes] by blast
qed

lemma join_prefix_code:
  assumes "prefix_code f" "\<And>x. f x \<noteq> []" "sep \<noteq> []"
  shows "join sep (map f xs) = join sep (map f ys) \<Longrightarrow> xs = ys"
proof (induction xs arbitrary: ys)
  case Nil
  then show ?case using assms(2) by (cases ys) (auto simp: join_Cons)
next
  case (Cons x xs)
  obtain y zs where ys: "ys = y # zs"
    using Cons.prems assms(2) by (cases ys) (auto simp: join_Cons)
  let ?tail = "\<lambda>zs. if zs = [] then [] else sep @ join sep (map f zs)"
  have "f x @ ?tail xs = f y @ ?tail zs"
    using Cons.prems unfolding ys by (simp add: join_Cons cong: if_cong)
  from prefix_codeD [OF assms(1) this] show ?case
    using Cons.IH [of zs] assms(3) ys by (cases "xs = []"; cases "zs = []") auto
qed

lemma debug_fingerprint_nonempty: "debug_fingerprint fp \<noteq> []"
  by (cases fp) simp

lemma debug_tls_inj:
  assumes "debug_tls t = debug_tls t'"
  shows "t = t'"
proof -
  note code = prefix_codeD [OF prefix_code_option [OF prefix_code_bool]] prefix_codeD [OF prefix_code_roots]
    prefix_codeD [OF prefix_code_bool] prefix_codeD [OF prefix_code_option [OF prefix_code_bytes]]
  note force = code(1) [OF assms [unfolded debug_tls_def same_append_eq]]
  note roots = code(2) [OF conjunct2 [OF force, unfolded same_append_eq]]
  note skip = code(3) [OF conjunct2 [OF roots, unfolded same_append_eq]]
  note ca = code(4) [OF conjunct2 [OF skip, unfolded same_append_eq]]
  have "join '', '' (map debug_fingerprint (to_pins t)) = join '', '' (map debug_fingerprint (to_pins t'))"
    using conjunct2 [OF ca] by (simp add: debug_list_def)
  then have "to_pins t = to_pins t'"
    by (rule join_prefix_code [OF prefix_code_fingerprint debug_fingerprint_nonempty, rotated]) simp
  with force roots skip ca show ?thesis
    by (intro tls_options.equality) auto
qed

lemma bar_free_digits: "CHR ''|'' \<notin> set (show_nat n)"
proof
  assume "CHR ''|'' \<in> set (show_nat n)"
  then have "is_ascii_digit CHR ''|''"
    using show_nat_digits [of n] by (simp add: all_digits_def list_all_iff)
  then show False
    by (simp add: is_ascii_digit_def)
qed

lemma bar_free_list: "(\<And>x. CHR ''|'' \<notin> set (f x)) \<Longrightarrow> CHR ''|'' \<notin> set (debug_list f xs)"
  using set_join [of "'', ''" "map f xs"] by (auto simp: debug_list_def)

lemma bar_free_fingerprint: "CHR ''|'' \<notin> set (debug_fingerprint fp)"
  using bar_free_list [of debug_byte] bar_free_digits by (cases fp) (simp add: debug_byte_def)

lemma bar_free_tls: "CHR ''|'' \<notin> set (debug_tls t)"
proof -
  have "CHR ''|'' \<notin> set (debug_list debug_byte bytes)" "CHR ''|'' \<notin> set (debug_list debug_fingerprint pins)" for bytes pins
    using bar_free_list [of debug_byte] bar_free_list [of debug_fingerprint] bar_free_digits bar_free_fingerprint
    by (simp_all add: debug_byte_def)
  then show ?thesis
    by (auto simp: debug_tls_def debug_option_def debug_bool_def debug_roots_def split: option.splits tls_roots.splits)
qed

lemma hex_digit_no_bar: "n < 16 \<Longrightarrow> hex_digit n \<noteq> CHR ''|''"
proof -
  have "list_all (\<lambda>n. hex_digit n \<noteq> CHR ''|'') [0..<16]" by code_simp
  then show "n < 16 \<Longrightarrow> ?thesis" by (simp only: list_all_iff set_upt) simp
qed

lemma bar_free_digest: "CHR ''|'' \<notin> set (identity_digest sha a)"
proof -
  have "CHR ''|'' \<notin> set (hex_byte n)" for n
    using hex_digit_no_bar [of "n div 16 mod 16"] hex_digit_no_bar [of "n mod 16"] by (auto simp: hex_byte_def)
  then show ?thesis
    by (simp add: identity_digest_def hex_encode_def)
qed

lemma bar_free_simple: "CHR ''|'' \<notin> set (debug_bool b)" "CHR ''|'' \<notin> set (debug_policy p)" "CHR ''|'' \<notin> set (debug_kind k)"
  by (auto simp: debug_bool_def debug_policy_def debug_kind_def split: server_kind.splits)

lemma debug_kind_inj: "debug_kind k = debug_kind k' \<longleftrightarrow> k = k'"
  by (auto simp: debug_kind_def split: server_kind.splits)

lemma debug_bool_inj: "debug_bool b = debug_bool b' \<longleftrightarrow> b = b'"
  by (auto simp: debug_bool_def)

text \<open>The key, read from the right, gives back every field but the network and the proxy, which the two servers share.\<close>

lemma connection_key_fields:
  assumes key: "connection_key sha dbg s = connection_key sha dbg s'"
    and same: "sv_network s = sv_network s'" "sv_proxy s = sv_proxy s'"
  shows "sv_kind s = sv_kind s' \<and> sv_host s = sv_host s' \<and> sv_port s = sv_port s' \<and> sv_tls s = sv_tls s' \<and>
    identity_digest sha (sv_zebra_auth s) = identity_digest sha (sv_zebra_auth s') \<and>
    sv_assume_transparent s = sv_assume_transparent s'"
proof -
  let ?bar = "\<lambda>a b. a @ CHR ''|'' # b"
  let ?addr = "\<lambda>s. ?bar (?bar (debug_kind (sv_kind s)) (sv_host s)) (show_nat (unat (sv_port s)))"
  let ?tls = "\<lambda>s. ?bar (?bar (?addr s) (dbg (sv_network s))) (debug_tls (sv_tls s))"
  let ?pol = "\<lambda>s. ?bar (?bar (?tls s) (identity_digest sha (sv_zebra_auth s))) (debug_policy (sv_cleartext_policy s))"
  have form: "connection_key sha dbg s =
      ?bar (?bar (?pol s) (debug_bool (sv_assume_transparent s))) (debug_option debug_proxy (sv_proxy s))" for s
    by (simp add: connection_key_def)
  have strip: "a = b" if "?bar a c = ?bar b c" for a b c :: string
    using that by simp
  have "?bar (?pol s) (debug_bool (sv_assume_transparent s)) = ?bar (?pol s') (debug_bool (sv_assume_transparent s'))"
    using key unfolding form same by (rule strip)
  note assume_eq = delimiter_right [OF bar_free_simple(1) bar_free_simple(1) this]
  note policy_eq = delimiter_right [OF bar_free_simple(2) bar_free_simple(2) conjunct1 [OF assume_eq]]
  note digest_eq = delimiter_right [OF bar_free_digest bar_free_digest conjunct1 [OF policy_eq]]
  note tls_eq = delimiter_right [OF bar_free_tls bar_free_tls conjunct1 [OF digest_eq]]
  have "?addr s = ?addr s'"
    using conjunct1 [OF tls_eq] unfolding same by (rule strip)
  note port_eq = delimiter_right [OF bar_free_digits bar_free_digits this]
  note host_eq = delimiter_left [OF bar_free_simple(3) bar_free_simple(3) conjunct1 [OF port_eq]]
  show ?thesis
    using assume_eq digest_eq debug_tls_inj conjunct2 [OF tls_eq] port_eq host_eq
    by (simp add: debug_kind_inj debug_bool_inj show_nat_eq_iff word_eq_iff_unsigned [where 'a = nat])
qed

text \<open>C27. Two wallets of one daemon share an upstream connection exactly when their resolved endpoints agree in every setting:
  address, protocol, TLS trust, credentials and capability override.  No text an operator can write in a server token makes
  two different endpoints collide.
\<close>

theorem connection_sharing_exact:
  assumes "resolve_for_wallet zebra g v network = Inr s" "resolve_for_wallet zebra g v' network = Inr s'"
  shows "connection_key sha dbg s = connection_key sha dbg s' \<longleftrightarrow> s = s'"
proof
  assume key: "connection_key sha dbg s = connection_key sha dbg s'"
  obtain t t' where t: "resolve_server (bc_server (effective v g)) network = Inr t" "s = apply_backend zebra (effective v g) t"
    and t': "resolve_server (bc_server (effective v' g)) network = Inr t'" "s' = apply_backend zebra (effective v' g) t'"
    using assms by (auto simp: resolve_for_wallet_Inr)
  have shared: "sv_network s = sv_network s'" "sv_proxy s = sv_proxy s'" "sv_cleartext_policy s = sv_cleartext_policy s'"
    using resolve_server_shape [OF t(1)] resolve_server_shape [OF t'(1)] by (simp_all add: t(2) t'(2) effective_def)
  note fields = connection_key_fields [OF key shared(1,2)]
  then have "sv_zebra_auth s = sv_zebra_auth s'"
    using resolve_server_shape [OF t(1)] resolve_server_shape [OF t'(1)] by (simp add: t(2) t'(2))
  then show "s = s'"
    using shared fields by (intro server.equality) simp_all
qed simp

section \<open>Endpoints for the witnesses\<close>

definition padded_sha :: "u8 list \<Rightarrow> u8 list" where
  "padded_sha bytes = take 32 (bytes @ replicate 32 0)"

definition sample_tls_lib :: tls_lib where
  "sample_tls_lib = \<lparr>tl_uri_ok = (\<lambda>_. True), tl_b64 = id, tl_read_file = (\<lambda>_. Some ''user:cookie''), tl_ca_usable = (\<lambda>_. True),
     tl_config_ok = (\<lambda>_. True), tl_sha256 = padded_sha, tl_chain_ok = (\<lambda>_ _ _. True), tl_roots_ok = (\<lambda>_ _ _ _. True),
     tl_reachable = (\<lambda>_ _. True)\<rparr>"

definition pinned_backend :: backend_config where
  "pinned_backend = \<lparr>bc_server = ''https://lwd.example'', bc_connect_timeout_secs = 10, bc_reconnect_base_secs = 1,
     bc_reconnect_max_secs = 60, bc_rfc1918_is_local = True, bc_allow_remote_cleartext = False, bc_tls = None,
     bc_tls_roots = Native, bc_tls_insecure_skip_verify = False, bc_tls_ca_pem = None, bc_tls_ca_file = None,
     bc_tls_pins = [CertFingerprint (padded_sha [1])], bc_assume_transparent = False, bc_proxy = None\<rparr>"

definition local_override :: backend_override where
  "local_override = backend_override_default\<lparr>bo_server := Some ''zebra''\<rparr>"

definition node_credentials :: zebra_auth where
  "node_credentials = \<lparr>za_user = None, za_password = None, za_cookie = Some ''.cookie''\<rparr>"

definition pinned_server :: server where
  "pinned_server = apply_backend node_credentials pinned_backend
     ((server_new ''lwd.example'' 443 Lightwalletd Main)\<lparr>sv_tls := tls_options_default\<lparr>to_force_tls := Some True\<rparr>\<rparr>)"

definition node_server :: server where
  "node_server = apply_backend node_credentials (pinned_backend\<lparr>bc_server := ''zebra''\<rparr>) (server_new ''127.0.0.1'' 8234 ZebraRpc Main)"

lemma https_token: "resolve_server ''https://lwd.example'' Main =
    Inr ((server_new ''lwd.example'' 443 Lightwalletd Main)\<lparr>sv_tls := tls_options_default\<lparr>to_force_tls := Some True\<rparr>\<rparr>)"
  by code_simp

lemma zebra_token: "resolve_server ''zebra'' Main = Inr (server_new ''127.0.0.1'' 8234 ZebraRpc Main)"
  by (simp add: resolve_server_def ZEBRA_RPC_PORT_MAIN_def)

lemma pinned_effective: "effective backend_override_default pinned_backend = pinned_backend"
    "effective local_override pinned_backend = pinned_backend\<lparr>bc_server := ''zebra''\<rparr>"
  by (simp_all add: effective_def local_override_def backend_override_default_def pinned_backend_def)

lemma sample_resolved: "resolve_for_wallet node_credentials pinned_backend backend_override_default Main = Inr pinned_server"
    "resolve_for_wallet node_credentials pinned_backend local_override Main = Inr node_server"
proof -
  have "bc_server pinned_backend = ''https://lwd.example''" by (simp add: pinned_backend_def)
  then show "resolve_for_wallet node_credentials pinned_backend backend_override_default Main = Inr pinned_server"
    by (simp add: resolve_for_wallet_def pinned_effective https_token pinned_server_def)
  show "resolve_for_wallet node_credentials pinned_backend local_override Main = Inr node_server"
    by (simp add: resolve_for_wallet_def pinned_effective zebra_token node_server_def)
qed

lemma sample_kinds: "sv_kind pinned_server = Lightwalletd" "sv_kind node_server = ZebraRpc"
    "sv_host pinned_server = ''lwd.example''" "sv_host node_server = ''127.0.0.1''"
    "sv_zebra_auth node_server = node_credentials"
  by (simp_all add: pinned_server_def node_server_def server_new_def)

lemma node_client: "\<exists>client. connect_server sample_tls_lib node_server = Inr (ZebraConnection client) \<and> zc_auth_header client \<noteq> None"
proof -
  have "host_is_local ''127.0.0.1'' True" "auth_header id (\<lambda>_. Some ''user:cookie'') node_credentials = Inr (Some ''Basic user:cookie'')"
    by code_simp+
  then show ?thesis
    by (simp add: connect_server_def connect_zebra_Inr zebra_client_new_Inr sample_kinds sample_tls_lib_def)
      (simp add: node_server_def pinned_backend_def)
qed

lemma pinned_dial: "\<exists>src. connect_server sample_tls_lib pinned_server = Inr src"
proof -
  have "use_tls pinned_server"
    by (simp add: use_tls_def pinned_server_def apply_backend_tls server_new_def)
  moreover have "verifier_new sample_tls_lib ver = Inr ()" for ver
    by (simp add: verifier_new_def sample_tls_lib_def split: verifier.split option.split)
  ultimately show ?thesis
    by (simp add: connect_server_def sample_kinds connect_lwd_Inr) (simp add: sample_tls_lib_def)
qed

theorem tls_trust_never_void_witness:
  "\<exists>ver conn url assume_capable. connect_server sample_tls_lib pinned_server = Inr (LwdConnection (Some ver) conn url assume_capable) \<and>
     \<not> accepts_cert sample_tls_lib ver [2] ''lwd.example''"
proof -
  obtain src where src: "connect_server sample_tls_lib pinned_server = Inr src"
    using pinned_dial by blast
  have "validate_backends pinned_backend [(''w'', backend_override_default)] = Inr ()"
    by code_simp
  from tls_trust_never_void [OF this _ sample_resolved(1) sample_kinds(1) src]
  obtain ver conn url assume_capable where "src = LwdConnection (Some ver) conn url assume_capable"
    and pinned: "accepts_cert sample_tls_lib ver [2] ''lwd.example'' \<Longrightarrow>
      fingerprint_of (tl_sha256 sample_tls_lib) [2] \<in> set (bc_tls_pins pinned_backend)"
    unfolding pinned_effective by (simp add: pinned_backend_def) blast
  moreover have "fingerprint_of (tl_sha256 sample_tls_lib) [2] \<notin> set (bc_tls_pins pinned_backend)"
    by (simp add: fingerprint_of_def sample_tls_lib_def pinned_backend_def padded_sha_def)
  ultimately show ?thesis
    using src by blast
qed

theorem dial_respects_locality_witness:
  "\<exists>client. connect_server sample_tls_lib node_server = Inr (ZebraConnection client) \<and> zc_connector client = Direct \<and>
     is_configured node_credentials \<and> host_is_local ''127.0.0.1'' True"
proof -
  obtain client where client: "connect_server sample_tls_lib node_server = Inr (ZebraConnection client)" "zc_auth_header client \<noteq> None"
    using node_client by blast
  show ?thesis
    using dial_respects_locality [OF sample_resolved(2) client(1)] client
    by (auto simp: sample_kinds connector_new_def pinned_backend_def)
qed


theorem server_token_roundtrip_witness:
  "\<exists>s'. resolve_server (server_endpoint pinned_server) Main = Inr s' \<and> sv_host s' = ''lwd.example''"
  using server_token_roundtrip [of pinned_server Main] by (auto simp: sample_kinds)

theorem fingerprint_roundtrip_witness:
  "fingerprint_parse (fingerprint_display (CertFingerprint (padded_sha [1]))) = Inr (CertFingerprint (padded_sha [1]))"
  by (rule fingerprint_roundtrip) (simp add: padded_sha_def)

theorem connection_sharing_exact_witness:
  "connection_key padded_sha (\<lambda>_. ''Main'') pinned_server \<noteq> connection_key padded_sha (\<lambda>_. ''Main'') node_server"
proof -
  have "pinned_server \<noteq> node_server"
    using sample_kinds by auto
  then show ?thesis
    using connection_sharing_exact [OF sample_resolved, of padded_sha "\<lambda>_. ''Main''"] by simp
qed

end
