(* ===== verification/Zebra_Source.thy ===== *)
theory Zebra_Source
  imports Download Wallet_History "HOL-Library.Product_Lexorder"
begin

text \<open>
  The zebrad adapter, \<open>src/chain/zebra.rs\<close>: the JSON-RPC call and its error envelope, the operations of the chain source
  over it, the search for the transactions of an address with its splitting of the height range, the block pump, and the
  mempool poller.  The node is a function of its state; parsing a raw block is the transaction library's.
\<close>

section \<open>A call\<close>

datatype call_error = Transport string | Rpc int string

datatype zebra_error =
    CallFailed string call_error
  | BadReply string
  | BadHex string
  | NotATxid string
  | WrongTreeHeight u32 u32
  | WrongBlockHeight u32 u32
  | TooManyTransactions u32 nat
  | UnreadableBlock u32

text \<open>A round trip: it fails, or gives a status and a body that is JSON or is not.\<close>

type_synonym http_reply = "string + nat \<times> (string + json)"

type_synonym 'n node = "string \<Rightarrow> json \<Rightarrow> 'n \<Rightarrow> http_reply \<times> 'n"

definition RPC_ERROR_UNSPECIFIED_CODE :: int where "RPC_ERROR_UNSPECIFIED_CODE = - 1"

definition error_of_envelope :: "json \<Rightarrow> call_error" where
  "error_of_envelope err =
     Rpc (case Option.bind (json_get ''code'' err) as_i64 of
            None \<Rightarrow> RPC_ERROR_UNSPECIFIED_CODE
          | Some code \<Rightarrow> if code = 0 then RPC_ERROR_UNSPECIFIED_CODE else code)
         (case Option.bind (json_get ''message'' err) as_str of Some m \<Rightarrow> m | None \<Rightarrow> ''unknown error'')"

definition call_reply :: "http_reply \<Rightarrow> call_error + json" where
  "call_reply r =
     (case r of
        Inl e \<Rightarrow> Inl (Transport e)
      | Inr (status, Inl e) \<Rightarrow> Inl (Transport e)
      | Inr (status, Inr envelope) \<Rightarrow>
          (case json_get ''error'' envelope of
             Some err \<Rightarrow>
               if err \<noteq> Null then Inl (error_of_envelope err)
               else if \<not> (200 \<le> status \<and> status < 300) then Inl (Transport ''zebra rpc returned HTTP'')
               else Inr (case json_get ''result'' envelope of Some v \<Rightarrow> v | None \<Rightarrow> Null)
           | None \<Rightarrow>
               if \<not> (200 \<le> status \<and> status < 300) then Inl (Transport ''zebra rpc returned HTTP'')
               else Inr (case json_get ''result'' envelope of Some v \<Rightarrow> v | None \<Rightarrow> Null)))"

definition zcall :: "'n node \<Rightarrow> string \<Rightarrow> json \<Rightarrow> 'n \<Rightarrow> (call_error + json) \<times> 'n" where
  "zcall node method params n = (let (r, n) = node method params n in (call_reply r, n))"

text \<open>\<open>call_as\<close>: any refusal is an error, and so is a result of another shape.\<close>

definition call_as ::
  "'n node \<Rightarrow> (json \<Rightarrow> 'a option) \<Rightarrow> string \<Rightarrow> json \<Rightarrow> 'n \<Rightarrow> (zebra_error + 'a) \<times> 'n" where
  "call_as node read method params n =
     (case zcall node method params n of
        (Inl e, n) \<Rightarrow> (Inl (CallFailed method e), n)
      | (Inr v, n) \<Rightarrow> ((case read v of Some x \<Rightarrow> Inr x | None \<Rightarrow> Inl (BadReply method)), n))"

section \<open>Broadcasting and fetching\<close>

text \<open>\<open>i32::try_from(code).unwrap_or(i32::MIN)\<close>.\<close>

definition i32_or_min :: "int \<Rightarrow> int" where
  "i32_or_min code = (if - (2 ^ 31) \<le> code \<and> code < 2 ^ 31 then code else - (2 ^ 31))"

definition zebra_broadcast_tx :: "'n node \<Rightarrow> u8 list \<Rightarrow> 'n \<Rightarrow> (zebra_error + broadcast_outcome) \<times> 'n" where
  "zebra_broadcast_tx node bytes n =
     (case zcall node ''sendrawtransaction'' (Array [String (hex_encode bytes)]) n of
        (Inr _, n) \<Rightarrow> (Inr broadcast_accepted, n)
      | (Inl (Rpc code message), n) \<Rightarrow> (Inr \<lparr>bo_error_code = i32_or_min code, bo_error_message = message\<rparr>, n)
      | (Inl e, n) \<Rightarrow> (Inl (CallFailed ''sendrawtransaction'' e), n))"

record verbose_tx =
  vt_hex :: string
  vt_height :: "int option"

definition optional_field :: "(json \<Rightarrow> 'a option) \<Rightarrow> string \<Rightarrow> json \<Rightarrow> 'a option option" where
  "optional_field read k v =
     (case json_get k v of
        None \<Rightarrow> Some None
      | Some Null \<Rightarrow> Some None
      | Some x \<Rightarrow> map_option Some (read x))"

definition read_verbose_tx :: "json \<Rightarrow> verbose_tx option" where
  "read_verbose_tx v =
     Option.bind (Option.bind (json_get ''hex'' v) as_str) (\<lambda>hex.
     map_option (\<lambda>height. \<lparr>vt_hex = hex, vt_height = height\<rparr>) (optional_field as_i64 ''height'' v))"

definition tx_unknown :: "call_error \<Rightarrow> bool" where
  "tx_unknown e =
     (case e of
        Rpc code message \<Rightarrow> code = - 5 \<or> contains (to_ascii_lowercase message) ''no such mempool''
      | Transport _ \<Rightarrow> False)"

text \<open>The node reports \<open>-1\<close> for a transaction that is not mined.\<close>

definition mined_height_of :: "int option \<Rightarrow> u32 option" where
  "mined_height_of height = (case height of
       Some h \<Rightarrow> if 0 < h \<and> h < 2 ^ 32 then Some (of_int h) else None
     | None \<Rightarrow> None)"

definition zebra_fetch_tx :: "'n node \<Rightarrow> string \<Rightarrow> 'n \<Rightarrow> (zebra_error + fetched_tx option) \<times> 'n" where
  "zebra_fetch_tx node txid n =
     (case zcall node ''getrawtransaction'' (Array [String txid, json_int 1]) n of
        (Inl e, n) \<Rightarrow> (if tx_unknown e then Inr None else Inl (CallFailed ''getrawtransaction'' e), n)
      | (Inr v, n) \<Rightarrow>
          ((case read_verbose_tx v of
              None \<Rightarrow> Inl (BadReply ''getrawtransaction'')
            | Some verbose \<Rightarrow>
                (case hex_decode (trim (vt_hex verbose)) of
                   None \<Rightarrow> Inl (BadHex (vt_hex verbose))
                 | Some bytes \<Rightarrow> Inr (Some \<lparr>ft_data = bytes, ft_mined_height = mined_height_of (vt_height verbose)\<rparr>))), n))"

section \<open>The transactions of an address\<close>

definition is_address_query_too_large :: "int \<Rightarrow> string \<Rightarrow> bool" where
  "is_address_query_too_large code message \<longleftrightarrow> code = - 8 \<and> contains message ''narrow the height range''"

definition read_strings :: "json \<Rightarrow> string list option" where
  "read_strings v = (case v of Array vs \<Rightarrow> those (map as_str vs) | _ \<Rightarrow> None)"

definition address_query :: "string list \<Rightarrow> u32 \<Rightarrow> u32 \<Rightarrow> json" where
  "address_query addresses lo hi =
     Array [Object [(''addresses'', Array (map String addresses)), (''start'', json_int (uint lo)), (''end'', json_int (uint hi))]]"

definition range_weight :: "u32 \<times> u32 \<Rightarrow> nat" where
  "range_weight r = 2 * (unat (snd r) - unat (fst r)) + 1"

lemma midpoint:
  fixes lo hi :: u32
  assumes "lo < hi"
  shows "unat (lo + (hi - lo) div 2) = unat lo + (unat hi - unat lo) div 2"
    and "unat (lo + (hi - lo) div 2 + 1) = unat lo + (unat hi - unat lo) div 2 + 1"
    and "unat lo + (unat hi - unat lo) div 2 < unat hi"
proof -
  have lt: "unat lo < unat hi" "unat hi < 2 ^ 32"
    using assms unsigned_less [of hi, where ?'a = nat] by (simp_all add: word_less_nat_alt)
  have diff: "unat ((hi - lo) div 2) = (unat hi - unat lo) div 2"
    using lt by (simp add: unat_div unat_sub word_le_nat_alt)
  show mid: "unat (lo + (hi - lo) div 2) = unat lo + (unat hi - unat lo) div 2"
    using lt diff by (subst unat_add_lem [THEN iffD1]) auto
  show "unat lo + (unat hi - unat lo) div 2 < unat hi"
    using lt by simp
  then show "unat (lo + (hi - lo) div 2 + 1) = unat lo + (unat hi - unat lo) div 2 + 1"
    using lt mid by (subst unat_add_lem [THEN iffD1]) auto
qed

lemma weight_split:
  fixes lo hi :: u32
  assumes "lo < hi"
  shows "range_weight (lo, lo + (hi - lo) div 2) + range_weight (lo + (hi - lo) div 2 + 1, hi) < range_weight (lo, hi)"
proof -
  have "unat lo < unat hi"
    using assms by (simp add: word_less_nat_alt)
  then show ?thesis
    unfolding range_weight_def fst_conv snd_conv midpoint [OF assms] by linarith
qed

text \<open>The loop of \<open>address_tx_ids\<close>: the ranges still to ask for, the next one first, and what was found.\<close>

function address_ranges ::
  "'n node \<Rightarrow> string list \<Rightarrow> (u32 \<times> u32) list \<Rightarrow> string list \<Rightarrow> 'n \<Rightarrow> (zebra_error + string list) \<times> 'n" where
  "address_ranges node addresses pending found n =
     (case pending of
        [] \<Rightarrow> (Inr found, n)
      | (lo, hi) # rest \<Rightarrow>
          (case zcall node ''getaddresstxids'' (address_query addresses lo hi) n of
             (Inr v, n) \<Rightarrow>
               (case read_strings v of
                  None \<Rightarrow> (Inl (BadReply ''getaddresstxids''), n)
                | Some hexes \<Rightarrow> address_ranges node addresses rest (found @ hexes) n)
           | (Inl e, n) \<Rightarrow>
               (if lo < hi \<and> (case e of Rpc code message \<Rightarrow> is_address_query_too_large code message | _ \<Rightarrow> False)
                then (let mid = lo + (hi - lo) div 2
                      in address_ranges node addresses ((lo, mid) # (mid + 1, hi) # rest) found n)
                else (Inl (CallFailed ''getaddresstxids'' e), n))))"
  by pat_completeness auto
termination
  by (relation "measure (\<lambda>(_, _, pending, _, _). sum_list (map range_weight pending))")
    (auto simp: weight_split, auto simp: range_weight_def)

declare address_ranges.simps [simp del]

definition address_tx_ids :: "'n node \<Rightarrow> string list \<Rightarrow> u32 \<Rightarrow> u32 \<Rightarrow> 'n \<Rightarrow> (zebra_error + string list) \<times> 'n" where
  "address_tx_ids node addresses start stop n = address_ranges node addresses [(start, stop)] [] n"

primrec take_chunks :: "nat \<Rightarrow> nat \<Rightarrow> 'a list \<Rightarrow> 'a list list" where
  "take_chunks 0 k xs = []"
| "take_chunks (Suc n) k xs = (if xs = [] then [] else take k xs # take_chunks n k (drop k xs))"

text \<open>\<open>slice::chunks\<close>: a non-empty slice has at most as many chunks as elements.\<close>

definition chunks :: "nat \<Rightarrow> 'a list \<Rightarrow> 'a list list" where
  "chunks k xs = take_chunks (length xs) k xs"

definition MAX_REQUEST_ADDRESSES :: nat where "MAX_REQUEST_ADDRESSES = 10000"

definition parse_display_txid :: "string \<Rightarrow> zebra_error + u8 list" where
  "parse_display_txid s =
     (case hex_decode (trim s) of
        None \<Rightarrow> Inl (BadHex s)
      | Some bytes \<Rightarrow> if length bytes \<noteq> 32 then Inl (NotATxid s) else Inr (rev bytes))"

fun parse_txids :: "string list \<Rightarrow> zebra_error + u8 list list" where
  "parse_txids [] = Inr []"
| "parse_txids (h # hs) = sum_bind (parse_display_txid h) (\<lambda>t. sum_bind (parse_txids hs) (\<lambda>ts. Inr (t # ts)))"

fun evidence_batches ::
  "'n node \<Rightarrow> u32 \<Rightarrow> u32 \<Rightarrow> string list list \<Rightarrow> u8 list list \<Rightarrow> 'n \<Rightarrow> (zebra_error + u8 list list) \<times> 'n" where
  "evidence_batches node start stop [] found n = (Inr found, n)"
| "evidence_batches node start stop (batch # batches) found n =
     (case address_tx_ids node batch start stop n of
        (Inl e, n) \<Rightarrow> (Inl e, n)
      | (Inr hexes, n) \<Rightarrow>
          (case parse_txids hexes of
             Inl e \<Rightarrow> (Inl e, n)
           | Inr txids \<Rightarrow> evidence_batches node start stop batches (found @ txids) n))"

definition transparent_tx_evidence ::
  "'n node \<Rightarrow> string list \<Rightarrow> u32 \<Rightarrow> u32 \<Rightarrow> 'n \<Rightarrow> (zebra_error + u8 list tx_evidence list) \<times> 'n" where
  "transparent_tx_evidence node addresses start stop n =
     (case evidence_batches node start stop (chunks MAX_REQUEST_ADDRESSES addresses) [] n of
        (Inl e, n) \<Rightarrow> (Inl e, n)
      | (Inr txids, n) \<Rightarrow> (Inr (map EvidenceTxid txids), n))"

section \<open>The tip and the tree state\<close>

definition as_u32 :: "json \<Rightarrow> u32 option" where
  "as_u32 v = (case v of Number s \<Rightarrow> map_option of_nat (parse_unsigned (2 ^ 32 - 1) s) | _ \<Rightarrow> None)"

definition required :: "(json \<Rightarrow> 'a option) \<Rightarrow> string \<Rightarrow> json \<Rightarrow> 'a option" where
  "required read k v = Option.bind (json_get k v) read"

record upgrade_entry =
  ue_name :: "string option"
  ue_activation_height :: "u32 option"
  ue_status :: "string option"

record blockchain_info =
  bi_chain :: string
  bi_blocks :: u32
  bi_bestblockhash :: string
  bi_upgrades :: "(string \<times> upgrade_entry) list"
  bi_consensus :: "(string option \<times> string option) option"

definition read_upgrade_entry :: "json \<Rightarrow> upgrade_entry option" where
  "read_upgrade_entry v =
     (case v of
        Object _ \<Rightarrow>
          Option.bind (optional_field as_str ''name'' v) (\<lambda>name.
          Option.bind (optional_field as_u32 ''activationheight'' v) (\<lambda>height.
          map_option (\<lambda>status. \<lparr>ue_name = name, ue_activation_height = height, ue_status = status\<rparr>)
            (optional_field as_str ''status'' v)))
      | _ \<Rightarrow> None)"

definition read_upgrades :: "json \<Rightarrow> (string \<times> upgrade_entry) list option" where
  "read_upgrades v =
     (case v of
        Object kvs \<Rightarrow> those (map (\<lambda>(k, e). map_option (Pair k) (read_upgrade_entry e)) kvs)
      | _ \<Rightarrow> None)"

definition read_consensus :: "json \<Rightarrow> (string option \<times> string option) option" where
  "read_consensus v =
     (case v of
        Object _ \<Rightarrow>
          Option.bind (optional_field as_str ''chaintip'' v) (\<lambda>tip.
          map_option (Pair tip) (optional_field as_str ''nextblock'' v))
      | _ \<Rightarrow> None)"

definition read_blockchain_info :: "json \<Rightarrow> blockchain_info option" where
  "read_blockchain_info v =
     Option.bind (required as_str ''chain'' v) (\<lambda>chain.
     Option.bind (required as_u32 ''blocks'' v) (\<lambda>blocks.
     Option.bind (required as_str ''bestblockhash'' v) (\<lambda>hash.
     Option.bind (case json_get ''upgrades'' v of None \<Rightarrow> Some [] | Some u \<Rightarrow> read_upgrades u) (\<lambda>upgrades.
     map_option (\<lambda>consensus. \<lparr>bi_chain = chain, bi_blocks = blocks, bi_bestblockhash = hash, bi_upgrades = upgrades,
         bi_consensus = consensus\<rparr>) (optional_field read_consensus ''consensus'' v)))))"

text \<open>\<open>u32::from_str_radix(s, 16)\<close>.\<close>

definition from_hex_u32 :: "string \<Rightarrow> u32 option" where
  "from_hex_u32 s =
     (let ds = (case s of c # t \<Rightarrow> if c = CHR ''+'' then t else s | [] \<Rightarrow> [])
      in case those (map hex_value ds) of
          None \<Rightarrow> None
        | Some vs \<Rightarrow>
            (let n = foldl (\<lambda>acc d. acc * 16 + d) 0 vs
             in if ds = [] \<or> n \<ge> 2 ^ 32 then None else Some (of_nat n)))"

definition parse_branch_id :: "string \<Rightarrow> u32 option" where
  "parse_branch_id hex_str = from_hex_u32 (trim hex_str)"

definition upgrade_of :: "string \<times> upgrade_entry \<Rightarrow> upgrade_info option" where
  "upgrade_of kv =
     (case kv of (key, entry) \<Rightarrow>
        map_option (\<lambda>branch_id. \<lparr>ui_branch_id = branch_id,
            ui_name = (case ue_name entry of Some n \<Rightarrow> n | None \<Rightarrow> ''unknown upgrade''),
            ui_activation_height = ue_activation_height entry,
            ui_status = (case ue_status entry of
                Some st \<Rightarrow> if st = ''active'' then Active else if st = ''pending'' then Pending else OtherStatus
              | None \<Rightarrow> OtherStatus)\<rparr>) (parse_branch_id key))"

definition upgrade_key :: "upgrade_info \<Rightarrow> nat \<times> nat" where
  "upgrade_key u = (unat (case ui_activation_height u of Some h \<Rightarrow> h | None \<Rightarrow> - 1), unat (ui_branch_id u))"

definition server_info_from :: "blockchain_info \<Rightarrow> server_info" where
  "server_info_from info =
     \<lparr>si_chain_name = bi_chain info,
      si_tip_height = Some (bi_blocks info),
      si_upgrades = sort_key upgrade_key (List.map_filter upgrade_of (bi_upgrades info)),
      si_tip_branch_id = Option.bind (bi_consensus info) (\<lambda>c. Option.bind (fst c) parse_branch_id),
      si_next_block_branch_id = Option.bind (bi_consensus info) (\<lambda>c. Option.bind (snd c) parse_branch_id)\<rparr>"

definition zebra_server_info :: "'n node \<Rightarrow> 'n \<Rightarrow> (zebra_error + server_info) \<times> 'n" where
  "zebra_server_info node n =
     (case call_as node read_blockchain_info ''getblockchaininfo'' (Array []) n of
        (Inl e, n) \<Rightarrow> (Inl e, n)
      | (Inr info, n) \<Rightarrow> (Inr (server_info_from info), n))"

definition zebra_latest_block :: "'n node \<Rightarrow> 'n \<Rightarrow> (zebra_error + chain_tip) \<times> 'n" where
  "zebra_latest_block node n =
     (case call_as node read_blockchain_info ''getblockchaininfo'' (Array []) n of
        (Inl e, n) \<Rightarrow> (Inl e, n)
      | (Inr info, n) \<Rightarrow>
          ((case hex_decode (bi_bestblockhash info) of
              None \<Rightarrow> Inl (BadHex (bi_bestblockhash info))
            | Some hash \<Rightarrow> Inr \<lparr>tip_height_of = ucast (bi_blocks info), tip_hash = rev hash\<rparr>), n))"

record tree_state =
  tr_network :: string
  tr_height :: u64
  tr_hash :: string
  tr_time :: u32
  tr_sapling_tree :: string
  tr_orchard_tree :: string
  tr_ironwood_tree :: string

definition read_final_state :: "json \<Rightarrow> string option" where
  "read_final_state v =
     (case v of
        Object _ \<Rightarrow>
          map_option (\<lambda>c. case c of Some (Some s) \<Rightarrow> s | _ \<Rightarrow> [])
            (optional_field (\<lambda>c. case c of Object _ \<Rightarrow> optional_field as_str ''finalState'' c | _ \<Rightarrow> None) ''commitments'' v)
      | _ \<Rightarrow> None)"

definition read_tree_state :: "string \<Rightarrow> json \<Rightarrow> (u32 \<times> tree_state) option" where
  "read_tree_state chain_name v =
     Option.bind (required as_str ''hash'' v) (\<lambda>hash.
     Option.bind (required as_u32 ''height'' v) (\<lambda>height.
     Option.bind (required as_u32 ''time'' v) (\<lambda>time.
     Option.bind (optional_field read_final_state ''sapling'' v) (\<lambda>sapling.
     Option.bind (optional_field read_final_state ''orchard'' v) (\<lambda>orchard.
     map_option (\<lambda>ironwood. (height, \<lparr>tr_network = chain_name, tr_height = ucast height, tr_hash = hash, tr_time = time,
         tr_sapling_tree = (case sapling of Some t \<Rightarrow> t | None \<Rightarrow> []),
         tr_orchard_tree = (case orchard of Some t \<Rightarrow> t | None \<Rightarrow> []),
         tr_ironwood_tree = (case ironwood of Some t \<Rightarrow> t | None \<Rightarrow> [])\<rparr>)) (optional_field read_final_state ''ironwood'' v))))))"

definition zebra_tree_state :: "'n node \<Rightarrow> string \<Rightarrow> u32 \<Rightarrow> 'n \<Rightarrow> (zebra_error + tree_state) \<times> 'n" where
  "zebra_tree_state node chain_name height n =
     (case call_as node (read_tree_state chain_name) ''z_gettreestate'' (Array [String (show_nat (unat height))]) n of
        (Inl e, n) \<Rightarrow> (Inl e, n)
      | (Inr (served, ts), n) \<Rightarrow> (if served \<noteq> height then Inl (WrongTreeHeight served height) else Inr ts, n))"

definition read_subtree :: "json \<Rightarrow> (string \<times> u32) option" where
  "read_subtree v =
     Option.bind (required as_str ''root'' v) (\<lambda>root. map_option (Pair root) (required as_u32 ''end_height'' v))"

definition read_subtrees :: "json \<Rightarrow> (string \<times> u32) list option" where
  "read_subtrees v =
     (case v of
        Object _ \<Rightarrow>
          (case json_get ''subtrees'' v of
             None \<Rightarrow> Some []
           | Some (Array vs) \<Rightarrow> those (map read_subtree vs)
           | Some _ \<Rightarrow> None)
      | _ \<Rightarrow> None)"

fun subtree_roots_from :: "(string \<times> u32) list \<Rightarrow> zebra_error + subtree_root_info list" where
  "subtree_roots_from [] = Inr []"
| "subtree_roots_from ((root, end_height) # rest) =
     (case hex_decode root of
        None \<Rightarrow> Inl (BadHex root)
      | Some bytes \<Rightarrow>
          sum_bind (subtree_roots_from rest) (\<lambda>roots.
          Inr (\<lparr>root_hash = bytes, completing_height = end_height\<rparr> # roots)))"

definition subtree_roots_for_pool :: "'n node \<Rightarrow> string \<Rightarrow> 'n \<Rightarrow> (zebra_error + subtree_root_info list) \<times> 'n" where
  "subtree_roots_for_pool node pool n =
     (case call_as node read_subtrees ''z_getsubtreesbyindex'' (Array [String pool, json_int 0]) n of
        (Inl e, n) \<Rightarrow> (Inl e, n)
      | (Inr subtrees, n) \<Rightarrow> (subtree_roots_from subtrees, n))"

section \<open>Blocks\<close>

text \<open>
  A parsed block, as the transaction library gives it.  The elements of the shielded bundles are already in their compact
  form (the library converts them one by one), and a coinbase transaction is named by its identifier.
\<close>

record 'txid transparent_bundle =
  tb_is_coinbase :: bool
  tb_vin :: "('txid \<times> nat) list"
  tb_vout :: "(u64 \<times> u8 list) list"

record ('txid, 'sp, 'out, 'act) full_tx =
  fx_txid :: 'txid
  fx_transparent :: "'txid transparent_bundle option"
  fx_sapling :: "('sp list \<times> 'out list) option"
  fx_orchard :: "'act list option"
  fx_ironwood :: "'act list option"

record ('txid, 'sp, 'out, 'act) full_block =
  fb_claimed_height :: u32
  fb_hash :: "u8 list"
  fb_prev_block :: "u8 list"
  fb_time :: u32
  fb_vtx :: "('txid, 'sp, 'out, 'act) full_tx list"

record ('txid, 'sp, 'out, 'act) compact_tx =
  ct_index :: nat
  ct_txid :: 'txid
  ct_spends :: "'sp list"
  ct_outputs :: "'out list"
  ct_actions :: "'act list"
  ct_ironwood_actions :: "'act list"

record ('txid, 'sp, 'out, 'act) served_block =
  sb_height :: nat
  sb_hash :: "u8 list"
  sb_prev_hash :: "u8 list"
  sb_time :: u32
  sb_vtx :: "('txid, 'sp, 'out, 'act) compact_tx list"
  sb_sapling_size :: u32
  sb_orchard_size :: u32
  sb_ironwood_size :: u32

definition or_default :: "'a list option \<Rightarrow> 'a list" where
  "or_default x = (case x of Some v \<Rightarrow> v | None \<Rightarrow> [])"

definition compact_tx_of :: "nat \<times> ('txid, 'sp, 'out, 'act) full_tx \<Rightarrow> ('txid, 'sp, 'out, 'act) compact_tx" where
  "compact_tx_of it =
     (let (index, tx) = it
      in \<lparr>ct_index = index, ct_txid = fx_txid tx,
          ct_spends = or_default (map_option fst (fx_sapling tx)),
          ct_outputs = or_default (map_option snd (fx_sapling tx)),
          ct_actions = or_default (fx_orchard tx),
          ct_ironwood_actions = or_default (fx_ironwood tx)\<rparr>)"

definition block_to_compact ::
  "('txid, 'sp, 'out, 'act) full_block \<Rightarrow> u32 \<Rightarrow> u32 \<Rightarrow> u32 \<Rightarrow> ('txid, 'sp, 'out, 'act) served_block" where
  "block_to_compact b sapling_size orchard_size ironwood_size =
     \<lparr>sb_height = unat (fb_claimed_height b), sb_hash = fb_hash b, sb_prev_hash = fb_prev_block b, sb_time = fb_time b,
      sb_vtx = map compact_tx_of (enumerate 0 (fb_vtx b)),
      sb_sapling_size = sapling_size, sb_orchard_size = orchard_size, sb_ironwood_size = ironwood_size\<rparr>"

definition tx_transparent_outputs :: "nat \<Rightarrow> ('txid, 'sp, 'out, 'act) full_tx \<Rightarrow> 'txid transparent_utxo list" where
  "tx_transparent_outputs height tx =
     (case fx_transparent tx of
        None \<Rightarrow> []
      | Some bundle \<Rightarrow>
          (let coinbase_tx = (if tb_is_coinbase bundle then Some (fx_txid tx) else None)
           in map (\<lambda>(index, value_zat, script). \<lparr>tu_txid = fx_txid tx, tu_index = index, tu_value_zat = value_zat, tu_script = script,
                   tu_height = Some height, tu_coinbase_tx = coinbase_tx, tu_coinbase = (coinbase_tx \<noteq> None)\<rparr>)
                (enumerate 0 (tb_vout bundle))))"

definition block_transparent_outputs :: "('txid, 'sp, 'out, 'act) full_block \<Rightarrow> nat \<Rightarrow> 'txid transparent_utxo list" where
  "block_transparent_outputs b height = concat (map (tx_transparent_outputs height) (fb_vtx b))"

definition tx_transparent_spends :: "nat \<Rightarrow> ('txid, 'sp, 'out, 'act) full_tx \<Rightarrow> 'txid transparent_spend list" where
  "tx_transparent_spends height tx =
     (case fx_transparent tx of
        None \<Rightarrow> []
      | Some bundle \<Rightarrow>
          if tb_is_coinbase bundle then []
          else map (\<lambda>(prevout, index). \<lparr>ts_prevout_txid = prevout, ts_prevout_index = index, ts_spending_txid = fx_txid tx,
                 ts_height = height\<rparr>) (tb_vin bundle))"

definition block_transparent_spends :: "('txid, 'sp, 'out, 'act) full_block \<Rightarrow> nat \<Rightarrow> 'txid transparent_spend list" where
  "block_transparent_spends b height = concat (map (tx_transparent_spends height) (fb_vtx b))"

definition block_raw :: "'n node \<Rightarrow> string \<Rightarrow> 'n \<Rightarrow> (zebra_error + u8 list) \<times> 'n" where
  "block_raw node hash_or_height n =
     (case call_as node as_str ''getblock'' (Array [String hash_or_height, json_int 0]) n of
        (Inl e, n) \<Rightarrow> (Inl e, n)
      | (Inr hex_str, n) \<Rightarrow> ((case hex_decode (trim hex_str) of Some bytes \<Rightarrow> Inr bytes | None \<Rightarrow> Inl (BadHex hex_str)), n))"

definition read_tree_size :: "json \<Rightarrow> u32 option" where
  "read_tree_size v =
     (case v of
        Object _ \<Rightarrow> map_option (\<lambda>s. case s of Some n \<Rightarrow> n | None \<Rightarrow> 0) (optional_field as_u32 ''size'' v)
      | _ \<Rightarrow> None)"

definition size_or_zero :: "u32 option \<Rightarrow> u32" where
  "size_or_zero s = (case s of Some n \<Rightarrow> n | None \<Rightarrow> 0)"

definition read_trees :: "json \<Rightarrow> (u32 \<times> u32 \<times> u32) option" where
  "read_trees v =
     (case v of
        Object _ \<Rightarrow>
          Option.bind (optional_field read_tree_size ''sapling'' v) (\<lambda>sapling.
          Option.bind (optional_field read_tree_size ''orchard'' v) (\<lambda>orchard.
          map_option (\<lambda>ironwood. (size_or_zero sapling, size_or_zero orchard, size_or_zero ironwood))
            (optional_field read_tree_size ''ironwood'' v)))
      | _ \<Rightarrow> None)"

definition read_verbose_block :: "json \<Rightarrow> (u32 \<times> u32 \<times> u32) option" where
  "read_verbose_block v =
     (case v of
        Object _ \<Rightarrow> map_option (\<lambda>t. case t of Some sizes \<Rightarrow> sizes | None \<Rightarrow> (0, 0, 0)) (optional_field read_trees ''trees'' v)
      | _ \<Rightarrow> None)"

definition block_trees :: "'n node \<Rightarrow> string \<Rightarrow> 'n \<Rightarrow> (zebra_error + (u32 \<times> u32 \<times> u32)) \<times> 'n" where
  "block_trees node hash n = call_as node read_verbose_block ''getblock'' (Array [String hash, json_int 1]) n"

text \<open>\<open>materialize_block\<close>; \<open>parse\<close> is the block reader of the library.\<close>

definition materialize_block ::
  "'n node \<Rightarrow> (u8 list \<Rightarrow> ('txid, 'sp, 'out, 'act) full_block option) \<Rightarrow> bool \<Rightarrow> u32 \<Rightarrow> 'n \<Rightarrow>
   (zebra_error + ('txid, 'sp, 'out, 'act) served_block \<times> 'txid transparent_utxo list \<times> 'txid transparent_spend list) \<times> 'n" where
  "materialize_block node parse include_transparent height n =
     (case block_raw node (show_nat (unat height)) n of
        (Inl e, n) \<Rightarrow> (Inl e, n)
      | (Inr raw, n) \<Rightarrow>
          (case parse raw of
             None \<Rightarrow> (Inl (UnreadableBlock height), n)
           | Some b \<Rightarrow>
               if fb_claimed_height b \<noteq> height then (Inl (WrongBlockHeight (fb_claimed_height b) height), n)
               else if length (fb_vtx b) > 65535 then (Inl (TooManyTransactions height (length (fb_vtx b))), n)
               else (case block_trees node (hex_encode (rev (fb_hash b))) n of
                   (Inl e, n) \<Rightarrow> (Inl e, n)
                 | (Inr (sapling_size, orchard_size, ironwood_size), n) \<Rightarrow>
                     (Inr (block_to_compact b sapling_size orchard_size ironwood_size,
                           if include_transparent then block_transparent_outputs b (unat height) else [],
                           if include_transparent then block_transparent_spends b (unat height) else []), n))))"

section \<open>The block pump\<close>

text \<open>
  \<open>pump_blocks\<close> with the reader of its channel.  Fetches overlap: a window of heights is in flight, each finished or not;
  only the first may leave it, when it is finished and the channel has room.  \<open>fetch h\<close> is what the fetch of height \<open>h\<close>
  comes to.
\<close>

definition BLOCK_FETCH_CONCURRENCY :: nat where "BLOCK_FETCH_CONCURRENCY = 32"
definition BLOCK_FETCH_BUFFER :: nat where "BLOCK_FETCH_BUFFER = 64"

record ('e, 'b) pump =
  pu_next :: nat
  pu_flight :: "(nat \<times> bool) list"
  pu_channel :: "('e + 'b) list"
  pu_taken :: "('e + 'b) list"
  pu_closed :: bool
  pu_dropped :: bool

definition pump_start :: "nat \<Rightarrow> ('e, 'b) pump" where
  "pump_start start = \<lparr>pu_next = start, pu_flight = [], pu_channel = [], pu_taken = [], pu_closed = False, pu_dropped = False\<rparr>"

inductive pump_step :: "(nat \<Rightarrow> 'e + 'b) \<Rightarrow> nat \<Rightarrow> ('e, 'b) pump \<Rightarrow> ('e, 'b) pump \<Rightarrow> bool" for fetch stop where
  launch: "\<not> pu_closed p \<Longrightarrow> pu_next p \<le> stop \<Longrightarrow> length (pu_flight p) < BLOCK_FETCH_CONCURRENCY \<Longrightarrow>
    pump_step fetch stop p (p\<lparr>pu_next := pu_next p + 1, pu_flight := pu_flight p @ [(pu_next p, False)]\<rparr>)"
| fetched: "pu_flight p = xs @ (h, False) # ys \<Longrightarrow>
    pump_step fetch stop p (p\<lparr>pu_flight := xs @ (h, True) # ys\<rparr>)"
| send_block: "\<not> pu_closed p \<Longrightarrow> pu_flight p = (h, True) # rest \<Longrightarrow> length (pu_channel p) < BLOCK_FETCH_BUFFER \<Longrightarrow> fetch h = Inr b \<Longrightarrow>
    pump_step fetch stop p (p\<lparr>pu_flight := rest, pu_channel := pu_channel p @ [Inr b]\<rparr>)"
| send_error: "\<not> pu_closed p \<Longrightarrow> pu_flight p = (h, True) # rest \<Longrightarrow> length (pu_channel p) < BLOCK_FETCH_BUFFER \<Longrightarrow> fetch h = Inl e \<Longrightarrow>
    pump_step fetch stop p (p\<lparr>pu_flight := [], pu_channel := pu_channel p @ [Inl e], pu_closed := True\<rparr>)"
| exhausted: "\<not> pu_closed p \<Longrightarrow> pu_flight p = [] \<Longrightarrow> stop < pu_next p \<Longrightarrow> pump_step fetch stop p (p\<lparr>pu_closed := True\<rparr>)"
| receive: "\<not> pu_dropped p \<Longrightarrow> pu_channel p = r # rest \<Longrightarrow>
    pump_step fetch stop p (p\<lparr>pu_channel := rest, pu_taken := pu_taken p @ [r]\<rparr>)"
| drop_stream: "pump_step fetch stop p (p\<lparr>pu_flight := [], pu_channel := [], pu_closed := True, pu_dropped := True\<rparr>)"

text \<open>The stream one block at a time: fetch the next height, stop at the first error.\<close>

primrec sequential :: "(nat \<Rightarrow> 'e + 'b) \<Rightarrow> nat \<Rightarrow> nat \<Rightarrow> ('e + 'b) list" where
  "sequential fetch start 0 = []"
| "sequential fetch start (Suc k) = fetch start # (if isl (fetch start) then [] else sequential fetch (Suc start) k)"

section \<open>The mempool poller\<close>

text \<open>
  One pass of \<open>poll_mempool\<close> over the listed identifiers: what it yields, what it has seen, and the error that ended it.
  A subscriber that drops the stream ends the task; nobody observes what it would have yielded.
\<close>

fun poll_listed ::
  "(string \<Rightarrow> call_error + json) \<Rightarrow> string set \<Rightarrow> string list \<Rightarrow> (string \<times> u8 list) list \<times> string set \<times> zebra_error option" where
  "poll_listed get seen [] = ([], seen, None)"
| "poll_listed get seen (txid # txids) =
     (if txid \<in> seen then poll_listed get seen txids
      else let seen = insert txid seen
           in case get txid of
               Inr v \<Rightarrow>
                 (case Option.bind (read_verbose_tx v) (\<lambda>t. hex_decode (trim (vt_hex t))) of
                    None \<Rightarrow> poll_listed get seen txids
                  | Some bytes \<Rightarrow> (let (raws, rest) = poll_listed get seen txids in ((txid, bytes) # raws, rest)))
             | Inl e \<Rightarrow>
                 if tx_unknown e then poll_listed get seen txids
                 else ([], seen, Some (CallFailed ''getrawtransaction'' e)))"

text \<open>What the node answers in one pass: the listing, each transaction, and the best hash after the pause.\<close>

record poll_answers =
  pa_listing :: "zebra_error + string list"
  pa_tx :: "string \<Rightarrow> call_error + json"
  pa_best :: "zebra_error + string"

datatype poll_end = StillPolling "string set" | NewBlock | PollError zebra_error

text \<open>The poller over a number of passes: what each of them yields, and how it stands after them.\<close>

fun poll_mempool :: "string \<Rightarrow> string set \<Rightarrow> poll_answers list \<Rightarrow> (string \<times> u8 list) list list \<times> poll_end" where
  "poll_mempool baseline seen [] = ([], StillPolling seen)"
| "poll_mempool baseline seen (a # answers) =
     (case pa_listing a of
        Inl e \<Rightarrow> ([[]], PollError e)
      | Inr txids \<Rightarrow>
          (case poll_listed (pa_tx a) (seen \<inter> set txids) txids of
             (raws, seen, Some e) \<Rightarrow> ([raws], PollError e)
           | (raws, seen, None) \<Rightarrow>
               (case pa_best a of
                  Inl e \<Rightarrow> ([raws], PollError e)
                | Inr best \<Rightarrow>
                    if best \<noteq> baseline then ([raws], NewBlock)
                    else let (more, fin) = poll_mempool baseline seen answers in (raws # more, fin))))"

section \<open>A refusal is never an acceptance\<close>

lemma call_reply_code: "call_reply r = Inl (Rpc code message) \<Longrightarrow> code \<noteq> 0"
  by (auto simp: call_reply_def error_of_envelope_def RPC_ERROR_UNSPECIFIED_CODE_def
      split: sum.splits prod.splits option.splits if_splits)

lemma i32_or_min_nonzero: "code \<noteq> 0 \<Longrightarrow> i32_or_min code \<noteq> 0"
  by (simp add: i32_or_min_def)

definition reply_success :: "http_reply \<Rightarrow> bool" where
  "reply_success r =
     (case r of
        Inr (status, Inr envelope) \<Rightarrow> 200 \<le> status \<and> status < 300 \<and> json_get ''error'' envelope \<in> {None, Some Null}
      | _ \<Rightarrow> False)"

lemma call_reply_success: "(\<exists>v. call_reply r = Inr v) \<longleftrightarrow> reply_success r"
  by (auto simp: call_reply_def reply_success_def split: sum.splits prod.splits option.splits)

text \<open>C31. A broadcast counts as accepted exactly when the node answered with a success status and no error member: an error
  envelope without a code, with a code that is not a number or with the code 0 is a rejection.
\<close>

theorem broadcast_accepts_success_only:
  assumes "zebra_broadcast_tx node bytes n = (Inr outcome, n')"
  shows "is_accepted outcome \<longleftrightarrow> reply_success (fst (node ''sendrawtransaction'' (Array [String (hex_encode bytes)]) n))"
proof -
  obtain r m where r: "node ''sendrawtransaction'' (Array [String (hex_encode bytes)]) n = (r, m)"
    by (cases "node ''sendrawtransaction'' (Array [String (hex_encode bytes)]) n")
  show ?thesis
  proof (cases "call_reply r")
    case (Inl e)
    then obtain code message where e: "e = Rpc code message" and "outcome = \<lparr>bo_error_code = i32_or_min code, bo_error_message = message\<rparr>"
      using assms r by (auto simp: zebra_broadcast_tx_def zcall_def split: call_error.splits)
    then show ?thesis
      using Inl r call_reply_code [of r code message] call_reply_success [of r] by (auto simp: is_accepted_def i32_or_min_nonzero)
  next
    case (Inr v)
    then show ?thesis
      using assms r call_reply_success [of r] by (auto simp: zebra_broadcast_tx_def zcall_def is_accepted_def broadcast_accepted_def)
  qed
qed

section \<open>The search for the transactions of an address\<close>

text \<open>
  A node that indexes addresses: \<open>txs h\<close> are the transactions of block \<open>h\<close> that touch the addresses, a query answers with
  those of its range in chain order, or refuses when they are more than \<open>limit\<close>.
\<close>

definition in_range :: "(nat \<Rightarrow> string list) \<Rightarrow> u32 \<times> u32 \<Rightarrow> string list" where
  "in_range txs r = concat (map txs [unat (fst r)..<Suc (unat (snd r))])"

definition indexes :: "'n node \<Rightarrow> string list \<Rightarrow> (nat \<Rightarrow> string list) \<Rightarrow> nat \<Rightarrow> bool" where
  "indexes node addresses txs limit \<longleftrightarrow>
     (\<forall>lo hi n. \<exists>message. contains message ''narrow the height range'' \<and>
        zcall node ''getaddresstxids'' (address_query addresses lo hi) n =
          (if length (in_range txs (lo, hi)) \<le> limit then Inr (Array (map String (in_range txs (lo, hi))))
           else Inl (Rpc (- 8) message), n))"

lemma read_strings_String: "read_strings (Array (map String xs)) = Some xs"
proof -
  have "those (map Some xs) = Some xs" for xs :: "string list"
    by (induction xs) auto
  then show ?thesis
    by (simp add: read_strings_def as_str_def comp_def)
qed

lemma in_range_split:
  assumes "lo < hi"
  shows "in_range txs (lo, hi) = in_range txs (lo, lo + (hi - lo) div 2) @ in_range txs (lo + (hi - lo) div 2 + 1, hi)"
proof -
  let ?m = "unat lo + (unat hi - unat lo) div 2"
  have "[unat lo..<Suc (unat hi)] = [unat lo..<Suc ?m] @ [Suc ?m..<Suc (unat hi)]"
    using midpoint(3) [OF assms] upt_add_eq_append [of "unat lo" "Suc ?m" "Suc (unat hi) - Suc ?m"] by simp
  then show ?thesis
    using midpoint(1,2) [OF assms] by (simp add: in_range_def del: upt_Suc)
qed

definition blocks_fit :: "(nat \<Rightarrow> string list) \<Rightarrow> nat \<Rightarrow> u32 \<times> u32 \<Rightarrow> bool" where
  "blocks_fit txs limit r \<longleftrightarrow> (\<forall>h. unat (fst r) \<le> h \<and> h \<le> unat (snd r) \<longrightarrow> length (txs h) \<le> limit)"

lemma blocks_fit_split:
  assumes "lo < hi" "blocks_fit txs limit (lo, hi)"
  shows "blocks_fit txs limit (lo, lo + (hi - lo) div 2)" "blocks_fit txs limit (lo + (hi - lo) div 2 + 1, hi)"
  using assms(2) midpoint [OF assms(1)] by (auto simp: blocks_fit_def)

lemma in_range_single:
  assumes "length (in_range txs (lo, hi)) > limit" "blocks_fit txs limit (lo, hi)"
  shows "lo < hi"
proof (rule ccontr)
  assume "\<not> lo < hi"
  then have "\<not> unat lo < unat hi"
    by (simp add: word_less_nat_alt)
  then consider "unat hi < unat lo" | "unat hi = unat lo"
    by linarith
  then show False
    using assms by cases (auto simp: in_range_def blocks_fit_def)
qed

lemma address_ranges_exact:
  "indexes node addresses txs limit \<Longrightarrow> list_all (blocks_fit txs limit) pending \<Longrightarrow>
     address_ranges node addresses pending found n = (Inr (found @ concat (map (in_range txs) pending)), n)"
proof (induction node addresses pending found n rule: address_ranges.induct)
  case (1 node addresses pending found n)
  show ?case
  proof (cases pending)
    case Nil
    then show ?thesis by (simp add: address_ranges.simps)
  next
    case (Cons r rest)
    obtain lo hi where pending: "pending = (lo, hi) # rest"
      using Cons by (cases r) auto
    obtain message where large: "contains message ''narrow the height range''" and answer:
      "zcall node ''getaddresstxids'' (address_query addresses lo hi) n =
         (if length (in_range txs (lo, hi)) \<le> limit then Inr (Array (map String (in_range txs (lo, hi)))) else Inl (Rpc (- 8) message), n)"
      using "1.prems"(1) unfolding indexes_def by metis
    show ?thesis
    proof (cases "length (in_range txs (lo, hi)) \<le> limit")
      case True
      then show ?thesis
        using "1.IH"(2) [OF pending refl answer [unfolded if_P [OF True], symmetric] refl read_strings_String] "1.prems"
        by (subst address_ranges.simps) (simp add: pending answer read_strings_String)
    next
      case False
      then have lt: "lo < hi"
        using in_range_single [of limit txs lo hi] "1.prems"(2) pending by simp
      have again: "lo < hi \<and> (case Rpc (- 8) message of Rpc code message \<Rightarrow> is_address_query_too_large code message | _ \<Rightarrow> False)"
        using lt large by (simp add: is_address_query_too_large_def)
      show ?thesis
        using "1.IH"(1) [OF pending refl answer [unfolded if_not_P [OF False], symmetric] refl again refl] "1.prems"
          False again blocks_fit_split [OF lt] lt
        by (subst address_ranges.simps) (simp add: pending answer in_range_split Let_def)
    qed
  qed
qed

text \<open>C17. The search over a node that refuses large answers returns what one unlimited query would: every transaction of the range,
  once, in chain order, however often the range had to be halved, as long as each single block fits.
\<close>

theorem address_search_exact:
  assumes "indexes node addresses txs limit" "\<And>h. unat start \<le> h \<Longrightarrow> h \<le> unat stop \<Longrightarrow> length (txs h) \<le> limit"
  shows "address_tx_ids node addresses start stop n = (Inr (concat (map txs [unat start..<Suc (unat stop)])), n)"
  using address_ranges_exact [OF assms(1), of "[(start, stop)]" "[]" n] assms(2)
  by (simp add: address_tx_ids_def in_range_def blocks_fit_def)

section \<open>The pump delivers what a sequential stream would\<close>

inductive_cases pump_stepE: "pump_step fetch stop p q"

lemma sequential_prefix:
  assumes "d \<le> k" "\<And>h. start \<le> h \<Longrightarrow> h < start + d \<Longrightarrow> \<not> isl (fetch h)"
  shows "sequential fetch start k = map fetch [start..<start + d] @ sequential fetch (start + d) (k - d)"
  using assms
proof (induction d arbitrary: start k)
  case (Suc d)
  obtain j where k: "k = Suc j"
    using Suc.prems(1) by (cases k) auto
  have "sequential fetch (Suc start) j = map fetch [Suc start..<Suc start + d] @ sequential fetch (Suc start + d) (j - d)"
    using Suc.prems k by (intro Suc.IH) auto
  then show ?case
    using Suc.prems(2) [of start] k by (simp add: upt_rec [of start])
qed simp

definition pump_out :: "('e, 'b) pump \<Rightarrow> ('e + 'b) list" where
  "pump_out p = pu_taken p @ pu_channel p"

text \<open>The blocks delivered are those below the first height in flight, and all of them were fetched.\<close>

definition pump_open :: "(nat \<Rightarrow> 'e + 'b) \<Rightarrow> nat \<Rightarrow> nat \<Rightarrow> ('e, 'b) pump \<Rightarrow> bool" where
  "pump_open fetch start stop p \<longleftrightarrow>
     pump_out p = map fetch [start..<start + length (pump_out p)] \<and>
     (\<forall>h. start \<le> h \<and> h < start + length (pump_out p) \<longrightarrow> \<not> isl (fetch h)) \<and>
     map fst (pu_flight p) = [start + length (pump_out p)..<pu_next p] \<and>
     start + length (pump_out p) \<le> pu_next p \<and> pu_next p \<le> max start (Suc stop)"

definition pump_inv :: "(nat \<Rightarrow> 'e + 'b) \<Rightarrow> nat \<Rightarrow> nat \<Rightarrow> ('e, 'b) pump \<Rightarrow> bool" where
  "pump_inv fetch start stop p \<longleftrightarrow>
     length (pu_flight p) \<le> BLOCK_FETCH_CONCURRENCY \<and> length (pu_channel p) \<le> BLOCK_FETCH_BUFFER \<and>
     (if pu_dropped p then pu_channel p = [] \<and> prefix (pu_taken p) (sequential fetch start (Suc stop - start)) \<and> pu_flight p = [] \<and> pu_closed p
      else if pu_closed p then pump_out p = sequential fetch start (Suc stop - start) \<and> pu_flight p = []
      else pump_open fetch start stop p)"

lemma pump_open_sequential:
  assumes "pump_open fetch start stop p"
  shows "sequential fetch start (Suc stop - start) =
    pump_out p @ sequential fetch (start + length (pump_out p)) (Suc stop - start - length (pump_out p))"
proof (cases "pump_out p = []")
  case False
  then have "0 < length (pump_out p)"
    by simp
  moreover have "start + length (pump_out p) \<le> max start (Suc stop)"
    using assms unfolding pump_open_def by linarith
  ultimately have "length (pump_out p) \<le> Suc stop - start"
    by simp
  moreover have "pump_out p = map fetch [start..<start + length (pump_out p)]"
      "\<And>h. start \<le> h \<Longrightarrow> h < start + length (pump_out p) \<Longrightarrow> \<not> isl (fetch h)"
    using assms unfolding pump_open_def by blast+
  ultimately show ?thesis
    using sequential_prefix [of "length (pump_out p)" "Suc stop - start" start fetch] by simp
qed simp

text \<open>The head of the window is the next height to deliver.\<close>

lemma pump_open_head:
  assumes "pump_open fetch start stop p" "pu_flight p = (h, ready) # rest"
  shows "h = start + length (pump_out p) \<and> h < pu_next p \<and> map fst rest = [Suc h..<pu_next p] \<and> h \<le> stop \<and> start \<le> h"
proof -
  let ?d = "start + length (pump_out p)"
  have heads: "h # map fst rest = [?d..<pu_next p]" and upper: "pu_next p \<le> max start (Suc stop)"
    using assms by (auto simp: pump_open_def)
  then have "?d < pu_next p"
    by (cases "?d < pu_next p") auto
  then show ?thesis
    using heads upper by (auto simp: upt_rec [of ?d])
qed

lemma pump_inv_open: "pump_inv fetch start stop p \<Longrightarrow> \<not> pu_closed p \<Longrightarrow> pump_open fetch start stop p \<and> \<not> pu_dropped p"
  by (auto simp: pump_inv_def split: if_splits)

lemma pump_inv_flight: "pump_inv fetch start stop p \<Longrightarrow> pu_flight p \<noteq> [] \<Longrightarrow> \<not> pu_closed p"
  by (auto simp: pump_inv_def split: if_splits)

lemma pump_inv_taken:
  assumes "pump_inv fetch start stop p"
  shows "prefix (pu_taken p) (sequential fetch start (Suc stop - start))"
proof -
  consider "pu_dropped p" | "pump_out p = sequential fetch start (Suc stop - start)" | "pump_open fetch start stop p"
    using assms by (auto simp: pump_inv_def split: if_splits)
  then show ?thesis
  proof cases
    case 1
    then show ?thesis using assms by (simp add: pump_inv_def)
  next
    case 2
    then show ?thesis by (metis pump_out_def prefixI)
  next
    case 3
    then show ?thesis
      using pump_open_sequential [OF 3] by (metis append_assoc pump_out_def prefixI)
  qed
qed

lemma pump_step_inv:
  assumes "pump_step fetch stop p q" "pump_inv fetch start stop p"
  shows "pump_inv fetch start stop q"
  using assms(1)
proof cases
  case launch
  note opened = pump_inv_open [OF assms(2) launch(2)]
  have "pump_open fetch start stop q"
    using opened launch by (auto simp: pump_open_def pump_out_def)
  then show ?thesis
    using assms(2) opened launch by (auto simp: pump_inv_def)
next
  case (fetched xs h ys)
  then have closed: "\<not> pu_closed p"
    using pump_inv_flight [OF assms(2)] by simp
  note opened = pump_inv_open [OF assms(2) closed]
  have "pump_open fetch start stop q"
    using opened fetched by (auto simp: pump_open_def pump_out_def)
  then show ?thesis
    using assms(2) opened closed fetched by (auto simp: pump_inv_def)
next
  case (send_block h rest b)
  have opened: "pump_open fetch start stop p" "\<not> pu_dropped p"
    using assms(2) send_block by (auto simp: pump_inv_def split: if_splits)
  note head = pump_open_head [OF opened(1) send_block(3)]
  have "pump_open fetch start stop q"
    using opened(1) head send_block by (auto simp: pump_open_def pump_out_def less_Suc_eq)
  then show ?thesis
    using assms(2) opened send_block by (auto simp: pump_inv_def)
next
  case (send_error h rest e)
  have opened: "pump_open fetch start stop p" "\<not> pu_dropped p"
    using assms(2) send_error by (auto simp: pump_inv_def split: if_splits)
  note head = pump_open_head [OF opened(1) send_error(3)]
  then obtain k where "Suc stop - start - length (pump_out p) = Suc k"
    by (cases "Suc stop - start - length (pump_out p)") auto
  then have "sequential fetch start (Suc stop - start) = pump_out p @ [Inl e]"
    using pump_open_sequential [OF opened(1)] head send_error by simp
  then show ?thesis
    using assms(2) opened send_error by (auto simp: pump_inv_def pump_out_def)
next
  case exhausted
  have opened: "pump_open fetch start stop p" "\<not> pu_dropped p"
    using assms(2) exhausted by (auto simp: pump_inv_def split: if_splits)
  have "[start + length (pump_out p)..<pu_next p] = []" "start + length (pump_out p) \<le> pu_next p"
    using opened(1) exhausted by (auto simp: pump_open_def)
  then have "start + length (pump_out p) = pu_next p"
    by auto
  then have "Suc stop - start - length (pump_out p) = 0"
    using exhausted by auto
  then show ?thesis
    using assms(2) opened exhausted pump_open_sequential [OF opened(1)] by (auto simp: pump_inv_def pump_out_def)
next
  case (receive r rest)
  then have "pump_out q = pump_out p"
    by (simp add: pump_out_def)
  then show ?thesis
    using assms(2) receive by (auto simp: pump_inv_def pump_open_def)
next
  case drop_stream
  then show ?thesis
    using pump_inv_taken [OF assms(2)] by (auto simp: pump_inv_def BLOCK_FETCH_CONCURRENCY_def BLOCK_FETCH_BUFFER_def)
qed

lemma pump_reachable_inv: "(pump_step fetch stop)\<^sup>*\<^sup>* (pump_start start) p \<Longrightarrow> pump_inv fetch start stop p"
proof (induction rule: rtranclp_induct)
  case base
  then show ?case
    by (auto simp: pump_inv_def pump_open_def pump_start_def pump_out_def BLOCK_FETCH_CONCURRENCY_def BLOCK_FETCH_BUFFER_def)
qed (rule pump_step_inv)

text \<open>C16. However the fetches overlap, the reader of the block stream sees a prefix of what fetching one height after the other
  gives, and all of it, up to the first error, once the pump has closed the channel of a stream that was not dropped; at
  most 32 blocks are in flight and 64 queued.
\<close>

theorem pump_equals_sequential:
  assumes "(pump_step fetch stop)\<^sup>*\<^sup>* (pump_start start) p"
  shows "prefix (pu_taken p) (sequential fetch start (Suc stop - start)) \<and>
    (pu_closed p \<and> \<not> pu_dropped p \<longrightarrow> pu_taken p @ pu_channel p = sequential fetch start (Suc stop - start)) \<and>
    length (pu_flight p) \<le> 32 \<and> length (pu_channel p) \<le> 64"
proof -
  have inv: "pump_inv fetch start stop p"
    by (rule pump_reachable_inv [OF assms])
  then show ?thesis
    using pump_inv_taken [OF inv] by (auto simp: pump_inv_def pump_out_def BLOCK_FETCH_CONCURRENCY_def BLOCK_FETCH_BUFFER_def split: if_splits)
qed

section \<open>What the poller yields\<close>

definition decoded_tx :: "(string \<Rightarrow> call_error + json) \<Rightarrow> string \<Rightarrow> u8 list option" where
  "decoded_tx get txid =
     (case get txid of Inr v \<Rightarrow> Option.bind (read_verbose_tx v) (\<lambda>t. hex_decode (trim (vt_hex t))) | Inl _ \<Rightarrow> None)"

lemma poll_listed_exact:
  assumes "poll_listed get seen txids = (raws, seen', None)"
  shows "seen' = seen \<union> set txids \<and> distinct (map fst raws) \<and>
    set raws = {(t, bytes). t \<in> set txids \<and> t \<notin> seen \<and> decoded_tx get t = Some bytes}"
  using assms
proof (induction txids arbitrary: seen raws seen')
  case (Cons txid txids)
  consider (old) "txid \<in> seen" | (skip) "txid \<notin> seen" "decoded_tx get txid = None"
    | (yield) bytes where "txid \<notin> seen" "decoded_tx get txid = Some bytes"
    by (cases "decoded_tx get txid") auto
  then show ?case
  proof cases
    case old
    then have "poll_listed get seen txids = (raws, seen', None)"
      using Cons.prems by simp
    from Cons.IH [OF this] show ?thesis
      using old by auto
  next
    case skip
    then have "poll_listed get (insert txid seen) txids = (raws, seen', None)"
      using Cons.prems by (auto simp: decoded_tx_def Let_def split: sum.splits if_splits option.splits)
    from Cons.IH [OF this] show ?thesis
      using skip by auto
  next
    case yield
    then obtain v where "get txid = Inr v" "Option.bind (read_verbose_tx v) (\<lambda>t. hex_decode (trim (vt_hex t))) = Some bytes"
      by (auto simp: decoded_tx_def split: sum.splits)
    then obtain more where more: "poll_listed get (insert txid seen) txids = (more, seen', None)" "raws = (txid, bytes) # more"
      using Cons.prems yield by (auto simp: Let_def split: prod.splits)
    from Cons.IH [OF this(1)] show ?thesis
      using yield more(2) by auto
  qed
qed simp

lemma poll_round_exact:
  assumes "poll_listed get (seen \<inter> set txids) txids = (raws, seen', None)"
  shows "seen' = set txids" "distinct (map fst raws)"
    "set raws = {(t, bytes). t \<in> set txids \<and> t \<notin> seen \<and> decoded_tx get t = Some bytes}"
  using poll_listed_exact [OF assms] by auto

definition listed_in :: "poll_answers \<Rightarrow> string set" where
  "listed_in a = (case pa_listing a of Inr txids \<Rightarrow> set txids | Inl _ \<Rightarrow> {})"

lemma poll_mempool_exact:
  assumes "poll_mempool baseline seen answers = (yields, fin)" "\<And>e. fin \<noteq> PollError e" "i < length yields"
  shows "i < length answers \<and> distinct (map fst (yields ! i)) \<and>
    set (yields ! i) = {(t, bytes). t \<in> listed_in (answers ! i) \<and>
      t \<notin> (if i = 0 then seen else listed_in (answers ! (i - 1))) \<and> decoded_tx (pa_tx (answers ! i)) t = Some bytes}"
  using assms
proof (induction answers arbitrary: seen yields i)
  case (Cons a answers)
  obtain txids where txids: "pa_listing a = Inr txids"
    using Cons.prems by (cases "pa_listing a") auto
  obtain raws seen' where raws: "poll_listed (pa_tx a) (seen \<inter> set txids) txids = (raws, seen', None)"
    using Cons.prems txids by (auto split: prod.splits option.splits)
  obtain best where best: "pa_best a = Inr best"
    using Cons.prems txids raws by (cases "pa_best a") auto
  note this_round = poll_round_exact [OF raws]
  have here: "yields ! 0 = raws"
    using Cons.prems txids raws best by (auto split: if_splits prod.splits)
  have first: ?case if "i = 0"
    using that this_round(2,3) here txids by (simp add: listed_in_def)
  show ?case
  proof (cases i)
    case (Suc j)
    then obtain more where more: "poll_mempool baseline seen' answers = (more, fin)" "yields = raws # more"
      using Cons.prems txids raws best by (auto split: if_splits prod.splits)
    have "j < length answers \<and> distinct (map fst (more ! j)) \<and>
        set (more ! j) = {(t, bytes). t \<in> listed_in (answers ! j) \<and>
          t \<notin> (if j = 0 then seen' else listed_in (answers ! (j - 1))) \<and> decoded_tx (pa_tx (answers ! j)) t = Some bytes}"
      using Cons.prems(2,3) Suc more by (intro Cons.IH) auto
    then show ?thesis
      using Suc more(2) this_round(1) txids by (cases j) (simp_all add: listed_in_def)
  qed (rule first)
qed simp

text \<open>C30. While the tip stands, a pass of the poller yields exactly the transactions of its listing that the listing before did not
  have and that the node could serve, each once: nothing is yielded twice while it stays in the mempool, and a transaction
  that left and came back is yielded again.
\<close>

theorem poller_yields_arrivals:
  assumes "poll_mempool baseline {} answers = (yields, fin)" "\<And>e. fin \<noteq> PollError e" "i < length yields"
  shows "distinct (map fst (yields ! i)) \<and>
    set (yields ! i) = {(t, bytes). t \<in> listed_in (answers ! i) \<and> (i = 0 \<or> t \<notin> listed_in (answers ! (i - 1))) \<and>
      decoded_tx (pa_tx (answers ! i)) t = Some bytes}"
  using poll_mempool_exact [OF assms] by (auto split: if_splits)

section \<open>Nodes for the witnesses\<close>

text \<open>A node whose error envelopes carry no code, and one that indexes two blocks and serves one transaction per answer.\<close>

definition codeless_node :: "unit node" where
  "codeless_node method params n = (Inr (200, Inr (Object [(''error'', Object [(''message'', String ''down'')])])), n)"

definition two_blocks :: "nat \<Rightarrow> string list" where
  "two_blocks h = (if h = 5 then [''aa''] else if h = 6 then [''bb''] else [])"

definition answer_range :: "u32 \<Rightarrow> u32 \<Rightarrow> json" where
  "answer_range lo hi =
     (if length (in_range two_blocks (lo, hi)) \<le> 1 then Object [(''result'', Array (map String (in_range two_blocks (lo, hi))))]
      else Object [(''error'', Object [(''code'', json_int (- 8)), (''message'', String ''narrow the height range'')])])"

definition indexing_node :: "unit node" where
  "indexing_node method params n =
     ((case params of
         Array [Object [_, (_, lo), (_, hi)]] \<Rightarrow>
           (case (as_u32 lo, as_u32 hi) of (Some lo, Some hi) \<Rightarrow> Inr (200, Inr (answer_range lo hi)) | _ \<Rightarrow> Inl ''bad'')
       | _ \<Rightarrow> Inl ''bad''), n)"

lemma as_u32_json_int: "as_u32 (json_int (uint (h :: u32))) = Some h"
proof -
  have "nat (uint h) = unat h" "unat h \<le> 2 ^ 32 - 1"
    using unsigned_less [of h, where ?'a = nat] by simp_all
  then show ?thesis
    by (simp add: as_u32_def json_int_def)
qed

lemma as_i64_minus_eight: "as_i64 (json_int (- 8)) = Some (- 8)"
  by code_simp

lemma indexing_node_indexes: "indexes indexing_node addresses two_blocks 1"
proof -
  have "contains ''narrow the height range'' ''narrow the height range''"
    by code_simp
  then show ?thesis
    unfolding indexes_def
    by (intro allI exI [of _ "''narrow the height range''"])
      (simp add: zcall_def indexing_node_def address_query_def as_u32_json_int answer_range_def call_reply_def json_get_def
        error_of_envelope_def as_i64_minus_eight as_str_def)
qed

definition same_listing :: poll_answers where
  "same_listing = \<lparr>pa_listing = Inr [''t''], pa_tx = (\<lambda>_. Inr (Object [(''hex'', String ''0a'')])), pa_best = Inr ''tip''\<rparr>"

theorem broadcast_accepts_success_only_witness:
  "\<not> is_accepted \<lparr>bo_error_code = - 1, bo_error_message = ''down''\<rparr>"
proof -
  have "zebra_broadcast_tx codeless_node [] () = (Inr \<lparr>bo_error_code = - 1, bo_error_message = ''down''\<rparr>, ())"
    by (simp add: zebra_broadcast_tx_def zcall_def codeless_node_def call_reply_def json_get_def error_of_envelope_def as_str_def
        RPC_ERROR_UNSPECIFIED_CODE_def i32_or_min_def)
  from broadcast_accepts_success_only [OF this] show ?thesis
    by (simp add: codeless_node_def reply_success_def json_get_def)
qed

theorem address_search_exact_witness:
  "address_tx_ids indexing_node [''addr''] 5 6 () = (Inr [''aa'', ''bb''], ())"
proof -
  have "[unat (5 :: u32)..<Suc (unat (6 :: u32))] = [5, 6]"
    by (simp add: upt_rec)
  moreover have "length (two_blocks h) \<le> 1" for h
    by (simp add: two_blocks_def)
  ultimately show ?thesis
    using address_search_exact [OF indexing_node_indexes [of "[''addr'']"], of 5 6 "()"]
    by (simp add: two_blocks_def)
qed

theorem pump_equals_sequential_witness:
  "\<exists>p. (pump_step (\<lambda>h. Inr h :: string + nat) 5)\<^sup>*\<^sup>* (pump_start 5) p \<and> pu_closed p \<and>
     pu_taken p @ pu_channel p = sequential (\<lambda>h. Inr h) 5 1"
proof -
  let ?f = "\<lambda>h. Inr h :: string + nat" and ?p = "\<lambda>nx fl ch cl. \<lparr>pu_next = nx, pu_flight = fl, pu_channel = ch, pu_taken = [], pu_closed = cl, pu_dropped = False\<rparr>"
  have "pump_step ?f 5 (?p 5 [] [] False) (?p 6 [(5, False)] [] False)"
    using pump_step.launch [of "?p 5 [] [] False" 5 ?f] by (simp add: BLOCK_FETCH_CONCURRENCY_def)
  moreover have "pump_step ?f 5 (?p 6 [(5, False)] [] False) (?p 6 [(5, True)] [] False)"
    using pump_step.fetched [of "?p 6 [(5, False)] [] False" "[]" 5 "[]" ?f 5] by simp
  moreover have "pump_step ?f 5 (?p 6 [(5, True)] [] False) (?p 6 [] [Inr 5] False)"
    using pump_step.send_block [of "?p 6 [(5, True)] [] False" 5 "[]" ?f 5 5] by (simp add: BLOCK_FETCH_BUFFER_def)
  moreover have "pump_step ?f 5 (?p 6 [] [Inr 5] False) (?p 6 [] [Inr 5] True)"
    using pump_step.exhausted [of "?p 6 [] [Inr 5] False" 5 ?f] by simp
  ultimately have run: "(pump_step ?f 5)\<^sup>*\<^sup>* (pump_start 5) (?p 6 [] [Inr 5] True)"
    unfolding pump_start_def by (meson converse_rtranclp_into_rtranclp rtranclp.rtrancl_refl)
  show ?thesis
    using pump_equals_sequential [OF run] run by (intro exI [of _ "?p 6 [] [Inr 5] True"]) simp
qed

theorem poller_yields_arrivals_witness:
  "fst (poll_mempool ''tip'' {} [same_listing, same_listing]) ! 1 = []"
proof -
  have decoded: "decoded_tx (pa_tx same_listing) ''t'' = Some [10]"
    by (simp add: same_listing_def) code_simp
  have "\<exists>bytes. poll_mempool ''tip'' {} [same_listing, same_listing] = ([[(''t'', bytes)], []], StillPolling {''t''})"
    using decoded by (simp add: same_listing_def decoded_tx_def)
  then obtain bytes where run: "poll_mempool ''tip'' {} [same_listing, same_listing] = ([[(''t'', bytes)], []], StillPolling {''t''})" ..
  have "set ([[(''t'', bytes)], []] ! 1) = {}"
    using poller_yields_arrivals [OF run, of 1] by simp
  then show ?thesis
    using run by simp
qed

end
