(* ===== verification/Spec2Isabelle.thy ===== *)
theory Spec2Isabelle
  imports Amount Operations Tx_Size Address Shard Chain_Hub Sync_Engine Rpc_Server Send_Pipeline Enhance Wallet_Send_Rpc Transparent_Addresses Migrate Shutdown_Drain Fleet Proxy Account_Binding Block_Wait Backend Zebra_Source
begin

text \<open>
  zecd is a wallet server: it keeps the wallets of one chain in databases of the librustzcash crates, follows an
  upstream node, and answers Bitcoin Core's JSON-RPC dialect.  This library models its own logic, one theory per
  component, and proves the properties that make each component correct.  File names are those under \<open>src/\<close>.

  \<^bold>\<open>How the parts interact.\<close>  A request enters the HTTP handler (\<open>server/mod.rs\<close>), is authenticated
  (\<open>server/auth.rs\<close>), read as JSON-RPC (\<open>server/jsonrpc.rs\<close>) and dispatched (\<open>rpc/mod.rs\<close>) to a handler that
  looks its wallet up in the registry (\<open>wallet/mod.rs\<close>).  Writes go as commands to the wallet's actor
  (\<open>wallet/actor.rs\<close>), the single owner of the wallet database; long sends are tracked as asynchronous operations
  (\<open>operations.rs\<close>).  The actor connects to the upstream through the hub all wallets share (\<open>chain/hub.rs\<close>),
  downloads and scans blocks batch by batch (\<open>sync/engine.rs\<close>, \<open>sync/memcache.rs\<close>), keeps the decrypted seed
  (\<open>wallet/keys.rs\<close>), and builds, proves, stores and broadcasts sends under the spending rules.

  \<^bold>\<open>The theories.\<close>

  \<^item> \<open>Zecd_Prelude\<close>, \<open>Rust_Text\<close>, \<open>Hash_Map\<close>, \<open>Actor_Monad\<close>: machine integers, JSON values, decimal strings, Rust's
    string functions on ASCII text, hash maps behind the interface \<open>keyed_map\<close>, and actions that may return, panic or
    diverge.
  \<^item> \<open>Rpc_Error\<close> (\<open>error.rs\<close>): the error codes and the HTTP status of each.
  \<^item> \<open>Amount\<close> (\<open>amount.rs\<close>): the amount codec.  The fixed-point reader accepts exactly the decimal strings of at most
    eight places in range and returns their value; printing and reading are inverse.
  \<^item> \<open>Operations\<close> (\<open>operations.rs\<close>): operations, their registry, and a step relation for every interleaving of its
    calls.  The cap on unfinished operations, the bound on the registry, that eviction never loses an unfinished
    operation, and that a result is taken exactly once are invariants of the reachable registries; that one wallet's
    calls do not see another's operations is the interface \<open>wallet_scoped\<close>, interpreted by each of the five calls.
  \<^item> \<open>Tx_Size\<close> (\<open>tx_size.rs\<close>): the size estimate at its width, its monotonicity along each count (the interface
    \<open>count_axis\<close>) and the optimality of the bisection.
  \<^item> \<open>Network\<close>, \<open>Pools\<close>, \<open>Address\<close> (\<open>coin.rs\<close>, \<open>network.rs\<close>, \<open>pools.rs\<close>, \<open>address.rs\<close>): coins, activation heights,
    receiver sets and address handling over the crates' address codec.
  \<^item> \<open>Shard\<close> (\<open>wallet/shard.rs\<close>): placing fleet members in scan domains and binding accounts by viewing key.
  \<^item> \<open>Chain\<close>, \<open>Lru\<close>, \<open>Chain_Hub\<close> (\<open>chain/mod.rs\<close>, \<open>chain/hub.rs\<close>): detection of unsupported network upgrades, the LRU
    map refined to a list in recency order, and the shared connection as a step relation: dials per generation are
    bounded, and a mempool subscriber misses no transaction.
  \<^item> \<open>Mem_Cache\<close>, \<open>Download\<close>, \<open>Sync_Engine\<close> (\<open>sync/memcache.rs\<close>, \<open>sync/engine.rs\<close>): one sync batch.  A download resumed
    after any failures equals an uninterrupted one, the transparent matching finds exactly the wallet's outputs and
    spends, a prefetched batch is used only when it is the batch wanted, and a reorganisation rewinds below the
    conflict.
  \<^item> \<open>Json_Rpc\<close>, \<open>Rpc_Auth\<close>, \<open>Rpc_Server\<close> (\<open>server/jsonrpc.rs\<close>, \<open>server/auth.rs\<close>, \<open>server/mod.rs\<close>, \<open>rpc/mod.rs\<close>,
    \<open>state.rs\<close>, the registry of \<open>wallet/mod.rs\<close>): nothing is dispatched without a login, the work queue is bounded in
    every reachable state, batches are answered in order, and each gate of the dispatch has its error.
  \<^item> \<open>Spend_Rules\<close>, \<open>Proposal_Rules\<close> (\<open>wallet/actor.rs\<close>, \<open>config.rs\<close>): the privacy ladder, funding sources,
    ZIP-317 input selection, and every guard on a built proposal.
  \<^item> \<open>Upstream_Link\<close> (\<open>wallet/actor.rs\<close>, \<open>backoff.rs\<close>): connecting, the tip, sync failures, broadcasting.
  \<^item> \<open>Seed_Lock\<close> (\<open>wallet/keys.rs\<close>, \<open>wallet/actor.rs\<close>): custody of the seed; a key is derived only while the wallet
    is unlocked.
  \<^item> \<open>Send_Actor\<close>, \<open>Send_Pipeline\<close> (\<open>wallet/actor.rs\<close>): one send on each of its paths, the catch-up before it, and the
    pipeline of sends whose proofs run off the actor, with its invariant and the drain of its queue.
  \<^item> \<open>Shutdown_Drain\<close> (\<open>wallet/actor.rs\<close>): what is finished when the daemon stops.  An accepted send is committed before
    the deadline; one still in the mailbox is abandoned.
  \<^item> \<open>Enhance\<close> (\<open>wallet/actor.rs\<close>): the requests for missing transaction data, the passes over them and the status
    published from the backlog; a drain ends, and a status says fresh only when nothing is left.
  \<^item> \<open>Transparent_Addresses\<close> (\<open>wallet/actor.rs\<close>): issuing addresses and exposing the initial window in chunks; a restore
    matches every address below the recovery horizon.
  \<^item> \<open>Account_Binding\<close> (\<open>wallet/store.rs\<close>, \<open>wallet/binding.rs\<close>): the key file and the account a wallet serves; the
    account served is the one the pin names.
  \<^item> \<open>Wallet_History\<close>, \<open>Wallet_Send_Rpc\<close> (\<open>rpc/wallet_methods.rs\<close>): the history methods (paging equals a slice of the whole
    history, polling misses nothing, totals are exact) and the sending and address methods up to the command they submit.
  \<^item> \<open>Health\<close>, \<open>Block_Wait\<close> (\<open>health.rs\<close>, \<open>rpc/blockchain.rs\<close>): the readiness probe, and the waiting calls as a step
    relation with the publishing actor, in which no wake-up is lost.
  \<^item> \<open>Migrate\<close> (\<open>migrate.rs\<close>): the layout migration over a file system whose calls may fail; an interrupted run is
    resumed to the same result.
  \<^item> \<open>Fleet\<close> (\<open>fleet.rs\<close>, \<open>node.rs\<close>): manifests, the layout over shards at startup, and the manager that loads and unloads
    wallets; a wallet is served from one shard only.
  \<^item> \<open>Proxy\<close>, \<open>Locality\<close>, \<open>Backend\<close> (\<open>socks.rs\<close>, \<open>chain/zebra.rs\<close>, \<open>backend.rs\<close>, the \<open>[backend]\<close> section of
    \<open>config.rs\<close>): proxy and server tokens, the hosts that count as local with the address parser of the standard library,
    TLS trust, the gates before a dial, and the key under which wallets share a connection.  Configured trust is never
    void, plaintext stays local unless it is allowed, the check of a configuration predicts the dial, and a connection is
    shared exactly by equal endpoints.
  \<^item> \<open>Zebra_Source\<close> (\<open>chain/zebra.rs\<close>): the operations of the chain source over zebrad's JSON-RPC.  A refusal is never read
    as an acceptance; the address search halves its range until each answer fits and loses nothing; the block pump, a step
    relation over overlapping fetches, delivers what a sequential stream would; and the mempool poller yields each arrival
    once.

  \<^bold>\<open>Conventions.\<close>  Code outside the repository is a record of functions passed to the definitions that call it
  (\<open>send_lib\<close>, \<open>upstream_api\<close>, \<open>address_codec\<close>, \<open>branch_crate\<close>, ...); what a theorem relies on of it is a hypothesis
  of that theorem, and every such theorem has a witness on a concrete instance.  A raise, a failed call and an early
  return is a value of a sum type; code that may panic or never return is a value of \<open>outcome\<close>.  Rust integers are
  words where a width matters and natural numbers where the code cannot overflow.  Random draws and clock readings
  are arguments.

  \<^bold>\<open>Loops and their bounds.\<close>  Loops over data are structural; \<open>Tx_Size.bisect\<close>, \<open>Download.download_loop\<close>,
  \<open>Wallet_History.paginate_loop\<close>, \<open>Zebra_Source.address_ranges\<close> (the widths of the ranges left), the directory loops of \<open>Fleet\<close> (the directories left) and the address parser of
  \<open>Locality\<close> (the groups left) terminate by a measure; the catch-up loop of \<open>Send_Actor\<close> is a \<open>partial_function\<close> on options,
  and that it returns is a theorem under the hypothesis that the scan queue shrinks with each pass that did work.  Two
  loops carry fuel, and for both a theorem gives a fuel that is enough: the drain of \<open>Enhance\<close>, and the passes of
  \<open>Transparent_Addresses.prepare_passes\<close>, one per thousand addresses.  The drain of \<open>Shutdown_Drain\<close> takes the clock readings
  before its deadline as a list; the waiting loop of \<open>Block_Wait\<close> is a step relation whose end after the deadline is a
  theorem.

  \<^bold>\<open>Not modelled.\<close>  The SQL of \<open>wallet/read.rs\<close> (its meaning is the database engine's); the lightwalletd adapter
  (\<open>chain/lwd.rs\<close>); the RPC handlers that only shape JSON; configuration sections other than \<open>[backend]\<close>; opening, creating
  and locking wallets (\<open>wallet/open.rs\<close>, \<open>init.rs\<close>, \<open>lock.rs\<close>); the wiring of the process, its hardening and logging; the
  typed client; and, of the actor, its select loop, merges, coinbase shielding, message signing and rebroadcasting.
\<close>

end
